(* ===== verification/Prelude.thy ===== *)
theory Prelude
  imports Main "HOL-Library.AList" "HOL-Library.Multiset"
begin

section \<open>Prelude: results, Go maps, 64-bit arithmetic, Go strings\<close>

text \<open>
  What every component of the development shares: the three ways a Go call ends, Go maps as
  association lists with an explicit visiting order for \<^verbatim>\<open>range\<close>, the wrap-around of
  \<^verbatim>\<open>int64\<close>, and the parts of the packages \<^verbatim>\<open>strings\<close> and
  \<^verbatim>\<open>strconv\<close> the program uses.
\<close>

named_theorems gomap_simps \<open>rewriting Go map lookups through the list operations\<close>

subsection \<open>Ends of a call\<close>

text \<open>A Go call returns a value, returns a non-nil error, or panics.\<close>

datatype 'a go = Ok 'a | Error string | Panic string

text \<open>Instants are nanoseconds since the Unix epoch, durations nanoseconds.\<close>

type_synonym time = int
type_synonym duration = int

definition second :: duration where
  "second = 1000000000"

definition millisecond :: duration where
  "millisecond = 1000000"

text \<open>The zero value of \<^verbatim>\<open>time.Time\<close>: January 1 of the year 1, UTC.\<close>

definition zero_time :: time where
  "zero_time = - 62135596800 * second"

subsection \<open>Go maps\<close>

text \<open>
  A Go map is an association list: \<open>map_of\<close> looks a key up, \<open>AList.update\<close> stores,
  \<open>AList.delete\<close> is \<^verbatim>\<open>delete\<close>, \<open>length\<close> is \<^verbatim>\<open>len\<close>.
  The keys of a map that a program built are distinct.
\<close>

type_synonym ('k, 'v) gomap = "('k \<times> 'v) list"

definition gm_ok :: "('k, 'v) gomap \<Rightarrow> bool" where
  "gm_ok m \<longleftrightarrow> distinct (map fst m)"

lemma gm_ok_Nil [simp, intro]: "gm_ok []"
  by (simp add: gm_ok_def)

lemma gm_ok_single [simp, intro]: "gm_ok [(k, v)]"
  by (simp add: gm_ok_def)

lemma gm_ok_update [simp, intro]: "gm_ok m \<Longrightarrow> gm_ok (AList.update k v m)"
  by (simp add: gm_ok_def distinct_update)

lemma gm_ok_delete [simp, intro]: "gm_ok m \<Longrightarrow> gm_ok (AList.delete k m)"
  by (simp add: gm_ok_def distinct_delete)

lemma map_of_update [simp]: "map_of (AList.update k v m) = (map_of m)(k \<mapsto> v)"
  by (simp add: update_conv')

lemma map_of_delete [simp]: "map_of (AList.delete k m) = (map_of m)(k := None)"
  by (simp add: delete_conv')

lemma gm_in_set: "gm_ok m \<Longrightarrow> (k, v) \<in> set m \<longleftrightarrow> map_of m k = Some v"
  by (simp add: gm_ok_def)

lemma gm_ball: "gm_ok m \<Longrightarrow> (\<forall>(k, v) \<in> set m. P k v) \<longleftrightarrow> (\<forall>k v. map_of m k = Some v \<longrightarrow> P k v)"
  by (auto simp: gm_in_set)

lemma gm_Nil_iff: "m = [] \<longleftrightarrow> (\<forall>k. map_of m k = None)"
proof (cases m)
  case (Cons a l)
  then have "map_of m (fst a) = Some (snd a)" by simp
  with Cons show ?thesis by force
qed simp

lemma gm_delete_Nil: "AList.delete k m = [] \<Longrightarrow> map_of m k' = Some v \<Longrightarrow> k' = k"
  by (metis fun_upd_apply map_of.simps(1) map_of_delete option.distinct(1))

lemma gm_snd_set: "gm_ok m \<Longrightarrow> p \<in> snd ` set m \<longleftrightarrow> (\<exists>k. map_of m k = Some p)"
  by (force simp flip: gm_in_set)

lemma map_of_None_notin: "map_of m k = None \<longleftrightarrow> k \<notin> fst ` set m"
  by (simp add: map_of_eq_None_iff)

lemma set_delete_subset: "set (AList.delete k m) \<subseteq> set m"
  by (auto simp: AList.delete_eq)

lemma length_delete_present:
  "gm_ok m \<Longrightarrow> map_of m k = Some v \<Longrightarrow> Suc (length (AList.delete k m)) = length m"
proof (induction m)
  case Nil
  then show ?case by simp
next
  case (Cons a m)
  then have ok: "gm_ok m" and new: "fst a \<notin> fst ` set m"
    by (auto simp: gm_ok_def)
  show ?case
  proof (cases "fst a = k")
    case True
    with new have "AList.delete k m = m"
      by (simp add: delete_id)
    with True show ?thesis by (cases a) simp
  next
    case False
    with Cons ok show ?thesis by (cases a) (auto split: if_splits)
  qed
qed

lemma length_update_absent: "map_of m k = None \<Longrightarrow> length (AList.update k v m) = Suc (length m)"
  by (induction m) (auto split: if_splits)

lemma length_update_present:
  "map_of m k = Some w \<Longrightarrow> length (AList.update k v m) = length m"
  by (induction m) (auto split: if_splits)

lemma gm_mset_eqI:
  assumes "gm_ok m" "gm_ok m'" "map_of m = map_of m'"
  shows "mset m = mset m'"
proof -
  have "set m = set m'" using assms by (auto simp: gm_in_set)
  moreover have "distinct m" "distinct m'" using assms(1,2) by (auto simp: gm_ok_def distinct_map)
  ultimately show ?thesis by (simp add: set_eq_iff_mset_eq_distinct)
qed

lemma gm_length: "gm_ok m \<Longrightarrow> length m = card (dom (map_of m))"
  by (metis distinct_card dom_map_of_conv_image_fst gm_ok_def length_map list.set_map)

lemma gm_length_mono:
  "gm_ok m \<Longrightarrow> gm_ok m' \<Longrightarrow> (\<And>k. map_of m' k \<noteq> None \<Longrightarrow> map_of m k \<noteq> None) \<Longrightarrow> length m' \<le> length m"
  by (simp add: gm_length) (rule card_mono, auto simp: finite_dom_map_of)

text \<open>
  \<^verbatim>\<open>range\<close> over a map visits the entries in an order the language leaves open. A loop of the
  model therefore takes an order code: \<open>reorder c xs\<close> visits first the element of \<open>xs\<close> the head of
  the code selects, then the rest by the tail of the code. Every code gives a permutation
  (\<open>mset_reorder\<close>) and every permutation has a code (\<open>reorder_complete\<close>), so a statement for
  all codes is a statement for all orders the language allows.
\<close>

type_synonym order = "nat list"

fun reorder :: "order \<Rightarrow> 'a list \<Rightarrow> 'a list" where
  "reorder [] xs = xs"
| "reorder (i # c) [] = []"
| "reorder (i # c) (x # xs) =
     (let n = i mod Suc (length xs) in
      (x # xs) ! n # reorder c (take n (x # xs) @ drop (Suc n) (x # xs)))"

lemma mset_take_nth_drop:
  "n < length xs \<Longrightarrow> add_mset (xs ! n) (mset (take n xs @ drop (Suc n) xs)) = mset xs"
  by (metis add_mset_add_single id_take_nth_drop mset.simps(2) mset_append union_mset_add_mset_right)

lemma mset_reorder [simp]: "mset (reorder c xs) = mset xs"
proof (induction c xs rule: reorder.induct)
  case (3 i c x xs)
  let ?n = "i mod Suc (length xs)"
  have "?n < length (x # xs)" by simp
  then have "add_mset ((x # xs) ! ?n) (mset (take ?n (x # xs) @ drop (Suc ?n) (x # xs))) = mset (x # xs)"
    by (rule mset_take_nth_drop)
  with 3 show ?case by (simp add: Let_def del: mset_append)
qed simp_all

lemma set_reorder [simp]: "set (reorder c xs) = set xs"
  by (metis mset_reorder set_mset_mset)

lemma length_reorder [simp]: "length (reorder c xs) = length xs"
  by (metis mset_reorder size_mset)

lemma reorder_Nil [simp]: "reorder c [] = []"
  by (cases c) auto

lemma reorder_eq_Nil [simp]: "reorder c xs = [] \<longleftrightarrow> xs = []"
  by (metis length_0_conv length_reorder)

lemma gm_ok_reorder [simp, intro]: "gm_ok m \<Longrightarrow> gm_ok (reorder c m)"
  unfolding gm_ok_def by (metis mset_map mset_reorder mset_eq_imp_distinct_iff)

lemma map_of_reorder [simp]: "gm_ok m \<Longrightarrow> map_of (reorder c m) = map_of m"
  by (rule map_of_inject_set[THEN iffD2]) (use gm_ok_reorder in \<open>auto simp: gm_ok_def\<close>)

lemma reorder_complete: "mset ys = mset xs \<Longrightarrow> \<exists>c. reorder c xs = ys"
proof (induction ys arbitrary: xs)
  case (Cons y ys)
  from Cons.prems have "y \<in> set xs" by (metis list.set_intros(1) mset_eq_setD)
  then obtain n where n: "n < length xs" "xs ! n = y" by (auto simp: in_set_conv_nth)
  let ?r = "take n xs @ drop (Suc n) xs"
  have "mset ys = mset ?r"
    using mset_take_nth_drop[OF n(1)] Cons.prems n(2)
    by (metis add_mset_add_mset_same_iff mset.simps(2))
  from Cons.IH[OF this] obtain c where c: "reorder c ?r = ys" ..
  from n(1) obtain x xs' where xs: "xs = x # xs'" by (cases xs) auto
  with n(1) have "n mod Suc (length xs') = n" by simp
  with c n(2) xs have "reorder (n # c) xs = y # ys" by (simp add: Let_def)
  then show ?case ..
qed auto

subsection \<open>Decimal numbers\<close>

text \<open>\<^verbatim>\<open>strconv.Itoa\<close>, \<^verbatim>\<open>fmt.Sprint\<close> and \<^verbatim>\<open>\%d\<close> of an integer.\<close>

definition digit_char :: "nat \<Rightarrow> char" where
  "digit_char d = char_of (48 + d)"

fun nat_dec :: "nat \<Rightarrow> string" where
  "nat_dec n = (if n < 10 then [digit_char n] else nat_dec (n div 10) @ [digit_char (n mod 10)])"

declare nat_dec.simps [simp del]

definition itoa :: "int \<Rightarrow> string" where
  "itoa i = (if i < 0 then ''-'' @ nat_dec (nat (- i)) else nat_dec (nat i))"

definition is_digit :: "char \<Rightarrow> bool" where
  "is_digit c \<longleftrightarrow> 48 \<le> (of_char c :: nat) \<and> (of_char c :: nat) \<le> 57"

definition digit_val :: "char \<Rightarrow> int" where
  "digit_val c = int (of_char c) - 48"

subsection \<open>Integers of 64 bits\<close>

text \<open>\<^verbatim>\<open>int\<close> and \<^verbatim>\<open>int64\<close>: the two's complement residue of a value.\<close>

definition wrap64 :: "int \<Rightarrow> int" where
  "wrap64 x = (x + 2 ^ 63) mod 2 ^ 64 - 2 ^ 63"

definition int64 :: "int \<Rightarrow> bool" where
  "int64 x \<longleftrightarrow> - (2 ^ 63) \<le> x \<and> x < 2 ^ 63"

lemma wrap64_id [simp]: "int64 x \<Longrightarrow> wrap64 x = x"
  by (simp add: wrap64_def int64_def)

lemma int64_wrap64 [simp]: "int64 (wrap64 x)"
proof -
  have "0 \<le> (x + 2 ^ 63) mod 2 ^ 64" "(x + 2 ^ 63) mod 2 ^ 64 < (2 ^ 64 :: int)"
    by (simp_all add: pos_mod_bound pos_mod_sign)
  then show ?thesis by (simp add: wrap64_def int64_def)
qed

lemma wrap64_wrap64 [simp]: "wrap64 (wrap64 x) = wrap64 x"
  by simp

end
