(* ===== verification/GoStrings.thy ===== *)
theory GoStrings
  imports Prelude
begin

section \<open>Strings as the program handles them\<close>

text \<open>
  A Go string is a list of bytes. This theory models what the program uses of the packages
  \<^verbatim>\<open>strings\<close>, \<^verbatim>\<open>unicode/utf8\<close> and \<^verbatim>\<open>fmt\<close>: runes and their encoding, trimming, splitting,
  lower case, patterns with one number; and the helpers of \<^verbatim>\<open>tools/common.go\<close> built on them.
\<close>

subsection \<open>Runes\<close>

definition byte_at :: "string \<Rightarrow> nat \<Rightarrow> nat" where
  "byte_at s i = (if i < length s then of_char (s ! i) else 0)"

definition in_range :: "nat \<Rightarrow> nat \<Rightarrow> nat \<Rightarrow> bool" where
  "in_range lo hi b \<longleftrightarrow> lo \<le> b \<and> b \<le> hi"

abbreviation is_cont :: "nat \<Rightarrow> bool" where
  "is_cont \<equiv> in_range 0x80 0xBF"

text \<open>
  The first rune of a string and the number of bytes it takes. An encoding that is too long, a
  surrogate, a value past U+10FFFF or a sequence cut short gives U+FFFD for one byte.
\<close>

definition decode_rune :: "string \<Rightarrow> nat \<times> nat" where
  "decode_rune s =
     (let b0 = byte_at s 0; b1 = byte_at s 1; b2 = byte_at s 2; b3 = byte_at s 3 in
      if b0 < 0x80 then (b0, 1)
      else if in_range 0xC2 0xDF b0 \<and> is_cont b1 then ((b0 - 0xC0) * 64 + (b1 - 0x80), 2)
      else if in_range 0xE0 0xEF b0 \<and> is_cont b1 \<and> is_cont b2 \<and> (b0 = 0xE0 \<longrightarrow> 0xA0 \<le> b1) \<and> (b0 = 0xED \<longrightarrow> b1 \<le> 0x9F)
        then ((b0 - 0xE0) * 4096 + (b1 - 0x80) * 64 + (b2 - 0x80), 3)
      else if in_range 0xF0 0xF4 b0 \<and> is_cont b1 \<and> is_cont b2 \<and> is_cont b3 \<and> (b0 = 0xF0 \<longrightarrow> 0x90 \<le> b1) \<and> (b0 = 0xF4 \<longrightarrow> b1 \<le> 0x8F)
        then ((b0 - 0xF0) * 262144 + (b1 - 0x80) * 4096 + (b2 - 0x80) * 64 + (b3 - 0x80), 4)
      else (0xFFFD, 1))"

definition encode_rune :: "nat \<Rightarrow> string" where
  "encode_rune r =
     (if r < 0x80 then [char_of r]
      else if r < 0x800 then [char_of (0xC0 + r div 64), char_of (0x80 + r mod 64)]
      else if r < 0x10000 then [char_of (0xE0 + r div 4096), char_of (0x80 + r div 64 mod 64), char_of (0x80 + r mod 64)]
      else [char_of (0xF0 + r div 262144), char_of (0x80 + r div 4096 mod 64), char_of (0x80 + r div 64 mod 64),
            char_of (0x80 + r mod 64)])"

text \<open>The runes of a string, each with its bytes.\<close>

function runes :: "string \<Rightarrow> (nat \<times> string) list" where
  "runes [] = []"
| "runes (c # cs) = (case decode_rune (c # cs) of (r, w) \<Rightarrow> (r, take w (c # cs)) # runes (drop (w - 1) cs))"
  by pat_completeness auto
termination
  by (relation "measure length") auto

lemma decode_rune_width: "decode_rune s = (r, w) \<Longrightarrow> 1 \<le> w \<and> w \<le> 4"
  by (auto simp: decode_rune_def Let_def split: if_splits)

lemma runes_concat: "concat (map snd (runes s)) = s"
proof (induction s rule: runes.induct)
  case (2 c cs)
  obtain r w where rw: "decode_rune (c # cs) = (r, w)" by fastforce
  from decode_rune_width[OF rw] obtain n where "w = Suc n" by (cases w) auto
  with 2[OF rw[symmetric]] rw show ?case by simp
qed simp

lemma length_encode_rune: "length (encode_rune r) \<le> 4"
  by (simp add: encode_rune_def)

subsection \<open>Trimming\<close>

definition is_space :: "nat \<Rightarrow> bool" where
  "is_space r \<longleftrightarrow> in_range 9 13 r \<or> r \<in> {0x20, 0x85, 0xA0, 0x1680, 0x2028, 0x2029, 0x202F, 0x205F, 0x3000} \<or> in_range 0x2000 0x200A r"

definition drop_spaces :: "(nat \<times> string) list \<Rightarrow> (nat \<times> string) list" where
  "drop_spaces = dropWhile (\<lambda>x. is_space (fst x))"

definition TrimSpace :: "string \<Rightarrow> string" where
  "TrimSpace s = concat (map snd (rev (drop_spaces (rev (drop_spaces (runes s))))))"

definition ellipsis :: string where
  "ellipsis = [CHR 0xE2, CHR 0x80, CHR 0xA6]"

definition TrimPreview :: "string \<Rightarrow> string" where
  "TrimPreview s0 =
     (let s = TrimSpace s0 in
      if 120 < length (runes s) then concat (map (encode_rune \<circ> fst) (take 120 (runes s))) @ ellipsis else s)"

subsection \<open>Searching, splitting, lower case\<close>

fun str_prefix :: "string \<Rightarrow> string \<Rightarrow> bool" where
  "str_prefix [] s = True"
| "str_prefix (c # cs) [] = False"
| "str_prefix (c # cs) (d # ds) = (c = d \<and> str_prefix cs ds)"

fun str_contains :: "string \<Rightarrow> string \<Rightarrow> bool" where
  "str_contains sub [] = (sub = [])"
| "str_contains sub (c # cs) = (str_prefix sub (c # cs) \<or> str_contains sub cs)"

text \<open>\<^verbatim>\<open>strings.ReplaceAll\<close> of a word that is not empty.\<close>

fun replace_at :: "nat \<Rightarrow> string \<Rightarrow> string \<Rightarrow> string \<Rightarrow> string" where
  "replace_at n old new [] = []"
| "replace_at (Suc n) old new (c # cs) = replace_at n old new cs"
| "replace_at 0 old new (c # cs) =
     (if old \<noteq> [] \<and> str_prefix old (c # cs) then new @ replace_at (length old - 1) old new cs
      else c # replace_at 0 old new cs)"

definition ReplaceAll :: "string \<Rightarrow> string \<Rightarrow> string \<Rightarrow> string" where
  "ReplaceAll s old new = replace_at 0 old new s"

fun split_char :: "char \<Rightarrow> string \<Rightarrow> string list" where
  "split_char sep [] = [[]]"
| "split_char sep (c # cs) =
     (if c = sep then [] # split_char sep cs
      else (case split_char sep cs of [] \<Rightarrow> [[c]] | w # ws \<Rightarrow> (c # w) # ws))"

text \<open>\<^verbatim>\<open>strings.SplitN(s, sep, 2)\<close>: at most one cut.\<close>

definition split2 :: "char \<Rightarrow> string \<Rightarrow> string list" where
  "split2 sep s = (if sep \<in> set s then [takeWhile (\<lambda>c. c \<noteq> sep) s, tl (dropWhile (\<lambda>c. c \<noteq> sep) s)] else [s])"

text \<open>Lower case of the ASCII letters; the program compares the result with ASCII words.\<close>

definition lower_char :: "char \<Rightarrow> char" where
  "lower_char c = (let b = (of_char c :: nat) in if in_range 65 90 b then char_of (b + 32) else c)"

definition ToLower :: "string \<Rightarrow> string" where
  "ToLower = map lower_char"

subsection \<open>The helpers of \<^verbatim>\<open>tools/common.go\<close>\<close>

definition Nz64 :: "int \<Rightarrow> int \<Rightarrow> int" where
  "Nz64 v d = (if v = 0 then d else v)"

definition Bool2i :: "bool \<Rightarrow> int" where
  "Bool2i b = (if b then 1 else 0)"

text \<open>The environment of the process is the function \<open>env\<close>; a variable that is not set is empty.\<close>

definition GetEnv :: "(string \<Rightarrow> string) \<Rightarrow> string \<Rightarrow> string \<Rightarrow> string" where
  "GetEnv env key def = (if env key \<noteq> '''' then env key else def)"

text \<open>\<^verbatim>\<open>strconv.Atoi\<close>: an optional sign, then digits only, in 64 bits.\<close>

definition dec_val :: "string \<Rightarrow> int" where
  "dec_val s = foldl (\<lambda>n c. n * 10 + digit_val c) 0 s"

definition Atoi :: "string \<Rightarrow> int option" where
  "Atoi s =
     (let neg = (s \<noteq> [] \<and> hd s = CHR ''-''); body = (if s \<noteq> [] \<and> hd s \<in> {CHR ''-'', CHR ''+''} then tl s else s);
          v = (if neg then - dec_val body else dec_val body)
      in if body \<noteq> [] \<and> list_all is_digit body \<and> int64 v then Some v else None)"

definition GetEnvInt :: "(string \<Rightarrow> string) \<Rightarrow> string \<Rightarrow> int \<Rightarrow> int" where
  "GetEnvInt env key def = (if env key = '''' then def else case Atoi (env key) of None \<Rightarrow> def | Some i \<Rightarrow> i)"

definition GetEnvBool :: "(string \<Rightarrow> string) \<Rightarrow> string \<Rightarrow> bool \<Rightarrow> bool" where
  "GetEnvBool env key def =
     (let v = ToLower (TrimSpace (env key)) in if v = '''' then def else v \<in> {''true'', ''1'', ''yes''})"

text \<open>A header \<open>k1=v1,k2=v2\<close>; \<open>None\<close> is the nil map.\<close>

definition add_hdr :: "string \<Rightarrow> (string, string) gomap \<Rightarrow> (string, string) gomap" where
  "add_hdr p out =
     (case split2 CHR ''='' (TrimSpace p) of
        [k, v] \<Rightarrow> (if k \<noteq> '''' then AList.update k v out else out)
      | _ \<Rightarrow> out)"

definition ParseHdr :: "string \<Rightarrow> (string, string) gomap option" where
  "ParseHdr s = (if s = '''' then None else Some (fold add_hdr (split_char CHR '','' s) []))"

text \<open>\<^verbatim>\<open>strings.Join\<close>.\<close>

fun join :: "string \<Rightarrow> string list \<Rightarrow> string" where
  "join sep [] = ''''"
| "join sep [x] = x"
| "join sep (x # y # xs) = x @ sep @ join sep (y # xs)"

end
