(* ===== verification/Errors.thy ===== *)
theory Errors
  imports GoStrings
begin

section \<open>Errors with codes, details and stacks\<close>

text \<open>
  \<^verbatim>\<open>tools/errs/\<close> and \<^verbatim>\<open>tools/specialerror/\<close>: the four kinds of error values, what they
  print, how they are wrapped, unwrapped and compared, and the relation of error codes. A pointer to an
  error is its address together with what it points to: the program never changes an error, so pointers
  are equal when both are. What the runtime knows of a stack is an argument.
\<close>

subsection \<open>Error values\<close>

type_synonym addr = nat

record CodeError =
  er_Code :: int
  er_Msg :: string
  er_Detail :: string

text \<open>A frame of a stack: the function, the file and the line, if the runtime finds the function.\<close>

type_synonym frame = "(string \<times> string \<times> int) option"

datatype gerr = StrErr addr string | CodeErr addr CodeError | WrapErr addr "gerr option" string
  | StackErr addr gerr "frame list" | OtherErr addr string

definition NewCodeError :: "int \<Rightarrow> string \<Rightarrow> CodeError" where
  "NewCodeError code msg = \<lparr> er_Code = code, er_Msg = msg, er_Detail = '''' \<rparr>"

definition WithDetail :: "CodeError \<Rightarrow> string \<Rightarrow> CodeError" where
  "WithDetail e detail = e\<lparr> er_Detail := (if er_Detail e = '''' then detail else er_Detail e @ '', '' @ detail) \<rparr>"

text \<open>\<^verbatim>\<open>toString\<close>; the keys and values are the texts \<^verbatim>\<open>\%v\<close> gives of them.\<close>

definition kv_sep :: "string \<Rightarrow> string" where
  "kv_sep buf = (if buf = '''' then '''' else buf @ '', '')"

fun toString :: "string \<Rightarrow> string list \<Rightarrow> string" where
  "toString buf [] = buf"
| "toString buf [k] = kv_sep buf @ k @ ''='' @ ''MISSING''"
| "toString buf (k # v # kv) = toString (kv_sep buf @ k @ ''='' @ v) kv"

definition errs_New :: "addr \<Rightarrow> string \<Rightarrow> string list \<Rightarrow> gerr" where
  "errs_New a s kv = StrErr a (toString s kv)"

definition stack_New :: "addr \<Rightarrow> frame list \<Rightarrow> gerr \<Rightarrow> gerr" where
  "stack_New a fs err = StackErr a err fs"

definition NewErrorWrapper :: "addr \<Rightarrow> gerr option \<Rightarrow> string \<Rightarrow> gerr" where
  "NewErrorWrapper a err s = WrapErr a err s"

definition errs_Wrap :: "addr \<Rightarrow> frame list \<Rightarrow> gerr option \<Rightarrow> gerr option" where
  "errs_Wrap a fs err = (case err of None \<Rightarrow> None | Some e \<Rightarrow> Some (stack_New a fs e))"

definition errs_WrapMsg :: "addr \<Rightarrow> addr \<Rightarrow> frame list \<Rightarrow> gerr option \<Rightarrow> string \<Rightarrow> string list \<Rightarrow> gerr option" where
  "errs_WrapMsg a b fs err msg kv = (case err of None \<Rightarrow> None
     | Some e \<Rightarrow> Some (stack_New b fs (NewErrorWrapper a (Some e) (toString msg kv))))"

text \<open>A code error wrapped: as it is, or a copy with a detail.\<close>

definition CodeError_Wrap :: "addr \<Rightarrow> frame list \<Rightarrow> addr \<times> CodeError \<Rightarrow> gerr" where
  "CodeError_Wrap b fs e = stack_New b fs (CodeErr (fst e) (snd e))"

definition CodeError_WrapMsg :: "addr \<Rightarrow> addr \<Rightarrow> frame list \<Rightarrow> addr \<times> CodeError \<Rightarrow> string \<Rightarrow> string list \<Rightarrow> gerr" where
  "CodeError_WrapMsg a b fs e msg kv =
     (let c = snd e;
          c1 = (if msg \<noteq> '''' \<or> kv \<noteq> [] then
                  (let detail = toString msg kv
                   in c\<lparr> er_Detail := (if er_Detail c = '''' then detail else er_Detail c @ '', '' @ detail) \<rparr>)
                else c)
      in stack_New b fs (CodeErr a c1))"

definition ErrPanicMsg :: "addr \<Rightarrow> addr \<Rightarrow> frame list \<Rightarrow> string option \<Rightarrow> int \<Rightarrow> string \<Rightarrow> gerr option" where
  "ErrPanicMsg a b fs r code msg = (case r of None \<Rightarrow> None
     | Some txt \<Rightarrow> Some (stack_New b fs (CodeErr a \<lparr> er_Code = code, er_Msg = msg, er_Detail = txt \<rparr>)))"

definition ErrPanic :: "addr \<Rightarrow> addr \<Rightarrow> frame list \<Rightarrow> string option \<Rightarrow> gerr option" where
  "ErrPanic a b fs r = ErrPanicMsg a b fs r 500 ''panic error''"

subsection \<open>Texts\<close>

definition CodeError_Error :: "CodeError \<Rightarrow> string" where
  "CodeError_Error e = join '' '' ([itoa (er_Code e), er_Msg e] @ (if er_Detail e \<noteq> '''' then [er_Detail e] else []))"

fun stack_text :: "frame list \<Rightarrow> string" where
  "stack_text [] = ''''"
| "stack_text (None # fs) = stack_text fs"
| "stack_text (Some (name, file, line) # fs) =
     (if str_prefix ''runtime.'' name then ''''
      else '' -> '' @ name @ ''() '' @ file @ '':'' @ itoa line @ stack_text fs)"

fun err_text :: "gerr \<Rightarrow> string" where
  "err_text (StrErr a s) = s"
| "err_text (CodeErr a e) = CodeError_Error e"
| "err_text (WrapErr a None s) = ''%!s(<nil>)'' @ '' '' @ s"
| "err_text (WrapErr a (Some e) s) = err_text e @ '' '' @ s"
| "err_text (StackErr a e fs) = (if fs = [] then err_text e else ''Error: '' @ err_text e @ '' |'' @ stack_text fs)"
| "err_text (OtherErr a s) = s"

subsection \<open>The chain of an error\<close>

text \<open>\<^verbatim>\<open>err.(interface\{ Unwrap() error \})\<close>: \<open>None\<close> without such a method.\<close>

fun Unwrap_method :: "gerr \<Rightarrow> gerr option option" where
  "Unwrap_method (WrapErr a e s) = Some e"
| "Unwrap_method (StackErr a e fs) = Some (Some e)"
| "Unwrap_method _ = None"

lemma Unwrap_smaller: "Unwrap_method e = Some (Some e') \<Longrightarrow> size e' < size e"
  by (cases e) auto

function errs_Unwrap :: "gerr \<Rightarrow> gerr" where
  "errs_Unwrap e = (case Unwrap_method e of None \<Rightarrow> e | Some None \<Rightarrow> e | Some (Some e') \<Rightarrow> errs_Unwrap e')"
  by auto
termination by (relation "measure size") (auto simp: Unwrap_smaller)

declare errs_Unwrap.simps [simp del]

text \<open>\<^verbatim>\<open>errors.As\<close>: the first error of the chain of the type asked for.\<close>

function errors_As :: "(gerr \<Rightarrow> bool) \<Rightarrow> gerr \<Rightarrow> gerr option" where
  "errors_As ty e = (if ty e then Some e else
     case Unwrap_method e of Some (Some e') \<Rightarrow> errors_As ty e' | _ \<Rightarrow> None)"
  by auto
termination by (relation "measure (size \<circ> snd)") (auto simp: Unwrap_smaller)

declare errors_As.simps [simp del]

fun is_StrErr :: "gerr \<Rightarrow> bool" where
  "is_StrErr (StrErr a s) = True"
| "is_StrErr _ = False"

fun is_WrapErr :: "gerr \<Rightarrow> bool" where
  "is_WrapErr (WrapErr a e s) = True"
| "is_WrapErr _ = False"

text \<open>
  The methods \<^verbatim>\<open>Is(error) bool\<close>; the one of a code error takes a code error, so
  \<^verbatim>\<open>errors.Is\<close> does not see it.
\<close>

fun Is_method :: "gerr \<Rightarrow> gerr \<Rightarrow> bool" where
  "Is_method (StrErr a s) err = (case errors_As is_StrErr err of Some (StrErr b s') \<Rightarrow> s = s' | _ \<Rightarrow> False)"
| "Is_method (WrapErr a e s) err = (case errors_As is_WrapErr err of Some (WrapErr b e' s') \<Rightarrow> s = s' | _ \<Rightarrow> False)"
| "Is_method (StackErr a e fs) err = False"
| "Is_method _ err = False"

function errors_Is :: "gerr \<Rightarrow> gerr \<Rightarrow> bool" where
  "errors_Is e target = (if e = target \<or> Is_method e target then True else
     case Unwrap_method e of Some (Some e') \<Rightarrow> errors_Is e' target | _ \<Rightarrow> False)"
  by auto
termination by (relation "measure (size \<circ> fst)") (auto simp: Unwrap_smaller)

declare errors_Is.simps [simp del]

text \<open>\<^verbatim>\<open>errs.Error\<close> asks for \<^verbatim>\<open>Is(error)\<close>, \<^verbatim>\<open>Wrap\<close> and
  \<^verbatim>\<open>WrapMsg\<close>, \<^verbatim>\<open>errs.ErrWrapper\<close> for \<^verbatim>\<open>Unwrap\<close> too.\<close>

definition ErrString :: "gerr option \<Rightarrow> gerr option" where
  "ErrString err = (case err of None \<Rightarrow> None | Some e \<Rightarrow> errors_As (\<lambda>x. is_StrErr x \<or> is_WrapErr x) e)"

definition ErrWrapper :: "gerr option \<Rightarrow> gerr option" where
  "ErrWrapper err = (case err of None \<Rightarrow> None | Some e \<Rightarrow> errors_As is_WrapErr e)"

text \<open>The handlers are kept in a list nobody reads; a nil handler is refused.\<close>

definition AddErrHandler :: "addr \<Rightarrow> 'h option \<Rightarrow> 'h list \<Rightarrow> 'h list \<times> gerr option" where
  "AddErrHandler a h hs = (case h of None \<Rightarrow> (hs, Some (errs_New a ''nil handler'' [])) | Some x \<Rightarrow> (hs @ [x], None))"

subsection \<open>The relation of codes\<close>

type_synonym code_relation = "(int, (int, unit) gomap) gomap"

definition newCodeRelation :: code_relation where
  "newCodeRelation = []"

definition insert_code :: "int \<Rightarrow> (int, unit) gomap \<Rightarrow> (int, unit) gomap" where
  "insert_code c m = AList.update c () m"

definition under_code :: "int \<Rightarrow> code_relation \<Rightarrow> (int, unit) gomap" where
  "under_code p r = (case map_of r p of None \<Rightarrow> [] | Some m \<Rightarrow> m)"

fun Add_loop :: "int list \<Rightarrow> code_relation \<Rightarrow> code_relation" where
  "Add_loop [] r = r"
| "Add_loop [c] r = r"
| "Add_loop (p # c # cs) r = Add_loop (c # cs) (AList.update p (fold insert_code (c # cs) (under_code p r)) r)"

definition ints_text :: "int list \<Rightarrow> string" where
  "ints_text cs = ''['' @ join '' '' (map itoa cs) @ '']''"

definition codeRelation_Add :: "addr \<Rightarrow> addr \<Rightarrow> frame list \<Rightarrow> int list \<Rightarrow> code_relation \<Rightarrow> code_relation \<times> gerr option" where
  "codeRelation_Add a b fs codes r =
     (if length codes < 2 then
        (r, errs_Wrap b fs (Some (errs_New a ''codes length must be greater than 2'' [''codes'', ints_text codes])))
      else (Add_loop codes r, None))"

definition codeRelation_Is :: "code_relation \<Rightarrow> int \<Rightarrow> int \<Rightarrow> bool" where
  "codeRelation_Is r parent child =
     (if parent = child then True
      else case map_of r parent of None \<Rightarrow> False | Some s \<Rightarrow> map_of s child \<noteq> None)"

definition CodeError_Is :: "code_relation \<Rightarrow> CodeError \<Rightarrow> CodeError \<Rightarrow> bool" where
  "CodeError_Is r e err = (if er_Code e = er_Code err then True else codeRelation_Is r (er_Code e) (er_Code err))"

text \<open>The catalogue of the program's errors.\<close>

definition ErrInternalServer :: CodeError where
  "ErrInternalServer = NewCodeError 500 ''ServerInternalError''"

definition predefined :: "CodeError list" where
  "predefined = [NewCodeError 1001 ''ArgsError'', NewCodeError 1002 ''NoPermissionError'', ErrInternalServer,
     NewCodeError 1004 ''RecordNotFoundError'', NewCodeError 1003 ''DuplicateKeyError'',
     NewCodeError 1501 ''TokenExpiredError'', NewCodeError 1502 ''TokenInvalidError'', NewCodeError 1503 ''TokenMalformedError'',
     NewCodeError 1504 ''TokenNotValidYetError'', NewCodeError 1505 ''TokenUnknownError'', NewCodeError 1506 ''TokenKickedError'',
     NewCodeError 1507 ''TokenNotExistError'', NewCodeError 1520 ''OrgUserNoPermissionError'', NewCodeError 2000 ''recordIsExist'']"

lemma predefined_distinct: "distinct (map er_Code predefined)"
  by (simp add: predefined_def NewCodeError_def ErrInternalServer_def)

text \<open>No two errors of the catalogue are taken for each other while no codes are related.\<close>

lemma predefined_apart:
  "e \<in> set predefined \<Longrightarrow> e' \<in> set predefined \<Longrightarrow> CodeError_Is newCodeRelation e e' \<longleftrightarrow> e = e'"
  using predefined_distinct unfolding distinct_map
  by (auto simp: CodeError_Is_def codeRelation_Is_def newCodeRelation_def dest: inj_onD)

subsection \<open>What is found in a chain\<close>

text \<open>Any number of the package's wrappings, of errors that are not nil.\<close>

datatype wrapping = By_Wrap addr "frame list" | By_WrapMsg addr addr "frame list" string "string list"

fun wrap_once :: "wrapping \<Rightarrow> gerr \<Rightarrow> gerr" where
  "wrap_once (By_Wrap a fs) e = the (errs_Wrap a fs (Some e))"
| "wrap_once (By_WrapMsg a b fs msg kv) e = the (errs_WrapMsg a b fs (Some e) msg kv)"

lemma errors_Is_self [simp]: "errors_Is e e"
  by (subst errors_Is.simps) simp

lemma errors_Is_stack: "errors_Is e t \<Longrightarrow> errors_Is (StackErr a e fs) t"
  by (subst errors_Is.simps) simp

lemma errors_Is_wrap: "errors_Is e t \<Longrightarrow> errors_Is (WrapErr a (Some e) s) t"
  by (subst errors_Is.simps) simp

lemma errs_Unwrap_stack [simp]: "errs_Unwrap (StackErr a e fs) = errs_Unwrap e"
  by (subst errs_Unwrap.simps) simp

lemma errs_Unwrap_wrap [simp]: "errs_Unwrap (WrapErr a (Some e) s) = errs_Unwrap e"
  by (subst errs_Unwrap.simps) simp

lemma wrap_once_Is: "errors_Is e t \<Longrightarrow> errors_Is (wrap_once w e) t"
  by (cases w) (simp_all add: errs_Wrap_def errs_WrapMsg_def stack_New_def NewErrorWrapper_def errors_Is_stack errors_Is_wrap)

lemma wrap_once_Unwrap: "errs_Unwrap (wrap_once w e) = errs_Unwrap e"
  by (cases w) (simp_all add: errs_Wrap_def errs_WrapMsg_def stack_New_def NewErrorWrapper_def)

text \<open>However often an error is wrapped, \<^verbatim>\<open>errors.Is\<close> finds it and \<^verbatim>\<open>Unwrap\<close> ends where it ends for the
  error itself.\<close>

theorem wrapped_error_is_found:
  "errors_Is (fold wrap_once ws e) e \<and> errs_Unwrap (fold wrap_once ws e) = errs_Unwrap e"
proof -
  have "errors_Is x e \<Longrightarrow> errors_Is (fold wrap_once ws x) e" for x by (induction ws arbitrary: x) (simp_all add: wrap_once_Is)
  moreover have "errs_Unwrap (fold wrap_once ws x) = errs_Unwrap x" for x by (induction ws arbitrary: x) (simp_all add: wrap_once_Unwrap)
  ultimately show ?thesis by simp
qed

text \<open>
  The comparison of wrapped errors looks at their message only: two errors that have nothing in common are
  the same once they are wrapped with the same text. A code error with a detail is a copy, which
  \<^verbatim>\<open>errors.Is\<close> does not take for the original; and no code error is an \<^verbatim>\<open>errs.Error\<close>.
\<close>

theorem same_message_is_same:
  "errors_Is (NewErrorWrapper a e s) (NewErrorWrapper a' e' s)"
  by (subst errors_Is.simps) (simp add: NewErrorWrapper_def errors_As.simps[of is_WrapErr])

lemma CodeError_WrapMsg_form: "\<exists>c. CodeError_WrapMsg a b fs e msg kv = StackErr b (CodeErr a c) fs"
  by (simp add: CodeError_WrapMsg_def stack_New_def Let_def)

theorem detail_is_another_error:
  "a \<noteq> fst e \<Longrightarrow> \<not> errors_Is (CodeError_WrapMsg a b fs e msg kv) (CodeErr (fst e) (snd e))"
  using CodeError_WrapMsg_form[of a b fs e msg kv] by (auto simp: errors_Is.simps)

theorem code_error_is_no_Error:
  "ErrString (Some (CodeError_WrapMsg a b fs e msg kv)) = None \<and> ErrWrapper (Some (CodeError_WrapMsg a b fs e msg kv)) = None"
  using CodeError_WrapMsg_form[of a b fs e msg kv] by (auto simp: ErrString_def ErrWrapper_def errors_As.simps)

subsection \<open>Which codes are related\<close>

fun precedes :: "int \<Rightarrow> int \<Rightarrow> int list \<Rightarrow> bool" where
  "precedes p c [] = False"
| "precedes p c (x # xs) = (x = p \<and> c \<in> set xs \<or> precedes p c xs)"

lemma precedes_nth: "precedes p c cs \<longleftrightarrow> (\<exists>i j. i < j \<and> j < length cs \<and> cs ! i = p \<and> cs ! j = c)"
proof (induction cs)
  case (Cons x xs)
  have "(\<exists>i j. i < j \<and> j < length (x # xs) \<and> (x # xs) ! i = p \<and> (x # xs) ! j = c) \<longleftrightarrow>
      x = p \<and> (\<exists>j < length xs. xs ! j = c) \<or> (\<exists>i j. i < j \<and> j < length xs \<and> xs ! i = p \<and> xs ! j = c)" (is "?L \<longleftrightarrow> ?R")
  proof
    assume ?L
    then obtain i j where ij: "i < j" "j < length (x # xs)" "(x # xs) ! i = p" "(x # xs) ! j = c" by blast
    then obtain j' where "j = Suc j'" by (cases j) auto
    with ij show ?R by (cases i) auto
  next
    assume ?R
    then show ?L
    proof
      assume "x = p \<and> (\<exists>j < length xs. xs ! j = c)"
      then obtain j where "x = p" "j < length xs" "xs ! j = c" by blast
      then show ?L by (intro exI[of _ 0] exI[of _ "Suc j"]) simp
    next
      assume "\<exists>i j. i < j \<and> j < length xs \<and> xs ! i = p \<and> xs ! j = c"
      then obtain i j where "i < j" "j < length xs" "xs ! i = p" "xs ! j = c" by blast
      then show ?L by (intro exI[of _ "Suc i"] exI[of _ "Suc j"]) simp
    qed
  qed
  with Cons show ?case by (simp add: in_set_conv_nth)
qed simp

lemma fold_insert_code: "fst ` set (fold insert_code cs m) = set cs \<union> fst ` set m"
  by (induction cs arbitrary: m) (auto simp: insert_code_def dom_update simp flip: dom_map_of_conv_image_fst)

lemma under_update: "under_code q (AList.update p m r) = (if q = p then m else under_code q r)"
  by (simp add: under_code_def)

lemma Add_loop_under:
  "c \<in> fst ` set (under_code q (Add_loop cs r)) \<longleftrightarrow> precedes q c cs \<or> c \<in> fst ` set (under_code q r)"
proof (induction cs r rule: Add_loop.induct)
  case (3 p x xs r)
  have "c \<in> fst ` set (under_code q (AList.update p (fold insert_code (x # xs) (under_code p r)) r)) \<longleftrightarrow>
      p = q \<and> c \<in> set (x # xs) \<or> c \<in> fst ` set (under_code q r)"
    unfolding under_update using fold_insert_code[of "x # xs" "under_code p r"] by (cases "q = p") auto
  then show ?case by (simp only: Add_loop.simps(3) 3 precedes.simps(2)) blast
qed simp_all

lemma Is_under: "codeRelation_Is r p c \<longleftrightarrow> p = c \<or> c \<in> fst ` set (under_code p r)"
proof (cases "map_of r p")
  case (Some s)
  have "map_of s c \<noteq> None \<longleftrightarrow> c \<in> fst ` set s" by (simp add: map_of_eq_None_iff)
  with Some show ?thesis by (simp only: codeRelation_Is_def under_code_def option.case) simp
qed (simp add: codeRelation_Is_def under_code_def)

lemma Add_under:
  "c \<in> fst ` set (under_code q (fst (codeRelation_Add a b fs cs r))) \<longleftrightarrow> precedes q c cs \<or> c \<in> fst ` set (under_code q r)"
proof (cases "length cs < 2")
  case True
  then have "\<not> precedes q c cs" by (cases cs; cases "tl cs") auto
  with True show ?thesis by (simp add: codeRelation_Add_def)
next
  case False
  then show ?thesis by (simp add: codeRelation_Add_def Add_loop_under)
qed

text \<open>C31: which codes are related. After any calls of \<^verbatim>\<open>Add\<close>, code \<open>c\<close> is under code \<open>p\<close> exactly when they are the same
  or one of the lists has \<open>p\<close> before \<open>c\<close>; codes of different lists do not chain.\<close>
theorem code_relation_is:
  "codeRelation_Is (fold (\<lambda>cs r. fst (codeRelation_Add a b fs cs r)) css newCodeRelation) p c \<longleftrightarrow>
     p = c \<or> (\<exists>cs i j. cs \<in> set css \<and> i < j \<and> j < length cs \<and> cs ! i = p \<and> cs ! j = c)"
proof -
  have "c \<in> fst ` set (under_code p (fold (\<lambda>cs r. fst (codeRelation_Add a b fs cs r)) css r)) \<longleftrightarrow>
      (\<exists>cs. cs \<in> set css \<and> precedes p c cs) \<or> c \<in> fst ` set (under_code p r)" for r
  proof (induction css arbitrary: r)
    case (Cons cs css)
    then show ?case by (auto simp: Add_under)
  qed simp
  then have "codeRelation_Is (fold (\<lambda>cs r. fst (codeRelation_Add a b fs cs r)) css newCodeRelation) p c \<longleftrightarrow>
      p = c \<or> (\<exists>cs. cs \<in> set css \<and> precedes p c cs)" by (simp add: Is_under newCodeRelation_def under_code_def)
  then show ?thesis unfolding precedes_nth by blast
qed

end
