(* ===== verification/Globals.thy ===== *)
theory Globals
  imports Prelude
begin

section \<open>Values made once\<close>

text \<open>
  The global client of Redis (\<^verbatim>\<open>service/storage/redis/redis.go\<close>), the global store of sessions
  (\<^verbatim>\<open>service/storage/online_msr.go\<close>) and the global manager of services
  (\<^verbatim>\<open>InitDefault\<close> and \<^verbatim>\<open>Global\<close> of \<^verbatim>\<open>service/registry/manager.go\<close>), each made behind a
  \<^verbatim>\<open>sync.Once\<close>. What a server answers to a ping is an argument of the call.
\<close>

record 'c once_cell =
  oc_done :: bool
  oc_value :: "'c option"

definition fresh_cell :: "'c once_cell" where
  "fresh_cell = \<lparr> oc_done = False, oc_value = None \<rparr>"

text \<open>\<^verbatim>\<open>Do\<close> runs its function the first time it is called; it counts as called whatever the function does.\<close>

definition once_do :: "('c option \<Rightarrow> 'c option \<times> unit go) \<Rightarrow> 'c once_cell \<Rightarrow> 'c once_cell \<times> unit go" where
  "once_do f c = (if oc_done c then (c, Ok ()) else (case f (oc_value c) of (v, x) \<Rightarrow> (\<lparr> oc_done = True, oc_value = v \<rparr>, x)))"

text \<open>The error is that of the function, nil when the function does not run.\<close>

definition once_InitRedis :: "('f \<Rightarrow> 'c) \<Rightarrow> 'f \<Rightarrow> unit go \<Rightarrow> 'c once_cell \<Rightarrow> 'c once_cell \<times> unit go" where
  "once_InitRedis NewClient conf ping g = once_do (\<lambda>v. case ping of Ok _ \<Rightarrow> (Some (NewClient conf), Ok ()) | e \<Rightarrow> (v, e)) g"

definition GetRedis :: "'c once_cell \<Rightarrow> 'c go" where
  "GetRedis g = (case oc_value g of None \<Rightarrow> Panic ''Redis not initialized, call InitRedis first'' | Some c \<Rightarrow> Ok c)"

text \<open>The manager stays after its client was closed.\<close>

definition CloseRedis :: "('c \<Rightarrow> unit go) \<Rightarrow> 'c once_cell \<Rightarrow> 'c once_cell \<times> unit go" where
  "CloseRedis close g = (g, (case oc_value g of None \<Rightarrow> Ok () | Some c \<Rightarrow> close c))"

definition InitManager :: "('f \<Rightarrow> 'c) \<Rightarrow> 'f \<Rightarrow> 'c once_cell \<Rightarrow> 'c once_cell \<times> 'c go" where
  "InitManager newStore conf g = (case once_do (\<lambda>v. (Some (newStore conf), Ok ())) g of
     (g1, _) \<Rightarrow> (g1, (case oc_value g1 of None \<Rightarrow> Error ''manager initialization failed'' | Some m \<Rightarrow> Ok m)))"

definition GetManager :: "'c once_cell \<Rightarrow> 'c go" where
  "GetManager g = (case oc_value g of None \<Rightarrow> Panic ''Manager not initialized, call InitManager first'' | Some m \<Rightarrow> Ok m)"

definition InitDefault :: "('f \<Rightarrow> 'c) \<Rightarrow> 'f \<Rightarrow> 'c once_cell \<Rightarrow> 'c once_cell \<times> 'c option" where
  "InitDefault newManager args g = (case once_do (\<lambda>v. (Some (newManager args), Ok ())) g of (g1, _) \<Rightarrow> (g1, oc_value g1))"

subsection \<open>The first call decides\<close>

text \<open>Calls one after another, each with the answer to its ping, and their results.\<close>

fun init_calls :: "('f \<Rightarrow> 'c) \<Rightarrow> ('f \<times> unit go) list \<Rightarrow> 'c once_cell \<Rightarrow> 'c once_cell \<times> unit go list" where
  "init_calls NewClient [] g = (g, [])"
| "init_calls NewClient ((conf, ping) # calls) g =
     (case once_InitRedis NewClient conf ping g of (g1, x) \<Rightarrow> (case init_calls NewClient calls g1 of (g2, xs) \<Rightarrow> (g2, x # xs)))"

lemma init_calls_done: "oc_done g \<Longrightarrow> init_calls NewClient calls g = (g, map (\<lambda>_. Ok ()) calls)"
  by (induction calls) (auto simp: once_InitRedis_def once_do_def)

text \<open>
  A server that does not answer the first ping leaves the node without Redis for good: later calls do nothing and
  report success, and every use of the client panics.
\<close>

theorem first_ping_decides:
  assumes "init_calls NewClient ((conf, ping) # calls) fresh_cell = (g, xs)"
  shows "xs = ping # map (\<lambda>_. Ok ()) calls
    \<and> GetRedis g = (if ping = Ok () then Ok (NewClient conf) else Panic ''Redis not initialized, call InitRedis first'')"
  using assms by (cases ping) (auto simp: once_InitRedis_def once_do_def fresh_cell_def init_calls_done GetRedis_def)

text \<open>A closed client is handed out as before.\<close>

lemma CloseRedis_keeps: "GetRedis (fst (CloseRedis close g)) = GetRedis g"
  by (simp add: CloseRedis_def)

text \<open>The configuration of the first call is the one that counts.\<close>

lemma InitManager_first:
  assumes "InitManager newStore conf fresh_cell = (g, x)"
  shows "x = Ok (newStore conf) \<and> InitManager newStore conf' g = (g, Ok (newStore conf)) \<and> GetManager g = Ok (newStore conf)"
  using assms by (auto simp: InitManager_def once_do_def fresh_cell_def GetManager_def)

lemma InitDefault_first:
  assumes "InitDefault newManager a fresh_cell = (g, x)"
  shows "x = Some (newManager a) \<and> InitDefault newManager b g = (g, Some (newManager a))"
  using assms by (auto simp: InitDefault_def once_do_def fresh_cell_def)

end
