(* ===== verification/ConnManager.thy ===== *)
theory ConnManager
  imports Prelude
begin

section \<open>The connection manager of a gateway (\<^verbatim>\<open>service/chat/conn_manager.go\<close>)\<close>

text \<open>
  \<^verbatim>\<open>ConnManager\<close> indexes the sockets of one gateway twice: \<^verbatim>\<open>bySnow\<close> holds every
  connection under its snow id, \<^verbatim>\<open>byUser\<close> the authorised ones under their user, and the
  legacy map \<^verbatim>\<open>conns\<close> one socket per user. Entries of both indexes are pointers to the same
  \<^verbatim>\<open>WsConn\<close>, so the model keeps an explicit heap and a list for the package's
  \<^verbatim>\<open>sync.Pool\<close>. Every exported method takes the mutex once and is one step here; the clock
  reading of the method, the visiting order of its \<^verbatim>\<open>range\<close> loops and the object the pool
  hands out are arguments. Closing a socket is recorded in \<open>cm_closed\<close>.

  The invariant that ties the indexes together is the subject of the theory \<^verbatim>\<open>ConnInvariant\<close>.
\<close>

subsection \<open>Data\<close>

text \<open>A \<^verbatim>\<open>*websocket.Conn\<close> is known by its address; the calls the manager makes on it are
  those of the library, so they are functions the operations take as an argument.\<close>

type_synonym conn = nat
type_synonym ptr = nat
type_synonym bytes = string

record ws_lib =
  ws_RemoteAddr :: "conn \<Rightarrow> string option"
  ws_SetWriteDeadline :: "conn \<Rightarrow> string option"
  ws_WriteMessage :: "conn \<Rightarrow> bytes \<Rightarrow> string option"

record wsconn =
  wc_SnowID :: string
  wc_UserId :: string
  wc_Authorized :: bool
  wc_RId :: string
  wc_Conn :: "conn option"
  wc_Remote :: "string option"
  wc_CreatedAt :: time
  wc_UpdatedAt :: time
  wc_SendChan :: "nat option"
  wc_TTL :: duration
  wc_ExpireAt :: time
  wc_Heartbeat :: time

definition WsConn_zero :: wsconn where
  "WsConn_zero = \<lparr> wc_SnowID = '''', wc_UserId = '''', wc_Authorized = False, wc_RId = '''',
     wc_Conn = None, wc_Remote = None, wc_CreatedAt = zero_time, wc_UpdatedAt = zero_time,
     wc_SendChan = None, wc_TTL = 0, wc_ExpireAt = zero_time, wc_Heartbeat = zero_time \<rparr>"

record manager_conf =
  mc_UnauthTTL :: duration
  mc_AuthTTL :: duration
  mc_SweepEvery :: duration
  mc_MaxPerUser :: int
  mc_EvictOldest :: bool

definition ManagerConf_zero :: manager_conf where
  "ManagerConf_zero = \<lparr> mc_UnauthTTL = 0, mc_AuthTTL = 0, mc_SweepEvery = 0, mc_MaxPerUser = 0,
     mc_EvictOldest = False \<rparr>"

definition ManagerConf_norm :: "manager_conf \<Rightarrow> manager_conf" where
  "ManagerConf_norm c =
     (let c1 = (if mc_SweepEvery c \<le> 0 then c\<lparr>mc_SweepEvery := 100 * second\<rparr> else c);
          c2 = (if mc_UnauthTTL c1 \<le> 0 then c1\<lparr>mc_UnauthTTL := 300 * second\<rparr> else c1)
      in if mc_AuthTTL c2 \<le> 0 then c2\<lparr>mc_AuthTTL := 200 * 3600 * second\<rparr> else c2)"

record conn_manager =
  cm_conns :: "(string, conn option) gomap"
  cm_bySnow :: "(string, ptr) gomap"
  cm_byUser :: "(string, (string, ptr) gomap) gomap"
  cm_conf :: manager_conf
  cm_gwId :: string
  cm_stopped :: bool
  cm_heap :: "ptr \<Rightarrow> wsconn"
  cm_next :: ptr
  cm_pool :: "ptr list"
  cm_closed :: "conn list"

text \<open>Reading a missing key of \<^verbatim>\<open>byUser\<close> gives the nil map, which reads as empty.\<close>

definition inner_map :: "(string, (string, ptr) gomap) gomap \<Rightarrow> string \<Rightarrow> (string, ptr) gomap" where
  "inner_map bu u = (case map_of bu u of None \<Rightarrow> [] | Some mm \<Rightarrow> mm)"

definition user_conns :: "conn_manager \<Rightarrow> string \<Rightarrow> (string, ptr) gomap" where
  "user_conns m u = inner_map (cm_byUser m) u"

definition NewConnManagerWithConf :: "manager_conf \<Rightarrow> string \<Rightarrow> conn_manager" where
  "NewConnManagerWithConf conf gw = \<lparr> cm_conns = [], cm_bySnow = [], cm_byUser = [],
     cm_conf = ManagerConf_norm conf, cm_gwId = gw, cm_stopped = False,
     cm_heap = (\<lambda>_. WsConn_zero), cm_next = 0, cm_pool = [], cm_closed = [] \<rparr>"

definition NewConnManager :: "string \<Rightarrow> conn_manager" where
  "NewConnManager gw = NewConnManagerWithConf ManagerConf_zero gw"

definition ConnManager_GwId :: "conn_manager \<Rightarrow> string" where
  "ConnManager_GwId m = cm_gwId m"

subsection \<open>Helpers of the file\<close>

fun closeQuiet :: "conn option \<Rightarrow> conn_manager \<Rightarrow> conn_manager" where
  "closeQuiet None m = m"
| "closeQuiet (Some c) m = m\<lparr>cm_closed := c # cm_closed m\<rparr>"

text \<open>\<^verbatim>\<open>writeBinary\<close> gives the frames handed to the socket and the error.\<close>

definition writeBinary :: "ws_lib \<Rightarrow> conn option \<Rightarrow> bytes \<Rightarrow> (conn \<times> bytes) list \<times> string option" where
  "writeBinary W co d =
     (case co of
        None \<Rightarrow> ([], Some ''nil conn'')
      | Some c \<Rightarrow>
          (case ws_SetWriteDeadline W c of
             Some e \<Rightarrow> ([], Some e)
           | None \<Rightarrow> ([(c, d)], ws_WriteMessage W c d)))"

definition new_WsConn :: "wsconn \<Rightarrow> conn_manager \<Rightarrow> ptr \<times> conn_manager" where
  "new_WsConn w m = (cm_next m, m\<lparr>cm_heap := (cm_heap m)(cm_next m := w), cm_next := Suc (cm_next m)\<rparr>)"

definition WsConn_Release :: "ptr \<Rightarrow> conn_manager \<Rightarrow> conn_manager" where
  "WsConn_Release p m =
     m\<lparr>cm_heap := (cm_heap m)(p := (cm_heap m p)\<lparr>wc_SnowID := '''', wc_UserId := '''', wc_TTL := 0,
          wc_ExpireAt := zero_time, wc_CreatedAt := zero_time, wc_UpdatedAt := zero_time,
          wc_Heartbeat := zero_time\<rparr>),
       cm_pool := p # cm_pool m\<rparr>"

text \<open>\<^verbatim>\<open>wsConnPool.Get\<close>: the pool hands out any object it holds, or a new one.\<close>

definition wsConnPool_Get :: "nat \<Rightarrow> conn_manager \<Rightarrow> ptr \<times> conn_manager" where
  "wsConnPool_Get pick m =
     (if pick < length (cm_pool m)
      then (cm_pool m ! pick, m\<lparr>cm_pool := remove1 (cm_pool m ! pick) (cm_pool m)\<rparr>)
      else new_WsConn WsConn_zero m)"

definition acquireWsConn ::
  "ws_lib \<Rightarrow> nat \<Rightarrow> string \<Rightarrow> conn \<Rightarrow> duration \<Rightarrow> time \<Rightarrow> conn_manager \<Rightarrow> ptr \<times> conn_manager" where
  "acquireWsConn W pick sid c ttl now m =
     (let (p, m1) = wsConnPool_Get pick m;
          w = WsConn_zero\<lparr>wc_SnowID := sid, wc_UserId := '''', wc_Authorized := False,
                wc_Conn := Some c,
                wc_Remote := ws_RemoteAddr W c,
                wc_CreatedAt := now, wc_UpdatedAt := now, wc_Heartbeat := now,
                wc_TTL := ttl, wc_ExpireAt := now + ttl\<rparr>
      in (p, m1\<lparr>cm_heap := (cm_heap m1)(p := w)\<rparr>))"

text \<open>The first entry of a user's map with a socket, the replacement for a legacy entry.\<close>

fun any_conn :: "(ptr \<Rightarrow> wsconn) \<Rightarrow> (string \<times> ptr) list \<Rightarrow> conn option" where
  "any_conn h [] = None"
| "any_conn h ((sid, p) # xs) = (case wc_Conn (h p) of Some c \<Rightarrow> Some c | None \<Rightarrow> any_conn h xs)"

text \<open>The object literal of \<^verbatim>\<open>Add\<close> and \<^verbatim>\<open>AddAuthorized\<close>.\<close>

definition authorized_WsConn :: "ws_lib \<Rightarrow> string \<Rightarrow> string \<Rightarrow> conn \<Rightarrow> duration \<Rightarrow> time \<Rightarrow> wsconn" where
  "authorized_WsConn W sid user c ttl now =
     WsConn_zero\<lparr>wc_SnowID := sid, wc_UserId := user, wc_Authorized := True, wc_Conn := Some c,
       wc_Remote := ws_RemoteAddr W c, wc_CreatedAt := now, wc_UpdatedAt := now,
       wc_TTL := ttl, wc_ExpireAt := now + ttl, wc_Heartbeat := now\<rparr>"

subsection \<open>The methods of the old interface\<close>

definition ConnManager_Close :: "order \<Rightarrow> conn_manager \<Rightarrow> conn_manager" where
  "ConnManager_Close o1 m =
     (let m1 = m\<lparr>cm_stopped := True\<rparr>;
          m2 = fold (\<lambda>(sid, p) m. WsConn_Release p (closeQuiet (wc_Conn (cm_heap m p)) m))
                 (reorder o1 (cm_bySnow m1)) m1
      in m2\<lparr>cm_conns := [], cm_bySnow := [], cm_byUser := []\<rparr>)"

definition drop_user :: "order \<Rightarrow> string \<Rightarrow> conn_manager \<Rightarrow> conn_manager" where
  "drop_user o1 user m =
     (case map_of (cm_byUser m) user of
        None \<Rightarrow> m
      | Some mm \<Rightarrow>
          (let m1 = fold (\<lambda>(sid, p) m. closeQuiet (wc_Conn (cm_heap m p))
                            (m\<lparr>cm_bySnow := AList.delete sid (cm_bySnow m)\<rparr>))
                      (reorder o1 mm) m
           in m1\<lparr>cm_byUser := AList.delete user (cm_byUser m1)\<rparr>))"

definition ConnManager_Add ::
  "ws_lib \<Rightarrow> time \<Rightarrow> order \<Rightarrow> string \<Rightarrow> string \<Rightarrow> conn option \<Rightarrow> conn_manager \<Rightarrow> conn_manager" where
  "ConnManager_Add W now o1 user sid co m =
     (if user = '''' then m else
      case co of
        None \<Rightarrow> m
      | Some c \<Rightarrow>
          (let m1 = m\<lparr>cm_conns := AList.update user (Some c) (cm_conns m)\<rparr>;
               m2 = drop_user o1 user m1;
               (p, m3) = new_WsConn (authorized_WsConn W sid user c (mc_AuthTTL (cm_conf m)) now) m2
           in m3\<lparr>cm_bySnow := AList.update sid p (cm_bySnow m3),
                 cm_byUser := AList.update user [(sid, p)] (cm_byUser m3)\<rparr>))"

definition ConnManager_GetAll :: "order \<Rightarrow> string \<Rightarrow> conn_manager \<Rightarrow> conn list" where
  "ConnManager_GetAll o1 user m =
     (case map_of (cm_conns m) user of Some (Some c) \<Rightarrow> [c] | _ \<Rightarrow> [])
     @ List.map_filter (\<lambda>(sid, p). wc_Conn (cm_heap m p)) (reorder o1 (user_conns m user))"

definition ConnManager_Get :: "order \<Rightarrow> string \<Rightarrow> string \<Rightarrow> conn_manager \<Rightarrow> conn option" where
  "ConnManager_Get o1 user connId m =
     (if connId \<noteq> '''' then
        (case map_of (user_conns m user) connId of
           Some p \<Rightarrow> wc_Conn (cm_heap m p)
         | None \<Rightarrow> None)
      else
        (case map_of (cm_conns m) user of
           Some (Some c) \<Rightarrow> Some c
         | _ \<Rightarrow> any_conn (cm_heap m) (reorder o1 (user_conns m user))))"

definition ConnManager_Remove :: "order \<Rightarrow> string \<Rightarrow> conn_manager \<Rightarrow> conn_manager" where
  "ConnManager_Remove o1 user m =
     (if user = '''' then m
      else drop_user o1 user (m\<lparr>cm_conns := AList.delete user (cm_conns m)\<rparr>))"

text \<open>The broadcast loop of \<^verbatim>\<open>Send\<close> and \<^verbatim>\<open>BroadcastUser\<close>: frames written, last error.\<close>

fun write_all :: "ws_lib \<Rightarrow> (ptr \<Rightarrow> wsconn) \<Rightarrow> bytes \<Rightarrow> (string \<times> ptr) list \<Rightarrow> string option
    \<Rightarrow> (conn \<times> bytes) list \<times> string option" where
  "write_all W h d [] le = ([], le)"
| "write_all W h d ((sid, p) # xs) le =
     (let (out, e) = writeBinary W (wc_Conn (h p)) d;
          (outs, le') = write_all W h d xs (case e of None \<Rightarrow> le | Some x \<Rightarrow> Some x)
      in (out @ outs, le'))"

definition ConnManager_Send ::
  "ws_lib \<Rightarrow> order \<Rightarrow> string \<Rightarrow> bytes \<Rightarrow> conn_manager \<Rightarrow> (conn \<times> bytes) list \<times> string option" where
  "ConnManager_Send W o1 user d m =
     (let mm = user_conns m user;
          old = (case map_of (cm_conns m) user of None \<Rightarrow> None | Some c \<Rightarrow> c);
          (out, le) = write_all W (cm_heap m) d (reorder o1 mm) None
      in if length mm = 0 \<and> old \<noteq> None then
           (let (out2, e) = writeBinary W old d
            in (out @ out2, case e of None \<Rightarrow> le | Some x \<Rightarrow> Some x))
         else (out, le))"

subsection \<open>Snow ids, authorisation, heartbeats\<close>

definition ConnManager_AddUnauth ::
  "ws_lib \<Rightarrow> time \<Rightarrow> nat \<Rightarrow> string \<Rightarrow> conn option \<Rightarrow> conn_manager \<Rightarrow> conn_manager \<times> ptr go" where
  "ConnManager_AddUnauth W now pick sid co m =
     (case co of
        None \<Rightarrow> (m, Error ''snowID/conn empty'')
      | Some c \<Rightarrow>
          if sid = '''' then (m, Error ''snowID/conn empty'')
          else if map_of (cm_bySnow m) sid \<noteq> None then (m, Error ''snowID exists'')
          else
            (let (p, m1) = acquireWsConn W pick sid c (mc_UnauthTTL (cm_conf m)) now m
             in (m1\<lparr>cm_bySnow := AList.update sid p (cm_bySnow m1)\<rparr>, Ok p)))"

definition ConnManager_GetClient ::
  "order \<Rightarrow> order \<Rightarrow> (string \<Rightarrow> order) \<Rightarrow> conn option \<Rightarrow> conn_manager \<Rightarrow> ptr option" where
  "ConnManager_GetClient o1 o2 o3 co m =
     (case find (\<lambda>(sid, p). wc_Conn (cm_heap m p) = co) (reorder o1 (cm_bySnow m)) of
        Some (sid, p) \<Rightarrow> Some p
      | None \<Rightarrow>
          map_option snd
            (find (\<lambda>(sid, p). wc_Conn (cm_heap m p) = co)
               (concat (map (\<lambda>(u, mm). reorder (o3 u) mm) (reorder o2 (cm_byUser m))))))"

definition ConnManager_GetUnAuthClient :: "string \<Rightarrow> conn_manager \<Rightarrow> ptr go" where
  "ConnManager_GetUnAuthClient sid m =
     (case map_of (cm_bySnow m) sid of Some p \<Rightarrow> Ok p | None \<Rightarrow> Error ''snowID not found'')"

text \<open>The oldest entry: a later one replaces it only when its \<^verbatim>\<open>CreatedAt\<close> is strictly before.\<close>

definition pick_oldest :: "(ptr \<Rightarrow> wsconn) \<Rightarrow> (string \<times> ptr) list \<Rightarrow> ptr option" where
  "pick_oldest h xs =
     fold (\<lambda>(sid, p) oldest.
             case oldest of
               None \<Rightarrow> Some p
             | Some q \<Rightarrow> if wc_CreatedAt (h p) < wc_CreatedAt (h q) then Some p else Some q) xs None"

text \<open>
  The legacy entry of a user whose socket went away: when it pointed at that socket, another socket
  of the user takes its place, and without one the entry is deleted.
\<close>

definition repoint_conns ::
  "order \<Rightarrow> string \<Rightarrow> conn option \<Rightarrow> (string, ptr) gomap \<Rightarrow> conn_manager \<Rightarrow> conn_manager" where
  "repoint_conns o2 user gone rest m =
     (if map_of (cm_conns m) user = Some gone then
        (case any_conn (cm_heap m) (reorder o2 rest) of
           Some c \<Rightarrow> m\<lparr>cm_conns := AList.update user (Some c) (cm_conns m)\<rparr>
         | None \<Rightarrow> m\<lparr>cm_conns := AList.delete user (cm_conns m)\<rparr>)
      else m)"

definition ensureRoomForUserLocked ::
  "order \<Rightarrow> order \<Rightarrow> string \<Rightarrow> conn_manager \<Rightarrow> conn_manager \<times> unit go" where
  "ensureRoomForUserLocked o1 o2 user m =
     (if mc_MaxPerUser (cm_conf m) \<le> 0 then (m, Ok ())
      else
        (let mm = user_conns m user in
         if int (length mm) < mc_MaxPerUser (cm_conf m) then (m, Ok ())
         else if \<not> mc_EvictOldest (cm_conf m) then
           (m, Panic ''exceeds MaxPerUser without eviction; call site should pre-check or handle error mode'')
         else
           (case pick_oldest (cm_heap m) (reorder o1 mm) of
              None \<Rightarrow> (m, Ok ())
            | Some p \<Rightarrow>
                (let w = cm_heap m p;
                     mm' = AList.delete (wc_SnowID w) mm;
                     m1 = m\<lparr>cm_byUser := AList.update user mm' (cm_byUser m),
                            cm_bySnow := AList.delete (wc_SnowID w) (cm_bySnow m)\<rparr>
                 in (closeQuiet (wc_Conn w) (repoint_conns o2 user (wc_Conn w) mm' m1), Ok ())))))"

text \<open>Deleting an entry of a user's map, and the map with it when it becomes empty.\<close>

definition byUser_delete ::
  "string \<Rightarrow> string \<Rightarrow> (string, (string, ptr) gomap) gomap \<Rightarrow> (string, (string, ptr) gomap) gomap" where
  "byUser_delete u sid bu =
     (case map_of bu u of
        None \<Rightarrow> bu
      | Some mm \<Rightarrow>
          (let mm' = AList.delete sid mm
           in if mm' = [] then AList.delete u bu else AList.update u mm' bu))"

text \<open>Storing an entry in a user's map, which is made when the user has none.\<close>

definition byUser_insert ::
  "string \<Rightarrow> string \<Rightarrow> ptr \<Rightarrow> (string, (string, ptr) gomap) gomap \<Rightarrow> (string, (string, ptr) gomap) gomap" where
  "byUser_insert u sid p bu =
     AList.update u (AList.update sid p (inner_map bu u)) bu"

definition conns_default :: "string \<Rightarrow> conn option \<Rightarrow> conn_manager \<Rightarrow> conn_manager" where
  "conns_default user co m =
     (if map_of (cm_conns m) user = None
      then m\<lparr>cm_conns := AList.update user co (cm_conns m)\<rparr> else m)"

text \<open>
  \<^verbatim>\<open>BindUser\<close>: a connection of another user leaves the map of that user, room is made at
  the new user, the connection enters its map and turns authorised.
\<close>

definition unbind :: "string \<Rightarrow> ptr \<Rightarrow> conn_manager \<Rightarrow> conn_manager" where
  "unbind user p m =
     (let w = cm_heap m p in
      if wc_Authorized w \<and> wc_UserId w \<noteq> '''' \<and> wc_UserId w \<noteq> user
      then m\<lparr>cm_byUser := byUser_delete (wc_UserId w) (wc_SnowID w) (cm_byUser m)\<rparr> else m)"

definition bound_WsConn :: "time \<Rightarrow> string \<Rightarrow> manager_conf \<Rightarrow> wsconn \<Rightarrow> wsconn" where
  "bound_WsConn now user conf w = w\<lparr>wc_UserId := user, wc_Authorized := True, wc_TTL := mc_AuthTTL conf,
      wc_ExpireAt := now + mc_AuthTTL conf, wc_UpdatedAt := now, wc_Heartbeat := now\<rparr>"

definition ConnManager_BindUser ::
  "time \<Rightarrow> order \<Rightarrow> order \<Rightarrow> string \<Rightarrow> string \<Rightarrow> conn_manager \<Rightarrow> conn_manager \<times> unit go" where
  "ConnManager_BindUser now o1 o2 sid user m =
     (if sid = '''' \<or> user = '''' then (m, Error ''snowID/user empty'')
      else
        (case map_of (cm_bySnow m) sid of
           None \<Rightarrow> (m, Error ''snowID not found'')
         | Some p \<Rightarrow>
             if wc_Conn (cm_heap m p) = None then (m, Error ''snowID not found'')
             else
               (let w = cm_heap m p;
                    m1 = unbind user p m;
                    (m2, r) = (if 0 < mc_MaxPerUser (cm_conf m1)
                               then ensureRoomForUserLocked o1 o2 user m1 else (m1, Ok ()))
                in (case r of
                      Ok _ \<Rightarrow>
                        (let m3 = m2\<lparr>cm_byUser := byUser_insert user (wc_SnowID w) p (cm_byUser m2)\<rparr>;
                             w' = bound_WsConn now user (cm_conf m) w;
                             m4 = m3\<lparr>cm_heap := (cm_heap m3)(p := w')\<rparr>
                         in (conns_default user (wc_Conn w') m4, Ok ()))
                    | e \<Rightarrow> (m2, e)))))"

definition ConnManager_AddAuthorized ::
  "ws_lib \<Rightarrow> time \<Rightarrow> order \<Rightarrow> order \<Rightarrow> string \<Rightarrow> string \<Rightarrow> conn option \<Rightarrow> conn_manager
   \<Rightarrow> conn_manager \<times> unit go" where
  "ConnManager_AddAuthorized W now o1 o2 user sid co m =
     (case co of
        None \<Rightarrow> (m, Error ''user/snowID/conn empty'')
      | Some c \<Rightarrow>
          if user = '''' \<or> sid = '''' then (m, Error ''user/snowID/conn empty'')
          else if map_of (cm_bySnow m) sid \<noteq> None then (m, Error ''snowID exists'')
          else
            (let (m1, r) = (if 0 < mc_MaxPerUser (cm_conf m)
                            then ensureRoomForUserLocked o1 o2 user m else (m, Ok ()))
             in (case r of
                   Ok _ \<Rightarrow>
                     (let (p, m2) = new_WsConn (authorized_WsConn W sid user c (mc_AuthTTL (cm_conf m)) now) m1;
                          m3 = m2\<lparr>cm_bySnow := AList.update sid p (cm_bySnow m2),
                                  cm_byUser := byUser_insert user sid p (cm_byUser m2)\<rparr>
                      in (conns_default user (Some c) m3, Ok ()))
                 | e \<Rightarrow> (m1, e))))"

definition ConnManager_Heartbeat :: "time \<Rightarrow> string \<Rightarrow> conn_manager \<Rightarrow> conn_manager \<times> unit go" where
  "ConnManager_Heartbeat now sid m =
     (if sid = '''' then (m, Error ''snowID empty'')
      else
        (case map_of (cm_bySnow m) sid of
           None \<Rightarrow> (m, Error ''snowID not found'')
         | Some p \<Rightarrow>
             if wc_Conn (cm_heap m p) = None then (m, Error ''snowID not found'')
             else
               (m\<lparr>cm_heap := (cm_heap m)(p := (cm_heap m p)\<lparr>wc_Heartbeat := now,
                     wc_ExpireAt := now + wc_TTL (cm_heap m p), wc_UpdatedAt := now\<rparr>)\<rparr>, Ok ())))"

text \<open>The pong handler \<^verbatim>\<open>AttachPongHandler\<close> installs on a socket, if it installs one.\<close>

definition ConnManager_AttachPongHandler ::
  "conn option \<Rightarrow> string \<Rightarrow> (time \<Rightarrow> conn_manager \<Rightarrow> conn_manager) option" where
  "ConnManager_AttachPongHandler co sid =
     (if co = None \<or> sid = '''' then None
      else Some (\<lambda>now m. fst (ConnManager_Heartbeat now sid m)))"

text \<open>
  The two branches on \<^verbatim>\<open>len(mm) == 0\<close> of \<^verbatim>\<open>RemoveBySnow\<close> treat the legacy map alike.
\<close>

definition ConnManager_RemoveBySnow :: "order \<Rightarrow> string \<Rightarrow> conn_manager \<Rightarrow> conn_manager" where
  "ConnManager_RemoveBySnow o2 sid m =
     (if sid = '''' then m
      else
        (case map_of (cm_bySnow m) sid of
           None \<Rightarrow> m
         | Some p \<Rightarrow>
             (let w = cm_heap m p;
                  m1 = m\<lparr>cm_bySnow := AList.delete sid (cm_bySnow m)\<rparr>;
                  m2 = (if wc_Authorized w \<and> wc_UserId w \<noteq> '''' then
                          (case map_of (cm_byUser m1) (wc_UserId w) of
                             None \<Rightarrow> m1
                           | Some mm \<Rightarrow>
                               repoint_conns o2 (wc_UserId w) (wc_Conn w) (AList.delete sid mm)
                                 (m1\<lparr>cm_byUser := byUser_delete (wc_UserId w) sid (cm_byUser m1)\<rparr>))
                        else m1)
              in closeQuiet (wc_Conn w) m2)))"

definition ConnManager_KickAllUnauth :: "order \<Rightarrow> conn_manager \<Rightarrow> conn_manager \<times> nat" where
  "ConnManager_KickAllUnauth o1 m =
     fold (\<lambda>(sid, p) (m, n).
             if \<not> wc_Authorized (cm_heap m p)
             then (closeQuiet (wc_Conn (cm_heap m p))
                     (m\<lparr>cm_bySnow := AList.delete sid (cm_bySnow m)\<rparr>), n + 1)
             else (m, n))
       (reorder o1 (cm_bySnow m)) (m, 0)"

definition ConnManager_SendOne ::
  "ws_lib \<Rightarrow> string \<Rightarrow> bytes \<Rightarrow> conn_manager \<Rightarrow> (conn \<times> bytes) list \<times> string option" where
  "ConnManager_SendOne W sid d m =
     (case map_of (cm_bySnow m) sid of
        None \<Rightarrow> ([], Some ''snowID not found'')
      | Some p \<Rightarrow>
          if wc_Conn (cm_heap m p) = None then ([], Some ''snowID not found'')
          else writeBinary W (wc_Conn (cm_heap m p)) d)"

definition ConnManager_BroadcastUser ::
  "ws_lib \<Rightarrow> order \<Rightarrow> string \<Rightarrow> bytes \<Rightarrow> conn_manager \<Rightarrow> (conn \<times> bytes) list \<times> string option" where
  "ConnManager_BroadcastUser W o1 user d m =
     write_all W (cm_heap m) d (reorder o1 (user_conns m user)) None"

definition ConnManager_ListUserConns :: "order \<Rightarrow> string \<Rightarrow> conn_manager \<Rightarrow> (string, conn) gomap" where
  "ConnManager_ListUserConns o1 user m =
     fold (\<lambda>(sid, p) out. case wc_Conn (cm_heap m p) of Some c \<Rightarrow> AList.update sid c out | None \<Rightarrow> out)
       (reorder o1 (user_conns m user)) []"

subsection \<open>The sweeper\<close>

text \<open>The body of the loop of \<^verbatim>\<open>sweepOnce\<close> for one entry of \<^verbatim>\<open>bySnow\<close>.\<close>

definition sweep_entry ::
  "(string \<Rightarrow> order) \<Rightarrow> time \<Rightarrow> string \<times> ptr \<Rightarrow> conn_manager \<times> ptr list \<Rightarrow> conn_manager \<times> ptr list" where
  "sweep_entry o2 now e st =
     (case e of (sid, p) \<Rightarrow> case st of (m, expired) \<Rightarrow>
        let w = cm_heap m p in
        if wc_ExpireAt w < now then
          (let m1 = m\<lparr>cm_bySnow := AList.delete sid (cm_bySnow m)\<rparr>;
               m2 = (if wc_Authorized w \<and> wc_UserId w \<noteq> '''' then
                       (case map_of (cm_byUser m1) (wc_UserId w) of
                          None \<Rightarrow> m1
                        | Some mm \<Rightarrow>
                            (let mm' = AList.delete sid mm;
                                 m' = m1\<lparr>cm_byUser := byUser_delete (wc_UserId w) sid (cm_byUser m1)\<rparr>
                             in if map_of (cm_conns m') (wc_UserId w) = Some (wc_Conn w) then
                                  (if mm' = [] then m'\<lparr>cm_conns := AList.delete (wc_UserId w) (cm_conns m')\<rparr>
                                   else
                                     (case any_conn (cm_heap m') (reorder (o2 sid) mm') of
                                        Some c \<Rightarrow> m'\<lparr>cm_conns := AList.update (wc_UserId w) (Some c) (cm_conns m')\<rparr>
                                      | None \<Rightarrow> m'))
                                else m'))
                     else m1)
           in (m2, expired @ [p]))
        else (m, expired))"

definition ConnManager_sweepOnce ::
  "order \<Rightarrow> (string \<Rightarrow> order) \<Rightarrow> time \<Rightarrow> conn_manager \<Rightarrow> conn_manager" where
  "ConnManager_sweepOnce o1 o2 now m =
     (let (m1, expired) = fold (sweep_entry o2 now) (reorder o1 (cm_bySnow m)) (m, [])
      in fold (\<lambda>p m. closeQuiet (wc_Conn (cm_heap m p)) m) expired m1)"

text \<open>The sweeper's goroutine over the events its \<^verbatim>\<open>select\<close> receives.\<close>

datatype sweep_event = StopCh | Tick time

fun ConnManager_sweeper ::
  "order \<Rightarrow> (string \<Rightarrow> order) \<Rightarrow> sweep_event list \<Rightarrow> conn_manager \<Rightarrow> conn_manager" where
  "ConnManager_sweeper o1 o2 [] m = m"
| "ConnManager_sweeper o1 o2 (StopCh # es) m = m"
| "ConnManager_sweeper o1 o2 (Tick now # es) m =
     ConnManager_sweeper o1 o2 es (ConnManager_sweepOnce o1 o2 now m)"

end
