(* ===== verification/ConnInvariant.thy ===== *)
theory ConnInvariant
  imports ConnManager
begin

section \<open>The invariant of the connection manager\<close>

text \<open>
  What holds between the indexes of a \<^verbatim>\<open>ConnManager\<close> after every method: \<open>byUser\<close> is the view of
  \<open>bySnow\<close> by user, no user exceeds the limit, the legacy map points at a live socket of its user, and
  no registered socket has been closed. Every method is shown to keep each part under the conditions
  the part needs, and the parts hold in every reachable state.
\<close>

subsection \<open>The invariant of the indexes\<close>

text \<open>
  \<open>byUser\<close> holds no empty map; every entry of \<open>bySnow\<close> is allocated, is not in the pool, carries
  its own key and a socket, and is authorised exactly when it has a user; and \<open>byUser\<close> is the view of
  \<open>bySnow\<close> by user: an authorised connection is found under its user, and whatever is found under a
  user is an authorised connection of that user in \<open>bySnow\<close>.
\<close>

definition byUser_ok :: "(string, (string, ptr) gomap) gomap \<Rightarrow> bool" where
  "byUser_ok bu \<longleftrightarrow> gm_ok bu \<and> (\<forall>e \<in> set bu. gm_ok (snd e) \<and> snd e \<noteq> [])"

definition entry_ok :: "ptr \<Rightarrow> ptr list \<Rightarrow> (ptr \<Rightarrow> wsconn) \<Rightarrow> string \<times> ptr \<Rightarrow> bool" where
  "entry_ok nxt pool h e \<longleftrightarrow> snd e < nxt \<and> snd e \<notin> set pool \<and> wc_SnowID (h (snd e)) = fst e
     \<and> wc_Conn (h (snd e)) \<noteq> None \<and> (wc_Authorized (h (snd e)) \<longleftrightarrow> wc_UserId (h (snd e)) \<noteq> '''')"

definition index_agrees :: "conn_manager \<Rightarrow> bool" where
  "index_agrees m \<longleftrightarrow>
     (\<forall>e \<in> set (cm_bySnow m). wc_Authorized (cm_heap m (snd e)) \<longrightarrow>
         map_of (user_conns m (wc_UserId (cm_heap m (snd e)))) (fst e) = Some (snd e))
   \<and> (\<forall>b \<in> set (cm_byUser m). \<forall>e \<in> set (snd b). map_of (cm_bySnow m) (fst e) = Some (snd e)
         \<and> wc_Authorized (cm_heap m (snd e)) \<and> wc_UserId (cm_heap m (snd e)) = fst b)"

definition cm_inv :: "conn_manager \<Rightarrow> bool" where
  "cm_inv m \<longleftrightarrow> gm_ok (cm_conns m) \<and> gm_ok (cm_bySnow m) \<and> byUser_ok (cm_byUser m)
     \<and> (\<forall>q \<in> set (cm_pool m). q < cm_next m) \<and> distinct (cm_pool m)
     \<and> (\<forall>e \<in> set (cm_bySnow m). entry_ok (cm_next m) (cm_pool m) (cm_heap m) e)
     \<and> index_agrees m"

text \<open>The view of \<open>bySnow\<close> by user that \<open>byUser\<close> has to be.\<close>

definition indexed :: "conn_manager \<Rightarrow> string \<Rightarrow> string \<Rightarrow> ptr option" where
  "indexed m u sid =
     (case map_of (cm_bySnow m) sid of
        None \<Rightarrow> None
      | Some p \<Rightarrow> if wc_Authorized (cm_heap m p) \<and> wc_UserId (cm_heap m p) = u then Some p else None)"

lemma byUser_okD:
  assumes "byUser_ok bu"
  shows "gm_ok bu" "gm_ok (inner_map bu u)" "map_of bu u = Some mm \<Longrightarrow> mm \<noteq> [] \<and> gm_ok mm"
  using assms by (auto simp: byUser_ok_def inner_map_def dest!: map_of_SomeD split: option.splits)

lemma byUser_okI:
  assumes "gm_ok bu" "\<And>u mm. map_of bu u = Some mm \<Longrightarrow> gm_ok mm \<and> mm \<noteq> []"
  shows "byUser_ok bu"
  using assms by (auto simp: byUser_ok_def gm_in_set)

lemma inner_map_Nil_iff: "byUser_ok bu \<Longrightarrow> inner_map bu u = [] \<longleftrightarrow> map_of bu u = None"
  by (auto simp: inner_map_def dest: byUser_okD(3) split: option.splits)

lemma inner_map_update [simp]:
  "inner_map (AList.update u mm bu) v = (if v = u then mm else inner_map bu v)"
  by (simp add: inner_map_def)

lemma inner_map_delete [simp]:
  "inner_map (AList.delete u bu) v = (if v = u then [] else inner_map bu v)"
  by (simp add: inner_map_def)

lemma inner_map_byUser_delete [simp]:
  "inner_map (byUser_delete u sid bu) v
   = (if v = u then AList.delete sid (inner_map bu u) else inner_map bu v)"
  by (auto simp: byUser_delete_def Let_def inner_map_def split: option.splits)

lemma inner_map_byUser_insert [simp]:
  "inner_map (byUser_insert u sid p bu) v
   = (if v = u then AList.update sid p (inner_map bu u) else inner_map bu v)"
  by (simp add: byUser_insert_def)

lemma byUser_ok_delete [intro]: "byUser_ok bu \<Longrightarrow> byUser_ok (AList.delete u bu)"
  by (rule byUser_okI) (auto dest: byUser_okD split: if_splits)

lemma byUser_ok_update [intro]:
  "byUser_ok bu \<Longrightarrow> gm_ok mm \<Longrightarrow> mm \<noteq> [] \<Longrightarrow> byUser_ok (AList.update u mm bu)"
  by (rule byUser_okI) (auto dest: byUser_okD split: if_splits)

lemma byUser_ok_byUser_delete [intro]: "byUser_ok bu \<Longrightarrow> byUser_ok (byUser_delete u sid bu)"
  by (auto simp: byUser_delete_def Let_def dest: byUser_okD(3) split: option.splits)

lemma update_not_Nil [simp]: "AList.update k v m \<noteq> []"
  by (cases m) auto

lemma byUser_ok_byUser_insert [intro]: "byUser_ok bu \<Longrightarrow> byUser_ok (byUser_insert u sid p bu)"
  unfolding byUser_insert_def
  by (intro byUser_ok_update gm_ok_update) (simp_all add: byUser_okD(2))

lemma index_agrees_iff:
  assumes "gm_ok (cm_bySnow m)" "byUser_ok (cm_byUser m)"
  shows "index_agrees m \<longleftrightarrow> (\<forall>u sid. map_of (user_conns m u) sid = indexed m u sid)" (is "?l \<longleftrightarrow> ?r")
proof
  assume l: ?l
  show ?r
  proof (intro allI)
    fix u sid
    have b: "map_of (cm_bySnow m) sid = Some p \<and> wc_Authorized (cm_heap m p) \<and> wc_UserId (cm_heap m p) = u"
      if "map_of (user_conns m u) sid = Some p" for p
    proof -
      from that obtain mm where "map_of (cm_byUser m) u = Some mm" "map_of mm sid = Some p"
        by (auto simp: user_conns_def inner_map_def split: option.splits)
      then have "(u, mm) \<in> set (cm_byUser m)" "(sid, p) \<in> set mm" by (auto dest: map_of_SomeD)
      with l show ?thesis unfolding index_agrees_def by force
    qed
    have a: "map_of (user_conns m u) sid = Some p"
      if "map_of (cm_bySnow m) sid = Some p" "wc_Authorized (cm_heap m p)" "wc_UserId (cm_heap m p) = u" for p
      using l that map_of_SomeD[OF that(1)] unfolding index_agrees_def by force
    show "map_of (user_conns m u) sid = indexed m u sid"
      using a b by (cases "map_of (user_conns m u) sid") (auto simp: indexed_def split: option.splits)
  qed
next
  assume r: ?r
  show ?l unfolding index_agrees_def
  proof (intro conjI ballI impI)
    fix e assume "e \<in> set (cm_bySnow m)" and au: "wc_Authorized (cm_heap m (snd e))"
    then have "map_of (cm_bySnow m) (fst e) = Some (snd e)"
      using assms(1) by (simp add: gm_ok_def)
    then show "map_of (user_conns m (wc_UserId (cm_heap m (snd e)))) (fst e) = Some (snd e)"
      using r au by (simp add: indexed_def)
  next
    fix b e assume b: "b \<in> set (cm_byUser m)" and e: "e \<in> set (snd b)"
    have mm: "map_of (cm_byUser m) (fst b) = Some (snd b)"
      using byUser_okD(1)[OF assms(2)] b by (simp add: gm_ok_def)
    then have "map_of (user_conns m (fst b)) (fst e) = Some (snd e)"
      using byUser_okD(3)[OF assms(2) mm] e by (simp add: user_conns_def inner_map_def gm_ok_def)
    then have "indexed m (fst b) (fst e) = Some (snd e)" using r by simp
    then show "map_of (cm_bySnow m) (fst e) = Some (snd e)" "wc_Authorized (cm_heap m (snd e))"
      "wc_UserId (cm_heap m (snd e)) = fst b"
      by (auto simp: indexed_def split: option.splits if_splits)
  qed
qed

lemma cm_invI:
  assumes "gm_ok (cm_conns m)" "gm_ok (cm_bySnow m)" "byUser_ok (cm_byUser m)"
    "\<And>q. q \<in> set (cm_pool m) \<Longrightarrow> q < cm_next m" "distinct (cm_pool m)"
    "\<And>sid p. map_of (cm_bySnow m) sid = Some p \<Longrightarrow> entry_ok (cm_next m) (cm_pool m) (cm_heap m) (sid, p)"
    "\<And>u sid. map_of (user_conns m u) sid = indexed m u sid"
  shows "cm_inv m"
  using assms by (auto simp: cm_inv_def index_agrees_iff gm_in_set)

lemma cm_invD:
  assumes "cm_inv m"
  shows "gm_ok (cm_conns m)" "gm_ok (cm_bySnow m)" "byUser_ok (cm_byUser m)"
    "q \<in> set (cm_pool m) \<Longrightarrow> q < cm_next m" "distinct (cm_pool m)"
    "map_of (cm_bySnow m) sid = Some p \<Longrightarrow> entry_ok (cm_next m) (cm_pool m) (cm_heap m) (sid, p)"
    "map_of (user_conns m u) sid = indexed m u sid"
  using assms by (auto simp: cm_inv_def index_agrees_iff dest: map_of_SomeD)

lemma cm_inv_entry:
  assumes "cm_inv m" "map_of (cm_bySnow m) sid = Some p"
  shows "p < cm_next m" "p \<notin> set (cm_pool m)" "wc_SnowID (cm_heap m p) = sid"
    "wc_Conn (cm_heap m p) \<noteq> None" "wc_Authorized (cm_heap m p) \<longleftrightarrow> wc_UserId (cm_heap m p) \<noteq> ''''"
  using cm_invD(6)[OF assms] by (simp_all add: entry_ok_def)

text \<open>Two snow ids never share an object.\<close>

lemma cm_inv_inj:
  "cm_inv m \<Longrightarrow> map_of (cm_bySnow m) s = Some p \<Longrightarrow> map_of (cm_bySnow m) t = Some p \<Longrightarrow> s = t"
  by (metis cm_inv_entry(3))

lemma user_conns_ok: "cm_inv m \<Longrightarrow> gm_ok (user_conns m u)"
  by (simp add: user_conns_def cm_invD(3) byUser_okD(2))

lemma cm_inv_empty_user: "cm_inv m \<Longrightarrow> user_conns m '''' = []"
  by (auto simp: gm_Nil_iff cm_invD(7) indexed_def dest: cm_inv_entry(5) split: option.splits)

named_theorems cm_sel \<open>fields an operation leaves alone\<close>

lemma closeQuiet_sel [cm_sel]:
  "cm_conns (closeQuiet c m) = cm_conns m" "cm_bySnow (closeQuiet c m) = cm_bySnow m"
  "cm_byUser (closeQuiet c m) = cm_byUser m" "cm_conf (closeQuiet c m) = cm_conf m"
  "cm_heap (closeQuiet c m) = cm_heap m" "cm_next (closeQuiet c m) = cm_next m"
  "cm_pool (closeQuiet c m) = cm_pool m" "cm_gwId (closeQuiet c m) = cm_gwId m"
  "cm_stopped (closeQuiet c m) = cm_stopped m"
  by (cases c; simp)+

lemma cm_closed_closeQuiet: "cm_closed (closeQuiet c m) = (case c of None \<Rightarrow> [] | Some x \<Rightarrow> [x]) @ cm_closed m"
  by (cases c) auto

lemma repoint_conns_sel [cm_sel]:
  "cm_bySnow (repoint_conns o2 u g r m) = cm_bySnow m" "cm_byUser (repoint_conns o2 u g r m) = cm_byUser m"
  "cm_conf (repoint_conns o2 u g r m) = cm_conf m" "cm_heap (repoint_conns o2 u g r m) = cm_heap m"
  "cm_next (repoint_conns o2 u g r m) = cm_next m" "cm_pool (repoint_conns o2 u g r m) = cm_pool m"
  "cm_closed (repoint_conns o2 u g r m) = cm_closed m" "cm_gwId (repoint_conns o2 u g r m) = cm_gwId m"
  "gm_ok (cm_conns m) \<Longrightarrow> gm_ok (cm_conns (repoint_conns o2 u g r m))"
  by (auto simp: repoint_conns_def split: option.splits)

lemma conns_default_sel [cm_sel]:
  "cm_bySnow (conns_default u c m) = cm_bySnow m" "cm_byUser (conns_default u c m) = cm_byUser m"
  "cm_conf (conns_default u c m) = cm_conf m" "cm_heap (conns_default u c m) = cm_heap m"
  "cm_next (conns_default u c m) = cm_next m" "cm_pool (conns_default u c m) = cm_pool m"
  "cm_closed (conns_default u c m) = cm_closed m" "cm_gwId (conns_default u c m) = cm_gwId m"
  "gm_ok (cm_conns m) \<Longrightarrow> gm_ok (cm_conns (conns_default u c m))"
  by (auto simp: conns_default_def)

lemma user_conns_cong: "cm_byUser m' = cm_byUser m \<Longrightarrow> user_conns m' = user_conns m"
  by (simp add: user_conns_def fun_eq_iff)

subsection \<open>The methods keep the invariant\<close>

text \<open>Dropping one connection from \<open>bySnow\<close> and, when it is authorised, from its user's map.\<close>

lemma cm_inv_drop:
  assumes inv: "cm_inv m" and p: "map_of (cm_bySnow m) sid = Some p"
    and m': "cm_bySnow m' = AList.delete sid (cm_bySnow m)"
      "cm_byUser m' = (if wc_Authorized (cm_heap m p)
         then byUser_delete (wc_UserId (cm_heap m p)) sid (cm_byUser m) else cm_byUser m)"
      "cm_heap m' = cm_heap m" "cm_next m' = cm_next m" "cm_pool m' = cm_pool m" "gm_ok (cm_conns m')"
  shows "cm_inv m'"
proof (rule cm_invI)
  show "gm_ok (cm_bySnow m')" "byUser_ok (cm_byUser m')" "distinct (cm_pool m')"
    using cm_invD[OF inv] m' by auto
  show "gm_ok (cm_conns m')" by fact
  show "q < cm_next m'" if "q \<in> set (cm_pool m')" for q
    using that cm_invD(4)[OF inv] m' by simp
  show "entry_ok (cm_next m') (cm_pool m') (cm_heap m') (t, q)" if "map_of (cm_bySnow m') t = Some q" for t q
    using that cm_invD(6)[OF inv] m' by (auto split: if_splits)
  show "map_of (user_conns m' u) t = indexed m' u t" for u t
    using cm_invD(7)[OF inv] p m'
    by (auto simp: user_conns_def indexed_def cong del: option.case_cong_weak)
qed

lemma RemoveBySnow_inv: "cm_inv m \<Longrightarrow> cm_inv (ConnManager_RemoveBySnow o2 sid m)"
proof -
  assume inv: "cm_inv m"
  show ?thesis
  proof (cases "sid = '''' \<or> map_of (cm_bySnow m) sid = None")
    case True
    with inv show ?thesis by (auto simp: ConnManager_RemoveBySnow_def)
  next
    case False
    then obtain p where p: "sid \<noteq> ''''" "map_of (cm_bySnow m) sid = Some p" by auto
    show ?thesis
      by (rule cm_inv_drop[OF inv p(2)])
        (use p cm_inv_entry(5)[OF inv p(2)] cm_invD(1)[OF inv] in
          \<open>auto simp: ConnManager_RemoveBySnow_def Let_def cm_sel byUser_delete_def split: option.splits\<close>)
  qed
qed

definition expired_entry :: "conn_manager \<Rightarrow> time \<Rightarrow> string \<times> ptr \<Rightarrow> bool" where
  "expired_entry m now e \<longleftrightarrow> wc_ExpireAt (cm_heap m (snd e)) < now"

lemma sweep_entry_fields:
  assumes "sweep_entry o2 now (sid, p) (m, ex) = (m', ex')"
  shows "cm_heap m' = cm_heap m" "cm_next m' = cm_next m" "cm_pool m' = cm_pool m"
    "cm_conf m' = cm_conf m" "cm_closed m' = cm_closed m" "cm_gwId m' = cm_gwId m"
    "cm_bySnow m' = (if expired_entry m now (sid, p) then AList.delete sid (cm_bySnow m) else cm_bySnow m)"
    "ex' = ex @ (if expired_entry m now (sid, p) then [p] else [])"
  using assms
  by (auto simp: sweep_entry_def Let_def expired_entry_def split: if_splits option.splits)

lemma sweep_entry_inv:
  assumes inv: "cm_inv m" and p: "map_of (cm_bySnow m) sid = Some p"
    and st: "sweep_entry o2 now (sid, p) (m, ex) = (m', ex')"
  shows "cm_inv m'"
proof (cases "expired_entry m now (sid, p)")
  case False
  with st inv show ?thesis by (simp add: sweep_entry_def Let_def expired_entry_def)
next
  case True
  show ?thesis
  proof (rule cm_inv_drop[OF inv p])
    show "cm_bySnow m' = AList.delete sid (cm_bySnow m)" "cm_heap m' = cm_heap m"
      "cm_next m' = cm_next m" "cm_pool m' = cm_pool m"
      using sweep_entry_fields[OF st] True by simp_all
    show "cm_byUser m' = (if wc_Authorized (cm_heap m p)
         then byUser_delete (wc_UserId (cm_heap m p)) sid (cm_byUser m) else cm_byUser m)"
      using st True cm_inv_entry(5)[OF inv p]
      by (auto simp: sweep_entry_def Let_def expired_entry_def byUser_delete_def
          split: if_splits option.splits)
    show "gm_ok (cm_conns m')"
      using st cm_invD(1)[OF inv]
      by (auto simp: sweep_entry_def Let_def split: if_splits option.splits)
  qed
qed

text \<open>The loop of the sweeper over entries it has not visited yet.\<close>

lemma sweep_fold:
  assumes "cm_inv m" "distinct (map fst xs)" "\<forall>e \<in> set xs. map_of (cm_bySnow m) (fst e) = Some (snd e)"
    and "fold (sweep_entry o2 now) xs (m, ex) = (m', ex')"
  shows "cm_inv m' \<and> cm_heap m' = cm_heap m \<and> cm_next m' = cm_next m \<and> cm_pool m' = cm_pool m
     \<and> cm_conf m' = cm_conf m \<and> cm_closed m' = cm_closed m \<and> cm_gwId m' = cm_gwId m
     \<and> (\<forall>s. map_of (cm_bySnow m') s
            = (if \<exists>p. (s, p) \<in> set xs \<and> expired_entry m now (s, p) then None else map_of (cm_bySnow m) s))
     \<and> ex' = ex @ map snd (filter (expired_entry m now) xs)"
  using assms
proof (induction xs arbitrary: m ex)
  case Nil
  then show ?case by simp
next
  case (Cons e xs)
  obtain sid p where e: "e = (sid, p)" by (cases e)
  obtain m1 ex1 where st: "sweep_entry o2 now (sid, p) (m, ex) = (m1, ex1)" by fastforce
  note f = sweep_entry_fields[OF st]
  have inv1: "cm_inv m1" using sweep_entry_inv[OF Cons.prems(1) _ st] Cons.prems(3) e by simp
  have ee: "expired_entry m1 now = expired_entry m now" by (simp add: expired_entry_def fun_eq_iff f(1))
  have mem: "\<forall>e \<in> set xs. map_of (cm_bySnow m1) (fst e) = Some (snd e)"
    using Cons.prems(2,3) e by (auto simp: f(7))
  have fd: "fold (sweep_entry o2 now) xs (m1, ex1) = (m', ex')" using Cons.prems(4) e st by simp
  from Cons.IH[OF inv1 _ mem fd] Cons.prems(2) have ih: "cm_inv m' \<and> cm_heap m' = cm_heap m1
     \<and> cm_next m' = cm_next m1 \<and> cm_pool m' = cm_pool m1
     \<and> cm_conf m' = cm_conf m1 \<and> cm_closed m' = cm_closed m1 \<and> cm_gwId m' = cm_gwId m1
     \<and> (\<forall>s. map_of (cm_bySnow m') s
            = (if \<exists>p. (s, p) \<in> set xs \<and> expired_entry m1 now (s, p) then None else map_of (cm_bySnow m1) s))
     \<and> ex' = ex1 @ map snd (filter (expired_entry m1 now) xs)" by simp
  have new: "(sid, q) \<notin> set xs" for q using Cons.prems(2) e by force
  from ih show ?case using e new f ee by auto
qed

lemma fold_closeQuiet_sel [cm_sel]:
  "cm_conns (fold (\<lambda>p m. closeQuiet (wc_Conn (cm_heap m p)) m) ps m) = cm_conns m"
  "cm_bySnow (fold (\<lambda>p m. closeQuiet (wc_Conn (cm_heap m p)) m) ps m) = cm_bySnow m"
  "cm_byUser (fold (\<lambda>p m. closeQuiet (wc_Conn (cm_heap m p)) m) ps m) = cm_byUser m"
  "cm_conf (fold (\<lambda>p m. closeQuiet (wc_Conn (cm_heap m p)) m) ps m) = cm_conf m"
  "cm_heap (fold (\<lambda>p m. closeQuiet (wc_Conn (cm_heap m p)) m) ps m) = cm_heap m"
  "cm_next (fold (\<lambda>p m. closeQuiet (wc_Conn (cm_heap m p)) m) ps m) = cm_next m"
  "cm_pool (fold (\<lambda>p m. closeQuiet (wc_Conn (cm_heap m p)) m) ps m) = cm_pool m"
  by (induction ps arbitrary: m) (simp_all add: cm_sel)

lemma fold_closeQuiet_closed:
  "set (cm_closed (fold (\<lambda>p m. closeQuiet (wc_Conn (cm_heap m p)) m) ps m))
   = set (cm_closed m) \<union> {c. \<exists>p \<in> set ps. wc_Conn (cm_heap m p) = Some c}"
  by (induction ps arbitrary: m) (auto simp: cm_sel cm_closed_closeQuiet split: option.splits)

lemma cm_inv_cong:
  assumes "cm_inv m" "gm_ok (cm_conns m')" "cm_bySnow m' = cm_bySnow m" "cm_byUser m' = cm_byUser m"
    "cm_heap m' = cm_heap m" "cm_next m' = cm_next m" "cm_pool m' = cm_pool m"
  shows "cm_inv m'"
  using assms by (simp add: cm_inv_def index_agrees_def user_conns_def)

lemma bySnow_members:
  assumes "cm_inv m"
  shows "distinct (map fst (reorder o1 (cm_bySnow m)))"
    "\<forall>e \<in> set (reorder o1 (cm_bySnow m)). map_of (cm_bySnow m) (fst e) = Some (snd e)"
  using gm_ok_reorder[OF cm_invD(2)[OF assms], of o1] cm_invD(2)[OF assms] by (simp_all add: gm_ok_def)

lemma sweepOnce_effect:
  assumes "cm_inv m"
  shows "cm_inv (ConnManager_sweepOnce o1 o2 now m)"
    and "cm_heap (ConnManager_sweepOnce o1 o2 now m) = cm_heap m"
    and "cm_conf (ConnManager_sweepOnce o1 o2 now m) = cm_conf m"
    and "map_of (cm_bySnow (ConnManager_sweepOnce o1 o2 now m)) s
       = (case map_of (cm_bySnow m) s of None \<Rightarrow> None
          | Some p \<Rightarrow> if wc_ExpireAt (cm_heap m p) < now then None else Some p)"
    and "set (cm_closed (ConnManager_sweepOnce o1 o2 now m)) = set (cm_closed m)
       \<union> {c. \<exists>s p. map_of (cm_bySnow m) s = Some p \<and> wc_ExpireAt (cm_heap m p) < now
              \<and> wc_Conn (cm_heap m p) = Some c}"
proof -
  obtain m1 ex where fd: "fold (sweep_entry o2 now) (reorder o1 (cm_bySnow m)) (m, []) = (m1, ex)" by fastforce
  note f = sweep_fold[OF assms bySnow_members[OF assms] fd]
  have ok: "gm_ok (cm_bySnow m)" using assms by (rule cm_invD)
  have eq: "ConnManager_sweepOnce o1 o2 now m = fold (\<lambda>p m. closeQuiet (wc_Conn (cm_heap m p)) m) ex m1"
    by (simp add: ConnManager_sweepOnce_def fd)
  show "cm_inv (ConnManager_sweepOnce o1 o2 now m)"
    unfolding eq by (rule cm_inv_cong[of m1]) (use f cm_invD(1)[of m1] in \<open>simp_all add: cm_sel\<close>)
  show "cm_heap (ConnManager_sweepOnce o1 o2 now m) = cm_heap m"
    "cm_conf (ConnManager_sweepOnce o1 o2 now m) = cm_conf m"
    using f by (simp_all add: eq cm_sel)
  show "map_of (cm_bySnow (ConnManager_sweepOnce o1 o2 now m)) s
       = (case map_of (cm_bySnow m) s of None \<Rightarrow> None
          | Some p \<Rightarrow> if wc_ExpireAt (cm_heap m p) < now then None else Some p)"
    using f ok by (auto simp: eq cm_sel gm_in_set expired_entry_def split: option.splits)
  show "set (cm_closed (ConnManager_sweepOnce o1 o2 now m)) = set (cm_closed m)
       \<union> {c. \<exists>s p. map_of (cm_bySnow m) s = Some p \<and> wc_ExpireAt (cm_heap m p) < now
              \<and> wc_Conn (cm_heap m p) = Some c}"
    using f ok by (fastforce simp: eq fold_closeQuiet_closed expired_entry_def simp flip: gm_in_set)
qed

lemma kick_fold:
  assumes "cm_inv m" "distinct (map fst xs)" "\<forall>e \<in> set xs. map_of (cm_bySnow m) (fst e) = Some (snd e)"
  shows "case fold (\<lambda>(sid, p) (m, n).
             if \<not> wc_Authorized (cm_heap m p)
             then (closeQuiet (wc_Conn (cm_heap m p))
                     (m\<lparr>cm_bySnow := AList.delete sid (cm_bySnow m)\<rparr>), n + 1)
             else (m, n)) xs (m, k) of (m', n) \<Rightarrow>
         cm_inv m' \<and> cm_heap m' = cm_heap m \<and> cm_conf m' = cm_conf m \<and> cm_conns m' = cm_conns m
       \<and> cm_byUser m' = cm_byUser m
       \<and> (\<forall>s. map_of (cm_bySnow m') s = (if \<exists>p. (s, p) \<in> set xs \<and> \<not> wc_Authorized (cm_heap m p)
                then None else map_of (cm_bySnow m) s))
       \<and> set (cm_closed m') = set (cm_closed m)
            \<union> {c. \<exists>e \<in> set xs. \<not> wc_Authorized (cm_heap m (snd e)) \<and> wc_Conn (cm_heap m (snd e)) = Some c}
       \<and> n = k + length (filter (\<lambda>e. \<not> wc_Authorized (cm_heap m (snd e))) xs)"
  using assms
proof (induction xs arbitrary: m k)
  case Nil
  then show ?case by simp
next
  case (Cons e xs)
  obtain sid p where e: "e = (sid, p)" by (cases e)
  have p: "map_of (cm_bySnow m) sid = Some p" using Cons.prems(3) e by simp
  have new: "(sid, q) \<notin> set xs" for q using Cons.prems(2) e by force
  show ?case
  proof (cases "wc_Authorized (cm_heap m p)")
    case True
    have "\<forall>e \<in> set xs. map_of (cm_bySnow m) (fst e) = Some (snd e)" using Cons.prems(3) by simp
    from Cons.IH[OF Cons.prems(1) _ this, of k] Cons.prems(2) show ?thesis
      using True e by (simp split: prod.splits) blast
  next
    case False
    let ?m1 = "closeQuiet (wc_Conn (cm_heap m p)) (m\<lparr>cm_bySnow := AList.delete sid (cm_bySnow m)\<rparr>)"
    have inv1: "cm_inv ?m1"
      by (rule cm_inv_drop[OF Cons.prems(1) p]) (use False cm_invD(1)[OF Cons.prems(1)] in \<open>simp_all add: cm_sel\<close>)
    have mem: "\<forall>e \<in> set xs. map_of (cm_bySnow ?m1) (fst e) = Some (snd e)"
      using Cons.prems(2,3) e by (auto simp: cm_sel)
    have d: "distinct (map fst xs)" using Cons.prems(2) by simp
    show ?thesis
      using Cons.IH[OF inv1 d mem, of "k + 1"] False e new
      by (auto simp: cm_sel cm_closed_closeQuiet split: prod.splits option.splits if_splits)
  qed
qed

lemma KickAllUnauth_effect:
  assumes "cm_inv m" and r: "ConnManager_KickAllUnauth o1 m = (m', n)"
  shows "cm_inv m'" "cm_heap m' = cm_heap m" "cm_conf m' = cm_conf m" "cm_byUser m' = cm_byUser m"
    "cm_conns m' = cm_conns m"
    and "map_of (cm_bySnow m') s
       = (case map_of (cm_bySnow m) s of None \<Rightarrow> None
          | Some p \<Rightarrow> if wc_Authorized (cm_heap m p) then Some p else None)"
    and "set (cm_closed m') = set (cm_closed m)
       \<union> {c. \<exists>s p. map_of (cm_bySnow m) s = Some p \<and> \<not> wc_Authorized (cm_heap m p)
              \<and> wc_Conn (cm_heap m p) = Some c}"
    and "n = length (filter (\<lambda>e. \<not> wc_Authorized (cm_heap m (snd e))) (cm_bySnow m))"
proof -
  note f = kick_fold[OF assms(1) bySnow_members[OF assms(1)], where k = 0, folded ConnManager_KickAllUnauth_def, of o1, unfolded r]
  have ok: "gm_ok (cm_bySnow m)" using assms(1) by (rule cm_invD)
  show "cm_inv m'" "cm_heap m' = cm_heap m" "cm_conf m' = cm_conf m" "cm_byUser m' = cm_byUser m"
    "cm_conns m' = cm_conns m"
    using f by simp_all
  show "map_of (cm_bySnow m') s
       = (case map_of (cm_bySnow m) s of None \<Rightarrow> None
          | Some p \<Rightarrow> if wc_Authorized (cm_heap m p) then Some p else None)"
    using f ok by (auto simp: gm_in_set split: option.splits)
  show "set (cm_closed m') = set (cm_closed m)
       \<union> {c. \<exists>s p. map_of (cm_bySnow m) s = Some p \<and> \<not> wc_Authorized (cm_heap m p)
              \<and> wc_Conn (cm_heap m p) = Some c}"
    using f ok by (fastforce simp flip: gm_in_set)
  have "size (filter_mset P (mset (reorder o1 (cm_bySnow m)))) = size (filter_mset P (mset (cm_bySnow m)))" for P
    by simp
  then show "n = length (filter (\<lambda>e. \<not> wc_Authorized (cm_heap m (snd e))) (cm_bySnow m))"
    using f by (simp del: mset_reorder flip: mset_filter)
qed

lemma drop_fold:
  fixes m :: conn_manager and xs :: "(string \<times> ptr) list"
  defines "f \<equiv> \<lambda>(sid, p) m. closeQuiet (wc_Conn (cm_heap m p)) (m\<lparr>cm_bySnow := AList.delete sid (cm_bySnow m)\<rparr>)"
  shows "cm_conns (fold f xs m) = cm_conns m" "cm_byUser (fold f xs m) = cm_byUser m"
    "cm_conf (fold f xs m) = cm_conf m" "cm_heap (fold f xs m) = cm_heap m"
    "cm_next (fold f xs m) = cm_next m" "cm_pool (fold f xs m) = cm_pool m"
    "gm_ok (cm_bySnow m) \<Longrightarrow> gm_ok (cm_bySnow (fold f xs m))"
    "map_of (cm_bySnow (fold f xs m)) s = (if s \<in> fst ` set xs then None else map_of (cm_bySnow m) s)"
    "set (cm_closed (fold f xs m)) = set (cm_closed m) \<union> {c. \<exists>e \<in> set xs. wc_Conn (cm_heap m (snd e)) = Some c}"
  unfolding f_def
  by (induction xs arbitrary: m)
    (auto simp: cm_sel cm_closed_closeQuiet split: prod.splits option.splits)

text \<open>Everything of one user goes, nothing else does.\<close>

lemma drop_user_effect:
  assumes "cm_inv m"
  shows "cm_conns (drop_user o1 u m) = cm_conns m" "cm_conf (drop_user o1 u m) = cm_conf m"
    "cm_heap (drop_user o1 u m) = cm_heap m" "cm_next (drop_user o1 u m) = cm_next m"
    "cm_pool (drop_user o1 u m) = cm_pool m" "gm_ok (cm_bySnow (drop_user o1 u m))"
    "byUser_ok (cm_byUser (drop_user o1 u m))"
    "map_of (cm_bySnow (drop_user o1 u m)) s
       = (if map_of (user_conns m u) s = None then map_of (cm_bySnow m) s else None)"
    "user_conns (drop_user o1 u m) v = (if v = u then [] else user_conns m v)"
    "set (cm_closed (drop_user o1 u m)) = set (cm_closed m)
       \<union> {c. \<exists>s p. map_of (user_conns m u) s = Some p \<and> wc_Conn (cm_heap m p) = Some c}"
proof -
  have ok: "gm_ok (cm_bySnow m)" "byUser_ok (cm_byUser m)" "gm_ok (user_conns m u)"
    using cm_invD(2,3)[OF assms] user_conns_ok[OF assms] by auto
  have mem: "s \<in> fst ` set mm \<longleftrightarrow> map_of mm s \<noteq> None" for mm :: "(string, ptr) gomap" and s
    by (simp add: map_of_None_notin)
  show "cm_conns (drop_user o1 u m) = cm_conns m" "cm_conf (drop_user o1 u m) = cm_conf m"
    "cm_heap (drop_user o1 u m) = cm_heap m" "cm_next (drop_user o1 u m) = cm_next m"
    "cm_pool (drop_user o1 u m) = cm_pool m" "gm_ok (cm_bySnow (drop_user o1 u m))"
    "byUser_ok (cm_byUser (drop_user o1 u m))"
    using ok by (auto simp: drop_user_def Let_def drop_fold split: option.splits)
  show "map_of (cm_bySnow (drop_user o1 u m)) s
       = (if map_of (user_conns m u) s = None then map_of (cm_bySnow m) s else None)"
    by (simp add: drop_user_def Let_def drop_fold mem user_conns_def inner_map_def split: option.splits)
  show "user_conns (drop_user o1 u m) v = (if v = u then [] else user_conns m v)"
    by (auto simp: drop_user_def Let_def drop_fold user_conns_def split: option.splits)
      (auto simp: inner_map_def)
  show "set (cm_closed (drop_user o1 u m)) = set (cm_closed m)
       \<union> {c. \<exists>s p. map_of (user_conns m u) s = Some p \<and> wc_Conn (cm_heap m p) = Some c}"
  proof (cases "map_of (cm_byUser m) u")
    case None
    then show ?thesis by (simp add: drop_user_def user_conns_def inner_map_def)
  next
    case (Some mm)
    then have mm: "user_conns m u = mm" by (simp add: user_conns_def inner_map_def)
    have "(\<exists>e \<in> set mm. Q (fst e) (snd e)) \<longleftrightarrow> (\<exists>s p. map_of mm s = Some p \<and> Q s p)" for Q
      using ok(3) unfolding mm by (force simp flip: gm_in_set)
    from this[of "\<lambda>s p. wc_Conn (cm_heap m p) = Some _"] Some mm show ?thesis
      by (simp add: drop_user_def Let_def drop_fold)
  qed
qed

lemma cm_inv_conns: "cm_inv m \<Longrightarrow> gm_ok cs \<Longrightarrow> cm_inv (m\<lparr>cm_conns := cs\<rparr>)"
  by (rule cm_inv_cong) simp_all

lemma drop_user_inv: "cm_inv m \<Longrightarrow> cm_inv (drop_user o1 u m)"
proof -
  assume inv: "cm_inv m"
  note e = drop_user_effect[OF inv]
  show ?thesis
  proof (rule cm_invI)
    show "gm_ok (cm_conns (drop_user o1 u m))" "distinct (cm_pool (drop_user o1 u m))"
      using cm_invD(1,5)[OF inv] e by simp_all
    show "gm_ok (cm_bySnow (drop_user o1 u m))" "byUser_ok (cm_byUser (drop_user o1 u m))"
      by (rule e)+
    show "q < cm_next (drop_user o1 u m)" if "q \<in> set (cm_pool (drop_user o1 u m))" for q
      using that cm_invD(4)[OF inv] e by simp
    show "entry_ok (cm_next (drop_user o1 u m)) (cm_pool (drop_user o1 u m)) (cm_heap (drop_user o1 u m)) (t, q)"
      if "map_of (cm_bySnow (drop_user o1 u m)) t = Some q" for t q
      using that cm_invD(6)[OF inv, of t q] e by (simp split: if_splits)
    show "map_of (user_conns (drop_user o1 u m) v) t = indexed (drop_user o1 u m) v t" for v t
      using cm_invD(7)[OF inv] by (auto simp: e indexed_def split: option.splits)
  qed
qed

lemma Remove_inv: "cm_inv m \<Longrightarrow> cm_inv (ConnManager_Remove o1 u m)"
  by (simp add: ConnManager_Remove_def drop_user_inv cm_inv_conns cm_invD(1))

text \<open>Registering a fresh object under a snow id that is free.\<close>

lemma cm_inv_insert:
  assumes inv: "cm_inv m" and free: "map_of (cm_bySnow m) sid = None"
    and p: "\<And>s. map_of (cm_bySnow m) s \<noteq> Some p"
    and m': "cm_bySnow m' = AList.update sid p (cm_bySnow m)"
      "cm_byUser m' = (if wc_Authorized w then byUser_insert (wc_UserId w) sid p (cm_byUser m) else cm_byUser m)"
      "cm_heap m' = (cm_heap m)(p := w)" "p < cm_next m'" "cm_next m \<le> cm_next m'"
      "set (cm_pool m') \<subseteq> set (cm_pool m) - {p}" "distinct (cm_pool m')" "gm_ok (cm_conns m')"
    and w: "wc_SnowID w = sid" "wc_Conn w \<noteq> None" "wc_Authorized w \<longleftrightarrow> wc_UserId w \<noteq> ''''"
  shows "cm_inv m'"
proof (rule cm_invI)
  show "gm_ok (cm_conns m')" "distinct (cm_pool m')" by fact+
  show "gm_ok (cm_bySnow m')" "byUser_ok (cm_byUser m')" using cm_invD[OF inv] m' by auto
  show "q < cm_next m'" if "q \<in> set (cm_pool m')" for q
    using that cm_invD(4)[OF inv, of q] m' by auto
  show "entry_ok (cm_next m') (cm_pool m') (cm_heap m') (t, q)" if "map_of (cm_bySnow m') t = Some q" for t q
  proof (cases "t = sid")
    case True
    then show ?thesis using that m' w by (auto simp: entry_ok_def)
  next
    case False
    then have "map_of (cm_bySnow m) t = Some q" using that m' by simp
    with cm_invD(6)[OF inv this] m' p show ?thesis by (auto simp: entry_ok_def)
  qed
  have nu: "map_of (user_conns m u) sid = None" for u
    using cm_invD(7)[OF inv] free by (simp add: indexed_def)
  show "map_of (user_conns m' u) t = indexed m' u t" for u t
  proof (cases "t = sid")
    case True
    then show ?thesis using m' nu[of u] by (simp add: user_conns_def indexed_def)
  next
    case False
    then have "map_of (user_conns m' u) t = map_of (user_conns m u) t"
      using m' by (simp add: user_conns_def)
    moreover have "indexed m' u t = indexed m u t"
      using False m' p by (auto simp: indexed_def split: option.splits)
    ultimately show ?thesis using cm_invD(7)[OF inv] by simp
  qed
qed

lemma new_WsConn_fresh: "cm_inv m \<Longrightarrow> map_of (cm_bySnow m) s \<noteq> Some (cm_next m)"
  by (metis cm_inv_entry(1) less_irrefl)

lemma Add_inv:
  assumes inv: "cm_inv m"
    and sid: "map_of (cm_bySnow m) sid = None \<or> map_of (user_conns m user) sid \<noteq> None"
  shows "cm_inv (ConnManager_Add W now o1 user sid co m)"
proof (cases "user = '''' \<or> co = None")
  case True
  with inv show ?thesis by (auto simp: ConnManager_Add_def)
next
  case False
  then obtain c where u: "user \<noteq> ''''" "co = Some c" by auto
  let ?m1 = "m\<lparr>cm_conns := AList.update user (Some c) (cm_conns m)\<rparr>"
  let ?m2 = "drop_user o1 user ?m1"
  have inv1: "cm_inv ?m1" by (rule cm_inv_conns) (simp_all add: inv cm_invD(1)[OF inv])
  have uc: "user_conns ?m1 = user_conns m" by (simp add: user_conns_def fun_eq_iff)
  note e = drop_user_effect[OF inv1]
  have inv2: "cm_inv ?m2" by (rule drop_user_inv[OF inv1])
  have free: "map_of (cm_bySnow ?m2) sid = None" using sid by (auto simp: e uc)
  have i2: "inner_map (cm_byUser ?m2) user = []"
    using e(9)[of o1 user user] by (simp add: user_conns_def)
  show ?thesis
    by (rule cm_inv_insert[OF inv2 free new_WsConn_fresh[OF inv2],
          where w = "authorized_WsConn W sid user c (mc_AuthTTL (cm_conf m)) now"])
      (use u i2 cm_invD[OF inv1] cm_invD[OF inv2] in
        \<open>auto simp: ConnManager_Add_def Let_def new_WsConn_def authorized_WsConn_def byUser_insert_def e
           WsConn_zero_def dest: new_WsConn_fresh\<close>)
qed

lemma wsConnPool_Get_effect:
  assumes "cm_inv m" "wsConnPool_Get pick m = (p, m1)"
  shows "p < cm_next m1" "cm_next m \<le> cm_next m1" "map_of (cm_bySnow m) s \<noteq> Some p"
    "set (cm_pool m1) \<subseteq> set (cm_pool m) - {p}" "distinct (cm_pool m1)"
    "cm_bySnow m1 = cm_bySnow m" "cm_byUser m1 = cm_byUser m" "cm_conns m1 = cm_conns m"
    "cm_conf m1 = cm_conf m" "cm_closed m1 = cm_closed m" "(cm_heap m1)(p := w) = (cm_heap m)(p := w)"
  using assms cm_invD(4,5)[OF assms(1)] cm_inv_entry(1,2)[OF assms(1)]
  by (auto simp: wsConnPool_Get_def new_WsConn_def split: if_splits) (metis nth_mem, metis less_irrefl)

lemma AddUnauth_inv:
  assumes inv: "cm_inv m"
  shows "cm_inv (fst (ConnManager_AddUnauth W now pick sid co m))"
proof (cases "co = None \<or> sid = '''' \<or> map_of (cm_bySnow m) sid \<noteq> None")
  case True
  with inv show ?thesis by (auto simp: ConnManager_AddUnauth_def split: option.splits)
next
  case False
  then obtain c where c: "co = Some c" "sid \<noteq> ''''" "map_of (cm_bySnow m) sid = None" by auto
  obtain p m1 where g: "wsConnPool_Get pick m = (p, m1)" by fastforce
  note e = wsConnPool_Get_effect[OF inv g]
  let ?w = "WsConn_zero\<lparr>wc_SnowID := sid, wc_UserId := '''', wc_Authorized := False, wc_Conn := Some c,
                wc_Remote := ws_RemoteAddr W c, wc_CreatedAt := now, wc_UpdatedAt := now,
                wc_Heartbeat := now, wc_TTL := mc_UnauthTTL (cm_conf m),
                wc_ExpireAt := now + mc_UnauthTTL (cm_conf m)\<rparr>"
  show ?thesis
    by (rule cm_inv_insert[OF inv c(3) e(3), where w = ?w])
      (use c g e cm_invD(1)[OF inv] in \<open>auto simp: ConnManager_AddUnauth_def acquireWsConn_def Let_def\<close>)
qed

lemma Heartbeat_inv:
  assumes inv: "cm_inv m"
  shows "cm_inv (fst (ConnManager_Heartbeat now sid m))"
proof (cases "sid = '''' \<or> map_of (cm_bySnow m) sid = None")
  case True
  with inv show ?thesis by (auto simp: ConnManager_Heartbeat_def)
next
  case False
  then obtain p where p: "sid \<noteq> ''''" "map_of (cm_bySnow m) sid = Some p" by auto
  define m' where "m' = fst (ConnManager_Heartbeat now sid m)"
  have f: "cm_conns m' = cm_conns m" "cm_bySnow m' = cm_bySnow m" "cm_byUser m' = cm_byUser m"
    "cm_next m' = cm_next m" "cm_pool m' = cm_pool m"
    "\<And>q. wc_SnowID (cm_heap m' q) = wc_SnowID (cm_heap m q)"
    "\<And>q. wc_Conn (cm_heap m' q) = wc_Conn (cm_heap m q)"
    "\<And>q. wc_Authorized (cm_heap m' q) = wc_Authorized (cm_heap m q)"
    "\<And>q. wc_UserId (cm_heap m' q) = wc_UserId (cm_heap m q)"
    using p by (auto simp: m'_def ConnManager_Heartbeat_def)
  have "cm_inv m'"
    using inv by (simp add: cm_inv_def f entry_ok_def index_agrees_def user_conns_def)
  then show ?thesis by (simp add: m'_def)
qed

lemma WsConn_Release_sel [cm_sel]:
  "cm_next (WsConn_Release p m) = cm_next m" "cm_conf (WsConn_Release p m) = cm_conf m"
  "cm_pool (WsConn_Release p m) = p # cm_pool m" "cm_closed (WsConn_Release p m) = cm_closed m"
  "wc_Conn (cm_heap (WsConn_Release p m) q) = wc_Conn (cm_heap m q)"
  by (simp_all add: WsConn_Release_def)

lemma close_fold:
  fixes m :: conn_manager and xs :: "(string \<times> ptr) list"
  defines "f \<equiv> \<lambda>(sid, p) m. WsConn_Release p (closeQuiet (wc_Conn (cm_heap m p)) m)"
  shows "cm_next (fold f xs m) = cm_next m" "cm_conf (fold f xs m) = cm_conf m"
    "set (cm_pool (fold f xs m)) = set (cm_pool m) \<union> snd ` set xs"
    "distinct (map snd xs) \<Longrightarrow> distinct (cm_pool m) \<Longrightarrow> set (cm_pool m) \<inter> snd ` set xs = {}
       \<Longrightarrow> distinct (cm_pool (fold f xs m))"
    "set (cm_closed (fold f xs m)) = set (cm_closed m) \<union> {c. \<exists>e \<in> set xs. wc_Conn (cm_heap m (snd e)) = Some c}"
  unfolding f_def
  by (induction xs arbitrary: m)
    (auto simp: cm_sel cm_closed_closeQuiet split: prod.splits option.splits)

lemma Close_inv:
  assumes inv: "cm_inv m"
  shows "cm_inv (ConnManager_Close o1 m)"
    and "cm_bySnow (ConnManager_Close o1 m) = []"
    and "set (cm_closed (ConnManager_Close o1 m)) = set (cm_closed m)
       \<union> {c. \<exists>s p. map_of (cm_bySnow m) s = Some p \<and> wc_Conn (cm_heap m p) = Some c}"
proof -
  let ?m1 = "m\<lparr>cm_stopped := True\<rparr>" and ?xs = "reorder o1 (cm_bySnow m)"
  let ?f = "fold (\<lambda>(sid, p) m. WsConn_Release p (closeQuiet (wc_Conn (cm_heap m p)) m)) ?xs ?m1"
  have ok: "gm_ok (cm_bySnow m)" using inv by (rule cm_invD)
  have mem: "\<And>e. e \<in> set ?xs \<Longrightarrow> map_of (cm_bySnow m) (fst e) = Some (snd e)"
    using bySnow_members(2)[OF inv] by blast
  have "inj_on snd (set ?xs)"
    by (rule inj_onI) (metis mem cm_inv_inj[OF inv] prod.expand)
  then have d: "distinct (map snd ?xs)"
    using bySnow_members(1)[OF inv, of o1] by (simp add: distinct_map)
  have np: "set (cm_pool ?m1) \<inter> snd ` set ?xs = {}"
    using cm_inv_entry(2)[OF inv mem] by auto
  have lt: "q < cm_next m" if "q \<in> set (cm_pool ?f)" for q
    using that cm_invD(4)[OF inv, of q] cm_inv_entry(1)[OF inv mem]
    by (auto simp: close_fold)
  show "cm_inv (ConnManager_Close o1 m)"
    by (rule cm_invI)
      (use lt close_fold(4)[OF d _ np] cm_invD(5)[OF inv] in
        \<open>auto simp: ConnManager_Close_def Let_def close_fold user_conns_def inner_map_def indexed_def byUser_ok_def\<close>)
  show "cm_bySnow (ConnManager_Close o1 m) = []" by (simp add: ConnManager_Close_def Let_def)
  show "set (cm_closed (ConnManager_Close o1 m)) = set (cm_closed m)
       \<union> {c. \<exists>s p. map_of (cm_bySnow m) s = Some p \<and> wc_Conn (cm_heap m p) = Some c}"
    using ok by (force simp: ConnManager_Close_def Let_def close_fold simp flip: gm_in_set)
qed

subsection \<open>Room for one more connection\<close>

lemma pick_oldest_mem:
  "pick_oldest h xs = Some p \<Longrightarrow> \<exists>s. (s, p) \<in> set xs"
proof -
  let ?g = "\<lambda>(sid, p) oldest. case oldest of None \<Rightarrow> Some p
             | Some q \<Rightarrow> if wc_CreatedAt (h p) < wc_CreatedAt (h q) then Some p else Some q"
  have "fold ?g xs acc = Some p \<Longrightarrow> acc = Some p \<or> (\<exists>s. (s, p) \<in> set xs)" for acc
  proof (induction xs arbitrary: acc)
    case (Cons e xs)
    obtain s q where e: "e = (s, q)" by (cases e)
    from Cons.prems have "fold ?g xs (?g (s, q) acc) = Some p" by (simp add: e)
    from Cons.IH[OF this] show ?case
      by (auto simp: e split: option.splits if_splits)
  qed simp
  then show "pick_oldest h xs = Some p \<Longrightarrow> \<exists>s. (s, p) \<in> set xs"
    unfolding pick_oldest_def by blast
qed

text \<open>The victim is one of the connections created first.\<close>

lemma pick_oldest_min:
  assumes "pick_oldest h xs = Some p" "(s, q) \<in> set xs"
  shows "wc_CreatedAt (h p) \<le> wc_CreatedAt (h q)"
proof -
  let ?g = "\<lambda>(sid, p) oldest. case oldest of None \<Rightarrow> Some p
             | Some q \<Rightarrow> if wc_CreatedAt (h p) < wc_CreatedAt (h q) then Some p else Some q"
  have "fold ?g xs acc = Some p \<Longrightarrow>
      (\<forall>a. acc = Some a \<longrightarrow> wc_CreatedAt (h p) \<le> wc_CreatedAt (h a))
      \<and> (\<forall>(s, q) \<in> set xs. wc_CreatedAt (h p) \<le> wc_CreatedAt (h q))" for acc
  proof (induction xs arbitrary: acc)
    case (Cons e xs)
    obtain s q where e: "e = (s, q)" by (cases e)
    from Cons.prems have "fold ?g xs (?g (s, q) acc) = Some p" by (simp add: e)
    from Cons.IH[OF this] show ?case
      by (cases acc) (auto simp: e split: if_splits)
  qed simp
  with assms show ?thesis unfolding pick_oldest_def by fastforce
qed

lemma pick_oldest_Some: "xs \<noteq> [] \<Longrightarrow> \<exists>p. pick_oldest h xs = Some p"
proof -
  let ?g = "\<lambda>(sid, p) oldest. case oldest of None \<Rightarrow> Some p
             | Some q \<Rightarrow> if wc_CreatedAt (h p) < wc_CreatedAt (h q) then Some p else Some q"
  have "\<exists>p. fold ?g zs (Some a) = Some p" for zs a
    by (induction zs arbitrary: a) (auto split: prod.splits)
  moreover assume "xs \<noteq> []"
  then obtain s p ys where "xs = (s, p) # ys" by (metis neq_Nil_conv prod.exhaust)
  then have "pick_oldest h xs = fold ?g ys (Some p)" by (simp add: pick_oldest_def)
  ultimately show "\<exists>p. pick_oldest h xs = Some p" by simp
qed

definition evict_conn :: "order \<Rightarrow> string \<Rightarrow> string \<Rightarrow> ptr \<Rightarrow> conn_manager \<Rightarrow> conn_manager" where
  "evict_conn o2 user s p m =
     closeQuiet (wc_Conn (cm_heap m p)) (repoint_conns o2 user (wc_Conn (cm_heap m p))
       (AList.delete s (user_conns m user))
       (m\<lparr>cm_byUser := AList.update user (AList.delete s (user_conns m user)) (cm_byUser m),
          cm_bySnow := AList.delete s (cm_bySnow m)\<rparr>))"

lemma evict_conn_sel [cm_sel]:
  "cm_conf (evict_conn o2 u s p m) = cm_conf m" "cm_heap (evict_conn o2 u s p m) = cm_heap m"
  "cm_next (evict_conn o2 u s p m) = cm_next m" "cm_pool (evict_conn o2 u s p m) = cm_pool m"
  "cm_gwId (evict_conn o2 u s p m) = cm_gwId m"
  "cm_bySnow (evict_conn o2 u s p m) = AList.delete s (cm_bySnow m)"
  "cm_byUser (evict_conn o2 u s p m) = AList.update u (AList.delete s (user_conns m u)) (cm_byUser m)"
  "gm_ok (cm_conns m) \<Longrightarrow> gm_ok (cm_conns (evict_conn o2 u s p m))"
  by (simp_all add: evict_conn_def cm_sel)

text \<open>
  What \<^verbatim>\<open>ensureRoomForUserLocked\<close> does when it returns: it keeps everything, or it takes one
  connection of the user, among those created first, out of both indexes and closes it.
\<close>

lemma ensureRoom_effect:
  assumes ok: "byUser_ok (cm_byUser m)" "gm_ok (cm_bySnow m)" "gm_ok (cm_conns m)"
    and own: "\<And>s p. map_of (user_conns m user) s = Some p \<Longrightarrow> wc_SnowID (cm_heap m p) = s"
    and r: "ensureRoomForUserLocked o1 o2 user m = (m', Ok ())"
    and pos: "0 < mc_MaxPerUser (cm_conf m)"
  shows "m' = m \<and> int (length (user_conns m user)) < mc_MaxPerUser (cm_conf m)
    \<or> (\<exists>s p. map_of (user_conns m user) s = Some p
         \<and> int (length (user_conns m user)) \<ge> mc_MaxPerUser (cm_conf m)
         \<and> (\<forall>t q. map_of (user_conns m user) t = Some q \<longrightarrow> wc_CreatedAt (cm_heap m p) \<le> wc_CreatedAt (cm_heap m q))
         \<and> m' = evict_conn o2 user s p m)"
proof (cases "int (length (user_conns m user)) < mc_MaxPerUser (cm_conf m)")
  case True
  with r pos show ?thesis by (simp add: ensureRoomForUserLocked_def)
next
  case False
  with r pos have ev: "mc_EvictOldest (cm_conf m)"
    by (auto simp: ensureRoomForUserLocked_def Let_def split: if_splits)
  have "user_conns m user \<noteq> []" using False pos by auto
  then obtain p where p: "pick_oldest (cm_heap m) (reorder o1 (user_conns m user)) = Some p"
    using pick_oldest_Some by fastforce
  have gu: "gm_ok (user_conns m user)" using ok(1) byUser_okD(2) by (simp add: user_conns_def)
  from pick_oldest_mem[OF p] gu obtain s where s: "map_of (user_conns m user) s = Some p"
    by (auto simp: gm_in_set)
  have min: "wc_CreatedAt (cm_heap m p) \<le> wc_CreatedAt (cm_heap m q)"
    if "map_of (user_conns m user) t = Some q" for t q
    using pick_oldest_min[OF p, of t q] that gu by (simp add: gm_in_set)
  show ?thesis
    using r False pos ev p own[OF s] s min
    by (intro disjI2 exI[of _ s] exI[of _ p]) (auto simp: ensureRoomForUserLocked_def Let_def evict_conn_def)
qed

lemma ensureRoom_noPanic:
  assumes "mc_MaxPerUser (cm_conf m) \<le> 0 \<or> mc_EvictOldest (cm_conf m)"
  shows "snd (ensureRoomForUserLocked o1 o2 user m) = Ok ()"
  using assms by (auto simp: ensureRoomForUserLocked_def Let_def split: option.splits)

lemma ensureRoom_not_Error: "snd (ensureRoomForUserLocked o1 o2 user m) \<noteq> Error e"
  by (auto simp: ensureRoomForUserLocked_def Let_def split: option.splits)

lemma ensureRoom_Panic_same:
  "ensureRoomForUserLocked o1 o2 user m = (m', Panic e) \<Longrightarrow> m' = m"
  by (auto simp: ensureRoomForUserLocked_def Let_def split: option.splits if_splits)

lemma unbind_sel [cm_sel]:
  "cm_conf (unbind u p m) = cm_conf m" "cm_heap (unbind u p m) = cm_heap m"
  "cm_next (unbind u p m) = cm_next m" "cm_pool (unbind u p m) = cm_pool m"
  "cm_conns (unbind u p m) = cm_conns m" "cm_bySnow (unbind u p m) = cm_bySnow m"
  "cm_closed (unbind u p m) = cm_closed m" "cm_gwId (unbind u p m) = cm_gwId m"
  "user_conns (unbind u p m) u = user_conns m u"
  by (simp_all add: unbind_def Let_def user_conns_def)

lemma unbind_byUser_ok: "byUser_ok (cm_byUser m) \<Longrightarrow> byUser_ok (cm_byUser (unbind u p m))"
  by (auto simp: unbind_def Let_def)

text \<open>The state \<^verbatim>\<open>BindUser\<close> asks room in, and the state a successful call leaves.\<close>

lemma BindUser_OkE:
  assumes inv: "cm_inv m" and r: "ConnManager_BindUser now o1 o2 sid user m = (m', Ok ())"
  obtains p m2 where "user \<noteq> ''''" "map_of (cm_bySnow m) sid = Some p"
    "m' = conns_default user (wc_Conn (cm_heap m p))
       (m2\<lparr>cm_byUser := byUser_insert user sid p (cm_byUser m2),
           cm_heap := (cm_heap m)(p := bound_WsConn now user (cm_conf m) (cm_heap m p))\<rparr>)"
    "m2 = unbind user p m \<and>
       (mc_MaxPerUser (cm_conf m) \<le> 0 \<or> int (length (user_conns m user)) < mc_MaxPerUser (cm_conf m))
     \<or> (\<exists>s q. map_of (user_conns m user) s = Some q \<and> 0 < mc_MaxPerUser (cm_conf m)
         \<and> int (length (user_conns m user)) \<ge> mc_MaxPerUser (cm_conf m)
         \<and> (\<forall>t q'. map_of (user_conns m user) t = Some q' \<longrightarrow> wc_CreatedAt (cm_heap m q) \<le> wc_CreatedAt (cm_heap m q'))
         \<and> m2 = evict_conn o2 user s q (unbind user p m))"
proof -
  from r obtain p where u: "user \<noteq> ''''" and p: "map_of (cm_bySnow m) sid = Some p"
    by (auto simp: ConnManager_BindUser_def split: if_splits option.splits)
  have sid: "sid \<noteq> ''''" using r by (auto simp: ConnManager_BindUser_def)
  note en = cm_inv_entry[OF inv p]
  obtain m2 x where er: "(if 0 < mc_MaxPerUser (cm_conf m)
       then ensureRoomForUserLocked o1 o2 user (unbind user p m) else (unbind user p m, Ok ())) = (m2, x)"
    by fastforce
  have x: "x = Ok ()" and h2: "cm_heap m2 = cm_heap m" and alt:
    "m2 = unbind user p m \<and>
       (mc_MaxPerUser (cm_conf m) \<le> 0 \<or> int (length (user_conns m user)) < mc_MaxPerUser (cm_conf m))
     \<or> (\<exists>s q. map_of (user_conns m user) s = Some q \<and> 0 < mc_MaxPerUser (cm_conf m)
         \<and> int (length (user_conns m user)) \<ge> mc_MaxPerUser (cm_conf m)
         \<and> (\<forall>t q'. map_of (user_conns m user) t = Some q' \<longrightarrow> wc_CreatedAt (cm_heap m q) \<le> wc_CreatedAt (cm_heap m q'))
         \<and> m2 = evict_conn o2 user s q (unbind user p m))"
  proof -
    show x: "x = Ok ()"
      using r sid u p en(4) er
      by (auto simp: ConnManager_BindUser_def Let_def cm_sel split: go.splits prod.splits)
    have own: "\<And>s q. map_of (user_conns (unbind user p m) user) s = Some q \<Longrightarrow> wc_SnowID (cm_heap (unbind user p m) q) = s"
      using cm_invD(7)[OF inv] cm_inv_entry(3)[OF inv]
      by (auto simp: cm_sel indexed_def split: option.splits if_splits)
    show alt: "m2 = unbind user p m \<and>
       (mc_MaxPerUser (cm_conf m) \<le> 0 \<or> int (length (user_conns m user)) < mc_MaxPerUser (cm_conf m))
     \<or> (\<exists>s q. map_of (user_conns m user) s = Some q \<and> 0 < mc_MaxPerUser (cm_conf m)
         \<and> int (length (user_conns m user)) \<ge> mc_MaxPerUser (cm_conf m)
         \<and> (\<forall>t q'. map_of (user_conns m user) t = Some q' \<longrightarrow> wc_CreatedAt (cm_heap m q) \<le> wc_CreatedAt (cm_heap m q'))
         \<and> m2 = evict_conn o2 user s q (unbind user p m))"
    proof (cases "0 < mc_MaxPerUser (cm_conf m)")
      case True
      with er x have "ensureRoomForUserLocked o1 o2 user (unbind user p m) = (m2, Ok ())" by simp
      from ensureRoom_effect[OF _ _ _ own this] True show ?thesis
        using cm_invD(1-3)[OF inv] unbind_byUser_ok by (fastforce simp: cm_sel)
    qed (use er in auto)
    then show "cm_heap m2 = cm_heap m" by (auto simp: cm_sel)
  qed
  show ?thesis
  proof (rule that[OF u p _ alt])
    show "m' = conns_default user (wc_Conn (cm_heap m p))
       (m2\<lparr>cm_byUser := byUser_insert user sid p (cm_byUser m2),
           cm_heap := (cm_heap m)(p := bound_WsConn now user (cm_conf m) (cm_heap m p))\<rparr>)"
      using r sid u p en(3,4) er x h2
      by (auto simp: ConnManager_BindUser_def Let_def cm_sel bound_WsConn_def split: go.splits prod.splits)
  qed
qed

text \<open>A call of \<^verbatim>\<open>BindUser\<close> that does not evict the very connection it binds.\<close>

definition bind_keeps :: "string \<Rightarrow> string \<Rightarrow> conn_manager \<Rightarrow> bool" where
  "bind_keeps sid user m \<longleftrightarrow>
     map_of (user_conns m user) sid = None \<or> mc_MaxPerUser (cm_conf m) \<le> 0
     \<or> int (length (user_conns m user)) < mc_MaxPerUser (cm_conf m)"

definition never_panics :: "manager_conf \<Rightarrow> bool" where
  "never_panics c \<longleftrightarrow> mc_MaxPerUser c \<le> 0 \<or> mc_EvictOldest c"

lemma user_conns_unbind:
  "cm_inv m \<Longrightarrow> map_of (cm_bySnow m) sid = Some p \<Longrightarrow>
   map_of (user_conns (unbind user p m) v) t
   = (if t = sid \<and> v \<noteq> user then None else map_of (user_conns m v) t)"
  using cm_inv_entry[of m sid p] cm_invD(7)[of m v sid]
  by (auto simp: unbind_def Let_def user_conns_def indexed_def)

lemma byUser_ok_insert_evicted:
  assumes "byUser_ok bu"
  shows "byUser_ok (byUser_insert u sid p (AList.update u (AList.delete s (inner_map bu u)) bu))"
proof (rule byUser_okI)
  show "gm_ok (byUser_insert u sid p (AList.update u (AList.delete s (inner_map bu u)) bu))"
    using byUser_okD(1)[OF assms] by (simp add: byUser_insert_def)
  show "gm_ok mm \<and> mm \<noteq> []"
    if "map_of (byUser_insert u sid p (AList.update u (AList.delete s (inner_map bu u)) bu)) v = Some mm" for v mm
    using that byUser_okD(2)[OF assms] byUser_okD(3)[OF assms]
    by (auto simp: byUser_insert_def split: if_splits)
qed

lemma BindUser_Ok_inv:
  assumes inv: "cm_inv m" and k: "bind_keeps sid user m"
    and r: "ConnManager_BindUser now o1 o2 sid user m = (m', Ok ())"
  shows "cm_inv m'"
proof -
  from BindUser_OkE[OF inv r] obtain p m2 where u: "user \<noteq> ''''" and p: "map_of (cm_bySnow m) sid = Some p"
    and m': "m' = conns_default user (wc_Conn (cm_heap m p))
       (m2\<lparr>cm_byUser := byUser_insert user sid p (cm_byUser m2),
           cm_heap := (cm_heap m)(p := bound_WsConn now user (cm_conf m) (cm_heap m p))\<rparr>)"
    and alt0: "m2 = unbind user p m \<and>
       (mc_MaxPerUser (cm_conf m) \<le> 0 \<or> int (length (user_conns m user)) < mc_MaxPerUser (cm_conf m))
     \<or> (\<exists>s q. map_of (user_conns m user) s = Some q \<and> 0 < mc_MaxPerUser (cm_conf m)
         \<and> int (length (user_conns m user)) \<ge> mc_MaxPerUser (cm_conf m)
         \<and> (\<forall>t q'. map_of (user_conns m user) t = Some q' \<longrightarrow> wc_CreatedAt (cm_heap m q) \<le> wc_CreatedAt (cm_heap m q'))
         \<and> m2 = evict_conn o2 user s q (unbind user p m))" .
  have alt: "m2 = unbind user p m \<or> (\<exists>s q. s \<noteq> sid \<and> m2 = evict_conn o2 user s q (unbind user p m)
                 \<and> map_of (user_conns m user) s = Some q)"
    using alt0
  proof
    assume "\<exists>s q. map_of (user_conns m user) s = Some q \<and> 0 < mc_MaxPerUser (cm_conf m)
         \<and> int (length (user_conns m user)) \<ge> mc_MaxPerUser (cm_conf m)
         \<and> (\<forall>t q'. map_of (user_conns m user) t = Some q' \<longrightarrow> wc_CreatedAt (cm_heap m q) \<le> wc_CreatedAt (cm_heap m q'))
         \<and> m2 = evict_conn o2 user s q (unbind user p m)"
    then obtain s q where "map_of (user_conns m user) s = Some q" "0 < mc_MaxPerUser (cm_conf m)"
      "int (length (user_conns m user)) \<ge> mc_MaxPerUser (cm_conf m)"
      "m2 = evict_conn o2 user s q (unbind user p m)" by blast
    moreover from this k have "s \<noteq> sid" by (auto simp: bind_keeps_def)
    ultimately show ?thesis by blast
  qed simp
  note en = cm_inv_entry[OF inv p]
  note inj = cm_inv_inj[OF inv]
  obtain dead where dead: "sid \<notin> dead"
      "\<And>t. map_of (cm_bySnow m2) t = (if t \<in> dead then None else map_of (cm_bySnow m) t)"
      "\<And>v t. map_of (user_conns m2 v) t = (if t = sid \<and> v \<noteq> user \<or> v = user \<and> t \<in> dead then None
                 else map_of (user_conns m v) t)"
      "\<And>v t. t \<in> dead \<Longrightarrow> v \<noteq> user \<Longrightarrow> map_of (user_conns m v) t = None"
    and fld: "cm_next m2 = cm_next m" "cm_pool m2 = cm_pool m" "gm_ok (cm_conns m2)" "gm_ok (cm_bySnow m2)"
      "byUser_ok (byUser_insert user sid p (cm_byUser m2))"
  proof (cases "m2 = unbind user p m")
    case True
    show ?thesis
      by (rule that[of "{}"])
        (use True user_conns_unbind[OF inv p] cm_invD[OF inv] unbind_byUser_ok in \<open>auto simp: cm_sel\<close>)
  next
    case False
    with alt obtain s q where s: "s \<noteq> sid" "m2 = evict_conn o2 user s q (unbind user p m)"
      "map_of (user_conns m user) s = Some q" by auto
    have "map_of (user_conns m v) s = None" if "v \<noteq> user" for v
      using s(3) that cm_invD(7)[OF inv] by (auto simp: indexed_def split: option.splits if_splits)
    moreover have "user_conns m2 v = (if v = user then AList.delete s (user_conns (unbind user p m) user)
        else user_conns (unbind user p m) v)" for v
      by (simp add: s(2) user_conns_def cm_sel)
    moreover have "byUser_ok (byUser_insert user sid p (cm_byUser m2))"
      unfolding s(2) cm_sel user_conns_def
      by (rule byUser_ok_insert_evicted) (rule unbind_byUser_ok[OF cm_invD(3)[OF inv]])
    ultimately show ?thesis
      using s by (intro that[of "{s}"])
        (use user_conns_unbind[OF inv p] cm_invD[OF inv] in \<open>auto simp: cm_sel\<close>)
  qed
  have sid_b: "(wc_SnowID (bound_WsConn now user c w) = wc_SnowID w)"
    "wc_Conn (bound_WsConn now user c w) = wc_Conn w" "wc_UserId (bound_WsConn now user c w) = user"
    "wc_Authorized (bound_WsConn now user c w)" for c w
    by (simp_all add: bound_WsConn_def)
  show ?thesis
  proof (rule cm_invI)
    show "gm_ok (cm_conns m')" "gm_ok (cm_bySnow m')" "byUser_ok (cm_byUser m')" "distinct (cm_pool m')"
      using fld cm_invD(5)[OF inv] by (simp_all add: m' cm_sel)
    show "q < cm_next m'" if "q \<in> set (cm_pool m')" for q
      using that cm_invD(4)[OF inv] by (simp add: m' cm_sel fld)
    show "entry_ok (cm_next m') (cm_pool m') (cm_heap m') (t, q)" if "map_of (cm_bySnow m') t = Some q" for t q
    proof -
      from that dead(2) have tq: "map_of (cm_bySnow m) t = Some q" by (auto simp: m' cm_sel split: if_splits)
      show ?thesis
        using cm_inv_entry[OF inv tq] en u by (auto simp: entry_ok_def m' cm_sel fld sid_b)
    qed
    show "map_of (user_conns m' v) t = indexed m' v t" for v t
    proof -
      have uc: "map_of (user_conns m' v) t = (if v = user \<and> t = sid then Some p else map_of (user_conns m2 v) t)"
        by (simp add: m' user_conns_def cm_sel)
      have ix: "indexed m' v t = (if t \<in> dead then None else if t = sid then (if v = user then Some p else None)
          else indexed m v t)"
        using p inj by (auto simp: indexed_def m' cm_sel dead(2) sid_b split: option.splits)
      show ?thesis
        using dead(1,3,4) by (auto simp: uc ix cm_invD(7)[OF inv] simp flip: cm_invD(7)[OF inv])
    qed
  qed
qed

lemma BindUser_fail:
  assumes inv: "cm_inv m" and r: "ConnManager_BindUser now o1 o2 sid user m = (m', r)" and e: "r \<noteq> Ok ()"
  shows "m' = m \<or> (\<exists>p. map_of (cm_bySnow m) sid = Some p \<and> m' = unbind user p m \<and> \<not> never_panics (cm_conf m))"
proof (cases "m' = m")
  case False
  have "r \<noteq> Error x" "sid \<noteq> ''''" "user \<noteq> ''''" for x
    using r e False ensureRoom_not_Error
    by (auto simp: ConnManager_BindUser_def Let_def split: if_splits option.splits prod.splits go.splits)
      (metis snd_conv)+
  with False r e obtain p e' where p: "map_of (cm_bySnow m) sid = Some p"
    and er: "0 < mc_MaxPerUser (cm_conf m)" "ensureRoomForUserLocked o1 o2 user (unbind user p m) = (m', Panic e')"
    by (auto simp: ConnManager_BindUser_def Let_def cm_sel split: if_splits option.splits prod.splits go.splits)
  have "\<not> never_panics (cm_conf m)"
    using er ensureRoom_noPanic[of "unbind user p m" o1 o2 user] by (auto simp: never_panics_def cm_sel)
  with p ensureRoom_Panic_same[OF er(2)] show ?thesis by blast
qed simp

lemma BindUser_inv:
  assumes inv: "cm_inv m" and k: "bind_keeps sid user m" and c: "never_panics (cm_conf m)"
  shows "cm_inv (fst (ConnManager_BindUser now o1 o2 sid user m))"
proof -
  obtain m' r where r: "ConnManager_BindUser now o1 o2 sid user m = (m', r)" by fastforce
  show ?thesis
    using BindUser_Ok_inv[OF inv k] BindUser_fail[OF inv r] r c inv by (cases "r = Ok ()") auto
qed

lemma AddAuthorized_OkE:
  assumes inv: "cm_inv m" and r: "ConnManager_AddAuthorized W now o1 o2 user sid co m = (m', Ok ())"
  obtains c m1 where "co = Some c" "user \<noteq> ''''" "sid \<noteq> ''''" "map_of (cm_bySnow m) sid = None"
    "m' = conns_default user (Some c)
       (m1\<lparr>cm_heap := (cm_heap m)(cm_next m := authorized_WsConn W sid user c (mc_AuthTTL (cm_conf m)) now),
           cm_next := Suc (cm_next m),
           cm_bySnow := AList.update sid (cm_next m) (cm_bySnow m1),
           cm_byUser := byUser_insert user sid (cm_next m) (cm_byUser m1)\<rparr>)"
    "m1 = m \<and> (mc_MaxPerUser (cm_conf m) \<le> 0 \<or> int (length (user_conns m user)) < mc_MaxPerUser (cm_conf m))
     \<or> (\<exists>s q. map_of (user_conns m user) s = Some q \<and> 0 < mc_MaxPerUser (cm_conf m)
         \<and> int (length (user_conns m user)) \<ge> mc_MaxPerUser (cm_conf m)
         \<and> (\<forall>t q'. map_of (user_conns m user) t = Some q' \<longrightarrow> wc_CreatedAt (cm_heap m q) \<le> wc_CreatedAt (cm_heap m q'))
         \<and> m1 = evict_conn o2 user s q m)"
proof -
  from r obtain c where c: "co = Some c" and g: "user \<noteq> ''''" "sid \<noteq> ''''" "map_of (cm_bySnow m) sid = None"
    by (auto simp: ConnManager_AddAuthorized_def split: if_splits option.splits)
  obtain m1 x where er: "(if 0 < mc_MaxPerUser (cm_conf m)
       then ensureRoomForUserLocked o1 o2 user m else (m, Ok ())) = (m1, x)" by fastforce
  have x: "x = Ok ()"
    using r c g er by (auto simp: ConnManager_AddAuthorized_def Let_def split: go.splits prod.splits)
  have own: "\<And>s q. map_of (user_conns m user) s = Some q \<Longrightarrow> wc_SnowID (cm_heap m q) = s"
    using cm_invD(7)[OF inv] cm_inv_entry(3)[OF inv]
    by (auto simp: indexed_def split: option.splits if_splits)
  have alt: "m1 = m \<and> (mc_MaxPerUser (cm_conf m) \<le> 0 \<or> int (length (user_conns m user)) < mc_MaxPerUser (cm_conf m))
     \<or> (\<exists>s q. map_of (user_conns m user) s = Some q \<and> 0 < mc_MaxPerUser (cm_conf m)
         \<and> int (length (user_conns m user)) \<ge> mc_MaxPerUser (cm_conf m)
         \<and> (\<forall>t q'. map_of (user_conns m user) t = Some q' \<longrightarrow> wc_CreatedAt (cm_heap m q) \<le> wc_CreatedAt (cm_heap m q'))
         \<and> m1 = evict_conn o2 user s q m)"
  proof (cases "0 < mc_MaxPerUser (cm_conf m)")
    case True
    with er x have "ensureRoomForUserLocked o1 o2 user m = (m1, Ok ())" by simp
    from ensureRoom_effect[OF _ _ _ own this] True show ?thesis
      using cm_invD(1-3)[OF inv] by fastforce
  qed (use er in auto)
  then have "cm_heap m1 = cm_heap m" "cm_next m1 = cm_next m" "cm_conf m1 = cm_conf m" by (auto simp: cm_sel)
  then show ?thesis
    using r c g er x
    by (intro that[OF c g _ alt])
      (auto simp: ConnManager_AddAuthorized_def Let_def cm_sel new_WsConn_def split: go.splits prod.splits)
qed

text \<open>An eviction alone keeps everything but the rule that no user has an empty map.\<close>

lemma evict_then_insert_inv:
  assumes inv: "cm_inv m" and s: "map_of (user_conns m user) s = Some q" and free: "map_of (cm_bySnow m) sid = None"
    and m': "cm_bySnow m' = AList.update sid (cm_next m) (AList.delete s (cm_bySnow m))"
      "cm_byUser m' = byUser_insert user sid (cm_next m)
         (AList.update user (AList.delete s (user_conns m user)) (cm_byUser m))"
      "cm_heap m' = (cm_heap m)(cm_next m := w)" "cm_next m' = Suc (cm_next m)" "cm_pool m' = cm_pool m"
      "gm_ok (cm_conns m')"
    and w: "wc_SnowID w = sid" "wc_Conn w \<noteq> None" "wc_Authorized w" "wc_UserId w = user" "user \<noteq> ''''"
  shows "cm_inv m'"
proof -
  have q: "map_of (cm_bySnow m) s = Some q" "wc_Authorized (cm_heap m q)" "wc_UserId (cm_heap m q) = user"
    using s cm_invD(7)[OF inv] by (auto simp: indexed_def split: option.splits if_splits)
  define m0 where "m0 = m\<lparr>cm_bySnow := AList.delete s (cm_bySnow m), cm_byUser := byUser_delete user s (cm_byUser m)\<rparr>"
  have inv0: "cm_inv m0"
    by (rule cm_inv_drop[OF inv q(1)]) (use q cm_invD(1)[OF inv] in \<open>simp_all add: m0_def\<close>)
  have eq: "map_of (cm_byUser m') v = map_of (byUser_insert user sid (cm_next m) (cm_byUser m0)) v" for v
    unfolding m' byUser_insert_def
    by (simp add: m0_def user_conns_def) (simp add: byUser_delete_def inner_map_def Let_def split: option.splits)
  define m1 where "m1 = m'\<lparr>cm_byUser := byUser_insert user sid (cm_next m) (cm_byUser m0)\<rparr>"
  have inv1: "cm_inv m1"
    by (rule cm_inv_insert[OF inv0 _ new_WsConn_fresh[OF inv0], where w = w and sid = sid])
      (use free m' w cm_invD(5)[OF inv] cm_invD(4)[OF inv, of "cm_next m"] in \<open>auto simp: m0_def m1_def\<close>)
  have ok: "byUser_ok (cm_byUser m')"
    unfolding m' user_conns_def by (rule byUser_ok_insert_evicted[OF cm_invD(3)[OF inv]])
  have uc: "user_conns m' = user_conns m1"
    by (simp add: user_conns_def inner_map_def fun_eq_iff eq m1_def)
  have ix: "indexed m' = indexed m1"
    by (simp add: indexed_def fun_eq_iff m1_def cong del: option.case_cong_weak)
  have fs: "cm_conns m1 = cm_conns m'" "cm_bySnow m1 = cm_bySnow m'" "cm_heap m1 = cm_heap m'"
    "cm_pool m1 = cm_pool m'" "cm_next m1 = cm_next m'"
    by (simp_all add: m1_def)
  show ?thesis
    by (rule cm_invI) (use ok cm_invD[OF inv1] in \<open>simp_all add: uc ix flip: fs\<close>)
qed

lemma AddAuthorized_inv:
  assumes inv: "cm_inv m"
  shows "cm_inv (fst (ConnManager_AddAuthorized W now o1 o2 user sid co m))"
proof (cases "snd (ConnManager_AddAuthorized W now o1 o2 user sid co m) = Ok ()")
  case False
  obtain m1 x where er: "ensureRoomForUserLocked o1 o2 user m = (m1, x)" by fastforce
  have "fst (ConnManager_AddAuthorized W now o1 o2 user sid co m) = m"
    using False ensureRoom_Panic_same er ensureRoom_not_Error[of o1 o2 user m]
    by (auto simp: ConnManager_AddAuthorized_def Let_def split: option.splits if_splits prod.splits go.splits)
  with inv show ?thesis by simp
next
  case True
  then obtain m' where r: "ConnManager_AddAuthorized W now o1 o2 user sid co m = (m', Ok ())"
    by (metis prod.collapse)
  from AddAuthorized_OkE[OF inv r] show ?thesis
  proof cases
    case (1 c m1)
    let ?w = "authorized_WsConn W sid user c (mc_AuthTTL (cm_conf m)) now"
    show ?thesis
    proof (cases "m1 = m")
      case True
      show ?thesis
        by (rule cm_inv_insert[OF inv 1(4) new_WsConn_fresh[OF inv], where w = ?w])
          (use 1 True r cm_invD[OF inv] in \<open>auto simp: cm_sel authorized_WsConn_def\<close>)
    next
      case False
      with 1 obtain s q where s: "map_of (user_conns m user) s = Some q" "m1 = evict_conn o2 user s q m" by auto
      show ?thesis
        by (rule evict_then_insert_inv[OF inv s(1) 1(4), where w = ?w])
          (use 1 s r cm_invD(1)[OF inv] in \<open>simp_all add: cm_sel authorized_WsConn_def\<close>)
    qed
  qed
qed

end
