(* ===== verification/ConnSteps.thy ===== *)
theory ConnSteps
  imports ConnInvariant
begin

section \<open>Runs of the connection manager\<close>

text \<open>
  The calls a program makes on a \<^verbatim>\<open>ConnManager\<close>, the states they reach, the invariants of those
  states, and the properties of the component.
\<close>

subsection \<open>Calls and reachable states\<close>

datatype cm_op =
    OpAdd time order string string "conn option"
  | OpRemove order string
  | OpAddUnauth time nat string "conn option"
  | OpBindUser time order order string string
  | OpAddAuthorized time order order string string "conn option"
  | OpHeartbeat time string
  | OpRemoveBySnow order string
  | OpKickAllUnauth order
  | OpSweep order "string \<Rightarrow> order" time
  | OpClose order

fun cm_exec :: "ws_lib \<Rightarrow> cm_op \<Rightarrow> conn_manager \<Rightarrow> conn_manager" where
  "cm_exec W (OpAdd now o1 u sid c) m = ConnManager_Add W now o1 u sid c m"
| "cm_exec W (OpRemove o1 u) m = ConnManager_Remove o1 u m"
| "cm_exec W (OpAddUnauth now pick sid c) m = fst (ConnManager_AddUnauth W now pick sid c m)"
| "cm_exec W (OpBindUser now o1 o2 sid u) m = fst (ConnManager_BindUser now o1 o2 sid u m)"
| "cm_exec W (OpAddAuthorized now o1 o2 u sid c) m = fst (ConnManager_AddAuthorized W now o1 o2 u sid c m)"
| "cm_exec W (OpHeartbeat now sid) m = fst (ConnManager_Heartbeat now sid m)"
| "cm_exec W (OpRemoveBySnow o2 sid) m = ConnManager_RemoveBySnow o2 sid m"
| "cm_exec W (OpKickAllUnauth o1) m = fst (ConnManager_KickAllUnauth o1 m)"
| "cm_exec W (OpSweep o1 o2 now) m = ConnManager_sweepOnce o1 o2 now m"
| "cm_exec W (OpClose o1) m = ConnManager_Close o1 m"

text \<open>
  The calls the invariant is kept under: \<^verbatim>\<open>Add\<close> gets a snow id that is free or the user's own,
  \<^verbatim>\<open>BindUser\<close> does not evict the connection it binds, and a new connection brings a socket
  that is neither registered nor closed. Every other call is unrestricted.
\<close>

definition socket_fresh :: "conn option \<Rightarrow> conn_manager \<Rightarrow> bool" where
  "socket_fresh co m \<longleftrightarrow> (case co of None \<Rightarrow> True
     | Some c \<Rightarrow> c \<notin> set (cm_closed m) \<and> (\<forall>e \<in> set (cm_bySnow m). wc_Conn (cm_heap m (snd e)) \<noteq> Some c))"

fun cm_safe :: "cm_op \<Rightarrow> conn_manager \<Rightarrow> bool" where
  "cm_safe (OpAdd now o1 u sid c) m \<longleftrightarrow> socket_fresh c m
     \<and> (map_of (cm_bySnow m) sid = None \<or> map_of (user_conns m u) sid \<noteq> None)"
| "cm_safe (OpAddUnauth now pick sid c) m \<longleftrightarrow> socket_fresh c m"
| "cm_safe (OpAddAuthorized now o1 o2 u sid c) m \<longleftrightarrow> socket_fresh c m"
| "cm_safe (OpBindUser now o1 o2 sid u) m \<longleftrightarrow> bind_keeps sid u m"
| "cm_safe _ m \<longleftrightarrow> True"

inductive cm_reach :: "ws_lib \<Rightarrow> manager_conf \<Rightarrow> string \<Rightarrow> conn_manager \<Rightarrow> bool" for W conf gw where
  cm_reach_new: "cm_reach W conf gw (NewConnManagerWithConf conf gw)"
| cm_reach_step: "cm_reach W conf gw m \<Longrightarrow> cm_safe c m \<Longrightarrow> cm_reach W conf gw (cm_exec W c m)"

text \<open>A run of a list of calls, and whether each of them was safe.\<close>

fun cm_run :: "ws_lib \<Rightarrow> cm_op list \<Rightarrow> conn_manager \<Rightarrow> conn_manager" where
  "cm_run W [] m = m"
| "cm_run W (c # cs) m = cm_run W cs (cm_exec W c m)"

fun cm_safe_run :: "ws_lib \<Rightarrow> cm_op list \<Rightarrow> conn_manager \<Rightarrow> bool" where
  "cm_safe_run W [] m \<longleftrightarrow> True"
| "cm_safe_run W (c # cs) m \<longleftrightarrow> cm_safe c m \<and> cm_safe_run W cs (cm_exec W c m)"

lemma cm_reach_run: "cm_reach W conf gw m \<Longrightarrow> cm_safe_run W cs m \<Longrightarrow> cm_reach W conf gw (cm_run W cs m)"
  by (induction cs arbitrary: m) (auto intro: cm_reach_step)

subsection \<open>The limit on connections and the sockets\<close>

definition limit_inv :: "conn_manager \<Rightarrow> bool" where
  "limit_inv m \<longleftrightarrow> 0 < mc_MaxPerUser (cm_conf m) \<longrightarrow>
     (\<forall>b \<in> set (cm_byUser m). int (length (snd b)) \<le> mc_MaxPerUser (cm_conf m))"

definition sock_inv :: "conn_manager \<Rightarrow> bool" where
  "sock_inv m \<longleftrightarrow>
     (\<forall>e \<in> set (cm_bySnow m). \<forall>c \<in> set (cm_closed m). wc_Conn (cm_heap m (snd e)) \<noteq> Some c)
   \<and> (\<forall>e \<in> set (cm_bySnow m). \<forall>e' \<in> set (cm_bySnow m).
        wc_Conn (cm_heap m (snd e)) = wc_Conn (cm_heap m (snd e')) \<longrightarrow> fst e = fst e')"

lemma limit_inv_iff:
  assumes "cm_inv m"
  shows "limit_inv m \<longleftrightarrow> (0 < mc_MaxPerUser (cm_conf m) \<longrightarrow>
    (\<forall>u. int (length (user_conns m u)) \<le> mc_MaxPerUser (cm_conf m)))"
  using cm_invD(3)[OF assms]
  by (auto simp: limit_inv_def user_conns_def inner_map_def byUser_ok_def gm_in_set split: option.splits)
    (metis map_of_SomeD snd_conv)

lemma limit_inv_sub:
  assumes "cm_inv m" "cm_inv m'" "cm_conf m' = cm_conf m" "limit_inv m"
    "\<And>u t. map_of (user_conns m' u) t \<noteq> None \<Longrightarrow> map_of (user_conns m u) t \<noteq> None"
  shows "limit_inv m'"
proof -
  have "length (user_conns m' u) \<le> length (user_conns m u)" for u
    using assms by (intro gm_length_mono user_conns_ok)
  with assms(3,4) show ?thesis
    unfolding limit_inv_iff[OF assms(1)] limit_inv_iff[OF assms(2)]
    by (metis of_nat_mono order_trans)
qed

lemma sock_inv_alt:
  assumes "cm_inv m"
  shows "sock_inv m \<longleftrightarrow>
    (\<forall>s p c. map_of (cm_bySnow m) s = Some p \<longrightarrow> wc_Conn (cm_heap m p) = Some c \<longrightarrow> c \<notin> set (cm_closed m))
  \<and> (\<forall>s p t q. map_of (cm_bySnow m) s = Some p \<longrightarrow> map_of (cm_bySnow m) t = Some q \<longrightarrow>
        wc_Conn (cm_heap m p) = wc_Conn (cm_heap m q) \<longrightarrow> s = t)"
  using cm_invD(2)[OF assms] by (fastforce simp: sock_inv_def gm_in_set simp flip: gm_in_set)

text \<open>Entries that go take their sockets with them; the others keep theirs.\<close>

lemma sock_inv_sub:
  assumes inv: "cm_inv m" "cm_inv m'" and si: "sock_inv m"
    and sub: "\<And>s p. map_of (cm_bySnow m') s = Some p \<Longrightarrow>
      map_of (cm_bySnow m) s = Some p \<and> wc_Conn (cm_heap m' p) = wc_Conn (cm_heap m p)"
    and cl: "\<And>c. c \<in> set (cm_closed m') \<Longrightarrow> c \<in> set (cm_closed m)
      \<or> (\<exists>s p. map_of (cm_bySnow m) s = Some p \<and> map_of (cm_bySnow m') s = None \<and> wc_Conn (cm_heap m p) = Some c)"
  shows "sock_inv m'"
proof -
  have a: "c \<notin> set (cm_closed m)" if "map_of (cm_bySnow m) s = Some p" "wc_Conn (cm_heap m p) = Some c" for s p c
    using si that unfolding sock_inv_alt[OF inv(1)] by blast
  have b: "s = t" if "map_of (cm_bySnow m) s = Some p" "map_of (cm_bySnow m) t = Some q"
    "wc_Conn (cm_heap m p) = wc_Conn (cm_heap m q)" for s t p q
    using si that unfolding sock_inv_alt[OF inv(1)] by blast
  show ?thesis unfolding sock_inv_alt[OF inv(2)]
  proof (intro conjI allI impI notI)
    fix s p c assume s: "map_of (cm_bySnow m') s = Some p" "wc_Conn (cm_heap m' p) = Some c" "c \<in> set (cm_closed m')"
    from sub[OF s(1)] s(2) have s': "map_of (cm_bySnow m) s = Some p" "wc_Conn (cm_heap m p) = Some c" by auto
    from cl[OF s(3)] a[OF s'] obtain t q where "map_of (cm_bySnow m) t = Some q"
      "map_of (cm_bySnow m') t = None" "wc_Conn (cm_heap m q) = Some c" by blast
    with b[OF s'(1), of t q] s' s(1) show False by auto
  next
    fix s p t q assume "map_of (cm_bySnow m') s = Some p" "map_of (cm_bySnow m') t = Some q"
      "wc_Conn (cm_heap m' p) = wc_Conn (cm_heap m' q)"
    with sub show "s = t" using b by metis
  qed
qed

text \<open>A new entry brings a fresh socket.\<close>

lemma sock_inv_add:
  assumes inv: "cm_inv m" "cm_inv m'" and si: "sock_inv m" and fr: "socket_fresh (Some c) m"
    and new: "map_of (cm_bySnow m') sid = Some p" "wc_Conn (cm_heap m' p) = Some c"
    and old: "\<And>s q. map_of (cm_bySnow m') s = Some q \<Longrightarrow> s \<noteq> sid \<Longrightarrow>
      map_of (cm_bySnow m) s = Some q \<and> wc_Conn (cm_heap m' q) = wc_Conn (cm_heap m q)"
    and cl: "\<And>c. c \<in> set (cm_closed m') \<Longrightarrow> c \<in> set (cm_closed m)
      \<or> (\<exists>s p. map_of (cm_bySnow m) s = Some p \<and> (s = sid \<or> map_of (cm_bySnow m') s = None) \<and> wc_Conn (cm_heap m p) = Some c)"
  shows "sock_inv m'"
proof -
  have a: "d \<notin> set (cm_closed m)" if "map_of (cm_bySnow m) s = Some q" "wc_Conn (cm_heap m q) = Some d" for s q d
    using si that unfolding sock_inv_alt[OF inv(1)] by blast
  have b: "s = t" if "map_of (cm_bySnow m) s = Some q" "map_of (cm_bySnow m) t = Some r"
    "wc_Conn (cm_heap m q) = wc_Conn (cm_heap m r)" for s t q r
    using si that unfolding sock_inv_alt[OF inv(1)] by blast
  have f: "c \<notin> set (cm_closed m)" "map_of (cm_bySnow m) s = Some q \<Longrightarrow> wc_Conn (cm_heap m q) \<noteq> Some c" for s q
    using fr by (fastforce simp: socket_fresh_def dest: map_of_SomeD)+
  show ?thesis unfolding sock_inv_alt[OF inv(2)]
  proof (intro conjI allI impI notI)
    fix s q d assume s: "map_of (cm_bySnow m') s = Some q" "wc_Conn (cm_heap m' q) = Some d" "d \<in> set (cm_closed m')"
    show False
    proof (cases "s = sid")
      case True
      then have "d = c" using s new by simp
      with cl[OF s(3)] f show False by blast
    next
      case False
      from old[OF s(1) False] s(2) have s': "map_of (cm_bySnow m) s = Some q" "wc_Conn (cm_heap m q) = Some d" by auto
      from cl[OF s(3)] a[OF s'] obtain t r where t: "map_of (cm_bySnow m) t = Some r"
        "t = sid \<or> map_of (cm_bySnow m') t = None" "wc_Conn (cm_heap m r) = Some d" by blast
      with b[OF s'(1) t(1)] s' s(1) False show False by auto
    qed
  next
    fix s q t r assume st: "map_of (cm_bySnow m') s = Some q" "map_of (cm_bySnow m') t = Some r"
      "wc_Conn (cm_heap m' q) = wc_Conn (cm_heap m' r)"
    show "s = t"
    proof (cases "s = sid \<or> t = sid")
      case True
      with st new old f(2) show ?thesis by (metis option.inject)
    next
      case False
      with st old b show ?thesis by metis
    qed
  qed
qed

subsection \<open>What a call does to the entries and the sockets\<close>

text \<open>
  \<open>cm_shrinks m m'\<close>: \<open>m'\<close> has no entry \<open>m\<close> did not have, and closed only sockets of entries that went.
\<close>

definition cm_shrinks :: "conn_manager \<Rightarrow> conn_manager \<Rightarrow> bool" where
  "cm_shrinks m m' \<longleftrightarrow> cm_conf m' = cm_conf m
   \<and> (\<forall>s p. map_of (cm_bySnow m') s = Some p \<longrightarrow>
        map_of (cm_bySnow m) s = Some p \<and> wc_Conn (cm_heap m' p) = wc_Conn (cm_heap m p))
   \<and> (\<forall>c. c \<in> set (cm_closed m') \<longrightarrow> c \<in> set (cm_closed m)
        \<or> (\<exists>s p. map_of (cm_bySnow m) s = Some p \<and> map_of (cm_bySnow m') s = None \<and> wc_Conn (cm_heap m p) = Some c))"

lemma cm_shrinks_sock_inv:
  assumes inv: "cm_inv m" "cm_inv m'" and si: "sock_inv m" and sh: "cm_shrinks m m'"
  shows "sock_inv m'"
proof (rule sock_inv_sub[OF inv si])
  fix s p assume "map_of (cm_bySnow m') s = Some p"
  with sh show "map_of (cm_bySnow m) s = Some p \<and> wc_Conn (cm_heap m' p) = wc_Conn (cm_heap m p)"
    unfolding cm_shrinks_def by blast
next
  fix c assume "c \<in> set (cm_closed m')"
  with sh show "c \<in> set (cm_closed m) \<or> (\<exists>s p. map_of (cm_bySnow m) s = Some p \<and>
      map_of (cm_bySnow m') s = None \<and> wc_Conn (cm_heap m p) = Some c)"
    unfolding cm_shrinks_def by blast
qed

lemma cm_shrinks_refl [simp]: "cm_shrinks m m"
  by (simp add: cm_shrinks_def)

lemma sweepOnce_shrinks: "cm_inv m \<Longrightarrow> cm_shrinks m (ConnManager_sweepOnce o1 o2 now m)"
  unfolding cm_shrinks_def
  by (auto simp: sweepOnce_effect split: option.splits if_splits)

lemma KickAllUnauth_shrinks: "cm_inv m \<Longrightarrow> cm_shrinks m (fst (ConnManager_KickAllUnauth o1 m))"
proof -
  assume inv: "cm_inv m"
  obtain m' n where r: "ConnManager_KickAllUnauth o1 m = (m', n)" by fastforce
  show ?thesis
    unfolding cm_shrinks_def
    by (auto simp: r KickAllUnauth_effect[OF inv r] split: option.splits if_splits)
qed

lemma Close_shrinks: "cm_inv m \<Longrightarrow> cm_shrinks m (ConnManager_Close o1 m)"
  unfolding cm_shrinks_def
  by (auto simp: Close_inv(2,3)) (simp add: ConnManager_Close_def Let_def close_fold)

lemma user_conns_bySnow:
  "cm_inv m \<Longrightarrow> map_of (user_conns m u) s = Some p \<Longrightarrow>
   map_of (cm_bySnow m) s = Some p \<and> wc_Authorized (cm_heap m p) \<and> wc_UserId (cm_heap m p) = u"
  by (auto simp: cm_invD(7) indexed_def split: option.splits if_splits)

lemma drop_user_shrinks: "cm_inv m \<Longrightarrow> cm_shrinks m (drop_user o1 u m)"
  unfolding cm_shrinks_def
  by (auto simp: drop_user_effect split: if_splits) (metis option.distinct(1) user_conns_bySnow)

lemma Remove_shrinks: "cm_inv m \<Longrightarrow> cm_shrinks m (ConnManager_Remove o1 u m)"
proof -
  assume inv: "cm_inv m"
  have "cm_shrinks (m\<lparr>cm_conns := AList.delete u (cm_conns m)\<rparr>)
      (drop_user o1 u (m\<lparr>cm_conns := AList.delete u (cm_conns m)\<rparr>))"
    by (rule drop_user_shrinks[OF cm_inv_conns[OF inv]]) (simp add: cm_invD(1)[OF inv])
  then show ?thesis by (simp add: ConnManager_Remove_def cm_shrinks_def)
qed

lemma RemoveBySnow_shrinks: "cm_inv m \<Longrightarrow> cm_shrinks m (ConnManager_RemoveBySnow o2 sid m)"
proof -
  assume inv: "cm_inv m"
  show ?thesis
  proof (cases "sid = '''' \<or> map_of (cm_bySnow m) sid = None")
    case True
    then show ?thesis by (auto simp: ConnManager_RemoveBySnow_def)
  next
    case False
    then obtain p where p: "sid \<noteq> ''''" "map_of (cm_bySnow m) sid = Some p" by auto
    have f: "cm_conf (ConnManager_RemoveBySnow o2 sid m) = cm_conf m"
      "cm_bySnow (ConnManager_RemoveBySnow o2 sid m) = AList.delete sid (cm_bySnow m)"
      "cm_heap (ConnManager_RemoveBySnow o2 sid m) = cm_heap m"
      "set (cm_closed (ConnManager_RemoveBySnow o2 sid m))
       = set (cm_closed m) \<union> {c. wc_Conn (cm_heap m p) = Some c}"
      using p by (auto simp: ConnManager_RemoveBySnow_def Let_def cm_sel cm_closed_closeQuiet split: option.splits)
    show ?thesis unfolding cm_shrinks_def f using p by auto
  qed
qed

lemma bound_WsConn_sel [simp]:
  "wc_SnowID (bound_WsConn now user c w) = wc_SnowID w" "wc_Conn (bound_WsConn now user c w) = wc_Conn w"
  "wc_UserId (bound_WsConn now user c w) = user" "wc_Authorized (bound_WsConn now user c w)"
  "wc_CreatedAt (bound_WsConn now user c w) = wc_CreatedAt w"
  by (simp_all add: bound_WsConn_def)

lemma evict_conn_closed:
  "set (cm_closed (evict_conn o2 u s q m)) = set (cm_closed m) \<union> {c. wc_Conn (cm_heap m q) = Some c}"
  by (auto simp: evict_conn_def cm_sel cm_closed_closeQuiet split: option.splits)

lemma BindUser_Ok_shrinks:
  assumes inv: "cm_inv m" and r: "ConnManager_BindUser now o1 o2 sid user m = (m', Ok ())"
  shows "cm_shrinks m m'"
  using BindUser_OkE[OF inv r]
proof cases
  case (1 p m2)
  have c: "wc_Conn (cm_heap m' q) = wc_Conn (cm_heap m q)" for q by (simp add: 1(3) cm_sel)
  show ?thesis
  proof (cases "m2 = unbind user p m")
    case True
    then show ?thesis unfolding cm_shrinks_def c by (simp add: 1(3) cm_sel)
  next
    case False
    with 1(4) obtain s q where s: "map_of (user_conns m user) s = Some q"
      "m2 = evict_conn o2 user s q (unbind user p m)" by auto
    show ?thesis unfolding cm_shrinks_def c
      using user_conns_bySnow[OF inv s(1)] by (auto simp: 1(3) s(2) cm_sel evict_conn_closed)
  qed
qed

lemma BindUser_shrinks:
  assumes inv: "cm_inv m"
  shows "cm_shrinks m (fst (ConnManager_BindUser now o1 o2 sid user m))"
proof -
  obtain m' r where r: "ConnManager_BindUser now o1 o2 sid user m = (m', r)" by fastforce
  show ?thesis
  proof (cases "r = Ok ()")
    case True
    with BindUser_Ok_shrinks[OF inv] r show ?thesis by simp
  next
    case False
    from BindUser_fail[OF inv r False] r show ?thesis by (auto simp: cm_shrinks_def cm_sel)
  qed
qed

lemma Heartbeat_fields:
  assumes "ConnManager_Heartbeat now sid m = (m', r)"
  shows "cm_conns m' = cm_conns m" "cm_bySnow m' = cm_bySnow m" "cm_byUser m' = cm_byUser m"
    "cm_closed m' = cm_closed m" "cm_conf m' = cm_conf m"
    "wc_Conn (cm_heap m' q) = wc_Conn (cm_heap m q)" "wc_UserId (cm_heap m' q) = wc_UserId (cm_heap m q)"
    "wc_Authorized (cm_heap m' q) = wc_Authorized (cm_heap m q)"
  using assms by (auto simp: ConnManager_Heartbeat_def split: if_splits option.splits)

lemma Heartbeat_shrinks: "cm_shrinks m (fst (ConnManager_Heartbeat now sid m))"
proof -
  obtain m' r where r: "ConnManager_Heartbeat now sid m = (m', r)" by fastforce
  show ?thesis by (simp add: r cm_shrinks_def Heartbeat_fields[OF r])
qed

text \<open>\<open>cm_grows m m' sid c\<close>: as before, but for one entry under \<open>sid\<close> with the socket \<open>c\<close>.\<close>

definition cm_grows :: "conn_manager \<Rightarrow> conn_manager \<Rightarrow> string \<Rightarrow> conn \<Rightarrow> bool" where
  "cm_grows m m' sid c \<longleftrightarrow> cm_conf m' = cm_conf m
   \<and> (\<exists>p. map_of (cm_bySnow m') sid = Some p \<and> wc_Conn (cm_heap m' p) = Some c)
   \<and> (\<forall>s q. map_of (cm_bySnow m') s = Some q \<longrightarrow> s \<noteq> sid \<longrightarrow>
        map_of (cm_bySnow m) s = Some q \<and> wc_Conn (cm_heap m' q) = wc_Conn (cm_heap m q))
   \<and> (\<forall>d. d \<in> set (cm_closed m') \<longrightarrow> d \<in> set (cm_closed m)
        \<or> (\<exists>s p. map_of (cm_bySnow m) s = Some p \<and> (s = sid \<or> map_of (cm_bySnow m') s = None)
              \<and> wc_Conn (cm_heap m p) = Some d))"

lemma cm_grows_sock_inv:
  assumes inv: "cm_inv m" "cm_inv m'" and si: "sock_inv m" and fr: "socket_fresh (Some c) m"
    and g: "cm_grows m m' sid c"
  shows "sock_inv m'"
proof -
  from g obtain p where p: "map_of (cm_bySnow m') sid = Some p" "wc_Conn (cm_heap m' p) = Some c"
    unfolding cm_grows_def by blast
  show ?thesis
  proof (rule sock_inv_add[OF inv si fr p])
    fix s q assume "map_of (cm_bySnow m') s = Some q" "s \<noteq> sid"
    with g show "map_of (cm_bySnow m) s = Some q \<and> wc_Conn (cm_heap m' q) = wc_Conn (cm_heap m q)"
      unfolding cm_grows_def by blast
  next
    fix d assume "d \<in> set (cm_closed m')"
    with g show "d \<in> set (cm_closed m) \<or> (\<exists>s p. map_of (cm_bySnow m) s = Some p
        \<and> (s = sid \<or> map_of (cm_bySnow m') s = None) \<and> wc_Conn (cm_heap m p) = Some d)"
      unfolding cm_grows_def by blast
  qed
qed

lemma AddUnauth_grows:
  assumes inv: "cm_inv m" and ok: "snd (ConnManager_AddUnauth W now pick sid (Some c) m) = Ok p"
  shows "cm_grows m (fst (ConnManager_AddUnauth W now pick sid (Some c) m)) sid c"
    and "user_conns (fst (ConnManager_AddUnauth W now pick sid (Some c) m)) = user_conns m"
    and "map_of (cm_bySnow m) sid = None"
proof -
  obtain p' m1 where g: "wsConnPool_Get pick m = (p', m1)" by fastforce
  note e = wsConnPool_Get_effect[OF inv g]
  from ok show "map_of (cm_bySnow m) sid = None"
    by (auto simp: ConnManager_AddUnauth_def split: if_splits)
  then show "cm_grows m (fst (ConnManager_AddUnauth W now pick sid (Some c) m)) sid c"
    "user_conns (fst (ConnManager_AddUnauth W now pick sid (Some c) m)) = user_conns m"
    using ok g e by (auto simp: ConnManager_AddUnauth_def acquireWsConn_def Let_def cm_grows_def
        user_conns_def fun_eq_iff split: if_splits)
qed

lemma AddUnauth_fail:
  "\<nexists>q. snd (ConnManager_AddUnauth W now pick sid co m) = Ok q \<Longrightarrow>
   fst (ConnManager_AddUnauth W now pick sid co m) = m"
  by (auto simp: ConnManager_AddUnauth_def split: option.splits if_splits prod.splits)

lemma AddAuthorized_fail:
  assumes "ConnManager_AddAuthorized W now o1 o2 user sid co m = (m', r)" "r \<noteq> Ok ()"
  shows "m' = m"
proof (cases "ensureRoomForUserLocked o1 o2 user m")
  case (Pair m1 x)
  have "x \<noteq> Error e" for e using Pair ensureRoom_not_Error[of o1 o2 user m e] by auto
  moreover have "m1 = m" if "x = Panic e" for e using Pair that by (auto intro: ensureRoom_Panic_same)
  ultimately show ?thesis
    using assms Pair by (cases x)
      (auto simp: ConnManager_AddAuthorized_def Let_def split: option.splits if_splits prod.splits)
qed

lemma AddAuthorized_grows:
  assumes inv: "cm_inv m" and r: "ConnManager_AddAuthorized W now o1 o2 user sid co m = (m', Ok ())"
  obtains c where "co = Some c" "cm_grows m m' sid c"
  using AddAuthorized_OkE[OF inv r]
proof cases
  case (1 c m1)
  have p: "map_of (cm_bySnow m') sid = Some (cm_next m)" "wc_Conn (cm_heap m' (cm_next m)) = Some c"
    by (simp_all add: 1(5) cm_sel authorized_WsConn_def)
  have h: "wc_Conn (cm_heap m' q) = wc_Conn (cm_heap m q)" if "map_of (cm_bySnow m) s = Some q" for s q
    using that new_WsConn_fresh[OF inv, of s] by (auto simp: 1(5) cm_sel)
  have "cm_grows m m' sid c"
  proof (cases "m1 = m")
    case True
    then show ?thesis unfolding cm_grows_def using p h by (auto simp: 1(5) cm_sel split: if_splits)
  next
    case False
    with 1(6) obtain s q where s: "map_of (user_conns m user) s = Some q" "m1 = evict_conn o2 user s q m" by auto
    from user_conns_bySnow[OF inv s(1)] 1(4) have "s \<noteq> sid" "map_of (cm_bySnow m) s = Some q" by auto
    then show ?thesis unfolding cm_grows_def using p h
      by (auto simp: 1(5) s(2) cm_sel evict_conn_closed split: if_splits)
  qed
  with 1(1) show ?thesis by (rule that)
qed

lemma Add_grows:
  assumes inv: "cm_inv m" and u: "user \<noteq> ''''"
  shows "cm_grows m (ConnManager_Add W now o1 user sid (Some c) m) sid c"
proof -
  let ?m1 = "m\<lparr>cm_conns := AList.update user (Some c) (cm_conns m)\<rparr>"
  have inv1: "cm_inv ?m1" by (rule cm_inv_conns) (simp_all add: inv cm_invD(1)[OF inv])
  note e = drop_user_effect[OF inv1]
  have uc: "user_conns ?m1 = user_conns m" by (simp add: user_conns_def fun_eq_iff)
  have h: "map_of (cm_bySnow m) s = Some q \<Longrightarrow> q \<noteq> cm_next m" for s q
    using new_WsConn_fresh[OF inv] by blast
  show ?thesis
    using u h user_conns_bySnow[OF inv]
    unfolding cm_grows_def
    by (auto simp: ConnManager_Add_def Let_def new_WsConn_def e uc authorized_WsConn_def split: if_splits)
      (metis option.distinct(1) user_conns_bySnow[OF inv])+
qed

lemma cm_grows_conf: "cm_grows m m' s c \<Longrightarrow> cm_conf m' = cm_conf m"
  by (simp add: cm_grows_def)

subsection \<open>Every safe call keeps every invariant\<close>

lemma cm_exec_inv:
  assumes "cm_inv m" "cm_safe c m" "never_panics (cm_conf m)"
  shows "cm_inv (cm_exec W c m)"
  using assms
proof (cases c)
  case (OpKickAllUnauth o1)
  then show ?thesis
    using assms KickAllUnauth_effect(1)[OF assms(1), of o1] by (cases "ConnManager_KickAllUnauth o1 m") simp
qed (auto intro: Add_inv Remove_inv AddUnauth_inv BindUser_inv AddAuthorized_inv Heartbeat_inv
      RemoveBySnow_inv sweepOnce_effect Close_inv)

lemma cm_exec_sock:
  assumes inv: "cm_inv m" and safe: "cm_safe c m" and np: "never_panics (cm_conf m)" and si: "sock_inv m"
  shows "sock_inv (cm_exec W c m) \<and> cm_conf (cm_exec W c m) = cm_conf m"
proof -
  note inv' = cm_exec_inv[OF inv safe np, of W]
  have sh: ?thesis if "cm_shrinks m (cm_exec W c m)"
    using cm_shrinks_sock_inv[OF inv inv' si that] that by (simp add: cm_shrinks_def)
  have gr: ?thesis if "cm_grows m (cm_exec W c m) s d" "socket_fresh (Some d) m" for s d
    using cm_grows_sock_inv[OF inv inv' si that(2,1)] cm_grows_conf[OF that(1)] by simp
  show ?thesis
  proof (cases c)
    case (OpAdd now o1 u sid co)
    show ?thesis
    proof (cases "u = '''' \<or> co = None")
      case True
      then show ?thesis using OpAdd si by (auto simp: ConnManager_Add_def)
    next
      case False
      then obtain d where d: "co = Some d" "u \<noteq> ''''" by auto
      show ?thesis by (rule gr[of sid d]) (use Add_grows[OF inv d(2)] OpAdd safe d in auto)
    qed
  next
    case (OpAddUnauth now pick sid co)
    show ?thesis
    proof (cases "\<exists>p. snd (ConnManager_AddUnauth W now pick sid co m) = Ok p")
      case True
      then obtain p d where p: "snd (ConnManager_AddUnauth W now pick sid (Some d) m) = Ok p" "co = Some d"
        by (cases co) (auto simp: ConnManager_AddUnauth_def)
      show ?thesis by (rule gr[of sid d]) (use AddUnauth_grows(1)[OF inv p(1)] OpAddUnauth safe p in auto)
    next
      case False
      then have "fst (ConnManager_AddUnauth W now pick sid co m) = m" using AddUnauth_fail by blast
      then show ?thesis using OpAddUnauth si by simp
    qed
  next
    case (OpAddAuthorized now o1 o2 u sid co)
    obtain m' r where r: "ConnManager_AddAuthorized W now o1 o2 u sid co m = (m', r)" by fastforce
    show ?thesis
    proof (cases "r = Ok ()")
      case True
      with AddAuthorized_grows[OF inv] r obtain d where "co = Some d" "cm_grows m m' sid d" by blast
      then show ?thesis using gr[of sid d] OpAddAuthorized safe r by simp
    next
      case False
      with AddAuthorized_fail[OF r] OpAddAuthorized r si show ?thesis by simp
    qed
  qed (use sh inv in \<open>auto simp: Remove_shrinks BindUser_shrinks Heartbeat_shrinks RemoveBySnow_shrinks
        KickAllUnauth_shrinks sweepOnce_shrinks Close_shrinks\<close>)
qed

lemma length_update_le: "length (AList.update k v m) \<le> Suc (length m)"
  by (induction m) auto

lemma limit_inv_shrinks:
  assumes inv: "cm_inv m" "cm_inv m'" and li: "limit_inv m" and sh: "cm_shrinks m m'"
    and h: "\<And>s p. map_of (cm_bySnow m') s = Some p \<Longrightarrow>
      wc_Authorized (cm_heap m' p) = wc_Authorized (cm_heap m p) \<and> wc_UserId (cm_heap m' p) = wc_UserId (cm_heap m p)"
  shows "limit_inv m'"
proof (rule limit_inv_sub[OF inv _ li])
  show "cm_conf m' = cm_conf m" using sh by (simp add: cm_shrinks_def)
  fix u t assume "map_of (user_conns m' u) t \<noteq> None"
  then obtain p where p: "map_of (user_conns m' u) t = Some p" by blast
  from user_conns_bySnow[OF inv(2) this] have q: "map_of (cm_bySnow m') t = Some p"
    "wc_Authorized (cm_heap m' p)" "wc_UserId (cm_heap m' p) = u" by auto
  with h[OF q(1)] sh have "indexed m u t = Some p" by (auto simp: indexed_def cm_shrinks_def)
  then show "map_of (user_conns m u) t \<noteq> None" by (simp add: cm_invD(7)[OF inv(1)])
qed

lemma limit_inv_users:
  assumes inv: "cm_inv m" "cm_inv m'" and li: "limit_inv m" and conf: "cm_conf m' = cm_conf m"
    and u: "0 < mc_MaxPerUser (cm_conf m) \<Longrightarrow> int (length (user_conns m' user)) \<le> mc_MaxPerUser (cm_conf m)"
    and v: "\<And>v t. v \<noteq> user \<Longrightarrow> map_of (user_conns m' v) t \<noteq> None \<Longrightarrow> map_of (user_conns m v) t \<noteq> None"
  shows "limit_inv m'"
  unfolding limit_inv_iff[OF inv(2)]
proof (intro impI allI)
  fix w assume pos: "0 < mc_MaxPerUser (cm_conf m')"
  show "int (length (user_conns m' w)) \<le> mc_MaxPerUser (cm_conf m')"
  proof (cases "w = user")
    case True
    then show ?thesis using u pos conf by simp
  next
    case False
    have "length (user_conns m' w) \<le> length (user_conns m w)"
      by (rule gm_length_mono[OF user_conns_ok[OF inv(1)] user_conns_ok[OF inv(2)] v[OF False]])
    with li pos conf show ?thesis unfolding limit_inv_iff[OF inv(1)] by (metis of_nat_mono order_trans)
  qed
qed

lemma evicted_length:
  assumes inv: "cm_inv m" and li: "limit_inv m" and s: "map_of (user_conns m user) s = Some q"
    and pos: "0 < mc_MaxPerUser (cm_conf m)"
  shows "int (length (AList.update sid p (AList.delete s (user_conns m user)))) \<le> mc_MaxPerUser (cm_conf m)"
proof -
  have "Suc (length (AList.delete s (user_conns m user))) = length (user_conns m user)"
    by (rule length_delete_present[OF user_conns_ok[OF inv] s])
  moreover have "int (length (user_conns m user)) \<le> mc_MaxPerUser (cm_conf m)"
    using li pos unfolding limit_inv_iff[OF inv] by blast
  ultimately show ?thesis using length_update_le[of sid p "AList.delete s (user_conns m user)"] by linarith
qed

lemma BindUser_limit:
  assumes inv: "cm_inv m" and li: "limit_inv m" and k: "bind_keeps sid user m"
    and r: "ConnManager_BindUser now o1 o2 sid user m = (m', Ok ())"
  shows "limit_inv m'"
  using BindUser_OkE[OF inv r]
proof cases
  case (1 p m2)
  have inv': "cm_inv m'" by (rule BindUser_Ok_inv[OF inv k r])
  have conf: "cm_conf m' = cm_conf m" using BindUser_Ok_shrinks[OF inv r] by (simp add: cm_shrinks_def)
  have uc: "user_conns m' v = (if v = user then AList.update sid p (user_conns m2 user) else user_conns m2 v)" for v
    by (simp add: 1(3) user_conns_def cm_sel)
  show ?thesis
  proof (rule limit_inv_users[OF inv inv' li conf, where user = user])
    assume pos: "0 < mc_MaxPerUser (cm_conf m)"
    show "int (length (user_conns m' user)) \<le> mc_MaxPerUser (cm_conf m)"
    proof (cases "m2 = unbind user p m \<and> int (length (user_conns m user)) < mc_MaxPerUser (cm_conf m)")
      case True
      then show ?thesis
        using length_update_le[of sid p "user_conns m user"] by (simp add: uc cm_sel)
    next
      case False
      with 1(4) pos obtain s q where s: "map_of (user_conns m user) s = Some q"
        "m2 = evict_conn o2 user s q (unbind user p m)" by auto
      have "user_conns m2 user = AList.delete s (user_conns m user)"
        using s(2) by (simp add: user_conns_def cm_sel) (simp add: unbind_def Let_def)
      with evicted_length[OF inv li s(1) pos] show ?thesis by (simp add: uc)
    qed
  next
    fix v t assume v: "v \<noteq> user" and t: "map_of (user_conns m' v) t \<noteq> None"
    have "user_conns m2 v = user_conns (unbind user p m) v"
      using 1(4) v by (auto simp: user_conns_def cm_sel)
    with t v have "map_of (user_conns (unbind user p m) v) t \<noteq> None" by (simp add: uc)
    then show "map_of (user_conns m v) t \<noteq> None"
      unfolding user_conns_unbind[OF inv 1(2)] by (auto split: if_splits)
  qed
qed

lemma AddAuthorized_limit:
  assumes inv: "cm_inv m" and li: "limit_inv m"
    and r: "ConnManager_AddAuthorized W now o1 o2 user sid co m = (m', Ok ())"
  shows "limit_inv m'"
  using AddAuthorized_OkE[OF inv r]
proof cases
  case (1 c m1)
  have inv': "cm_inv m'" using AddAuthorized_inv[OF inv] r by (metis fst_conv)
  from AddAuthorized_grows[OF inv r] have conf: "cm_conf m' = cm_conf m" by (metis cm_grows_conf)
  have uc: "user_conns m' v = (if v = user then AList.update sid (cm_next m) (user_conns m1 user) else user_conns m1 v)" for v
    by (simp add: 1(5) user_conns_def cm_sel)
  show ?thesis
  proof (rule limit_inv_users[OF inv inv' li conf, where user = user])
    assume pos: "0 < mc_MaxPerUser (cm_conf m)"
    show "int (length (user_conns m' user)) \<le> mc_MaxPerUser (cm_conf m)"
    proof (cases "m1 = m \<and> int (length (user_conns m user)) < mc_MaxPerUser (cm_conf m)")
      case True
      then show ?thesis
        using length_update_le[of sid "cm_next m" "user_conns m user"] by (simp add: uc)
    next
      case False
      with 1(6) pos obtain s q where s: "map_of (user_conns m user) s = Some q"
        "m1 = evict_conn o2 user s q m" by auto
      have "user_conns m1 user = AList.delete s (user_conns m user)"
        using s(2) by (simp add: user_conns_def cm_sel)
      with evicted_length[OF inv li s(1) pos] show ?thesis by (simp add: uc)
    qed
  next
    fix v t assume v: "v \<noteq> user" and t: "map_of (user_conns m' v) t \<noteq> None"
    have "user_conns m1 v = user_conns m v"
      using 1(6) v by (auto simp: user_conns_def cm_sel)
    with t v show "map_of (user_conns m v) t \<noteq> None" by (simp add: uc)
  qed
qed

lemma Add_user_conns:
  assumes "cm_inv m" "user \<noteq> ''''"
  shows "user_conns (ConnManager_Add W now o1 user sid (Some c) m) v
     = (if v = user then [(sid, cm_next m)] else user_conns m v)"
proof -
  let ?m1 = "m\<lparr>cm_conns := AList.update user (Some c) (cm_conns m)\<rparr>"
  have inv1: "cm_inv ?m1" by (rule cm_inv_conns) (simp_all add: assms cm_invD(1)[OF assms(1)])
  have "user_conns (drop_user o1 user ?m1) v = (if v = user then [] else user_conns m v)"
    using drop_user_effect(9)[OF inv1] by (simp add: user_conns_def)
  then show ?thesis
    using assms(2) drop_user_effect(4)[OF inv1]
    by (simp add: ConnManager_Add_def Let_def new_WsConn_def user_conns_def)
qed

lemma RemoveBySnow_heap: "cm_heap (ConnManager_RemoveBySnow o2 sid m) = cm_heap m"
  by (auto simp: ConnManager_RemoveBySnow_def Let_def cm_sel split: option.splits)

lemma cm_exec_limit:
  assumes inv: "cm_inv m" and safe: "cm_safe c m" and np: "never_panics (cm_conf m)" and li: "limit_inv m"
  shows "limit_inv (cm_exec W c m)"
proof -
  note inv' = cm_exec_inv[OF inv safe np, of W]
  have same: ?thesis if "cm_shrinks m (cm_exec W c m)" "cm_heap (cm_exec W c m) = cm_heap m"
    by (rule limit_inv_shrinks[OF inv inv' li that(1)]) (simp add: that(2))
  have byUser: ?thesis if "user_conns (cm_exec W c m) = user_conns m" "cm_conf (cm_exec W c m) = cm_conf m"
    by (rule limit_inv_sub[OF inv inv' that(2) li]) (simp add: that(1))
  show ?thesis
  proof (cases c)
    case (OpAdd now o1 u sid co)
    show ?thesis
    proof (cases "u = '''' \<or> co = None")
      case True
      then show ?thesis using OpAdd li by (auto simp: ConnManager_Add_def)
    next
      case False
      then obtain d where d: "co = Some d" "u \<noteq> ''''" by auto
      show ?thesis
        by (rule limit_inv_users[OF inv inv' li, where user = u])
          (use d OpAdd Add_user_conns[OF inv d(2)] cm_grows_conf[OF Add_grows[OF inv d(2)]] in auto)
    qed
  next
    case (OpRemove o1 u)
    have inv1: "cm_inv (m\<lparr>cm_conns := AList.delete u (cm_conns m)\<rparr>)"
      by (rule cm_inv_conns[OF inv]) (simp add: cm_invD(1)[OF inv])
    show ?thesis
      by (rule same) (use OpRemove drop_user_effect(3)[OF inv1] Remove_shrinks[OF inv, of o1 u] in
          \<open>simp_all add: ConnManager_Remove_def\<close>)
  next
    case (OpAddUnauth now pick sid co)
    show ?thesis
    proof (cases "\<exists>p. snd (ConnManager_AddUnauth W now pick sid co m) = Ok p")
      case True
      then obtain p d where p: "snd (ConnManager_AddUnauth W now pick sid (Some d) m) = Ok p" "co = Some d"
        by (cases co) (auto simp: ConnManager_AddUnauth_def)
      show ?thesis
        by (rule byUser) (use AddUnauth_grows(1,2)[OF inv p(1)] OpAddUnauth p cm_grows_conf in auto)
    next
      case False
      then show ?thesis using OpAddUnauth li AddUnauth_fail by simp
    qed
  next
    case (OpBindUser now o1 o2 sid u)
    obtain m' r where r: "ConnManager_BindUser now o1 o2 sid u m = (m', r)" by fastforce
    show ?thesis
    proof (cases "r = Ok ()")
      case True
      then show ?thesis using BindUser_limit[OF inv li] OpBindUser safe r by simp
    next
      case False
      from BindUser_fail[OF inv r False] np li OpBindUser r show ?thesis by auto
    qed
  next
    case (OpAddAuthorized now o1 o2 u sid co)
    obtain m' r where r: "ConnManager_AddAuthorized W now o1 o2 u sid co m = (m', r)" by fastforce
    show ?thesis
      using AddAuthorized_limit[OF inv li] AddAuthorized_fail[OF r] OpAddAuthorized r li
      by (cases "r = Ok ()") auto
  next
    case (OpHeartbeat now sid)
    obtain m' r where r: "ConnManager_Heartbeat now sid m = (m', r)" by fastforce
    show ?thesis
      by (rule byUser) (use Heartbeat_fields[OF r] OpHeartbeat r in \<open>simp_all add: user_conns_def fun_eq_iff\<close>)
  next
    case (OpRemoveBySnow o2 sid)
    show ?thesis
      by (rule same) (use OpRemoveBySnow RemoveBySnow_heap RemoveBySnow_shrinks[OF inv] in simp_all)
  next
    case (OpKickAllUnauth o1)
    obtain m' n where r: "ConnManager_KickAllUnauth o1 m = (m', n)" by fastforce
    show ?thesis
      by (rule same) (use KickAllUnauth_shrinks[OF inv, of o1] KickAllUnauth_effect(2)[OF inv r] OpKickAllUnauth r in auto)
  next
    case (OpSweep o1 o2 now)
    show ?thesis
      by (rule same) (use sweepOnce_shrinks[OF inv] sweepOnce_effect(2)[OF inv] OpSweep in auto)
  next
    case (OpClose o1)
    then show ?thesis by (simp add: ConnManager_Close_def Let_def limit_inv_def)
  qed
qed

lemma cm_reach_inv:
  assumes "cm_reach W conf gw m" "never_panics conf"
  shows "cm_inv m \<and> limit_inv m \<and> sock_inv m \<and> cm_conf m = ManagerConf_norm conf"
  using assms(1)
proof induction
  case cm_reach_new
  show ?case
    by (simp add: NewConnManagerWithConf_def cm_inv_def byUser_ok_def index_agrees_def limit_inv_def sock_inv_def)
next
  case (cm_reach_step m c)
  have np: "never_panics (cm_conf m)"
    using cm_reach_step assms(2) by (auto simp: never_panics_def ManagerConf_norm_def Let_def)
  with cm_reach_step show ?case
    using cm_exec_inv cm_exec_sock cm_exec_limit by metis
qed

end
