(* ===== verification/ConnLegacy.thy ===== *)
theory ConnLegacy
  imports ConnSteps
begin

section \<open>The legacy map of the connection manager\<close>

text \<open>
  \<^verbatim>\<open>conns\<close> keeps one socket per user for the old interface. As long as no connection moves from
  one user to another, it has an entry exactly for the users with connections, and the entry is the
  socket of one of them; \<^verbatim>\<open>Get\<close> and \<^verbatim>\<open>GetAll\<close> without a connection id rest on it.
\<close>

definition legacy_ok :: "(ptr \<Rightarrow> wsconn) \<Rightarrow> conn option option \<Rightarrow> (string, ptr) gomap \<Rightarrow> bool" where
  "legacy_ok h co mm \<longleftrightarrow> (case co of None \<Rightarrow> mm = []
     | Some c \<Rightarrow> c \<noteq> None \<and> (\<exists>e \<in> set mm. wc_Conn (h (snd e)) = c))"

definition legacy_inv :: "conn_manager \<Rightarrow> bool" where
  "legacy_inv m \<longleftrightarrow> (\<forall>u \<in> fst ` set (cm_conns m) \<union> fst ` set (cm_byUser m).
     legacy_ok (cm_heap m) (map_of (cm_conns m) u) (user_conns m u))"

lemma legacy_inv_iff:
  "legacy_inv m \<longleftrightarrow> (\<forall>u. legacy_ok (cm_heap m) (map_of (cm_conns m) u) (user_conns m u))"
proof -
  have "legacy_ok (cm_heap m) (map_of (cm_conns m) u) (user_conns m u)"
    if "u \<notin> fst ` set (cm_conns m)" "u \<notin> fst ` set (cm_byUser m)" for u
    using that by (simp add: legacy_ok_def user_conns_def inner_map_def flip: map_of_None_notin)
  then show ?thesis by (auto simp: legacy_inv_def)
qed

lemma legacy_okD: "legacy_inv m \<Longrightarrow> legacy_ok (cm_heap m) (map_of (cm_conns m) u) (user_conns m u)"
  by (simp add: legacy_inv_iff)

lemma any_conn_Some: "any_conn h xs = Some c \<Longrightarrow> \<exists>e \<in> set xs. wc_Conn (h (snd e)) = Some c"
  by (induction h xs rule: any_conn.induct) (auto split: option.splits)

lemma any_conn_None: "any_conn h xs = None \<longleftrightarrow> (\<forall>e \<in> set xs. wc_Conn (h (snd e)) = None)"
  by (induction h xs rule: any_conn.induct) (auto split: option.splits)

lemma user_conns_conn: "cm_inv m \<Longrightarrow> e \<in> set (user_conns m u) \<Longrightarrow> wc_Conn (cm_heap m (snd e)) \<noteq> None"
  by (metis cm_inv_entry(4) gm_in_set prod.collapse user_conns_bySnow user_conns_ok)

lemma repoint_other: "v \<noteq> u \<Longrightarrow> map_of (cm_conns (repoint_conns o2 u g r m)) v = map_of (cm_conns m) v"
  by (auto simp: repoint_conns_def split: option.splits)

lemma delete_mem: "gm_ok mm \<Longrightarrow> map_of mm s = Some p \<Longrightarrow> e \<in> set mm \<Longrightarrow> wc_Conn (h (snd e)) \<noteq> wc_Conn (h p)
   \<Longrightarrow> e \<in> set (AList.delete s mm)"
  by (cases e) (auto simp: gm_in_set)

lemma repoint_legacy:
  assumes ok: "gm_ok mm" "map_of mm s = Some p" "\<And>e. e \<in> set mm \<Longrightarrow> wc_Conn (cm_heap m (snd e)) \<noteq> None"
    and leg: "legacy_ok (cm_heap m) (map_of (cm_conns m) u) mm"
  shows "legacy_ok (cm_heap m)
     (map_of (cm_conns (repoint_conns o2 u (wc_Conn (cm_heap m p)) (AList.delete s mm) m)) u)
     (AList.delete s mm)"
proof (cases "map_of (cm_conns m) u = Some (wc_Conn (cm_heap m p))")
  case True
  have sub: "set (AList.delete s mm) \<subseteq> set mm" by (rule set_delete_subset)
  show ?thesis
  proof (cases "any_conn (cm_heap m) (reorder o2 (AList.delete s mm))")
    case None
    then have "set (AList.delete s mm) = {}"
      using sub ok(3) unfolding any_conn_None set_reorder by (meson equals0I subsetD)
    then show ?thesis using True None by (simp add: repoint_conns_def legacy_ok_def)
  next
    case (Some c)
    from any_conn_Some[OF Some] True Some show ?thesis by (simp add: repoint_conns_def legacy_ok_def)
  qed
next
  case False
  have "mm \<noteq> []" using ok(2) by auto
  with leg obtain c where c: "map_of (cm_conns m) u = Some c" "c \<noteq> None"
    "\<exists>e \<in> set mm. wc_Conn (cm_heap m (snd e)) = c"
    by (auto simp: legacy_ok_def split: option.splits)
  with False delete_mem[OF ok(1,2), where h = "cm_heap m"] show ?thesis
    by (auto simp: repoint_conns_def legacy_ok_def)
qed

text \<open>One entry leaves, with the legacy entry of its user repaired.\<close>

lemma legacy_drop:
  assumes inv: "cm_inv m" and leg: "legacy_inv m" and p: "map_of (cm_bySnow m) sid = Some p"
    and m': "cm_heap m' = cm_heap m"
      "cm_byUser m' = (if wc_Authorized (cm_heap m p)
         then byUser_delete (wc_UserId (cm_heap m p)) sid (cm_byUser m) else cm_byUser m)"
      "wc_Authorized (cm_heap m p) \<Longrightarrow> map_of (cm_conns m') =
         map_of (cm_conns (repoint_conns o2 (wc_UserId (cm_heap m p)) (wc_Conn (cm_heap m p))
           (AList.delete sid (user_conns m (wc_UserId (cm_heap m p)))) m))"
      "\<not> wc_Authorized (cm_heap m p) \<Longrightarrow> cm_conns m' = cm_conns m"
  shows "legacy_inv m'"
  unfolding legacy_inv_iff
proof
  fix u
  show "legacy_ok (cm_heap m') (map_of (cm_conns m') u) (user_conns m' u)"
  proof (cases "wc_Authorized (cm_heap m p) \<and> u = wc_UserId (cm_heap m p)")
    case True
    then have mm: "map_of (user_conns m u) sid = Some p" using p by (simp add: cm_invD(7)[OF inv] indexed_def)
    from repoint_legacy[OF user_conns_ok[OF inv] mm user_conns_conn[OF inv] legacy_okD[OF leg]] True m'
    show ?thesis by (auto simp: user_conns_def)
  next
    case False
    then have "user_conns m' u = user_conns m u" using m'(2) by (auto simp: user_conns_def)
    moreover have "map_of (cm_conns m') u = map_of (cm_conns m) u"
      using False m'(3,4) repoint_other by (cases "wc_Authorized (cm_heap m p)") auto
    ultimately show ?thesis using legacy_okD[OF leg] m'(1) by simp
  qed
qed

lemma sweep_entry_legacy:
  assumes inv: "cm_inv m" and leg: "legacy_inv m" and p: "map_of (cm_bySnow m) sid = Some p"
    and st: "sweep_entry o2 now (sid, p) (m, ex) = (m', ex')"
  shows "legacy_inv m'"
proof (cases "expired_entry m now (sid, p)")
  case False
  with st leg show ?thesis by (simp add: sweep_entry_def Let_def expired_entry_def)
next
  case True
  have e: "wc_ExpireAt (cm_heap m p) < now" using True by (simp add: expired_entry_def)
  let ?u = "wc_UserId (cm_heap m p)"
  have uc: "map_of (cm_byUser m) ?u = Some (user_conns m ?u)" "?u \<noteq> ''''" if "wc_Authorized (cm_heap m p)"
    using that cm_invD(7)[OF inv, of ?u sid] p cm_inv_entry(5)[OF inv p]
    by (auto simp: indexed_def user_conns_def inner_map_def split: option.splits)
  have ac: "any_conn (cm_heap m) (reorder (o2 sid) (AList.delete sid (user_conns m ?u))) \<noteq> None"
    if "AList.delete sid (user_conns m ?u) \<noteq> []"
  proof -
    from that obtain e where "e \<in> set (AList.delete sid (user_conns m ?u))" by (meson list.set_sel(1))
    moreover from this have "e \<in> set (user_conns m ?u)" using set_delete_subset by fast
    ultimately show ?thesis using user_conns_conn[OF inv] unfolding any_conn_None set_reorder by blast
  qed
  show ?thesis
  proof (rule legacy_drop[OF inv leg p])
    show "cm_heap m' = cm_heap m" by (rule sweep_entry_fields[OF st])
    show "cm_byUser m' = (if wc_Authorized (cm_heap m p)
         then byUser_delete (wc_UserId (cm_heap m p)) sid (cm_byUser m) else cm_byUser m)"
      using st e cm_inv_entry(5)[OF inv p]
      by (auto simp: sweep_entry_def Let_def byUser_delete_def split: if_splits option.splits)
    show "cm_conns m' = cm_conns m" if "\<not> wc_Authorized (cm_heap m p)"
      using st e that by (auto simp: sweep_entry_def Let_def)
    show "map_of (cm_conns m') = map_of (cm_conns (repoint_conns (o2 sid) ?u (wc_Conn (cm_heap m p))
           (AList.delete sid (user_conns m ?u)) m))" if "wc_Authorized (cm_heap m p)"
      using st e that uc[OF that] ac
      by (auto simp: sweep_entry_def Let_def repoint_conns_def split: if_splits option.splits)
  qed
qed

lemma sweep_fold_legacy:
  assumes "cm_inv m" "legacy_inv m" "distinct (map fst xs)"
    "\<forall>e \<in> set xs. map_of (cm_bySnow m) (fst e) = Some (snd e)"
    and "fold (sweep_entry o2 now) xs (m, ex) = (m', ex')"
  shows "legacy_inv m'"
  using assms
proof (induction xs arbitrary: m ex)
  case (Cons e xs)
  obtain sid p where e: "e = (sid, p)" by (cases e)
  obtain m1 ex1 where st: "sweep_entry o2 now (sid, p) (m, ex) = (m1, ex1)" by fastforce
  have p: "map_of (cm_bySnow m) sid = Some p" using Cons.prems(4) e by simp
  have inv1: "cm_inv m1" "legacy_inv m1"
    using sweep_entry_inv[OF Cons.prems(1) p st] sweep_entry_legacy[OF Cons.prems(1,2) p st] by auto
  have "\<forall>e \<in> set xs. map_of (cm_bySnow m1) (fst e) = Some (snd e)"
    using Cons.prems(3,4) e by (auto simp: sweep_entry_fields(7)[OF st])
  with Cons.IH[OF inv1, of ex1] Cons.prems(3,5) e st show ?case by simp
qed simp

lemma legacy_inv_cong:
  assumes "legacy_inv m" "cm_conns m' = cm_conns m" "cm_byUser m' = cm_byUser m"
    "\<And>u e. e \<in> set (user_conns m u) \<Longrightarrow> wc_Conn (cm_heap m' (snd e)) = wc_Conn (cm_heap m (snd e))"
  shows "legacy_inv m'"
proof -
  have uc: "user_conns m' = user_conns m" using assms(3) by (simp add: user_conns_def fun_eq_iff)
  show ?thesis
    unfolding legacy_inv_iff uc
  proof
    fix u
    show "legacy_ok (cm_heap m') (map_of (cm_conns m') u) (user_conns m u)"
      using legacy_okD[OF assms(1), of u] assms(2,4)
      by (cases "map_of (cm_conns m) u") (auto simp: legacy_ok_def)
  qed
qed

subsection \<open>The calls keep the legacy map\<close>

lemma RemoveBySnow_legacy:
  assumes inv: "cm_inv m" and leg: "legacy_inv m"
  shows "legacy_inv (ConnManager_RemoveBySnow o2 sid m)"
proof (cases "sid = '''' \<or> map_of (cm_bySnow m) sid = None")
  case True
  then show ?thesis using leg by (auto simp: ConnManager_RemoveBySnow_def)
next
  case False
  then obtain p where p: "sid \<noteq> ''''" "map_of (cm_bySnow m) sid = Some p" by auto
  let ?u = "wc_UserId (cm_heap m p)" and ?m' = "ConnManager_RemoveBySnow o2 sid m"
  have uc: "map_of (cm_byUser m) ?u = Some (user_conns m ?u)" "?u \<noteq> ''''" if "wc_Authorized (cm_heap m p)"
    using that cm_invD(7)[OF inv, of ?u sid] p cm_inv_entry(5)[OF inv p(2)]
    by (auto simp: indexed_def user_conns_def inner_map_def split: option.splits)
  show ?thesis
  proof (rule legacy_drop[OF inv leg p(2)])
    show "cm_heap ?m' = cm_heap m" by (rule RemoveBySnow_heap)
    show "cm_byUser ?m' = (if wc_Authorized (cm_heap m p) then byUser_delete ?u sid (cm_byUser m) else cm_byUser m)"
      using p uc by (auto simp: ConnManager_RemoveBySnow_def Let_def cm_sel)
    show "cm_conns ?m' = cm_conns m" if "\<not> wc_Authorized (cm_heap m p)"
      using p that by (simp add: ConnManager_RemoveBySnow_def Let_def cm_sel)
    show "map_of (cm_conns ?m') = map_of (cm_conns (repoint_conns o2 ?u (wc_Conn (cm_heap m p))
           (AList.delete sid (user_conns m ?u)) m))" if "wc_Authorized (cm_heap m p)"
      using p that uc by (auto simp: ConnManager_RemoveBySnow_def Let_def cm_sel repoint_conns_def split: option.splits)
  qed
qed

lemma legacy_one_user:
  assumes leg: "legacy_inv m"
    and u: "legacy_ok (cm_heap m') (map_of (cm_conns m') user) (user_conns m' user)"
    and v: "\<And>v. v \<noteq> user \<Longrightarrow> user_conns m' v = user_conns m v"
      "\<And>v. v \<noteq> user \<Longrightarrow> map_of (cm_conns m') v = map_of (cm_conns m) v"
    and h: "\<And>v e. v \<noteq> user \<Longrightarrow> e \<in> set (user_conns m v) \<Longrightarrow> wc_Conn (cm_heap m' (snd e)) = wc_Conn (cm_heap m (snd e))"
  shows "legacy_inv m'"
  unfolding legacy_inv_iff
proof
  fix w
  show "legacy_ok (cm_heap m') (map_of (cm_conns m') w) (user_conns m' w)"
  proof (cases "w = user")
    case True
    with u show ?thesis by simp
  next
    case False
    then show ?thesis
      using legacy_okD[OF leg, of w] v[of w] h[of w]
      by (cases "map_of (cm_conns m) w") (auto simp: legacy_ok_def)
  qed
qed

lemma user_conns_alloc: "cm_inv m \<Longrightarrow> e \<in> set (user_conns m v) \<Longrightarrow> snd e \<noteq> cm_next m"
  by (metis gm_in_set new_WsConn_fresh prod.collapse user_conns_bySnow user_conns_ok)

lemma Add_legacy:
  assumes inv: "cm_inv m" and leg: "legacy_inv m"
  shows "legacy_inv (ConnManager_Add W now o1 user sid co m)"
proof (cases "user = '''' \<or> co = None")
  case True
  then show ?thesis using leg by (auto simp: ConnManager_Add_def)
next
  case False
  then obtain c where c: "co = Some c" and u: "user \<noteq> ''''" by auto
  let ?m1 = "m\<lparr>cm_conns := AList.update user (Some c) (cm_conns m)\<rparr>"
  have inv1: "cm_inv ?m1" by (rule cm_inv_conns) (simp_all add: inv cm_invD(1)[OF inv])
  note e = drop_user_effect[OF inv1, of o1 user]
  show ?thesis
    by (rule legacy_one_user[OF leg, where user = user])
      (use u c user_conns_alloc[OF inv] Add_user_conns[OF inv u, of W now o1 sid c] e in
        \<open>auto simp: legacy_ok_def ConnManager_Add_def Let_def new_WsConn_def authorized_WsConn_def\<close>)
qed

lemma Remove_legacy:
  assumes inv: "cm_inv m" and leg: "legacy_inv m"
  shows "legacy_inv (ConnManager_Remove o1 user m)"
proof -
  let ?m1 = "m\<lparr>cm_conns := AList.delete user (cm_conns m)\<rparr>"
  have inv1: "cm_inv ?m1" by (rule cm_inv_conns) (simp_all add: inv cm_invD(1)[OF inv])
  note e = drop_user_effect[OF inv1, of o1 user]
  have uc: "user_conns ?m1 v = user_conns m v" for v by (simp add: user_conns_def)
  have "legacy_inv (drop_user o1 user ?m1)"
    by (rule legacy_one_user[OF leg, where user = user]) (simp_all add: e uc legacy_ok_def)
  with leg show ?thesis by (simp add: ConnManager_Remove_def)
qed

text \<open>Making room and storing a connection of the user.\<close>

lemma evict_conn_legacy:
  assumes inv: "cm_inv m" and leg: "legacy_inv m" and s: "map_of (user_conns m user) s = Some q"
  shows "legacy_ok (cm_heap m) (map_of (cm_conns (evict_conn o2 user s q m)) user) (AList.delete s (user_conns m user))"
    and "v \<noteq> user \<Longrightarrow> map_of (cm_conns (evict_conn o2 user s q m)) v = map_of (cm_conns m) v"
proof -
  let ?m1 = "m\<lparr>cm_byUser := AList.update user (AList.delete s (user_conns m user)) (cm_byUser m),
          cm_bySnow := AList.delete s (cm_bySnow m)\<rparr>"
  have "legacy_ok (cm_heap ?m1) (map_of (cm_conns (repoint_conns o2 user (wc_Conn (cm_heap ?m1 q))
      (AList.delete s (user_conns m user)) ?m1)) user) (AList.delete s (user_conns m user))"
    by (rule repoint_legacy[OF user_conns_ok[OF inv] s])
      (use user_conns_conn[OF inv] legacy_okD[OF leg] in auto)
  then show "legacy_ok (cm_heap m) (map_of (cm_conns (evict_conn o2 user s q m)) user) (AList.delete s (user_conns m user))"
    by (simp add: evict_conn_def cm_sel)
  show "map_of (cm_conns (evict_conn o2 user s q m)) v = map_of (cm_conns m) v" if "v \<noteq> user"
    using repoint_other[OF that] by (simp add: evict_conn_def cm_sel)
qed

lemma conns_default_legacy:
  assumes "legacy_ok h (map_of (cm_conns m) user) mm" "c \<noteq> None"
    and "\<And>e. e \<in> set mm \<Longrightarrow> \<exists>e' \<in> set mm'. wc_Conn (h' (snd e')) = wc_Conn (h (snd e))"
    and "\<exists>e \<in> set mm'. wc_Conn (h' (snd e)) = c"
  shows "legacy_ok h' (map_of (cm_conns (conns_default user c m)) user) mm'"
proof (cases "map_of (cm_conns m) user")
  case None
  then show ?thesis using assms(2,4) by (auto simp: conns_default_def legacy_ok_def)
next
  case (Some co)
  with assms(1) obtain e where e: "e \<in> set mm" "co \<noteq> None" "wc_Conn (h (snd e)) = co"
    by (auto simp: legacy_ok_def)
  with assms(3)[OF e(1)] Some show ?thesis by (auto simp: conns_default_def legacy_ok_def)
qed

lemma conns_default_other: "v \<noteq> user \<Longrightarrow> map_of (cm_conns (conns_default user c m)) v = map_of (cm_conns m) v"
  by (simp add: conns_default_def)

lemma update_mem:
  assumes "gm_ok mm" "e \<in> set mm" "fst e = k \<Longrightarrow> snd e = v"
  shows "\<exists>e' \<in> set (AList.update k v mm). snd e' = snd e"
proof -
  have "map_of (AList.update k v mm) (fst e) = Some (snd e)"
    using assms by (auto simp: gm_in_set[OF assms(1), of "fst e" "snd e", simplified])
  then show ?thesis by (metis map_of_SomeD snd_conv)
qed

lemma update_mem_new: "\<exists>e \<in> set (AList.update k v mm). snd e = v"
  by (metis fun_upd_same map_of_SomeD map_of_update snd_conv)

text \<open>A connection does not change its user.\<close>

fun cm_keeps_user :: "cm_op \<Rightarrow> conn_manager \<Rightarrow> bool" where
  "cm_keeps_user (OpBindUser now o1 o2 sid u) m \<longleftrightarrow>
     (case map_of (cm_bySnow m) sid of None \<Rightarrow> True
      | Some p \<Rightarrow> wc_UserId (cm_heap m p) = '''' \<or> wc_UserId (cm_heap m p) = u)"
| "cm_keeps_user _ m \<longleftrightarrow> True"

lemma user_conns_distinct_ptr:
  "cm_inv m \<Longrightarrow> map_of (user_conns m u) s = Some p \<Longrightarrow> map_of (user_conns m u) t = Some p \<Longrightarrow> s = t"
  by (metis cm_inv_inj user_conns_bySnow)

lemma BindUser_legacy:
  assumes inv: "cm_inv m" and leg: "legacy_inv m" and k: "bind_keeps sid user m"
    and r: "ConnManager_BindUser now o1 o2 sid user m = (m', Ok ())"
    and same: "\<And>p. map_of (cm_bySnow m) sid = Some p \<Longrightarrow> wc_UserId (cm_heap m p) = '''' \<or> wc_UserId (cm_heap m p) = user"
  shows "legacy_inv m'"
  using BindUser_OkE[OF inv r]
proof cases
  case (1 p m2)
  have ub: "unbind user p m = m" using same[OF 1(2)] by (auto simp: unbind_def Let_def)
  obtain c where c: "wc_Conn (cm_heap m p) = Some c" using cm_inv_entry(4)[OF inv 1(2)] by blast
  have h: "wc_Conn (cm_heap m' q) = wc_Conn (cm_heap m q)" for q by (simp add: 1(3) cm_sel)
  have uc: "user_conns m' v = (if v = user then AList.update sid p (user_conns m2 user) else user_conns m2 v)" for v
    by (simp add: 1(3) user_conns_def cm_sel)
  have same_sid: "map_of (user_conns m user) sid = Some q \<Longrightarrow> q = p" for q
    using user_conns_bySnow[OF inv] 1(2) by fastforce
  have m2: "gm_ok (user_conns m2 user) \<and> legacy_ok (cm_heap m) (map_of (cm_conns m2) user) (user_conns m2 user)
     \<and> (\<forall>v. v \<noteq> user \<longrightarrow> user_conns m2 v = user_conns m v \<and> map_of (cm_conns m2) v = map_of (cm_conns m) v)
     \<and> set (user_conns m2 user) \<subseteq> set (user_conns m user)"
  proof (cases "m2 = m")
    case True
    then show ?thesis using user_conns_ok[OF inv] legacy_okD[OF leg] by simp
  next
    case False
    with 1(4) ub obtain s q where s: "map_of (user_conns m user) s = Some q" "m2 = evict_conn o2 user s q m" by auto
    have "user_conns m2 v = (if v = user then AList.delete s (user_conns m user) else user_conns m v)" for v
      by (simp add: s(2) user_conns_def cm_sel)
    with evict_conn_legacy[OF inv leg s(1)] user_conns_ok[OF inv] show ?thesis
      by (simp add: s(2) set_delete_subset)
  qed
  show ?thesis
  proof (rule legacy_one_user[OF leg, where user = user])
    have "legacy_ok (cm_heap m') (map_of (cm_conns (conns_default user (Some c)
        (m2\<lparr>cm_byUser := byUser_insert user sid p (cm_byUser m2),
            cm_heap := (cm_heap m)(p := bound_WsConn now user (cm_conf m) (cm_heap m p))\<rparr>))) user)
        (AList.update sid p (user_conns m2 user))"
    proof (rule conns_default_legacy[where h = "cm_heap m" and mm = "user_conns m2 user"])
      fix e assume e: "e \<in> set (user_conns m2 user)"
      have "fst e = sid \<Longrightarrow> snd e = p"
        using e m2 same_sid user_conns_ok[OF inv, of user] by (cases e) (auto simp flip: gm_in_set)
      from update_mem[OF _ e this] m2 obtain e' where
        "e' \<in> set (AList.update sid p (user_conns m2 user))" "snd e' = snd e" by blast
      then show "\<exists>e' \<in> set (AList.update sid p (user_conns m2 user)).
          wc_Conn (cm_heap m' (snd e')) = wc_Conn (cm_heap m (snd e))"
        unfolding h by metis
    next
      show "\<exists>e \<in> set (AList.update sid p (user_conns m2 user)). wc_Conn (cm_heap m' (snd e)) = Some c"
        unfolding h using update_mem_new[of sid p "user_conns m2 user"] c by fastforce
    qed (use m2 in simp_all)
    then show "legacy_ok (cm_heap m') (map_of (cm_conns m') user) (user_conns m' user)"
      by (simp add: uc) (simp add: 1(3) c)
  next
    fix v assume "v \<noteq> user"
    then show "user_conns m' v = user_conns m v" "map_of (cm_conns m') v = map_of (cm_conns m) v"
      using m2 by (simp_all add: uc) (simp add: 1(3) conns_default_other)
  qed (simp add: h)
qed

lemma AddAuthorized_legacy:
  assumes inv: "cm_inv m" and leg: "legacy_inv m"
    and r: "ConnManager_AddAuthorized W now o1 o2 user sid co m = (m', Ok ())"
  shows "legacy_inv m'"
  using AddAuthorized_OkE[OF inv r]
proof cases
  case (1 c m1)
  let ?p = "cm_next m"
  have h: "e \<in> set (user_conns m v) \<Longrightarrow> wc_Conn (cm_heap m' (snd e)) = wc_Conn (cm_heap m (snd e))" for e v
    using user_conns_alloc[OF inv] by (simp add: 1(5) cm_sel)
  have uc: "user_conns m' v = (if v = user then AList.update sid ?p (user_conns m1 user) else user_conns m1 v)" for v
    by (simp add: 1(5) user_conns_def cm_sel)
  have ns: "map_of (user_conns m user) sid = None"
    using 1(4) by (simp add: cm_invD(7)[OF inv] indexed_def)
  have m1: "gm_ok (user_conns m1 user) \<and> legacy_ok (cm_heap m) (map_of (cm_conns m1) user) (user_conns m1 user)
     \<and> (\<forall>v. v \<noteq> user \<longrightarrow> user_conns m1 v = user_conns m v \<and> map_of (cm_conns m1) v = map_of (cm_conns m) v)
     \<and> set (user_conns m1 user) \<subseteq> set (user_conns m user)"
  proof (cases "m1 = m")
    case True
    then show ?thesis using user_conns_ok[OF inv] legacy_okD[OF leg] by simp
  next
    case False
    with 1(6) obtain s q where s: "map_of (user_conns m user) s = Some q" "m1 = evict_conn o2 user s q m" by auto
    have "user_conns m1 v = (if v = user then AList.delete s (user_conns m user) else user_conns m v)" for v
      by (simp add: s(2) user_conns_def cm_sel)
    with evict_conn_legacy[OF inv leg s(1)] user_conns_ok[OF inv] show ?thesis
      by (simp add: s(2) set_delete_subset)
  qed
  show ?thesis
  proof (rule legacy_one_user[OF leg, where user = user])
    have "legacy_ok (cm_heap m') (map_of (cm_conns m') user) (AList.update sid ?p (user_conns m1 user))"
      unfolding 1(5)
    proof (rule conns_default_legacy[where h = "cm_heap m" and mm = "user_conns m1 user"])
      fix e assume e: "e \<in> set (user_conns m1 user)"
      then have e': "e \<in> set (user_conns m user)" using m1 by blast
      have "fst e \<noteq> sid" using ns e' user_conns_ok[OF inv, of user] by (metis gm_in_set option.distinct(1) prod.collapse)
      from update_mem[OF _ e] this m1 obtain e'' where e'':
        "e'' \<in> set (AList.update sid ?p (user_conns m1 user))" "snd e'' = snd e" by blast
      moreover have "snd e \<noteq> ?p" by (rule user_conns_alloc[OF inv e'])
      ultimately show "\<exists>e'\<in>set (AList.update sid ?p (user_conns m1 user)).
          wc_Conn (cm_heap (conns_default user (Some c) (m1\<lparr>cm_heap := (cm_heap m)(?p :=
             authorized_WsConn W sid user c (mc_AuthTTL (cm_conf m)) now), cm_next := Suc ?p,
             cm_bySnow := AList.update sid ?p (cm_bySnow m1),
             cm_byUser := byUser_insert user sid ?p (cm_byUser m1)\<rparr>)) (snd e')) = wc_Conn (cm_heap m (snd e))"
        by (intro bexI[OF _ e''(1)]) (simp add: cm_sel)
    next
      show "\<exists>e\<in>set (AList.update sid ?p (user_conns m1 user)).
          wc_Conn (cm_heap (conns_default user (Some c) (m1\<lparr>cm_heap := (cm_heap m)(?p :=
             authorized_WsConn W sid user c (mc_AuthTTL (cm_conf m)) now), cm_next := Suc ?p,
             cm_bySnow := AList.update sid ?p (cm_bySnow m1),
             cm_byUser := byUser_insert user sid ?p (cm_byUser m1)\<rparr>)) (snd e)) = Some c"
        using update_mem_new[of sid ?p "user_conns m1 user"]
        by (auto simp: cm_sel authorized_WsConn_def)
    qed (use m1 in simp_all)
    then show "legacy_ok (cm_heap m') (map_of (cm_conns m') user) (user_conns m' user)" by (simp add: uc)
  next
    fix v assume "v \<noteq> user"
    then show "user_conns m' v = user_conns m v" "map_of (cm_conns m') v = map_of (cm_conns m) v"
      using m1 by (simp_all add: uc) (simp add: 1(5) conns_default_other)
  qed (simp add: h)
qed

lemma cm_exec_legacy:
  assumes inv: "cm_inv m" and safe: "cm_safe c m" "cm_keeps_user c m" and np: "never_panics (cm_conf m)"
    and leg: "legacy_inv m"
  shows "legacy_inv (cm_exec W c m)"
proof (cases c)
  case (OpAddUnauth now pick sid co)
  show ?thesis
  proof (cases "\<exists>p. snd (ConnManager_AddUnauth W now pick sid co m) = Ok p")
    case True
    then obtain d where d: "co = Some d" "sid \<noteq> ''''" "map_of (cm_bySnow m) sid = None"
      by (cases co) (auto simp: ConnManager_AddUnauth_def split: if_splits)
    obtain p m1 where g: "wsConnPool_Get pick m = (p, m1)" by fastforce
    note e = wsConnPool_Get_effect[OF inv g]
    have "snd x \<noteq> p" if "x \<in> set (user_conns m u)" for x u
      using that e(3) user_conns_bySnow[OF inv] user_conns_ok[OF inv, of u]
      by (metis gm_in_set prod.collapse)
    then show ?thesis
      unfolding OpAddUnauth cm_exec.simps
      by (intro legacy_inv_cong[OF leg])
        (use d g e in \<open>simp_all add: ConnManager_AddUnauth_def acquireWsConn_def Let_def\<close>)
  next
    case False
    then show ?thesis using OpAddUnauth leg AddUnauth_fail by simp
  qed
next
  case (OpBindUser now o1 o2 sid u)
  obtain m' r where r: "ConnManager_BindUser now o1 o2 sid u m = (m', r)" by fastforce
  show ?thesis
    using BindUser_legacy[OF inv leg, of sid u now o1 o2 m'] BindUser_fail[OF inv r] np safe r leg OpBindUser
    by (cases "r = Ok ()") (auto split: option.splits)
next
  case (OpAddAuthorized now o1 o2 u sid co)
  obtain m' r where r: "ConnManager_AddAuthorized W now o1 o2 u sid co m = (m', r)" by fastforce
  show ?thesis
    using AddAuthorized_legacy[OF inv leg, of W now o1 o2 u sid co m'] AddAuthorized_fail[OF r] r leg OpAddAuthorized
    by (cases "r = Ok ()") auto
next
  case (OpHeartbeat now sid)
  obtain m' r where r: "ConnManager_Heartbeat now sid m = (m', r)" by fastforce
  have "legacy_inv m'" by (rule legacy_inv_cong[OF leg]) (simp_all add: Heartbeat_fields[OF r])
  then show ?thesis by (simp add: OpHeartbeat r)
next
  case (OpKickAllUnauth o1)
  obtain m' n where r: "ConnManager_KickAllUnauth o1 m = (m', n)" by fastforce
  have "legacy_inv m'" by (rule legacy_inv_cong[OF leg]) (simp_all add: KickAllUnauth_effect[OF inv r])
  then show ?thesis by (simp add: OpKickAllUnauth r)
next
  case (OpSweep o1 o2 now)
  obtain m1 ex where fd: "fold (sweep_entry o2 now) (reorder o1 (cm_bySnow m)) (m, []) = (m1, ex)" by fastforce
  have l1: "legacy_inv m1" by (rule sweep_fold_legacy[OF inv leg bySnow_members[OF inv] fd])
  have "ConnManager_sweepOnce o1 o2 now m = fold (\<lambda>p m. closeQuiet (wc_Conn (cm_heap m p)) m) ex m1"
    by (simp add: ConnManager_sweepOnce_def fd)
  then show ?thesis
    unfolding OpSweep cm_exec.simps by (auto intro!: legacy_inv_cong[OF l1] simp: cm_sel)
next
  case (OpClose o1)
  then show ?thesis by (simp add: ConnManager_Close_def Let_def legacy_inv_def)
qed (use inv leg in \<open>auto simp: Add_legacy Remove_legacy RemoveBySnow_legacy\<close>)

end
