(* ===== verification/ConnProps.thy ===== *)
theory ConnProps
  imports ConnLegacy
begin

section \<open>Properties of the connection manager\<close>

text \<open>
  The properties of \<^verbatim>\<open>service/chat/conn_manager.go\<close>, each with a run of the methods on which
  its hypotheses hold, and the two calls of \<^verbatim>\<open>BindUser\<close> that break the indexes.
\<close>

subsection \<open>Readers in terms of the indexes\<close>

lemma Get_exact:
  "sid \<noteq> '''' \<Longrightarrow> cm_inv m \<Longrightarrow>
   ConnManager_Get o1 u sid m = (case indexed m u sid of None \<Rightarrow> None | Some p \<Rightarrow> wc_Conn (cm_heap m p))"
  by (simp add: ConnManager_Get_def cm_invD(7) split: option.splits)

lemma BindUser_Get:
  assumes "cm_inv m" and "bind_keeps sid user m"
    and "ConnManager_BindUser now o1 o2 sid user m = (m', Ok ())"
  shows "\<exists>p c. map_of (cm_bySnow m) sid = Some p \<and> wc_Conn (cm_heap m p) = Some c
    \<and> map_of (cm_bySnow m') sid = Some p \<and> ConnManager_Get o3 user sid m' = Some c
    \<and> (\<forall>v. v \<noteq> user \<longrightarrow> ConnManager_Get o3 v sid m' = None)
    \<and> wc_Authorized (cm_heap m' p) \<and> wc_ExpireAt (cm_heap m' p) = now + mc_AuthTTL (cm_conf m)"
  using BindUser_OkE[OF assms(1,3)]
proof cases
  case (1 p m2)
  have inv': "cm_inv m'" by (rule BindUser_Ok_inv[OF assms])
  have sid: "sid \<noteq> ''''" using assms(3) by (auto simp: ConnManager_BindUser_def)
  obtain c where c: "wc_Conn (cm_heap m p) = Some c" using cm_inv_entry(4)[OF assms(1) 1(2)] by blast
  have hp: "cm_heap m' p = bound_WsConn now user (cm_conf m) (cm_heap m p)" by (simp add: 1(3) cm_sel)
  have "map_of (user_conns m' user) sid = Some p" by (simp add: 1(3) user_conns_def cm_sel)
  with user_conns_bySnow[OF inv' this] sid c hp 1(2) show ?thesis
    by (intro exI[of _ p] exI[of _ c]) (auto simp: Get_exact[OF sid inv'] indexed_def bound_WsConn_def)
qed

lemma ListUserConns_fold:
  assumes "distinct (map fst xs)"
  shows "map_of (fold (\<lambda>(sid, p) out. case wc_Conn (h p) of Some c \<Rightarrow> AList.update sid c out | None \<Rightarrow> out) xs out) s
     = (case map_of xs s of Some p \<Rightarrow> (case wc_Conn (h p) of Some c \<Rightarrow> Some c | None \<Rightarrow> map_of out s)
        | None \<Rightarrow> map_of out s)"
  using assms
proof (induction xs arbitrary: out)
  case (Cons e xs)
  obtain t p where e: "e = (t, p)" by (cases e)
  have "map_of xs t = None" using Cons.prems e by (simp add: map_of_eq_None_iff)
  with Cons show ?case by (auto simp: e split: option.splits)
qed simp

lemma ListUserConns_ok_fold:
  "gm_ok out \<Longrightarrow> gm_ok (fold (\<lambda>(sid, p) out. case wc_Conn (h p) of Some c \<Rightarrow> AList.update sid c out | None \<Rightarrow> out) xs out)"
  by (induction xs arbitrary: out) (auto split: option.splits prod.splits)

lemma ListUserConns_map:
  assumes inv: "cm_inv m"
  shows "gm_ok (ConnManager_ListUserConns o1 u m)"
    and "map_of (ConnManager_ListUserConns o1 u m) s
       = (case indexed m u s of None \<Rightarrow> None | Some p \<Rightarrow> wc_Conn (cm_heap m p))"
  using ListUserConns_fold[of "reorder o1 (user_conns m u)" "cm_heap m" "[]" s]
    gm_ok_reorder[OF user_conns_ok[OF inv], of o1 u] user_conns_ok[OF inv, of u]
  by (auto simp: ConnManager_ListUserConns_def ListUserConns_ok_fold cm_invD(7)[OF inv] gm_ok_def[of "reorder _ _"]
      split: option.splits)

lemma write_all_Cons:
  "fst (write_all W h d (e # xs) le) = fst (writeBinary W (wc_Conn (h (snd e))) d)
     @ fst (write_all W h d xs (case snd (writeBinary W (wc_Conn (h (snd e))) d) of None \<Rightarrow> le | Some x \<Rightarrow> Some x))"
  "snd (write_all W h d (e # xs) le)
     = snd (write_all W h d xs (case snd (writeBinary W (wc_Conn (h (snd e))) d) of None \<Rightarrow> le | Some x \<Rightarrow> Some x))"
  by (cases e; simp add: split_beta Let_def)+

lemma write_all_sticky: "snd (write_all W h d xs (Some e)) \<noteq> None"
  by (induction xs arbitrary: e) (simp_all add: write_all_Cons del: write_all.simps(2) split: option.splits)

lemma write_all_frames:
  assumes "\<And>c. ws_SetWriteDeadline W c = None" "\<And>e. e \<in> set xs \<Longrightarrow> wc_Conn (h (snd e)) \<noteq> None"
  shows "fst (write_all W h d xs le) = map (\<lambda>e. (the (wc_Conn (h (snd e))), d)) xs"
  using assms(2)
proof (induction xs arbitrary: le)
  case (Cons e xs)
  from Cons.prems[of e] obtain c where "wc_Conn (h (snd e)) = Some c" by auto
  with Cons show ?case by (simp add: write_all_Cons writeBinary_def assms(1) del: write_all.simps(2))
qed simp

lemma write_all_err:
  assumes "\<And>c. ws_SetWriteDeadline W c = None" "\<And>e. e \<in> set xs \<Longrightarrow> wc_Conn (h (snd e)) \<noteq> None"
  shows "snd (write_all W h d xs None) = None \<longleftrightarrow> (\<forall>e \<in> set xs. ws_WriteMessage W (the (wc_Conn (h (snd e)))) d = None)"
  using assms(2)
proof (induction xs)
  case (Cons e xs)
  from Cons.prems[of e] obtain c where c: "wc_Conn (h (snd e)) = Some c" by auto
  with Cons write_all_sticky show ?case
    by (cases "ws_WriteMessage W c d") (simp_all add: write_all_Cons writeBinary_def assms(1) del: write_all.simps(2))
qed simp

text \<open>A gateway of one connection per user, and calls on it.\<close>

definition demo_ws :: ws_lib where
  "demo_ws = \<lparr> ws_RemoteAddr = (\<lambda>_. None), ws_SetWriteDeadline = (\<lambda>_. None), ws_WriteMessage = (\<lambda>_ _. None) \<rparr>"

definition demo_conf :: manager_conf where
  "demo_conf = \<lparr> mc_UnauthTTL = 60, mc_AuthTTL = 1000, mc_SweepEvery = 10, mc_MaxPerUser = 1, mc_EvictOldest = True \<rparr>"

definition demo_new :: conn_manager where
  "demo_new = NewConnManagerWithConf demo_conf ''gw''"

definition demo_calls :: "cm_op list" where
  "demo_calls = [OpAddUnauth 0 0 ''1'' (Some 1), OpBindUser 1 [] [] ''1'' ''alice'',
     OpAddAuthorized 2 [] [] ''alice'' ''2'' (Some 2), OpAddUnauth 3 0 ''3'' (Some 3)]"

lemma demo_safe: "cm_safe_run demo_ws demo_calls demo_new"
  by code_simp

lemma demo_reach: "cm_reach demo_ws demo_conf ''gw'' (cm_run demo_ws demo_calls demo_new)"
  unfolding demo_new_def
  by (rule cm_reach_run[OF cm_reach_new demo_safe[unfolded demo_new_def]])

lemma demo_np: "never_panics demo_conf"
  by (simp add: never_panics_def demo_conf_def)

subsection \<open>The properties\<close>

text \<open>C1: in every state that safe calls reach, the two indexes agree entry for entry, every entry is a
  live object with a socket, no registered socket has been closed and no socket is registered twice.\<close>

theorem conn_reachable_invariant:
  assumes "cm_reach W conf gw m" and "never_panics conf"
  shows "cm_inv m \<and> sock_inv m"
  using cm_reach_inv[OF assms] by blast

theorem conn_reachable_invariant_witness:
  "cm_inv (cm_run demo_ws demo_calls demo_new) \<and> sock_inv (cm_run demo_ws demo_calls demo_new)"
  by (rule conn_reachable_invariant[OF demo_reach demo_np])

text \<open>C14: no user ever lists more connections than \<^verbatim>\<open>MaxPerUser\<close> allows.\<close>

theorem conn_user_limit:
  assumes "cm_reach W conf gw m" and "never_panics conf" and "0 < mc_MaxPerUser conf"
  shows "int (length (ConnManager_ListUserConns o1 user m)) \<le> mc_MaxPerUser conf"
proof -
  from cm_reach_inv[OF assms(1,2)] have inv: "cm_inv m" and li: "limit_inv m"
    and conf: "cm_conf m = ManagerConf_norm conf" by auto
  have mx: "mc_MaxPerUser (cm_conf m) = mc_MaxPerUser conf"
    by (simp add: conf ManagerConf_norm_def Let_def)
  have "length (ConnManager_ListUserConns o1 user m) \<le> length (user_conns m user)"
    by (rule gm_length_mono[OF user_conns_ok[OF inv] ListUserConns_map(1)[OF inv]])
      (auto simp: ListUserConns_map(2)[OF inv] cm_invD(7)[OF inv] split: option.splits)
  moreover have "int (length (user_conns m user)) \<le> mc_MaxPerUser conf"
    using li assms(3) unfolding limit_inv_iff[OF inv] mx by blast
  ultimately show ?thesis by linarith
qed

theorem conn_user_limit_witness:
  "int (length (ConnManager_ListUserConns [] ''alice'' (cm_run demo_ws demo_calls demo_new))) \<le> 1"
  using conn_user_limit[OF demo_reach demo_np, of "[]" "''alice''"] by (simp add: demo_conf_def)

text \<open>C37: after a successful \<^verbatim>\<open>BindUser\<close> that does not evict the very connection it binds (\<open>bind_keeps\<close>: the user
  did not have it yet, has room, or there is no limit), \<^verbatim>\<open>Get\<close> with the connection's id gives its socket for the new
  user and nothing for any other, and the connection has the authorised lifetime. Without an id, \<^verbatim>\<open>Get\<close> may still give
  the socket for its old user (\<open>conn_rebind_leaves_legacy_entry\<close>).\<close>

theorem conn_bind_then_get:
  assumes "cm_inv m" and "bind_keeps sid user m"
    and "ConnManager_BindUser now o1 o2 sid user m = (m', Ok ())"
  shows "\<exists>p c. map_of (cm_bySnow m) sid = Some p \<and> wc_Conn (cm_heap m p) = Some c
    \<and> map_of (cm_bySnow m') sid = Some p \<and> ConnManager_Get o3 user sid m' = Some c
    \<and> (\<forall>v. v \<noteq> user \<longrightarrow> ConnManager_Get o3 v sid m' = None)
    \<and> wc_Authorized (cm_heap m' p) \<and> wc_ExpireAt (cm_heap m' p) = now + mc_AuthTTL (cm_conf m)"
  by (rule BindUser_Get[OF assms])

definition demo_two :: conn_manager where
  "demo_two = cm_run demo_ws [OpAddUnauth 0 0 ''1'' (Some 1), OpAddUnauth 3 0 ''3'' (Some 3),
     OpBindUser 4 [] [] ''1'' ''bob''] demo_new"

lemma demo_two_reach: "cm_reach demo_ws demo_conf ''gw'' demo_two"
  unfolding demo_two_def demo_new_def by (rule cm_reach_run[OF cm_reach_new]) code_simp

lemma demo_two_inv: "cm_inv demo_two"
  using cm_reach_inv[OF demo_two_reach demo_np] by blast

lemma demo_two_conf: "cm_conf demo_two = demo_conf"
  using cm_reach_inv[OF demo_two_reach demo_np] by (simp add: ManagerConf_norm_def demo_conf_def)

lemma demo_two_bind: "snd (ConnManager_BindUser 5 [] [] ''3'' ''alice'' demo_two) = Ok ()"
  by code_simp

theorem conn_bind_then_get_witness:
  "\<exists>p c. map_of (cm_bySnow demo_two) ''3'' = Some p \<and> wc_Conn (cm_heap demo_two p) = Some c
    \<and> ConnManager_Get [] ''alice'' ''3'' (fst (ConnManager_BindUser 5 [] [] ''3'' ''alice'' demo_two)) = Some c"
proof -
  have "bind_keeps ''3'' ''alice'' demo_two" by code_simp
  from conn_bind_then_get[OF demo_two_inv this, of 5 "[]" "[]" _ "[]"] demo_two_bind show ?thesis
    by (metis prod.collapse)
qed

text \<open>C39: a user at the limit makes room by losing exactly one connection, one of those created first;
  its socket is closed, and every other connection of every user stays.\<close>

theorem conn_evicts_oldest:
  assumes "cm_inv m" and "0 < mc_MaxPerUser (cm_conf m)"
    and "mc_MaxPerUser (cm_conf m) \<le> int (length (user_conns m user))"
    and "ConnManager_AddAuthorized W now o1 o2 user sid (Some c) m = (m', Ok ())"
  shows "\<exists>s q. indexed m user s = Some q
    \<and> (\<forall>t r. indexed m user t = Some r \<longrightarrow> wc_CreatedAt (cm_heap m q) \<le> wc_CreatedAt (cm_heap m r))
    \<and> set (cm_closed m') = set (cm_closed m) \<union> {the (wc_Conn (cm_heap m q))}
    \<and> (\<forall>t. map_of (cm_bySnow m') t
          = (if t = sid then Some (cm_next m) else if t = s then None else map_of (cm_bySnow m) t))
    \<and> ConnManager_Get o3 user sid m' = Some c"
  using AddAuthorized_OkE[OF assms(1,4)]
proof cases
  case (1 d m1)
  have inv': "cm_inv m'" using AddAuthorized_inv[OF assms(1)] assms(4) by (metis fst_conv)
  have d: "d = c" using 1(1) by simp
  from 1(6) assms(2,3) obtain s q where s: "map_of (user_conns m user) s = Some q"
    "\<forall>t q'. map_of (user_conns m user) t = Some q' \<longrightarrow> wc_CreatedAt (cm_heap m q) \<le> wc_CreatedAt (cm_heap m q')"
    "m1 = evict_conn o2 user s q m" by auto
  from user_conns_bySnow[OF assms(1) s(1)] have q: "map_of (cm_bySnow m) s = Some q" by blast
  obtain e where e: "wc_Conn (cm_heap m q) = Some e" using cm_inv_entry(4)[OF assms(1) q] by blast
  have hp: "cm_heap m' (cm_next m) = authorized_WsConn W sid user c (mc_AuthTTL (cm_conf m)) now"
    by (simp add: 1(5) d cm_sel)
  have bs: "map_of (cm_bySnow m') t
      = (if t = sid then Some (cm_next m) else if t = s then None else map_of (cm_bySnow m) t)" for t
    by (simp add: 1(5) s(3) cm_sel)
  have "ConnManager_Get o3 user sid m' = Some c"
    by (simp add: Get_exact[OF 1(3) inv'] indexed_def bs hp) (simp add: authorized_WsConn_def)
  moreover have "set (cm_closed m') = set (cm_closed m) \<union> {the (wc_Conn (cm_heap m q))}"
    by (simp add: 1(5) s(3) cm_sel evict_conn_closed e)
  ultimately show ?thesis
    using s(1,2) bs cm_invD(7)[OF assms(1)] by (intro exI[of _ s] exI[of _ q]) simp
qed

lemma demo_two_add: "snd (ConnManager_AddAuthorized demo_ws 6 [] [] ''bob'' ''4'' (Some 4) demo_two) = Ok ()"
  by code_simp

lemma demo_two_bob: "length (user_conns demo_two ''bob'') = 1"
  by code_simp

theorem conn_evicts_oldest_witness:
  "\<exists>s q. indexed demo_two ''bob'' s = Some q
    \<and> map_of (cm_bySnow (fst (ConnManager_AddAuthorized demo_ws 6 [] [] ''bob'' ''4'' (Some 4) demo_two))) ''4''
        = Some (cm_next demo_two)"
  using conn_evicts_oldest[OF demo_two_inv, of "''bob''" demo_ws 6 "[]" "[]" "''4''" 4 _ "[]"]
    demo_two_add demo_two_bob
  by (simp add: demo_two_conf demo_conf_def) (metis prod.collapse)

text \<open>C30: a sweep closes and removes exactly the connections whose lifetime is over at its tick; the
  others stay under their snow id and under their user.\<close>

theorem conn_sweep_exact:
  assumes "cm_inv m" and m': "m' = ConnManager_sweepOnce o1 o2 now m"
  shows "cm_inv m'
    \<and> (\<forall>sid. map_of (cm_bySnow m') sid = (case map_of (cm_bySnow m) sid of None \<Rightarrow> None
          | Some p \<Rightarrow> if wc_ExpireAt (cm_heap m p) < now then None else Some p))
    \<and> (\<forall>u sid. sid \<noteq> '''' \<longrightarrow> ConnManager_Get o3 u sid m' = (case indexed m u sid of None \<Rightarrow> None
          | Some p \<Rightarrow> if wc_ExpireAt (cm_heap m p) < now then None else wc_Conn (cm_heap m p)))
    \<and> set (cm_closed m') = set (cm_closed m) \<union> {c. \<exists>sid p. map_of (cm_bySnow m) sid = Some p
          \<and> wc_ExpireAt (cm_heap m p) < now \<and> wc_Conn (cm_heap m p) = Some c}"
proof -
  note e = sweepOnce_effect[OF assms(1), of o1 o2 now, folded m']
  have "ConnManager_Get o3 u sid m' = (case indexed m u sid of None \<Rightarrow> None
          | Some p \<Rightarrow> if wc_ExpireAt (cm_heap m p) < now then None else wc_Conn (cm_heap m p))"
    if "sid \<noteq> ''''" for u sid
    unfolding Get_exact[OF that e(1)] indexed_def e(4) e(2) by (auto split: option.splits)
  with e(1,4,5) show ?thesis by blast
qed

theorem conn_sweep_exact_witness:
  "cm_inv (ConnManager_sweepOnce [1] (\<lambda>_. []) 100 demo_two)
   \<and> map_of (cm_bySnow (ConnManager_sweepOnce [1] (\<lambda>_. []) 100 demo_two)) ''3'' = None
   \<and> map_of (cm_bySnow (ConnManager_sweepOnce [1] (\<lambda>_. []) 100 demo_two)) ''1'' \<noteq> None"
proof -
  have a: "map_of (cm_bySnow demo_two) ''3'' = Some 1" "map_of (cm_bySnow demo_two) ''1'' = Some 0"
    "wc_ExpireAt (cm_heap demo_two 1) = 63" "wc_ExpireAt (cm_heap demo_two 0) = 1004"
    by code_simp+
  from conn_sweep_exact[OF demo_two_inv refl, of "[1]" "\<lambda>_. []" 100 "[]"] a show ?thesis by simp
qed

text \<open>\<^verbatim>\<open>KickAllUnauth\<close> removes and closes exactly the connections without a user, returns
  how many they were, and leaves every user's connections as they are.\<close>

theorem conn_kick_exact:
  assumes "cm_inv m" and "ConnManager_KickAllUnauth o1 m = (m', n)"
  shows "cm_inv m'
    \<and> (\<forall>sid. map_of (cm_bySnow m') sid = (case map_of (cm_bySnow m) sid of None \<Rightarrow> None
          | Some p \<Rightarrow> if wc_UserId (cm_heap m p) = '''' then None else Some p))
    \<and> (\<forall>u sid. sid \<noteq> '''' \<longrightarrow> ConnManager_Get o3 u sid m' = ConnManager_Get o3 u sid m)
    \<and> set (cm_closed m') = set (cm_closed m) \<union> {c. \<exists>sid p. map_of (cm_bySnow m) sid = Some p
          \<and> wc_UserId (cm_heap m p) = '''' \<and> wc_Conn (cm_heap m p) = Some c}
    \<and> n = length (cm_bySnow m) - length (cm_bySnow m')"
proof -
  note e = KickAllUnauth_effect[OF assms]
  note au = cm_inv_entry(5)[OF assms(1)]
  have uc: "user_conns m' = user_conns m" using e(4) by (simp add: user_conns_def fun_eq_iff)
  have g: "ConnManager_Get o3 u sid m' = ConnManager_Get o3 u sid m" if "sid \<noteq> ''''" for u sid
    using that by (simp add: ConnManager_Get_def uc e(2) cong del: option.case_cong_weak)
  have ok: "gm_ok (cm_bySnow m)" "gm_ok (cm_bySnow m')" using assms(1) e(1) by (auto dest: cm_invD(2))
  have "set (cm_bySnow m') = set (filter (\<lambda>x. wc_Authorized (cm_heap m (snd x))) (cm_bySnow m))"
    using e(6) by (auto simp: gm_in_set[OF ok(1)] gm_in_set[OF ok(2)] split: option.splits if_splits)
  moreover have "distinct (filter (\<lambda>x. wc_Authorized (cm_heap m (snd x))) (cm_bySnow m))" "distinct (cm_bySnow m')"
    using ok by (auto simp: gm_ok_def distinct_map)
  ultimately have "length (cm_bySnow m') = length (filter (\<lambda>x. wc_Authorized (cm_heap m (snd x))) (cm_bySnow m))"
    by (metis distinct_card)
  then have "n = length (cm_bySnow m) - length (cm_bySnow m')"
    using e(8) sum_length_filter_compl[of "\<lambda>x. wc_Authorized (cm_heap m (snd x))" "cm_bySnow m"] by linarith
  moreover have "map_of (cm_bySnow m') sid = (case map_of (cm_bySnow m) sid of None \<Rightarrow> None
          | Some p \<Rightarrow> if wc_UserId (cm_heap m p) = '''' then None else Some p)" for sid
    using e(6)[of sid] au[of sid] by (auto split: option.splits)
  moreover have "set (cm_closed m') = set (cm_closed m) \<union> {c. \<exists>sid p. map_of (cm_bySnow m) sid = Some p
          \<and> wc_UserId (cm_heap m p) = '''' \<and> wc_Conn (cm_heap m p) = Some c}"
    using e(7) au by blast
  ultimately show ?thesis using e(1) g by blast
qed

theorem conn_kick_exact_witness:
  "length (cm_bySnow demo_two) - length (cm_bySnow (fst (ConnManager_KickAllUnauth [] demo_two))) = 1
   \<and> ConnManager_Get [] ''bob'' ''1'' (fst (ConnManager_KickAllUnauth [] demo_two)) = Some 1"
proof -
  have "snd (ConnManager_KickAllUnauth [] demo_two) = 1" "ConnManager_Get [] ''bob'' ''1'' demo_two = Some 1"
    by code_simp+
  with conn_kick_exact[OF demo_two_inv, of "[]" _ _ "[]"] show ?thesis by (metis list.distinct(1) prod.collapse)
qed

fun cm_user_run :: "ws_lib \<Rightarrow> cm_op list \<Rightarrow> conn_manager \<Rightarrow> bool" where
  "cm_user_run W [] m \<longleftrightarrow> True"
| "cm_user_run W (c # cs) m \<longleftrightarrow> cm_keeps_user c m \<and> cm_user_run W cs (cm_exec W c m)"

lemma cm_run_legacy:
  assumes "cm_reach W conf gw m" "legacy_inv m" "never_panics conf" "cm_safe_run W cs m" "cm_user_run W cs m"
  shows "legacy_inv (cm_run W cs m)"
  using assms
proof (induction cs arbitrary: m)
  case (Cons c cs)
  note r = cm_reach_inv[OF Cons.prems(1,3)]
  have np: "never_panics (cm_conf m)"
    using r Cons.prems(3) by (auto simp: never_panics_def ManagerConf_norm_def Let_def)
  have "legacy_inv (cm_exec W c m)" "cm_reach W conf gw (cm_exec W c m)"
    using cm_exec_legacy[of m c W] r np Cons.prems by (auto intro: cm_reach_step)
  with Cons show ?case by simp
qed simp

text \<open>As long as no connection changes its user, \<^verbatim>\<open>Get\<close> without a connection id gives a socket
  of that very user that has not been closed, and gives none only when the user has no connection.\<close>

theorem conn_get_any_is_users:
  assumes "never_panics conf" and "cm_safe_run W cs (NewConnManagerWithConf conf gw)"
    and "cm_user_run W cs (NewConnManagerWithConf conf gw)"
    and m: "m = cm_run W cs (NewConnManagerWithConf conf gw)"
  shows "case ConnManager_Get o1 user '''' m of
      Some c \<Rightarrow> c \<notin> set (cm_closed m) \<and> (\<exists>sid. map_of (ConnManager_ListUserConns o2 user m) sid = Some c)
    | None \<Rightarrow> ConnManager_ListUserConns o2 user m = []"
proof -
  have r0: "cm_reach W conf gw (NewConnManagerWithConf conf gw)" by (rule cm_reach_new)
  have l0: "legacy_inv (NewConnManagerWithConf conf gw)" by (simp add: NewConnManagerWithConf_def legacy_inv_def)
  have leg: "legacy_inv m" unfolding m by (rule cm_run_legacy[OF r0 l0 assms(1-3)])
  have inv: "cm_inv m" and si: "sock_inv m"
    using cm_reach_inv[OF cm_reach_run[OF r0 assms(2)] assms(1)] by (auto simp: m)
  note l = legacy_okD[OF leg, of user]
  show ?thesis
  proof (cases "map_of (cm_conns m) user")
    case None
    with l show ?thesis
      by (simp add: ConnManager_Get_def legacy_ok_def ConnManager_ListUserConns_def)
  next
    case (Some co)
    with l obtain e c where e: "e \<in> set (user_conns m user)" "wc_Conn (cm_heap m (snd e)) = Some c" "co = Some c"
      by (auto simp: legacy_ok_def)
    then have uc: "map_of (user_conns m user) (fst e) = Some (snd e)"
      using user_conns_ok[OF inv, of user] by (simp add: gm_ok_def)
    have "c \<notin> set (cm_closed m)"
      using si user_conns_bySnow[OF inv uc] e(2) unfolding sock_inv_alt[OF inv] by blast
    moreover have "map_of (ConnManager_ListUserConns o2 user m) (fst e) = Some c"
      using uc e(2) by (simp add: ListUserConns_map(2)[OF inv] flip: cm_invD(7)[OF inv])
    ultimately show ?thesis using Some e(3) by (auto simp: ConnManager_Get_def)
  qed
qed

theorem conn_get_any_is_users_witness:
  "\<exists>sid. map_of (ConnManager_ListUserConns [] ''alice'' (cm_run demo_ws demo_calls demo_new)) sid = Some 2"
proof -
  have "cm_user_run demo_ws demo_calls demo_new" by code_simp
  moreover have "ConnManager_Get [] ''alice'' '''' (cm_run demo_ws demo_calls demo_new) = Some 2" by code_simp
  ultimately show ?thesis
    using conn_get_any_is_users[OF demo_np, of demo_ws demo_calls "''gw''" _ "[]" "''alice''" "[]"]
      demo_safe by (simp add: demo_new_def)
qed

text \<open>When \<^verbatim>\<open>BindUser\<close> moves a connection from one user to another, the old user's entry of
  the legacy map stays: \<^verbatim>\<open>Get\<close> for the old user without a connection id gives the socket that now
  belongs to the new user.\<close>

theorem conn_rebind_leaves_legacy_entry:
  assumes "cm_inv m" and "mc_MaxPerUser (cm_conf m) \<le> 0" and "map_of (cm_bySnow m) sid = Some p"
    and "wc_UserId (cm_heap m p) = old" and "old \<noteq> user"
    and "map_of (cm_conns m) old = Some (wc_Conn (cm_heap m p))"
    and "ConnManager_BindUser now o1 o2 sid user m = (m', Ok ())"
  shows "ConnManager_Get o3 old '''' m' = ConnManager_Get o3 user sid m' \<and> ConnManager_Get o3 old '''' m' \<noteq> None
    \<and> wc_UserId (cm_heap m' p) = user"
  using BindUser_OkE[OF assms(1,7)]
proof cases
  case (1 p' m2)
  have p: "p' = p" using 1(2) assms(3) by simp
  have k: "bind_keeps sid user m" using assms(2) by (simp add: bind_keeps_def)
  have m2: "m2 = unbind user p m" using 1(4) assms(2) p by auto
  have sid: "sid \<noteq> ''''" using assms(7) by (auto simp: ConnManager_BindUser_def)
  have "map_of (cm_conns m') old = Some (wc_Conn (cm_heap m p))"
    using assms(5,6) by (simp add: 1(3) p m2 conns_default_other cm_sel)
  moreover obtain c where c: "wc_Conn (cm_heap m p) = Some c" using cm_inv_entry(4)[OF assms(1,3)] by blast
  moreover have "indexed m' user sid = Some p" "wc_Conn (cm_heap m' p) = wc_Conn (cm_heap m p)"
    "wc_UserId (cm_heap m' p) = user"
    using assms(3) by (simp_all add: indexed_def 1(3) p m2 cm_sel)
  ultimately show ?thesis
    using Get_exact[OF sid BindUser_Ok_inv[OF assms(1) k assms(7)], of o3 user]
    by (simp add: ConnManager_Get_def[of o3 old])
qed

definition free_conf :: manager_conf where
  "free_conf = ManagerConf_zero"

definition demo_alice :: conn_manager where
  "demo_alice = cm_run demo_ws [OpAddUnauth 0 0 ''1'' (Some 1), OpBindUser 4 [] [] ''1'' ''alice'']
     (NewConnManagerWithConf free_conf ''gw'')"

lemma demo_alice_reach: "cm_reach demo_ws free_conf ''gw'' demo_alice"
  unfolding demo_alice_def by (rule cm_reach_run[OF cm_reach_new]) code_simp

lemma demo_alice_inv: "cm_inv demo_alice"
  using cm_reach_inv[OF demo_alice_reach] by (simp add: never_panics_def free_conf_def ManagerConf_zero_def)

lemma demo_alice_facts:
  "mc_MaxPerUser (cm_conf demo_alice) = 0" "map_of (cm_bySnow demo_alice) ''1'' = Some 0"
  "wc_UserId (cm_heap demo_alice 0) = ''alice''"
  "map_of (cm_conns demo_alice) ''alice'' = Some (Some 1)" "wc_Conn (cm_heap demo_alice 0) = Some 1"
  "snd (ConnManager_BindUser 5 [] [] ''1'' ''bob'' demo_alice) = Ok ()"
  "ConnManager_Get [] ''bob'' ''1'' (fst (ConnManager_BindUser 5 [] [] ''1'' ''bob'' demo_alice)) = Some 1"
  by code_simp+

theorem conn_rebind_leaves_legacy_entry_witness:
  "ConnManager_Get [] ''alice'' '''' (fst (ConnManager_BindUser 5 [] [] ''1'' ''bob'' demo_alice)) = Some 1"
proof -
  have r: "ConnManager_BindUser 5 [] [] ''1'' ''bob'' demo_alice
      = (fst (ConnManager_BindUser 5 [] [] ''1'' ''bob'' demo_alice), Ok ())"
    using demo_alice_facts(6) by (simp add: prod_eq_iff)
  from conn_rebind_leaves_legacy_entry[OF demo_alice_inv _ demo_alice_facts(2,3) _ _ r, of "[]"]
  show ?thesis by (simp add: demo_alice_facts)
qed

text \<open>Binding a connection again to the user it belongs to, when that user is at the limit and it is
  the oldest, evicts that connection itself: its socket is closed and it leaves \<^verbatim>\<open>bySnow\<close>, yet the
  call succeeds and \<^verbatim>\<open>Get\<close> still hands the closed socket out.\<close>

theorem conn_rebind_evicts_itself:
  assumes "cm_inv m" and "mc_MaxPerUser (cm_conf m) = 1" and "mc_EvictOldest (cm_conf m)"
    and "user_conns m user = [(sid, p)]" and "wc_Conn (cm_heap m p) = Some c" and "sid \<noteq> ''''"
  shows "\<exists>m'. ConnManager_BindUser now o1 o2 sid user m = (m', Ok ())
    \<and> c \<in> set (cm_closed m') \<and> map_of (cm_bySnow m') sid = None \<and> ConnManager_Get o3 user sid m' = Some c"
proof -
  have uc: "map_of (user_conns m user) sid = Some p" by (simp add: assms(4))
  note b = user_conns_bySnow[OF assms(1) uc]
  have u: "user \<noteq> ''''" using uc cm_inv_empty_user[OF assms(1)] by auto
  obtain m' r where r: "ConnManager_BindUser now o1 o2 sid user m = (m', r)" by fastforce
  have "snd (ensureRoomForUserLocked o1 o2 user (unbind user p m)) = Ok ()"
    by (rule ensureRoom_noPanic) (simp add: cm_sel assms(3))
  then have ok: "r = Ok ()"
    using r b u assms(2,5,6) by (auto simp: ConnManager_BindUser_def Let_def cm_sel split: prod.splits)
  from BindUser_OkE[OF assms(1) r[unfolded ok]] show ?thesis
  proof cases
    case (1 p' m2)
    have p: "p' = p" using 1(2) b by simp
    from 1(4) assms(2,4) obtain s q where s: "map_of (user_conns m user) s = Some q"
      "m2 = evict_conn o2 user s q (unbind user p m)" by (auto simp: p)
    have sq: "s = sid" "q = p" using s(1) assms(4) by (auto split: if_splits)
    have "map_of (user_conns m' user) sid = Some p" "wc_Conn (cm_heap m' p) = Some c"
      by (simp_all add: 1(3) p user_conns_def cm_sel assms(5))
    then have "ConnManager_Get o3 user sid m' = Some c" using assms(6) by (simp add: ConnManager_Get_def)
    moreover have "c \<in> set (cm_closed m')" "map_of (cm_bySnow m') sid = None"
      by (simp_all add: 1(3) p s(2) sq cm_sel evict_conn_closed assms(5))
    ultimately show ?thesis using r ok by blast
  qed
qed

theorem conn_rebind_evicts_itself_witness:
  "\<exists>m'. ConnManager_BindUser 9 [] [] ''1'' ''bob'' demo_two = (m', Ok ())
    \<and> 1 \<in> set (cm_closed m') \<and> map_of (cm_bySnow m') ''1'' = None \<and> ConnManager_Get [] ''bob'' ''1'' m' = Some 1"
proof (rule conn_rebind_evicts_itself[OF demo_two_inv, where p = 0])
  show "user_conns demo_two ''bob'' = [(''1'', 0)]" "wc_Conn (cm_heap demo_two 0) = Some 1"
    by code_simp+
qed (simp_all add: demo_two_conf demo_conf_def)

text \<open>\<^verbatim>\<open>Send\<close> hands the frame once to every connection of the user and to no other, and
  returns an error exactly when one of the writes failed.\<close>

theorem conn_send_all:
  assumes "cm_inv m" and "\<And>c. ws_SetWriteDeadline W c = None" and "user_conns m user \<noteq> []"
    and "ConnManager_Send W o1 user d m = (out, err)"
  shows "mset out = image_mset (\<lambda>e. (snd e, d)) (mset (ConnManager_ListUserConns o2 user m))
    \<and> (err = None \<longleftrightarrow> (\<forall>x \<in> set out. ws_WriteMessage W (fst x) d = None))"
proof -
  let ?cf = "\<lambda>e. the (wc_Conn (cm_heap m (snd e)))" and ?xs = "reorder o1 (user_conns m user)"
  have c: "wc_Conn (cm_heap m (snd e)) \<noteq> None" if "e \<in> set ?xs" for e
    using user_conns_conn[OF assms(1)] that by simp
  have s: "out = map (\<lambda>e. (?cf e, d)) ?xs" "err = snd (write_all W (cm_heap m) d ?xs None)"
  proof -
    have "(out, err) = write_all W (cm_heap m) d ?xs None"
      using assms(3,4) by (simp add: ConnManager_Send_def Let_def split: prod.splits)
    then show "out = map (\<lambda>e. (?cf e, d)) ?xs" "err = snd (write_all W (cm_heap m) d ?xs None)"
      using write_all_frames[where h = "cm_heap m" and d = d and le = None, OF assms(2) c]
      by (metis fst_conv, metis snd_conv)
  qed
  have l: "mset (ConnManager_ListUserConns o2 user m) = image_mset (\<lambda>e. (fst e, ?cf e)) (mset (user_conns m user))"
  proof -
    let ?l = "ConnManager_ListUserConns o2 user m" and ?r = "map (\<lambda>e. (fst e, ?cf e)) (user_conns m user)"
    have okl: "gm_ok ?l" by (rule ListUserConns_map(1)[OF assms(1)])
    have okr: "gm_ok ?r" using user_conns_ok[OF assms(1), of user] by (simp add: gm_ok_def comp_def)
    have "map_of ?r s = map_option (\<lambda>p. the (wc_Conn (cm_heap m p))) (map_of (user_conns m user) s)" for s
      using map_of_map[of "\<lambda>p. the (wc_Conn (cm_heap m p))" "user_conns m user"]
      by (simp add: case_prod_beta' fun_eq_iff)
    then have "map_of ?l = map_of ?r"
      using user_conns_bySnow[OF assms(1)] cm_inv_entry(4)[OF assms(1)]
      by (auto simp: fun_eq_iff ListUserConns_map(2)[OF assms(1)] cm_invD(7)[OF assms(1), symmetric] split: option.splits)
        (metis option.sel)
    from gm_mset_eqI[OF okl okr this] show ?thesis by simp
  qed
  have "mset out = image_mset (\<lambda>e. (snd e, d)) (mset (ConnManager_ListUserConns o2 user m))"
    by (simp add: s(1) l multiset.map_comp comp_def)
  moreover have "err = None \<longleftrightarrow> (\<forall>x \<in> set out. ws_WriteMessage W (fst x) d = None)"
    using write_all_err[where h = "cm_heap m" and xs = ?xs and d = d, OF assms(2) c] by (simp add: s)
  ultimately show ?thesis by blast
qed

theorem conn_send_all_witness:
  "mset (fst (ConnManager_Send demo_ws [] ''bob'' ''hi'' demo_two))
   = image_mset (\<lambda>e. (snd e, ''hi'')) (mset (ConnManager_ListUserConns [] ''bob'' demo_two))"
proof -
  have "user_conns demo_two ''bob'' \<noteq> []" by code_simp
  from conn_send_all[OF demo_two_inv _ this, of demo_ws "[]" "''hi''" _ _ "[]"] show ?thesis
    by (simp add: demo_ws_def prod_eq_iff)
qed

end
