(* ===== verification/RedisLib.thy ===== *)
theory RedisLib
  imports Prelude "HOL-Library.List_Lexorder" "HOL-Library.Char_ord" "HOL-Library.Product_Lexorder"
begin

section \<open>Redis commands and scripts\<close>

text \<open>
  The vocabulary in which the program speaks to Redis: the keyspace, the commands its Lua scripts and
  its pipelines use, and their composition. The server itself is a parameter, a record \<open>redis\<close> of
  the client calls, over a server state; \<open>redis_laws\<close> is what the documentation promises of them.
  A script runs alone, at one reading of the server's clock, on the keys that have not expired.
\<close>

subsection \<open>The keyspace\<close>

text \<open>
  A hash holds the numbers the program stores in it. The scores of a sorted set are whole seconds.
  A key carries the time, in milliseconds, at which it expires, or none.
\<close>

datatype rval = RStr string | RHash "(string, int) gomap" | RZset "(string, int) gomap" | RList "string list"

record rdb =
  rd_now :: int
  rd_keys :: "(string, rval \<times> int option) gomap"

definition r_alive :: "int \<Rightarrow> (rval \<times> int option) option \<Rightarrow> bool" where
  "r_alive t o1 \<longleftrightarrow> (case o1 of Some (v, Some x) \<Rightarrow> t < x | _ \<Rightarrow> True)"

definition purge :: "int \<Rightarrow> rdb \<Rightarrow> rdb" where
  "purge t db = \<lparr> rd_now = t,
     rd_keys = filter (\<lambda>(k, _). r_alive t (map_of (rd_keys db) k)) (rd_keys db) \<rparr>"

lemma map_of_filter_key: "map_of (filter (\<lambda>(k, _). P k) m) k = (if P k then map_of m k else None)"
  by (induction m) auto

lemma purge_keys [simp]: "map_of (rd_keys (purge t db)) k =
    (if r_alive t (map_of (rd_keys db) k) then map_of (rd_keys db) k else None)"
  by (simp add: purge_def map_of_filter_key)

lemma purge_now [simp]: "rd_now (purge t db) = t"
  by (simp add: purge_def)

definition r_get :: "string \<Rightarrow> rdb \<Rightarrow> rval option" where
  "r_get k db = map_option fst (map_of (rd_keys db) k)"

definition r_expiry :: "string \<Rightarrow> rdb \<Rightarrow> int option" where
  "r_expiry k db = (case map_of (rd_keys db) k of Some (_, e) \<Rightarrow> e | None \<Rightarrow> None)"

text \<open>A write to a collection keeps the expiry of the key; a collection that gets empty is removed.\<close>

definition r_empty :: "rval \<Rightarrow> bool" where
  "r_empty v \<longleftrightarrow> (case v of RStr _ \<Rightarrow> False | RHash h \<Rightarrow> h = [] | RZset z \<Rightarrow> z = [] | RList l \<Rightarrow> l = [])"

definition r_del :: "string \<Rightarrow> rdb \<Rightarrow> rdb" where
  "r_del k db = db\<lparr> rd_keys := AList.delete k (rd_keys db) \<rparr>"

definition r_put :: "string \<Rightarrow> rval \<Rightarrow> rdb \<Rightarrow> rdb" where
  "r_put k v db = (if r_empty v then r_del k db
     else db\<lparr> rd_keys := AList.update k (v, r_expiry k db) (rd_keys db) \<rparr>)"

subsection \<open>Sequencing\<close>

text \<open>A command that is refused ends a script; what was written before it stays.\<close>

type_synonym 'a rcmd = "rdb \<Rightarrow> rdb \<times> 'a go"

definition rret :: "'a \<Rightarrow> 'a rcmd" where
  "rret x db = (db, Ok x)"

definition rthen :: "'a rcmd \<Rightarrow> ('a \<Rightarrow> 'b rcmd) \<Rightarrow> 'b rcmd" where
  "rthen c f db = (case c db of
       (db1, Ok x) \<Rightarrow> f x db1
     | (db1, Error e) \<Rightarrow> (db1, Error e)
     | (db1, Panic e) \<Rightarrow> (db1, Panic e))"

fun rfor :: "'a list \<Rightarrow> ('a \<Rightarrow> 'b rcmd) \<Rightarrow> unit rcmd" where
  "rfor [] f = rret ()"
| "rfor (x # xs) f = rthen (f x) (\<lambda>_. rfor xs f)"

text \<open>A transaction runs every queued command; its error is the first one.\<close>

fun rpipe :: "unit rcmd list \<Rightarrow> unit rcmd" where
  "rpipe [] db = (db, Ok ())"
| "rpipe (c # cs) db =
     (case c db of
        (db1, Ok _) \<Rightarrow> rpipe cs db1
      | (db1, e) \<Rightarrow> (fst (rpipe cs db1), e))"

definition rvoid :: "'a rcmd \<Rightarrow> unit rcmd" where
  "rvoid c = rthen c (\<lambda>_. rret ())"

definition WRONGTYPE :: string where
  "WRONGTYPE = ''WRONGTYPE Operation against a key holding the wrong kind of value''"

subsection \<open>Commands on keys and strings\<close>

definition EXISTS :: "string \<Rightarrow> int rcmd" where
  "EXISTS k db = (db, Ok (if r_get k db = None then 0 else 1))"

definition DEL :: "string \<Rightarrow> int rcmd" where
  "DEL k db = (r_del k db, Ok (if r_get k db = None then 0 else 1))"

definition PEXPIREAT :: "string \<Rightarrow> int \<Rightarrow> int rcmd" where
  "PEXPIREAT k ms db = (case map_of (rd_keys db) k of
       None \<Rightarrow> (db, Ok 0)
     | Some (v, _) \<Rightarrow> (if ms \<le> rd_now db then (r_del k db, Ok 1)
         else (db\<lparr> rd_keys := AList.update k (v, Some ms) (rd_keys db) \<rparr>, Ok 1)))"

definition PEXPIRE :: "string \<Rightarrow> int \<Rightarrow> int rcmd" where
  "PEXPIRE k ms db = PEXPIREAT k (rd_now db + ms) db"

definition EXPIREAT :: "string \<Rightarrow> int \<Rightarrow> int rcmd" where
  "EXPIREAT k s = PEXPIREAT k (s * 1000)"

definition EXPIRE :: "string \<Rightarrow> int \<Rightarrow> int rcmd" where
  "EXPIRE k s = PEXPIRE k (s * 1000)"

definition TTL :: "string \<Rightarrow> int rcmd" where
  "TTL k db = (db, Ok (case map_of (rd_keys db) k of
       None \<Rightarrow> - 2
     | Some (_, None) \<Rightarrow> - 1
     | Some (_, Some ms) \<Rightarrow> (ms - rd_now db + 500) div 1000))"

text \<open>\<open>SET\<close> without and with \<open>EX\<close> or \<open>PX\<close>, whose time must be positive.\<close>

definition SET_cmd :: "string \<Rightarrow> string \<Rightarrow> unit rcmd" where
  "SET_cmd k v db = (db\<lparr> rd_keys := AList.update k (RStr v, None) (rd_keys db) \<rparr>, Ok ())"

definition SET_PX :: "string \<Rightarrow> string \<Rightarrow> int \<Rightarrow> unit rcmd" where
  "SET_PX k v ms db = (if ms \<le> 0 then (db, Error ''ERR invalid expire time in set'')
     else (db\<lparr> rd_keys := AList.update k (RStr v, Some (rd_now db + ms)) (rd_keys db) \<rparr>, Ok ()))"

definition SET_EX :: "string \<Rightarrow> string \<Rightarrow> int \<Rightarrow> unit rcmd" where
  "SET_EX k v s = SET_PX k v (s * 1000)"

definition GET_cmd :: "string \<Rightarrow> string option rcmd" where
  "GET_cmd k db = (case r_get k db of
       None \<Rightarrow> (db, Ok None)
     | Some (RStr s) \<Rightarrow> (db, Ok (Some s))
     | _ \<Rightarrow> (db, Error WRONGTYPE))"

subsection \<open>Hashes\<close>

definition r_hash :: "string \<Rightarrow> (string, int) gomap rcmd" where
  "r_hash k db = (case r_get k db of
       None \<Rightarrow> (db, Ok [])
     | Some (RHash h) \<Rightarrow> (db, Ok h)
     | _ \<Rightarrow> (db, Error WRONGTYPE))"

definition HGET :: "string \<Rightarrow> string \<Rightarrow> int option rcmd" where
  "HGET k f = rthen (r_hash k) (\<lambda>h. rret (map_of h f))"

definition HSET :: "string \<Rightarrow> (string \<times> int) list \<Rightarrow> unit rcmd" where
  "HSET k fs = rthen (r_hash k) (\<lambda>h db. (r_put k (RHash (fold (\<lambda>(f, v). AList.update f v) fs h)) db, Ok ()))"

subsection \<open>Sorted sets\<close>

definition r_zset :: "string \<Rightarrow> (string, int) gomap rcmd" where
  "r_zset k db = (case r_get k db of
       None \<Rightarrow> (db, Ok [])
     | Some (RZset z) \<Rightarrow> (db, Ok z)
     | _ \<Rightarrow> (db, Error WRONGTYPE))"

text \<open>The members in the order of the set: by score, members of the same score by name.\<close>

definition z_sorted :: "(string, int) gomap \<Rightarrow> (string \<times> int) list" where
  "z_sorted z = sort_key (\<lambda>(m, s). (s, m)) z"

definition ZADD :: "string \<Rightarrow> int \<Rightarrow> string \<Rightarrow> unit rcmd" where
  "ZADD k s m = rthen (r_zset k) (\<lambda>z db. (r_put k (RZset (AList.update m s z)) db, Ok ()))"

definition ZREM :: "string \<Rightarrow> string \<Rightarrow> unit rcmd" where
  "ZREM k m = rthen (r_zset k) (\<lambda>z db. (r_put k (RZset (AList.delete m z)) db, Ok ()))"

definition ZCARD :: "string \<Rightarrow> int rcmd" where
  "ZCARD k = rthen (r_zset k) (\<lambda>z. rret (int (length z)))"

definition ZRANGE_all :: "string \<Rightarrow> string list rcmd" where
  "ZRANGE_all k = rthen (r_zset k) (\<lambda>z. rret (map fst (z_sorted z)))"

text \<open>\<open>ZRANGEBYSCORE k -inf hi\<close> and \<open>ZRANGEBYSCORE k lo +inf\<close>, and the reverse of the latter.\<close>

definition ZRANGE_upto :: "string \<Rightarrow> int \<Rightarrow> string list rcmd" where
  "ZRANGE_upto k hi = rthen (r_zset k) (\<lambda>z. rret (map fst (filter (\<lambda>(m, s). s \<le> hi) (z_sorted z))))"

definition ZRANGE_from :: "string \<Rightarrow> int \<Rightarrow> string list rcmd" where
  "ZRANGE_from k lo = rthen (r_zset k) (\<lambda>z. rret (map fst (filter (\<lambda>(m, s). lo \<le> s) (z_sorted z))))"

definition ZREVRANGE_from :: "string \<Rightarrow> int \<Rightarrow> nat \<Rightarrow> string list rcmd" where
  "ZREVRANGE_from k lo n = rthen (ZRANGE_from k lo) (\<lambda>ms. rret (take n (rev ms)))"

definition ZCOUNT_from :: "string \<Rightarrow> int \<Rightarrow> int rcmd" where
  "ZCOUNT_from k lo = rthen (r_zset k) (\<lambda>z. rret (int (length (filter (\<lambda>(m, s). lo \<le> s) z))))"

definition ZREMRANGE_upto :: "string \<Rightarrow> int \<Rightarrow> unit rcmd" where
  "ZREMRANGE_upto k hi = rthen (r_zset k) (\<lambda>z db. (r_put k (RZset (filter (\<lambda>(m, s). \<not> s \<le> hi) z)) db, Ok ()))"

subsection \<open>Lists\<close>

definition r_list :: "string \<Rightarrow> string list rcmd" where
  "r_list k db = (case r_get k db of
       None \<Rightarrow> (db, Ok [])
     | Some (RList l) \<Rightarrow> (db, Ok l)
     | _ \<Rightarrow> (db, Error WRONGTYPE))"

text \<open>A range by index: a negative index counts from the tail, and what is out of range is cut off.\<close>

definition l_index :: "'a list \<Rightarrow> int \<Rightarrow> int" where
  "l_index l i = (if i < 0 then max 0 (int (length l) + i) else i)"

definition l_range :: "'a list \<Rightarrow> int \<Rightarrow> int \<Rightarrow> 'a list" where
  "l_range l start stop =
     (let stop' = min (int (length l) - 1) (if stop < 0 then int (length l) + stop else stop)
      in if stop' < l_index l start then []
         else take (nat (stop' - l_index l start + 1)) (drop (nat (l_index l start)) l))"

definition LPUSH :: "string \<Rightarrow> string \<Rightarrow> unit rcmd" where
  "LPUSH k v = rthen (r_list k) (\<lambda>l db. (r_put k (RList (v # l)) db, Ok ()))"

definition LTRIM :: "string \<Rightarrow> int \<Rightarrow> int \<Rightarrow> unit rcmd" where
  "LTRIM k a b = rthen (r_list k) (\<lambda>l db. (r_put k (RList (l_range l a b)) db, Ok ()))"

definition LLEN :: "string \<Rightarrow> int rcmd" where
  "LLEN k = rthen (r_list k) (\<lambda>l. rret (int (length l)))"

definition LRANGE :: "string \<Rightarrow> int \<Rightarrow> int \<Rightarrow> string list rcmd" where
  "LRANGE k a b = rthen (r_list k) (\<lambda>l. rret (l_range l a b))"

subsection \<open>Numbers of a script\<close>

text \<open>
  A number of a Lua script is a double: integers up to \<open>2 ^ 53\<close> are exact, larger ones are rounded to
  the nearest multiple of a power of two (to the even one when two are equally near).
\<close>

fun bit_len :: "nat \<Rightarrow> nat" where
  "bit_len n = (if n = 0 then 0 else Suc (bit_len (n div 2)))"

declare bit_len.simps [simp del]

definition round_nat :: "nat \<Rightarrow> nat" where
  "round_nat n = (if n \<le> 2 ^ 53 then n else
     let u = 2 ^ (bit_len n - 53); q = n div u; r = n mod u
     in (if 2 * r < u \<or> (2 * r = u \<and> even q) then q else q + 1) * u)"

definition tonumber :: "int \<Rightarrow> int" where
  "tonumber i = (if \<bar>i\<bar> \<le> 2 ^ 53 then i else if i < 0 then - int (round_nat (nat (- i))) else int (round_nat (nat i)))"

lemma bit_len_less: "n < 2 ^ bit_len n"
proof (induction n rule: bit_len.induct)
  case (1 n)
  show ?case
  proof (cases "n = 0")
    case False
    then have "n div 2 < 2 ^ bit_len (n div 2)" by (rule 1)
    with False show ?thesis by (simp add: bit_len.simps[of n])
  qed (simp add: bit_len.simps)
qed

lemma bit_len_le: "0 < n \<Longrightarrow> 2 ^ (bit_len n - 1) \<le> n"
proof (induction n rule: bit_len.induct)
  case (1 n)
  show ?case
  proof (cases "n div 2 = 0")
    case True
    with 1 show ?thesis by (simp add: bit_len.simps[of n] bit_len.simps[of 0])
  next
    case False
    with 1 have "2 ^ (bit_len (n div 2) - 1) \<le> n div 2" by simp
    moreover have "bit_len (n div 2) = Suc (bit_len (n div 2) - 1)"
      using False by (simp add: bit_len.simps[of "n div 2"])
    ultimately have "2 ^ bit_len (n div 2) \<le> 2 * (n div 2)"
      by (metis mult_le_mono2 power_Suc)
    then have "2 ^ bit_len (n div 2) \<le> n" by linarith
    with 1 show ?thesis by (simp add: bit_len.simps[of n])
  qed
qed

lemma round_nat_big: "2 ^ 53 \<le> n \<Longrightarrow> 2 ^ 53 \<le> round_nat n"
proof (cases "n \<le> 2 ^ 53")
  case False
  have "(2::nat) ^ 53 < 2 ^ bit_len n" using False bit_len_less[of n] by linarith
  then have "53 < bit_len n" by (rule power_less_imp_less_exp[rotated]) simp
  then obtain d where d: "bit_len n = 53 + Suc d" using less_iff_Suc_add[of 53 "bit_len n"] by (metis add_Suc_right)
  define u where "u = (2::nat) ^ Suc d"
  have "2 ^ (52 + Suc d) \<le> n" using bit_len_le[of n] False d by simp
  then have "2 ^ 52 * u \<le> n" by (simp only: power_add u_def)
  then have q: "2 ^ 52 \<le> n div u" by (simp add: u_def less_eq_div_iff_mult_less_eq)
  have "2 ^ 53 \<le> (2 ^ 52 :: nat) * u" by (simp add: u_def)
  also have "\<dots> \<le> n div u * u" using q by simp
  also have "\<dots> \<le> round_nat n" using False by (simp add: round_nat_def Let_def d u_def)
  finally show ?thesis .
qed (simp add: round_nat_def)

lemma tonumber_id [simp]: "0 \<le> i \<Longrightarrow> i \<le> 2 ^ 53 \<Longrightarrow> tonumber i = i"
  by (simp add: tonumber_def)

lemma tonumber_big: "2 ^ 53 \<le> i \<Longrightarrow> 2 ^ 53 \<le> tonumber i"
proof -
  assume i: "2 ^ 53 \<le> i"
  then have "2 ^ 53 \<le> round_nat (nat i)" by (intro round_nat_big) simp
  then have "int (2 ^ 53) \<le> int (round_nat (nat i))" by (simp only: of_nat_le_iff)
  with i show ?thesis by (simp add: tonumber_def)
qed

lemma tonumber_less:
  assumes "0 \<le> i" "tonumber i < 2 ^ 53"
  shows "tonumber i = i \<and> i < 2 ^ 53"
  using assms tonumber_big[of i] by (cases "2 ^ 53 \<le> i") auto

subsection \<open>Replies, and how the client reads them\<close>

datatype rreply = LNil | LInt int | LStr string | LArr "rreply list"

definition reply_Int64 :: "rreply go \<Rightarrow> int go" where
  "reply_Int64 r = (case r of
       Ok (LInt i) \<Rightarrow> Ok i
     | Ok LNil \<Rightarrow> Error ''redis: nil''
     | Ok _ \<Rightarrow> Error ''redis: unexpected type''
     | Error e \<Rightarrow> Error e | Panic e \<Rightarrow> Panic e)"

fun reply_strings :: "rreply list \<Rightarrow> string list go" where
  "reply_strings [] = Ok []"
| "reply_strings (LStr s # rs) = (case reply_strings rs of Ok ss \<Rightarrow> Ok (s # ss) | e \<Rightarrow> e)"
| "reply_strings (_ # rs) = Error ''redis: unexpected type''"

definition reply_StringSlice :: "rreply go \<Rightarrow> string list go" where
  "reply_StringSlice r = (case r of
       Ok (LArr rs) \<Rightarrow> reply_strings rs
     | Ok LNil \<Rightarrow> Error ''redis: nil''
     | Ok _ \<Rightarrow> Error ''redis: unexpected type''
     | Error e \<Rightarrow> Error e | Panic e \<Rightarrow> Panic e)"

definition reply_Text :: "rreply go \<Rightarrow> string go" where
  "reply_Text r = (case r of
       Ok (LStr s) \<Rightarrow> Ok s
     | Ok LNil \<Rightarrow> Error ''redis: nil''
     | Ok _ \<Rightarrow> Error ''redis: unexpected type''
     | Error e \<Rightarrow> Error e | Panic e \<Rightarrow> Panic e)"

definition reply_Slice :: "rreply go \<Rightarrow> rreply list go" where
  "reply_Slice r = (case r of
       Ok (LArr rs) \<Rightarrow> Ok rs
     | Ok LNil \<Rightarrow> Error ''redis: nil''
     | Ok _ \<Rightarrow> Error ''redis: unexpected type''
     | Error e \<Rightarrow> Error e | Panic e \<Rightarrow> Panic e)"

lemma reply_strings_LStr [simp]: "reply_strings (map LStr ss) = Ok ss"
  by (induction ss) auto

subsection \<open>The server as a parameter\<close>

text \<open>
  \<open>rd_Run\<close> runs a script, a transaction or a single command; \<open>rd_Scan\<close> iterates over the keys that
  match a pattern; \<open>rd_XAdd stream fields maxlen\<close> appends to a stream.
\<close>

type_synonym rscript = "rreply rcmd"

record 'r redis =
  rd_Run :: "rscript \<Rightarrow> 'r \<Rightarrow> 'r \<times> rreply go"
  rd_Publish :: "string \<Rightarrow> string \<Rightarrow> 'r \<Rightarrow> 'r \<times> int go"
  rd_Scan :: "string \<Rightarrow> 'r \<Rightarrow> string list go"
  rd_XAdd :: "string \<Rightarrow> (string \<times> string) list \<Rightarrow> int \<Rightarrow> 'r \<Rightarrow> 'r \<times> string go"

text \<open>Patterns: a star matches any text, and a pattern without other special characters itself.\<close>

fun glob :: "string \<Rightarrow> string \<Rightarrow> bool" where
  "glob [] s = (s = [])"
| "glob (p # ps) s =
     (if p = CHR ''*'' then glob ps s \<or> (case s of [] \<Rightarrow> False | _ # s' \<Rightarrow> glob (p # ps) s')
      else (case s of [] \<Rightarrow> False | c # s' \<Rightarrow> p = c \<and> glob ps s'))"

definition plain_glob :: "string \<Rightarrow> bool" where
  "plain_glob p \<longleftrightarrow> (\<forall>c \<in> set p. c \<noteq> CHR ''?'' \<and> c \<noteq> CHR ''['' \<and> c \<noteq> CHR 0x5C)"

text \<open>
  Of a script that is sent once: a call that returns no error ran it, at a reading of the server's clock, and
  gives its reply; one that returns an error ran it or not, for the reply may be lost. Publishing and reading
  keys change no key. This is \<open>redis_once\<close>.

  The program's client is built with go-redis's default of up to three retries, and such a client sends a command
  again when its reply is lost: the script may have run before the run whose reply is read. \<open>sent_before\<close> are
  the keyspaces that such earlier runs can leave, each at a reading of the clock of its own, and \<open>redis_laws\<close> is
  what the client's calls then promise: at least one run when there is a reply, any number of them otherwise.
\<close>

definition redis_quiet :: "'r redis \<Rightarrow> ('r \<Rightarrow> rdb) \<Rightarrow> bool" where
  "redis_quiet R view \<longleftrightarrow>
     (\<forall>c m r r' x. rd_Publish R c m r = (r', x) \<longrightarrow> view r' = view r \<and> (\<forall>e. x \<noteq> Panic e))
   \<and> (\<forall>p r ks. plain_glob p \<longrightarrow> rd_Scan R p r = Ok ks \<longrightarrow>
        (\<exists>t. set ks = {k. map_of (rd_keys (purge t (view r))) k \<noteq> None \<and> glob p k}))"

definition redis_once :: "'r redis \<Rightarrow> ('r \<Rightarrow> rdb) \<Rightarrow> bool" where
  "redis_once R view \<longleftrightarrow>
     (\<forall>sc r r' x. rd_Run R sc r = (r', x) \<longrightarrow>
        (\<exists>t. case x of
           Ok v \<Rightarrow> sc (purge t (view r)) = (view r', Ok v)
         | Error e \<Rightarrow> view r' = purge t (view r) \<or> view r' = fst (sc (purge t (view r)))
         | Panic e \<Rightarrow> False))
   \<and> redis_quiet R view"

inductive sent_before :: "'a rcmd \<Rightarrow> rdb \<Rightarrow> rdb \<Rightarrow> bool" for sc :: "'a rcmd" and db :: rdb where
  not_sent: "sent_before sc db db"
| sent: "sent_before sc db db1 \<Longrightarrow> sent_before sc db (fst (sc (purge t db1)))"

definition redis_laws :: "'r redis \<Rightarrow> ('r \<Rightarrow> rdb) \<Rightarrow> bool" where
  "redis_laws R view \<longleftrightarrow>
     (\<forall>sc r r' x. rd_Run R sc r = (r', x) \<longrightarrow>
        (\<exists>db1 t. sent_before sc (view r) db1 \<and>
           (case x of
              Ok v \<Rightarrow> sc (purge t db1) = (view r', Ok v)
            | Error e \<Rightarrow> view r' = purge t db1 \<or> view r' = fst (sc (purge t db1))
            | Panic e \<Rightarrow> False)))
   \<and> redis_quiet R view"

lemma redis_once_Ok:
  "redis_once R view \<Longrightarrow> rd_Run R sc r = (r', Ok v) \<Longrightarrow> \<exists>t. sc (purge t (view r)) = (view r', Ok v)"
  unfolding redis_once_def by fastforce

lemma redis_once_Error:
  "redis_once R view \<Longrightarrow> rd_Run R sc r = (r', Error e) \<Longrightarrow>
   \<exists>t. view r' = purge t (view r) \<or> view r' = fst (sc (purge t (view r)))"
  unfolding redis_once_def by fastforce

lemma redis_run_Ok:
  "redis_laws R view \<Longrightarrow> rd_Run R sc r = (r', Ok v) \<Longrightarrow>
   \<exists>db1 t. sent_before sc (view r) db1 \<and> sc (purge t db1) = (view r', Ok v)"
  unfolding redis_laws_def by fastforce

lemma redis_run_Error:
  "redis_laws R view \<Longrightarrow> rd_Run R sc r = (r', Error e) \<Longrightarrow>
   \<exists>db1 t. sent_before sc (view r) db1 \<and> (view r' = purge t db1 \<or> view r' = fst (sc (purge t db1)))"
  unfolding redis_laws_def by fastforce

lemma redis_run_Panic: "redis_laws R view \<Longrightarrow> rd_Run R sc r \<noteq> (r', Panic e)"
  unfolding redis_laws_def by fastforce

lemma redis_once_laws: "redis_once R view \<Longrightarrow> redis_laws R view"
proof -
  assume once: "redis_once R view"
  have "\<exists>db1 t. sent_before sc (view r) db1 \<and>
           (case x of
              Ok v \<Rightarrow> sc (purge t db1) = (view r', Ok v)
            | Error e \<Rightarrow> view r' = purge t db1 \<or> view r' = fst (sc (purge t db1))
            | Panic e \<Rightarrow> False)" if "rd_Run R sc r = (r', x)" for sc r r' x
    using once that not_sent unfolding redis_once_def by blast
  with once show ?thesis by (auto simp: redis_laws_def redis_once_def)
qed

lemma redis_once_Panic: "redis_once R view \<Longrightarrow> rd_Run R sc r \<noteq> (r', Panic e)"
  by (rule redis_run_Panic[OF redis_once_laws])

lemma redis_publish: "redis_laws R view \<Longrightarrow> rd_Publish R c m r = (r', x) \<Longrightarrow> view r' = view r"
  unfolding redis_laws_def redis_quiet_def by blast

text \<open>A server in memory with a clock that stands still.\<close>

record mem_rd =
  mr_db :: rdb
  mr_published :: "(string \<times> string) list"

definition mem_redis :: "mem_rd redis" where
  "mem_redis = \<lparr>
     rd_Run = (\<lambda>sc r. case sc (purge (rd_now (mr_db r)) (mr_db r)) of
         (db, Ok v) \<Rightarrow> (r\<lparr> mr_db := db \<rparr>, Ok v)
       | (db, Error e) \<Rightarrow> (r\<lparr> mr_db := db \<rparr>, Error e)
       | (db, Panic e) \<Rightarrow> (r\<lparr> mr_db := db \<rparr>, Error e)),
     rd_Publish = (\<lambda>c m r. (r\<lparr> mr_published := mr_published r @ [(c, m)] \<rparr>, Ok 1)),
     rd_Scan = (\<lambda>p r. Ok (filter (glob p) (map fst (rd_keys (purge (rd_now (mr_db r)) (mr_db r)))))),
     rd_XAdd = (\<lambda>k fs n r. (r, Ok ''0-1'')) \<rparr>"

lemma mem_redis_once: "redis_once mem_redis mr_db"
proof -
  have 1: "\<exists>t. case x of
           Ok v \<Rightarrow> sc (purge t (mr_db r)) = (mr_db r', Ok v)
         | Error e \<Rightarrow> mr_db r' = purge t (mr_db r) \<or> mr_db r' = fst (sc (purge t (mr_db r)))
         | Panic e \<Rightarrow> False" if "rd_Run mem_redis sc r = (r', x)" for sc r r' x
    using that by (intro exI[of _ "rd_now (mr_db r)"]) (auto simp: mem_redis_def split: prod.splits go.splits)
  have 2: "\<exists>t. set ks = {k. map_of (rd_keys (purge t (mr_db r))) k \<noteq> None \<and> glob p k}"
    if "rd_Scan mem_redis p r = Ok ks" for p r ks
    using that by (intro exI[of _ "rd_now (mr_db r)"])
      (auto simp: mem_redis_def map_of_eq_None_iff simp del: purge_keys, force simp del: purge_keys)
  show ?thesis using 1 2 by (auto simp: redis_once_def redis_quiet_def mem_redis_def)
qed

lemma mem_redis_laws: "redis_laws mem_redis mr_db"
  by (rule redis_once_laws[OF mem_redis_once])

end
