(* ===== verification/Online.thy ===== *)
theory Online
  imports RedisLib GoStrings
begin

section \<open>The online store\<close>

text \<open>
  \<^verbatim>\<open>service/storage/online.go\<close>: which sessions are connected, in Redis. A session is a key that
  expires; the sessions of a user are the members of a sorted set whose scores are the seconds at which
  they expire; sessions that have not logged in yet are in a set of their node. The scripts are programs
  over the keyspace (the seconds they compute with are far below \<open>2 ^ 53\<close>, so their numbers are integers),
  the methods run them on the server \<open>R\<close> at the clock reading \<open>now\<close>.
\<close>

record online_config =
  oc_NodeID :: string
  oc_TTL :: duration
  oc_ChannelName :: string
  oc_SnowflakeNode :: int
  oc_UseClusterTag :: bool
  oc_MaxSessions :: int
  oc_UseJSONValue :: bool
  oc_Secret :: string
  oc_UseEXAT :: bool
  oc_UnauthTTL :: duration
  oc_UserIndexTTL :: duration

subsection \<open>Scripts\<close>

definition luaBindUser :: "string \<Rightarrow> string \<Rightarrow> string \<Rightarrow> string \<Rightarrow> int \<Rightarrow> int \<Rightarrow> int \<Rightarrow> int \<Rightarrow> rscript" where
  "luaBindUser unauthZ userZ kUnauth kAuth ttl nowUnix expAt useEXAT =
     rthen (EXISTS kAuth) (\<lambda>ea.
     if ea = 1 then rret (LInt (- 1)) else
     rthen (EXISTS kUnauth) (\<lambda>eu.
     if eu = 0 then rthen (ZREM unauthZ kUnauth) (\<lambda>_. rret (LInt 0)) else
     rthen (ZREM unauthZ kUnauth) (\<lambda>_.
     rthen (DEL kUnauth) (\<lambda>_.
     rthen (if useEXAT = 1
            then rthen (SET_cmd kAuth ''1'') (\<lambda>_. rvoid (PEXPIREAT kAuth (expAt * 1000)))
            else SET_EX kAuth ''1'' ttl) (\<lambda>_.
     rthen (ZADD userZ expAt kAuth) (\<lambda>_.
     rthen (EXPIRE userZ (ttl * 2)) (\<lambda>_. rret (LInt 1))))))))"

text \<open>The part five scripts share: take the expired members out of the set and delete their keys.\<close>

definition lua_clean :: "string \<Rightarrow> int \<Rightarrow> string list rcmd" where
  "lua_clean z now =
     rthen (ZRANGE_upto z now) (\<lambda>victims.
     rthen (rfor victims (\<lambda>v. rthen (ZREM z v) (\<lambda>_. DEL v))) (\<lambda>_. rret victims))"

definition lua_keep :: "string \<Rightarrow> unit rcmd" where
  "lua_keep z = rthen (ZCARD z) (\<lambda>n. if 0 < n then rvoid (EXPIRE z 3600) else rret ())"

definition luaSweepUnauth :: "string \<Rightarrow> int \<Rightarrow> rscript" where
  "luaSweepUnauth unauthZ now =
     rthen (lua_clean unauthZ now) (\<lambda>victims.
     rthen (lua_keep unauthZ) (\<lambda>_. rret (LArr (map LStr victims))))"

definition luaOfflineUnauthOne :: "string \<Rightarrow> string \<Rightarrow> rscript" where
  "luaOfflineUnauthOne unauthZ kUnauth =
     rthen (DEL kUnauth) (\<lambda>existed. rthen (ZREM unauthZ kUnauth) (\<lambda>_. rret (LInt existed)))"

definition luaOfflineOne :: "string \<Rightarrow> string \<Rightarrow> rscript" where
  "luaOfflineOne userZ kAuth =
     rthen (DEL kAuth) (\<lambda>existed. rthen (ZREM userZ kAuth) (\<lambda>_. rret (LInt existed)))"

definition luaLogoutAll :: "string \<Rightarrow> rscript" where
  "luaLogoutAll userZ =
     rthen (ZRANGE_all userZ) (\<lambda>members.
     rthen (rfor members DEL) (\<lambda>_.
     rthen (DEL userZ) (\<lambda>_. rret (LArr (map LStr members)))))"

definition luaSweepAuthed :: "string \<Rightarrow> int \<Rightarrow> rscript" where
  "luaSweepAuthed userZ now =
     rthen (lua_clean userZ now) (\<lambda>victims.
     rthen (lua_keep userZ) (\<lambda>_. rret (LArr (map LStr victims))))"

definition luaGetActiveAndSweep :: "string \<Rightarrow> int \<Rightarrow> rscript" where
  "luaGetActiveAndSweep userZ now =
     rthen (lua_clean userZ now) (\<lambda>_.
     rthen (ZRANGE_from userZ (now + 1)) (\<lambda>actives.
     rthen (lua_keep userZ) (\<lambda>_. rret (LArr (map LStr actives)))))"

definition luaIsOnline :: "string \<Rightarrow> int \<Rightarrow> rscript" where
  "luaIsOnline userZ now =
     rthen (lua_clean userZ now) (\<lambda>_.
     rthen (ZCOUNT_from userZ (now + 1)) (\<lambda>cnt.
     rthen (lua_keep userZ) (\<lambda>_.
     rret (if 0 < cnt then LArr [LInt 1, LInt cnt] else LArr [LInt 0, LInt 0]))))"

definition luaGetNewestActive :: "string \<Rightarrow> int \<Rightarrow> rscript" where
  "luaGetNewestActive userZ now =
     rthen (lua_clean userZ now) (\<lambda>_.
     rthen (ZREVRANGE_from userZ (now + 1) 1) (\<lambda>items.
     rthen (lua_keep userZ) (\<lambda>_.
     rret (LStr (case items of [] \<Rightarrow> '''' | i # _ \<Rightarrow> i)))))"

definition luaHeartbeatAuth ::
  "string \<Rightarrow> string \<Rightarrow> int \<Rightarrow> int \<Rightarrow> int \<Rightarrow> int \<Rightarrow> string \<Rightarrow> int \<Rightarrow> int \<Rightarrow> int \<Rightarrow> rscript" where
  "luaHeartbeatAuth zUser kConn ttlSec nowUnix expAt useEXAT memberStr zUserTtl refreshIdx cleanExp =
     rthen (EXISTS kConn) (\<lambda>e.
     if e = 0 then rret (LInt 0) else
     rthen (if useEXAT = 1 then EXPIREAT kConn expAt else EXPIRE kConn ttlSec) (\<lambda>_.
     rthen (if cleanExp = 1 then ZREMRANGE_upto zUser nowUnix else rret ()) (\<lambda>_.
     rthen (ZADD zUser expAt memberStr) (\<lambda>_.
     rthen (if 0 < zUserTtl
            then if refreshIdx = 1 then rvoid (EXPIRE zUser zUserTtl)
                 else rthen (TTL zUser) (\<lambda>ttl. if ttl = - 1 then rvoid (EXPIRE zUser zUserTtl) else rret ())
            else rret ()) (\<lambda>_. rret (LInt 1))))))"

subsection \<open>Keys\<close>

definition unauthSessionKey :: "online_config \<Rightarrow> string \<Rightarrow> string" where
  "unauthSessionKey m snowID = (if oc_UseClusterTag m
     then ''n:{'' @ oc_NodeID m @ ''}:id:'' @ snowID else ''n:'' @ oc_NodeID m @ '':id:'' @ snowID)"

definition unauthIndexKey :: "online_config \<Rightarrow> string" where
  "unauthIndexKey m = (if oc_UseClusterTag m then ''nidxu:{'' @ oc_NodeID m @ ''}'' else ''nidxu:'' @ oc_NodeID m)"

definition sessionKey :: "online_config \<Rightarrow> string \<Rightarrow> string \<Rightarrow> string" where
  "sessionKey m userID snowID = (if oc_UseClusterTag m
     then ''n:{'' @ oc_NodeID m @ '':'' @ userID @ ''}:id:'' @ snowID
     else ''n:'' @ oc_NodeID m @ '':id:'' @ snowID @ '':u:'' @ userID)"

definition userIndexKey :: "online_config \<Rightarrow> string \<Rightarrow> string" where
  "userIndexKey m userID = (if oc_UseClusterTag m
     then ''nidx:{'' @ oc_NodeID m @ '':'' @ userID @ ''}'' else ''nidx:'' @ oc_NodeID m @ '':u:'' @ userID)"

subsection \<open>Times\<close>

text \<open>\<^verbatim>\<open>Time.Unix\<close>, whole seconds of a duration, and the seconds the client sends for one.\<close>

definition unix :: "time \<Rightarrow> int" where
  "unix t = t div second"

definition dur_seconds :: "duration \<Rightarrow> int" where
  "dur_seconds d = (if d < 0 then - ((- d) div second) else d div second)"

definition formatSec :: "duration \<Rightarrow> int" where
  "formatSec d = (if 0 < d \<and> d < second then 1 else dur_seconds d)"

definition boolToInt :: "bool \<Rightarrow> int" where
  "boolToInt b = (if b then 1 else 0)"

subsection \<open>Before the login\<close>

text \<open>A transaction replies with nothing the program reads.\<close>

definition run_pipe :: "'r redis \<Rightarrow> unit rcmd list \<Rightarrow> 'r \<Rightarrow> 'r \<times> unit go" where
  "run_pipe R cs r = (case rd_Run R (rthen (rpipe cs) (\<lambda>_. rret LNil)) r of
       (r', Ok _) \<Rightarrow> (r', Ok ()) | (r', Error e) \<Rightarrow> (r', Error e) | (r', Panic e) \<Rightarrow> (r', Panic e))"

text \<open>\<open>snowID\<close> is the id \<^verbatim>\<open>ids.GenerateString\<close> gives.\<close>

definition Connect :: "'r redis \<Rightarrow> online_config \<Rightarrow> time \<Rightarrow> string \<Rightarrow> 'r \<Rightarrow> 'r \<times> (string \<times> string) go" where
  "Connect R m now snowID r =
     (if oc_UnauthTTL m \<le> 0 then (r, Error ''UnauthTTL not configured'')
      else let sKey = unauthSessionKey m snowID; zKey = unauthIndexKey m; expAt = unix (now + oc_UnauthTTL m)
      in case run_pipe R
           ((if oc_UseEXAT m then [SET_cmd sKey ''1'', rvoid (PEXPIREAT sKey (expAt * 1000))]
             else [SET_EX sKey ''1'' (formatSec (oc_UnauthTTL m))]) @
            [ZADD zKey expAt sKey, rvoid (EXPIRE zKey (formatSec (oc_UnauthTTL m * 2)))]) r of
           (r', Ok _) \<Rightarrow> (r', Ok (sKey, snowID))
         | (r', Error e) \<Rightarrow> (r', Error e)
         | (r', Panic e) \<Rightarrow> (r', Panic e))"

definition HeartbeatUnauth :: "'r redis \<Rightarrow> online_config \<Rightarrow> time \<Rightarrow> string \<Rightarrow> 'r \<Rightarrow> 'r \<times> unit go" where
  "HeartbeatUnauth R m now snowID r =
     (if oc_UnauthTTL m \<le> 0 then (r, Ok ())
      else let sKey = unauthSessionKey m snowID; zKey = unauthIndexKey m; expAt = unix (now + oc_UnauthTTL m)
      in run_pipe R
           [if oc_UseEXAT m then rvoid (PEXPIREAT sKey (expAt * 1000)) else rvoid (EXPIRE sKey (formatSec (oc_UnauthTTL m))),
            ZADD zKey expAt sKey, rvoid (EXPIRE zKey (formatSec (oc_UnauthTTL m * 2)))] r)"

text \<open>A broadcast, whose result is ignored.\<close>

definition broadcast :: "'r redis \<Rightarrow> online_config \<Rightarrow> bool \<Rightarrow> string \<Rightarrow> 'r \<Rightarrow> 'r" where
  "broadcast R m publish payload r = (if publish then fst (rd_Publish R (oc_ChannelName m) payload r) else r)"

definition SweepUnauth :: "'r redis \<Rightarrow> online_config \<Rightarrow> time \<Rightarrow> bool \<Rightarrow> 'r \<Rightarrow> 'r \<times> string list go" where
  "SweepUnauth R m now publish r =
     (if oc_UnauthTTL m \<le> 0 then (r, Ok [])
      else let (r1, x) = rd_Run R (luaSweepUnauth (unauthIndexKey m) (unix now)) r
      in case reply_StringSlice x of
           Ok victims \<Rightarrow> (broadcast R m (publish \<and> 0 < length victims) (''UNAUTH_KICK:'' @ join '','' victims) r1, Ok victims)
         | Error e \<Rightarrow> (r1, Error e)
         | Panic e \<Rightarrow> (r1, Panic e))"

definition OfflineUnauth :: "'r redis \<Rightarrow> online_config \<Rightarrow> string \<Rightarrow> bool \<Rightarrow> string \<Rightarrow> 'r \<Rightarrow> 'r \<times> bool go" where
  "OfflineUnauth R m snowID publish reason r =
     (if oc_UnauthTTL m \<le> 0 then (r, Ok False)
      else let kUnauth = unauthSessionKey m snowID; (r1, x) = rd_Run R (luaOfflineUnauthOne (unauthIndexKey m) kUnauth) r
      in case reply_Int64 x of
           Ok rc \<Rightarrow> (broadcast R m (publish \<and> rc = 1) (''UNAUTH_OFFLINE:'' @ kUnauth @ '':'' @ reason) r1, Ok (rc = 1))
         | Error e \<Rightarrow> (r1, Error e)
         | Panic e \<Rightarrow> (r1, Panic e))"

subsection \<open>Logged in\<close>

text \<open>A \<^verbatim>\<open>*CodeError\<close>: message and code.\<close>

type_synonym code_error = "(string \<times> int) option"

definition ErrorRecordIsExist :: "string \<times> int" where
  "ErrorRecordIsExist = (''recordIsExist'', 2000)"

definition Authorize :: "'r redis \<Rightarrow> online_config \<Rightarrow> time \<Rightarrow> string \<Rightarrow> string \<Rightarrow> 'r \<Rightarrow> 'r \<times> (bool \<times> code_error) go" where
  "Authorize R m now userID snowID r =
     (if oc_UnauthTTL m \<le> 0 then (r, Ok (False, Some (''unauth stage disabled'', 100)))
      else let (r1, x) = rd_Run R (luaBindUser (unauthIndexKey m) (userIndexKey m userID)
             (unauthSessionKey m snowID) (sessionKey m userID snowID)
             (dur_seconds (oc_TTL m)) (unix now) (unix (now + oc_TTL m)) (boolToInt (oc_UseEXAT m))) r
      in case reply_Int64 x of
           Error e \<Rightarrow> (r1, Ok (False, Some (e, 101)))
         | Panic e \<Rightarrow> (r1, Panic e)
         | Ok rc \<Rightarrow> (r1, Ok (
             if rc = 1 then (True, None)
             else if rc = 0 then (False, None)
             else if rc = - 1 then (False, Some ErrorRecordIsExist)
             else (False, Some (''unexpected bind rc='' @ itoa rc, 102)))))"

definition HeartbeatAuthorized ::
  "'r redis \<Rightarrow> online_config \<Rightarrow> time \<Rightarrow> string \<Rightarrow> string \<Rightarrow> string \<Rightarrow> 'r \<Rightarrow> 'r \<times> (bool \<times> code_error) go" where
  "HeartbeatAuthorized R m now gatewayID userID snowID r =
     (let zUser = ''nidx:{'' @ gatewayID @ '':'' @ userID @ ''}'';
          kConn = ''n:{'' @ gatewayID @ '':'' @ userID @ ''}:id:'' @ snowID;
          zUserTTL = (if 0 < oc_UserIndexTTL m then dur_seconds (oc_UserIndexTTL m) else 0);
          (r1, x) = rd_Run R (luaHeartbeatAuth zUser kConn (dur_seconds (oc_TTL m)) (unix now) (unix (now + oc_TTL m))
             (boolToInt (oc_UseEXAT m)) kConn zUserTTL 1 1) r
      in case reply_Int64 x of
           Error e \<Rightarrow> (r1, Ok (False, Some (e, 201)))
         | Panic e \<Rightarrow> (r1, Panic e)
         | Ok rc \<Rightarrow> (r1, Ok (
             if rc = 1 then (True, None)
             else if rc = 0 then (False, None)
             else (False, Some (''unexpected hb rc='' @ itoa rc, 202)))))"

text \<open>\<^verbatim>\<open>strings.TrimSpace(s) == ""\<close>: only white space, in UTF-8.\<close>

fun all_space :: "string \<Rightarrow> bool" where
  "all_space [] \<longleftrightarrow> True"
| "all_space (a # s) \<longleftrightarrow>
     (if a \<in> {CHR 0x09, CHR 0x0A, CHR 0x0B, CHR 0x0C, CHR 0x0D, CHR '' ''} then all_space s
      else case s of
        b # s2 \<Rightarrow>
          if a = CHR 0xC2 \<and> b \<in> {CHR 0x85, CHR 0xA0} then all_space s2
          else (case s2 of
             c # s3 \<Rightarrow>
               (a, b, c) \<in> {(CHR 0xE1, CHR 0x9A, CHR 0x80), (CHR 0xE2, CHR 0x81, CHR 0x9F), (CHR 0xE3, CHR 0x80, CHR 0x80)} \<and> all_space s3
               \<or> a = CHR 0xE2 \<and> b = CHR 0x80 \<and>
                 (128 \<le> (of_char c :: nat) \<and> (of_char c :: nat) \<le> 138 \<or> c \<in> {CHR 0xA8, CHR 0xA9, CHR 0xAF}) \<and> all_space s3
           | [] \<Rightarrow> False)
      | [] \<Rightarrow> False)"

definition Offline :: "'r redis \<Rightarrow> online_config \<Rightarrow> string \<Rightarrow> string \<Rightarrow> bool \<Rightarrow> string \<Rightarrow> 'r \<Rightarrow> 'r \<times> bool go" where
  "Offline R m userID snowID publish reason r =
     (if all_space userID then OfflineUnauth R m snowID publish reason r
      else let kAuth = sessionKey m userID snowID; (r1, x) = rd_Run R (luaOfflineOne (userIndexKey m userID) kAuth) r
      in case reply_Int64 x of
           Ok rc \<Rightarrow> (broadcast R m (publish \<and> rc = 1) (''OFFLINE:'' @ kAuth @ '':'' @ reason) r1, Ok (rc = 1))
         | Error e \<Rightarrow> (r1, Error e)
         | Panic e \<Rightarrow> (r1, Panic e))"

definition ForceLogoutUser :: "'r redis \<Rightarrow> online_config \<Rightarrow> string \<Rightarrow> bool \<Rightarrow> string \<Rightarrow> 'r \<Rightarrow> 'r \<times> string list go" where
  "ForceLogoutUser R m userID publish reason r =
     (let (r1, x) = rd_Run R (luaLogoutAll (userIndexKey m userID)) r
      in case reply_StringSlice x of
           Ok keys \<Rightarrow> (broadcast R m (publish \<and> 0 < length keys)
                         (''FORCE_LOGOUT:'' @ userID @ '':'' @ reason @ '':'' @ join '','' keys) r1, Ok keys)
         | Error e \<Rightarrow> (r1, Error e)
         | Panic e \<Rightarrow> (r1, Panic e))"

definition SweepAuthedUser :: "'r redis \<Rightarrow> online_config \<Rightarrow> time \<Rightarrow> string \<Rightarrow> bool \<Rightarrow> 'r \<Rightarrow> 'r \<times> string list go" where
  "SweepAuthedUser R m now userID publish r =
     (let (r1, x) = rd_Run R (luaSweepAuthed (userIndexKey m userID) (unix now)) r
      in case reply_StringSlice x of
           Ok victims \<Rightarrow> (broadcast R m (publish \<and> 0 < length victims)
                         (''EXPIRE_CLEAN:'' @ userID @ '':'' @ join '','' victims) r1, Ok victims)
         | Error e \<Rightarrow> (r1, Error e)
         | Panic e \<Rightarrow> (r1, Panic e))"

subsection \<open>Queries\<close>

text \<open>A flag or a count in a reply, which may be an integer or, as a fall-back, a string.\<close>

definition reply_flag :: "rreply \<Rightarrow> int" where
  "reply_flag v = (case v of LInt i \<Rightarrow> i | LStr s \<Rightarrow> if s = ''1'' then 1 else 0 | _ \<Rightarrow> 0)"

definition reply_count :: "rreply \<Rightarrow> int" where
  "reply_count v = (case v of LInt i \<Rightarrow> i | LStr s \<Rightarrow> if s = ''0'' then 0 else 1 | _ \<Rightarrow> 0)"

definition IsOnline :: "'r redis \<Rightarrow> online_config \<Rightarrow> time \<Rightarrow> string \<Rightarrow> 'r \<Rightarrow> 'r \<times> (bool \<times> int) go" where
  "IsOnline R m now userID r =
     (let (r1, x) = rd_Run R (luaIsOnline (userIndexKey m userID) (unix now)) r
      in case reply_Slice x of
           Ok vals \<Rightarrow> (r1, Ok (if 2 \<le> length vals then (reply_flag (vals ! 0) = 1, reply_count (vals ! 1)) else (False, 0)))
         | Error e \<Rightarrow> (r1, Error e)
         | Panic e \<Rightarrow> (r1, Panic e))"

definition BatchListOnlineConnList :: "'r redis \<Rightarrow> string \<Rightarrow> 'r \<Rightarrow> string list go" where
  "BatchListOnlineConnList R userID r = rd_Scan R (''nidx:{*:'' @ userID @ ''}'') r"

definition index_byte :: "char \<Rightarrow> string \<Rightarrow> int" where
  "index_byte c s = (if c \<in> set s then int (length (takeWhile (\<lambda>x. x \<noteq> c) s)) else - 1)"

definition ExtractGateway :: "string \<Rightarrow> string" where
  "ExtractGateway key =
     (let start = index_byte CHR ''{'' key; stop = index_byte CHR ''}'' key
      in if start = - 1 \<or> stop = - 1 \<or> stop \<le> start + 1 then ''''
         else takeWhile (\<lambda>x. x \<noteq> CHR '':'') (take (nat (stop - (start + 1))) (drop (nat (start + 1)) key)))"

definition GetUserGateway :: "'r redis \<Rightarrow> string \<Rightarrow> 'r \<Rightarrow> string go" where
  "GetUserGateway R userID r =
     (case BatchListOnlineConnList R userID r of
        Panic e \<Rightarrow> Panic e
      | Error e \<Rightarrow> Error (''user '' @ userID @ '' has no gateway'')
      | Ok keys \<Rightarrow>
          if length keys = 0 then Error (''user '' @ userID @ '' has no gateway'')
          else let gateway = ExtractGateway (keys ! 0)
               in if gateway = '''' then Error (''user '' @ userID @ '' has no gateway'') else Ok gateway)"

definition GetActiveSessions :: "'r redis \<Rightarrow> online_config \<Rightarrow> time \<Rightarrow> string \<Rightarrow> 'r \<Rightarrow> 'r \<times> string list go" where
  "GetActiveSessions R m now userID r =
     (let (r1, x) = rd_Run R (luaGetActiveAndSweep (userIndexKey m userID) (unix now)) r
      in (r1, reply_StringSlice x))"

definition GetNewestSession :: "'r redis \<Rightarrow> online_config \<Rightarrow> time \<Rightarrow> string \<Rightarrow> 'r \<Rightarrow> 'r \<times> string go" where
  "GetNewestSession R m now userID r =
     (let (r1, x) = rd_Run R (luaGetNewestActive (userIndexKey m userID) (unix now)) r
      in case reply_Text x of
           Ok newest \<Rightarrow> (r1, Ok (if newest = '''' \<or> newest = ''(nil)'' then '''' else newest))
         | Error e \<Rightarrow> if e = ''redis: nil'' then (r1, Ok '''') else (r1, Error e)
         | Panic e \<Rightarrow> (r1, Panic e))"

subsection \<open>The older presence keys and queues\<close>

text \<open>
  \<^verbatim>\<open>redis_presence.go\<close> and \<^verbatim>\<open>redis_messages.go\<close>: one key per user with its gateway, and a
  list of messages for users that are offline, over a client that may not be initialised (\<open>None\<close>). The
  JSON form of a message is given by \<open>enc\<close> and read by \<open>dec\<close>.
\<close>

definition no_redis :: string where
  "no_redis = ''redis not initialized''"

text \<open>The client's \<^verbatim>\<open>Set\<close> with a time to live; \<open>-1\<close> keeps the one the key has.\<close>

definition client_Set :: "string \<Rightarrow> string \<Rightarrow> duration \<Rightarrow> unit rcmd" where
  "client_Set k v ttl =
     (if 0 < ttl then
        (if ttl mod second = 0 then SET_EX k v (ttl div second)
         else SET_PX k v (if ttl < millisecond then 1 else ttl div millisecond))
      else if ttl = - 1 then
        (\<lambda>db. (db\<lparr> rd_keys := AList.update k (RStr v, r_expiry k db) (rd_keys db) \<rparr>, Ok ()))
      else SET_cmd k v)"

definition run_unit :: "'r redis \<Rightarrow> unit rcmd \<Rightarrow> 'r \<Rightarrow> 'r \<times> unit go" where
  "run_unit R c r = run_pipe R [c] r"

definition presenceKey :: "string \<Rightarrow> string" where
  "presenceKey user = ''im:presence:'' @ user"

definition PresenceOnline :: "'r redis option \<Rightarrow> string \<Rightarrow> string \<Rightarrow> duration \<Rightarrow> 'r \<Rightarrow> 'r \<times> unit go" where
  "PresenceOnline rdb user gatewayID ttl r =
     (case rdb of None \<Rightarrow> (r, Error no_redis) | Some R \<Rightarrow> run_unit R (client_Set (presenceKey user) gatewayID ttl) r)"

definition PresenceOffline :: "'r redis option \<Rightarrow> string \<Rightarrow> 'r \<Rightarrow> 'r \<times> unit go" where
  "PresenceOffline rdb user r =
     (case rdb of None \<Rightarrow> (r, Error no_redis) | Some R \<Rightarrow> run_unit R (rvoid (DEL (presenceKey user))) r)"

definition PresenceLookup :: "'r redis option \<Rightarrow> string \<Rightarrow> 'r \<Rightarrow> 'r \<times> (string \<times> bool) go" where
  "PresenceLookup rdb user r =
     (case rdb of None \<Rightarrow> (r, Error no_redis)
      | Some R \<Rightarrow>
          (let (r1, x) = rd_Run R (rthen (GET_cmd (presenceKey user))
                 (\<lambda>v. rret (case v of None \<Rightarrow> LNil | Some s \<Rightarrow> LStr s))) r
           in case reply_Text x of
                Ok v \<Rightarrow> (r1, Ok (v, True))
              | Error e \<Rightarrow> if e = ''redis: nil'' then (r1, Ok ('''', False)) else (r1, Error e)
              | Panic e \<Rightarrow> (r1, Panic e)))"

definition DMKey :: "string \<Rightarrow> string \<Rightarrow> string" where
  "DMKey a b = (case (if a \<le> b then (a, b) else (b, a)) of (p, q) \<Rightarrow> ''im:dm:'' @ p @ '':'' @ q)"

definition AppendStream :: "'r redis option \<Rightarrow> string \<Rightarrow> (string \<times> string) list \<Rightarrow> 'r \<Rightarrow> 'r \<times> string go" where
  "AppendStream rdb stream flds r =
     (case rdb of None \<Rightarrow> (r, Error no_redis) | Some R \<Rightarrow> rd_XAdd R stream flds 100000 r)"

record offline_msg =
  om_From :: string
  om_Payload :: string

definition offlineKey :: "string \<Rightarrow> string" where
  "offlineKey user = ''im:offline:'' @ user"

definition EnqueueOffline ::
  "'r redis option \<Rightarrow> (offline_msg \<Rightarrow> string) \<Rightarrow> string \<Rightarrow> string \<Rightarrow> string \<Rightarrow> 'r \<Rightarrow> 'r \<times> unit go" where
  "EnqueueOffline rdb enc user from1 payload r =
     (case rdb of None \<Rightarrow> (r, Error no_redis)
      | Some R \<Rightarrow> run_pipe R
          [LPUSH (offlineKey user) (enc \<lparr> om_From = from1, om_Payload = payload \<rparr>),
           LTRIM (offlineKey user) 0 9999] r)"

definition FetchOffline ::
  "'r redis option \<Rightarrow> (string \<Rightarrow> offline_msg) \<Rightarrow> string \<Rightarrow> int \<Rightarrow> 'r \<Rightarrow> 'r \<times> offline_msg list go" where
  "FetchOffline rdb dec user n0 r =
     (case rdb of None \<Rightarrow> (r, Error no_redis)
      | Some R \<Rightarrow>
         (let n1 = (if n0 \<le> 0 then 100 else n0);
              (r1, x1) = rd_Run R (rthen (LLEN (offlineKey user)) (\<lambda>n. rret (LInt n))) r
          in case reply_Int64 x1 of
               Error e \<Rightarrow> (r1, Error e)
             | Panic e \<Rightarrow> (r1, Panic e)
             | Ok llen \<Rightarrow>
                if llen = 0 then (r1, Ok [])
                else
                 (let n = (if llen < n1 then llen else n1);
                      start = llen - n;
                      (r2, x2) = rd_Run R (rthen (LRANGE (offlineKey user) start (llen - 1)) (\<lambda>vs. rret (LArr (map LStr vs)))) r1
                  in case reply_StringSlice x2 of
                       Error e \<Rightarrow> (r2, Error e)
                     | Panic e \<Rightarrow> (r2, Panic e)
                     | Ok vals \<Rightarrow>
                        (case run_unit R (LTRIM (offlineKey user) 0 (start - 1)) r2 of
                           (r3, Ok _) \<Rightarrow> (r3, Ok (map dec vals))
                         | (r3, Error e) \<Rightarrow> (r3, Error e)
                         | (r3, Panic e) \<Rightarrow> (r3, Panic e)))))"

end
