(* ===== verification/GatewayControl.thy ===== *)
theory GatewayControl
  imports ConnManager Online
begin

section \<open>Deliveries from other servers\<close>

text \<open>
  The files of \<^verbatim>\<open>service/chat/\<close> and \<^verbatim>\<open>service/rpc/\<close> that carry frames between
  servers: the dispatcher of a gateway, its registry of local clients and the service other servers call,
  the fan-out to slow clients, the router that knows which gateway a user is on, and the client with its
  two watching loops. Connections, streams and dials are parameters.
\<close>

subsection \<open>The dispatcher\<close>

type_synonym 'h dispatcher = "(int, 'h) gomap"

definition NewDispatcher :: "'h dispatcher" where
  "NewDispatcher = []"

definition Dispatcher_Register :: "('h \<Rightarrow> int) \<Rightarrow> 'h \<Rightarrow> 'h dispatcher \<Rightarrow> 'h dispatcher" where
  "Dispatcher_Register typ h d = AList.update (typ h) h d"

definition Dispatcher_GetHandler :: "int \<Rightarrow> 'h dispatcher \<Rightarrow> 'h option" where
  "Dispatcher_GetHandler t d = map_of d t"

text \<open>
  \<open>handle\<close> is the method of the handler: what it does to the state and its error; \<open>type_name\<close> is the
  generated text of a frame type.
\<close>

definition Dispatcher_Dispatch ::
  "(int \<Rightarrow> string) \<Rightarrow> ('h \<Rightarrow> 'f \<Rightarrow> 's \<Rightarrow> 's \<times> unit go) \<Rightarrow> int \<Rightarrow> 'f \<Rightarrow> 'h dispatcher \<Rightarrow> 's \<Rightarrow> 's \<times> unit go" where
  "Dispatcher_Dispatch type_name handle t f d s =
     (case map_of d t of None \<Rightarrow> (s, Error (''no handler for type='' @ type_name t)) | Some h \<Rightarrow> handle h f s)"

text \<open>Every handler is started, in an order the map leaves open.\<close>

definition Dispatcher_Run :: "('h \<Rightarrow> 's \<Rightarrow> 's) \<Rightarrow> order \<Rightarrow> 'h dispatcher \<Rightarrow> 's \<Rightarrow> 's" where
  "Dispatcher_Run run o1 d s = fold (run \<circ> snd) (reorder o1 d) s"

subsection \<open>The registry of local clients\<close>

text \<open>A client is a pointer; its channel holds what was sent and not yet written.\<close>

record local_conn =
  lc_id :: string
  lc_snowId :: string
  lc_userId :: string
  lc_sessionId :: string
  lc_send :: "bytes list"
  lc_cap :: nat

record local_reg =
  lr_byUser :: "(string, (string, ptr) gomap) gomap"
  lr_byConn :: "(string, ptr) gomap"
  lr_heap :: "ptr \<Rightarrow> local_conn"

definition NewRegistry :: "(ptr \<Rightarrow> local_conn) \<Rightarrow> local_reg" where
  "NewRegistry h = \<lparr> lr_byUser = [], lr_byConn = [], lr_heap = h \<rparr>"

definition Registry_add :: "ptr \<Rightarrow> local_reg \<Rightarrow> local_reg" where
  "Registry_add p r =
     (let c = lr_heap r p; m = inner_map (lr_byUser r) (lc_sessionId c)
      in r\<lparr> lr_byUser := AList.update (lc_sessionId c) (AList.update (lc_id c) p m) (lr_byUser r),
            lr_byConn := AList.update (lc_id c) p (lr_byConn r) \<rparr>)"

text \<open>
  A map of the last client of a session is deleted under the client's \<^verbatim>\<open>snowId\<close>, not under the
  session it was stored with.
\<close>

definition Registry_remove :: "ptr \<Rightarrow> local_reg \<Rightarrow> local_reg" where
  "Registry_remove p r =
     (let c = lr_heap r p;
          bu = (case map_of (lr_byUser r) (lc_sessionId c) of
                  None \<Rightarrow> lr_byUser r
                | Some m \<Rightarrow>
                    (let m1 = AList.delete (lc_id c) m; bu1 = AList.update (lc_sessionId c) m1 (lr_byUser r)
                     in if length m1 = 0 then AList.delete (lc_snowId c) bu1 else bu1))
      in r\<lparr> lr_byUser := bu, lr_byConn := AList.delete (lc_id c) (lr_byConn r) \<rparr>)"

definition listByUser :: "order \<Rightarrow> string \<Rightarrow> local_reg \<Rightarrow> ptr list" where
  "listByUser o1 user r = map snd (reorder o1 (inner_map (lr_byUser r) user))"

definition getByConnID :: "string \<Rightarrow> local_reg \<Rightarrow> ptr option" where
  "getByConnID cid r = map_of (lr_byConn r) cid"

definition listAll :: "order \<Rightarrow> local_reg \<Rightarrow> ptr list" where
  "listAll o1 r = map snd (reorder o1 (lr_byConn r))"

subsection \<open>The service other servers call\<close>

text \<open>A send that does not wait: it fails when the channel is full.\<close>

definition try_send :: "ptr \<Rightarrow> bytes \<Rightarrow> local_reg \<Rightarrow> local_reg \<times> bool" where
  "try_send p d r =
     (let c = lr_heap r p
      in if length (lc_send c) < lc_cap c then (r\<lparr> lr_heap := (lr_heap r)(p := c\<lparr> lc_send := lc_send c @ [d] \<rparr>) \<rparr>, True)
         else (r, False))"

fun send_each :: "ptr list \<Rightarrow> bytes \<Rightarrow> local_reg \<Rightarrow> local_reg \<times> nat" where
  "send_each [] d r = (r, 0)"
| "send_each (p # ps) d r =
     (case try_send p d r of (r1, ok) \<Rightarrow> (case send_each ps d r1 of (r2, n) \<Rightarrow> (r2, (if ok then Suc n else n))))"

definition enqueueByUser :: "order \<Rightarrow> string \<Rightarrow> bytes \<Rightarrow> local_reg \<Rightarrow> local_reg \<times> nat" where
  "enqueueByUser o1 user d r = send_each (listByUser o1 user r) d r"

fun send_first :: "string \<Rightarrow> ptr list \<Rightarrow> bytes \<Rightarrow> local_reg \<Rightarrow> local_reg \<times> bool" where
  "send_first cid [] d r = (r, False)"
| "send_first cid (p # ps) d r = (if lc_id (lr_heap r p) = cid then try_send p d r else send_first cid ps d r)"

definition enqueueByConnID :: "order \<Rightarrow> string \<Rightarrow> bytes \<Rightarrow> local_reg \<Rightarrow> local_reg \<times> bool" where
  "enqueueByConnID o1 cid d r = send_first cid (listAll o1 r) d r"

record frame =
  fm_Type :: int
  fm_From :: string
  fm_To :: string
  fm_Payload :: bytes
  fm_GatewayId :: string
  fm_ConnId :: string
  fm_Ts :: int

abbreviation (input) F_DATA :: int where "F_DATA \<equiv> 0"
abbreviation (input) F_REGISTER :: int where "F_REGISTER \<equiv> 1"
abbreviation (input) F_UNREGISTER :: int where "F_UNREGISTER \<equiv> 2"
abbreviation (input) F_DELIVER :: int where "F_DELIVER \<equiv> 3"
abbreviation (input) F_PING :: int where "F_PING \<equiv> 4"

record send_reply =
  sr_Ok :: bool
  sr_Error :: string

text \<open>
  The frames handed to sockets, the answer and the registry. The type and the time the service fills in are
  not read again.
\<close>

definition MsgGatewayService_Send ::
  "ws_lib \<Rightarrow> order \<Rightarrow> order \<Rightarrow> frame \<Rightarrow> conn_manager \<Rightarrow> local_reg \<Rightarrow> (conn \<times> bytes) list \<times> local_reg \<times> send_reply go" where
  "MsgGatewayService_Send W o1 o2 f m r =
     (if fm_ConnId f \<noteq> '''' then
        (case enqueueByConnID o2 (fm_ConnId f) (fm_Payload f) r of
           (r1, ok) \<Rightarrow> ([], r1, Ok (if ok then \<lparr> sr_Ok = True, sr_Error = '''' \<rparr> else \<lparr> sr_Ok = False, sr_Error = ''conn_id not found'' \<rparr>)))
      else
        (case ConnManager_Send W o1 (fm_To f) (fm_Payload f @ ''1'') m of
           (out, Some e) \<Rightarrow> (out, r, Error e)
         | (out, None) \<Rightarrow>
             (case enqueueByUser o2 (fm_To f) (fm_Payload f) r of
                (r1, n) \<Rightarrow> (out, r1, Ok (if 0 < n then \<lparr> sr_Ok = True, sr_Error = '''' \<rparr>
                                         else \<lparr> sr_Ok = False, sr_Error = ''user not found'' \<rparr>)))))"

subsection \<open>Fan-out\<close>

text \<open>
  The queue of jobs and the channels of the clients. A job waits for room in the queue (\<open>None\<close>: the caller
  waits); a worker takes the oldest job and gives it to every client whose channel has room.
\<close>

record chat_client =
  cl_ConnID :: string
  cl_UserID :: string
  cl_Send :: "bytes list"
  cl_cap :: nat

record fanout =
  fo_jobs :: "(ptr list \<times> bytes) list"
  fo_queue :: nat
  fo_clients :: "ptr \<Rightarrow> chat_client"

definition NewFanout :: "nat \<Rightarrow> (ptr \<Rightarrow> chat_client) \<Rightarrow> fanout" where
  "NewFanout queue h = \<lparr> fo_jobs = [], fo_queue = queue, fo_clients = h \<rparr>"

definition Broadcast :: "ptr list \<Rightarrow> bytes \<Rightarrow> fanout \<Rightarrow> fanout option" where
  "Broadcast conns d f =
     (if length conns = 0 \<or> length d = 0 then Some f
      else if length (fo_jobs f) < fo_queue f then Some (f\<lparr> fo_jobs := fo_jobs f @ [(conns, d)] \<rparr>) else None)"

definition offer :: "bytes \<Rightarrow> ptr \<Rightarrow> (ptr \<Rightarrow> chat_client) \<Rightarrow> ptr \<Rightarrow> chat_client" where
  "offer d p h = (let c = h p in if length (cl_Send c) < cl_cap c then h(p := c\<lparr> cl_Send := cl_Send c @ [d] \<rparr>) else h)"

definition fanout_work :: "fanout \<Rightarrow> fanout" where
  "fanout_work f = (case fo_jobs f of [] \<Rightarrow> f
     | (conns, d) # js \<Rightarrow> f\<lparr> fo_jobs := js, fo_clients := fold (offer d) conns (fo_clients f) \<rparr>)"

subsection \<open>The router\<close>

text \<open>
  \<open>se\<close> is the stream a gateway connected with. \<open>send\<close> is the call of the client manager; \<^verbatim>\<open>Send\<close>
  of the generated client reports an error or nothing.
\<close>

record 'k router =
  ro_session :: "(string, string) gomap"
  ro_gateways :: "(string, nat) gomap"
  ro_client :: 'k

definition NewRouterService :: "'k \<Rightarrow> 'k router" where
  "NewRouterService k = \<lparr> ro_session = [], ro_gateways = [], ro_client = k \<rparr>"

definition registerGateway :: "string \<Rightarrow> nat \<Rightarrow> 'k router \<Rightarrow> 'k router" where
  "registerGateway gid se s = s\<lparr> ro_gateways := AList.update gid se (ro_gateways s) \<rparr>"

text \<open>\<^verbatim>\<open>base64.StdEncoding\<close>.\<close>

definition b64_char :: "nat \<Rightarrow> char" where
  "b64_char n = ''ABCDEFGHIJKLMNOPQRSTUVWXYZabcdefghijklmnopqrstuvwxyz0123456789+/'' ! n"

fun base64 :: "string \<Rightarrow> string" where
  "base64 [] = ''''"
| "base64 [a] = (let x = of_char a * 65536 in [b64_char (x div 262144), b64_char (x div 4096 mod 64)] @ ''=='')"
| "base64 [a, b] = (let x = of_char a * 65536 + of_char b * 256 in
     [b64_char (x div 262144), b64_char (x div 4096 mod 64), b64_char (x div 64 mod 64)] @ ''='')"
| "base64 (a # b # c # s) = (let x = of_char a * 65536 + of_char b * 256 + of_char c in
     [b64_char (x div 262144), b64_char (x div 4096 mod 64), b64_char (x div 64 mod 64), b64_char (x mod 64)] @ base64 s)"

definition handleDataFrame ::
  "'r redis option \<Rightarrow> (frame \<Rightarrow> 'k \<Rightarrow> 'k \<times> unit go) \<Rightarrow> int \<Rightarrow> frame \<Rightarrow> 'k router \<Rightarrow> 'r \<Rightarrow> 'k router \<times> 'r \<times> unit go" where
  "handleDataFrame R send now f s r =
     (case AppendStream R (DMKey (fm_From f) (fm_To f))
             [(''from'', fm_From f), (''to'', fm_To f), (''ts'', itoa (fm_Ts f)), (''payload_b64'', base64 (fm_Payload f))] r of
        (r1, Panic e) \<Rightarrow> (s, r1, Panic e)
      | (r1, _) \<Rightarrow>
          (let tgtGW = (case map_of (ro_session s) (fm_To f) of None \<Rightarrow> '''' | Some g \<Rightarrow> g); gws = map_of (ro_gateways s) tgtGW
           in if tgtGW = '''' \<or> gws = None then (s, r1, Ok ())
              else case send \<lparr> fm_Type = F_DELIVER, fm_From = fm_From f, fm_To = fm_To f, fm_Payload = fm_Payload f,
                              fm_GatewayId = '''', fm_ConnId = '''', fm_Ts = now \<rparr> (ro_client s) of
                     (k1, Panic e) \<Rightarrow> (s\<lparr> ro_client := k1 \<rparr>, r1, Panic e)
                   | (k1, _) \<Rightarrow> (s\<lparr> ro_client := k1 \<rparr>, r1, Ok ())))"

definition handleFrame ::
  "'r redis option \<Rightarrow> (frame \<Rightarrow> 'k \<Rightarrow> 'k \<times> unit go) \<Rightarrow> int \<Rightarrow> string \<Rightarrow> frame \<Rightarrow> 'k router \<Rightarrow> 'r \<Rightarrow> 'k router \<times> 'r \<times> unit go" where
  "handleFrame R send now gw f s r =
     (if fm_Type f = F_REGISTER then (s\<lparr> ro_session := AList.update (fm_From f) gw (ro_session s) \<rparr>, r, Ok ())
      else if fm_Type f = F_UNREGISTER then (s\<lparr> ro_session := AList.delete (fm_From f) (ro_session s) \<rparr>, r, Ok ())
      else if fm_Type f = F_DATA then handleDataFrame R send now f s r
      else (s, r, Ok ()))"

text \<open>
  The frames a stream delivers and how it ends (\<^verbatim>\<open>io.EOF\<close> is \<open>Ok\<close>); a gateway that does not name
  itself is named after the clock, by \<open>stamp\<close>. When a stream ends nothing is taken back.
\<close>

fun Gateway_loop ::
  "'r redis option \<Rightarrow> (frame \<Rightarrow> 'k \<Rightarrow> 'k \<times> unit go) \<Rightarrow> string \<Rightarrow> nat \<Rightarrow> string \<Rightarrow> (frame \<times> int) list \<Rightarrow> unit go
   \<Rightarrow> 'k router \<Rightarrow> 'r \<Rightarrow> 'k router \<times> 'r \<times> unit go" where
  "Gateway_loop R send stamp se gid [] ending s r = (s, r, ending)"
| "Gateway_loop R send stamp se gid ((f, now) # fs) ending s r =
     (let g1 = (if gid = '''' then (if fm_GatewayId f = '''' then ''unknown-'' @ stamp else fm_GatewayId f) else gid);
          s1 = (if gid = '''' then registerGateway g1 se s else s)
      in case handleFrame R send now g1 f s1 r of
           (s2, r2, Panic e) \<Rightarrow> (s2, r2, Panic e)
         | (s2, r2, _) \<Rightarrow> Gateway_loop R send stamp se g1 fs ending s2 r2)"

definition RouterService_Gateway ::
  "'r redis option \<Rightarrow> (frame \<Rightarrow> 'k \<Rightarrow> 'k \<times> unit go) \<Rightarrow> string \<Rightarrow> nat \<Rightarrow> (frame \<times> int) list \<Rightarrow> unit go
   \<Rightarrow> 'k router \<Rightarrow> 'r \<Rightarrow> 'k router \<times> 'r \<times> unit go" where
  "RouterService_Gateway R send stamp se fs ending s r = Gateway_loop R send stamp se '''' fs ending s r"

subsection \<open>The stream to the router\<close>

text \<open>
  The reader puts deliveries into the channel \<^verbatim>\<open>incoming\<close> and waits when it is full: what is in the channel
  and what is not read yet. The writer takes frames from the channel \<^verbatim>\<open>WsOutbound\<close> until a send fails:
  the stream, the frames left and the error, or \<open>None\<close> when it waits for the next frame; the channel is
  never closed.
\<close>

fun router_reader :: "nat \<Rightarrow> frame list \<Rightarrow> frame list \<Rightarrow> frame list \<times> frame list" where
  "router_reader room incoming [] = (incoming, [])"
| "router_reader room incoming (f # fs) =
     (if fm_Type f = F_DELIVER then (if length incoming < room then router_reader room (incoming @ [f]) fs else (incoming, f # fs))
      else router_reader room incoming fs)"

fun router_writer :: "(frame \<Rightarrow> 'st \<Rightarrow> 'st \<times> unit go) \<Rightarrow> string \<Rightarrow> frame list \<Rightarrow> 'st \<Rightarrow> 'st \<times> frame list \<times> unit go option" where
  "router_writer send gwID [] st = (st, [], None)"
| "router_writer send gwID (f # fs) st =
     (case send (f\<lparr> fm_GatewayId := gwID \<rparr>) st of
        (st1, Ok _) \<Rightarrow> router_writer send gwID fs st1
      | (st1, e) \<Rightarrow> (st1, fs, Some e))"

text \<open>\<open>dial\<close> makes the connection and the stream; the announcement's error is dropped.\<close>

definition loopRouter ::
  "('st \<Rightarrow> 'st \<times> unit go) \<Rightarrow> (frame \<Rightarrow> 'st \<Rightarrow> 'st \<times> unit go) \<Rightarrow> string \<Rightarrow> int \<Rightarrow> frame list \<Rightarrow> 'st \<Rightarrow> 'st \<times> frame list \<times> unit go option" where
  "loopRouter dial send gwID now out st =
     (case dial st of
        (st1, Ok _) \<Rightarrow>
          router_writer send gwID out (fst (send \<lparr> fm_Type = F_PING, fm_From = '''', fm_To = '''', fm_Payload = '''',
            fm_GatewayId = gwID, fm_ConnId = '''', fm_Ts = now \<rparr> st1))
      | (st1, e) \<Rightarrow> (st1, out, Some e))"

text \<open>The sleeps of \<^verbatim>\<open>RunToRouter\<close>: the one of now and the next.\<close>

definition retry_next :: "duration \<Rightarrow> duration" where
  "retry_next retry = (if retry < 5 * second then retry * 2 else retry)"

text \<open>The rounds that failed one after another: how long each is slept after.\<close>

fun retry_sleeps :: "nat \<Rightarrow> duration \<Rightarrow> duration list" where
  "retry_sleeps 0 retry = []"
| "retry_sleeps (Suc n) retry = retry # retry_sleeps n (retry_next retry)"

lemma retry_sleeps_end: "retry_sleeps n (8 * second) = replicate n (8 * second)"
  by (induction n) (simp_all add: retry_next_def second_def)

text \<open>The sleeps are 1, 2, 4 and then 8 seconds, and stay 8 seconds however long a stream lasted in between.\<close>

theorem retry_sleeps_are: "retry_sleeps (3 + n) second = [second, 2 * second, 4 * second] @ replicate n (8 * second)"
  using retry_sleeps_end[of n] by (simp add: numeral_eq_Suc retry_next_def second_def)

text \<open>The frame whose send fails is gone: it is neither sent nor left in the channel.\<close>

theorem failed_frame_is_lost:
  "send (f\<lparr> fm_GatewayId := gw \<rparr>) st = (st1, Error e) \<Longrightarrow> router_writer send gw (f # fs) st = (st1, fs, Some (Error e))"
  by simp

text \<open>Nobody takes from \<^verbatim>\<open>incoming\<close>: after as many deliveries as it holds the reader waits for ever.\<close>

theorem reader_stops_at_full:
  "list_all (\<lambda>f. fm_Type f = F_DELIVER) fs \<Longrightarrow> length q \<le> room \<Longrightarrow>
   router_reader room q fs = (q @ take (room - length q) fs, drop (room - length q) fs)"
proof (induction fs arbitrary: q)
  case (Cons f fs)
  show ?case
  proof (cases "length q < room")
    case True
    then obtain k where k: "room - length q = Suc k" by (metis Suc_diff_Suc)
    then have "room - length (q @ [f]) = k" by simp
    with Cons.IH[of "q @ [f]"] Cons.prems True k show ?thesis by simp
  next
    case False
    then have "room - length q = 0" by simp
    with Cons.prems False show ?thesis by simp
  qed
qed simp

end
