(* ===== verification/ControlProps.thy ===== *)
theory ControlProps
  imports ConnProps GatewayControl
begin

section \<open>What other servers are told\<close>

text \<open>
  Nothing in the program adds a client to the registry the gateway service looks into, so the service answers
  that a user is not there while the connection manager delivers to every connection of the user; the router
  looks up the gateway of a user but sends every frame to the one server its client is connected to.
\<close>

lemma writeBinary_data: "x \<in> set (fst (writeBinary W c d)) \<Longrightarrow> snd x = d"
  by (auto simp: writeBinary_def split: option.splits)

lemma write_all_data: "x \<in> set (fst (write_all W h d xs le)) \<Longrightarrow> snd x = d"
proof (induction xs arbitrary: le)
  case (Cons a xs)
  then show ?case using writeBinary_data[of x]
    by (cases a) (auto simp: Let_def split: prod.splits dest!: arg_cong[where f = fst])
qed simp

lemma ConnManager_Send_data:
  assumes "ConnManager_Send W o1 user d m = (out, err)" "x \<in> set out"
  shows "snd x = d"
proof -
  let ?w = "write_all W (cm_heap m) d (reorder o1 (user_conns m user)) None"
  let ?b = "writeBinary W (case map_of (cm_conns m) user of None \<Rightarrow> None | Some c \<Rightarrow> c) d"
  have "out = fst ?w \<or> out = fst ?w @ fst ?b"
    using assms(1) by (auto simp: ConnManager_Send_def Let_def split: prod.splits if_splits)
  with assms(2) show ?thesis using write_all_data writeBinary_data by (metis Un_iff set_append)
qed

text \<open>C15: a delivery that reached every connection of the user is answered with \<open>user not found\<close>. While no
  client is in the registry, the answer to a frame that all sockets took is that the user is not there; and
  the frames they took have a byte more than the one that was sent, the character 1.\<close>
theorem delivery_is_denied:
  assumes "fm_ConnId f = ''''" and "ConnManager_Send W o1 (fm_To f) (fm_Payload f @ ''1'') m = (out, None)"
  shows "MsgGatewayService_Send W o1 o2 f m (NewRegistry h)
      = (out, NewRegistry h, Ok \<lparr> sr_Ok = False, sr_Error = ''user not found'' \<rparr>)
    \<and> list_all (\<lambda>x. snd x = fm_Payload f @ ''1'') out"
  using assms ConnManager_Send_data[OF assms(2)]
  by (simp add: MsgGatewayService_Send_def enqueueByUser_def listByUser_def NewRegistry_def inner_map_def list_all_iff)

text \<open>And no frame for a single connection is ever taken.\<close>

theorem connection_is_not_found:
  "fm_ConnId f \<noteq> '''' \<Longrightarrow>
   MsgGatewayService_Send W o1 o2 f m (NewRegistry h) = ([], NewRegistry h, Ok \<lparr> sr_Ok = False, sr_Error = ''conn_id not found'' \<rparr>)"
  by (simp add: MsgGatewayService_Send_def enqueueByConnID_def listAll_def NewRegistry_def)

text \<open>Removing the last client of a session deletes the index of another session, the one that has the client's snow id.\<close>

definition two_clients :: local_reg where
  "two_clients = fold Registry_add [0, 1] (NewRegistry ((\<lambda>_. \<lparr> lc_id = ''x'', lc_snowId = ''B'', lc_userId = ''u'', lc_sessionId = ''A'',
     lc_send = [], lc_cap = 1 \<rparr>)(1 := \<lparr> lc_id = ''y'', lc_snowId = ''C'', lc_userId = ''v'', lc_sessionId = ''B'', lc_send = [], lc_cap = 1 \<rparr>)))"

theorem remove_takes_another_session:
  "listByUser [] ''B'' two_clients = [1] \<and> listByUser [] ''B'' (Registry_remove 0 two_clients) = []
    \<and> getByConnID ''y'' (Registry_remove 0 two_clients) = Some 1 \<and> map_of (lr_byUser (Registry_remove 0 two_clients)) ''A'' = Some []"
  by code_simp

text \<open>The router does not route. To whichever of the connected gateways a user registered, a frame for the user
  is handed to the one server the client is connected to, with nothing that names the gateway.\<close>
theorem router_ignores_the_gateway:
  assumes "g \<noteq> ''''" and "g' \<noteq> ''''" and "map_of (ro_gateways s) g \<noteq> None" and "map_of (ro_gateways s) g' \<noteq> None"
  shows "ro_client (fst (handleDataFrame R send now f (s\<lparr> ro_session := AList.update (fm_To f) g (ro_session s) \<rparr>) r))
    = ro_client (fst (handleDataFrame R send now f (s\<lparr> ro_session := AList.update (fm_To f) g' (ro_session s) \<rparr>) r))"
  using assms by (auto simp: handleDataFrame_def Let_def split: prod.splits go.splits)

text \<open>
  A worker gives a client the payload once for every time the job names it, as far as its channel has room;
  what finds no room is dropped.
\<close>

lemma fold_offer:
  "cl_Send (fold (offer d) ps h p) = cl_Send (h p) @ replicate (min (count_list ps p) (cl_cap (h p) - length (cl_Send (h p)))) d
   \<and> cl_cap (fold (offer d) ps h p) = cl_cap (h p)"
proof (induction ps arbitrary: h)
  case (Cons q ps)
  show ?case
  proof (cases "q = p \<and> length (cl_Send (h p)) < cl_cap (h p)")
    case True
    then obtain k where k: "cl_cap (h p) - length (cl_Send (h p)) = Suc k" by (metis Suc_pred zero_less_diff)
    then have k2: "cl_cap (h p) - Suc (length (cl_Send (h p))) = k" by simp
    have "offer d q h p = (h p)\<lparr> cl_Send := cl_Send (h p) @ [d] \<rparr>" using True by (simp add: offer_def Let_def)
    with True k k2 show ?thesis using Cons[of "offer d q h"] by simp
  next
    case False
    then have "offer d q h p = h p" by (auto simp: offer_def Let_def)
    with False show ?thesis using Cons[of "offer d q h"] by (cases "q = p") simp_all
  qed
qed simp

theorem fanout_offers_once:
  assumes "fo_jobs f = (conns, d) # js"
  shows "cl_Send (fo_clients (fanout_work f) p) = cl_Send (fo_clients f p)
      @ replicate (min (count_list conns p) (cl_cap (fo_clients f p) - length (cl_Send (fo_clients f p)))) d"
  using assms fold_offer by (simp add: fanout_work_def)

definition no_clients :: "ptr \<Rightarrow> local_conn" where
  "no_clients = (\<lambda>_. \<lparr> lc_id = '''', lc_snowId = '''', lc_userId = '''', lc_sessionId = '''', lc_send = [], lc_cap = 0 \<rparr>)"

definition no_streams :: mem_rd where
  "no_streams = \<lparr> mr_db = \<lparr> rd_now = 0, rd_keys = [] \<rparr>, mr_published = [] \<rparr>"

theorem delivery_is_denied_witness:
  "snd (snd (MsgGatewayService_Send demo_ws [] [] \<lparr> fm_Type = 0, fm_From = ''alice'', fm_To = ''bob'', fm_Payload = ''hi'',
      fm_GatewayId = '''', fm_ConnId = '''', fm_Ts = 0 \<rparr> demo_two (NewRegistry no_clients)))
    = Ok \<lparr> sr_Ok = False, sr_Error = ''user not found'' \<rparr>"
proof -
  have "snd (ConnManager_Send demo_ws [] ''bob'' ''hi1'' demo_two) = None" by code_simp
  then obtain out where "ConnManager_Send demo_ws [] ''bob'' ''hi1'' demo_two = (out, None)" by (metis prod.collapse)
  with delivery_is_denied[of "\<lparr> fm_Type = 0, fm_From = ''alice'', fm_To = ''bob'', fm_Payload = ''hi'',
      fm_GatewayId = '''', fm_ConnId = '''', fm_Ts = 0 \<rparr>" demo_ws "[]" demo_two out "[]" no_clients] show ?thesis by simp
qed

theorem router_ignores_the_gateway_witness:
  "ro_client (fst (handleDataFrame (Some mem_redis) (\<lambda>f k. (k @ [f], Ok ())) 5 \<lparr> fm_Type = 0, fm_From = ''alice'', fm_To = ''bob'',
      fm_Payload = ''hi'', fm_GatewayId = ''gwA'', fm_ConnId = '''', fm_Ts = 0 \<rparr>
      \<lparr> ro_session = [(''bob'', ''gwA'')], ro_gateways = [(''gwA'', 0), (''gwB'', 1)], ro_client = [] \<rparr> no_streams))
   = ro_client (fst (handleDataFrame (Some mem_redis) (\<lambda>f k. (k @ [f], Ok ())) 5 \<lparr> fm_Type = 0, fm_From = ''alice'', fm_To = ''bob'',
      fm_Payload = ''hi'', fm_GatewayId = ''gwA'', fm_ConnId = '''', fm_Ts = 0 \<rparr>
      \<lparr> ro_session = [(''bob'', ''gwB'')], ro_gateways = [(''gwA'', 0), (''gwB'', 1)], ro_client = [] \<rparr> no_streams))"
  using router_ignores_the_gateway[of "''gwA''" "''gwB''" "\<lparr> ro_session = [], ro_gateways = [(''gwA'', 0), (''gwB'', 1)], ro_client = [] \<rparr>"
      "Some mem_redis" "\<lambda>f k. (k @ [f], Ok ())" 5 "\<lparr> fm_Type = 0, fm_From = ''alice'', fm_To = ''bob'',
      fm_Payload = ''hi'', fm_GatewayId = ''gwA'', fm_ConnId = '''', fm_Ts = 0 \<rparr>" no_streams] by simp

end
