(* ===== verification/RpcClient.thy ===== *)
theory RpcClient
  imports Prelude
begin

section \<open>The client of another server and its watchers\<close>

text \<open>
  \<^verbatim>\<open>service/rpc/client_manager.go\<close>: a goroutine dials and then starts a loop that checks the
  server's health and a loop that pings it; a loop that sees a failure closes the connection, starts the
  dialling again and ends. Connections are numbered; what the dial, the checks and the pings answer is the
  choice of the step.
\<close>

subsection \<open>The manager\<close>

text \<open>
  \<open>rp_runs\<close> goroutines are before the look at the stop channel, \<open>rp_dialing\<close> after it; \<open>rp_born\<close> health
  loops have not read the connection yet, the others keep the one they read, which may be nil; \<open>rp_pings\<close> ping
  loops wait, \<open>rp_pinging\<close> have read a client and send. \<open>rp_dials\<close> counts the connections made, which are numbered by
  it, \<open>rp_closed\<close> lists those that were closed. A nil pointer in a goroutine ends the program: \<open>rp_crashed\<close>.
\<close>

record rpc_manager =
  rp_conn :: "nat option"
  rp_client :: "nat option"
  rp_healthy :: bool
  rp_started :: bool
  rp_stopped :: bool
  rp_runs :: nat
  rp_dialing :: nat
  rp_born :: nat
  rp_health :: "nat option list"
  rp_pings :: nat
  rp_pinging :: nat
  rp_closed :: "nat list"
  rp_dials :: nat
  rp_crashed :: bool

definition rpc_NewManager :: rpc_manager where
  "rpc_NewManager = \<lparr> rp_conn = None, rp_client = None, rp_healthy = False, rp_started = False, rp_stopped = False,
     rp_runs = 0, rp_dialing = 0, rp_born = 0, rp_health = [], rp_pings = 0, rp_pinging = 0, rp_closed = [], rp_dials = 0,
     rp_crashed = False \<rparr>"

definition rpc_Start :: "rpc_manager \<Rightarrow> rpc_manager" where
  "rpc_Start m = (if rp_started m then m else m\<lparr> rp_started := True, rp_runs := Suc (rp_runs m) \<rparr>)"

definition close_conn :: "rpc_manager \<Rightarrow> rpc_manager" where
  "close_conn m = (case rp_conn m of None \<Rightarrow> m | Some c \<Rightarrow> m\<lparr> rp_closed := c # rp_closed m \<rparr>)"

definition rpc_connect :: "rpc_manager \<Rightarrow> rpc_manager" where
  "rpc_connect m = m\<lparr> rp_conn := Some (rp_dials m), rp_client := Some (rp_dials m), rp_healthy := True, rp_dials := Suc (rp_dials m) \<rparr>"

definition rpc_reconnect :: "rpc_manager \<Rightarrow> rpc_manager" where
  "rpc_reconnect m = (close_conn m)\<lparr> rp_conn := None, rp_client := None, rp_healthy := False, rp_runs := Suc (rp_runs m) \<rparr>"

definition rpc_Stop :: "rpc_manager \<Rightarrow> rpc_manager \<times> unit go" where
  "rpc_Stop m = (if rp_stopped m then (m, Panic ''close of closed channel'')
     else ((close_conn m)\<lparr> rp_stopped := True, rp_conn := None, rp_client := None \<rparr>, Ok ()))"

text \<open>\<open>call\<close> is the call of the generated client over a connection.\<close>

definition rpc_Send :: "(nat \<Rightarrow> 'f \<Rightarrow> unit go) \<Rightarrow> 'f \<Rightarrow> rpc_manager \<Rightarrow> unit go" where
  "rpc_Send call f m = (case rp_client m of None \<Rightarrow> Error ''rpc error: code = Canceled desc = grpc: the client connection is closing'' | Some c \<Rightarrow> call c f)"

subsection \<open>Steps of the goroutines\<close>

text \<open>A health loop that has read a nil connection calls a method of it at its first tick.\<close>

inductive rpc_step :: "rpc_manager \<Rightarrow> rpc_manager \<Rightarrow> bool" where
  start: "rpc_step m (rpc_Start m)"
| stop: "rpc_Stop m = (m', Ok ()) \<Longrightarrow> rpc_step m m'"
| run_end: "rp_runs m = Suc n \<Longrightarrow> rp_stopped m \<Longrightarrow> rpc_step m (m\<lparr> rp_runs := n \<rparr>)"
| run_dial: "rp_runs m = Suc n \<Longrightarrow> \<not> rp_stopped m \<Longrightarrow> rpc_step m (m\<lparr> rp_runs := n, rp_dialing := Suc (rp_dialing m) \<rparr>)"
| dial_fails: "rp_dialing m = Suc n \<Longrightarrow> rpc_step m (m\<lparr> rp_dialing := n, rp_runs := Suc (rp_runs m) \<rparr>)"
| dial_done: "rp_dialing m = Suc n \<Longrightarrow>
    rpc_step m ((rpc_connect m)\<lparr> rp_dialing := n, rp_born := Suc (rp_born m), rp_pings := Suc (rp_pings m) \<rparr>)"
| health_begins: "rp_born m = Suc n \<Longrightarrow> rpc_step m (m\<lparr> rp_born := n, rp_health := rp_health m @ [rp_conn m] \<rparr>)"
| health_fails: "rp_health m = hs @ Some c # hs' \<Longrightarrow> rpc_step m ((rpc_reconnect m)\<lparr> rp_health := hs @ hs' \<rparr>)"
| health_panics: "rp_health m = hs @ None # hs' \<Longrightarrow> rpc_step m (m\<lparr> rp_crashed := True \<rparr>)"
| health_ends: "rp_health m = hs @ h # hs' \<Longrightarrow> rp_stopped m \<Longrightarrow> rpc_step m (m\<lparr> rp_health := hs @ hs' \<rparr>)"
| ping_sends: "rp_pings m = Suc n \<Longrightarrow> rp_client m = Some c \<Longrightarrow> rpc_step m (m\<lparr> rp_pings := n, rp_pinging := Suc (rp_pinging m) \<rparr>)"
| ping_done: "rp_pinging m = Suc n \<Longrightarrow> rpc_step m (m\<lparr> rp_pinging := n, rp_pings := Suc (rp_pings m) \<rparr>)"
| ping_fails: "rp_pinging m = Suc n \<Longrightarrow> rpc_step m ((rpc_reconnect m)\<lparr> rp_pinging := n \<rparr>)"
| ping_ends: "rp_pings m = Suc n \<Longrightarrow> rp_stopped m \<Longrightarrow> rpc_step m (m\<lparr> rp_pings := n \<rparr>)"

text \<open>Nothing runs after the program has ended.\<close>

inductive rpc_reach :: "rpc_manager \<Rightarrow> bool" where
  fresh_manager: "rpc_reach rpc_NewManager"
| one_step: "rpc_reach m \<Longrightarrow> \<not> rp_crashed m \<Longrightarrow> rpc_step m m' \<Longrightarrow> rpc_reach m'"

subsection \<open>What the steps keep\<close>

definition rpc_loops :: "rpc_manager \<Rightarrow> nat" where
  "rpc_loops m = rp_born m + length (rp_health m) + rp_pings m + rp_pinging m"

definition rpc_inv :: "rpc_manager \<Rightarrow> bool" where
  "rpc_inv m \<longleftrightarrow> rp_client m = rp_conn m \<and> distinct (rp_closed m) \<and> (\<forall>c \<in> set (rp_closed m). c < rp_dials m)
    \<and> (\<forall>c. rp_conn m = Some c \<longrightarrow> c < rp_dials m \<and> c \<notin> set (rp_closed m))
    \<and> (rp_stopped m \<or> rpc_loops m + rp_runs m + rp_dialing m = (if rp_started m then 1 else 0) + rp_dials m)"

lemma rpc_field_simps:
  "rp_conn (close_conn m) = rp_conn m" "rp_client (close_conn m) = rp_client m" "rp_started (close_conn m) = rp_started m"
  "rp_stopped (close_conn m) = rp_stopped m" "rp_runs (close_conn m) = rp_runs m" "rp_dialing (close_conn m) = rp_dialing m"
  "rp_born (close_conn m) = rp_born m" "rp_health (close_conn m) = rp_health m" "rp_pings (close_conn m) = rp_pings m"
  "rp_pinging (close_conn m) = rp_pinging m" "rp_dials (close_conn m) = rp_dials m" "rp_healthy (close_conn m) = rp_healthy m"
  "rp_crashed (close_conn m) = rp_crashed m"
  "rp_closed (close_conn m) = (case rp_conn m of None \<Rightarrow> rp_closed m | Some c \<Rightarrow> c # rp_closed m)"
  by (simp_all add: close_conn_def split: option.split)

lemmas rpc_defs = rpc_NewManager_def rpc_Start_def rpc_connect_def rpc_reconnect_def rpc_field_simps rpc_loops_def

lemma rpc_step_inv: "rpc_step m m' \<Longrightarrow> rpc_inv m \<Longrightarrow> rpc_inv m'"
proof (induction rule: rpc_step.induct)
  case (stop m m')
  then show ?case by (auto simp: rpc_Stop_def rpc_inv_def rpc_defs split: if_splits option.splits)
qed (auto simp: rpc_inv_def rpc_defs split: option.splits)

lemma rpc_reach_inv: "rpc_reach m \<Longrightarrow> rpc_inv m"
proof (induction rule: rpc_reach.induct)
  case fresh_manager
  then show ?case by (simp add: rpc_inv_def rpc_defs)
next
  case (one_step m m')
  then show ?case using rpc_step_inv by blast
qed

text \<open>C16: every connection leaves a loop behind. In a manager that was started and not stopped, the loops that watch
  and the goroutines that dial are together one more than the connections ever made, of which only one is in use: a
  failure ends one of the two loops of a connection, and the dialling it starts ends with two new ones. A connection
  is closed at most once, and the one in use is not closed.\<close>
theorem rpc_loops_pile_up:
  assumes "rpc_reach m" and "rp_started m" and "\<not> rp_stopped m"
  shows "rpc_loops m + rp_runs m + rp_dialing m = 1 + rp_dials m
    \<and> distinct (rp_closed m) \<and> (\<forall>c \<in> set (rp_closed m). c < rp_dials m \<and> rp_conn m \<noteq> Some c)"
  using rpc_reach_inv[OF assms(1)] assms(2,3) by (auto simp: rpc_inv_def)

subsection \<open>What can happen\<close>

text \<open>A manager whose first connection is watched by a health loop and by a ping that is being sent.\<close>

definition rpc_first :: "rpc_manager" where
  "rpc_first = rpc_NewManager\<lparr> rp_started := True, rp_dialing := 1 \<rparr>"

lemma rpc_first_reach: "rpc_reach rpc_first"
proof -
  have "rpc_reach (rpc_Start rpc_NewManager)" by (rule one_step[OF fresh_manager _ start]) (simp add: rpc_defs)
  from one_step[OF this _ run_dial[of _ 0]] show ?thesis by (simp add: rpc_defs rpc_first_def)
qed

definition rpc_watched :: "rpc_manager" where
  "rpc_watched = rpc_first\<lparr> rp_conn := Some 0, rp_client := Some 0, rp_healthy := True, rp_dials := 1, rp_dialing := 0,
     rp_born := 1, rp_pinging := 1 \<rparr>"

lemma rpc_watched_reach: "rpc_reach rpc_watched"
proof -
  have "rpc_reach ((rpc_connect rpc_first)\<lparr> rp_dialing := 0, rp_born := 1, rp_pings := 1 \<rparr>)"
    using one_step[OF rpc_first_reach _ dial_done[of _ 0]] by (simp add: rpc_defs rpc_first_def)
  from one_step[OF this _ ping_sends[of _ 0 0]] show ?thesis by (simp add: rpc_defs rpc_first_def rpc_watched_def)
qed

text \<open>A ping that fails before the health loop of the connection has begun ends the program: the loop reads the nil
  connection.\<close>

theorem rpc_nil_connection_ends_program: "\<exists>m. rpc_reach m \<and> \<not> rp_stopped m \<and> rp_crashed m"
proof -
  let ?m1 = "(rpc_reconnect rpc_watched)\<lparr> rp_pinging := 0 \<rparr>"
  let ?m2 = "?m1\<lparr> rp_born := 0, rp_health := [None] \<rparr>"
  have "rpc_reach ?m1"
    by (rule one_step[OF rpc_watched_reach _ ping_fails]) (simp_all add: rpc_defs rpc_first_def rpc_watched_def)
  from one_step[OF this _ health_begins[of _ 0]] have "rpc_reach ?m2" by (simp add: rpc_defs rpc_first_def rpc_watched_def)
  from one_step[OF this _ health_panics[of _ "[]" "[]"]] have "rpc_reach (?m2\<lparr> rp_crashed := True \<rparr>)"
    by (simp add: rpc_defs rpc_first_def rpc_watched_def)
  moreover have "\<not> rp_stopped (?m2\<lparr> rp_crashed := True \<rparr>)" by (simp add: rpc_defs rpc_first_def rpc_watched_def)
  ultimately show ?thesis by (intro exI[of _ "?m2\<lparr> rp_crashed := True \<rparr>"]) simp
qed

text \<open>Both loops of a connection see it fail: two goroutines dial, the second connection replaces the first, which
  nobody uses or closes any more.\<close>

theorem rpc_connection_leaks:
  "\<exists>m. rpc_reach m \<and> \<not> rp_stopped m \<and> \<not> rp_crashed m \<and> rp_dialing m + rp_runs m = 0
     \<and> (\<exists>c < rp_dials m. c \<notin> set (rp_closed m) \<and> rp_conn m \<noteq> Some c)"
proof -
  let ?m0 = "rpc_watched\<lparr> rp_born := 0, rp_health := [Some 0] \<rparr>"
  let ?m1 = "(rpc_reconnect ?m0)\<lparr> rp_health := [] \<rparr>"
  let ?m2 = "(rpc_reconnect ?m1)\<lparr> rp_pinging := 0 \<rparr>"
  let ?m3 = "?m2\<lparr> rp_runs := 1, rp_dialing := 1 \<rparr>"
  let ?m4 = "?m3\<lparr> rp_runs := 0, rp_dialing := 2 \<rparr>"
  let ?m5 = "(rpc_connect ?m4)\<lparr> rp_dialing := 1, rp_born := 1, rp_pings := 1 \<rparr>"
  let ?m6 = "(rpc_connect ?m5)\<lparr> rp_dialing := 0, rp_born := 2, rp_pings := 2 \<rparr>"
  note d = rpc_defs rpc_first_def rpc_watched_def
  from one_step[OF rpc_watched_reach _ health_begins[of _ 0]] have "rpc_reach ?m0" by (simp add: d)
  from one_step[OF this _ health_fails[of _ "[]" 0 "[]"]] have "rpc_reach ?m1" by (simp add: d)
  from one_step[OF this _ ping_fails[of _ 0]] have "rpc_reach ?m2" by (simp add: d)
  from one_step[OF this _ run_dial[of _ 1]] have "rpc_reach ?m3" by (simp add: d)
  from one_step[OF this _ run_dial[of _ 0]] have "rpc_reach ?m4" by (simp add: d numeral_2_eq_2)
  from one_step[OF this _ dial_done[of _ 1]] have "rpc_reach ?m5" by (simp add: d numeral_2_eq_2)
  from one_step[OF this _ dial_done[of _ 0]] have "rpc_reach ?m6" by (simp add: d numeral_2_eq_2)
  moreover have "\<not> rp_stopped ?m6 \<and> \<not> rp_crashed ?m6 \<and> rp_dialing ?m6 + rp_runs ?m6 = 0
    \<and> (\<exists>c < rp_dials ?m6. c \<notin> set (rp_closed ?m6) \<and> rp_conn ?m6 \<noteq> Some c)"
    by (simp add: d) (rule exI[of _ 1], simp)
  ultimately show ?thesis by blast
qed

text \<open>A manager that was stopped can be connected again: a dial that was under way when it stopped sets the
  connection, which nobody closes.\<close>
theorem rpc_connected_after_stop:
  "\<exists>m. rpc_reach m \<and> rp_stopped m \<and> rp_conn m \<noteq> None \<and> rp_closed m = [] \<and> rpc_Send (\<lambda>c f. Ok ()) () m = Ok ()"
proof -
  let ?m3 = "fst (rpc_Stop rpc_first)"
  let ?m4 = "(rpc_connect ?m3)\<lparr> rp_dialing := 0, rp_born := 1, rp_pings := 1 \<rparr>"
  note d = rpc_defs rpc_first_def rpc_Stop_def
  have "rpc_reach ?m3" by (rule one_step[OF rpc_first_reach _ stop]) (simp_all add: d)
  from one_step[OF this _ dial_done[of _ 0]] have "rpc_reach ?m4" by (simp add: d)
  moreover have "rp_stopped ?m4 \<and> rp_conn ?m4 \<noteq> None \<and> rp_closed ?m4 = [] \<and> rpc_Send (\<lambda>c f. Ok ()) () ?m4 = Ok ()"
    by (simp add: d rpc_Send_def)
  ultimately show ?thesis by blast
qed

theorem rpc_loops_pile_up_witness: "rpc_loops rpc_watched = 2 \<and> distinct (rp_closed rpc_watched)"
  using rpc_loops_pile_up[OF rpc_watched_reach] by (simp add: rpc_watched_def rpc_first_def rpc_NewManager_def)

end
