(* ===== verification/ServiceRegistry.thy ===== *)
theory ServiceRegistry
  imports Prelude "HOL-Library.Char_ord" "HOL-Library.List_Lexorder"
begin

section \<open>Service discovery and load balancing (\<^verbatim>\<open>service/registry\<close>)\<close>

text \<open>
  The smooth weighted round robin of \<^verbatim>\<open>registry.go\<close>, the Consul registry of
  \<^verbatim>\<open>consul.go\<close> and the service manager of \<^verbatim>\<open>manager.go\<close>. The Consul client is a record of
  functions over a state of its own; the \<^verbatim>\<open>Registry\<close> interface is a record of the same kind, which
  \<open>ConsulRegistry\<close> fills from the client.
\<close>

subsection \<open>Instances\<close>

type_synonym meta = "(string, string) gomap"

record instance_rec =
  in_Service :: string
  in_ID :: string
  in_Address :: string
  in_Port :: int
  in_Metadata :: meta
  in_Ephemeral :: bool

record register_options =
  ro_TTL :: duration
  ro_HealthURL :: string
  ro_WarmupWeight :: int

definition Instance_zero :: instance_rec where
  "Instance_zero = \<lparr> in_Service = '''', in_ID = '''', in_Address = '''', in_Port = 0, in_Metadata = [], in_Ephemeral = False \<rparr>"

subsection \<open>Smooth weighted round robin\<close>

record swItem =
  sw_inst :: instance_rec
  sw_weight :: int
  sw_current :: int
  sw_effective :: bool

type_synonym SWRR = "swItem list"

definition NewSWRR :: SWRR where
  "NewSWRR = []"

text \<open>The digits of a weight; \<^verbatim>\<open>n\<close> wraps like the \<^verbatim>\<open>int\<close> it is.\<close>

fun parse_digits :: "string \<Rightarrow> int \<Rightarrow> int option" where
  "parse_digits [] n = Some n"
| "parse_digits (c # cs) n = (if is_digit c then parse_digits cs (wrap64 (n * 10 + digit_val c)) else None)"

definition parseWeight :: "meta \<Rightarrow> int" where
  "parseWeight meta =
     (case map_of meta ''weight'' of
        None \<Rightarrow> 1
      | Some wstr \<Rightarrow>
          if wstr = '''' then 1
          else
            (let sign = (if hd wstr = CHR ''-'' then - 1 else 1);
                 digits = (if hd wstr = CHR ''-'' then tl wstr else wstr)
             in case parse_digits digits 0 of
                  None \<Rightarrow> 1
                | Some n \<Rightarrow> (let m = wrap64 (n * sign) in if m \<le> 0 then 1 else m)))"

definition SWRR_Update :: "instance_rec list \<Rightarrow> SWRR \<Rightarrow> SWRR" where
  "SWRR_Update insts b =
     map (\<lambda>inst. \<lparr> sw_inst = inst, sw_weight = parseWeight (in_Metadata inst), sw_current = 0, sw_effective = True \<rparr>) insts"

text \<open>The loop of \<^verbatim>\<open>Next\<close>: visited items, items to visit, running total, index of the best so far.\<close>

fun SWRR_loop :: "swItem list \<Rightarrow> swItem list \<Rightarrow> int \<Rightarrow> nat option \<Rightarrow> swItem list \<times> int \<times> nat option" where
  "SWRR_loop dn [] tot best = (dn, tot, best)"
| "SWRR_loop dn (it # rest) tot best =
     (if \<not> sw_effective it \<or> sw_weight it \<le> 0 then SWRR_loop (dn @ [it]) rest tot best
      else
        (let it' = it\<lparr>sw_current := wrap64 (sw_current it + sw_weight it)\<rparr>;
             best' = (case best of
                        None \<Rightarrow> Some (length dn)
                      | Some b \<Rightarrow> if sw_current it' > sw_current (dn ! b) then Some (length dn) else best)
         in SWRR_loop (dn @ [it']) rest (wrap64 (tot + sw_weight it)) best'))"

definition SWRR_Next :: "SWRR \<Rightarrow> SWRR \<times> instance_rec option" where
  "SWRR_Next b =
     (if b = [] then (b, None)
      else
        (let (items, tot, best) = SWRR_loop [] b 0 None
         in case best of
              None \<Rightarrow> (items, None)
            | Some k \<Rightarrow>
                (items[k := (items ! k)\<lparr>sw_current := wrap64 (sw_current (items ! k) - tot)\<rparr>],
                 Some (sw_inst (items ! k)))))"

text \<open>A number of consecutive calls of \<^verbatim>\<open>Next\<close>.\<close>

fun SWRR_calls :: "nat \<Rightarrow> SWRR \<Rightarrow> SWRR \<times> instance_rec option list" where
  "SWRR_calls 0 b = (b, [])"
| "SWRR_calls (Suc n) b =
     (let (b1, r) = SWRR_Next b; (b2, rs) = SWRR_calls n b1 in (b2, r # rs))"

subsection \<open>The registry interface and Consul\<close>

text \<open>The interface \<^verbatim>\<open>Registry\<close> over a registry state; \<^verbatim>\<open>Watch\<close> gives a watcher, known here by
  the service it watches and the last index it has seen.\<close>

record watcher =
  cw_service :: string
  cw_lastIdx :: nat

record 's registry_ops =
  rg_Register :: "instance_rec \<Rightarrow> register_options \<Rightarrow> 's \<Rightarrow> 's \<times> string option"
  rg_Deregister :: "string \<Rightarrow> string \<Rightarrow> 's \<Rightarrow> 's \<times> string option"
  rg_List :: "string \<Rightarrow> 's \<Rightarrow> instance_rec list go"
  rg_Watch :: "string \<Rightarrow> 's \<Rightarrow> watcher go"
  rg_WatchNext :: "watcher \<Rightarrow> 's \<Rightarrow> watcher \<times> instance_rec list go"
  rg_Close :: "'s \<Rightarrow> 's \<times> string option"
  rg_UpdateTTL :: "string \<Rightarrow> string \<Rightarrow> string \<Rightarrow> 's \<Rightarrow> 's \<times> string option"

text \<open>What the program asks of the Consul client.\<close>

record agent_check =
  ac_TTL :: string
  ac_DeregisterAfter :: string

record agent_service =
  as_Name :: string
  as_ID :: string
  as_Address :: string
  as_Port :: int
  as_Meta :: meta

record 's consul_api =
  ca_ServiceRegister :: "agent_service \<Rightarrow> agent_check \<Rightarrow> 's \<Rightarrow> 's \<times> string option"
  ca_ServiceDeregister :: "string \<Rightarrow> 's \<Rightarrow> 's \<times> string option"
  ca_HealthService :: "string \<Rightarrow> bool \<Rightarrow> bool \<Rightarrow> nat \<Rightarrow> duration \<Rightarrow> 's \<Rightarrow> (agent_service list \<times> nat option) go"
  ca_UpdateTTL :: "string \<Rightarrow> string \<Rightarrow> string \<Rightarrow> 's \<Rightarrow> 's \<times> string option"

definition ConsulRegistry_Register ::
  "'s consul_api \<Rightarrow> instance_rec \<Rightarrow> register_options \<Rightarrow> 's \<Rightarrow> 's \<times> string option" where
  "ConsulRegistry_Register C inst opt =
     ca_ServiceRegister C
       \<lparr> as_Name = in_Service inst, as_ID = in_ID inst, as_Address = in_Address inst,
         as_Port = in_Port inst, as_Meta = in_Metadata inst \<rparr>
       \<lparr> ac_TTL = ''10s'', ac_DeregisterAfter = ''1m'' \<rparr>"

definition ConsulRegistry_Deregister :: "'s consul_api \<Rightarrow> string \<Rightarrow> string \<Rightarrow> 's \<Rightarrow> 's \<times> string option" where
  "ConsulRegistry_Deregister C service iid = ca_ServiceDeregister C iid"

definition instance_of_entry :: "string \<Rightarrow> agent_service \<Rightarrow> instance_rec" where
  "instance_of_entry service e =
     Instance_zero\<lparr> in_Service := service, in_ID := as_ID e, in_Address := as_Address e,
       in_Port := as_Port e, in_Metadata := as_Meta e \<rparr>"

definition ConsulRegistry_List :: "'s consul_api \<Rightarrow> string \<Rightarrow> 's \<Rightarrow> instance_rec list go" where
  "ConsulRegistry_List C service s =
     (case ca_HealthService C service True True 0 0 s of
        Ok (entries, _) \<Rightarrow> Ok (map (instance_of_entry service) entries)
      | Error e \<Rightarrow> Error e | Panic e \<Rightarrow> Panic e)"

definition ConsulRegistry_Watch :: "'s consul_api \<Rightarrow> string \<Rightarrow> 's \<Rightarrow> watcher go" where
  "ConsulRegistry_Watch C service s = Ok \<lparr> cw_service = service, cw_lastIdx = 0 \<rparr>"

definition consulWatcher_Next :: "'s consul_api \<Rightarrow> watcher \<Rightarrow> 's \<Rightarrow> watcher \<times> instance_rec list go" where
  "consulWatcher_Next C w s =
     (case ca_HealthService C (cw_service w) True False (cw_lastIdx w) (10 * 60 * second) s of
        Ok (entries, qm) \<Rightarrow>
          (case qm of None \<Rightarrow> w | Some idx \<Rightarrow> w\<lparr>cw_lastIdx := idx\<rparr>,
           Ok (map (instance_of_entry (cw_service w)) entries))
      | Error e \<Rightarrow> (w, Error e) | Panic e \<Rightarrow> (w, Panic e))"

definition ConsulRegistry_UpdateTTL :: "'s consul_api \<Rightarrow> string \<Rightarrow> string \<Rightarrow> string \<Rightarrow> 's \<Rightarrow> 's \<times> string option" where
  "ConsulRegistry_UpdateTTL C checkID note status =
     ca_UpdateTTL C checkID note (if status = ''warning'' then ''warning'' else ''passing'')"

definition ConsulRegistry :: "'s consul_api \<Rightarrow> 's registry_ops" where
  "ConsulRegistry C = \<lparr> rg_Register = ConsulRegistry_Register C, rg_Deregister = ConsulRegistry_Deregister C,
     rg_List = ConsulRegistry_List C, rg_Watch = ConsulRegistry_Watch C, rg_WatchNext = consulWatcher_Next C,
     rg_Close = (\<lambda>s. (s, None)), rg_UpdateTTL = ConsulRegistry_UpdateTTL C \<rparr>"

subsection \<open>The service manager\<close>

record flt =
  fl_Zone :: string
  fl_Require :: meta

record serviceState =
  ss_all :: "instance_rec list"
  ss_lb :: SWRR
  ss_watching :: bool
  ss_cancel :: bool

record method_info =
  mi_ServiceName :: string
  mi_ServiceID :: string
  mi_Meta :: meta
  mi_Opts :: register_options
  mi_Name :: string

record service_manager =
  sm_states :: "(string, serviceState) gomap"
  sm_refreshTTL :: duration
  sm_selfInst :: "instance_rec option"
  sm_selfOpts :: register_options
  sm_methodInfos :: "(string, method_info) gomap"
  sm_methodPrefix :: string

definition ServiceManager_New :: "duration \<Rightarrow> service_manager" where
  "ServiceManager_New refreshTTL =
     \<lparr> sm_states = [], sm_refreshTTL = (if refreshTTL \<le> 0 then 30 * second else refreshTTL),
       sm_selfInst = None, sm_selfOpts = \<lparr> ro_TTL = 0, ro_HealthURL = '''', ro_WarmupWeight = 0 \<rparr>,
       sm_methodInfos = [], sm_methodPrefix = '''' \<rparr>"

definition ServiceManager_SetSelf ::
  "instance_rec \<Rightarrow> register_options \<Rightarrow> string \<Rightarrow> service_manager \<Rightarrow> service_manager" where
  "ServiceManager_SetSelf inst opts pre m =
     m\<lparr>sm_selfInst := Some inst, sm_selfOpts := opts, sm_methodPrefix := pre\<rparr>"

definition serviceState_new :: serviceState where
  "serviceState_new = \<lparr> ss_all = [], ss_lb = NewSWRR, ss_watching = False, ss_cancel = False \<rparr>"

definition ServiceManager_ensure :: "string \<Rightarrow> service_manager \<Rightarrow> serviceState \<times> service_manager" where
  "ServiceManager_ensure service m =
     (case map_of (sm_states m) service of
        Some s \<Rightarrow> (s, m)
      | None \<Rightarrow> (serviceState_new, m\<lparr>sm_states := AList.update service serviceState_new (sm_states m)\<rparr>))"

definition put_state :: "string \<Rightarrow> serviceState \<Rightarrow> service_manager \<Rightarrow> service_manager" where
  "put_state service st m = m\<lparr>sm_states := AList.update service st (sm_states m)\<rparr>"

definition ServiceManager_apply :: "string \<Rightarrow> instance_rec list \<Rightarrow> service_manager \<Rightarrow> service_manager" where
  "ServiceManager_apply service lst m =
     (let (st, m1) = ServiceManager_ensure service m
      in put_state service (st\<lparr>ss_all := lst, ss_lb := SWRR_Update lst (ss_lb st)\<rparr>) m1)"

text \<open>\<^verbatim>\<open>StartWatch\<close> until it returns; the boolean tells whether it started the watch goroutine.\<close>

definition ServiceManager_StartWatch ::
  "'s registry_ops \<Rightarrow> string \<Rightarrow> service_manager \<Rightarrow> 's \<Rightarrow> service_manager \<times> bool" where
  "ServiceManager_StartWatch R service m s =
     (let (st, m1) = ServiceManager_ensure service m in
      if ss_watching st then (m1, False)
      else
        (let m2 = put_state service (st\<lparr>ss_cancel := True, ss_watching := True\<rparr>) m1
         in (case rg_List R service s of
               Ok lst \<Rightarrow> ServiceManager_apply service lst m2
             | _ \<Rightarrow> m2, True)))"

text \<open>The watch goroutine over what its calls return: an update, an error followed by a tick and the
  list read then, or the end of its context.\<close>

datatype watch_event = WatchUpdate "instance_rec list" | WatchErrorTick "instance_rec list go" | WatchDone

fun watch_loop :: "string \<Rightarrow> watch_event list \<Rightarrow> service_manager \<Rightarrow> service_manager" where
  "watch_loop service [] m = m"
| "watch_loop service (WatchUpdate upd # es) m = watch_loop service es (ServiceManager_apply service upd m)"
| "watch_loop service (WatchErrorTick r # es) m =
     watch_loop service es (case r of Ok lst \<Rightarrow> ServiceManager_apply service lst m | _ \<Rightarrow> m)"
| "watch_loop service (WatchDone # es) m = m"

definition ServiceManager_StopWatch :: "string \<Rightarrow> service_manager \<Rightarrow> service_manager" where
  "ServiceManager_StopWatch service m =
     (let (st, m1) = ServiceManager_ensure service m in put_state service (st\<lparr>ss_watching := False\<rparr>) m1)"

definition ServiceManager_All :: "string \<Rightarrow> service_manager \<Rightarrow> instance_rec list \<times> service_manager" where
  "ServiceManager_All service m = (let (st, m1) = ServiceManager_ensure service m in (ss_all st, m1))"

text \<open>Reading a missing key of the metadata gives the empty string.\<close>

definition meta_get :: "meta \<Rightarrow> string \<Rightarrow> string" where
  "meta_get md k = (case map_of md k of None \<Rightarrow> '''' | Some v \<Rightarrow> v)"

definition matches_filter :: "flt \<Rightarrow> instance_rec \<Rightarrow> bool" where
  "matches_filter f it \<longleftrightarrow>
     \<not> (fl_Zone f \<noteq> '''' \<and> meta_get (in_Metadata it) ''zone'' \<noteq> fl_Zone f \<and> meta_get (in_Metadata it) ''az'' \<noteq> fl_Zone f)
     \<and> list_all (\<lambda>(k, v). meta_get (in_Metadata it) k = v) (fl_Require f)"

definition ServiceManager_Pick ::
  "string \<Rightarrow> flt option \<Rightarrow> service_manager \<Rightarrow> instance_rec option \<times> service_manager" where
  "ServiceManager_Pick service fo m =
     (case fo of
        Some f \<Rightarrow>
          if fl_Zone f = '''' \<and> length (fl_Require f) = 0 then
            (let (st, m1) = ServiceManager_ensure service m; (lb, r) = SWRR_Next (ss_lb st)
             in (r, put_state service (st\<lparr>ss_lb := lb\<rparr>) m1))
          else
            (let (alls, m1) = ServiceManager_All service m; pool = filter (matches_filter f) alls
             in if length pool = 0 then (None, m1)
                else (snd (SWRR_Next (SWRR_Update pool NewSWRR)), m1))
      | None \<Rightarrow>
          (let (st, m1) = ServiceManager_ensure service m; (lb, r) = SWRR_Next (ss_lb st)
           in (r, put_state service (st\<lparr>ss_lb := lb\<rparr>) m1)))"

subsection \<open>Methods as services\<close>

definition method_instance :: "string \<Rightarrow> string \<Rightarrow> instance_rec \<Rightarrow> meta \<Rightarrow> instance_rec" where
  "method_instance svcName svcID self md =
     Instance_zero\<lparr> in_Service := svcName, in_ID := svcID, in_Address := in_Address self,
       in_Port := in_Port self, in_Metadata := md \<rparr>"

definition ServiceManager_RegisterMethod ::
  "'s registry_ops \<Rightarrow> string \<Rightarrow> meta \<Rightarrow> service_manager \<Rightarrow> 's \<Rightarrow> service_manager \<times> 's \<times> string option" where
  "ServiceManager_RegisterMethod R mthd md m s =
     (case sm_selfInst m of
        None \<Rightarrow> (m, s, Some ''self instance not set; call SetSelf first'')
      | Some self \<Rightarrow>
          (let md' = AList.update ''method'' mthd md;
               svcName = sm_methodPrefix m @ ''-'' @ mthd;
               svcID = in_ID self @ ''#'' @ mthd;
               s1 = (case map_of (sm_methodInfos m) mthd of
                       Some old \<Rightarrow> if mi_ServiceID old \<noteq> svcID
                                    then fst (rg_Deregister R (mi_ServiceName old) (mi_ServiceID old) s) else s
                     | None \<Rightarrow> s);
               (s2, err) = rg_Register R (method_instance svcName svcID self md') (sm_selfOpts m) s1
           in case err of
                Some e \<Rightarrow> (m, s2, Some e)
              | None \<Rightarrow>
                  (let m1 = m\<lparr>sm_methodInfos := AList.update mthd
                        \<lparr> mi_ServiceName = svcName, mi_ServiceID = svcID, mi_Meta = md',
                          mi_Opts = sm_selfOpts m, mi_Name = mthd \<rparr> (sm_methodInfos m)\<rparr>
                   in (fst (ServiceManager_StartWatch R svcName m1 s2), s2, None))))"

definition ServiceManager_UpdateMethodMetaReplace ::
  "'s registry_ops \<Rightarrow> string \<Rightarrow> meta \<Rightarrow> service_manager \<Rightarrow> 's \<Rightarrow> 's \<times> string option" where
  "ServiceManager_UpdateMethodMetaReplace R mthd md m s =
     (case sm_selfInst m of
        None \<Rightarrow> (s, Some ''self instance not set'')
      | Some self \<Rightarrow>
          rg_Register R (method_instance (''chat.'' @ mthd) (in_ID self @ ''#'' @ mthd) self
             (AList.update ''method'' mthd md)) (sm_selfOpts m) s)"

definition ServiceManager_UpdateMethodMetaPatch ::
  "'s registry_ops \<Rightarrow> string \<Rightarrow> meta \<Rightarrow> service_manager \<Rightarrow> 's \<Rightarrow> 's \<times> string option" where
  "ServiceManager_UpdateMethodMetaPatch R mthd patch m s =
     (case sm_selfInst m of
        None \<Rightarrow> (s, Some ''self instance not set'')
      | Some _ \<Rightarrow> ServiceManager_UpdateMethodMetaReplace R mthd patch m s)"

definition ServiceManager_UnregisterMethod ::
  "'s registry_ops \<Rightarrow> string \<Rightarrow> service_manager \<Rightarrow> 's \<Rightarrow> service_manager \<times> 's \<times> string option" where
  "ServiceManager_UnregisterMethod R mthd m s =
     (case sm_selfInst m of
        None \<Rightarrow> (m, s, Some ''self instance not set'')
      | Some self \<Rightarrow>
          (case rg_Deregister R (''chat.'' @ mthd) (in_ID self @ ''#'' @ mthd) s of
             (s1, Some e) \<Rightarrow> (m, s1, Some e)
           | (s1, None) \<Rightarrow> (m\<lparr>sm_methodInfos := AList.delete mthd (sm_methodInfos m)\<rparr>, s1, None)))"

subsection \<open>Reading the metadata\<close>

definition ServiceManager_GetMeta :: "string \<Rightarrow> service_manager \<Rightarrow> meta list \<times> service_manager" where
  "ServiceManager_GetMeta service m =
     (let (lst, m1) = ServiceManager_All service m in
      (map (\<lambda>it. fold (\<lambda>(k, v) row. AList.update k v row) (in_Metadata it)
               [(''_instance_id'', in_ID it), (''_address'', in_Address it), (''_port'', itoa (in_Port it))]) lst,
       m1))"

definition ServiceManager_GetMetaKey :: "string \<Rightarrow> string \<Rightarrow> service_manager \<Rightarrow> string list \<times> service_manager" where
  "ServiceManager_GetMetaKey service key m =
     (let (lst, m1) = ServiceManager_All service m;
          seen = fold (\<lambda>it seen. case map_of (in_Metadata it) key of
                          Some v \<Rightarrow> if v \<noteq> '''' then List.insert v seen else seen
                        | None \<Rightarrow> seen) lst []
      in (sort seen, m1))"

text \<open>One tick of the TTL report: every method with an id is reported as passing.\<close>

definition TTLReport_tick :: "'s registry_ops \<Rightarrow> order \<Rightarrow> service_manager \<Rightarrow> 's \<Rightarrow> 's" where
  "TTLReport_tick R o1 m s =
     (let svcids = map (\<lambda>(k, info). mi_ServiceID info)
                  (filter (\<lambda>(k, info). mi_ServiceID info \<noteq> '''') (reorder o1 (sm_methodInfos m)))
      in fold (\<lambda>i s. fst (rg_UpdateTTL R (''service:'' @ i) ''pass'' ''passing'' s)) svcids s)"

definition TTLReport_base :: "duration \<Rightarrow> duration option" where
  "TTLReport_base ttl =
     (if ttl \<le> 0 then None else Some (let base = ttl div 2 in if base < second then second else base))"

end
