(* ===== verification/RegistryProps.thy ===== *)
theory RegistryProps
  imports ServiceRegistry
begin

section \<open>Properties of service discovery\<close>

text \<open>
  Fairness of the weighted round robin, the contract of a balancer that the service manager relies on,
  what \<^verbatim>\<open>Pick\<close> chooses with and without a filter, and the names under which methods are
  registered, updated and removed.
\<close>

subsection \<open>Weights\<close>

lemma parseWeight_pos: "1 \<le> parseWeight md"
  by (auto simp: parseWeight_def Let_def split: option.splits)

subsection \<open>One call of \<^verbatim>\<open>Next\<close>\<close>

text \<open>Items as \<^verbatim>\<open>Update\<close> makes them: effective, of positive weight.\<close>

definition live_items :: "SWRR \<Rightarrow> bool" where
  "live_items b \<longleftrightarrow> (\<forall>it \<in> set b. sw_effective it \<and> 0 < sw_weight it)"

definition sum_weights :: "SWRR \<Rightarrow> int" where
  "sum_weights b = sum_list (map sw_weight b)"

definition bump :: "swItem \<Rightarrow> swItem" where
  "bump it = it\<lparr>sw_current := sw_current it + sw_weight it\<rparr>"

lemma sum_weights_simps [simp]:
  "sum_weights [] = 0" "sum_weights (it # b) = sw_weight it + sum_weights b"
  by (simp_all add: sum_weights_def)

lemma sum_weights_nonneg: "live_items b \<Longrightarrow> 0 \<le> sum_weights b"
  by (induction b) (auto simp: live_items_def)

text \<open>The best index is none at the start, and else the index of a largest current.\<close>

definition best_ok :: "swItem list \<Rightarrow> nat option \<Rightarrow> bool" where
  "best_ok dn best \<longleftrightarrow> (case best of None \<Rightarrow> dn = []
     | Some k \<Rightarrow> k < length dn \<and> (\<forall>j < length dn. sw_current (dn ! j) \<le> sw_current (dn ! k)))"

lemma best_ok_step:
  assumes "best_ok dn best"
  shows "best_ok (dn @ [it]) (case best of None \<Rightarrow> Some (length dn)
     | Some b \<Rightarrow> if sw_current it > sw_current (dn ! b) then Some (length dn) else best)"
  using assms by (auto simp: best_ok_def nth_append less_Suc_eq split: option.splits)

lemma SWRR_loop_spec:
  assumes "live_items rest" "\<And>it. it \<in> set rest \<Longrightarrow> int64 (sw_current it + sw_weight it)"
    "best_ok dn best" "0 \<le> tot" "tot + sum_weights rest < 2 ^ 63"
  shows "\<exists>b'. SWRR_loop dn rest tot best = (dn @ map bump rest, tot + sum_weights rest, b')
     \<and> best_ok (dn @ map bump rest) b'"
  using assms
proof (induction rest arbitrary: dn tot best)
  case (Cons it rest)
  let ?it = "bump it"
  let ?best = "case best of None \<Rightarrow> Some (length dn)
     | Some b \<Rightarrow> if sw_current ?it > sw_current (dn ! b) then Some (length dn) else best"
  have live: "live_items rest" "sw_effective it" "0 < sw_weight it"
    using Cons.prems(1) by (auto simp: live_items_def)
  have cur: "wrap64 (sw_current it + sw_weight it) = sw_current it + sw_weight it"
    using Cons.prems(2) by simp
  have rn: "0 \<le> sum_weights rest" by (rule sum_weights_nonneg[OF live(1)])
  have tt: "wrap64 (tot + sw_weight it) = tot + sw_weight it"
    using Cons.prems(4,5) live(3) rn by (intro wrap64_id) (simp add: int64_def)
  have step: "SWRR_loop dn (it # rest) tot best = SWRR_loop (dn @ [?it]) rest (tot + sw_weight it) ?best"
    using live cur tt by (simp add: Let_def bump_def cong del: option.case_cong_weak)
  have "\<exists>b'. SWRR_loop (dn @ [?it]) rest (tot + sw_weight it) ?best
      = ((dn @ [?it]) @ map bump rest, (tot + sw_weight it) + sum_weights rest, b')
     \<and> best_ok ((dn @ [?it]) @ map bump rest) b'"
    by (rule Cons.IH) (use live Cons.prems best_ok_step[OF Cons.prems(3)] in auto)
  then show ?case unfolding step by (simp add: add.assoc)
qed simp

lemma SWRR_Next_spec:
  assumes "live_items b" "b \<noteq> []" "\<And>it. it \<in> set b \<Longrightarrow> int64 (sw_current it + sw_weight it)"
    and "sum_weights b < 2 ^ 63"
    and "\<And>it. it \<in> set b \<Longrightarrow> int64 (sw_current it + sw_weight it - sum_weights b)"
  shows "\<exists>k < length b. (\<forall>j < length b. sw_current (b ! j) + sw_weight (b ! j) \<le> sw_current (b ! k) + sw_weight (b ! k))
    \<and> SWRR_Next b = ((map bump b)[k := (bump (b ! k))\<lparr>sw_current := sw_current (b ! k) + sw_weight (b ! k) - sum_weights b\<rparr>],
         Some (sw_inst (b ! k)))"
proof -
  have "\<exists>b'. SWRR_loop [] b 0 None = ([] @ map bump b, 0 + sum_weights b, b') \<and> best_ok ([] @ map bump b) b'"
    by (rule SWRR_loop_spec) (use assms in \<open>auto simp: best_ok_def\<close>)
  then obtain b' where l: "SWRR_loop [] b 0 None = (map bump b, sum_weights b, b')" and ok: "best_ok (map bump b) b'"
    by auto
  from ok assms(2) obtain k where k: "b' = Some k" "k < length b"
    "\<forall>j < length b. sw_current (bump (b ! j)) \<le> sw_current (bump (b ! k))"
    by (auto simp: best_ok_def split: option.splits)
  have w: "wrap64 (sw_current (bump (b ! k)) - sum_weights b) = sw_current (b ! k) + sw_weight (b ! k) - sum_weights b"
    using assms(5)[of "b ! k"] k(2) by (simp add: bump_def)
  show ?thesis
    using k l w assms(2) by (intro exI[of _ k]) (auto simp: SWRR_Next_def bump_def)
qed

subsection \<open>A round of calls\<close>

text \<open>
  After \<open>t\<close> calls from a fresh list item \<open>i\<close> was chosen \<open>n i\<close> times and its current is
  \<open>t * w i - W * n i\<close>, which stays above \<open>- W\<close>.
\<close>

definition round_inv :: "instance_rec list \<Rightarrow> nat \<Rightarrow> (nat \<Rightarrow> nat) \<Rightarrow> SWRR \<Rightarrow> bool" where
  "round_inv insts t n b \<longleftrightarrow>
     length b = length insts
   \<and> (\<forall>i < length insts. sw_inst (b ! i) = insts ! i \<and> sw_weight (b ! i) = parseWeight (in_Metadata (insts ! i))
        \<and> sw_effective (b ! i)
        \<and> sw_current (b ! i) = int t * sw_weight (b ! i) - sum_weights b * int (n i)
        \<and> - sum_weights b < sw_current (b ! i))
   \<and> (\<Sum>i < length insts. n i) = t"

definition total_weight :: "instance_rec list \<Rightarrow> int" where
  "total_weight insts = (\<Sum>inst \<leftarrow> insts. parseWeight (in_Metadata inst))"

lemma round_inv_weights:
  assumes "round_inv insts t n b"
  shows "sum_weights b = total_weight insts" "live_items b"
    "(\<Sum>i < length b. sw_weight (b ! i)) = total_weight insts"
proof -
  have m: "map sw_weight b = map (\<lambda>inst. parseWeight (in_Metadata inst)) insts"
    using assms by (intro nth_equalityI) (auto simp: round_inv_def)
  then show s: "sum_weights b = total_weight insts" by (simp add: sum_weights_def total_weight_def)
  have "0 < parseWeight md" for md using parseWeight_pos[of md] by linarith
  then show "live_items b"
    using assms by (auto simp: live_items_def round_inv_def in_set_conv_nth)
  show "(\<Sum>i < length b. sw_weight (b ! i)) = total_weight insts"
    using s by (simp add: sum_weights_def sum_list_sum_nth atLeast0LessThan)
qed

lemma round_inv_sum:
  assumes "round_inv insts t n b"
  shows "(\<Sum>i < length b. sw_current (b ! i)) = 0"
proof -
  have "(\<Sum>i < length b. sw_current (b ! i)) = (\<Sum>i < length b. int t * sw_weight (b ! i) - sum_weights b * int (n i))"
    using assms by (intro sum.cong) (auto simp: round_inv_def)
  also have "\<dots> = int t * (\<Sum>i < length b. sw_weight (b ! i)) - sum_weights b * (\<Sum>i < length b. int (n i))"
    by (simp add: sum_subtractf sum_distrib_left)
  also have "(\<Sum>i < length b. int (n i)) = int t"
    using assms by (simp add: round_inv_def flip: of_nat_sum)
  finally show ?thesis using round_inv_weights[OF assms] by simp
qed

lemma round_inv_bounds:
  assumes r: "round_inv insts t n b" and i: "i < length b"
  shows "- total_weight insts < sw_current (b ! i) + sw_weight (b ! i)"
    "sw_current (b ! i) + sw_weight (b ! i) \<le> int (length insts) * total_weight insts"
proof -
  note w = round_inv_weights[OF r]
  have pos: "0 < sw_weight (b ! i)" using w(2) i by (auto simp: live_items_def)
  show "- total_weight insts < sw_current (b ! i) + sw_weight (b ! i)"
    using r i pos w(1) by (auto simp: round_inv_def)
  let ?c = "\<lambda>j. sw_current (b ! j) + sw_weight (b ! j)"
  have "(\<Sum>j < length b. ?c j) = total_weight insts"
    using round_inv_sum[OF r] w(3) by (simp add: sum.distrib)
  then have "?c i = total_weight insts - (\<Sum>j \<in> {..<length b} - {i}. ?c j)"
    using i by (simp add: sum.remove[of _ i])
  moreover have "(\<Sum>j \<in> {..<length b} - {i}. - total_weight insts) \<le> (\<Sum>j \<in> {..<length b} - {i}. ?c j)"
  proof (rule sum_mono)
    fix j assume "j \<in> {..<length b} - {i}"
    then have j: "j < length b" by simp
    with w(2) have "0 < sw_weight (b ! j)" by (auto simp: live_items_def)
    from r j w(1) have "- total_weight insts < sw_current (b ! j)" unfolding round_inv_def by metis
    with \<open>0 < sw_weight (b ! j)\<close> show "- total_weight insts \<le> ?c j" by linarith
  qed
  moreover have "(\<Sum>j \<in> {..<length b} - {i}. - total_weight insts) = - (int (length b - 1) * total_weight insts)"
    using i by (simp add: card_Diff_singleton)
  moreover have "int (length b - 1) * total_weight insts + total_weight insts = int (length insts) * total_weight insts"
    using i r by (cases "length b") (auto simp: round_inv_def algebra_simps)
  ultimately show "?c i \<le> int (length insts) * total_weight insts" by linarith
qed

lemma round_inv_step:
  assumes r: "round_inv insts t n b" and ne: "insts \<noteq> []"
    and small: "int (length insts) * total_weight insts < 2 ^ 62"
  shows "\<exists>k < length insts. \<exists>b'. SWRR_Next b = (b', Some (insts ! k)) \<and> round_inv insts (Suc t) (n(k := Suc (n k))) b'"
proof -
  note w = round_inv_weights[OF r] and bd = round_inv_bounds[OF r]
  have len: "length b = length insts" using r by (simp add: round_inv_def)
  have W0: "0 < total_weight insts"
  proof -
    from ne len have "b \<noteq> []" by auto
    then obtain it b1 where "b = it # b1" by (cases b) auto
    with w(1,2) sum_weights_nonneg[of b1] show ?thesis by (auto simp: live_items_def)
  qed
  have "1 * total_weight insts \<le> int (length insts) * total_weight insts"
    using ne W0 by (intro mult_right_mono) (cases insts; simp)+
  then have Wle: "total_weight insts \<le> int (length insts) * total_weight insts" by simp
  have e: "int64 (sw_current it + sw_weight it) \<and> int64 (sw_current it + sw_weight it - sum_weights b)"
    if "it \<in> set b" for it
  proof -
    from that obtain i where "i < length b" "it = b ! i" by (auto simp: in_set_conv_nth)
    have p: "(2::int) ^ 63 = 2 * 2 ^ 62" by simp
    from \<open>i < length b\<close> bd[of i] have "- total_weight insts < sw_current it + sw_weight it"
      "sw_current it + sw_weight it \<le> int (length insts) * total_weight insts"
      using \<open>it = b ! i\<close> by auto
    then show ?thesis using small Wle W0 unfolding int64_def w(1) p by linarith
  qed
  have "\<exists>k < length b. (\<forall>j < length b. sw_current (b ! j) + sw_weight (b ! j) \<le> sw_current (b ! k) + sw_weight (b ! k))
    \<and> SWRR_Next b = ((map bump b)[k := (bump (b ! k))\<lparr>sw_current := sw_current (b ! k) + sw_weight (b ! k) - sum_weights b\<rparr>],
         Some (sw_inst (b ! k)))"
    by (rule SWRR_Next_spec) (use e w ne len small Wle in auto)
  then obtain k where k: "k < length b"
    "\<And>j. j < length b \<Longrightarrow> sw_current (b ! j) + sw_weight (b ! j) \<le> sw_current (b ! k) + sw_weight (b ! k)"
    and nx: "SWRR_Next b = ((map bump b)[k := (bump (b ! k))\<lparr>sw_current := sw_current (b ! k) + sw_weight (b ! k) - sum_weights b\<rparr>],
         Some (sw_inst (b ! k)))" by blast
  define b' where "b' = (map bump b)[k := (bump (b ! k))\<lparr>sw_current := sw_current (b ! k) + sw_weight (b ! k) - sum_weights b\<rparr>]"
  have sel: "sw_inst (b' ! i) = sw_inst (b ! i)" "sw_weight (b' ! i) = sw_weight (b ! i)"
      "sw_effective (b' ! i) = sw_effective (b ! i)"
      "sw_current (b' ! i) = sw_current (b ! i) + sw_weight (b ! i) - (if i = k then sum_weights b else 0)"
    if "i < length b" for i
    using that k(1) by (auto simp: b'_def bump_def nth_list_update)
  have sw: "sum_weights b' = sum_weights b"
    unfolding sum_weights_def using sel(2) by (metis (no_types, lifting) b'_def length_list_update length_map nth_equalityI nth_map)
  have best_pos: "0 < sw_current (b ! k) + sw_weight (b ! k)"
  proof (rule ccontr)
    assume "\<not> ?thesis"
    with k(2) have "(\<Sum>j < length b. sw_current (b ! j) + sw_weight (b ! j)) \<le> 0"
      by (intro sum_nonpos) (meson lessThan_iff not_less order_trans)
    then show False using round_inv_sum[OF r] w(3) W0 by (simp add: sum.distrib)
  qed
  have "round_inv insts (Suc t) (n(k := Suc (n k))) b'"
    unfolding round_inv_def
  proof (intro conjI allI impI)
    show "length b' = length insts" using len by (simp add: b'_def)
    fix i assume i: "i < length insts"
    then have il: "i < length b" by (simp add: len)
    from r i have ri: "sw_inst (b ! i) = insts ! i" "sw_weight (b ! i) = parseWeight (in_Metadata (insts ! i))"
      "sw_effective (b ! i)" "sw_current (b ! i) = int t * sw_weight (b ! i) - sum_weights b * int (n i)"
      "- sum_weights b < sw_current (b ! i)" unfolding round_inv_def by metis+
    show "sw_inst (b' ! i) = insts ! i" "sw_weight (b' ! i) = parseWeight (in_Metadata (insts ! i))" "sw_effective (b' ! i)"
      using ri sel[OF il] by simp_all
    show "sw_current (b' ! i) = int (Suc t) * sw_weight (b' ! i) - sum_weights b' * int ((n(k := Suc (n k))) i)"
      unfolding sel(2,4)[OF il] sw by (simp add: ri(4) algebra_simps)
    have "0 < sw_weight (b ! i)" using w(2) il by (auto simp: live_items_def)
    with ri(5) best_pos show "- sum_weights b' < sw_current (b' ! i)" unfolding sel(4)[OF il] sw by auto
  next
    have kl: "k < length insts" using k(1) len by simp
    have "(\<Sum>i < length insts. (n(k := Suc (n k))) i) = Suc (n k) + (\<Sum>i \<in> {..<length insts} - {k}. n i)"
      using kl by (subst sum.remove[of _ k]) auto
    also have "\<dots> = Suc (\<Sum>i < length insts. n i)"
      using kl by (simp add: sum.remove[of "{..<length insts}" k])
    finally show "(\<Sum>i < length insts. (n(k := Suc (n k))) i) = Suc t" using r by (simp add: round_inv_def)
  qed
  moreover have "SWRR_Next b = (b', Some (insts ! k))"
    using nx r k(1) len by (simp add: b'_def round_inv_def)
  ultimately show ?thesis using k(1) len by metis
qed

text \<open>The picks of \<open>t\<close> calls, as a multiset: item \<open>i\<close> as often as it was chosen.\<close>

lemma round_calls:
  assumes "round_inv insts t0 n0 b" "insts \<noteq> []" "int (length insts) * total_weight insts < 2 ^ 62"
  shows "\<exists>b' n picks. SWRR_calls t b = (b', map Some picks) \<and> round_inv insts (t0 + t) n b'
     \<and> mset picks + (\<Sum>i < length insts. replicate_mset (n0 i) (insts ! i))
       = (\<Sum>i < length insts. replicate_mset (n i) (insts ! i))"
  using assms(1)
proof (induction t arbitrary: t0 n0 b)
  case 0
  then show ?case by (intro exI[of _ b] exI[of _ n0] exI[of _ "[]"]) simp
next
  case (Suc t)
  from round_inv_step[OF Suc.prems assms(2,3)] obtain k b1 where k: "k < length insts"
    "SWRR_Next b = (b1, Some (insts ! k))" "round_inv insts (Suc t0) (n0(k := Suc (n0 k))) b1" by blast
  from Suc.IH[OF k(3)] obtain b' n picks where ih: "SWRR_calls t b1 = (b', map Some picks)"
    "round_inv insts (Suc t0 + t) n b'"
    "mset picks + (\<Sum>i < length insts. replicate_mset ((n0(k := Suc (n0 k))) i) (insts ! i))
       = (\<Sum>i < length insts. replicate_mset (n i) (insts ! i))" by blast
  have "(\<Sum>i < length insts. replicate_mset ((n0(k := Suc (n0 k))) i) (insts ! i))
      = replicate_mset (Suc (n0 k)) (insts ! k) + (\<Sum>i \<in> {..<length insts} - {k}. replicate_mset (n0 i) (insts ! i))"
    using k(1) by (subst sum.remove[of _ k]) auto
  also have "\<dots> = {#insts ! k#} + (\<Sum>i < length insts. replicate_mset (n0 i) (insts ! i))"
    using k(1) by (simp add: sum.remove[of "{..<length insts}" k])
  finally have "mset (insts ! k # picks) + (\<Sum>i < length insts. replicate_mset (n0 i) (insts ! i))
       = (\<Sum>i < length insts. replicate_mset (n i) (insts ! i))"
    using ih(3) by (simp add: ac_simps)
  moreover have "SWRR_calls (Suc t) b = (b', map Some (insts ! k # picks))"
    using k(2) ih(1) by simp
  ultimately show ?case
    using ih(2) by (intro exI[of _ b'] exI[of _ n] exI[of _ "insts ! k # picks"]) simp
qed

lemma SWRR_Update_round: "total_weight insts \<ge> 1 \<Longrightarrow> round_inv insts 0 (\<lambda>_. 0) (SWRR_Update insts b)"
proof -
  assume "total_weight insts \<ge> 1"
  moreover have "sum_weights (SWRR_Update insts b) = total_weight insts"
    by (simp add: sum_weights_def SWRR_Update_def total_weight_def comp_def)
  ultimately show ?thesis by (simp add: round_inv_def SWRR_Update_def)
qed

lemma total_weight_ge: "int (length insts) \<le> total_weight insts"
proof (induction insts)
  case (Cons i insts)
  then show ?case using parseWeight_pos[of "in_Metadata i"] by (simp add: total_weight_def)
qed (simp add: total_weight_def)

subsection \<open>The contract of a balancer\<close>

text \<open>
  What the service manager relies on: \<^verbatim>\<open>Update\<close> replaces what the balancer holds, \<^verbatim>\<open>Next\<close>
  keeps it and answers with one of the held instances whenever there is one.
\<close>

locale balancer =
  fixes upd :: "'i list \<Rightarrow> 'b \<Rightarrow> 'b" and nxt :: "'b \<Rightarrow> 'b \<times> 'i option"
    and held :: "'b \<Rightarrow> 'i list" and good :: "'b \<Rightarrow> bool"
  assumes held_upd: "held (upd xs b) = xs" and good_upd: "good (upd xs b)"
    and held_nxt: "held (fst (nxt b)) = held b" and good_nxt: "good b \<Longrightarrow> good (fst (nxt b))"
    and nxt_member: "snd (nxt b) = Some i \<Longrightarrow> i \<in> set (held b)"
    and nxt_some: "good b \<Longrightarrow> held b \<noteq> [] \<Longrightarrow> snd (nxt b) \<noteq> None"
    and nxt_none: "held b = [] \<Longrightarrow> snd (nxt b) = None"
begin

fun picks :: "nat \<Rightarrow> 'b \<Rightarrow> 'b \<times> 'i option list" where
  "picks 0 b = (b, [])"
| "picks (Suc n) b = (let (b2, rs) = picks n (fst (nxt b)) in (b2, snd (nxt b) # rs))"

lemma picks_held: "good b \<Longrightarrow> held (fst (picks n b)) = held b \<and> good (fst (picks n b))"
  by (induction n arbitrary: b) (auto simp: held_nxt good_nxt split_beta Let_def)

lemma picks_members:
  "good b \<Longrightarrow> held b \<noteq> [] \<Longrightarrow> r \<in> set (snd (picks n b)) \<Longrightarrow> \<exists>i \<in> set (held b). r = Some i"
proof (induction n arbitrary: b)
  case (Suc n)
  from nxt_some[OF Suc.prems(1,2)] obtain i where i: "snd (nxt b) = Some i" by blast
  from Suc.prems(3) have "r = snd (nxt b) \<or> r \<in> set (snd (picks n (fst (nxt b))))"
    by (auto simp: split_beta Let_def)
  then show ?case
    using Suc.IH[of "fst (nxt b)"] Suc.prems(1,2) i nxt_member[OF i] good_nxt held_nxt by auto
qed simp

lemma next_after_update:
  "snd (nxt (fst (picks n (upd xs b)))) = None \<longleftrightarrow> xs = []"
  "snd (nxt (fst (picks n (upd xs b)))) = Some i \<Longrightarrow> i \<in> set xs"
proof -
  have h: "held (fst (picks n (upd xs b))) = xs" "good (fst (picks n (upd xs b)))"
    using picks_held[OF good_upd, of n xs b] held_upd by auto
  show "snd (nxt (fst (picks n (upd xs b)))) = None \<longleftrightarrow> xs = []"
    using nxt_some[OF h(2), unfolded h(1)] nxt_none[of "fst (picks n (upd xs b))", unfolded h(1)]
    by (cases "xs = []") simp_all
  show "snd (nxt (fst (picks n (upd xs b)))) = Some i \<Longrightarrow> i \<in> set xs"
    using nxt_member[of "fst (picks n (upd xs b))" i] unfolding h(1) by blast
qed

end

definition held_instances :: "SWRR \<Rightarrow> instance_rec list" where
  "held_instances b = map sw_inst b"

lemma SWRR_loop_inst:
  "SWRR_loop dn rest tot best = (items, t, b') \<Longrightarrow>
   map sw_inst items = map sw_inst (dn @ rest) \<and> map sw_weight items = map sw_weight (dn @ rest)
   \<and> map sw_effective items = map sw_effective (dn @ rest)"
  by (induction dn rest tot best rule: SWRR_loop.induct) (auto simp: Let_def split: if_splits)

lemma SWRR_loop_best:
  "SWRR_loop dn rest tot best = (items, t, b') \<Longrightarrow> (\<forall>k. best = Some k \<longrightarrow> k < length dn) \<Longrightarrow>
   (\<forall>k. b' = Some k \<longrightarrow> k < length items)
   \<and> (best \<noteq> None \<or> (\<exists>it \<in> set rest. sw_effective it \<and> 0 < sw_weight it) \<longrightarrow> b' \<noteq> None)"
proof (induction dn rest tot best rule: SWRR_loop.induct)
  case (2 dn it rest tot best)
  show ?case
  proof (cases "\<not> sw_effective it \<or> sw_weight it \<le> 0")
    case True
    have "\<forall>k. best = Some k \<longrightarrow> k < length (dn @ [it])" using 2(4) by auto
    with 2(1)[OF True _ this] 2(3) True show ?thesis by auto
  next
    case False
    let ?it = "it\<lparr>sw_current := wrap64 (sw_current it + sw_weight it)\<rparr>"
    let ?b = "case best of None \<Rightarrow> Some (length dn)
       | Some b \<Rightarrow> if sw_current ?it > sw_current (dn ! b) then Some (length dn) else best"
    have st: "SWRR_loop (dn @ [?it]) rest (wrap64 (tot + sw_weight it)) ?b = (items, t, b')"
      using 2(3) False by (simp add: Let_def)
    have "\<forall>k. ?b = Some k \<longrightarrow> k < length (dn @ [?it])"
      using 2(4) by (auto split: option.splits if_splits simp: less_SucI)
    from 2(2)[OF False refl refl st this] show ?thesis by (auto split: option.splits)
  qed
qed auto

lemma map_update_same: "j < length xs \<Longrightarrow> f y = f (xs ! j) \<Longrightarrow> map f (xs[j := y]) = map f xs"
  by (metis list_update_id map_update)

lemma SWRR_Next_held:
  assumes "SWRR_Next b = (b', r)"
  shows "map sw_inst b' = map sw_inst b" "map sw_weight b' = map sw_weight b" "map sw_effective b' = map sw_effective b"
    "r = Some i \<Longrightarrow> i \<in> set (map sw_inst b)"
    "live_items b \<Longrightarrow> b \<noteq> [] \<Longrightarrow> r \<noteq> None" "b = [] \<Longrightarrow> r = None"
proof -
  have all: "map sw_inst b' = map sw_inst b \<and> map sw_weight b' = map sw_weight b
    \<and> map sw_effective b' = map sw_effective b \<and> (r = Some i \<longrightarrow> i \<in> set (map sw_inst b))
    \<and> (live_items b \<longrightarrow> b \<noteq> [] \<longrightarrow> r \<noteq> None) \<and> (b = [] \<longrightarrow> r = None)"
  proof (cases "b = []")
    case True
    with assms show ?thesis by (auto simp: SWRR_Next_def)
  next
    case False
    obtain items t bst where l: "SWRR_loop [] b 0 None = (items, t, bst)" by (cases "SWRR_loop [] b 0 None")
    note m = SWRR_loop_inst[OF l] and k = SWRR_loop_best[OF l]
    have ex: "live_items b \<Longrightarrow> \<exists>it \<in> set b. sw_effective it \<and> 0 < sw_weight it"
      using False by (cases b) (auto simp: live_items_def)
    show ?thesis
    proof (cases bst)
      case None
      then show ?thesis using assms False l m k ex by (auto simp: SWRR_Next_def)
    next
      case (Some j)
      with k have j: "j < length items" by auto
      have li: "length items = length b" using m by (metis append_Nil length_map)
      have ij: "sw_inst (items ! j) = sw_inst (b ! j)" using m j li by (metis append_Nil nth_map)
      have b': "b' = items[j := (items ! j)\<lparr>sw_current := wrap64 (sw_current (items ! j) - t)\<rparr>]"
        "r = Some (sw_inst (items ! j))"
        using assms False l Some by (simp_all add: SWRR_Next_def)
      have "map sw_inst b' = map sw_inst items" "map sw_weight b' = map sw_weight items"
        "map sw_effective b' = map sw_effective items"
        unfolding b'(1) by (rule map_update_same[OF j], simp)+
      with m b'(2) ij j li False show ?thesis by auto
    qed
  qed
  show "map sw_inst b' = map sw_inst b" "map sw_weight b' = map sw_weight b" "map sw_effective b' = map sw_effective b"
    "r = Some i \<Longrightarrow> i \<in> set (map sw_inst b)"
    "live_items b \<Longrightarrow> b \<noteq> [] \<Longrightarrow> r \<noteq> None" "b = [] \<Longrightarrow> r = None"
    using all by blast+
qed

lemma live_items_maps: "map sw_weight b' = map sw_weight b \<Longrightarrow> map sw_effective b' = map sw_effective b
   \<Longrightarrow> live_items b \<Longrightarrow> live_items b'"
  unfolding live_items_def by (metis (no_types, lifting) in_set_conv_nth length_map nth_map)

lemma live_items_Update: "live_items (SWRR_Update xs b)"
  using parseWeight_pos by (auto simp: live_items_def SWRR_Update_def intro: less_le_trans[of 0 1])

interpretation swrr: balancer SWRR_Update SWRR_Next held_instances live_items
proof
  fix xs :: "instance_rec list" and b :: SWRR and i
  show "held_instances (SWRR_Update xs b) = xs" by (simp add: held_instances_def SWRR_Update_def comp_def)
  show "live_items (SWRR_Update xs b)" by (rule live_items_Update)
  obtain b' r where n: "SWRR_Next b = (b', r)" by fastforce
  note h = SWRR_Next_held[OF n]
  show "held_instances (fst (SWRR_Next b)) = held_instances b" by (simp add: held_instances_def n h)
  show "live_items b \<Longrightarrow> live_items (fst (SWRR_Next b))" using live_items_maps[OF h(2,3)] by (simp add: n)
  show "snd (SWRR_Next b) = Some i \<Longrightarrow> i \<in> set (held_instances b)" using h(4) by (simp add: held_instances_def n)
  show "live_items b \<Longrightarrow> held_instances b \<noteq> [] \<Longrightarrow> snd (SWRR_Next b) \<noteq> None"
    using h(5) by (simp add: held_instances_def n)
  show "held_instances b = [] \<Longrightarrow> snd (SWRR_Next b) = None" using h(6) n by (simp add: held_instances_def)
qed

lemma swrr_picks_calls: "swrr.picks n b = SWRR_calls n b"
  by (induction n arbitrary: b) (auto simp: split_beta Let_def)

subsection \<open>The properties\<close>

text \<open>After a whole round: the items, and how often each was picked.\<close>

lemma round_inv_item:
  assumes r: "round_inv insts (nat (total_weight insts)) n b" and W1: "1 \<le> total_weight insts" and i: "i < length insts"
  shows "sw_inst (b ! i) = insts ! i" "sw_weight (b ! i) = parseWeight (in_Metadata (insts ! i))" "sw_effective (b ! i)"
    "sw_current (b ! i) = total_weight insts * (sw_weight (b ! i) - int (n i))"
    "- total_weight insts < sw_current (b ! i)"
proof -
  from r i have "sw_inst (b ! i) = insts ! i \<and> sw_weight (b ! i) = parseWeight (in_Metadata (insts ! i))
      \<and> sw_effective (b ! i)
      \<and> sw_current (b ! i) = int (nat (total_weight insts)) * sw_weight (b ! i) - sum_weights b * int (n i)
      \<and> - sum_weights b < sw_current (b ! i)" unfolding round_inv_def by blast
  then show "sw_inst (b ! i) = insts ! i" "sw_weight (b ! i) = parseWeight (in_Metadata (insts ! i))" "sw_effective (b ! i)"
    "sw_current (b ! i) = total_weight insts * (sw_weight (b ! i) - int (n i))"
    "- total_weight insts < sw_current (b ! i)"
    using W1 unfolding round_inv_weights[OF r] by (auto simp: right_diff_distrib)
qed

lemma round_inv_picks:
  assumes r: "round_inv insts (nat (total_weight insts)) n b" and W1: "1 \<le> total_weight insts" and i: "i < length insts"
  shows "int (n i) = parseWeight (in_Metadata (insts ! i))"
proof -
  have le: "int (n i) \<le> parseWeight (in_Metadata (insts ! i))" if "i < length insts" for i
  proof -
    from round_inv_item(2,4,5)[OF r W1 that] have
      "total_weight insts * (- 1) < total_weight insts * (parseWeight (in_Metadata (insts ! i)) - int (n i))" by simp
    then have "- 1 < parseWeight (in_Metadata (insts ! i)) - int (n i)"
      using W1 by (simp only: mult_less_cancel_left_pos)
    then show ?thesis by simp
  qed
  have "(\<Sum>i < length insts. parseWeight (in_Metadata (insts ! i))) = total_weight insts"
    by (simp add: total_weight_def sum_list_sum_nth atLeast0LessThan)
  moreover have "(\<Sum>i < length insts. int (n i)) = total_weight insts"
    using r W1 by (simp add: round_inv_def flip: of_nat_sum)
  ultimately have s: "(\<Sum>i < length insts. parseWeight (in_Metadata (insts ! i)) - int (n i)) = 0" by (simp add: sum_subtractf)
  have "parseWeight (in_Metadata (insts ! i)) - int (n i) = 0"
    using sum_nonneg_0[OF finite_lessThan _ s] le i by simp
  then show ?thesis by simp
qed

text \<open>C22: over a round of as many calls as the total weight, \<^verbatim>\<open>Next\<close> hands out every instance
  exactly as often as its weight says, and ends in the state it started from.\<close>

theorem swrr_round_is_fair:
  assumes "insts \<noteq> []" and "int (length insts) * total_weight insts < 2 ^ 62"
  shows "\<exists>b' picks. SWRR_calls (nat (total_weight insts)) (SWRR_Update insts b) = (b', map Some picks)
    \<and> mset picks = (\<Sum>i < length insts. replicate_mset (nat (parseWeight (in_Metadata (insts ! i)))) (insts ! i))
    \<and> b' = SWRR_Update insts b"
proof -
  have W1: "1 \<le> total_weight insts"
    using total_weight_ge[of insts] assms(1) by (cases insts) auto
  from round_calls[OF SWRR_Update_round[OF W1, of b] assms, of "nat (total_weight insts)"]
  obtain b' n picks where c: "SWRR_calls (nat (total_weight insts)) (SWRR_Update insts b) = (b', map Some picks)"
    and r: "round_inv insts (nat (total_weight insts)) n b'"
    and m: "mset picks = (\<Sum>i < length insts. replicate_mset (n i) (insts ! i))" by auto
  have len: "length b' = length insts" using r by (simp add: round_inv_def)
  note it = round_inv_item[OF r W1] and eq = round_inv_picks[OF r W1]
  have "mset picks = (\<Sum>i < length insts. replicate_mset (nat (parseWeight (in_Metadata (insts ! i)))) (insts ! i))"
    unfolding m by (rule sum.cong) (simp_all flip: eq)
  moreover have "b' = SWRR_Update insts b"
  proof (rule nth_equalityI)
    show "length b' = length (SWRR_Update insts b)" by (simp add: len SWRR_Update_def)
    fix i assume "i < length b'"
    then have i: "i < length insts" by (simp add: len)
    show "b' ! i = SWRR_Update insts b ! i"
      using it[OF i] eq[OF i] i by (simp add: SWRR_Update_def)
  qed
  ultimately show ?thesis using c by blast
qed

definition demo_inst :: "string \<Rightarrow> string \<Rightarrow> instance_rec" where
  "demo_inst i w = Instance_zero\<lparr>in_ID := i, in_Metadata := [(''weight'', w)]\<rparr>"

definition demo_insts :: "instance_rec list" where
  "demo_insts = [demo_inst ''a'' ''3'', demo_inst ''b'' ''1'']"

lemma demo_insts_facts:
  "demo_insts \<noteq> []" "total_weight demo_insts = 4" "length demo_insts = 2"
  "parseWeight (in_Metadata (demo_insts ! 0)) = 3" "parseWeight (in_Metadata (demo_insts ! 1)) = 1"
  by code_simp+

theorem swrr_round_is_fair_witness:
  "\<exists>b' picks. SWRR_calls 4 (SWRR_Update demo_insts []) = (b', map Some picks)
    \<and> count (mset picks) (demo_inst ''a'' ''3'') = 3"
proof -
  have d: "demo_inst ''a'' ''3'' = demo_insts ! 0" "demo_insts ! 1 \<noteq> demo_insts ! 0" by code_simp+
  have set2: "{..<2} = {0, 1::nat}" by auto
  from swrr_round_is_fair[OF demo_insts_facts(1), of "[]"] obtain b' picks where
    "SWRR_calls 4 (SWRR_Update demo_insts []) = (b', map Some picks)"
    "mset picks = (\<Sum>i < length demo_insts. replicate_mset (nat (parseWeight (in_Metadata (demo_insts ! i)))) (demo_insts ! i))"
    by (auto simp: demo_insts_facts)
  moreover from this(2) have "count (mset picks) (demo_inst ''a'' ''3'') = 3"
    using d by (simp add: demo_insts_facts set2)
  ultimately show ?thesis by blast
qed

lemma picks_unfiltered:
  assumes "map_of (sm_states m) service = Some st"
  shows "ServiceManager_Pick service None m
    = (snd (SWRR_Next (ss_lb st)), m\<lparr>sm_states := AList.update service (st\<lparr>ss_lb := fst (SWRR_Next (ss_lb st))\<rparr>) (sm_states m)\<rparr>)"
  using assms by (simp add: ServiceManager_Pick_def ServiceManager_ensure_def put_state_def split_beta)

fun ServiceManager_Picks :: "string \<Rightarrow> nat \<Rightarrow> service_manager \<Rightarrow> service_manager" where
  "ServiceManager_Picks service 0 m = m"
| "ServiceManager_Picks service (Suc n) m = ServiceManager_Picks service n (snd (ServiceManager_Pick service None m))"

lemma Picks_lb:
  "map_of (sm_states m) service = Some st \<Longrightarrow>
   \<exists>st'. map_of (sm_states (ServiceManager_Picks service n m)) service = Some st'
     \<and> ss_all st' = ss_all st \<and> ss_lb st' = fst (swrr.picks n (ss_lb st))"
proof (induction n arbitrary: m st)
  case (Suc n)
  let ?m = "snd (ServiceManager_Pick service None m)"
  have "map_of (sm_states ?m) service = Some (st\<lparr>ss_lb := fst (SWRR_Next (ss_lb st))\<rparr>)"
    by (simp add: picks_unfiltered[OF Suc.prems])
  from Suc.IH[OF this] show ?case by (simp add: split_beta Let_def)
qed simp

text \<open>After a service's list was applied, and however many picks were made since, \<^verbatim>\<open>Pick\<close> without
  a filter answers with an instance of that list, and with none only when the list is empty.\<close>

theorem pick_from_applied_list:
  assumes m': "m' = ServiceManager_Picks service n (ServiceManager_apply service lst m)"
  shows "case fst (ServiceManager_Pick service None m') of None \<Rightarrow> lst = [] | Some i \<Rightarrow> i \<in> set lst"
proof -
  obtain st lb where a: "map_of (sm_states (ServiceManager_apply service lst m)) service = Some st"
    "ss_lb st = SWRR_Update lst lb"
    by (auto simp: ServiceManager_apply_def put_state_def split_beta Let_def)
  from Picks_lb[OF a(1), of n] obtain st' where st': "map_of (sm_states m') service = Some st'"
    "ss_lb st' = fst (swrr.picks n (SWRR_Update lst lb))" by (auto simp: m' a(2))
  have "fst (ServiceManager_Pick service None m') = snd (SWRR_Next (fst (swrr.picks n (SWRR_Update lst lb))))"
    by (simp add: picks_unfiltered[OF st'(1)] st'(2))
  then show ?thesis
    using swrr.next_after_update(1)[of n lst lb] swrr.next_after_update(2)[of n lst lb]
    by (auto split: option.splits)
qed

theorem pick_from_applied_list_witness:
  "case fst (ServiceManager_Pick ''s'' None (ServiceManager_Picks ''s'' 5 (ServiceManager_apply ''s'' demo_insts (ServiceManager_New 0)))) of
     None \<Rightarrow> demo_insts = [] | Some i \<Rightarrow> i \<in> set demo_insts"
  by (rule pick_from_applied_list[OF refl])

text \<open>\<^verbatim>\<open>Pick\<close> with a filter does not rotate: whatever was picked before, it answers with the
  first instance of largest weight among those that match, and the balancer of the service is not touched.\<close>

lemma SWRR_loop_fresh:
  assumes "live_items rest" "\<And>it. it \<in> set rest \<Longrightarrow> sw_current it = 0 \<and> int64 (sw_weight it)"
    "best = None \<longleftrightarrow> dn = []"
    "\<And>k. best = Some k \<Longrightarrow> k < length dn
        \<and> (\<forall>j < length dn. sw_current (dn ! j) \<le> sw_current (dn ! k))
        \<and> (\<forall>j < k. sw_current (dn ! j) < sw_current (dn ! k))"
    "SWRR_loop dn rest tot best = (items, t, b')"
  shows "(b' = None \<longleftrightarrow> items = []) \<and> items = dn @ map bump rest
    \<and> (\<forall>k. b' = Some k \<longrightarrow> k < length items
        \<and> (\<forall>j < length items. sw_current (items ! j) \<le> sw_current (items ! k))
        \<and> (\<forall>j < k. sw_current (items ! j) < sw_current (items ! k)))"
  using assms
proof (induction rest arbitrary: dn tot best)
  case (Cons it rest)
  let ?it = "bump it"
  let ?best = "case best of None \<Rightarrow> Some (length dn)
     | Some b \<Rightarrow> if sw_current ?it > sw_current (dn ! b) then Some (length dn) else best"
  have live: "live_items rest" "sw_effective it" "0 < sw_weight it"
    using Cons.prems(1) by (auto simp: live_items_def)
  have cur: "wrap64 (sw_current it + sw_weight it) = sw_current it + sw_weight it"
    using Cons.prems(2)[of it] by simp
  have step: "SWRR_loop (dn @ [?it]) rest (wrap64 (tot + sw_weight it)) ?best = (items, t, b')"
    using live cur Cons.prems(5) by (simp add: Let_def bump_def cong del: option.case_cong_weak)
  have nb: "?best = None \<longleftrightarrow> dn @ [?it] = []" by (auto split: option.splits)
  have bk: "k < length (dn @ [?it])
        \<and> (\<forall>j < length (dn @ [?it]). sw_current ((dn @ [?it]) ! j) \<le> sw_current ((dn @ [?it]) ! k))
        \<and> (\<forall>j < k. sw_current ((dn @ [?it]) ! j) < sw_current ((dn @ [?it]) ! k))" if "?best = Some k" for k
  proof (cases best)
    case None
    with Cons.prems(3) that show ?thesis by simp
  next
    case (Some b)
    note b = Cons.prems(4)[OF Some]
    show ?thesis
    proof (cases "sw_current ?it > sw_current (dn ! b)")
      case True
      with that Some have k: "k = length dn" by simp
      have "sw_current (dn ! j) < sw_current ?it" if "j < length dn" for j
        using b that True by (meson le_less_trans)
      with k show ?thesis by (auto simp: nth_append less_Suc_eq intro: less_imp_le)
    next
      case False
      with that Some have "k = b" by simp
      with b False show ?thesis by (auto simp: nth_append less_Suc_eq)
    qed
  qed
  have rest: "\<And>it. it \<in> set rest \<Longrightarrow> sw_current it = 0 \<and> int64 (sw_weight it)"
    using Cons.prems(2) by simp
  have eq: "dn @ map bump (it # rest) = (dn @ [?it]) @ map bump rest" by simp
  show ?case unfolding eq by (rule Cons.IH[OF live(1) rest nb bk step]) assumption+
qed auto

lemma SWRR_fresh_pick:
  assumes "pool \<noteq> []" "\<And>i. i \<in> set pool \<Longrightarrow> int64 (parseWeight (in_Metadata i))"
  shows "\<exists>k < length pool. snd (SWRR_Next (SWRR_Update pool b)) = Some (pool ! k)
    \<and> (\<forall>j < length pool. parseWeight (in_Metadata (pool ! j)) \<le> parseWeight (in_Metadata (pool ! k)))
    \<and> (\<forall>j < k. parseWeight (in_Metadata (pool ! j)) < parseWeight (in_Metadata (pool ! k)))"
proof -
  let ?b = "SWRR_Update pool b"
  obtain items t bst where l: "SWRR_loop [] ?b 0 None = (items, t, bst)" by (cases "SWRR_loop [] ?b 0 None")
  have "(bst = None \<longleftrightarrow> items = []) \<and> items = [] @ map bump ?b
    \<and> (\<forall>k. bst = Some k \<longrightarrow> k < length items
        \<and> (\<forall>j < length items. sw_current (items ! j) \<le> sw_current (items ! k))
        \<and> (\<forall>j < k. sw_current (items ! j) < sw_current (items ! k)))"
    by (rule SWRR_loop_fresh[OF live_items_Update _ _ _ l]) (use assms(2) in \<open>auto simp: SWRR_Update_def\<close>)
  then have i: "items = map bump ?b" "bst = None \<longleftrightarrow> items = []"
    "\<And>k. bst = Some k \<Longrightarrow> k < length items
        \<and> (\<forall>j < length items. sw_current (items ! j) \<le> sw_current (items ! k))
        \<and> (\<forall>j < k. sw_current (items ! j) < sw_current (items ! k))" by auto
  have len: "length items = length pool" by (simp add: i(1) SWRR_Update_def)
  have cur: "sw_current (items ! j) = parseWeight (in_Metadata (pool ! j))" "sw_inst (items ! j) = pool ! j"
    if "j < length pool" for j
    using that by (simp_all add: i(1) SWRR_Update_def bump_def)
  from assms(1) len i(2) obtain k where k: "bst = Some k" by auto
  note kk = i(3)[OF k]
  have "?b \<noteq> []" using assms(1) by (simp add: SWRR_Update_def)
  then have "snd (SWRR_Next ?b) = Some (pool ! k)"
    using l k kk len cur(2) by (simp add: SWRR_Next_def)
  moreover have kp: "k < length pool" using kk len by simp
  moreover have "parseWeight (in_Metadata (pool ! j)) \<le> parseWeight (in_Metadata (pool ! k))" if "j < length pool" for j
    using kk that cur(1)[OF that] cur(1)[OF kp] len by fastforce
  moreover have "parseWeight (in_Metadata (pool ! j)) < parseWeight (in_Metadata (pool ! k))" if "j < k" for j
    using kk that cur(1)[of j] cur(1)[OF kp] kp by fastforce
  ultimately show ?thesis by blast
qed

lemma int64_parseWeight: "int64 (parseWeight md)"
proof -
  have "int64 1" by (simp add: int64_def)
  then show ?thesis by (simp add: parseWeight_def Let_def split: option.splits)
qed

theorem filtered_pick_is_constant:
  assumes "fl_Zone f \<noteq> '''' \<or> fl_Require f \<noteq> []" and "map_of (sm_states m) service = Some st"
  shows "snd (ServiceManager_Pick service (Some f) m) = m
    \<and> (case fst (ServiceManager_Pick service (Some f) m) of
         None \<Rightarrow> filter (matches_filter f) (ss_all st) = []
       | Some i \<Rightarrow> \<exists>before after. filter (matches_filter f) (ss_all st) = before @ i # after
           \<and> (\<forall>j \<in> set before. parseWeight (in_Metadata j) < parseWeight (in_Metadata i))
           \<and> (\<forall>j \<in> set after. parseWeight (in_Metadata j) \<le> parseWeight (in_Metadata i)))"
proof (intro conjI)
  let ?pool = "filter (matches_filter f) (ss_all st)"
  have p: "ServiceManager_Pick service (Some f) m
    = (if ?pool = [] then None else snd (SWRR_Next (SWRR_Update ?pool NewSWRR)), m)"
    using assms by (auto simp: ServiceManager_Pick_def ServiceManager_All_def ServiceManager_ensure_def Let_def)
  then show "snd (ServiceManager_Pick service (Some f) m) = m" by simp
  have some: "?pool \<noteq> [] \<Longrightarrow> \<exists>k < length ?pool. snd (SWRR_Next (SWRR_Update ?pool NewSWRR)) = Some (?pool ! k)
    \<and> (\<forall>j < length ?pool. parseWeight (in_Metadata (?pool ! j)) \<le> parseWeight (in_Metadata (?pool ! k)))
    \<and> (\<forall>j < k. parseWeight (in_Metadata (?pool ! j)) < parseWeight (in_Metadata (?pool ! k)))"
    by (rule SWRR_fresh_pick) (simp_all add: int64_parseWeight)
  show "case fst (ServiceManager_Pick service (Some f) m) of
         None \<Rightarrow> ?pool = []
       | Some i \<Rightarrow> \<exists>before after. ?pool = before @ i # after
           \<and> (\<forall>j \<in> set before. parseWeight (in_Metadata j) < parseWeight (in_Metadata i))
           \<and> (\<forall>j \<in> set after. parseWeight (in_Metadata j) \<le> parseWeight (in_Metadata i))"
  proof (cases "?pool = []")
    case True
    then show ?thesis by (simp add: p)
  next
    case False
    from some[OF False] obtain k where k: "k < length ?pool"
      "snd (SWRR_Next (SWRR_Update ?pool NewSWRR)) = Some (?pool ! k)"
      "\<forall>j < length ?pool. parseWeight (in_Metadata (?pool ! j)) \<le> parseWeight (in_Metadata (?pool ! k))"
      "\<forall>j < k. parseWeight (in_Metadata (?pool ! j)) < parseWeight (in_Metadata (?pool ! k))" by blast
    have "?pool = take k ?pool @ ?pool ! k # drop (Suc k) ?pool" using k(1) by (rule id_take_nth_drop)
    moreover have "\<forall>j \<in> set (take k ?pool). parseWeight (in_Metadata j) < parseWeight (in_Metadata (?pool ! k))"
      using k by (auto simp: in_set_conv_nth)
    moreover have "\<forall>j \<in> set (drop (Suc k) ?pool). parseWeight (in_Metadata j) \<le> parseWeight (in_Metadata (?pool ! k))"
      using k(3) by (metis in_set_conv_nth in_set_dropD)
    ultimately have "\<exists>before after. ?pool = before @ ?pool ! k # after
           \<and> (\<forall>j \<in> set before. parseWeight (in_Metadata j) < parseWeight (in_Metadata (?pool ! k)))
           \<and> (\<forall>j \<in> set after. parseWeight (in_Metadata j) \<le> parseWeight (in_Metadata (?pool ! k)))" by blast
    with False show ?thesis by (simp only: p k(2) fst_conv if_False option.case)
  qed
qed

definition demo_flt :: flt where
  "demo_flt = \<lparr> fl_Zone = '''', fl_Require = [(''weight'', ''1'')] \<rparr>"

definition demo_mgr :: service_manager where
  "demo_mgr = ServiceManager_apply ''s'' demo_insts (ServiceManager_New 0)"

lemma demo_mgr_state:
  "map_of (sm_states demo_mgr) ''s'' = Some (serviceState_new\<lparr>ss_all := demo_insts, ss_lb := SWRR_Update demo_insts NewSWRR\<rparr>)"
  by (simp add: demo_mgr_def ServiceManager_apply_def ServiceManager_ensure_def put_state_def
      ServiceManager_New_def serviceState_new_def Let_def split_beta)

theorem filtered_pick_is_constant_witness:
  "snd (ServiceManager_Pick ''s'' (Some demo_flt) demo_mgr) = demo_mgr
   \<and> fst (ServiceManager_Pick ''s'' (Some demo_flt) demo_mgr) \<noteq> None"
proof -
  have "filter (matches_filter demo_flt) demo_insts = [demo_inst ''b'' ''1'']" by code_simp
  moreover have "fl_Zone demo_flt \<noteq> '''' \<or> fl_Require demo_flt \<noteq> []" by (simp add: demo_flt_def)
  ultimately show ?thesis
    using filtered_pick_is_constant[of demo_flt demo_mgr "''s''", OF _ demo_mgr_state]
    by (auto simp: serviceState_new_def split: option.splits)
qed

definition registry_by_id :: "'s registry_ops \<Rightarrow> bool" where
  "registry_by_id R \<longleftrightarrow>
     (\<forall>inst opt s s'. rg_Register R inst opt s = (s', None) \<longrightarrow>
        (\<forall>svc lst. svc \<noteq> in_Service inst \<longrightarrow> rg_List R svc s' = Ok lst \<longrightarrow> in_ID inst \<notin> in_ID ` set lst))"

text \<open>A method is registered as the service \<open>prefix-method\<close>, but its metadata is replaced under
  the service \<open>chat.method\<close> with the same instance id. In a registry that keeps one registration per
  instance id, replacing the metadata takes the instance out of the service its callers watch.\<close>

theorem replacing_meta_moves_the_method:
  assumes "registry_by_id R" and "sm_selfInst m = Some self"
    and "ServiceManager_UpdateMethodMetaReplace R mthd md m s = (s', None)"
    and "rg_List R (sm_methodPrefix m @ ''-'' @ mthd) s' = Ok lst"
    and "sm_methodPrefix m @ ''-'' @ mthd \<noteq> ''chat.'' @ mthd"
  shows "in_ID self @ ''#'' @ mthd \<notin> in_ID ` set lst"
proof -
  let ?inst = "method_instance (''chat.'' @ mthd) (in_ID self @ ''#'' @ mthd) self (AList.update ''method'' mthd md)"
  have "rg_Register R ?inst (sm_selfOpts m) s = (s', None)"
    using assms(2,3) by (simp add: ServiceManager_UpdateMethodMetaReplace_def)
  moreover have "in_Service ?inst = ''chat.'' @ mthd" "in_ID ?inst = in_ID self @ ''#'' @ mthd"
    by (simp_all add: method_instance_def Instance_zero_def)
  ultimately show ?thesis using assms(1,4,5) unfolding registry_by_id_def by metis
qed

text \<open>An agent that keeps its services in a list, one per id.\<close>

definition mem_consul :: "agent_service list consul_api" where
  "mem_consul = \<lparr>
     ca_ServiceRegister = (\<lambda>a chk s. (a # filter (\<lambda>x. as_ID x \<noteq> as_ID a) s, None)),
     ca_ServiceDeregister = (\<lambda>i s. (filter (\<lambda>x. as_ID x \<noteq> i) s, None)),
     ca_HealthService = (\<lambda>name passing consistent idx wait s. Ok (filter (\<lambda>x. as_Name x = name) s, Some 1)),
     ca_UpdateTTL = (\<lambda>chk note status s. (s, None)) \<rparr>"

lemma mem_consul_by_id: "registry_by_id (ConsulRegistry mem_consul)"
  by (auto simp: registry_by_id_def ConsulRegistry_def ConsulRegistry_Register_def ConsulRegistry_List_def
      mem_consul_def instance_of_entry_def)

definition demo_node :: service_manager where
  "demo_node = ServiceManager_SetSelf (Instance_zero\<lparr>in_ID := ''node-01''\<rparr>)
     \<lparr> ro_TTL = 0, ro_HealthURL = '''', ro_WarmupWeight = 0 \<rparr> ''chat-service'' (ServiceManager_New 0)"

definition demo_registered :: "agent_service list" where
  "demo_registered = fst (snd (ServiceManager_RegisterMethod (ConsulRegistry mem_consul) ''M'' [] demo_node []))"

theorem replacing_meta_moves_the_method_witness:
  "rg_List (ConsulRegistry mem_consul) ''chat-service-M'' demo_registered \<noteq> Ok []
   \<and> ''node-01#M'' \<notin> in_ID ` set (case rg_List (ConsulRegistry mem_consul) ''chat-service-M''
        (fst (ServiceManager_UpdateMethodMetaReplace (ConsulRegistry mem_consul) ''M'' [] demo_node demo_registered))
      of Ok l \<Rightarrow> l | _ \<Rightarrow> [])"
proof -
  let ?R = "ConsulRegistry mem_consul"
  have a: "sm_selfInst demo_node = Some (Instance_zero\<lparr>in_ID := ''node-01''\<rparr>)" "sm_methodPrefix demo_node = ''chat-service''"
    by (simp_all add: demo_node_def ServiceManager_SetSelf_def)
  have b: "snd (ServiceManager_UpdateMethodMetaReplace ?R ''M'' [] demo_node demo_registered) = None"
    by (simp add: ServiceManager_UpdateMethodMetaReplace_def a ConsulRegistry_def ConsulRegistry_Register_def mem_consul_def)
  obtain s' where s': "ServiceManager_UpdateMethodMetaReplace ?R ''M'' [] demo_node demo_registered = (s', None)"
    using b by (metis prod.collapse)
  obtain l where l: "rg_List ?R ''chat-service-M'' s' = Ok l"
    by (simp add: ConsulRegistry_def ConsulRegistry_List_def mem_consul_def)
  have "in_ID (Instance_zero\<lparr>in_ID := ''node-01''\<rparr>) @ ''#'' @ ''M'' \<notin> in_ID ` set l"
    by (rule replacing_meta_moves_the_method[OF mem_consul_by_id a(1) s']) (simp_all add: a(2) l)
  moreover have "rg_List ?R ''chat-service-M'' demo_registered \<noteq> Ok []" by code_simp
  ultimately show ?thesis by (simp add: s' l Instance_zero_def)
qed

text \<open>\<^verbatim>\<open>GetMetaKey\<close> gives the non-empty values of the key over all instances, each once and in
  ascending order.\<close>

theorem meta_key_values:
  "sorted (fst (ServiceManager_GetMetaKey service key m)) \<and> distinct (fst (ServiceManager_GetMetaKey service key m))
   \<and> set (fst (ServiceManager_GetMetaKey service key m))
     = {v. v \<noteq> '''' \<and> (\<exists>it \<in> set (fst (ServiceManager_All service m)). map_of (in_Metadata it) key = Some v)}"
proof -
  let ?f = "\<lambda>it seen. case map_of (in_Metadata it) key of
      Some v \<Rightarrow> if v \<noteq> '''' then List.insert v seen else seen | None \<Rightarrow> seen"
  have "distinct acc \<Longrightarrow> distinct (fold ?f xs acc)
      \<and> set (fold ?f xs acc) = set acc \<union> {v. v \<noteq> '''' \<and> (\<exists>it \<in> set xs. map_of (in_Metadata it) key = Some v)}" for xs acc
  proof (induction xs arbitrary: acc)
    case (Cons it xs)
    have "distinct (?f it acc)" using Cons.prems by (auto split: option.splits)
    from Cons.IH[OF this] show ?case by (auto split: option.splits if_splits)
  qed simp
  from this[of "[]" "fst (ServiceManager_All service m)"] show ?thesis
    by (auto simp: ServiceManager_GetMetaKey_def split_beta Let_def)
qed

end
