(* ===== verification/NacosRegistry.thy ===== *)
theory NacosRegistry
  imports ServiceRegistry GoStrings
begin

section \<open>The naming service Nacos\<close>

text \<open>
  \<^verbatim>\<open>service/nacos/\<close>: an instance that lists its methods in its metadata and registers itself anew with every
  method, the watcher of a configuration, and the registration at start; and \<^verbatim>\<open>RunService\<close> of
  \<^verbatim>\<open>global/config/registry.go\<close>. The client of the service is a parameter.
\<close>

subsection \<open>The registry of methods\<close>

record nacos_registry =
  na_ServiceName :: string
  na_Port :: int
  na_IP :: string
  na_Group :: string
  na_services :: "(string, unit) gomap"

record nacos_instance =
  ni_ServiceName :: string
  ni_Group :: string
  ni_IP :: string
  ni_Port :: int
  ni_Metadata :: "(string, string) gomap"

record 's nacos_client =
  nc_Deregister :: "string \<Rightarrow> string \<Rightarrow> string \<Rightarrow> int \<Rightarrow> 's \<Rightarrow> 's \<times> bool go"
  nc_Register :: "nacos_instance \<Rightarrow> 's \<Rightarrow> 's \<times> bool go"

text \<open>The client is made first; \<open>None\<close>: that failed, which ends the program.\<close>

definition nacos_NewRegistry :: "bool \<Rightarrow> string \<Rightarrow> string \<Rightarrow> int \<Rightarrow> nacos_registry option" where
  "nacos_NewRegistry client_made serviceName ip port = (if client_made
     then Some \<lparr> na_ServiceName = serviceName, na_Port = port, na_IP = ip, na_Group = ''DEFAULT_GROUP'', na_services = [] \<rparr>
     else None)"

definition serviceList :: "order \<Rightarrow> nacos_registry \<Rightarrow> string" where
  "serviceList o1 r = join '','' (map fst (reorder o1 (na_services r)))"

text \<open>The old instance is taken out first, whatever that answers.\<close>

definition reRegister :: "'s nacos_client \<Rightarrow> order \<Rightarrow> nacos_registry \<Rightarrow> 's \<Rightarrow> 's \<times> unit go" where
  "reRegister C o1 r s =
     (case nc_Deregister C (na_ServiceName r) (na_Group r) (na_IP r) (na_Port r) s of
        (s1, Panic e) \<Rightarrow> (s1, Panic e)
      | (s1, _) \<Rightarrow>
          (case nc_Register C \<lparr> ni_ServiceName = na_ServiceName r, ni_Group = na_Group r, ni_IP = na_IP r, ni_Port = na_Port r,
                  ni_Metadata = [(''protocol'', ''grpc''), (''services'', serviceList o1 r)] \<rparr> s1 of
             (s2, Error e) \<Rightarrow> (s2, Error (''register failed: '' @ e))
           | (s2, Panic e) \<Rightarrow> (s2, Panic e)
           | (s2, Ok registered) \<Rightarrow> (s2, (if registered then Ok () else Error ''register failed: returned false''))))"

text \<open>The error is only logged, and the method stays in the list.\<close>

definition AddRemoteService :: "'s nacos_client \<Rightarrow> order \<Rightarrow> string \<Rightarrow> nacos_registry \<Rightarrow> 's \<Rightarrow> nacos_registry \<times> 's \<times> unit go" where
  "AddRemoteService C o1 service r s =
     (if map_of (na_services r) service \<noteq> None then (r, s, Ok ())
      else let r1 = r\<lparr> na_services := AList.update service () (na_services r) \<rparr>
           in case reRegister C o1 r1 s of
                (s1, Panic e) \<Rightarrow> (r1, s1, Panic e)
              | (s1, _) \<Rightarrow> (r1, s1, Ok ()))"

subsection \<open>The configuration\<close>

text \<open>
  The watcher reads the configuration once, then takes every change; \<open>changes\<close> are the ones that come if
  listening succeeds.
\<close>

definition StartNacosWatcher :: "string go \<Rightarrow> unit go \<Rightarrow> string list \<Rightarrow> string \<Rightarrow> string" where
  "StartNacosWatcher got listen changes cur =
     (case got of Ok content \<Rightarrow> (case listen of Ok _ \<Rightarrow> last (content # changes) | _ \<Rightarrow> content) | _ \<Rightarrow> cur)"

definition GetCurrentConfig :: "string \<Rightarrow> string" where
  "GetCurrentConfig cur = cur"

definition StartServiceRegistry :: "'s nacos_client \<Rightarrow> string \<Rightarrow> 's \<Rightarrow> 's \<times> bool go" where
  "StartServiceRegistry C serviceName s = nc_Register C \<lparr> ni_ServiceName = serviceName, ni_Group = ''DEFAULT_GROUP'', ni_IP = ''127.0.0.1'',
     ni_Port = 8080, ni_Metadata = [(''protocol'', ''grpc''), (''version'', ''v1''), (''auth'', ''required'')] \<rparr> s"

subsection \<open>A failed registration\<close>

text \<open>
  What the service has: the instances by service, group, address and port. Taking out removes one, a
  registration that is taken puts one; a registration that fails changes nothing.
\<close>

type_synonym nacos_view = "string \<times> string \<times> string \<times> int \<Rightarrow> (string, string) gomap option"

definition nacos_laws :: "'s nacos_client \<Rightarrow> ('s \<Rightarrow> nacos_view) \<Rightarrow> bool" where
  "nacos_laws C view \<longleftrightarrow>
     (\<forall>n g i p s s' ok. nc_Deregister C n g i p s = (s', Ok ok) \<longrightarrow> view s' = (view s)((n, g, i, p) := None))
   \<and> (\<forall>x s s'. nc_Register C x s = (s', Ok True) \<longrightarrow>
        view s' = (view s)((ni_ServiceName x, ni_Group x, ni_IP x, ni_Port x) \<mapsto> ni_Metadata x))
   \<and> (\<forall>x s s'. nc_Register C x s = (s', Ok False) \<longrightarrow> view s' = view s)"

definition own_key :: "nacos_registry \<Rightarrow> string \<times> string \<times> string \<times> int" where
  "own_key r = (na_ServiceName r, na_Group r, na_IP r, na_Port r)"

lemma AddRemoteService_again:
  "map_of (na_services r) service \<noteq> None \<Longrightarrow> AddRemoteService C o1 service r s = (r, s, Ok ())"
  by (simp add: AddRemoteService_def)

lemma AddRemoteService_listed:
  "AddRemoteService C o1 service r s = (r1, s1, x) \<Longrightarrow> map_of (na_services r1) service \<noteq> None \<and> own_key r1 = own_key r"
  by (auto simp: AddRemoteService_def own_key_def Let_def split: prod.splits go.splits if_splits)

text \<open>
  A method whose registration is refused takes the whole instance out of the service: the old instance is gone,
  the caller is told nothing, and asking for the same method again, any number of times, does not bring it back.
\<close>

theorem refused_registration_is_final:
  assumes "nacos_laws C view" and "map_of (na_services r) service = None"
    and "nc_Deregister C (na_ServiceName r) (na_Group r) (na_IP r) (na_Port r) s = (s1, Ok ok)"
    and "\<And>m. nc_Register C \<lparr> ni_ServiceName = na_ServiceName r, ni_Group = na_Group r, ni_IP = na_IP r, ni_Port = na_Port r, ni_Metadata = m \<rparr> s1
      = (s2, Ok False)"
    and "AddRemoteService C o1 service r s = (r1, s3, x)"
  shows "x = Ok () \<and> view s3 (own_key r) = None
    \<and> fold (\<lambda>o2 (r, s). case AddRemoteService C o2 service r s of (r', s', _) \<Rightarrow> (r', s')) os (r1, s3) = (r1, s3)"
proof -
  have s3: "s3 = s2" "x = Ok ()" using assms(2-5) by (auto simp: AddRemoteService_def reRegister_def Let_def)
  have "view s2 = view s1" "view s1 = (view s)(own_key r := None)" using assms(1,3,4) unfolding nacos_laws_def own_key_def by blast+
  moreover have "map_of (na_services r1) service \<noteq> None" using AddRemoteService_listed[OF assms(5)] by blast
  then have "fold (\<lambda>o2 (r, s). case AddRemoteService C o2 service r s of (r', s', _) \<Rightarrow> (r', s')) os (r1, s3) = (r1, s3)"
    by (induction os) (simp_all add: AddRemoteService_again)
  ultimately show ?thesis using s3 by simp
qed

subsection \<open>The registration at start\<close>

text \<open>
  \<^verbatim>\<open>RunService\<close>: the address of the registry and the instance; the map of metadata that the caller passed is
  emptied before it is used.
\<close>

definition run_consul_addr :: "(string \<Rightarrow> string) \<Rightarrow> string" where
  "run_consul_addr env = (if env ''CONSUL_ADDR'' = '''' then ''127.0.0.1:8500'' else env ''CONSUL_ADDR'')"

definition run_instance :: "string \<Rightarrow> string \<Rightarrow> int \<Rightarrow> (string, string) gomap \<Rightarrow> instance_rec" where
  "run_instance srvName serviceID port meta = (let cleared = filter (\<lambda>(k, v). False) meta in
     \<lparr> in_Service = srvName, in_ID = serviceID, in_Address = ''127.0.0.1'', in_Port = port, in_Metadata = cleared, in_Ephemeral = False \<rparr>)"

text \<open>So the zone, the weight and the node the caller gave are never registered.\<close>

lemma run_instance_no_metadata: "in_Metadata (run_instance srvName serviceID port meta) = []"
  by (simp add: run_instance_def)

end
