(* ===== verification/MethodSvc.thy ===== *)
theory MethodSvc
  imports GoStrings
begin

section \<open>Methods registered as services\<close>

text \<open>
  \<^verbatim>\<open>service/registry/methodsvc/methodsvc.go\<close>: a method of an instance is a service of the agent, with a map
  of texts. Maps are shared by whoever holds them, so they live in a heap; a registration is copied with the
  address of its map. The agent is a parameter.
\<close>

subsection \<open>Registrations\<close>

record service_check =
  sk_GRPC :: string
  sk_Interval :: string
  sk_Timeout :: string
  sk_TTL :: string
  sk_Deregister :: string

definition no_check :: service_check where
  "no_check = \<lparr> sk_GRPC = '''', sk_Interval = '''', sk_Timeout = '''', sk_TTL = '''', sk_Deregister = '''' \<rparr>"

record method_reg =
  mr_Name :: string
  mr_ID :: string
  mr_Address :: string
  mr_Port :: int
  mr_Meta :: "nat option"
  mr_Check :: service_check

text \<open>The heap of maps, the next free address, and the agent.\<close>

record 's meth_world =
  mw_maps :: "nat \<Rightarrow> (string, string) gomap"
  mw_next :: nat
  mw_agent :: 's

definition new_map :: "'s meth_world \<Rightarrow> nat \<times> 's meth_world" where
  "new_map w = (mw_next w, w\<lparr> mw_maps := (mw_maps w)(mw_next w := []), mw_next := Suc (mw_next w) \<rparr>)"

definition put_meta :: "nat \<Rightarrow> string \<Rightarrow> string \<Rightarrow> 's meth_world \<Rightarrow> 's meth_world" where
  "put_meta a k v w = w\<lparr> mw_maps := (mw_maps w)(a := AList.update k v (mw_maps w a)) \<rparr>"

text \<open>The calls of the agent; a registration is sent with what its map holds.\<close>

record 's agent =
  ag_Register :: "method_reg \<Rightarrow> (string, string) gomap \<Rightarrow> 's \<Rightarrow> 's \<times> unit go"
  ag_Deregister :: "string \<Rightarrow> 's \<Rightarrow> 's \<times> unit go"
  ag_UpdateTTL :: "string \<Rightarrow> string \<Rightarrow> string \<Rightarrow> 's \<Rightarrow> 's \<times> unit go"

definition send_reg :: "'s agent \<Rightarrow> method_reg \<Rightarrow> 's meth_world \<Rightarrow> 's meth_world \<times> unit go" where
  "send_reg A reg w = (case ag_Register A reg (case mr_Meta reg of None \<Rightarrow> [] | Some a \<Rightarrow> mw_maps w a) (mw_agent w) of
     (s, x) \<Rightarrow> (w\<lparr> mw_agent := s \<rparr>, x))"

subsection \<open>The service\<close>

record method_opt =
  mo_Addr :: string
  mo_Port :: int
  mo_InstanceID :: string
  mo_TTL :: duration
  mo_UseGRPCHealth :: bool

record method_service =
  me_addr :: string
  me_port :: int
  me_instanceID :: string
  me_ttl :: duration
  me_useGRPC :: bool
  me_regs :: "(string, method_reg) gomap"
  me_stopped :: bool

text \<open>\<open>client\<close> is what starting the client library answers.\<close>

definition methodsvc_New :: "unit go \<Rightarrow> method_opt \<Rightarrow> method_service go" where
  "methodsvc_New client opt = (case client of
       Ok _ \<Rightarrow> Ok \<lparr> me_addr = mo_Addr opt, me_port = mo_Port opt, me_instanceID = mo_InstanceID opt,
                me_ttl = (if mo_TTL opt \<le> 0 \<and> \<not> mo_UseGRPCHealth opt then 10 * second else mo_TTL opt),
                me_useGRPC = mo_UseGRPCHealth opt, me_regs = [], me_stopped = False \<rparr>
     | Error e \<Rightarrow> Error e | Panic e \<Rightarrow> Panic e)"

text \<open>The whole seconds of a TTL, which is positive where it is used and below some \<open>2 ^ 22\<close> seconds.\<close>

definition check_of :: "method_service \<Rightarrow> service_check" where
  "check_of m = (if me_useGRPC m
     then no_check\<lparr> sk_GRPC := me_addr m @ '':'' @ itoa (me_port m), sk_Interval := ''5s'', sk_Timeout := ''2s'' \<rparr>
     else no_check\<lparr> sk_TTL := itoa (me_ttl m div second) @ ''s'', sk_Deregister := ''1m'' \<rparr>)"

definition method_id :: "method_service \<Rightarrow> string \<Rightarrow> string" where
  "method_id m name = me_instanceID m @ ''#'' @ name"

definition meta_or_new :: "nat option \<Rightarrow> 's meth_world \<Rightarrow> nat \<times> 's meth_world" where
  "meta_or_new meta w = (case meta of None \<Rightarrow> new_map w | Some a \<Rightarrow> (a, w))"

definition method_Upsert ::
  "'s agent \<Rightarrow> string \<Rightarrow> nat option \<Rightarrow> method_service \<Rightarrow> 's meth_world \<Rightarrow> method_service \<times> 's meth_world \<times> unit go" where
  "method_Upsert A name meta m w =
     (case meta_or_new meta w of (a, w1) \<Rightarrow>
        (let w2 = put_meta a ''method'' name w1;
             reg = \<lparr> mr_Name = ''chat.'' @ name, mr_ID = method_id m name, mr_Address = me_addr m, mr_Port = me_port m,
                     mr_Meta = Some a, mr_Check = check_of m \<rparr>
         in case send_reg A reg w2 of
              (w3, Ok _) \<Rightarrow> (m\<lparr> me_regs := AList.update name reg (me_regs m) \<rparr>, w3, Ok ())
            | (w3, e) \<Rightarrow> (m, w3, e)))"

definition UpdateMetaReplace ::
  "'s agent \<Rightarrow> string \<Rightarrow> nat option \<Rightarrow> method_service \<Rightarrow> 's meth_world \<Rightarrow> method_service \<times> 's meth_world \<times> unit go" where
  "UpdateMetaReplace A name meta m w =
     (case map_of (me_regs m) name of
        None \<Rightarrow> (m, w, Error (''method '' @ name @ '' not registered''))
      | Some reg \<Rightarrow>
          (case meta_or_new meta w of (a, w1) \<Rightarrow>
             (let w2 = put_meta a ''method'' name w1; cp = reg\<lparr> mr_Meta := Some a \<rparr>
              in case send_reg A cp w2 of
                   (w3, Ok _) \<Rightarrow> (m\<lparr> me_regs := AList.update name cp (me_regs m) \<rparr>, w3, Ok ())
                 | (w3, e) \<Rightarrow> (m, w3, e))))"

text \<open>The patch is written into the map of the registration itself; the order of its keys does not matter.\<close>

definition UpdateMetaPatch ::
  "'s agent \<Rightarrow> string \<Rightarrow> (string, string) gomap \<Rightarrow> method_service \<Rightarrow> 's meth_world \<Rightarrow> method_service \<times> 's meth_world \<times> unit go" where
  "UpdateMetaPatch A name patch m w =
     (case map_of (me_regs m) name of
        None \<Rightarrow> (m, w, Error (''method '' @ name @ '' not registered''))
      | Some reg \<Rightarrow>
          (case meta_or_new (mr_Meta reg) w of (a, w1) \<Rightarrow>
             (let cp = reg\<lparr> mr_Meta := Some a \<rparr>;
                  w2 = fold (\<lambda>(k, v). put_meta a k v) patch w1;
                  w3 = (if map_of (mw_maps w2 a) ''method'' = None then put_meta a ''method'' name w2 else w2)
              in case send_reg A cp w3 of (w4, x) \<Rightarrow> (m, w4, x))))"

definition heartbeat_every :: "method_service \<Rightarrow> duration option" where
  "heartbeat_every m = (if me_useGRPC m then None
     else let i = (if me_ttl m < 0 then - ((- me_ttl m) div 2) else me_ttl m div 2) in Some (if i < second then second else i))"

definition method_heartbeat :: "'s agent \<Rightarrow> (string, method_reg) gomap \<Rightarrow> 's meth_world \<Rightarrow> 's meth_world" where
  "method_heartbeat A regs w = w\<lparr> mw_agent := fold (\<lambda>(n, reg) s. fst (ag_UpdateTTL A (''service:'' @ mr_ID reg) ''pass'' ''passing'' s)) regs (mw_agent w) \<rparr>"

text \<open>The loop beats for the registrations of the moment, in an order the map leaves open, until the service is stopped.\<close>

definition heartbeat_tick :: "'s agent \<Rightarrow> order \<Rightarrow> method_service \<Rightarrow> 's meth_world \<Rightarrow> 's meth_world" where
  "heartbeat_tick A o1 m w = method_heartbeat A (reorder o1 (me_regs m)) w"

definition method_Stop :: "'s agent \<Rightarrow> order \<Rightarrow> method_service \<Rightarrow> 's meth_world \<Rightarrow> method_service \<times> 's meth_world \<times> unit go" where
  "method_Stop A o1 m w =
     (if me_stopped m then (m, w, Panic ''close of closed channel'')
      else (m\<lparr> me_stopped := True, me_regs := [] \<rparr>,
            w\<lparr> mw_agent := fold (\<lambda>(n, reg) s. fst (ag_Deregister A (mr_ID reg) s)) (reorder o1 (me_regs m)) (mw_agent w) \<rparr>, Ok ()))"

subsection \<open>What the agent knows\<close>

text \<open>A registration that is taken is what the agent has under its id; other ids are left alone.\<close>

definition agent_laws :: "'s agent \<Rightarrow> ('s \<Rightarrow> string \<Rightarrow> (method_reg \<times> (string, string) gomap) option) \<Rightarrow> bool" where
  "agent_laws A view \<longleftrightarrow> (\<forall>reg meta s s'. ag_Register A reg meta s = (s', Ok ()) \<longrightarrow> view s' = (view s)(mr_ID reg \<mapsto> (reg, meta)))"

definition agrees :: "('s \<Rightarrow> string \<Rightarrow> (method_reg \<times> (string, string) gomap) option) \<Rightarrow> method_service \<Rightarrow> 's meth_world \<Rightarrow> bool" where
  "agrees view m w \<longleftrightarrow>
     (\<forall>name reg. map_of (me_regs m) name = Some reg \<longrightarrow> mr_ID reg = method_id m name \<and>
        (\<exists>a. mr_Meta reg = Some a \<and> a < mw_next w \<and> view (mw_agent w) (mr_ID reg) = Some (reg, mw_maps w a)))
   \<and> (\<forall>name name' reg reg'. map_of (me_regs m) name = Some reg \<longrightarrow> map_of (me_regs m) name' = Some reg' \<longrightarrow>
        mr_Meta reg = mr_Meta reg' \<longrightarrow> name = name')"

lemma put_meta_simps [simp]:
  "mw_agent (put_meta a k v w) = mw_agent w" "mw_next (put_meta a k v w) = mw_next w"
  "mw_maps (put_meta a k v w) = (mw_maps w)(a := AList.update k v (mw_maps w a))"
  by (simp_all add: put_meta_def)

lemma put_metas:
  "mw_agent (fold (\<lambda>(k, v). put_meta a k v) p w) = mw_agent w \<and> mw_next (fold (\<lambda>(k, v). put_meta a k v) p w) = mw_next w
   \<and> (b \<noteq> a \<longrightarrow> mw_maps (fold (\<lambda>(k, v). put_meta a k v) p w) b = mw_maps w b)"
  by (induction p arbitrary: w) auto

lemma put_metas_map:
  "gm_ok p \<Longrightarrow> map_of (mw_maps (fold (\<lambda>(k, v). put_meta a k v) p w) a) k
     = (case map_of p k of None \<Rightarrow> map_of (mw_maps w a) k | Some v \<Rightarrow> Some v)"
proof (induction p arbitrary: w)
  case (Cons kv p)
  obtain j v where kv: "kv = (j, v)" by fastforce
  have ok: "gm_ok p" "map_of p j = None" using Cons.prems by (auto simp: gm_ok_def kv map_of_eq_None_iff)
  from Cons.IH[OF ok(1), of "put_meta a j v w"] ok(2) show ?case by (simp add: kv split: option.split)
qed simp

text \<open>One registration is replaced, its map is the only one that changed, and the agent took it.\<close>

lemma agrees_replace:
  assumes "agrees view m w" "agent_laws A view" "send_reg A reg w2 = (w3, Ok ())"
    and "mr_ID reg = method_id m name" "mr_Meta reg = Some a" "a < mw_next w2"
    and "mw_agent w2 = mw_agent w" "mw_next w \<le> mw_next w2" "\<And>b. b \<noteq> a \<Longrightarrow> b < mw_next w \<Longrightarrow> mw_maps w2 b = mw_maps w b"
    and new: "\<And>n r. map_of (me_regs m) n = Some r \<Longrightarrow> mr_Meta r = Some a \<Longrightarrow> n = name"
  shows "agrees view (m\<lparr> me_regs := AList.update name reg (me_regs m) \<rparr>) w3"
proof -
  have w3: "view (mw_agent w3) = (view (mw_agent w))(method_id m name \<mapsto> (reg, mw_maps w2 a))" "mw_maps w3 = mw_maps w2" "mw_next w3 = mw_next w2"
    using assms(2-5,7) by (auto simp: send_reg_def agent_laws_def split: prod.splits)
  have id: "method_id (m\<lparr> me_regs := x \<rparr>) n = method_id m n" "method_id m n = method_id m n' \<longleftrightarrow> n = n'" for x n n'
    by (simp_all add: method_id_def)
  have one: "\<exists>b. mr_Meta r = Some b \<and> b < mw_next w3 \<and> view (mw_agent w3) (mr_ID r) = Some (r, mw_maps w3 b) \<and> mr_ID r = method_id m n"
    if n: "n \<noteq> name" "map_of (me_regs m) n = Some r" for n r
  proof -
    obtain b where b: "mr_Meta r = Some b" "b < mw_next w" "view (mw_agent w) (mr_ID r) = Some (r, mw_maps w b)" "mr_ID r = method_id m n"
      using assms(1) n(2) unfolding agrees_def by blast
    have "b \<noteq> a" using new[OF n(2)] b(1) n(1) by auto
    with b n(1) w3 id assms(8,9) show ?thesis by (intro exI[of _ b]) auto
  qed
  have own: "\<exists>b. mr_Meta reg = Some b \<and> b < mw_next w3 \<and> view (mw_agent w3) (mr_ID reg) = Some (reg, mw_maps w3 b) \<and> mr_ID reg = method_id m name"
    using w3 assms(4-6) by simp
  have all: "\<exists>b. mr_Meta r = Some b \<and> b < mw_next w3 \<and> view (mw_agent w3) (mr_ID r) = Some (r, mw_maps w3 b) \<and> mr_ID r = method_id m n"
    if "map_of (AList.update name reg (me_regs m)) n = Some r" for n r
    using that one own by (cases "n = name") simp_all
  have apart: "n = n'" if "map_of (AList.update name reg (me_regs m)) n = Some r" "map_of (AList.update name reg (me_regs m)) n' = Some r'"
      "mr_Meta r = mr_Meta r'" for n n' r r'
  proof (rule ccontr)
    assume ne: "n \<noteq> n'"
    have other: "mr_Meta q \<noteq> Some a" if "k \<noteq> name" "map_of (me_regs m) k = Some q" for k q using new[OF that(2)] that(1) by blast
    consider "n = name" | "n' = name" | "n \<noteq> name" "n' \<noteq> name" by blast
    then show False
    proof cases
      case 1
      with ne that assms(5) have "map_of (me_regs m) n' = Some r'" "mr_Meta r' = Some a" "n' \<noteq> name" by simp_all
      with other show ?thesis by blast
    next
      case 2
      with ne that assms(5) have "map_of (me_regs m) n = Some r" "mr_Meta r = Some a" "n \<noteq> name" by simp_all
      with other show ?thesis by blast
    next
      case 3
      with that have "map_of (me_regs m) n = Some r" "map_of (me_regs m) n' = Some r'" by simp_all
      with that(3) assms(1) ne show ?thesis unfolding agrees_def by blast
    qed
  qed
  have regs: "me_regs (m\<lparr> me_regs := AList.update name reg (me_regs m) \<rparr>) = AList.update name reg (me_regs m)" by simp
  show ?thesis unfolding agrees_def regs id(1)
  proof (intro conjI allI impI)
    fix n r assume "map_of (AList.update name reg (me_regs m)) n = Some r"
    then show "mr_ID r = method_id m n"
      and "\<exists>a. mr_Meta r = Some a \<and> a < mw_next w3 \<and> view (mw_agent w3) (mr_ID r) = Some (r, mw_maps w3 a)"
      using all by blast+
  qed (rule apart)
qed

subsection \<open>Any calls that are taken\<close>

text \<open>Callers that make a map for every call.\<close>

datatype method_op = MUpsert string "(string, string) gomap" | MReplace string "(string, string) gomap" | MPatch string "(string, string) gomap"

definition caller_map :: "(string, string) gomap \<Rightarrow> 's meth_world \<Rightarrow> nat \<times> 's meth_world" where
  "caller_map c w = (mw_next w, w\<lparr> mw_maps := (mw_maps w)(mw_next w := c), mw_next := Suc (mw_next w) \<rparr>)"

fun method_call :: "'s agent \<Rightarrow> method_op \<Rightarrow> method_service \<Rightarrow> 's meth_world \<Rightarrow> method_service \<times> 's meth_world \<times> unit go" where
  "method_call A (MUpsert n c) m w = (case caller_map c w of (a, w1) \<Rightarrow> method_Upsert A n (Some a) m w1)"
| "method_call A (MReplace n c) m w = (case caller_map c w of (a, w1) \<Rightarrow> UpdateMetaReplace A n (Some a) m w1)"
| "method_call A (MPatch n p) m w = UpdateMetaPatch A n p m w"

fun method_run :: "'s agent \<Rightarrow> method_op list \<Rightarrow> method_service \<Rightarrow> 's meth_world \<Rightarrow> (method_service \<times> 's meth_world) option" where
  "method_run A [] m w = Some (m, w)"
| "method_run A (x # xs) m w = (case method_call A x m w of (m1, w1, Ok _) \<Rightarrow> method_run A xs m1 w1 | _ \<Rightarrow> None)"

text \<open>What the callers mean: the texts of every method.\<close>

fun meant_step :: "method_op \<Rightarrow> (string \<rightharpoonup> (string \<rightharpoonup> string)) \<Rightarrow> (string \<rightharpoonup> (string \<rightharpoonup> string))" where
  "meant_step (MUpsert n c) e = e(n \<mapsto> (map_of c)(''method'' \<mapsto> n))"
| "meant_step (MReplace n c) e = e(n \<mapsto> (map_of c)(''method'' \<mapsto> n))"
| "meant_step (MPatch n p) e = e(n \<mapsto> (let b = the (e n) ++ map_of p in if b ''method'' = None then b(''method'' \<mapsto> n) else b))"

definition texts_of :: "method_service \<Rightarrow> 's meth_world \<Rightarrow> (string \<rightharpoonup> (string \<rightharpoonup> string))" where
  "texts_of m w n = map_option (\<lambda>reg. map_of (mw_maps w (the (mr_Meta reg)))) (map_of (me_regs m) n)"

definition op_ok :: "method_op \<Rightarrow> bool" where
  "op_ok x \<longleftrightarrow> (case x of MUpsert n c \<Rightarrow> gm_ok c | MReplace n c \<Rightarrow> gm_ok c | MPatch n p \<Rightarrow> gm_ok p)"

lemma agrees_meta: "agrees view m w \<Longrightarrow> map_of (me_regs m) n = Some r \<Longrightarrow> \<exists>a. mr_Meta r = Some a \<and> a < mw_next w \<and> mr_ID r = method_id m n"
  unfolding agrees_def by blast

lemma agrees_unshared:
  "agrees view m w \<Longrightarrow> map_of (me_regs m) n = Some r \<Longrightarrow> map_of (me_regs m) n' = Some r' \<Longrightarrow> mr_Meta r = mr_Meta r' \<Longrightarrow> n = n'"
  unfolding agrees_def by blast

lemma send_reg_keeps: "send_reg A reg w = (w', x) \<Longrightarrow> mw_maps w' = mw_maps w \<and> mw_next w' = mw_next w"
  by (auto simp: send_reg_def split: prod.splits)

lemma texts_replace:
  assumes "agrees view m w" "mr_Meta reg = Some a" "\<And>b. b \<noteq> a \<Longrightarrow> b < mw_next w \<Longrightarrow> mw_maps w' b = mw_maps w b"
    and "\<And>n r. map_of (me_regs m) n = Some r \<Longrightarrow> mr_Meta r = Some a \<Longrightarrow> n = name"
  shows "texts_of (m\<lparr> me_regs := AList.update name reg (me_regs m) \<rparr>) w' = (texts_of m w)(name \<mapsto> map_of (mw_maps w' a))"
proof
  fix n
  show "texts_of (m\<lparr> me_regs := AList.update name reg (me_regs m) \<rparr>) w' n = ((texts_of m w)(name \<mapsto> map_of (mw_maps w' a))) n"
  proof (cases "n = name \<or> map_of (me_regs m) n = None")
    case True
    then show ?thesis using assms(2) by (auto simp: texts_of_def)
  next
    case False
    then obtain r where r: "n \<noteq> name" "map_of (me_regs m) n = Some r" by auto
    then obtain b where b: "mr_Meta r = Some b" "b < mw_next w" using agrees_meta[OF assms(1)] by blast
    have "b \<noteq> a" using assms(4)[OF r(2)] b(1) r(1) by auto
    then show ?thesis using r b assms(3) by (simp add: texts_of_def)
  qed
qed

lemma fresh_unshared: "agrees view m w \<Longrightarrow> map_of (me_regs m) n = Some r \<Longrightarrow> mr_Meta r = Some (mw_next w) \<Longrightarrow> n = name"
  using agrees_meta by fastforce

lemma update_same: "map_of m k = Some v \<Longrightarrow> AList.update k v m = m"
  by (induction m) (auto split: if_splits)

lemma method_call_meant:
  assumes "agent_laws A view" "agrees view m w" "op_ok x" "method_call A x m w = (m', w', Ok ())"
  shows "agrees view m' w' \<and> texts_of m' w' = meant_step x (texts_of m w)"
proof (cases x)
  case (MUpsert n c)
  define w2 where "w2 = put_meta (mw_next w) ''method'' n (snd (caller_map c w))"
  define reg where "reg = \<lparr> mr_Name = ''chat.'' @ n, mr_ID = method_id m n, mr_Address = me_addr m, mr_Port = me_port m,
                     mr_Meta = Some (mw_next w), mr_Check = check_of m \<rparr>"
  have run: "send_reg A reg w2 = (w', Ok ())" "m' = m\<lparr> me_regs := AList.update n reg (me_regs m) \<rparr>"
    using assms(4) by (auto simp: MUpsert method_Upsert_def meta_or_new_def caller_map_def w2_def reg_def Let_def split: prod.splits go.splits)
  have w2: "mw_agent w2 = mw_agent w" "mw_next w2 = Suc (mw_next w)" "mw_maps w2 = (mw_maps w)(mw_next w := AList.update ''method'' n c)"
    by (simp_all add: w2_def caller_map_def)
  have "agrees view m' w'" unfolding run(2)
    by (rule agrees_replace[OF assms(2,1) run(1), of n "mw_next w"]) (use w2 fresh_unshared[OF assms(2)] in \<open>auto simp: reg_def\<close>)
  moreover have "texts_of m' w' = (texts_of m w)(n \<mapsto> map_of (mw_maps w' (mw_next w)))" unfolding run(2)
    by (rule texts_replace[OF assms(2)]) (use w2 send_reg_keeps[OF run(1)] fresh_unshared[OF assms(2)] in \<open>auto simp: reg_def\<close>)
  ultimately show ?thesis using w2 send_reg_keeps[OF run(1)] by (simp add: MUpsert)
next
  case (MReplace n c)
  define w2 where "w2 = put_meta (mw_next w) ''method'' n (snd (caller_map c w))"
  obtain reg0 where reg0: "map_of (me_regs m) n = Some reg0"
    using assms(4) by (cases "map_of (me_regs m) n") (auto simp: MReplace UpdateMetaReplace_def caller_map_def)
  define reg where "reg = reg0\<lparr> mr_Meta := Some (mw_next w) \<rparr>"
  have run: "send_reg A reg w2 = (w', Ok ())" "m' = m\<lparr> me_regs := AList.update n reg (me_regs m) \<rparr>"
    using assms(4) reg0 by (auto simp: MReplace UpdateMetaReplace_def meta_or_new_def caller_map_def w2_def reg_def Let_def split: prod.splits go.splits)
  have w2: "mw_agent w2 = mw_agent w" "mw_next w2 = Suc (mw_next w)" "mw_maps w2 = (mw_maps w)(mw_next w := AList.update ''method'' n c)"
    by (simp_all add: w2_def caller_map_def)
  have id: "mr_ID reg0 = method_id m n" using agrees_meta[OF assms(2) reg0] by blast
  have "agrees view m' w'" unfolding run(2)
    by (rule agrees_replace[OF assms(2,1) run(1), of n "mw_next w"]) (use w2 id fresh_unshared[OF assms(2)] in \<open>auto simp: reg_def\<close>)
  moreover have "texts_of m' w' = (texts_of m w)(n \<mapsto> map_of (mw_maps w' (mw_next w)))" unfolding run(2)
    by (rule texts_replace[OF assms(2)]) (use w2 send_reg_keeps[OF run(1)] fresh_unshared[OF assms(2)] in \<open>auto simp: reg_def\<close>)
  ultimately show ?thesis using w2 send_reg_keeps[OF run(1)] by (simp add: MReplace)
next
  case (MPatch n p)
  obtain reg where reg: "map_of (me_regs m) n = Some reg"
    using assms(4) by (cases "map_of (me_regs m) n") (auto simp: MPatch UpdateMetaPatch_def)
  obtain a where a: "mr_Meta reg = Some a" "a < mw_next w" "mr_ID reg = method_id m n" using agrees_meta[OF assms(2) reg] by blast
  define w2 where "w2 = fold (\<lambda>(k, v). put_meta a k v) p w"
  define w3 where "w3 = (if map_of (mw_maps w2 a) ''method'' = None then put_meta a ''method'' n w2 else w2)"
  have rs: "reg\<lparr> mr_Meta := Some a \<rparr> = reg" using a(1) by (cases reg) simp
  have run: "send_reg A reg w3 = (w', Ok ())" "m' = m"
    using assms(4) reg a(1) rs by (auto simp: MPatch UpdateMetaPatch_def meta_or_new_def w2_def w3_def Let_def split: prod.splits)
  have w3: "mw_agent w3 = mw_agent w" "mw_next w3 = mw_next w" "\<And>b. b \<noteq> a \<Longrightarrow> mw_maps w3 b = mw_maps w b"
    using put_metas[of a p w] by (auto simp: w3_def w2_def)
  have same: "m = m\<lparr> me_regs := AList.update n reg (me_regs m) \<rparr>" using update_same[OF reg] by simp
  have uns: "k = n" if "map_of (me_regs m) k = Some r" "mr_Meta r = Some a" for k r
    using agrees_unshared[OF assms(2) that(1) reg] that(2) a(1) by simp
  have "agrees view m w'"
    by (subst same, rule agrees_replace[OF assms(2,1) run(1), of n a]) (use w3 a uns in auto)
  moreover have "texts_of m w' = (texts_of m w)(n \<mapsto> map_of (mw_maps w' a))"
    by (subst same, rule texts_replace[OF assms(2)]) (use w3 a uns send_reg_keeps[OF run(1)] in auto)
  moreover have "map_of (mw_maps w2 a) = map_of (mw_maps w a) ++ map_of p"
    using assms(3) put_metas_map[of p a w] by (auto simp: MPatch op_ok_def w2_def map_add_def)
  moreover have "the (texts_of m w n) = map_of (mw_maps w a)" using reg a(1) by (simp add: texts_of_def)
  ultimately show ?thesis using run(2) send_reg_keeps[OF run(1)] by (simp add: MPatch w3_def Let_def)
qed

lemma method_run_meant:
  "agent_laws A view \<Longrightarrow> agrees view m w \<Longrightarrow> list_all op_ok xs \<Longrightarrow> method_run A xs m w = Some (m', w') \<Longrightarrow>
   agrees view m' w' \<and> texts_of m' w' = fold meant_step xs (texts_of m w)"
proof (induction xs arbitrary: m w)
  case (Cons x xs)
  from Cons.prems(4) obtain m1 w1 where c: "method_call A x m w = (m1, w1, Ok ())" "method_run A xs m1 w1 = Some (m', w')"
    by (auto split: prod.splits go.splits)
  with Cons.prems(3) method_call_meant[OF Cons.prems(1,2) _ c(1)] Cons.IH[OF Cons.prems(1) _ _ c(2)] show ?case by simp
qed simp

text \<open>C19: the agent has what the callers mean. After any registrations, replacements and patches that were taken, on a
  new service and each with a map of its own, the agent has under the id of every method exactly the texts
  the callers' operations make, the name of the method among them.\<close>
theorem agent_has_what_is_meant:
  assumes "agent_laws A view" and "me_regs m = []" and "list_all op_ok xs" and "method_run A xs m w = Some (m', w')"
    and "fold meant_step xs (\<lambda>_. None) n = Some txt"
  shows "\<exists>reg meta. view (mw_agent w') (method_id m' n) = Some (reg, meta) \<and> map_of meta = txt"
proof -
  have "agrees view m w" using assms(2) by (simp add: agrees_def)
  note run = method_run_meant[OF assms(1) this assms(3,4)]
  have "texts_of m w = (\<lambda>_. None)" using assms(2) by (simp add: texts_of_def fun_eq_iff)
  with run assms(5) have "texts_of m' w' n = Some txt" by simp
  then obtain reg where reg: "map_of (me_regs m') n = Some reg" "txt = map_of (mw_maps w' (the (mr_Meta reg)))"
    by (auto simp: texts_of_def)
  then obtain a where "mr_Meta reg = Some a" "mr_ID reg = method_id m' n" "view (mw_agent w') (mr_ID reg) = Some (reg, mw_maps w' a)"
    using run unfolding agrees_def by blast
  with reg(2) show ?thesis by simp
qed

text \<open>
  A patch the agent refuses stays in the map of the registration, so the next patch that is taken brings it
  to the agent.
\<close>

theorem refused_patch_comes_back:
  assumes "agent_laws A view" and "map_of (me_regs m) n = Some reg" and "mr_Meta reg = Some a" and "gm_ok p"
    and "UpdateMetaPatch A n p m w = (m1, w1, Error e)" and "UpdateMetaPatch A n [] m1 w1 = (m2, w2, Ok ())" and "map_of p k = Some v"
  shows "\<exists>r meta. view (mw_agent w2) (mr_ID reg) = Some (r, meta) \<and> map_of meta k = Some v"
proof -
  let ?f = "\<lambda>w. if map_of (mw_maps w a) ''method'' = None then put_meta a ''method'' n w else w"
  have m1: "m1 = m" and w1: "mw_maps w1 = mw_maps (?f (fold (\<lambda>(k, v). put_meta a k v) p w))"
    using assms(2,3,5) by (auto simp: UpdateMetaPatch_def meta_or_new_def Let_def dest!: send_reg_keeps split: prod.splits)
  have "map_of (mw_maps (fold (\<lambda>(k, v). put_meta a k v) p w) a) k = Some v" using put_metas_map[OF assms(4), of a w k] assms(7) by simp
  then have k: "map_of (mw_maps w1 a) k = Some v" by (auto simp: w1)
  obtain x where s: "send_reg A (reg\<lparr> mr_Meta := Some a \<rparr>) (?f w1) = (w2, Ok x)"
    using assms(2,3,6) by (auto simp: m1 UpdateMetaPatch_def meta_or_new_def Let_def split: prod.splits)
  have "map_of (mw_maps (?f w1) a) k = Some v" using k by auto
  with s assms(1) show ?thesis by (auto simp: send_reg_def agent_laws_def split: prod.splits)
qed

text \<open>A time to live of a second or less is over before the first beat.\<close>

theorem heartbeat_too_late:
  "\<not> me_useGRPC m \<Longrightarrow> 0 < me_ttl m \<Longrightarrow> me_ttl m \<le> second \<Longrightarrow> \<exists>i. heartbeat_every m = Some i \<and> me_ttl m \<le> i"
  by (auto simp: heartbeat_every_def second_def Let_def)

text \<open>An agent in memory that takes every registration.\<close>

definition toy_agent :: "(string \<Rightarrow> (method_reg \<times> (string, string) gomap) option) agent" where
  "toy_agent = \<lparr> ag_Register = (\<lambda>reg meta s. (s(mr_ID reg \<mapsto> (reg, meta)), Ok ())), ag_Deregister = (\<lambda>id1 s. (s(id1 := None), Ok ())),
     ag_UpdateTTL = (\<lambda>id1 t st s. (s, Ok ())) \<rparr>"

definition toy_method_svc :: method_service where
  "toy_method_svc = \<lparr> me_addr = ''10.0.0.1'', me_port = 80, me_instanceID = ''i1'', me_ttl = 10 * second, me_useGRPC = False,
     me_regs = [], me_stopped = False \<rparr>"

definition toy_meth_world :: "(string \<Rightarrow> (method_reg \<times> (string, string) gomap) option) meth_world" where
  "toy_meth_world = \<lparr> mw_maps = (\<lambda>_. []), mw_next = 0, mw_agent = (\<lambda>_. None) \<rparr>"

lemma toy_agent_laws: "agent_laws toy_agent (\<lambda>s. s)"
  by (simp add: agent_laws_def toy_agent_def)

theorem agent_has_what_is_meant_witness:
  "\<exists>m' w' reg meta. method_run toy_agent [MUpsert ''M'' [(''topic'', ''a'')], MPatch ''M'' [(''topic'', ''b'')]] toy_method_svc toy_meth_world
      = Some (m', w') \<and> mw_agent w' ''i1#M'' = Some (reg, meta) \<and> map_of meta ''topic'' = Some ''b'' \<and> map_of meta ''method'' = Some ''M''"
proof -
  let ?xs = "[MUpsert ''M'' [(''topic'', ''a'')], MPatch ''M'' [(''topic'', ''b'')]]"
  obtain m' w' where run: "method_run toy_agent ?xs toy_method_svc toy_meth_world = Some (m', w')" "me_instanceID m' = ''i1''"
    by (simp add: toy_agent_def toy_method_svc_def toy_meth_world_def method_Upsert_def UpdateMetaPatch_def caller_map_def meta_or_new_def
        send_reg_def method_id_def Let_def)
  have ok: "list_all op_ok ?xs" by (simp add: op_ok_def)
  have "fold meant_step ?xs (\<lambda>_. None) ''M'' = Some ([''topic'' \<mapsto> ''a'', ''method'' \<mapsto> ''M'', ''topic'' \<mapsto> ''b''])"
    by (simp add: Let_def)
  from agent_has_what_is_meant[OF toy_agent_laws _ ok run(1) this] run
  show ?thesis by (fastforce simp: toy_method_svc_def method_id_def)
qed

end
