(* ===== verification/Snowflake.thy ===== *)
theory Snowflake
  imports Prelude
begin

section \<open>Snowflake ids (\<^verbatim>\<open>tools/ids/snowid.go\<close>)\<close>

text \<open>
  The id generator: 41 bits of milliseconds since an epoch, 10 bits of node, 12 bits of sequence.
  The clock is the list of readings its calls of \<^verbatim>\<open>time.Now().UnixMilli()\<close> will give; a call that
  needs more readings than the list holds has not returned, which is the value \<open>None\<close>.
\<close>

unbundle bit_operations_syntax

record generator =
  gen_epochMS :: int
  gen_nodeID :: int
  gen_seq :: int
  gen_lastTSMS :: int

text \<open>January 1, 2020 in milliseconds since the Unix epoch.\<close>

definition initDefault :: generator where
  "initDefault = \<lparr> gen_epochMS = 1577836800000, gen_nodeID = 1, gen_seq = 0, gen_lastTSMS = 0 \<rparr>"

definition SetNodeID :: "int \<Rightarrow> generator \<Rightarrow> generator" where
  "SetNodeID nodeID g = g\<lparr>gen_nodeID := (if nodeID < 0 \<or> nodeID > 1023 then 1 else nodeID)\<rparr>"

text \<open>The inner loop: readings until one is past the last time stamp.\<close>

fun wait_next_ms :: "int \<Rightarrow> int list \<Rightarrow> (int \<times> int list) option" where
  "wait_next_ms lst [] = None"
| "wait_next_ms lst (now # clk) = (if now \<le> lst then wait_next_ms lst clk else Some (now, clk))"

definition snow_id :: "int \<Rightarrow> int \<Rightarrow> int \<Rightarrow> int \<Rightarrow> int" where
  "snow_id now epoch node sq =
     (let ts = (now - epoch) AND (push_bit 41 1 - 1)
      in (push_bit 22 ts OR push_bit 12 node) OR sq)"

fun generator_next :: "int list \<Rightarrow> generator \<Rightarrow> (int \<times> generator \<times> int list) option" where
  "generator_next [] g = None"
| "generator_next (now # clk) g =
     (if now < gen_lastTSMS g then generator_next clk g
      else
        (let seq1 = (if now = gen_lastTSMS g then (gen_seq g + 1) AND 0xFFF else 0)
         in case (if now = gen_lastTSMS g \<and> seq1 = 0 then wait_next_ms (gen_lastTSMS g) clk else Some (now, clk)) of
              None \<Rightarrow> None
            | Some (now', clk') \<Rightarrow>
                Some (snow_id now' (gen_epochMS g) (gen_nodeID g) seq1,
                  g\<lparr>gen_seq := seq1, gen_lastTSMS := now'\<rparr>, clk')))"

text \<open>Consecutive calls of \<^verbatim>\<open>Generate\<close>, and \<^verbatim>\<open>GenerateString\<close>.\<close>

fun generate_ids :: "nat \<Rightarrow> int list \<Rightarrow> generator \<Rightarrow> (int list \<times> generator) option" where
  "generate_ids 0 clk g = Some ([], g)"
| "generate_ids (Suc n) clk g =
     (case generator_next clk g of
        None \<Rightarrow> None
      | Some (i, g', clk') \<Rightarrow> map_option (\<lambda>(iss, g'). (i # iss, g')) (generate_ids n clk' g'))"

definition GenerateString :: "int list \<Rightarrow> generator \<Rightarrow> (string \<times> generator \<times> int list) option" where
  "GenerateString clk g = map_option (\<lambda>(i, r). (itoa i, r)) (generator_next clk g)"

subsection \<open>The layout of an id\<close>

definition gen_ok :: "generator \<Rightarrow> bool" where
  "gen_ok g \<longleftrightarrow> 0 \<le> gen_nodeID g \<and> gen_nodeID g < 2 ^ 10 \<and> 0 \<le> gen_seq g \<and> gen_seq g < 2 ^ 12"

text \<open>A reading in the 41 bits the generator has for time.\<close>

definition in_window :: "generator \<Rightarrow> int \<Rightarrow> bool" where
  "in_window g now \<longleftrightarrow> gen_epochMS g \<le> now \<and> now < gen_epochMS g + 2 ^ 41"

lemma push_or_add:
  assumes "0 \<le> b" "b < 2 ^ n"
  shows "push_bit n a OR b = a * 2 ^ n + (b :: int)"
proof -
  have "take_bit n b = b" using assms by (simp add: take_bit_int_eq_self_iff)
  then have "push_bit n a AND b = 0"
    by (metis (no_types, lifting) and_zero_eq bit_and_iff bit_eqI bit_push_bit_iff bit_take_bit_iff bit_0 not_le)
  then show ?thesis by (metis disjunctive_add_eq_or push_bit_eq_mult)
qed

lemma snow_id_eq:
  assumes "0 \<le> now - epoch" "now - epoch < 2 ^ 41" "0 \<le> node" "node < 2 ^ 10" "0 \<le> sq" "sq < 2 ^ 12"
  shows "snow_id now epoch node sq = (now - epoch) * 2 ^ 22 + node * 2 ^ 12 + sq"
proof -
  have "push_bit 41 1 - 1 = (mask 41 :: int)" by (simp add: mask_eq_exp_minus_1 push_bit_eq_mult)
  then have "(now - epoch) AND (push_bit 41 1 - 1) = take_bit 41 (now - epoch)"
    by (simp only: take_bit_eq_mask)
  also have "\<dots> = now - epoch" using assms(1,2) by (simp add: take_bit_int_eq_self_iff)
  finally have ts: "(now - epoch) AND (push_bit 41 1 - 1) = now - epoch" .
  have a: "push_bit 12 node OR sq = node * 2 ^ 12 + sq" by (rule push_or_add[OF assms(5,6)])
  have "0 \<le> node * 2 ^ 12 + sq" "node * 2 ^ 12 + sq < 2 ^ 22" using assms(3-6) by auto
  from push_or_add[OF this, of "now - epoch"] show ?thesis
    unfolding snow_id_def Let_def ts or.assoc a by (simp only: add.assoc)
qed

lemma seq_mask: "(s + 1) AND 0xFFF = (s + 1) mod 4096" for s :: int
proof -
  have "(0xFFF :: int) = mask 12" by (simp add: mask_eq_exp_minus_1)
  then have "(s + 1) AND 0xFFF = take_bit 12 (s + 1)" by (simp only: take_bit_eq_mask)
  then show ?thesis by (simp add: take_bit_eq_mod)
qed

lemma wait_next_ms_Some:
  "wait_next_ms lst clk = Some (now, clk') \<Longrightarrow> lst < now \<and> now \<in> set clk \<and> set clk' \<subseteq> set clk"
  by (induction lst clk rule: wait_next_ms.induct) (auto split: if_splits)

lemma wait_next_ms_returns: "now \<in> set clk \<Longrightarrow> lst < now \<Longrightarrow> \<exists>r. wait_next_ms lst clk = Some r"
  by (induction lst clk rule: wait_next_ms.induct) auto

text \<open>One call: the time of the id is one of the readings, it never goes back, and within one
  millisecond the sequence number goes up.\<close>

lemma generator_next_spec:
  assumes "generator_next clk g = Some (i, g', clk')" "gen_ok g"
  shows "gen_ok g'" "gen_epochMS g' = gen_epochMS g" "gen_nodeID g' = gen_nodeID g"
    "i = snow_id (gen_lastTSMS g') (gen_epochMS g') (gen_nodeID g') (gen_seq g')"
    "gen_lastTSMS g' \<in> set clk" "set clk' \<subseteq> set clk"
    "gen_lastTSMS g < gen_lastTSMS g' \<or> gen_lastTSMS g = gen_lastTSMS g' \<and> gen_seq g < gen_seq g'"
proof -
  have "gen_ok g' \<and> gen_epochMS g' = gen_epochMS g \<and> gen_nodeID g' = gen_nodeID g
    \<and> i = snow_id (gen_lastTSMS g') (gen_epochMS g') (gen_nodeID g') (gen_seq g')
    \<and> gen_lastTSMS g' \<in> set clk \<and> set clk' \<subseteq> set clk
    \<and> (gen_lastTSMS g < gen_lastTSMS g' \<or> gen_lastTSMS g = gen_lastTSMS g' \<and> gen_seq g < gen_seq g')"
    using assms
  proof (induction clk g rule: generator_next.induct)
    case (2 now clk g)
    show ?case
    proof (cases "now < gen_lastTSMS g")
      case True
      with 2 show ?thesis by auto
    next
      case False
      let ?s = "(gen_seq g + 1) AND 0xFFF"
      have s: "0 \<le> ?s" "?s < 2 ^ 12" "?s \<noteq> 0 \<Longrightarrow> gen_seq g < ?s"
        using 2(3) by (cases "gen_seq g = 4095"; simp add: seq_mask gen_ok_def)+
      consider (later) "gen_lastTSMS g < now" | (same) "now = gen_lastTSMS g" "?s \<noteq> 0"
        | (full) "now = gen_lastTSMS g" "?s = 0" using False by linarith
      then show ?thesis
      proof cases
        case later
        with 2(2,3) show ?thesis by (auto simp: gen_ok_def)
      next
        case same
        with 2(2,3) s show ?thesis by (auto simp: gen_ok_def Let_def)
      next
        case full
        with 2(2) obtain t where t: "wait_next_ms (gen_lastTSMS g) clk = Some (t, clk')"
          "i = snow_id t (gen_epochMS g) (gen_nodeID g) 0" "g' = g\<lparr>gen_seq := 0, gen_lastTSMS := t\<rparr>"
          by (auto split: option.splits)
        from wait_next_ms_Some[OF t(1)] t 2(3) show ?thesis by (auto simp: gen_ok_def)
      qed
    qed
  qed simp
  then show "gen_ok g'" "gen_epochMS g' = gen_epochMS g" "gen_nodeID g' = gen_nodeID g"
    "i = snow_id (gen_lastTSMS g') (gen_epochMS g') (gen_nodeID g') (gen_seq g')"
    "gen_lastTSMS g' \<in> set clk" "set clk' \<subseteq> set clk"
    "gen_lastTSMS g < gen_lastTSMS g' \<or> gen_lastTSMS g = gen_lastTSMS g' \<and> gen_seq g < gen_seq g'"
    by blast+
qed

lemma snow_id_less:
  fixes t t' :: int
  assumes "t < t' \<or> t = t' \<and> s < s'" "0 \<le> n" "n < 2 ^ 10" "0 \<le> s" "s < 2 ^ 12" "0 \<le> s'"
  shows "t * 2 ^ 22 + n * 2 ^ 12 + s < t' * 2 ^ 22 + n * 2 ^ 12 + s'"
  using assms
proof (elim disjE conjE)
  assume "t < t'"
  then have "(t + 1) * 2 ^ 22 \<le> t' * 2 ^ 22" by (intro mult_right_mono) auto
  with assms(2-6) show ?thesis by simp
qed simp

subsection \<open>Order, uniqueness, decoding, progress\<close>

lemma generate_ids_above:
  assumes "generate_ids n clk g = Some (iss, g')" "gen_ok g" "\<And>t. t \<in> set clk \<Longrightarrow> in_window g t"
  shows "sorted_wrt (<) iss \<and> (\<forall>i \<in> set iss. \<exists>t s. i = (t - gen_epochMS g) * 2 ^ 22 + gen_nodeID g * 2 ^ 12 + s
     \<and> 0 \<le> s \<and> s < 2 ^ 12 \<and> (gen_lastTSMS g < t \<or> gen_lastTSMS g = t \<and> gen_seq g < s)) \<and> length iss = n"
  using assms
proof (induction n arbitrary: clk g iss)
  case (Suc n)
  from Suc.prems(1) obtain i g1 clk1 is1 where nx: "generator_next clk g = Some (i, g1, clk1)"
    and rest: "generate_ids n clk1 g1 = Some (is1, g')" and iss_def: "iss = i # is1"
    by (auto split: option.splits)
  note sp = generator_next_spec[OF nx Suc.prems(2)]
  have w: "in_window g (gen_lastTSMS g1)" by (rule Suc.prems(3)[OF sp(5)])
  have i: "i = (gen_lastTSMS g1 - gen_epochMS g) * 2 ^ 22 + gen_nodeID g * 2 ^ 12 + gen_seq g1"
    unfolding sp(4) by (subst snow_id_eq) (use w sp(1-3) in \<open>auto simp: in_window_def gen_ok_def\<close>)
  have "\<And>t. t \<in> set clk1 \<Longrightarrow> in_window g1 t" using Suc.prems(3) sp(2,6) by (auto simp: in_window_def)
  from Suc.IH[OF rest sp(1) this] have ih: "sorted_wrt (<) is1"
    "\<And>j. j \<in> set is1 \<Longrightarrow> \<exists>t s. j = (t - gen_epochMS g) * 2 ^ 22 + gen_nodeID g * 2 ^ 12 + s
     \<and> 0 \<le> s \<and> s < 2 ^ 12 \<and> (gen_lastTSMS g1 < t \<or> gen_lastTSMS g1 = t \<and> gen_seq g1 < s)" "length is1 = n"
    unfolding sp(2,3) by auto
  have s1: "0 \<le> gen_seq g1" "gen_seq g1 < 2 ^ 12" and node: "0 \<le> gen_nodeID g" "gen_nodeID g < 2 ^ 10"
    using sp(1) Suc.prems(2) by (auto simp: gen_ok_def)
  have "i < j \<and> (\<exists>t s. j = (t - gen_epochMS g) * 2 ^ 22 + gen_nodeID g * 2 ^ 12 + s
     \<and> 0 \<le> s \<and> s < 2 ^ 12 \<and> (gen_lastTSMS g < t \<or> gen_lastTSMS g = t \<and> gen_seq g < s))" if "j \<in> set is1" for j
  proof -
    from ih(2)[OF that] obtain t s where j: "j = (t - gen_epochMS g) * 2 ^ 22 + gen_nodeID g * 2 ^ 12 + s"
      "0 \<le> s" "s < 2 ^ 12" "gen_lastTSMS g1 < t \<or> gen_lastTSMS g1 = t \<and> gen_seq g1 < s" by blast
    have "i < j" unfolding i j(1) by (rule snow_id_less) (use j s1 node in auto)
    moreover have "gen_lastTSMS g < t \<or> gen_lastTSMS g = t \<and> gen_seq g < s" using sp(7) j(4) by auto
    ultimately show ?thesis using j by blast
  qed
  moreover have "\<exists>t s. i = (t - gen_epochMS g) * 2 ^ 22 + gen_nodeID g * 2 ^ 12 + s
     \<and> 0 \<le> s \<and> s < 2 ^ 12 \<and> (gen_lastTSMS g < t \<or> gen_lastTSMS g = t \<and> gen_seq g < s)"
    using i s1 sp(7) by blast
  ultimately show ?case using ih(1,3) by (simp add: iss_def)
qed simp

text \<open>C5: consecutive ids of a generator are strictly increasing, whatever the clock does within the 41
  bits the generator has for time, also when it goes back or stands still.\<close>

theorem snowflake_strictly_increasing:
  assumes "gen_ok g" and "generate_ids n clk g = Some (iss, g')" and "\<And>t. t \<in> set clk \<Longrightarrow> in_window g t"
  shows "length iss = n \<and> sorted_wrt (<) iss"
  using generate_ids_above[OF assms(2,1,3)] by blast

definition demo_clock :: "int list" where
  "demo_clock = [1577836800005, 1577836800005, 1577836800003, 1577836800009, 1577836800009]"

theorem snowflake_strictly_increasing_witness:
  "\<exists>iss g'. generate_ids 4 demo_clock initDefault = Some (iss, g') \<and> length iss = 4 \<and> sorted_wrt (<) iss"
proof -
  have "map_option (\<lambda>_. ()) (generate_ids 4 demo_clock initDefault) \<noteq> None" by code_simp
  then obtain iss g' where g: "generate_ids 4 demo_clock initDefault = Some (iss, g')" by auto
  moreover have "gen_ok initDefault" by (simp add: gen_ok_def initDefault_def)
  moreover have "in_window initDefault t" if "t \<in> set demo_clock" for t
    using that by (auto simp: demo_clock_def in_window_def initDefault_def)
  ultimately show ?thesis using snowflake_strictly_increasing by blast
qed

text \<open>An id can be taken apart: its time, its node and its sequence number are read back from it.
  So generators with different nodes never give the same id.\<close>

theorem snowflake_decode:
  assumes "0 \<le> now - epoch" and "now - epoch < 2 ^ 41" and "0 \<le> node" and "node < 2 ^ 10"
    and "0 \<le> sq" and "sq < 2 ^ 12"
  shows "snow_id now epoch node sq div 2 ^ 22 = now - epoch
    \<and> (snow_id now epoch node sq div 2 ^ 12) mod 2 ^ 10 = node
    \<and> snow_id now epoch node sq mod 2 ^ 12 = sq
    \<and> int64 (snow_id now epoch node sq)"
proof -
  let ?t = "now - epoch"
  have eq: "snow_id now epoch node sq = ?t * 2 ^ 22 + node * 2 ^ 12 + sq" by (rule snow_id_eq[OF assms])
  have "?t * 2 ^ 22 + node * 2 ^ 12 + sq = (node * 2 ^ 12 + sq) + ?t * 2 ^ 22" by simp
  moreover have "0 \<le> node * 2 ^ 12 + sq" "node * 2 ^ 12 + sq < 2 ^ 22" using assms(3-6) by auto
  ultimately have a: "(?t * 2 ^ 22 + node * 2 ^ 12 + sq) div 2 ^ 22 = ?t"
    by (simp add: div_mult_self1 div_pos_pos_trivial)
  have b: "?t * 2 ^ 22 + node * 2 ^ 12 + sq = sq + (?t * 2 ^ 10 + node) * 2 ^ 12" by (simp add: algebra_simps)
  have c: "(?t * 2 ^ 22 + node * 2 ^ 12 + sq) div 2 ^ 12 = ?t * 2 ^ 10 + node"
    unfolding b using assms(5,6) by (simp add: div_mult_self1)
  have d: "(?t * 2 ^ 22 + node * 2 ^ 12 + sq) mod 2 ^ 12 = sq"
    unfolding b mod_mult_self1 using assms(5,6) by simp
  have "(?t * 2 ^ 10 + node) mod 2 ^ 10 = node"
    unfolding add.commute[of "?t * 2 ^ 10"] mod_mult_self1 using assms(3,4) by simp
  moreover have "int64 (?t * 2 ^ 22 + node * 2 ^ 12 + sq)"
    using assms unfolding int64_def by simp
  ultimately show ?thesis unfolding eq a c d by blast
qed

theorem snowflake_decode_witness:
  "(snow_id 1577836800005 1577836800000 7 3 div 2 ^ 12) mod 2 ^ 10 = 7"
  using snowflake_decode[of 1577836800005 1577836800000 7 3] by simp

text \<open>C40: a call returns as soon as the clock once shows a time after the last id's.\<close>

theorem snowflake_progress:
  assumes "now \<in> set clk" and "gen_lastTSMS g < now"
  shows "\<exists>i g' clk'. generator_next clk g = Some (i, g', clk')"
  using assms
proof (induction clk g rule: generator_next.induct)
  case (2 now' clk g)
  consider (earlier) "now' < gen_lastTSMS g" | (same) "now' = gen_lastTSMS g" | (later) "gen_lastTSMS g < now'" by linarith
  then show ?case
  proof cases
    case same
    with 2(2,3) wait_next_ms_returns[of now clk "gen_lastTSMS g"] show ?thesis
      by (auto simp: Let_def split: option.splits)
  qed (use 2 in \<open>auto simp: Let_def\<close>)
qed simp

theorem snowflake_progress_witness:
  "\<exists>i g' clk'. generator_next [0, 0, 1577836800000] initDefault = Some (i, g', clk')"
  by (rule snowflake_progress[of 1577836800000]) (simp_all add: initDefault_def)

end
