(* ===== verification/MongoDoc.thy ===== *)
theory MongoDoc
  imports Prelude
begin

section \<open>Documents, filters and updates\<close>

text \<open>
  The vocabulary in which the data access code speaks to MongoDB: documents, the conditions of its
  filters and the operators of its updates, as data. The server itself is a parameter: a record
  \<open>mongo\<close> of the driver calls the program makes, over a server state. \<open>mongo_laws\<close> is what
  the documentation promises of these calls, in terms of the list of documents of a collection.
\<close>

subsection \<open>Data\<close>

text \<open>A \<^verbatim>\<open>float64\<close> is its 64 bits; the program only copies them.\<close>

type_synonym float64 = int

datatype mval = MNull | MInt int | MStr string | MBool bool | MTime time | MDouble float64 | MOid string | MArr "mval list" | MDoc "(string \<times> mval) list"

type_synonym doc = "(string, mval) gomap"

datatype mcond = CEq mval | CLt mval | CGte mval | CGt mval | CLte mval | CNe mval | CIn "mval list" | CExists bool

type_synonym mfilter = "(string \<times> mcond) list"

record mupdate =
  mu_inc :: "(string \<times> int) list"
  mu_max :: "(string \<times> mval) list"
  mu_set :: "(string \<times> mval) list"
  mu_setOnInsert :: "(string \<times> mval) list"
  mu_push :: "(string \<times> mval) list"

definition no_update :: mupdate where
  "no_update = \<lparr> mu_inc = [], mu_max = [], mu_set = [], mu_setOnInsert = [], mu_push = [] \<rparr>"

subsection \<open>What the documentation says\<close>

text \<open>Comparison operators only match values of the type of their argument.\<close>

fun mval_less :: "mval \<Rightarrow> mval \<Rightarrow> bool" where
  "mval_less (MInt a) (MInt b) \<longleftrightarrow> a < b"
| "mval_less (MTime a) (MTime b) \<longleftrightarrow> a < b"
| "mval_less _ _ \<longleftrightarrow> False"

definition mval_leq :: "mval \<Rightarrow> mval \<Rightarrow> bool" where
  "mval_leq a b \<longleftrightarrow> mval_less a b \<or> a = b"

fun cond_holds :: "mcond \<Rightarrow> mval option \<Rightarrow> bool" where
  "cond_holds (CEq v) o1 \<longleftrightarrow> o1 = Some v"
| "cond_holds (CLt v) o1 \<longleftrightarrow> (case o1 of None \<Rightarrow> False | Some x \<Rightarrow> mval_less x v)"
| "cond_holds (CGte v) o1 \<longleftrightarrow> (case o1 of None \<Rightarrow> False | Some x \<Rightarrow> mval_leq v x)"
| "cond_holds (CGt v) o1 \<longleftrightarrow> (case o1 of None \<Rightarrow> False | Some x \<Rightarrow> mval_less v x)"
| "cond_holds (CLte v) o1 \<longleftrightarrow> (case o1 of None \<Rightarrow> False | Some x \<Rightarrow> mval_leq x v)"
| "cond_holds (CNe v) o1 \<longleftrightarrow> o1 \<noteq> Some v"
| "cond_holds (CIn vs) o1 \<longleftrightarrow> (case o1 of None \<Rightarrow> False | Some x \<Rightarrow> x \<in> set vs)"
| "cond_holds (CExists b) o1 \<longleftrightarrow> (o1 \<noteq> None) = b"

definition doc_matches :: "mfilter \<Rightarrow> doc \<Rightarrow> bool" where
  "doc_matches f d \<longleftrightarrow> list_all (\<lambda>(k, c). cond_holds c (map_of d k)) f"

definition inc_field :: "string \<times> int \<Rightarrow> doc \<Rightarrow> doc" where
  "inc_field kn d = AList.update (fst kn)
     (case map_of d (fst kn) of Some (MInt m) \<Rightarrow> MInt (m + snd kn) | _ \<Rightarrow> MInt (snd kn)) d"

definition max_field :: "string \<times> mval \<Rightarrow> doc \<Rightarrow> doc" where
  "max_field kv d = (case map_of d (fst kv) of
       None \<Rightarrow> AList.update (fst kv) (snd kv) d
     | Some x \<Rightarrow> if mval_less x (snd kv) then AList.update (fst kv) (snd kv) d else d)"

definition set_field :: "string \<times> mval \<Rightarrow> doc \<Rightarrow> doc" where
  "set_field kv d = AList.update (fst kv) (snd kv) d"

definition push_field :: "string \<times> mval \<Rightarrow> doc \<Rightarrow> doc" where
  "push_field kv d = AList.update (fst kv)
     (case map_of d (fst kv) of Some (MArr xs) \<Rightarrow> MArr (xs @ [snd kv]) | _ \<Rightarrow> MArr [snd kv]) d"

definition apply_update :: "mupdate \<Rightarrow> doc \<Rightarrow> doc" where
  "apply_update u d = fold push_field (mu_push u) (fold set_field (mu_set u)
     (fold max_field (mu_max u) (fold inc_field (mu_inc u) d)))"

text \<open>The document an upsert starts from: the equality conditions of the filter.\<close>

definition filter_doc :: "mfilter \<Rightarrow> doc" where
  "filter_doc f = fold (\<lambda>(k, c) d. case c of CEq v \<Rightarrow> AList.update k v d | _ \<Rightarrow> d) f []"

definition upsert_doc :: "mfilter \<Rightarrow> mupdate \<Rightarrow> doc" where
  "upsert_doc f u = apply_update u (fold set_field (mu_setOnInsert u) (filter_doc f))"

text \<open>The first document that matches, changed; and what was found.\<close>

fun change_first :: "mfilter \<Rightarrow> mupdate \<Rightarrow> doc list \<Rightarrow> (doc list \<times> doc \<times> doc) option" where
  "change_first f u [] = None"
| "change_first f u (d # ds) =
     (if doc_matches f d then Some (apply_update u d # ds, d, apply_update u d)
      else map_option (\<lambda>(ds', r). (d # ds', r)) (change_first f u ds))"

text \<open>What an update reports: matched, modified, upserted.\<close>

record update_result =
  ur_Matched :: nat
  ur_Modified :: nat
  ur_Upserted :: nat

definition update_one_spec :: "mfilter \<Rightarrow> mupdate \<Rightarrow> bool \<Rightarrow> doc list \<Rightarrow> doc list \<times> update_result" where
  "update_one_spec f u upsert ds =
     (case change_first f u ds of
        Some (ds', d, d') \<Rightarrow> (ds', \<lparr> ur_Matched = 1, ur_Modified = (if d = d' then 0 else 1), ur_Upserted = 0 \<rparr>)
      | None \<Rightarrow>
          if upsert then (ds @ [upsert_doc f u], \<lparr> ur_Matched = 0, ur_Modified = 0, ur_Upserted = 1 \<rparr>)
          else (ds, \<lparr> ur_Matched = 0, ur_Modified = 0, ur_Upserted = 0 \<rparr>))"

text \<open>\<^verbatim>\<open>FindOneAndUpdate\<close> gives the document before or after; before an upsert there is none.\<close>

definition find_update_spec :: "mfilter \<Rightarrow> mupdate \<Rightarrow> bool \<Rightarrow> bool \<Rightarrow> doc list \<Rightarrow> doc list \<times> doc option" where
  "find_update_spec f u upsert after ds =
     (case change_first f u ds of
        Some (ds', d, d') \<Rightarrow> (ds', Some (if after then d' else d))
      | None \<Rightarrow>
          if upsert then (ds @ [upsert_doc f u], if after then Some (upsert_doc f u) else None) else (ds, None))"

definition update_many_spec :: "mfilter \<Rightarrow> mupdate \<Rightarrow> doc list \<Rightarrow> doc list" where
  "update_many_spec f u ds = map (\<lambda>d. if doc_matches f d then apply_update u d else d) ds"

subsection \<open>The driver as a parameter\<close>

record mindex =
  mi_Keys :: "(string \<times> int) list"
  mi_Unique :: bool
  mi_Name :: string

record 's mongo =
  mg_UpdateOne :: "string \<Rightarrow> mfilter \<Rightarrow> mupdate \<Rightarrow> bool \<Rightarrow> 's \<Rightarrow> 's \<times> update_result go"
  mg_UpdateMany :: "string \<Rightarrow> mfilter \<Rightarrow> mupdate \<Rightarrow> 's \<Rightarrow> 's \<times> unit go"
  mg_FindOneAndUpdate :: "string \<Rightarrow> mfilter \<Rightarrow> mupdate \<Rightarrow> bool \<Rightarrow> bool \<Rightarrow> 's \<Rightarrow> 's \<times> doc option go"
  mg_Count :: "string \<Rightarrow> mfilter \<Rightarrow> 's \<Rightarrow> int go"
  mg_FindOne :: "string \<Rightarrow> mfilter \<Rightarrow> 's \<Rightarrow> doc option go"
  mg_InsertOne :: "string \<Rightarrow> doc \<Rightarrow> 's \<Rightarrow> 's \<times> unit go"
  mg_ListIndexes :: "string \<Rightarrow> 's \<Rightarrow> string list go"
  mg_CreateIndex :: "string \<Rightarrow> mindex \<Rightarrow> 's \<Rightarrow> 's \<times> unit go"

text \<open>The integers of a stored document fit 64 bits; an increment that would not is refused.\<close>

definition doc_int64 :: "doc \<Rightarrow> bool" where
  "doc_int64 d \<longleftrightarrow> list_all (\<lambda>(k, v). case v of MInt n \<Rightarrow> int64 n | _ \<Rightarrow> True) d"

text \<open>
  \<open>view coll s\<close> is the list of documents of a collection. A call that returns no error did what the
  documentation says; one that returns an error did it or did nothing, for the reply may be lost. Other
  collections are not touched.
\<close>

definition mlaw_UpdateOne :: "'s mongo \<Rightarrow> (string \<Rightarrow> 's \<Rightarrow> doc list) \<Rightarrow> bool" where
  "mlaw_UpdateOne M view \<longleftrightarrow>
     (\<forall>c f u ups s s' r. mg_UpdateOne M c f u ups s = (s', r) \<longrightarrow>
        (case r of Ok x \<Rightarrow> update_one_spec f u ups (view c s) = (view c s', x) \<and> list_all doc_int64 (view c s')
                 | _ \<Rightarrow> view c s' \<in> {view c s, fst (update_one_spec f u ups (view c s))})
        \<and> (\<forall>c'. c' \<noteq> c \<longrightarrow> view c' s' = view c' s))"

definition mlaw_UpdateMany :: "'s mongo \<Rightarrow> (string \<Rightarrow> 's \<Rightarrow> doc list) \<Rightarrow> bool" where
  "mlaw_UpdateMany M view \<longleftrightarrow>
     (\<forall>c f u s s' r. mg_UpdateMany M c f u s = (s', r) \<longrightarrow>
        (case r of Ok _ \<Rightarrow> view c s' = update_many_spec f u (view c s) \<and> list_all doc_int64 (view c s')
                 | _ \<Rightarrow> view c s' \<in> {view c s, update_many_spec f u (view c s)})
        \<and> (\<forall>c'. c' \<noteq> c \<longrightarrow> view c' s' = view c' s))"

definition mlaw_FindOneAndUpdate :: "'s mongo \<Rightarrow> (string \<Rightarrow> 's \<Rightarrow> doc list) \<Rightarrow> bool" where
  "mlaw_FindOneAndUpdate M view \<longleftrightarrow>
     (\<forall>c f u ups aft s s' r. mg_FindOneAndUpdate M c f u ups aft s = (s', r) \<longrightarrow>
        (case r of Ok x \<Rightarrow> find_update_spec f u ups aft (view c s) = (view c s', x) \<and> list_all doc_int64 (view c s')
                 | _ \<Rightarrow> view c s' \<in> {view c s, fst (find_update_spec f u ups aft (view c s))})
        \<and> (\<forall>c'. c' \<noteq> c \<longrightarrow> view c' s' = view c' s))"

definition mlaw_Count :: "'s mongo \<Rightarrow> (string \<Rightarrow> 's \<Rightarrow> doc list) \<Rightarrow> bool" where
  "mlaw_Count M view \<longleftrightarrow>
     (\<forall>c f s n. mg_Count M c f s = Ok n \<longrightarrow> n = int (length (filter (doc_matches f) (view c s))))"

definition mlaw_FindOne :: "'s mongo \<Rightarrow> (string \<Rightarrow> 's \<Rightarrow> doc list) \<Rightarrow> bool" where
  "mlaw_FindOne M view \<longleftrightarrow>
     (\<forall>c f s d. mg_FindOne M c f s = Ok d \<longrightarrow> d = find (doc_matches f) (view c s))"

definition mlaw_InsertOne :: "'s mongo \<Rightarrow> (string \<Rightarrow> 's \<Rightarrow> doc list) \<Rightarrow> bool" where
  "mlaw_InsertOne M view \<longleftrightarrow>
     (\<forall>c d s s' r. mg_InsertOne M c d s = (s', r) \<longrightarrow>
        (case r of Ok _ \<Rightarrow> view c s' = view c s @ [d] \<and> list_all doc_int64 (view c s')
                 | _ \<Rightarrow> view c s' \<in> {view c s, view c s @ [d]})
        \<and> (\<forall>c'. c' \<noteq> c \<longrightarrow> view c' s' = view c' s))"

text \<open>Creating an index does not change documents.\<close>

definition mlaw_CreateIndex :: "'s mongo \<Rightarrow> (string \<Rightarrow> 's \<Rightarrow> doc list) \<Rightarrow> bool" where
  "mlaw_CreateIndex M view \<longleftrightarrow> (\<forall>c i s s' r. mg_CreateIndex M c i s = (s', r) \<longrightarrow> (\<forall>c'. view c' s' = view c' s))"

definition mongo_laws :: "'s mongo \<Rightarrow> (string \<Rightarrow> 's \<Rightarrow> doc list) \<Rightarrow> bool" where
  "mongo_laws M view \<longleftrightarrow> mlaw_UpdateOne M view \<and> mlaw_UpdateMany M view \<and> mlaw_FindOneAndUpdate M view \<and> mlaw_Count M view \<and> mlaw_FindOne M view \<and> mlaw_InsertOne M view \<and> mlaw_CreateIndex M view"

lemmas mongo_law_defs = mongo_laws_def mlaw_UpdateOne_def mlaw_UpdateMany_def mlaw_FindOneAndUpdate_def mlaw_Count_def mlaw_FindOne_def mlaw_InsertOne_def mlaw_CreateIndex_def

text \<open>A server in memory that fails only on overflow: the laws can hold.\<close>

type_synonym mem_db = "(string, doc list) gomap"

definition mem_view :: "string \<Rightarrow> mem_db \<Rightarrow> doc list" where
  "mem_view c s = (case map_of s c of None \<Rightarrow> [] | Some ds \<Rightarrow> ds)"

definition mem_store :: "string \<Rightarrow> doc list \<Rightarrow> 'r \<Rightarrow> mem_db \<Rightarrow> mem_db \<times> 'r go" where
  "mem_store c ds r s = (if list_all doc_int64 ds then (AList.update c ds s, Ok r) else (s, Error ''overflow''))"

definition mem_mongo :: "mem_db mongo" where
  "mem_mongo = \<lparr>
     mg_UpdateOne = (\<lambda>c f u ups s. let (ds, r) = update_one_spec f u ups (mem_view c s) in mem_store c ds r s),
     mg_UpdateMany = (\<lambda>c f u s. mem_store c (update_many_spec f u (mem_view c s)) () s),
     mg_FindOneAndUpdate = (\<lambda>c f u ups aft s. let (ds, d) = find_update_spec f u ups aft (mem_view c s) in mem_store c ds d s),
     mg_Count = (\<lambda>c f s. Ok (int (length (filter (doc_matches f) (mem_view c s))))),
     mg_FindOne = (\<lambda>c f s. Ok (find (doc_matches f) (mem_view c s))),
     mg_InsertOne = (\<lambda>c d s. mem_store c (mem_view c s @ [d]) () s),
     mg_ListIndexes = (\<lambda>c s. Ok []),
     mg_CreateIndex = (\<lambda>c i s. (s, Ok ())) \<rparr>"

lemma mem_mongo_laws: "mongo_laws mem_mongo mem_view"
  by (auto simp: mongo_law_defs mem_view_def mem_mongo_def mem_store_def Let_def split: prod.splits if_splits go.splits)

subsection \<open>The laws, one by one\<close>

lemma mongo_UpdateOne:
  assumes "mongo_laws M view" "mg_UpdateOne M c f u ups s = (s', r)"
  shows "view c s' = view c s \<or> view c s' = fst (update_one_spec f u ups (view c s))"
proof -
  have "case r of Ok x \<Rightarrow> update_one_spec f u ups (view c s) = (view c s', x) \<and> list_all doc_int64 (view c s')
                 | _ \<Rightarrow> view c s' \<in> {view c s, fst (update_one_spec f u ups (view c s))}"
    using assms unfolding mongo_laws_def mlaw_UpdateOne_def by blast
  then show ?thesis by (cases r) auto
qed

lemma mongo_UpdateOne_Ok:
  assumes "mongo_laws M view" "mg_UpdateOne M c f u ups s = (s', Ok x)"
  shows "update_one_spec f u ups (view c s) = (view c s', x)"
proof -
  have "case Ok x of Ok x \<Rightarrow> update_one_spec f u ups (view c s) = (view c s', x) \<and> list_all doc_int64 (view c s')
                 | _ \<Rightarrow> view c s' \<in> {view c s, fst (update_one_spec f u ups (view c s))}"
    using assms unfolding mongo_laws_def mlaw_UpdateOne_def by blast
  then show ?thesis by simp
qed

lemma mongo_UpdateOne_other:
  assumes "mongo_laws M view" "mg_UpdateOne M c f u ups s = (s', r)" "c' \<noteq> c"
  shows "view c' s' = view c' s"
  using assms unfolding mongo_laws_def mlaw_UpdateOne_def by blast

lemma mongo_UpdateMany:
  assumes "mongo_laws M view" "mg_UpdateMany M c f u s = (s', r)"
  shows "view c s' = view c s \<or> view c s' = update_many_spec f u (view c s)"
proof -
  have "case r of Ok _ \<Rightarrow> view c s' = update_many_spec f u (view c s) \<and> list_all doc_int64 (view c s')
                 | _ \<Rightarrow> view c s' \<in> {view c s, update_many_spec f u (view c s)}"
    using assms unfolding mongo_laws_def mlaw_UpdateMany_def by blast
  then show ?thesis by (cases r) auto
qed

lemma mongo_UpdateMany_Ok:
  assumes "mongo_laws M view" "mg_UpdateMany M c f u s = (s', Ok x)"
  shows "view c s' = update_many_spec f u (view c s)"
proof -
  have "case Ok x of Ok _ \<Rightarrow> view c s' = update_many_spec f u (view c s) \<and> list_all doc_int64 (view c s')
                 | _ \<Rightarrow> view c s' \<in> {view c s, update_many_spec f u (view c s)}"
    using assms unfolding mongo_laws_def mlaw_UpdateMany_def by blast
  then show ?thesis by simp
qed

lemma mongo_FindOneAndUpdate:
  assumes "mongo_laws M view" "mg_FindOneAndUpdate M c f u ups aft s = (s', r)"
  shows "view c s' = view c s \<or> view c s' = fst (find_update_spec f u ups aft (view c s))"
proof -
  have "case r of Ok x \<Rightarrow> find_update_spec f u ups aft (view c s) = (view c s', x) \<and> list_all doc_int64 (view c s')
                 | _ \<Rightarrow> view c s' \<in> {view c s, fst (find_update_spec f u ups aft (view c s))}"
    using assms unfolding mongo_laws_def mlaw_FindOneAndUpdate_def by blast
  then show ?thesis by (cases r) auto
qed

lemma mongo_FindOneAndUpdate_Ok:
  assumes "mongo_laws M view" "mg_FindOneAndUpdate M c f u ups aft s = (s', Ok x)"
  shows "find_update_spec f u ups aft (view c s) = (view c s', x) \<and> list_all doc_int64 (view c s')"
proof -
  have "case Ok x of Ok x \<Rightarrow> find_update_spec f u ups aft (view c s) = (view c s', x) \<and> list_all doc_int64 (view c s')
                 | _ \<Rightarrow> view c s' \<in> {view c s, fst (find_update_spec f u ups aft (view c s))}"
    using assms unfolding mongo_laws_def mlaw_FindOneAndUpdate_def by blast
  then show ?thesis by simp
qed

lemma mongo_Count:
  "mongo_laws M view \<Longrightarrow> mg_Count M c f s = Ok n \<Longrightarrow> n = int (length (filter (doc_matches f) (view c s)))"
  unfolding mongo_laws_def mlaw_Count_def by blast

lemma mongo_FindOne:
  "mongo_laws M view \<Longrightarrow> mg_FindOne M c f s = Ok d \<Longrightarrow> d = find (doc_matches f) (view c s)"
  unfolding mongo_laws_def mlaw_FindOne_def by blast

lemma mongo_InsertOne_Ok:
  assumes "mongo_laws M view" "mg_InsertOne M c d s = (s', Ok x)"
  shows "view c s' = view c s @ [d]"
proof -
  have "case Ok x of Ok _ \<Rightarrow> view c s' = view c s @ [d] \<and> list_all doc_int64 (view c s')
                 | _ \<Rightarrow> view c s' \<in> {view c s, view c s @ [d]}"
    using assms unfolding mongo_laws_def mlaw_InsertOne_def by blast
  then show ?thesis by simp
qed

lemma mongo_InsertOne:
  assumes "mongo_laws M view" "mg_InsertOne M c d s = (s', r)"
  shows "view c s' = view c s \<or> view c s' = view c s @ [d]"
proof -
  have "case r of Ok _ \<Rightarrow> view c s' = view c s @ [d] \<and> list_all doc_int64 (view c s')
                 | _ \<Rightarrow> view c s' \<in> {view c s, view c s @ [d]}"
    using assms unfolding mongo_laws_def mlaw_InsertOne_def by blast
  then show ?thesis by (cases r) auto
qed

lemma mongo_InsertOne_other:
  assumes "mongo_laws M view" "mg_InsertOne M c d s = (s', r)" "c' \<noteq> c"
  shows "view c' s' = view c' s"
  using assms unfolding mongo_laws_def mlaw_InsertOne_def by blast

lemma mongo_FindOneAndUpdate_other:
  assumes "mongo_laws M view" "mg_FindOneAndUpdate M c f u ups aft s = (s', r)" "c' \<noteq> c"
  shows "view c' s' = view c' s"
  using assms unfolding mongo_laws_def mlaw_FindOneAndUpdate_def by blast

lemma mongo_UpdateMany_other:
  assumes "mongo_laws M view" "mg_UpdateMany M c f u s = (s', r)" "c' \<noteq> c"
  shows "view c' s' = view c' s"
  using assms unfolding mongo_laws_def mlaw_UpdateMany_def by blast

lemma mongo_CreateIndex:
  "mongo_laws M view \<Longrightarrow> mg_CreateIndex M c i s = (s', r) \<Longrightarrow> view c' s' = view c' s"
  unfolding mongo_laws_def mlaw_CreateIndex_def by blast

subsection \<open>Reading fields after an update\<close>

definition doc_int :: "doc \<Rightarrow> string \<Rightarrow> int" where
  "doc_int d k = (case map_of d k of Some (MInt n) \<Rightarrow> n | _ \<Rightarrow> 0)"

lemma map_of_set_field [simp]: "map_of (set_field kv d) = (map_of d)(fst kv \<mapsto> snd kv)"
  by (simp add: set_field_def)

lemma map_of_inc_field [simp]: "map_of (inc_field kn d) = (map_of d)(fst kn \<mapsto>
    (case map_of d (fst kn) of Some (MInt m) \<Rightarrow> MInt (m + snd kn) | _ \<Rightarrow> MInt (snd kn)))"
  by (simp add: inc_field_def)

lemma map_of_max_field [simp]: "map_of (max_field kv d) = (map_of d)(fst kv :=
    (case map_of d (fst kv) of None \<Rightarrow> Some (snd kv) | Some x \<Rightarrow> if mval_less x (snd kv) then Some (snd kv) else Some x))"
  by (auto simp: max_field_def split: option.splits)

lemma change_first_None: "change_first f u ds = None \<longleftrightarrow> find (doc_matches f) ds = None"
  by (induction ds) auto

lemma change_first_Some:
  "change_first f u ds = Some (ds', d, d') \<Longrightarrow>
   \<exists>a b. ds = a @ d # b \<and> ds' = a @ d' # b \<and> d' = apply_update u d \<and> doc_matches f d
     \<and> (\<forall>x \<in> set a. \<not> doc_matches f x)"
proof (induction ds arbitrary: ds')
  case (Cons x ds)
  show ?case
  proof (cases "doc_matches f x")
    case True
    with Cons.prems show ?thesis by (intro exI[of _ "[]"] exI[of _ ds]) auto
  next
    case False
    with Cons.prems obtain ds1 where "change_first f u ds = Some (ds1, d, d')" "ds' = x # ds1" by auto
    with Cons.IH False obtain a b where "ds = a @ d # b" "ds1 = a @ d' # b" "d' = apply_update u d"
      "doc_matches f d" "\<forall>x \<in> set a. \<not> doc_matches f x" by blast
    with False \<open>ds' = x # ds1\<close> show ?thesis by (intro exI[of _ "x # a"] exI[of _ b]) auto
  qed
qed simp

end
