(* ===== verification/SeqStore.thy ===== *)
theory SeqStore
  imports MongoDoc "HOL-Library.List_Lexorder" "HOL-Library.Char_ord"
begin

section \<open>Conversation ids and the sequence documents\<close>

text \<open>
  The documents behind message numbering: \<^verbatim>\<open>seq_conversation\<close>, one per tenant and
  conversation, with the highest number reserved (\<open>issued_seq\<close>), committed (\<open>max_seq\<close>) and the
  lowest one kept (\<open>min_seq\<close>); and \<^verbatim>\<open>conversation\<close>, one per user and
  conversation. The operations are those of \<^verbatim>\<open>seq/db.go\<close>, \<^verbatim>\<open>seq/index.go\<close> and
  \<^verbatim>\<open>model/conversation.go\<close>; the driver is the parameter \<open>M\<close>, clock readings are
  arguments.
\<close>

subsection \<open>Ids of conversations\<close>

definition P2PConvID :: "string \<Rightarrow> string \<Rightarrow> string" where
  "P2PConvID u1 u2 = (if u1 < u2 then ''p2p:'' @ u1 @ '':'' @ u2 else ''p2p:'' @ u2 @ '':'' @ u1)"

definition GroupConvID :: "string \<Rightarrow> string" where
  "GroupConvID gid = ''grp:'' @ gid"

definition ThreadConvID :: "string \<Rightarrow> string" where
  "ThreadConvID tid = ''thread:'' @ tid"

definition normPair :: "string \<Rightarrow> string \<Rightarrow> string \<times> string" where
  "normPair a b = (if a \<le> b then (a, b) else (b, a))"

definition buildP2PConvID :: "string \<Rightarrow> string \<Rightarrow> string" where
  "buildP2PConvID a b = (case normPair a b of (lo, hi) \<Rightarrow> ''p2p:'' @ lo @ ''_'' @ hi)"

subsection \<open>The DAO of the allocator\<close>

definition collSeqConv :: string where
  "collSeqConv = ''seq_conversation''"

definition conv_filter :: "string \<Rightarrow> string \<Rightarrow> mfilter" where
  "conv_filter tenant conv = [(''tenant_id'', CEq (MStr tenant)), (''conversation_id'', CEq (MStr conv))]"

text \<open>Reading an integer field into a Go struct: a missing field is 0, another type is an error.\<close>

definition decode_int64 :: "doc \<Rightarrow> string \<Rightarrow> int go" where
  "decode_int64 d k = (case map_of d k of
       None \<Rightarrow> Ok 0
     | Some (MInt n) \<Rightarrow> Ok n
     | Some MNull \<Rightarrow> Ok 0
     | _ \<Rightarrow> Error ''error decoding key'')"

definition alloc_update :: "int \<Rightarrow> time \<Rightarrow> mupdate" where
  "alloc_update block now = no_update\<lparr>
     mu_inc := [(''issued_seq'', block)],
     mu_setOnInsert := [(''max_seq'', MInt 0), (''min_seq'', MInt 0), (''create_time'', MTime now)],
     mu_set := [(''update_time'', MTime now)] \<rparr>"

definition DAO_AllocSegment ::
  "'s mongo \<Rightarrow> time \<Rightarrow> string \<Rightarrow> string \<Rightarrow> int \<Rightarrow> 's \<Rightarrow> 's \<times> (int \<times> int) go" where
  "DAO_AllocSegment M now tenantID conversationID block0 s =
     (let block = (if block0 \<le> 0 then 256 else block0)
      in case mg_FindOneAndUpdate M collSeqConv (conv_filter tenantID conversationID)
                (alloc_update block now) True False s of
           (s', Error e) \<Rightarrow> (s', Error e)
         | (s', Panic e) \<Rightarrow> (s', Panic e)
         | (s', Ok None) \<Rightarrow> (s', Ok (1, wrap64 block))
         | (s', Ok (Some before)) \<Rightarrow>
             (case decode_int64 before ''issued_seq'' of
                Ok old \<Rightarrow> (s', Ok (wrap64 (old + 1), wrap64 (old + block)))
              | Error e \<Rightarrow> (s', Error e)
              | Panic e \<Rightarrow> (s', Panic e)))"

text \<open>What an update of one document leaves for the caller: its error only.\<close>

definition upd_err :: "'s \<times> update_result go \<Rightarrow> 's \<times> unit go" where
  "upd_err x = (case x of (s, Ok _) \<Rightarrow> (s, Ok ()) | (s, Error e) \<Rightarrow> (s, Error e) | (s, Panic e) \<Rightarrow> (s, Panic e))"

definition commit_update :: "int \<Rightarrow> time \<Rightarrow> mupdate" where
  "commit_update toSeq now = no_update\<lparr> mu_max := [(''max_seq'', MInt toSeq)], mu_set := [(''update_time'', MTime now)] \<rparr>"

definition DAO_AdvanceCommit ::
  "'s mongo \<Rightarrow> time \<Rightarrow> string \<Rightarrow> string \<Rightarrow> int \<Rightarrow> 's \<Rightarrow> 's \<times> unit go" where
  "DAO_AdvanceCommit M now tenantID conversationID toSeq s =
     upd_err (mg_UpdateOne M collSeqConv (conv_filter tenantID conversationID) (commit_update toSeq now) True s)"

definition min_update :: "int \<Rightarrow> time \<Rightarrow> mupdate" where
  "min_update newMin now = no_update\<lparr> mu_max := [(''min_seq'', MInt newMin)], mu_set := [(''update_time'', MTime now)] \<rparr>"

definition DAO_AdvanceMin ::
  "'s mongo \<Rightarrow> time \<Rightarrow> string \<Rightarrow> string \<Rightarrow> int \<Rightarrow> 's \<Rightarrow> 's \<times> unit go" where
  "DAO_AdvanceMin M now tenantID conversationID newMin s =
     upd_err (mg_UpdateOne M collSeqConv
       (conv_filter tenantID conversationID @ [(''max_seq'', CGte (MInt newMin))]) (min_update newMin now) False s)"

definition floor_update :: "int \<Rightarrow> time \<Rightarrow> mupdate" where
  "floor_update flr now = no_update\<lparr> mu_max := [(''issued_seq'', MInt flr)], mu_set := [(''update_time'', MTime now)] \<rparr>"

definition DAO_RaiseIssuedFloor ::
  "'s mongo \<Rightarrow> time \<Rightarrow> string \<Rightarrow> string \<Rightarrow> int \<Rightarrow> 's \<Rightarrow> 's \<times> unit go" where
  "DAO_RaiseIssuedFloor M now tenantID conversationID flr s =
     upd_err (mg_UpdateOne M collSeqConv (conv_filter tenantID conversationID) (floor_update flr now) True s)"

subsection \<open>Ensuring the documents of a conversation\<close>

definition ensure_seq_update :: "string \<Rightarrow> string \<Rightarrow> time \<Rightarrow> mupdate" where
  "ensure_seq_update tenantID conversationID now = no_update\<lparr>
     mu_setOnInsert := [(''tenant_id'', MStr tenantID), (''conversation_id'', MStr conversationID),
       (''max_seq'', MInt 0), (''min_seq'', MInt 0), (''issued_seq'', MInt 0), (''compact_wm'', MInt 0),
       (''epoch'', MInt 0), (''shard_key'', MStr ''''), (''create_time'', MTime now)],
     mu_set := [(''update_time'', MTime now)] \<rparr>"

definition EnsureSeqConversation ::
  "'s mongo \<Rightarrow> time \<Rightarrow> string \<Rightarrow> string \<Rightarrow> string \<Rightarrow> int \<Rightarrow> 's \<Rightarrow> 's \<times> (string \<times> bool) go" where
  "EnsureSeqConversation M now tenantID userA userB chatType s =
     (let conversationID = buildP2PConvID userA userB
      in case mg_UpdateOne M collSeqConv (conv_filter tenantID conversationID)
                (ensure_seq_update tenantID conversationID now) True s of
           (s', Ok res) \<Rightarrow> (s', Ok (conversationID, 0 < ur_Upserted res))
         | (s', Error e) \<Rightarrow> (s', Error e)
         | (s', Panic e) \<Rightarrow> (s', Panic e))"

definition UpdateMaxSeq :: "'s mongo \<Rightarrow> time \<Rightarrow> string \<Rightarrow> int \<Rightarrow> 's \<Rightarrow> 's \<times> int go" where
  "UpdateMaxSeq M now conversationID newMax s =
     (case mg_FindOneAndUpdate M collSeqConv [(''conversation_id'', CEq (MStr conversationID))]
             (commit_update newMax now) True True s of
        (s', Ok None) \<Rightarrow> (s', Error ''mongo: no documents in result'')
      | (s', Ok (Some d)) \<Rightarrow> (s', decode_int64 d ''max_seq'')
      | (s', Error e) \<Rightarrow> (s', Error e)
      | (s', Panic e) \<Rightarrow> (s', Panic e))"

definition owner_filter :: "string \<Rightarrow> string \<Rightarrow> string \<Rightarrow> mfilter" where
  "owner_filter tenantID owner conversationID =
     [(''tenant_id'', CEq (MStr tenantID)), (''owner_user_id'', CEq (MStr owner)),
      (''conversation_id'', CEq (MStr conversationID))]"

definition pair_filter :: "string \<Rightarrow> string \<Rightarrow> string \<Rightarrow> string \<Rightarrow> mfilter" where
  "pair_filter tenantID conversationID userA userB =
     [(''tenant_id'', CEq (MStr tenantID)), (''conversation_id'', CEq (MStr conversationID)),
      (''owner_user_id'', CIn [MStr userA, MStr userB])]"

definition side_update :: "string \<Rightarrow> string \<Rightarrow> string \<Rightarrow> string \<Rightarrow> int \<Rightarrow> time \<Rightarrow> mupdate" where
  "side_update tenantID owner peer conversationID chatType now = no_update\<lparr>
     mu_setOnInsert := [(''tenant_id'', MStr tenantID), (''owner_user_id'', MStr owner),
       (''conversation_id'', MStr conversationID), (''conversation_type'', MInt chatType),
       (''user_id'', MStr peer), (''group_id'', MStr ''''), (''recv_msg_opt'', MInt 0),
       (''is_pinned'', MBool False), (''is_private_chat'', MBool False), (''burn_duration'', MInt 0),
       (''group_at_type'', MInt 0), (''attached_info'', MStr ''''), (''ex'', MStr ''''),
       (''read_seq'', MInt 0), (''min_seq'', MInt 0), (''server_max_seq'', MInt 0),
       (''create_time'', MTime now), (''is_msg_destruct'', MBool False), (''msg_destruct_time'', MInt 0),
       (''latest_msg_destruct_time'', MTime zero_time)],
     mu_set := [(''update_time'', MTime now)] \<rparr>"

definition shadow_update :: "int \<Rightarrow> time \<Rightarrow> mupdate" where
  "shadow_update serverMaxSeq now = no_update\<lparr>
     mu_max := [(''server_max_seq'', MInt serverMaxSeq)], mu_set := [(''updated_at'', MTime now)] \<rparr>"

text \<open>The closure \<^verbatim>\<open>up\<close>: insert the side of one owner, or move its shadow forward.\<close>

definition ensure_side ::
  "'s mongo \<Rightarrow> time \<Rightarrow> string \<Rightarrow> string \<Rightarrow> int \<Rightarrow> int \<Rightarrow> string \<Rightarrow> string \<Rightarrow> 's \<Rightarrow> 's \<times> bool go" where
  "ensure_side M now tenantID conversationID chatType serverMaxSeq owner peer s =
     (case mg_UpdateOne M ''conversation'' (owner_filter tenantID owner conversationID)
             (side_update tenantID owner peer conversationID chatType now) True s of
        (s1, Error e) \<Rightarrow> (s1, Error e)
      | (s1, Panic e) \<Rightarrow> (s1, Panic e)
      | (s1, Ok res) \<Rightarrow>
          if 0 < ur_Upserted res then (s1, Ok True)
          else case mg_UpdateOne M ''conversation'' (owner_filter tenantID owner conversationID)
                      (shadow_update serverMaxSeq now) False s1 of
                 (s2, Ok _) \<Rightarrow> (s2, Ok False)
               | (s2, Error e) \<Rightarrow> (s2, Error e)
               | (s2, Panic e) \<Rightarrow> (s2, Panic e))"

text \<open>What was created is returned beside the error.\<close>

definition EnsureTwoSidesByKnownConvID ::
  "'s mongo \<Rightarrow> time \<Rightarrow> time \<Rightarrow> time \<Rightarrow> string \<Rightarrow> string \<Rightarrow> int \<Rightarrow> string \<Rightarrow> string \<Rightarrow> int \<Rightarrow> 's \<Rightarrow>
   's \<times> bool \<times> bool \<times> unit go" where
  "EnsureTwoSidesByKnownConvID M now nowA nowB tenantID conversationID chatType userA userB serverMaxSeq s =
     (case mg_Count M ''conversation'' (pair_filter tenantID conversationID userA userB) s of
        Error e \<Rightarrow> (s, False, False, Error e)
      | Panic e \<Rightarrow> (s, False, False, Panic e)
      | Ok cnt \<Rightarrow>
          if cnt = 2 then
            (case mg_UpdateMany M ''conversation'' (pair_filter tenantID conversationID userA userB)
                    (shadow_update serverMaxSeq now) s of (s1, e) \<Rightarrow> (s1, False, False, e))
          else
            (case ensure_side M nowA tenantID conversationID chatType serverMaxSeq userA userB s of
               (s1, Error e) \<Rightarrow> (s1, False, False, Error e)
             | (s1, Panic e) \<Rightarrow> (s1, False, False, Panic e)
             | (s1, Ok cA) \<Rightarrow>
                 (case ensure_side M nowB tenantID conversationID chatType serverMaxSeq userB userA s1 of
                    (s2, Ok cB) \<Rightarrow> (s2, cA, cB, Ok ())
                  | (s2, Error e) \<Rightarrow> (s2, cA, False, Error e)
                  | (s2, Panic e) \<Rightarrow> (s2, cA, False, Panic e))))"

subsection \<open>Indexes\<close>

text \<open>The indexes the program wants, collection by collection; the loop visits the map in the order \<open>o1\<close>.\<close>

definition wanted_indexes :: "(string, mindex list) gomap" where
  "wanted_indexes =
     [(''seq_conversation'',
        [\<lparr> mi_Keys = [(''tenant_id'', 1), (''conversation_id'', 1)], mi_Unique = True, mi_Name = ''uniq_tenant_conv'' \<rparr>]),
      (''conversation'',
        [\<lparr> mi_Keys = [(''tenant_id'', 1), (''owner_user_id'', 1), (''conversation_id'', 1)], mi_Unique = True, mi_Name = ''uniq_user_conv'' \<rparr>]),
      (''message'',
        [\<lparr> mi_Keys = [(''tenant_id'', 1), (''conversation_id'', 1), (''seq_num'', 1)], mi_Unique = True, mi_Name = ''ix_conv_seq'' \<rparr>,
         \<lparr> mi_Keys = [(''tenant_id'', 1), (''conversation_id'', 1), (''send_id'', 1), (''seq_num'', 1)], mi_Unique = False, mi_Name = ''ix_sender_seq'' \<rparr>]),
      (''read_sparse_block'',
        [\<lparr> mi_Keys = [(''tenant_id'', 1), (''conversation_id'', 1), (''user_id'', 1), (''block_start'', 1)], mi_Unique = True, mi_Name = ''uniq_sparse_block'' \<rparr>]),
      (''mention_index'',
        [\<lparr> mi_Keys = [(''tenant_id'', 1), (''conversation_id'', 1), (''target_user_id'', 1), (''seq'', 1)], mi_Unique = False, mi_Name = ''ix_mention_range'' \<rparr>])]"

fun create_missing :: "'s mongo \<Rightarrow> string \<Rightarrow> string list \<Rightarrow> mindex list \<Rightarrow> 's \<Rightarrow> 's \<times> unit go" where
  "create_missing M coll existing [] s = (s, Ok ())"
| "create_missing M coll existing (i # is) s =
     (if mi_Name i \<in> set existing then create_missing M coll existing is s
      else case mg_CreateIndex M coll i s of
             (s1, Ok _) \<Rightarrow> create_missing M coll existing is s1
           | (s1, Error e) \<Rightarrow> (s1, Error (''create index '' @ mi_Name i @ '' on '' @ coll @ '': '' @ e))
           | (s1, Panic e) \<Rightarrow> (s1, Panic e))"

fun ensure_collections :: "'s mongo \<Rightarrow> (string \<times> mindex list) list \<Rightarrow> 's \<Rightarrow> 's \<times> unit go" where
  "ensure_collections M [] s = (s, Ok ())"
| "ensure_collections M ((coll, idx) # rest) s =
     (case mg_ListIndexes M coll s of
        Error e \<Rightarrow> (s, Error (''list indexes for '' @ coll @ '': '' @ e))
      | Panic e \<Rightarrow> (s, Panic e)
      | Ok existing \<Rightarrow>
          (case create_missing M coll existing idx s of
             (s1, Ok _) \<Rightarrow> ensure_collections M rest s1
           | (s1, Error e) \<Rightarrow> (s1, Error e)
           | (s1, Panic e) \<Rightarrow> (s1, Panic e)))"

definition EnsureIndexes :: "'s mongo \<Rightarrow> order \<Rightarrow> 's \<Rightarrow> 's \<times> unit go" where
  "EnsureIndexes M o1 s = ensure_collections M (reorder o1 wanted_indexes) s"

lemma create_missing_view:
  assumes laws: "mongo_laws M view"
  shows "create_missing M coll ex js s = (s', r) \<Longrightarrow> view c s' = view c s"
proof (induction js arbitrary: s)
  case (Cons i js)
  obtain s1 r1 where 1: "mg_CreateIndex M coll i s = (s1, r1)" by fastforce
  with Cons mongo_CreateIndex[OF laws 1] show ?case by (cases r1) (auto split: if_splits)
qed simp

lemma ensure_collections_view:
  assumes laws: "mongo_laws M view"
  shows "ensure_collections M cs s = (s', r) \<Longrightarrow> view c s' = view c s"
proof (induction cs arbitrary: s)
  case (Cons x cs)
  obtain coll idx where x: "x = (coll, idx)" by fastforce
  show ?case
  proof (cases "mg_ListIndexes M coll s")
    case (Ok ex)
    obtain s1 r1 where 1: "create_missing M coll ex idx s = (s1, r1)" by fastforce
    with Cons Ok create_missing_view[OF laws 1] show ?thesis by (cases r1) (auto simp: x)
  qed (use Cons.prems in \<open>simp_all add: x\<close>)
qed simp

lemma EnsureIndexes_view: "mongo_laws M view \<Longrightarrow> EnsureIndexes M o1 s = (s', r) \<Longrightarrow> view c s' = view c s"
  unfolding EnsureIndexes_def by (rule ensure_collections_view)

subsection \<open>The methods of a conversation\<close>

definition guarded_update ::
  "'s mongo \<Rightarrow> mfilter \<Rightarrow> mupdate \<Rightarrow> 's \<Rightarrow> 's \<times> bool go" where
  "guarded_update M f u s =
     (case mg_UpdateOne M ''conversation'' f u False s of
        (s', Ok res) \<Rightarrow> (s', Ok (0 < ur_Modified res))
      | (s', Error e) \<Rightarrow> (s', Error e)
      | (s', Panic e) \<Rightarrow> (s', Panic e))"

definition Conversation_UpdateMaxSeq ::
  "'s mongo \<Rightarrow> string \<Rightarrow> string \<Rightarrow> int \<Rightarrow> 's \<Rightarrow> 's \<times> bool go" where
  "Conversation_UpdateMaxSeq M tenantID conversationID newMax s =
     (if newMax < 0 then (s, Ok False)
      else guarded_update M (conv_filter tenantID conversationID @ [(''max_seq'', CLt (MInt newMax))])
             (no_update\<lparr> mu_set := [(''max_seq'', MInt newMax)] \<rparr>) s)"

definition Conversation_UpdateServerMaxSeq ::
  "'s mongo \<Rightarrow> string \<Rightarrow> string \<Rightarrow> string \<Rightarrow> int \<Rightarrow> 's \<Rightarrow> 's \<times> bool go" where
  "Conversation_UpdateServerMaxSeq M tenantID conversationID ownerUserID newMax s =
     (if newMax < 0 then (s, Ok False)
      else guarded_update M (owner_filter tenantID ownerUserID conversationID @ [(''server_max_seq'', CLt (MInt newMax))])
             (no_update\<lparr> mu_set := [(''server_max_seq'', MInt newMax)] \<rparr>) s)"

definition Conversation_UpdateMinSeq ::
  "'s mongo \<Rightarrow> string \<Rightarrow> string \<Rightarrow> int \<Rightarrow> 's \<Rightarrow> 's \<times> bool go" where
  "Conversation_UpdateMinSeq M tenantID conversationID newMin s =
     (if newMin < 0 then (s, Ok False)
      else guarded_update M (conv_filter tenantID conversationID @ [(''min_seq'', CLt (MInt newMin))])
             (no_update\<lparr> mu_set := [(''min_seq'', MInt newMin)], mu_max := [(''max_seq'', MInt newMin)] \<rparr>) s)"

text \<open>The document that is decoded; decoding it into the struct is not modelled.\<close>

definition GetConversationByID :: "'s mongo \<Rightarrow> string \<Rightarrow> string \<Rightarrow> 's \<Rightarrow> doc option go" where
  "GetConversationByID M tenantID conversationID s =
     mg_FindOne M ''conversation'' (conv_filter tenantID conversationID) s"

subsection \<open>Highest number reserved\<close>

text \<open>What the allocator relies on: \<open>issued\<close> of the first document of a conversation, 0 without one.\<close>

definition issued :: "string \<Rightarrow> string \<Rightarrow> doc list \<Rightarrow> int" where
  "issued t c ds = (case find (doc_matches (conv_filter t c)) ds of None \<Rightarrow> 0 | Some d \<Rightarrow> doc_int d ''issued_seq'')"

definition issued_le :: "doc list \<Rightarrow> doc list \<Rightarrow> bool" where
  "issued_le ds ds' \<longleftrightarrow> (\<forall>t c. issued t c ds \<le> issued t c ds')"

lemma issued_le_refl [simp]: "issued_le ds ds"
  by (simp add: issued_le_def)

lemma issued_le_trans: "issued_le a b \<Longrightarrow> issued_le b c \<Longrightarrow> issued_le a c"
  unfolding issued_le_def using order_trans by blast

text \<open>An update that keeps the key fields, never lowers \<open>issued_seq\<close> and starts it at 0 or above.\<close>

definition keeps_key :: "mupdate \<Rightarrow> bool" where
  "keeps_key u \<longleftrightarrow> (\<forall>d. map_of (apply_update u d) ''tenant_id'' = map_of d ''tenant_id''
      \<and> map_of (apply_update u d) ''conversation_id'' = map_of d ''conversation_id'')"

definition issued_mono :: "mupdate \<Rightarrow> bool" where
  "issued_mono u \<longleftrightarrow> (\<forall>d. doc_int d ''issued_seq'' \<le> doc_int (apply_update u d) ''issued_seq'')"

lemma keeps_key_matches:
  "keeps_key u \<Longrightarrow> doc_matches (conv_filter t c) (apply_update u d) = doc_matches (conv_filter t c) d"
  by (simp add: keeps_key_def doc_matches_def conv_filter_def)

lemma issued_append_hit:
  "find (doc_matches (conv_filter t c)) ds \<noteq> None \<Longrightarrow> issued t c (ds @ ds') = issued t c ds"
  by (induction ds) (auto simp: issued_def)

lemma issued_append_miss:
  "find (doc_matches (conv_filter t c)) ds = None \<Longrightarrow> issued t c (ds @ ds') = issued t c ds'"
  by (induction ds) (auto simp: issued_def split: if_splits)

lemma issued_append:
  "issued t c (ds @ ds') = (if find (doc_matches (conv_filter t c)) ds = None then issued t c ds' else issued t c ds)"
  using issued_append_hit issued_append_miss by simp

lemma issued_Cons: "issued t c (d # ds) = (if doc_matches (conv_filter t c) d then doc_int d ''issued_seq'' else issued t c ds)"
  by (simp add: issued_def)

lemma issued_replace:
  assumes "keeps_key u" "issued_mono u"
  shows "issued_le (a @ d # b) (a @ apply_update u d # b)"
  using assms by (auto simp: issued_le_def issued_append issued_Cons keeps_key_matches issued_mono_def)

lemma issued_insert:
  assumes "0 \<le> doc_int d ''issued_seq''"
  shows "issued_le ds (ds @ [d])"
  unfolding issued_le_def
proof (intro allI)
  fix t c
  show "issued t c ds \<le> issued t c (ds @ [d])"
    using assms by (cases "find (doc_matches (conv_filter t c)) ds = None")
      (simp_all add: issued_append issued_Cons, simp_all add: issued_def)
qed

lemma issued_update_one:
  assumes "keeps_key u" "issued_mono u" "ups \<Longrightarrow> 0 \<le> doc_int (upsert_doc f u) ''issued_seq''"
  shows "issued_le ds (fst (update_one_spec f u ups ds))"
proof (cases "change_first f u ds")
  case None
  with assms(3) show ?thesis by (simp add: update_one_spec_def issued_insert)
next
  case (Some x)
  then obtain ds' d d' where x: "change_first f u ds = Some (ds', d, d')" by (cases x) auto
  from change_first_Some[OF x] obtain a b where "ds = a @ d # b" "ds' = a @ d' # b" "d' = apply_update u d"
    by blast
  with x issued_replace[OF assms(1,2)] show ?thesis by (simp add: update_one_spec_def)
qed

lemma find_update_one: "fst (find_update_spec f u ups aft ds) = fst (update_one_spec f u ups ds)"
  by (auto simp: find_update_spec_def update_one_spec_def split: option.splits)

text \<open>The updates of the program are of this kind.\<close>

lemma doc_int_max [simp]:
  "doc_int (max_field (k, MInt n) d) k' = (if k = k' then
     (case map_of d k of None \<Rightarrow> n | Some (MInt m) \<Rightarrow> max m n | _ \<Rightarrow> 0) else doc_int d k')"
  by (auto simp: doc_int_def split: option.splits mval.splits)

lemma doc_int_set [simp]: "doc_int (set_field (k, v) d) k' = (if k = k' then (case v of MInt n \<Rightarrow> n | _ \<Rightarrow> 0) else doc_int d k')"
  by (simp add: doc_int_def)

lemma doc_int_inc [simp]: "doc_int (inc_field (k, n) d) k' = (if k = k' then doc_int d k + n else doc_int d k')"
  by (auto simp: doc_int_def split: option.splits mval.splits)

lemmas update_simps = apply_update_def no_update_def upsert_doc_def filter_doc_def

lemma alloc_update_ok [simp]:
  "keeps_key (alloc_update b now)" "0 \<le> b \<Longrightarrow> issued_mono (alloc_update b now)"
  by (simp_all add: keeps_key_def issued_mono_def alloc_update_def update_simps)

lemma commit_update_ok [simp]: "keeps_key (commit_update n now)" "issued_mono (commit_update n now)"
  by (simp_all add: keeps_key_def issued_mono_def commit_update_def update_simps)

lemma min_update_ok [simp]: "keeps_key (min_update n now)" "issued_mono (min_update n now)"
  by (simp_all add: keeps_key_def issued_mono_def min_update_def update_simps)

lemma ensure_seq_update_ok [simp]: "keeps_key (ensure_seq_update t c now)" "issued_mono (ensure_seq_update t c now)"
  by (simp_all add: keeps_key_def issued_mono_def ensure_seq_update_def update_simps)

lemma floor_update_ok [simp]: "keeps_key (floor_update n now)" "0 \<le> n \<Longrightarrow> issued_mono (floor_update n now)"
  by (simp_all add: keeps_key_def issued_mono_def floor_update_def update_simps)
    (auto simp: doc_int_def split: option.splits mval.splits)

subsection \<open>The operations under the documented behaviour of the driver\<close>

lemma UpdateOne_issued:
  assumes "mongo_laws M view" "mg_UpdateOne M collSeqConv f u ups s = (s', r)"
    "keeps_key u" "issued_mono u" "ups \<Longrightarrow> 0 \<le> doc_int (upsert_doc f u) ''issued_seq''"
  shows "issued_le (view collSeqConv s) (view collSeqConv s')"
  using mongo_UpdateOne[OF assms(1,2)] issued_update_one[OF assms(3,4,5)] by force

lemma FindOneAndUpdate_issued:
  assumes "mongo_laws M view" "mg_FindOneAndUpdate M collSeqConv f u ups aft s = (s', r)"
    "keeps_key u" "issued_mono u" "ups \<Longrightarrow> 0 \<le> doc_int (upsert_doc f u) ''issued_seq''"
  shows "issued_le (view collSeqConv s) (view collSeqConv s')"
  using mongo_FindOneAndUpdate[OF assms(1,2)] issued_update_one[OF assms(3,4,5)] by (force simp: find_update_one)

lemma upd_err_fst: "upd_err x = (s', r) \<Longrightarrow> \<exists>r'. x = (s', r')"
  by (auto simp: upd_err_def split: prod.splits go.splits)

text \<open>The other writers of the collection never lower what is reserved.\<close>

inductive seq_writer :: "'s mongo \<Rightarrow> 's \<Rightarrow> 's \<Rightarrow> bool" for M where
  commit: "DAO_AdvanceCommit M now t c n s = (s', r) \<Longrightarrow> seq_writer M s s'"
| prune: "DAO_AdvanceMin M now t c n s = (s', r) \<Longrightarrow> seq_writer M s s'"
| raise: "DAO_RaiseIssuedFloor M now t c n s = (s', r) \<Longrightarrow> 0 \<le> n \<Longrightarrow> seq_writer M s s'"
| ensure: "EnsureSeqConversation M now t a b ct s = (s', r') \<Longrightarrow> seq_writer M s s'"
| maxseq: "UpdateMaxSeq M now c n s = (s', r'') \<Longrightarrow> seq_writer M s s'"

lemma upsert_issued:
  "doc_int (upsert_doc (conv_filter t c) (commit_update n now)) ''issued_seq'' = 0"
  "doc_int (upsert_doc [(''conversation_id'', CEq (MStr c))] (commit_update n now)) ''issued_seq'' = 0"
  "doc_int (upsert_doc (conv_filter t c) (floor_update m now)) ''issued_seq'' = m"
  "doc_int (upsert_doc (conv_filter t c) (ensure_seq_update t c now)) ''issued_seq'' = 0"
  "doc_int (upsert_doc (conv_filter t c) (alloc_update b now)) ''issued_seq'' = b"
  by (simp_all add: update_simps commit_update_def floor_update_def ensure_seq_update_def alloc_update_def conv_filter_def)
    (simp_all add: doc_int_def)

lemma EnsureSeqConversation_call:
  assumes "EnsureSeqConversation M now t a b ct s = (s', r)"
  shows "\<exists>r'. mg_UpdateOne M collSeqConv (conv_filter t (buildP2PConvID a b))
       (ensure_seq_update t (buildP2PConvID a b) now) True s = (s', r')"
proof -
  obtain s1 r1 where "mg_UpdateOne M collSeqConv (conv_filter t (buildP2PConvID a b))
       (ensure_seq_update t (buildP2PConvID a b) now) True s = (s1, r1)" by fastforce
  with assms show ?thesis by (cases r1) (simp_all add: EnsureSeqConversation_def Let_def)
qed

lemma UpdateMaxSeq_call:
  assumes "UpdateMaxSeq M now c n s = (s', r)"
  shows "\<exists>r'. mg_FindOneAndUpdate M collSeqConv [(''conversation_id'', CEq (MStr c))]
       (commit_update n now) True True s = (s', r')"
proof -
  obtain s1 r1 where 1: "mg_FindOneAndUpdate M collSeqConv [(''conversation_id'', CEq (MStr c))]
       (commit_update n now) True True s = (s1, r1)" by fastforce
  show ?thesis
  proof (cases r1)
    case (Ok o1)
    with 1 assms show ?thesis by (cases o1) (simp_all add: UpdateMaxSeq_def)
  qed (use 1 assms in \<open>simp_all add: UpdateMaxSeq_def\<close>)
qed

lemma seq_writer_issued:
  assumes laws: "mongo_laws M view" and "seq_writer M s s'"
  shows "issued_le (view collSeqConv s) (view collSeqConv s')"
  using assms(2)
proof cases
  case (commit now t c n r)
  then obtain r' where "mg_UpdateOne M collSeqConv (conv_filter t c) (commit_update n now) True s = (s', r')"
    by (auto simp: DAO_AdvanceCommit_def dest: upd_err_fst)
  then show ?thesis
    by (rule UpdateOne_issued[OF laws]) (simp_all add: upsert_issued)
next
  case (prune now t c n r)
  then obtain r' where "mg_UpdateOne M collSeqConv
       (conv_filter t c @ [(''max_seq'', CGte (MInt n))]) (min_update n now) False s = (s', r')"
    by (auto simp: DAO_AdvanceMin_def dest: upd_err_fst)
  then show ?thesis by (rule UpdateOne_issued[OF laws]) simp_all
next
  case (raise now t c n r)
  then obtain r' where "mg_UpdateOne M collSeqConv (conv_filter t c) (floor_update n now) True s = (s', r')"
    by (auto simp: DAO_RaiseIssuedFloor_def dest: upd_err_fst)
  then show ?thesis
    by (rule UpdateOne_issued[OF laws]) (simp_all add: raise(2) upsert_issued)
next
  case (ensure now t a b ct r')
  then obtain r'' where "mg_UpdateOne M collSeqConv (conv_filter t (buildP2PConvID a b))
       (ensure_seq_update t (buildP2PConvID a b) now) True s = (s', r'')"
    by (auto dest: EnsureSeqConversation_call)
  then show ?thesis
    by (rule UpdateOne_issued[OF laws]) (simp_all add: upsert_issued)
next
  case (maxseq now c n r)
  then obtain r'' where "mg_FindOneAndUpdate M collSeqConv [(''conversation_id'', CEq (MStr c))]
       (commit_update n now) True True s = (s', r'')"
    by (auto dest: UpdateMaxSeq_call)
  then show ?thesis
    by (rule FindOneAndUpdate_issued[OF laws]) (simp_all add: upsert_issued)
qed

subsection \<open>A segment\<close>

lemma doc_int64_int: "doc_int64 d \<Longrightarrow> int64 (doc_int d k)"
proof -
  assume d: "doc_int64 d"
  show ?thesis
  proof (cases "map_of d k")
    case (Some v)
    then have "(k, v) \<in> set d" by (rule map_of_SomeD)
    with d have "case v of MInt n \<Rightarrow> int64 n | _ \<Rightarrow> True" by (auto simp: doc_int64_def list_all_iff)
    with Some show ?thesis by (cases v) (auto simp: doc_int_def int64_def)
  qed (simp add: doc_int_def int64_def)
qed

lemma issued_int64: "list_all doc_int64 ds \<Longrightarrow> int64 (issued t c ds)"
  by (induction ds) (auto simp: issued_Cons doc_int64_int, auto simp: issued_def int64_def)

lemma matches_upsert:
  "doc_matches (conv_filter t' c') (upsert_doc (conv_filter t c) (alloc_update b now)) \<longleftrightarrow> t' = t \<and> c' = c"
  by (auto simp: doc_matches_def conv_filter_def alloc_update_def update_simps)

lemma matches_conv_unique:
  "doc_matches (conv_filter t c) d \<Longrightarrow> doc_matches (conv_filter t' c') d \<longleftrightarrow> t' = t \<and> c' = c"
  by (auto simp: doc_matches_def conv_filter_def)

lemma alloc_spec:
  fixes ds now b t c
  defines "fu \<equiv> find_update_spec (conv_filter t c) (alloc_update b now) True False ds"
  shows "issued t c (fst fu) = issued t c ds + b
    \<and> (\<forall>t' c'. (t', c') \<noteq> (t, c) \<longrightarrow> issued t' c' (fst fu) = issued t' c' ds)
    \<and> (case snd fu of None \<Rightarrow> issued t c ds = 0 | Some d \<Rightarrow> doc_int d ''issued_seq'' = issued t c ds)"
proof (cases "change_first (conv_filter t c) (alloc_update b now) ds")
  case None
  then have n: "find (doc_matches (conv_filter t c)) ds = None" by (simp add: change_first_None)
  have v: "doc_int (upsert_doc (conv_filter t c) (alloc_update b now)) ''issued_seq'' = b"
    by (rule upsert_issued)
  have "issued t' c' (ds @ [upsert_doc (conv_filter t c) (alloc_update b now)]) = issued t' c' ds"
    if "(t', c') \<noteq> (t, c)" for t' c'
    using that by (auto simp: issued_append issued_Cons matches_upsert) (simp_all add: issued_def)
  with None n v show ?thesis
    by (simp add: fu_def find_update_spec_def issued_append issued_Cons matches_upsert) (simp add: issued_def)
next
  case (Some x)
  then obtain ds' d d' where x: "change_first (conv_filter t c) (alloc_update b now) ds = Some (ds', d, d')"
    by (cases x) auto
  from change_first_Some[OF x] obtain l r where l: "ds = l @ d # r" "ds' = l @ d' # r" "d' = apply_update (alloc_update b now) d"
    "doc_matches (conv_filter t c) d" "\<forall>x \<in> set l. \<not> doc_matches (conv_filter t c) x" by blast
  from l(5) have n: "find (doc_matches (conv_filter t c)) l = None" by (simp add: find_None_iff)
  have k: "doc_matches (conv_filter t' c') d' = doc_matches (conv_filter t' c') d" for t' c'
    by (simp add: l(3) keeps_key_matches)
  have v: "doc_int d' ''issued_seq'' = doc_int d ''issued_seq'' + b"
    by (simp add: l(3) alloc_update_def update_simps)
  show ?thesis
    using x l(4) n k v matches_conv_unique[OF l(4)]
    by (simp add: fu_def find_update_spec_def l(1,2) issued_append issued_Cons)
qed

end
