(* ===== verification/SeqAlloc.thy ===== *)
theory SeqAlloc
  imports SeqStore RedisLib
begin

section \<open>The sequence allocator\<close>

text \<open>
  \<^verbatim>\<open>seq/seq.go\<close>: numbers for the messages of a conversation. A segment of numbers is
  reserved in MongoDB and kept as a hash in Redis, from which a script takes the numbers one request
  at a time. \<open>Malloc\<close> is the method as written; \<open>malloc_step\<close> is the same method cut at its calls to
  the servers, so that calls of several processes can be interleaved.
\<close>

subsection \<open>Scripts\<close>

definition luaInSegment :: "string \<Rightarrow> int \<Rightarrow> int \<Rightarrow> int \<Rightarrow> rscript" where
  "luaInSegment k need0 segEnd0 nowms0 =
     (let need = tonumber need0; segEnd = tonumber segEnd0; nowms = tonumber nowms0 in
      rthen (HGET k ''curr'') (\<lambda>curr0.
      rthen (HGET k ''end'') (\<lambda>endv0.
        case (curr0, endv0) of
          (Some curr1, Some endv1) \<Rightarrow>
            let curr = tonumber curr1; endv = tonumber endv1 in
            if segEnd \<noteq> 0 \<and> segEnd \<noteq> endv
            then rret (LArr [LInt 3, LInt curr, LInt endv, LInt 0, LInt nowms])
            else
              let start = tonumber (curr + 1); newv = tonumber (curr + need) in
              if endv < newv
              then rret (LArr [LInt 3, LInt curr, LInt endv, LInt 0, LInt nowms])
              else rthen (HSET k [(''curr'', newv), (''mill'', nowms)])
                     (\<lambda>_. rret (LArr [LInt 0, LInt start, LInt 0, LInt endv, LInt nowms]))
        | _ \<Rightarrow> rret (LArr [LInt 1]))))"

definition luaSetSegment :: "string \<Rightarrow> int \<Rightarrow> int \<Rightarrow> int \<Rightarrow> rscript" where
  "luaSetSegment k curr0 endv0 nowms0 =
     (let curr = tonumber curr0; endv = tonumber endv0; nowms = tonumber nowms0 in
      rthen (HSET k [(''curr'', curr), (''end'', endv), (''mill'', nowms)]) (\<lambda>_.
      rthen (PEXPIRE k 3600000) (\<lambda>_. rret (LInt 1))))"

subsection \<open>The allocator\<close>

text \<open>The interface \<^verbatim>\<open>DAOIface\<close>, with the clock reading its call takes.\<close>

type_synonym 's dao = "time \<Rightarrow> string \<Rightarrow> string \<Rightarrow> int \<Rightarrow> 's \<Rightarrow> 's \<times> (int \<times> int) go"

record allocator =
  al_BlockSizeFn :: "(string \<Rightarrow> string \<Rightarrow> int \<Rightarrow> int) option"
  al_KeyFn :: "(string \<Rightarrow> string \<Rightarrow> string) option"
  al_MaxRetry :: int

definition defaultBlock :: "string \<Rightarrow> string \<Rightarrow> int \<Rightarrow> int" where
  "defaultBlock tenant conv want0 =
     (let want = (if want0 \<le> 0 then 1 else want0)
      in if want < 32 then 256 else wrap64 (want * 8))"

definition defaultKey :: "string \<Rightarrow> string \<Rightarrow> string" where
  "defaultKey tenant conv = ''seq:blk:'' @ tenant @ '':'' @ conv"

definition Allocator_ensure :: "allocator \<Rightarrow> allocator" where
  "Allocator_ensure a =
     (let a1 = (if al_BlockSizeFn a = None then a\<lparr> al_BlockSizeFn := Some defaultBlock \<rparr> else a);
          a2 = (if al_KeyFn a1 = None then a1\<lparr> al_KeyFn := Some defaultKey \<rparr> else a1)
      in if al_MaxRetry a2 = 0 then a2\<lparr> al_MaxRetry := 10 \<rparr> else a2)"

definition block_of :: "allocator \<Rightarrow> string \<Rightarrow> string \<Rightarrow> int \<Rightarrow> int" where
  "block_of a = (case al_BlockSizeFn (Allocator_ensure a) of Some f \<Rightarrow> f | None \<Rightarrow> defaultBlock)"

definition key_of :: "allocator \<Rightarrow> string \<Rightarrow> string \<Rightarrow> string" where
  "key_of a = (case al_KeyFn (Allocator_ensure a) of Some f \<Rightarrow> f | None \<Rightarrow> defaultKey)"

definition retries_of :: "allocator \<Rightarrow> nat" where
  "retries_of a = nat (al_MaxRetry (Allocator_ensure a))"

subsection \<open>Reading the reply of a script\<close>

text \<open>\<^verbatim>\<open>arr := res.([]interface{})\<close> and \<^verbatim>\<open>arr[i].(int64)\<close> panic on other shapes.\<close>

definition reply_at :: "rreply \<Rightarrow> nat \<Rightarrow> int go" where
  "reply_at res i = (case res of
       LArr xs \<Rightarrow> (if i < length xs then (case xs ! i of LInt n \<Rightarrow> Ok n | _ \<Rightarrow> Panic ''interface conversion'')
                   else Panic ''index out of range'')
     | _ \<Rightarrow> Panic ''interface conversion'')"

definition reply_start :: "rreply \<Rightarrow> (int \<times> int) go" where
  "reply_start res = (case reply_at res 1 of
       Ok a \<Rightarrow> (case reply_at res 4 of Ok b \<Rightarrow> Ok (a, b) | Error e \<Rightarrow> Error e | Panic e \<Rightarrow> Panic e)
     | Error e \<Rightarrow> Error e | Panic e \<Rightarrow> Panic e)"

definition nowms_of :: "time \<Rightarrow> int" where
  "nowms_of t = t div millisecond"

subsection \<open>Malloc\<close>

text \<open>
  \<open>n\<close> attempts are left, \<open>clk\<close> gives the clock reading of each attempt's reservation, \<open>lastErr\<close> is the
  error of the attempts so far. The state is that of MongoDB and that of Redis.
\<close>

fun Malloc_loop ::
  "allocator \<Rightarrow> 's dao \<Rightarrow> 'r redis \<Rightarrow> string \<Rightarrow> string \<Rightarrow> int \<Rightarrow> int \<Rightarrow> (nat \<Rightarrow> time) \<Rightarrow> nat \<Rightarrow> string option \<Rightarrow>
   's \<times> 'r \<Rightarrow> ('s \<times> 'r) \<times> (int \<times> int) go" where
  "Malloc_loop A D R t c need nowms clk 0 lastErr w =
     (w, Error (case lastErr of None \<Rightarrow> ''malloc retry exceeded'' | Some e \<Rightarrow> e))"
| "Malloc_loop A D R t c need nowms clk (Suc n) lastErr (s, r) =
     (case D (clk n) t c (block_of A t c need) s of
        (s1, Error e) \<Rightarrow> ((s1, r), Error e)
      | (s1, Panic e) \<Rightarrow> ((s1, r), Panic e)
      | (s1, Ok (segStart, segEnd)) \<Rightarrow>
          (case rd_Run R (luaSetSegment (key_of A t c) (wrap64 (segStart - 1)) segEnd nowms) r of
             (r1, Error e) \<Rightarrow> Malloc_loop A D R t c need nowms clk n (Some e) (s1, r1)
           | (r1, Panic e) \<Rightarrow> ((s1, r1), Panic e)
           | (r1, Ok _) \<Rightarrow>
               (case rd_Run R (luaInSegment (key_of A t c) need segEnd nowms) r1 of
                  (r2, Error e) \<Rightarrow> Malloc_loop A D R t c need nowms clk n (Some e) (s1, r2)
                | (r2, Panic e) \<Rightarrow> ((s1, r2), Panic e)
                | (r2, Ok res) \<Rightarrow>
                    (case reply_at res 0 of
                       Ok code \<Rightarrow> (if code = 0 then ((s1, r2), reply_start res)
                                   else Malloc_loop A D R t c need nowms clk n lastErr (s1, r2))
                     | Error e \<Rightarrow> ((s1, r2), Error e)
                     | Panic e \<Rightarrow> ((s1, r2), Panic e)))))"

definition Allocator_Malloc ::
  "allocator \<Rightarrow> 's dao \<Rightarrow> 'r redis \<Rightarrow> string \<Rightarrow> string \<Rightarrow> int \<Rightarrow> time \<Rightarrow> (nat \<Rightarrow> time) \<Rightarrow>
   's \<times> 'r \<Rightarrow> ('s \<times> 'r) \<times> (int \<times> int) go" where
  "Allocator_Malloc A D R t c need0 now clk w =
     (let need = (if need0 \<le> 0 then 1 else need0); nowms = nowms_of now; (s, r) = w
      in case rd_Run R (luaInSegment (key_of A t c) need 0 nowms) r of
           (r1, Error _) \<Rightarrow> Malloc_loop A D R t c need nowms clk (retries_of A) None (s, r1)
         | (r1, Panic e) \<Rightarrow> ((s, r1), Panic e)
         | (r1, Ok res) \<Rightarrow>
             (case reply_at res 0 of
                Ok code \<Rightarrow>
                  (if code = 0 then ((s, r1), reply_start res)
                   else if code = 1 \<or> code = 3
                   then Malloc_loop A D R t c need nowms clk (retries_of A) None (s, r1)
                   else ((s, r1), Error (''unknown redis state %v, '' @ itoa code @ ''=MISSING'')))
              | Error e \<Rightarrow> ((s, r1), Error e)
              | Panic e \<Rightarrow> ((s, r1), Panic e)))"

subsection \<open>Malloc, one call to a server at a time\<close>

datatype mphase =
    PFirst
  | PAlloc nat "string option"
  | PSet nat "string option" int int
  | PIn nat "string option" int
  | PDone "(int \<times> int) go"

record mjob =
  mj_tenant :: string
  mj_conv :: string
  mj_need :: int
  mj_nowms :: int
  mj_clk :: "nat \<Rightarrow> time"

text \<open>\<open>PAlloc n\<close>, \<open>PSet n\<close> and \<open>PIn n\<close> are inside the loop with \<open>n\<close> attempts left after this one.\<close>

definition first_next :: "allocator \<Rightarrow> rreply go \<Rightarrow> mphase" where
  "first_next A x = (case x of
       Error _ \<Rightarrow> PAlloc (retries_of A) None
     | Panic e \<Rightarrow> PDone (Panic e)
     | Ok res \<Rightarrow> (case reply_at res 0 of
           Ok code \<Rightarrow> (if code = 0 then PDone (reply_start res)
                       else if code = 1 \<or> code = 3 then PAlloc (retries_of A) None
                       else PDone (Error (''unknown redis state %v, '' @ itoa code @ ''=MISSING'')))
         | Error e \<Rightarrow> PDone (Error e)
         | Panic e \<Rightarrow> PDone (Panic e)))"

definition in_next :: "nat \<Rightarrow> string option \<Rightarrow> rreply go \<Rightarrow> mphase" where
  "in_next n le x = (case x of
       Error e \<Rightarrow> PAlloc n (Some e)
     | Panic e \<Rightarrow> PDone (Panic e)
     | Ok res \<Rightarrow> (case reply_at res 0 of
           Ok code \<Rightarrow> (if code = 0 then PDone (reply_start res) else PAlloc n le)
         | Error e \<Rightarrow> PDone (Error e)
         | Panic e \<Rightarrow> PDone (Panic e)))"

fun malloc_step ::
  "allocator \<Rightarrow> 's dao \<Rightarrow> 'r redis \<Rightarrow> mjob \<Rightarrow> mphase \<Rightarrow> 's \<times> 'r \<Rightarrow> ('s \<times> 'r) \<times> mphase" where
  "malloc_step A D R j PFirst (s, r) =
     (case rd_Run R (luaInSegment (key_of A (mj_tenant j) (mj_conv j)) (mj_need j) 0 (mj_nowms j)) r of
        (r1, x) \<Rightarrow> ((s, r1), first_next A x))"
| "malloc_step A D R j (PAlloc 0 le) (s, r) =
     ((s, r), PDone (Error (case le of None \<Rightarrow> ''malloc retry exceeded'' | Some e \<Rightarrow> e)))"
| "malloc_step A D R j (PAlloc (Suc n) le) (s, r) =
     (case D (mj_clk j n) (mj_tenant j) (mj_conv j) (block_of A (mj_tenant j) (mj_conv j) (mj_need j)) s of
        (s1, Error e) \<Rightarrow> ((s1, r), PDone (Error e))
      | (s1, Panic e) \<Rightarrow> ((s1, r), PDone (Panic e))
      | (s1, Ok (a, b)) \<Rightarrow> ((s1, r), PSet n le a b))"
| "malloc_step A D R j (PSet n le a b) (s, r) =
     (case rd_Run R (luaSetSegment (key_of A (mj_tenant j) (mj_conv j)) (wrap64 (a - 1)) b (mj_nowms j)) r of
        (r1, Error e) \<Rightarrow> ((s, r1), PAlloc n (Some e))
      | (r1, Panic e) \<Rightarrow> ((s, r1), PDone (Panic e))
      | (r1, Ok _) \<Rightarrow> ((s, r1), PIn n le b))"
| "malloc_step A D R j (PIn n le b) (s, r) =
     (case rd_Run R (luaInSegment (key_of A (mj_tenant j) (mj_conv j)) (mj_need j) b (mj_nowms j)) r of
        (r1, x) \<Rightarrow> ((s, r1), in_next n le x))"
| "malloc_step A D R j (PDone x) w = (w, PDone x)"

end
