(* ===== verification/RedisWrites.thy ===== *)
theory RedisWrites
  imports RedisLib
begin

section \<open>What a Redis command may write\<close>

text \<open>
  Durations of the client's commands, and the commands that write at most one value under one key: what a key
  holds after such a command, whether its reply was lost or not, is that value or what the key held before.
\<close>

text \<open>The client sends durations in whole milliseconds, a positive one below a millisecond as one.\<close>

definition formatMs :: "duration \<Rightarrow> int" where
  "formatMs d = (if 0 < d \<and> d < millisecond then 1 else if d < 0 then - ((- d) div millisecond) else d div millisecond)"

definition SET_dur :: "string \<Rightarrow> string \<Rightarrow> duration \<Rightarrow> unit rcmd" where
  "SET_dur k v ttl = SET_PX k v (formatMs ttl)"

definition SETNX :: "string \<Rightarrow> string \<Rightarrow> int rcmd" where
  "SETNX k v db = (if r_get k db = None then (fst (SET_cmd k v db), Ok 1) else (db, Ok 0))"

text \<open>However a call ends, the script ran some number of times, and keys may have expired since.\<close>

lemma redis_run_any:
  assumes "redis_laws R rv" "rd_Run R sc r = (r', x)"
  shows "\<exists>db1. sent_before sc (rv r) db1 \<and> (rv r' = db1 \<or> (\<exists>t. rv r' = purge t db1))"
proof (cases x)
  case (Ok v)
  with redis_run_Ok[OF assms(1), of sc r r' v] assms(2) sent show ?thesis by (metis fst_conv)
next
  case (Error e)
  with redis_run_Error[OF assms(1), of sc r r' e] assms(2) sent show ?thesis by metis
next
  case (Panic e)
  with redis_run_Panic[OF assms(1)] assms(2) show ?thesis by blast
qed

text \<open>A command that leaves every key alone but one, which it removes or sets to one value.\<close>

definition sets_at_most :: "string \<Rightarrow> string \<Rightarrow> 'a rcmd \<Rightarrow> bool" where
  "sets_at_most k v c \<longleftrightarrow> (\<forall>db j x. r_get j (fst (c db)) = Some x \<longrightarrow> r_get j db = Some x \<or> j = k \<and> x = RStr v)"

named_theorems sets_at_most_intros \<open>commands and their composition\<close>

lemma sets_at_mostD:
  "sets_at_most k v c \<Longrightarrow> r_get j (fst (c db)) = Some x \<Longrightarrow> r_get j db = Some x \<or> j = k \<and> x = RStr v"
  by (auto simp: sets_at_most_def)

lemma sets_at_most_SET [sets_at_most_intros]: "sets_at_most k v (SET_dur k v ttl)"
  by (auto simp: sets_at_most_def SET_dur_def SET_PX_def r_get_def)

lemma sets_at_most_none: "(\<And>db j. r_get j (fst (c db)) = None \<or> r_get j (fst (c db)) = r_get j db) \<Longrightarrow> sets_at_most k v c"
  unfolding sets_at_most_def by (metis option.distinct(1))

lemma sets_at_most_SETNX [sets_at_most_intros]: "sets_at_most k v (SETNX k v)"
  by (auto simp: sets_at_most_def SETNX_def SET_cmd_def r_get_def)

lemma sets_at_most_PEXPIREAT [sets_at_most_intros]: "sets_at_most k v (PEXPIREAT j ms)"
  by (rule sets_at_most_none) (auto simp: PEXPIREAT_def r_get_def r_del_def split: option.splits)

lemma sets_at_most_PEXPIRE [sets_at_most_intros]: "sets_at_most k v (PEXPIRE j ms)"
  by (rule sets_at_most_none) (auto simp: PEXPIRE_def PEXPIREAT_def r_get_def r_del_def split: option.splits)

lemma sets_at_most_EXISTS [sets_at_most_intros]: "sets_at_most k v (EXISTS j)"
  by (rule sets_at_most_none) (simp add: EXISTS_def)

lemma sets_at_most_rret [sets_at_most_intros]: "sets_at_most k v (rret x)"
  by (rule sets_at_most_none) (simp add: rret_def)

lemma sets_at_most_then [sets_at_most_intros]:
  "sets_at_most k v c \<Longrightarrow> (\<And>x. sets_at_most k v (f x)) \<Longrightarrow> sets_at_most k v (rthen c f)"
proof -
  assume c: "sets_at_most k v c" and f: "\<And>x. sets_at_most k v (f x)"
  have "r_get j db = Some y \<or> j = k \<and> y = RStr v" if "r_get j (fst (rthen c f db)) = Some y" for db j y
  proof (cases "c db")
    case (Pair db1 x)
    then have "r_get j db1 = Some y \<or> j = k \<and> y = RStr v"
      using that sets_at_mostD[OF f, of j _ db1 y] by (cases x) (auto simp: rthen_def)
    then show ?thesis using sets_at_mostD[OF c, of j db y] Pair by auto
  qed
  then show ?thesis by (simp add: sets_at_most_def)
qed

lemma sets_at_most_if [sets_at_most_intros]: "sets_at_most k v c \<Longrightarrow> sets_at_most k v d \<Longrightarrow> sets_at_most k v (if b then c else d)"
  by simp

lemma sets_at_most_DEL [sets_at_most_intros]: "sets_at_most k v (rvoid (DEL j))"
  by (auto simp: sets_at_most_def rvoid_def rthen_def DEL_def rret_def r_del_def r_get_def split: if_splits)

lemma sets_at_most_GET [sets_at_most_intros]: "sets_at_most k v (GET_cmd j)"
  by (auto simp: sets_at_most_def GET_cmd_def split: option.splits rval.splits)

lemma sets_at_most_pipe [sets_at_most_intros]: "(\<And>c. c \<in> set cs \<Longrightarrow> sets_at_most k v c) \<Longrightarrow> sets_at_most k v (rpipe cs)"
proof (induction cs)
  case (Cons c cs)
  have c: "sets_at_most k v c" and cs: "sets_at_most k v (rpipe cs)" using Cons by simp_all
  have "fst (rpipe (c # cs) db) = fst (rpipe cs (fst (c db)))" for db
    by (simp split: prod.splits go.splits)
  then show ?case using c cs unfolding sets_at_most_def by metis
qed (simp add: sets_at_most_def)

lemma r_get_unpurged: "r_get j (purge t db) = Some x \<Longrightarrow> r_get j db = Some x"
  by (auto simp: r_get_def split: if_splits)

text \<open>Sending such a command again does not change what can be said of the keys.\<close>

lemma sent_sets_at_most:
  "sent_before sc db db1 \<Longrightarrow> sets_at_most k v sc \<Longrightarrow> r_get j db1 = Some y \<Longrightarrow> r_get j db = Some y \<or> j = k \<and> y = RStr v"
proof (induction arbitrary: y rule: sent_before.induct)
  case (sent db1 t)
  from sets_at_mostD[OF sent(3,4)] have "r_get j db1 = Some y \<or> j = k \<and> y = RStr v" by (auto dest: r_get_unpurged)
  with sent.IH[OF sent(3), of y] show ?case by auto
qed simp

lemma run_sets_at_most:
  assumes "redis_laws R rv" "rd_Run R sc r = (r', x)" "sets_at_most k v sc" "r_get j (rv r') = Some y"
  shows "r_get j (rv r) = Some y \<or> j = k \<and> y = RStr v"
proof -
  obtain db1 where db1: "sent_before sc (rv r) db1" and "rv r' = db1 \<or> (\<exists>t. rv r' = purge t db1)"
    using redis_run_any[OF assms(1,2)] by blast
  with assms(4) have "r_get j db1 = Some y" by (auto dest: r_get_unpurged)
  with sent_sets_at_most[OF db1 assms(3)] show ?thesis by blast
qed

end
