(* ===== verification/SeqSystem.thy ===== *)
theory SeqSystem
  imports SeqAlloc RedisWrites
begin

section \<open>Concurrent calls of the allocator\<close>

text \<open>
  Processes that call \<open>Malloc\<close> on the same servers, interleaved at every call to a server: replies may
  be lost, processes may die, keys of Redis may expire or be evicted, and the other writers of the
  sequence documents run in between. A parameter says whether a script may be sent again after a lost reply. The scripts' effect on the segment in Redis, the interfaces the
  allocator relies on, and the invariant that gives uniqueness of the numbers.
\<close>

subsection \<open>What the scripts do to a segment\<close>

definition seg_of :: "string \<Rightarrow> rdb \<Rightarrow> (int \<times> int) option" where
  "seg_of k db = (case r_get k db of
       Some (RHash h) \<Rightarrow> (case (map_of h ''curr'', map_of h ''end'') of (Some c, Some e) \<Rightarrow> Some (c, e) | _ \<Rightarrow> None)
     | _ \<Rightarrow> None)"

definition seg_kept :: "string \<Rightarrow> rdb \<Rightarrow> rdb \<Rightarrow> bool" where
  "seg_kept k db db' \<longleftrightarrow> seg_of k db' = None \<or> seg_of k db' = seg_of k db"

lemma seg_kept_refl [simp]: "seg_kept k db db"
  by (simp add: seg_kept_def)

lemma seg_kept_trans: "seg_kept k a b \<Longrightarrow> seg_kept k b c \<Longrightarrow> seg_kept k a c"
  by (auto simp: seg_kept_def)

lemma seg_kept_get: "r_get k db' = None \<or> r_get k db' = r_get k db \<Longrightarrow> seg_kept k db db'"
  by (auto simp: seg_kept_def seg_of_def)

lemma r_get_put: "r_get k (r_put k' v db) = (if k = k' then (if r_empty v then None else Some v) else r_get k db)"
  by (simp add: r_put_def r_get_def r_del_def)

lemma r_get_purge: "r_get k (purge t db) = None \<or> r_get k (purge t db) = r_get k db"
  by (simp add: r_get_def)

lemma seg_kept_purge [simp]: "seg_kept k db (purge t db)"
  using r_get_purge seg_kept_get by blast

text \<open>Numbers may be taken from the front of a segment, or the segment goes away.\<close>

definition seg_shrunk :: "string \<Rightarrow> rdb \<Rightarrow> rdb \<Rightarrow> bool" where
  "seg_shrunk k db db' \<longleftrightarrow> (\<forall>b e. seg_of k db' = Some (b, e) \<longrightarrow>
     (\<exists>a. seg_of k db = Some (a, e) \<and> a \<le> b \<and> (a \<le> e \<longrightarrow> b \<le> e)))"

lemma seg_kept_shrunk: "seg_kept k db db' \<Longrightarrow> seg_shrunk k db db'"
  by (auto simp: seg_kept_def seg_shrunk_def)

lemma seg_shrunk_refl [simp]: "seg_shrunk k db db"
  by (simp add: seg_shrunk_def)

lemma seg_shrunk_trans: "seg_shrunk k a b \<Longrightarrow> seg_shrunk k b c \<Longrightarrow> seg_shrunk k a c"
  unfolding seg_shrunk_def by (metis order_trans)

lemma seg_shrunkE:
  assumes "seg_shrunk k db db'" "seg_of k db' = Some (b, e)"
  obtains a where "seg_of k db = Some (a, e)" "a \<le> b" "a \<le> e \<Longrightarrow> b \<le> e"
  using assms by (auto simp: seg_shrunk_def)

lemma seg_shrunk_bound:
  assumes "seg_shrunk k db db'" "seg_of k db' = Some (b, e)"
    and "\<And>c e. seg_of k db = Some (c, e) \<Longrightarrow> 0 \<le> c \<and> c \<le> e \<and> e < (m::int)"
  shows "0 \<le> b \<and> b \<le> e \<and> e < m"
proof -
  obtain a where a: "seg_of k db = Some (a, e)" "a \<le> b" "a \<le> e \<Longrightarrow> b \<le> e" using seg_shrunkE[OF assms(1,2)] by blast
  from assms(3)[OF a(1)] a(2,3) show ?thesis by simp
qed

lemma PEXPIREAT_get: "PEXPIREAT k ms db = (db', x) \<Longrightarrow> \<exists>n. x = Ok n \<and>
    (r_get k' db' = r_get k' db \<or> r_get k' db' = None)"
  by (auto simp: PEXPIREAT_def r_get_def r_del_def split: option.splits if_splits)

lemma PEXPIREAT_other: "PEXPIREAT k ms db = (db', x) \<Longrightarrow> k' \<noteq> k \<Longrightarrow> r_get k' db' = r_get k' db"
  by (auto simp: PEXPIREAT_def r_get_def r_del_def split: option.splits if_splits)

definition taken :: "rreply go \<Rightarrow> bool" where
  "taken x \<longleftrightarrow> (case x of Ok res \<Rightarrow> reply_at res 0 = Ok 0 | _ \<Rightarrow> False)"

lemma luaInSegment_cases:
  assumes run: "luaInSegment k need se ms db = (db', x)"
    and seg: "\<And>c e. seg_of k db = Some (c, e) \<Longrightarrow> 0 \<le> c \<and> c \<le> e \<and> e < 2 ^ 53"
    and need: "1 \<le> need"
  shows "(db' = db \<and> \<not> taken x) \<or>
    (\<exists>c e v. seg_of k db = Some (c, e) \<and> c + need \<le> e \<and> seg_of k db' = Some (c + need, e)
       \<and> (\<forall>k'. k' \<noteq> k \<longrightarrow> r_get k' db' = r_get k' db)
       \<and> x = Ok (LArr [LInt 0, LInt (c + 1), LInt 0, LInt e, LInt v]))"
proof -
  show ?thesis
  proof (cases "r_get k db")
    case None
    with run show ?thesis
      by (auto simp: luaInSegment_def HGET_def r_hash_def rthen_def rret_def taken_def reply_at_def Let_def)
  next
    case (Some v)
    show ?thesis
    proof (cases v)
      case (RHash h)
      show ?thesis
      proof (cases "seg_of k db")
        case None
        with Some RHash have "map_of h ''curr'' = None \<or> map_of h ''end'' = None"
          by (auto simp: seg_of_def split: option.splits)
        with run Some RHash show ?thesis
          by (auto simp: luaInSegment_def HGET_def r_hash_def rthen_def rret_def taken_def reply_at_def Let_def
              split: option.splits)
      next
        case S: (Some ce)
        obtain c e where ce: "ce = (c, e)" by (cases ce)
        with S Some RHash have h: "map_of h ''curr'' = Some c" "map_of h ''end'' = Some e"
          by (auto simp: seg_of_def split: option.splits)
        from seg S ce have b: "0 \<le> c" "c \<le> e" "e < 2 ^ 53" by auto
        then have tn: "tonumber c = c" "tonumber e = e" "tonumber (c + 1) = c + 1" by simp_all
        show ?thesis
        proof (cases "(tonumber se \<noteq> 0 \<and> tonumber se \<noteq> e) \<or> e < tonumber (c + tonumber need)")
          case True
          with run Some RHash h tn show ?thesis
            by (auto simp: luaInSegment_def HGET_def r_hash_def rthen_def rret_def taken_def reply_at_def Let_def
                split: if_splits)
        next
          case False
          then have le: "tonumber (c + tonumber need) \<le> e" by auto
          have p: "0 \<le> tonumber need" using need by (simp add: tonumber_def)
          from tonumber_less[of "c + tonumber need"] b p le
          have 1: "tonumber (c + tonumber need) = c + tonumber need" "c + tonumber need < 2 ^ 53" by auto
          with tonumber_less[of need] need b have 2: "tonumber need = need" by auto
          let ?h = "AList.update ''mill'' (tonumber ms) (AList.update ''curr'' (c + need) h)"
          have e: "\<not> r_empty (RHash ?h)"
            by (simp add: r_empty_def update_nonempty)
          have "db' = r_put k (RHash ?h) db \<and> x = Ok (LArr [LInt 0, LInt (c + 1), LInt 0, LInt e, LInt (tonumber ms)])"
            using run Some RHash h tn False 1 2 
            by (auto simp: luaInSegment_def HGET_def HSET_def r_hash_def rthen_def rret_def Let_def)
          then show ?thesis
            using S ce le 1 2 e h by (auto simp: seg_of_def r_get_put)
        qed
      qed
    qed (use run Some in \<open>auto simp: luaInSegment_def HGET_def r_hash_def rthen_def rret_def taken_def Let_def WRONGTYPE_def\<close>)
  qed
qed

definition set_seg_hash :: "int \<Rightarrow> int \<Rightarrow> int \<Rightarrow> (string, int) gomap \<Rightarrow> rval" where
  "set_seg_hash c e ms h = RHash
     (AList.update ''mill'' (tonumber ms) (AList.update ''end'' (tonumber e) (AList.update ''curr'' (tonumber c) h)))"

lemma luaSetSegment_run:
  assumes "r_hash k db = (db, Ok h)"
    and "PEXPIREAT k (rd_now (r_put k (set_seg_hash c e ms h) db) + 3600000) (r_put k (set_seg_hash c e ms h) db) = (db2, Ok n)"
  shows "luaSetSegment k c e ms db = (db2, Ok (LInt 1))"
proof -
  have "HSET k [(''curr'', tonumber c), (''end'', tonumber e), (''mill'', tonumber ms)] db
      = (r_put k (set_seg_hash c e ms h) db, Ok ())"
    using assms(1) by (simp add: HSET_def rthen_def set_seg_hash_def)
  moreover have "PEXPIRE k 3600000 (r_put k (set_seg_hash c e ms h) db) = (db2, Ok n)"
    using assms(2) by (simp only: PEXPIRE_def)
  ultimately show ?thesis by (simp add: luaSetSegment_def rthen_def rret_def Let_def)
qed

lemma luaSetSegment_db:
  assumes h: "r_hash k db = (db, Ok h)" and run: "luaSetSegment k c e ms db = (db', x)"
  shows "(\<forall>k'. k' \<noteq> k \<longrightarrow> r_get k' db' = r_get k' db) \<and>
    (r_get k db' = None \<or> r_get k db' = Some (set_seg_hash c e ms h))"
proof -
  let ?d = "r_put k (set_seg_hash c e ms h) db"
  obtain db2 y where p: "PEXPIREAT k (rd_now ?d + 3600000) ?d = (db2, y)"
    by (rule prod.exhaust)
  from PEXPIREAT_get[OF p, of k] obtain n where y: "y = Ok n"
    and g: "r_get k db2 = r_get k ?d \<or> r_get k db2 = None" by (elim exE conjE)
  from luaSetSegment_run[OF h p[unfolded y]] run have db': "db' = db2" by (simp only: prod.inject)
  have ne: "\<not> r_empty (set_seg_hash c e ms h)" by (simp add: r_empty_def set_seg_hash_def update_nonempty)
  have "r_get k' db' = r_get k' db" if "k' \<noteq> k" for k'
    using PEXPIREAT_other[OF p that] that by (simp only: db' r_get_put if_False)
  with g ne show ?thesis by (auto simp: db' r_get_put)
qed

lemma luaSetSegment_cases:
  assumes run: "luaSetSegment k c e ms db = (db', x)" and b: "0 \<le> c" "c \<le> e" "e < 2 ^ 53"
  shows "(\<forall>k'. k' \<noteq> k \<longrightarrow> seg_kept k' db db') \<and> (seg_kept k db db' \<or> seg_of k db' = Some (c, e))"
proof -
  have tn: "tonumber c = c" "tonumber e = e" using b by simp_all
  show ?thesis
  proof (cases "\<exists>h. r_hash k db = (db, Ok h)")
    case True
    then obtain h where h: "r_hash k db = (db, Ok h)" ..
    from luaSetSegment_db[OF h run] tn show ?thesis
      by (auto simp: seg_of_def seg_kept_get seg_kept_def set_seg_hash_def)
  next
    case False
    then have "r_hash k db = (db, Error WRONGTYPE)" by (auto simp: r_hash_def split: option.splits rval.splits)
    with run have "db' = db" by (auto simp: luaSetSegment_def HSET_def rthen_def Let_def)
    then show ?thesis by simp
  qed
qed

subsection \<open>The scripts on a server\<close>

text \<open>One run of the script that takes numbers, at any reading of the clock.\<close>

definition in_taken :: "string \<Rightarrow> int \<Rightarrow> rdb \<Rightarrow> rdb \<Rightarrow> rreply go \<Rightarrow> bool" where
  "in_taken k need db db' x \<longleftrightarrow> (\<exists>c e b v. seg_of k db = Some (c, e) \<and> c \<le> b \<and> b + need \<le> e \<and> seg_of k db' = Some (b + need, e)
     \<and> x = Ok (LArr [LInt 0, LInt (b + 1), LInt 0, LInt e, LInt v]))"

lemma luaInSegment_once:
  assumes run: "luaInSegment k need se ms (purge t db) = (db', x)"
    and seg: "\<And>c e. seg_of k db = Some (c, e) \<Longrightarrow> 0 \<le> c \<and> c \<le> e \<and> e < 2 ^ 53" and need: "1 \<le> need"
  shows "(\<forall>k'. k' \<noteq> k \<longrightarrow> seg_kept k' db db') \<and> seg_shrunk k db db' \<and> (taken x \<longrightarrow> in_taken k need db db' x)"
proof -
  have ps: "seg_kept k' db (purge t db)" for k' by simp
  have pseg: "seg_of k db = Some (c, e)" if "seg_of k (purge t db) = Some (c, e)" for c e
    using ps[of k] that by (simp add: seg_kept_def)
  have "(db' = purge t db \<and> \<not> taken x) \<or>
      (\<exists>c e v. seg_of k (purge t db) = Some (c, e) \<and> c + need \<le> e \<and> seg_of k db' = Some (c + need, e)
       \<and> (\<forall>k'. k' \<noteq> k \<longrightarrow> r_get k' db' = r_get k' (purge t db))
       \<and> x = Ok (LArr [LInt 0, LInt (c + 1), LInt 0, LInt e, LInt v]))"
    by (rule luaInSegment_cases[OF run seg[OF pseg] need])
  then show ?thesis
  proof (elim disjE exE conjE)
    assume "db' = purge t db" "\<not> taken x"
    then show ?thesis using ps seg_kept_shrunk[OF ps] by simp
  next
    fix c e v
    assume a: "seg_of k (purge t db) = Some (c, e)" "c + need \<le> e" "seg_of k db' = Some (c + need, e)"
      "\<forall>k'. k' \<noteq> k \<longrightarrow> r_get k' db' = r_get k' (purge t db)"
      "x = Ok (LArr [LInt 0, LInt (c + 1), LInt 0, LInt e, LInt v])"
    have o: "seg_kept k' db db'" if "k' \<noteq> k" for k'
      using seg_kept_trans[OF ps seg_kept_get] a(4) that by blast
    have "seg_shrunk k db db'" using pseg[OF a(1)] a(2,3) need by (auto simp: seg_shrunk_def)
    moreover have "in_taken k need db db' x" unfolding in_taken_def using pseg[OF a(1)] a(2,3,5) by blast
    ultimately show ?thesis using o by blast
  qed
qed

text \<open>
  The script may be run several times for one call: earlier runs take numbers that nobody gets.
\<close>

lemma sent_luaInSegment:
  "sent_before (luaInSegment k need se ms) db db1 \<Longrightarrow>
   (\<And>c e. seg_of k db = Some (c, e) \<Longrightarrow> 0 \<le> c \<and> c \<le> e \<and> e < 2 ^ 53) \<Longrightarrow> 1 \<le> need \<Longrightarrow>
   (\<forall>k'. k' \<noteq> k \<longrightarrow> seg_kept k' db db1) \<and> seg_shrunk k db db1"
proof (induction rule: sent_before.induct)
  case not_sent
  show ?case using seg_kept_shrunk[OF seg_kept_refl] by simp
next
  case (sent db1 t)
  from sent.IH[OF sent.prems] have ih: "\<And>k'. k' \<noteq> k \<Longrightarrow> seg_kept k' db db1" "seg_shrunk k db db1" by blast+
  have seg: "0 \<le> b \<and> b \<le> e \<and> e < 2 ^ 53" if "seg_of k db1 = Some (b, e)" for b e
    by (rule seg_shrunk_bound[OF ih(2) that sent.prems(1)])
  from luaInSegment_once[where se = se and ms = ms and t = t, OF surjective_pairing seg sent.prems(2)]
  have o: "\<And>k'. k' \<noteq> k \<Longrightarrow> seg_kept k' db1 (fst (luaInSegment k need se ms (purge t db1)))"
    "seg_shrunk k db1 (fst (luaInSegment k need se ms (purge t db1)))" by simp_all
  show ?case using seg_kept_trans[OF ih(1) o(1)] seg_shrunk_trans[OF ih(2) o(2)] by simp
qed

lemma run_luaInSegment:
  assumes laws: "redis_laws R rv" and run: "rd_Run R (luaInSegment k need se ms) r = (r', x)"
    and seg: "\<And>c e. seg_of k (rv r) = Some (c, e) \<Longrightarrow> 0 \<le> c \<and> c \<le> e \<and> e < 2 ^ 53"
    and need: "1 \<le> need"
  shows "(\<forall>k'. k' \<noteq> k \<longrightarrow> seg_kept k' (rv r) (rv r')) \<and> seg_shrunk k (rv r) (rv r')
    \<and> (taken x \<longrightarrow> in_taken k need (rv r) (rv r') x)"
proof (cases x)
  case (Ok v)
  from redis_run_Ok[OF laws run[unfolded Ok]] obtain db1 t where db1: "sent_before (luaInSegment k need se ms) (rv r) db1"
    and t: "luaInSegment k need se ms (purge t db1) = (rv r', x)" using Ok by blast
  from sent_luaInSegment[OF db1 seg need] have s1: "\<And>k'. k' \<noteq> k \<Longrightarrow> seg_kept k' (rv r) db1" "seg_shrunk k (rv r) db1" by blast+
  have "0 \<le> b \<and> b \<le> e \<and> e < 2 ^ 53" if "seg_of k db1 = Some (b, e)" for b e
    by (rule seg_shrunk_bound[OF s1(2) that seg])
  from luaInSegment_once[OF t this need] have o: "\<And>k'. k' \<noteq> k \<Longrightarrow> seg_kept k' db1 (rv r')" "seg_shrunk k db1 (rv r')"
    and i: "taken x \<longrightarrow> in_taken k need db1 (rv r') x" by blast+
  have "in_taken k need (rv r) (rv r') x" if "in_taken k need db1 (rv r') x"
    using that s1(2) by (auto simp: in_taken_def elim!: seg_shrunkE)
  with i seg_kept_trans[OF s1(1) o(1)] seg_shrunk_trans[OF s1(2) o(2)] show ?thesis by simp
next
  case (Error e)
  obtain db1 where db1: "sent_before (luaInSegment k need se ms) (rv r) db1" and r': "rv r' = db1 \<or> (\<exists>t. rv r' = purge t db1)"
    using redis_run_any[OF laws run] by blast
  from sent_luaInSegment[OF db1 seg need] have s1: "\<And>k'. k' \<noteq> k \<Longrightarrow> seg_kept k' (rv r) db1" "seg_shrunk k (rv r) db1" by blast+
  have "\<not> taken x" by (simp add: Error taken_def)
  moreover have "seg_kept k' db1 (rv r')" for k' using r' by auto
  ultimately show ?thesis using seg_kept_trans[OF s1(1)] seg_shrunk_trans[OF s1(2) seg_kept_shrunk] by simp
next
  case (Panic e)
  with redis_run_Panic[OF laws] run show ?thesis by blast
qed

text \<open>Storing the same segment several times in a row is storing it once.\<close>

lemma sent_luaSetSegment:
  "sent_before (luaSetSegment k c e ms) db db1 \<Longrightarrow> 0 \<le> c \<Longrightarrow> c \<le> e \<Longrightarrow> e < 2 ^ 53 \<Longrightarrow>
   (\<forall>k'. k' \<noteq> k \<longrightarrow> seg_kept k' db db1) \<and> (seg_kept k db db1 \<or> seg_of k db1 = Some (c, e))"
proof (induction rule: sent_before.induct)
  case (sent db1 t)
  from luaSetSegment_cases[where k = k and ms = ms and db = "purge t db1", OF surjective_pairing sent.prems]
  show ?case using sent.IH[OF sent.prems] seg_kept_purge[of _ db1 t] unfolding seg_kept_def by metis
qed simp

lemma run_luaSetSegment:
  assumes laws: "redis_laws R rv" and run: "rd_Run R (luaSetSegment k c e ms) r = (r', x)"
    and b: "0 \<le> c" "c \<le> e" "e < 2 ^ 53"
  shows "(\<forall>k'. k' \<noteq> k \<longrightarrow> seg_kept k' (rv r) (rv r'))
    \<and> (seg_kept k (rv r) (rv r') \<or> seg_of k (rv r') = Some (c, e))"
proof -
  obtain db1 where db1: "sent_before (luaSetSegment k c e ms) (rv r) db1" and r': "rv r' = db1 \<or> (\<exists>t. rv r' = purge t db1)"
    using redis_run_any[OF laws run] by blast
  have "seg_kept k' db1 (rv r')" for k' using r' by auto
  with sent_luaSetSegment[OF db1 b] show ?thesis unfolding seg_kept_def by metis
qed

subsection \<open>The system\<close>

record ('s, 'r) seq_sys =
  sy_db :: 's
  sy_redis :: 'r
  sy_procs :: "nat \<Rightarrow> (mjob \<times> mphase) option"
  sy_given :: "(string \<times> string \<times> int \<times> int) list"

definition no_colon :: "string \<Rightarrow> bool" where
  "no_colon t \<longleftrightarrow> CHR '':'' \<notin> set t"

text \<open>The call \<open>Malloc(tenant, conv, need)\<close> of a process, and the numbers a phase has just given out.\<close>

definition malloc_job :: "string \<Rightarrow> string \<Rightarrow> int \<Rightarrow> time \<Rightarrow> (nat \<Rightarrow> time) \<Rightarrow> mjob" where
  "malloc_job t c need now clk = \<lparr> mj_tenant = t, mj_conv = c, mj_need = (if need \<le> 0 then 1 else need),
     mj_nowms = nowms_of now, mj_clk = clk \<rparr>"

definition given_by :: "mjob \<Rightarrow> mphase \<Rightarrow> (string \<times> string \<times> int \<times> int) list" where
  "given_by j ph = (case ph of PDone (Ok (a, _)) \<Rightarrow> [(mj_tenant j, mj_conv j, a, mj_need j)] | _ \<Rightarrow> [])"

definition is_done :: "mphase \<Rightarrow> bool" where
  "is_done ph \<longleftrightarrow> (case ph of PDone _ \<Rightarrow> True | _ \<Rightarrow> False)"

text \<open>
  A step: a process calls \<open>Malloc\<close> (a new one, or one that died or returned and comes again), a process
  makes its next call to a server, another writer of the documents runs, or other clients of Redis run
  and the segments stay or go away.
\<close>

text \<open>
  The program's client sends a script again when its reply is lost, and others may run between the two: a step
  \<open>again\<close> is a run of a script whose reply is lost and that the client will send again, for the process is where
  it was. \<open>Z\<close> says whether this happens to the script that stores a segment; to the one that takes numbers it may
  always happen. (Runs that follow each other without another client in between are part of \<open>redis_laws\<close>.)
\<close>

definition may_resend :: "bool \<Rightarrow> mphase \<Rightarrow> bool" where
  "may_resend Z ph \<longleftrightarrow> (case ph of PFirst \<Rightarrow> True | PIn n le b \<Rightarrow> True | PSet n le a b \<Rightarrow> Z | _ \<Rightarrow> False)"

inductive seq_step ::
  "bool \<Rightarrow> allocator \<Rightarrow> 's dao \<Rightarrow> ('s \<Rightarrow> 's \<Rightarrow> bool) \<Rightarrow> 'r redis \<Rightarrow> ('r \<Rightarrow> rdb) \<Rightarrow> ('s, 'r) seq_sys \<Rightarrow> ('s, 'r) seq_sys \<Rightarrow> bool"
  for Z A D W R rv where
  call: "no_colon t \<Longrightarrow>
    seq_step Z A D W R rv S (S\<lparr> sy_procs := (sy_procs S)(p := Some (malloc_job t c need now clk, PFirst)) \<rparr>)"
| die: "seq_step Z A D W R rv S (S\<lparr> sy_procs := (sy_procs S)(p := None) \<rparr>)"
| proceed: "sy_procs S p = Some (j, ph) \<Longrightarrow> \<not> is_done ph \<Longrightarrow>
    malloc_step A D R j ph (sy_db S, sy_redis S) = ((s', r'), ph') \<Longrightarrow>
    seq_step Z A D W R rv S (S\<lparr> sy_db := s', sy_redis := r', sy_procs := (sy_procs S)(p := Some (j, ph')),
      sy_given := sy_given S @ given_by j ph' \<rparr>)"
| again: "sy_procs S p = Some (j, ph) \<Longrightarrow> may_resend Z ph \<Longrightarrow>
    malloc_step A D R j ph (sy_db S, sy_redis S) = ((s', r'), ph') \<Longrightarrow>
    seq_step Z A D W R rv S (S\<lparr> sy_redis := r' \<rparr>)"
| writer: "W (sy_db S) s' \<Longrightarrow> seq_step Z A D W R rv S (S\<lparr> sy_db := s' \<rparr>)"
| others: "(\<And>t c. r_get (key_of A t c) (rv r') = None \<or> r_get (key_of A t c) (rv r') = r_get (key_of A t c) (rv (sy_redis S))) \<Longrightarrow>
    seq_step Z A D W R rv S (S\<lparr> sy_redis := r' \<rparr>)"

inductive seq_reach for Z A D W R rv S0 where
  start: "seq_reach Z A D W R rv S0 S0"
| step: "seq_reach Z A D W R rv S0 S \<Longrightarrow> seq_step Z A D W R rv S S' \<Longrightarrow> seq_reach Z A D W R rv S0 S'"

text \<open>No process, nothing given out, no segment.\<close>

definition seq_start :: "('r \<Rightarrow> rdb) \<Rightarrow> ('s, 'r) seq_sys \<Rightarrow> bool" where
  "seq_start rv S \<longleftrightarrow> (\<forall>p. sy_procs S p = None) \<and> sy_given S = [] \<and> (\<forall>k. r_get k (rv (sy_redis S)) = None)"

subsection \<open>Who holds which numbers\<close>

datatype holder = HProc nat | HSeg | HGiven nat

definition proc_holds :: "string \<Rightarrow> string \<Rightarrow> (mjob \<times> mphase) option \<Rightarrow> int set" where
  "proc_holds t c o1 = (case o1 of
       Some (j, PSet n le a b) \<Rightarrow> (if mj_tenant j = t \<and> mj_conv j = c then {a..b} else {})
     | _ \<Rightarrow> {})"

definition seg_holds :: "(int \<times> int) option \<Rightarrow> int set" where
  "seg_holds o1 = (case o1 of Some (c, e) \<Rightarrow> {c + 1..e} | None \<Rightarrow> {})"

definition given_holds :: "string \<Rightarrow> string \<Rightarrow> (string \<times> string \<times> int \<times> int) list \<Rightarrow> nat \<Rightarrow> int set" where
  "given_holds t c gs i = (if i < length gs then
      (case gs ! i of (t', c', a, n) \<Rightarrow> if t' = t \<and> c' = c then {a..a + n - 1} else {}) else {})"

fun holds :: "allocator \<Rightarrow> ('r \<Rightarrow> rdb) \<Rightarrow> ('s, 'r) seq_sys \<Rightarrow> string \<Rightarrow> string \<Rightarrow> holder \<Rightarrow> int set" where
  "holds A rv S t c (HProc p) = proc_holds t c (sy_procs S p)"
| "holds A rv S t c HSeg = seg_holds (seg_of (key_of A t c) (rv (sy_redis S)))"
| "holds A rv S t c (HGiven i) = given_holds t c (sy_given S) i"

definition disjoint_holders :: "(holder \<Rightarrow> int set) \<Rightarrow> int \<Rightarrow> bool" where
  "disjoint_holders H m \<longleftrightarrow> (\<forall>x. H x \<subseteq> {1..m}) \<and> (\<forall>x y. x \<noteq> y \<longrightarrow> H x \<inter> H y = {})"

lemma disjoint_holders_mono:
  assumes dh: "disjoint_holders H m" and m: "m \<le> m'" and sub: "\<And>x. H' x \<subseteq> H x"
  shows "disjoint_holders H' m'"
proof -
  have b: "H' x \<subseteq> {1..m}" for x using dh sub by (meson disjoint_holders_def subset_trans)
  have d: "H' x \<inter> H' y = {}" if "x \<noteq> y" for x y
  proof -
    have "H x \<inter> H y = {}" using dh that by (simp add: disjoint_holders_def)
    then show ?thesis using sub[of x] sub[of y] by blast
  qed
  have "{1..m} \<subseteq> {1..m'}" using m by auto
  then show ?thesis unfolding disjoint_holders_def using b d by (meson subset_trans)
qed

text \<open>One holder hands a part of its numbers to another one.\<close>

lemma disjoint_holders_move:
  assumes dh: "disjoint_holders H m" and m: "m \<le> m'" and "u \<noteq> v"
    and other: "\<And>x. x \<noteq> u \<Longrightarrow> x \<noteq> v \<Longrightarrow> H' x \<subseteq> H x" and sub: "H' u \<union> H' v \<subseteq> H u \<union> H v" and ndis: "H' u \<inter> H' v = {}"
  shows "disjoint_holders H' m'"
proof -
  have b: "H y \<subseteq> {1..m}" for y using dh by (simp add: disjoint_holders_def)
  have d: "H x \<inter> H y = {}" if "x \<noteq> y" for x y using dh that by (simp add: disjoint_holders_def)
  have uv: "H' x \<subseteq> H u \<union> H v" if "x = u \<or> x = v" for x
    using that sub by (elim disjE) simp_all
  have bound: "H' x \<subseteq> {1..m}" for x
  proof (cases "x = u \<or> x = v")
    case True
    then show ?thesis using subset_trans[OF uv[OF True] Un_least[OF b[of u] b[of v]]] by simp
  next
    case False
    then show ?thesis using other[of x] b[of x] by (meson subset_trans)
  qed
  have one: "H' x \<inter> H' y = {}" if x: "x = u \<or> x = v" and y: "y \<noteq> u" "y \<noteq> v" for x y
  proof -
    have "H' y \<subseteq> H y" by (rule other[OF y])
    moreover have "H u \<inter> H y = {}" by (rule d) (use y in simp)
    moreover have "H v \<inter> H y = {}" by (rule d) (use y in simp)
    ultimately show ?thesis using uv[OF x] by blast
  qed
  have dis: "H' x \<inter> H' y = {}" if "x \<noteq> y" for x y
  proof (cases "x = u \<or> x = v")
    case True
    show ?thesis
    proof (cases "y = u \<or> y = v")
      case False
      with one[OF True] show ?thesis by simp
    next
      case y: True
      with True that have "x = u \<and> y = v \<or> x = v \<and> y = u" by metis
      with ndis show ?thesis by (elim disjE conjE) (simp_all add: Int_commute)
    qed
  next
    case False
    show ?thesis
    proof (cases "y = u \<or> y = v")
      case True
      with one[OF True] False show ?thesis by (simp add: Int_commute)
    next
      case y: False
      have "H' x \<subseteq> H x" "H' y \<subseteq> H y" using False y other by simp_all
      then show ?thesis using d[OF that] by blast
    qed
  qed
  have "{1..m} \<subseteq> {1..m'}" using m by auto
  then show ?thesis unfolding disjoint_holders_def using bound dis by (meson subset_trans)
qed

text \<open>One holder gets numbers nobody had.\<close>

lemma disjoint_holders_fresh:
  assumes "disjoint_holders H m" "0 \<le> m" "m \<le> m'" and "\<And>x. x \<noteq> u \<Longrightarrow> H' x \<subseteq> H x" "H' u \<subseteq> {m + 1..m'}"
  shows "disjoint_holders H' m'"
  unfolding disjoint_holders_def
proof (intro conjI allI impI)
  fix x
  have b: "H y \<subseteq> {1..m}" for y using assms(1) by (simp add: disjoint_holders_def)
  show "H' x \<subseteq> {1..m'}"
    using assms(2-5) b[of x] by (cases "x = u") force+
next
  fix x y :: holder
  assume "x \<noteq> y"
  have b: "H y \<subseteq> {1..m}" for y using assms(1) by (simp add: disjoint_holders_def)
  have o: "H' z \<inter> H' u = {}" if "z \<noteq> u" for z
    using assms(4)[OF that] assms(5) b[of z] by force
  have d: "H x \<inter> H y = {}" using assms(1) \<open>x \<noteq> y\<close> by (simp add: disjoint_holders_def)
  show "H' x \<inter> H' y = {}"
    using o[of x] o[of y] assms(4)[of x] assms(4)[of y] d \<open>x \<noteq> y\<close> by blast
qed

subsection \<open>Interfaces and invariant\<close>

text \<open>
  What the allocator relies on of its DAO: a segment starts right after everything reserved so far
  (\<open>I\<close>), and neither a call nor another writer \<open>W\<close> ever lowers that.
\<close>

locale dao_iface =
  fixes D :: "'s dao" and W :: "'s \<Rightarrow> 's \<Rightarrow> bool" and I :: "'s \<Rightarrow> string \<Rightarrow> string \<Rightarrow> int"
  assumes alloc_fresh: "D now t c b s = (s', Ok (a, e)) \<Longrightarrow> 0 \<le> I s t c \<Longrightarrow> a = I s t c + 1 \<and> a \<le> e \<and> e \<le> I s' t c"
    and alloc_mono: "D now t c b s = (s', x) \<Longrightarrow> I s t' c' \<le> I s' t' c'"
    and writer_mono: "W s s' \<Longrightarrow> I s t c \<le> I s' t c"

definition proc_ok :: "('s \<Rightarrow> string \<Rightarrow> string \<Rightarrow> int) \<Rightarrow> 's \<Rightarrow> mjob \<Rightarrow> mphase \<Rightarrow> bool" where
  "proc_ok I s j ph \<longleftrightarrow> no_colon (mj_tenant j) \<and> 1 \<le> mj_need j
     \<and> (case ph of PSet n le a b \<Rightarrow> 1 \<le> a \<and> a \<le> b \<and> b \<le> I s (mj_tenant j) (mj_conv j) | _ \<Rightarrow> True)"

definition seq_inv :: "allocator \<Rightarrow> ('s \<Rightarrow> string \<Rightarrow> string \<Rightarrow> int) \<Rightarrow> ('r \<Rightarrow> rdb) \<Rightarrow> ('s, 'r) seq_sys \<Rightarrow> bool" where
  "seq_inv A I rv S \<longleftrightarrow>
     (\<forall>t c. 0 \<le> I (sy_db S) t c)
   \<and> (\<forall>t c. no_colon t \<longrightarrow> disjoint_holders (holds A rv S t c) (I (sy_db S) t c))
   \<and> (\<forall>t c a e. no_colon t \<longrightarrow> seg_of (key_of A t c) (rv (sy_redis S)) = Some (a, e) \<longrightarrow>
        0 \<le> a \<and> a \<le> e \<and> e \<le> I (sy_db S) t c)
   \<and> (\<forall>p j ph. sy_procs S p = Some (j, ph) \<longrightarrow> proc_ok I (sy_db S) j ph)"

lemma seq_inv_nonneg: "seq_inv A I rv S \<Longrightarrow> 0 \<le> I (sy_db S) t c"
  by (simp add: seq_inv_def)

lemma seq_inv_holds: "seq_inv A I rv S \<Longrightarrow> no_colon t \<Longrightarrow> disjoint_holders (holds A rv S t c) (I (sy_db S) t c)"
  by (simp add: seq_inv_def)

lemma seq_inv_seg:
  "seq_inv A I rv S \<Longrightarrow> no_colon t \<Longrightarrow> seg_of (key_of A t c) (rv (sy_redis S)) = Some (a, e) \<Longrightarrow>
   0 \<le> a \<and> a \<le> e \<and> e \<le> I (sy_db S) t c"
  by (simp add: seq_inv_def)

lemma seq_inv_proc: "seq_inv A I rv S \<Longrightarrow> sy_procs S p = Some (j, ph) \<Longrightarrow> proc_ok I (sy_db S) j ph"
  by (simp add: seq_inv_def)

lemma proc_ok_mono:
  "proc_ok I s j ph \<Longrightarrow> (\<And>t c. I s t c \<le> I s' t c) \<Longrightarrow> proc_ok I s' j ph"
  by (auto simp: proc_ok_def split: mphase.splits intro: order_trans)

lemma given_holds_append:
  "given_holds t c (gs @ [x]) i = (if i = length gs
     then (case x of (t', c', a, n) \<Rightarrow> if t' = t \<and> c' = c then {a..a + n - 1} else {}) else given_holds t c gs i)"
  by (auto simp: given_holds_def nth_append)

lemma malloc_job_ok [simp]: "mj_tenant (malloc_job t c n now clk) = t" "1 \<le> mj_need (malloc_job t c n now clk)"
  by (simp_all add: malloc_job_def)

lemma seg_holds_shrunk: "seg_shrunk k db db' \<Longrightarrow> seg_holds (seg_of k db') \<subseteq> seg_holds (seg_of k db)"
  by (auto simp: seg_shrunk_def seg_holds_def split: option.splits)

text \<open>A phase after a script gives numbers out exactly when the script took them.\<close>

lemma first_next_cases:
  "\<not> taken x \<Longrightarrow> given_by j (first_next A x) = []"
  "(\<forall>n le a b. first_next A x \<noteq> PSet n le a b)"
  by (auto simp: first_next_def given_by_def taken_def split: go.splits)

lemma in_next_cases:
  "\<not> taken x \<Longrightarrow> given_by j (in_next n le x) = []"
  "(\<forall>n' le' a b. in_next n le x \<noteq> PSet n' le' a b)"
  by (auto simp: in_next_def given_by_def taken_def split: go.splits)

lemma taken_given:
  "given_by j (first_next A (Ok (LArr [LInt 0, LInt a, LInt 0, LInt e, LInt v]))) = [(mj_tenant j, mj_conv j, a, mj_need j)]"
  "given_by j (in_next n le (Ok (LArr [LInt 0, LInt a, LInt 0, LInt e, LInt v]))) = [(mj_tenant j, mj_conv j, a, mj_need j)]"
  by (simp_all add: first_next_def in_next_def reply_at_def reply_start_def given_by_def)

locale seq_system = dao_iface D W I
  for D :: "'s dao" and W I +
  fixes A :: allocator and R :: "'r redis" and rv :: "'r \<Rightarrow> rdb"
  assumes redis: "redis_laws R rv"
    and keys: "no_colon t \<Longrightarrow> no_colon t' \<Longrightarrow> key_of A t c = key_of A t' c' \<Longrightarrow> t = t' \<and> c = c'"
begin

text \<open>What a step that touches one process and one segment needs to keep the invariant.\<close>

lemma inv_intro:
  assumes inv: "seq_inv A I rv S"
    and mono: "\<And>t c. I (sy_db S) t c \<le> I (sy_db S') t c"
    and hold: "\<And>t c. no_colon t \<Longrightarrow> disjoint_holders (holds A rv S' t c) (I (sy_db S') t c)"
    and seg: "\<And>t c a e. no_colon t \<Longrightarrow> seg_of (key_of A t c) (rv (sy_redis S')) = Some (a, e) \<Longrightarrow>
        0 \<le> a \<and> a \<le> e \<and> e \<le> I (sy_db S') t c"
    and prc: "\<And>p j ph. sy_procs S' p = Some (j, ph) \<Longrightarrow> sy_procs S p = Some (j, ph) \<or> proc_ok I (sy_db S') j ph"
  shows "seq_inv A I rv S'"
  unfolding seq_inv_def
proof (intro conjI allI impI)
  fix t c
  show "0 \<le> I (sy_db S') t c" by (rule order_trans[OF seq_inv_nonneg[OF inv] mono])
next
  fix p j ph
  assume s: "sy_procs S' p = Some (j, ph)"
  from prc[OF s] show "proc_ok I (sy_db S') j ph"
    by (elim disjE) (rule proc_ok_mono[OF seq_inv_proc[OF inv] mono], assumption+)
next
  fix t c
  assume "no_colon t"
  then show "disjoint_holders (holds A rv S' t c) (I (sy_db S') t c)" by (rule hold)
next
  fix t c a e
  assume "no_colon t" "seg_of (key_of A t c) (rv (sy_redis S')) = Some (a, e)"
  from seg[OF this] show "0 \<le> a" "a \<le> e" "e \<le> I (sy_db S') t c" by simp_all
qed

lemma seg_shrunk_bounds:
  assumes inv: "seq_inv A I rv S" and mono: "\<And>t c. I (sy_db S) t c \<le> I (sy_db S') t c" and nc: "no_colon t"
    and k: "seg_shrunk (key_of A t c) (rv (sy_redis S)) (rv (sy_redis S'))"
    and s: "seg_of (key_of A t c) (rv (sy_redis S')) = Some (a, e)"
  shows "0 \<le> a \<and> a \<le> e \<and> e \<le> I (sy_db S') t c"
proof -
  obtain b where b: "seg_of (key_of A t c) (rv (sy_redis S)) = Some (b, e)" "b \<le> a" "b \<le> e \<Longrightarrow> a \<le> e"
    using seg_shrunkE[OF k s] by blast
  from seq_inv_seg[OF inv nc b(1)] b(2,3) mono[of t c] show ?thesis by linarith
qed

text \<open>Nothing is handed out and every holder keeps what it has or loses some.\<close>

lemma inv_shrink:
  assumes inv: "seq_inv A I rv S" and mono: "\<And>t c. I (sy_db S) t c \<le> I (sy_db S') t c"
    and k: "\<And>t c. no_colon t \<Longrightarrow> seg_shrunk (key_of A t c) (rv (sy_redis S)) (rv (sy_redis S'))"
    and g: "sy_given S' = sy_given S"
    and prc: "\<And>p. sy_procs S' p = sy_procs S p \<or>
       (case sy_procs S' p of None \<Rightarrow> True | Some (j, ph) \<Rightarrow> proc_ok I (sy_db S') j ph \<and> (\<forall>n le a b. ph \<noteq> PSet n le a b))"
  shows "seq_inv A I rv S'"
proof (rule inv_intro[OF inv mono])
  fix t c assume nc: "no_colon t"
  have ph: "proc_holds t c (sy_procs S' p) \<subseteq> proc_holds t c (sy_procs S p)" for p
    using prc[of p] by (elim disjE) (auto simp: proc_holds_def split: option.splits mphase.splits if_splits)
  have "holds A rv S' t c x \<subseteq> holds A rv S t c x" for x
    by (cases x) (simp_all add: ph g seg_holds_shrunk[OF k[OF nc]])
  then show "disjoint_holders (holds A rv S' t c) (I (sy_db S') t c)"
    by (rule disjoint_holders_mono[OF seq_inv_holds[OF inv nc] mono])
next
  fix t c a e
  assume "no_colon t" "seg_of (key_of A t c) (rv (sy_redis S')) = Some (a, e)"
  then show "0 \<le> a \<and> a \<le> e \<and> e \<le> I (sy_db S') t c"
    using seg_shrunk_bounds[where S = S and S' = S'] inv mono k by blast
next
  fix p j ph
  assume "sy_procs S' p = Some (j, ph)"
  with prc[of p] show "sy_procs S p = Some (j, ph) \<or> proc_ok I (sy_db S') j ph" by auto
qed

end

context seq_system
begin

text \<open>The script that takes numbers: the segment hands them to the caller.\<close>

lemma in_run:
  assumes inv: "seq_inv A I rv S" and bnd: "\<And>t c. I (sy_db S) t c < 2 ^ 53" and j: "no_colon (mj_tenant j)" "1 \<le> mj_need j"
    and run: "rd_Run R (luaInSegment (key_of A (mj_tenant j) (mj_conv j)) (mj_need j) se ms) (sy_redis S) = (r', x)"
  shows "(\<forall>k'. k' \<noteq> key_of A (mj_tenant j) (mj_conv j) \<longrightarrow> seg_kept k' (rv (sy_redis S)) (rv r'))
    \<and> seg_shrunk (key_of A (mj_tenant j) (mj_conv j)) (rv (sy_redis S)) (rv r')
    \<and> (taken x \<longrightarrow> in_taken (key_of A (mj_tenant j) (mj_conv j)) (mj_need j) (rv (sy_redis S)) (rv r') x)"
  by (rule run_luaInSegment[OF redis run _ j(2)])
    (use seq_inv_seg[OF inv j(1)] bnd[of "mj_tenant j" "mj_conv j"] in fastforce)

lemma in_run_shrunk:
  assumes "seq_inv A I rv S" "\<And>t c. I (sy_db S) t c < 2 ^ 53" "no_colon (mj_tenant j)" "1 \<le> mj_need j"
    and "rd_Run R (luaInSegment (key_of A (mj_tenant j) (mj_conv j)) (mj_need j) se ms) (sy_redis S) = (r', x)"
  shows "seg_shrunk k (rv (sy_redis S)) (rv r')"
  using in_run[OF assms] seg_kept_shrunk by (cases "k = key_of A (mj_tenant j) (mj_conv j)") blast+

lemma in_step:
  assumes inv: "seq_inv A I rv S" and bnd: "\<And>t c. I (sy_db S) t c < 2 ^ 53"
    and pr: "sy_procs S p = Some (j, ph)"
    and run: "rd_Run R (luaInSegment (key_of A (mj_tenant j) (mj_conv j)) (mj_need j) se ms) (sy_redis S) = (r', x)"
    and nset: "\<And>n le a b. ph' \<noteq> PSet n le a b"
    and none: "\<not> taken x \<Longrightarrow> given_by j ph' = []"
    and some: "\<And>a e v. x = Ok (LArr [LInt 0, LInt a, LInt 0, LInt e, LInt v]) \<Longrightarrow>
        given_by j ph' = [(mj_tenant j, mj_conv j, a, mj_need j)]"
    and S': "S' = S\<lparr> sy_redis := r', sy_procs := (sy_procs S)(p := Some (j, ph')), sy_given := sy_given S @ given_by j ph' \<rparr>"
  shows "seq_inv A I rv S'"
proof -
  let ?t = "mj_tenant j" and ?c = "mj_conv j"
  let ?k = "key_of A ?t ?c"
  from seq_inv_proc[OF inv pr] have j: "no_colon ?t" "1 \<le> mj_need j" by (simp_all add: proc_ok_def)
  have okj: "proc_ok I (sy_db S) j ph'" using j nset by (simp add: proc_ok_def split: mphase.splits)
  note r = in_run[OF inv bnd j run] and shrunk = in_run_shrunk[OF inv bnd j run]
  have ph: "proc_holds t c (sy_procs S' q) \<subseteq> proc_holds t c (sy_procs S q)" for t c q
    using nset by (auto simp: S' proc_holds_def split: mphase.splits)
  show ?thesis
  proof (cases "taken x")
    case False
    show ?thesis
    proof (rule inv_shrink[OF inv])
      show "seg_shrunk (key_of A t c) (rv (sy_redis S)) (rv (sy_redis S'))" for t c
        using shrunk by (simp add: S')
      show "sy_procs S' q = sy_procs S q \<or>
        (case sy_procs S' q of None \<Rightarrow> True | Some (j, ph) \<Rightarrow> proc_ok I (sy_db S') j ph \<and> (\<forall>n le a b. ph \<noteq> PSet n le a b))" for q
        using okj nset by (simp add: S')
    qed (use none[OF False] in \<open>simp_all add: S'\<close>)
  next
    case True
    with r obtain c0 a e v where m: "seg_of ?k (rv (sy_redis S)) = Some (c0, e)" "c0 \<le> a" "a + mj_need j \<le> e"
      "seg_of ?k (rv r') = Some (a + mj_need j, e)" "x = Ok (LArr [LInt 0, LInt (a + 1), LInt 0, LInt e, LInt v])"
      unfolding in_taken_def by blast
    let ?i = "length (sy_given S)"
    have gv: "given_by j ph' = [(?t, ?c, a + 1, mj_need j)]" by (rule some[OF m(5)])
    have gh: "given_holds t c (sy_given S') i \<subseteq>
        (if i = ?i then (if t = ?t \<and> c = ?c then {a + 1..a + mj_need j} else {}) else given_holds t c (sy_given S) i)" for t c i
      by (auto simp: S' gv given_holds_append)
    have gi: "given_holds t c (sy_given S) ?i = {}" for t c by (simp add: given_holds_def)
    have go: "given_holds t c (sy_given S') i \<subseteq> given_holds t c (sy_given S) i"
      if "i \<noteq> ?i \<or> \<not> (t = ?t \<and> c = ?c)" for t c i
      using gh[of t c i] that gi[of t c] by (cases "i = ?i") auto
    show ?thesis
    proof (rule inv_intro[OF inv])
      fix t c assume nc: "no_colon t"
      show "disjoint_holders (holds A rv S' t c) (I (sy_db S') t c)"
      proof (cases "t = ?t \<and> c = ?c")
        case True
        show ?thesis
        proof (rule disjoint_holders_move[OF seq_inv_holds[OF inv nc], where u = HSeg and v = "HGiven ?i"])
          show "holds A rv S' t c x \<subseteq> holds A rv S t c x" if "x \<noteq> HSeg" "x \<noteq> HGiven ?i" for x
            using that ph go by (cases x) simp_all
          show "holds A rv S' t c HSeg \<union> holds A rv S' t c (HGiven ?i) \<subseteq> holds A rv S t c HSeg \<union> holds A rv S t c (HGiven ?i)"
            using gh[of t c ?i] True m(1-4) j(2) by (auto simp: S' seg_holds_def)
          show "holds A rv S' t c HSeg \<inter> holds A rv S' t c (HGiven ?i) = {}"
            using gh[of t c ?i] True m(1-4) by (auto simp: S' seg_holds_def)
        qed (simp_all add: S')
      next
        case False
        with keys[OF nc j(1)] have "key_of A t c \<noteq> ?k" by blast
        then have "holds A rv S' t c x \<subseteq> holds A rv S t c x" for x
          using ph go[of _ t c] False seg_holds_shrunk[OF shrunk, of "key_of A t c"]
          by (cases x) (simp_all add: S')
        then show ?thesis by (rule disjoint_holders_mono[OF seq_inv_holds[OF inv nc], rotated]) (simp add: S')
      qed
    next
      fix t c b e'
      assume nc: "no_colon t" and s: "seg_of (key_of A t c) (rv (sy_redis S')) = Some (b, e')"
      show "0 \<le> b \<and> b \<le> e' \<and> e' \<le> I (sy_db S') t c"
        by (rule seg_shrunk_bounds[where S = S and S' = S', OF inv _ nc _ s]) (simp_all add: S' shrunk)
    qed (use okj in \<open>auto simp: S' split: if_splits\<close>)
  qed
qed

end

context seq_system
begin

text \<open>A reservation: the process holds numbers nobody had.\<close>

lemma alloc_step:
  assumes inv: "seq_inv A I rv S"
    and pr: "sy_procs S p = Some (j, PAlloc (Suc n) le)"
    and run: "D now (mj_tenant j) (mj_conv j) b (sy_db S) = (s', Ok (a, e))"
    and S': "S' = S\<lparr> sy_db := s', sy_procs := (sy_procs S)(p := Some (j, PSet n le a e)) \<rparr>"
  shows "seq_inv A I rv S'"
proof -
  let ?t = "mj_tenant j" and ?c = "mj_conv j"
  from seq_inv_proc[OF inv pr] have j: "no_colon ?t" "1 \<le> mj_need j" by (simp_all add: proc_ok_def)
  have mono: "I (sy_db S) t c \<le> I (sy_db S') t c" for t c using alloc_mono[OF run] by (simp add: S')
  from alloc_fresh[OF run seq_inv_nonneg[OF inv]]
  have ae: "a = I (sy_db S) ?t ?c + 1" "a \<le> e" "e \<le> I (sy_db S') ?t ?c" by (simp_all add: S')
  show ?thesis
  proof (rule inv_intro[OF inv mono])
    fix t c assume nc: "no_colon t"
    have o: "holds A rv S' t c x \<subseteq> holds A rv S t c x" if "x \<noteq> HProc p \<or> \<not> (t = ?t \<and> c = ?c)" for x
      using that by (cases x) (auto simp: S' proc_holds_def)
    show "disjoint_holders (holds A rv S' t c) (I (sy_db S') t c)"
    proof (cases "t = ?t \<and> c = ?c")
      case True
      have "holds A rv S' t c (HProc p) \<subseteq> {I (sy_db S) t c + 1..I (sy_db S') t c}"
        using ae True by (auto simp: S' proc_holds_def)
      then show ?thesis
        using disjoint_holders_fresh[OF seq_inv_holds[OF inv nc] seq_inv_nonneg[OF inv] mono, where u = "HProc p"] o
        by simp
    next
      case False
      with o show ?thesis using disjoint_holders_mono[OF seq_inv_holds[OF inv nc] mono] by simp
    qed
  next
    fix t c b e'
    assume nc: "no_colon t" and s: "seg_of (key_of A t c) (rv (sy_redis S')) = Some (b, e')"
    show "0 \<le> b \<and> b \<le> e' \<and> e' \<le> I (sy_db S') t c"
      using mono nc s inv by (intro seg_shrunk_bounds[where S = S and S' = S']) (simp_all add: S')
  next
    fix q j' ph
    assume "sy_procs S' q = Some (j', ph)"
    then show "sy_procs S q = Some (j', ph) \<or> proc_ok I (sy_db S') j' ph"
      using ae j seq_inv_nonneg[OF inv, of ?t ?c] by (auto simp: S' proc_ok_def split: if_splits)
  qed
qed

text \<open>The script that stores a segment: the process hands its numbers over, or they are lost.\<close>

lemma set_step:
  assumes inv: "seq_inv A I rv S" and bnd: "\<And>t c. I (sy_db S) t c < 2 ^ 53"
    and pr: "sy_procs S p = Some (j, PSet n le a e)"
    and run: "rd_Run R (luaSetSegment (key_of A (mj_tenant j) (mj_conv j)) (wrap64 (a - 1)) e ms) (sy_redis S) = (r', x)"
    and nset: "\<And>n le a b. ph' \<noteq> PSet n le a b"
    and S': "S' = S\<lparr> sy_redis := r', sy_procs := (sy_procs S)(p := Some (j, ph')) \<rparr>"
  shows "seq_inv A I rv S'"
proof -
  let ?t = "mj_tenant j" and ?c = "mj_conv j"
  let ?k = "key_of A ?t ?c"
  from seq_inv_proc[OF inv pr] have j: "no_colon ?t" "1 \<le> mj_need j"
    and ae: "1 \<le> a" "a \<le> e" "e \<le> I (sy_db S) ?t ?c" by (simp_all add: proc_ok_def)
  from ae bnd[of ?t ?c] have b: "0 \<le> a - 1" "a - 1 \<le> e" "e < 2 ^ 53" by linarith+
  have w: "wrap64 (a - 1) = a - 1" by (rule wrap64_id) (use b in \<open>simp add: int64_def\<close>)
  have okj: "proc_ok I (sy_db S) j ph'" using j nset by (simp add: proc_ok_def split: mphase.splits)
  from run_luaSetSegment[OF redis run[unfolded w] b]
  have other: "\<And>k'. k' \<noteq> ?k \<Longrightarrow> seg_kept k' (rv (sy_redis S)) (rv r')"
    and this1: "seg_kept ?k (rv (sy_redis S)) (rv r') \<or> seg_of ?k (rv r') = Some (a - 1, e)" by blast+
  have ph: "proc_holds t c (sy_procs S' q) \<subseteq> (if q = p then {} else proc_holds t c (sy_procs S q))" for t c q
    using nset by (auto simp: S' proc_holds_def split: mphase.splits)
  have ph2: "proc_holds t c (sy_procs S' q) \<subseteq> proc_holds t c (sy_procs S q)" for t c q
    using ph[of t c q] by (cases "q = p") auto
  show ?thesis
  proof (rule inv_intro[OF inv])
    fix t c assume nc: "no_colon t"
    show "disjoint_holders (holds A rv S' t c) (I (sy_db S') t c)"
    proof (cases "t = ?t \<and> c = ?c")
      case True
      have hp: "holds A rv S t c (HProc p) = {a..e}" using pr True by (simp add: proc_holds_def)
      have hp': "holds A rv S' t c (HProc p) = {}" using ph[of t c p] by simp
      have hs: "holds A rv S' t c HSeg \<subseteq> holds A rv S t c HSeg \<union> {a..e}"
        using this1 True by (elim disjE) (auto simp: S' seg_kept_def seg_holds_def)
      show ?thesis
      proof (rule disjoint_holders_move[OF seq_inv_holds[OF inv nc], where u = "HProc p" and v = HSeg])
        show "holds A rv S' t c x \<subseteq> holds A rv S t c x" if "x \<noteq> HProc p" "x \<noteq> HSeg" for x
          using that ph2[of t c] by (cases x) (simp_all add: S')
        show "holds A rv S' t c (HProc p) \<union> holds A rv S' t c HSeg \<subseteq> holds A rv S t c (HProc p) \<union> holds A rv S t c HSeg"
          using hp hp' hs by blast
        show "holds A rv S' t c (HProc p) \<inter> holds A rv S' t c HSeg = {}" by (simp only: hp' Int_empty_left)
      qed (simp_all add: S')
    next
      case False
      with keys[OF nc j(1)] have "key_of A t c \<noteq> ?k" by blast
      then have "holds A rv S' t c x \<subseteq> holds A rv S t c x" for x
        using ph2[of t c] seg_holds_shrunk[OF seg_kept_shrunk[OF other], of "key_of A t c"]
        by (cases x) (simp_all add: S')
      then show ?thesis by (rule disjoint_holders_mono[OF seq_inv_holds[OF inv nc], rotated]) (simp add: S')
    qed
  next
    fix t c b' e'
    assume nc: "no_colon t" and s: "seg_of (key_of A t c) (rv (sy_redis S')) = Some (b', e')"
    show "0 \<le> b' \<and> b' \<le> e' \<and> e' \<le> I (sy_db S') t c"
    proof (cases "seg_kept (key_of A t c) (rv (sy_redis S)) (rv r')")
      case True
      with nc s inv show ?thesis by (intro seg_shrunk_bounds[where S = S and S' = S']) (simp_all add: S' seg_kept_shrunk)
    next
      case False
      with other have k: "key_of A t c = ?k" by blast
      with keys[OF nc j(1)] have "t = ?t" "c = ?c" by blast+
      with this1 False k s ae show ?thesis by (simp add: S')
    qed
  qed (use okj in \<open>auto simp: S' split: if_splits\<close>)
qed

end

subsection \<open>Every reachable state\<close>

context seq_system
begin

lemma malloc_step_db_mono:
  assumes "malloc_step A D R j ph (s, r) = ((s', r'), ph')"
  shows "I s t c \<le> I s' t c"
proof (cases "(A, D, R, j, ph, s, r)" rule: malloc_step.cases)
  case (3 A' D' R' j' n le s1 r1)
  then obtain s2 x where d: "D (mj_clk j n) (mj_tenant j) (mj_conv j) (block_of A (mj_tenant j) (mj_conv j) (mj_need j)) s = (s2, x)"
    by fastforce
  with assms 3 have "s' = s2" by (cases x) auto
  with alloc_mono[OF d] show ?thesis by simp
qed (use assms in \<open>auto split: prod.splits go.splits\<close>)

lemma step_mono: "seq_step Z A D W R rv S S' \<Longrightarrow> I (sy_db S) t c \<le> I (sy_db S') t c"
proof (cases rule: seq_step.cases, assumption)
  fix p j ph s' r' ph'
  assume m: "malloc_step A D R j ph (sy_db S, sy_redis S) = ((s', r'), ph')"
    and "S' = S\<lparr>sy_db := s', sy_redis := r', sy_procs := (sy_procs S)(p \<mapsto> (j, ph')), sy_given := sy_given S @ given_by j ph'\<rparr>"
  with malloc_step_db_mono[OF m] show ?thesis by simp
qed (auto dest: writer_mono)

lemma proceed_inv:
  assumes inv: "seq_inv A I rv S" and bnd: "\<And>t c. I (sy_db S) t c < 2 ^ 53"
    and pr: "sy_procs S p = Some (j, ph)" "\<not> is_done ph"
    and m: "malloc_step A D R j ph (sy_db S, sy_redis S) = ((s', r'), ph')"
  shows "seq_inv A I rv (S\<lparr> sy_db := s', sy_redis := r', sy_procs := (sy_procs S)(p := Some (j, ph')),
      sy_given := sy_given S @ given_by j ph' \<rparr>)"
proof (cases ph)
  case PFirst
  obtain r1 x where run: "rd_Run R (luaInSegment (key_of A (mj_tenant j) (mj_conv j)) (mj_need j) 0 (mj_nowms j)) (sy_redis S) = (r1, x)"
    by (rule prod.exhaust)
  with m PFirst have e: "s' = sy_db S" "r' = r1" "ph' = first_next A x" by auto
  show ?thesis
    by (rule in_step[OF inv bnd pr(1) run, where ph' = ph'])
      (simp_all add: e first_next_cases taken_given)
next
  case (PAlloc k le)
  show ?thesis
  proof (cases k)
    case 0
    with m PAlloc have e: "s' = sy_db S" "r' = sy_redis S" "\<exists>y. ph' = PDone (Error y)" by auto
    have "proc_ok I s' j ph'" using seq_inv_proc[OF inv pr(1)] e by (auto simp: proc_ok_def)
    then show ?thesis
      by (intro inv_shrink[OF inv]) (use e in \<open>auto simp: given_by_def\<close>)
  next
    case (Suc n)
    obtain s1 x where run: "D (mj_clk j n) (mj_tenant j) (mj_conv j) (block_of A (mj_tenant j) (mj_conv j) (mj_need j)) (sy_db S) = (s1, x)"
      by (rule prod.exhaust)
    show ?thesis
    proof (cases x)
      case (Ok ae)
      obtain a e where ae: "ae = (a, e)" by (cases ae)
      with m PAlloc Suc run Ok have e: "s' = s1" "r' = sy_redis S" "ph' = PSet n le a e" by auto
      show ?thesis
        using PAlloc Suc by (intro alloc_step[OF inv pr(1)[unfolded PAlloc Suc] run[unfolded Ok ae]])
          (simp add: e given_by_def)
    next
      case (Error y)
      show ?thesis
        by (intro inv_shrink[OF inv])
          (use m PAlloc Suc run Error seq_inv_proc[OF inv pr(1)] alloc_mono[OF run] in \<open>auto simp: given_by_def proc_ok_def\<close>)
    next
      case (Panic y)
      show ?thesis
        by (intro inv_shrink[OF inv])
          (use m PAlloc Suc run Panic seq_inv_proc[OF inv pr(1)] alloc_mono[OF run] in \<open>auto simp: given_by_def proc_ok_def\<close>)
    qed
  qed
next
  case (PSet n le a b)
  obtain r1 x where run: "rd_Run R (luaSetSegment (key_of A (mj_tenant j) (mj_conv j)) (wrap64 (a - 1)) b (mj_nowms j)) (sy_redis S) = (r1, x)"
    by (rule prod.exhaust)
  with m PSet have e: "s' = sy_db S" "r' = r1" and n: "\<And>n le a b. ph' \<noteq> PSet n le a b" and g: "given_by j ph' = []"
    by (cases x; auto simp: given_by_def)+
  show ?thesis
    by (rule set_step[OF inv bnd pr(1)[unfolded PSet] run n]) (simp add: e g)
next
  case (PIn n le b)
  obtain r1 x where run: "rd_Run R (luaInSegment (key_of A (mj_tenant j) (mj_conv j)) (mj_need j) b (mj_nowms j)) (sy_redis S) = (r1, x)"
    by (rule prod.exhaust)
  with m PIn have e: "s' = sy_db S" "r' = r1" "ph' = in_next n le x" by auto
  show ?thesis
    by (rule in_step[OF inv bnd pr(1) run, where ph' = ph'])
      (simp_all add: e in_next_cases taken_given)
next
  case (PDone y)
  with pr(2) show ?thesis by (simp add: is_done_def)
qed

lemma again_inv:
  assumes inv: "seq_inv A I rv S" and bnd: "\<And>t c. I (sy_db S) t c < 2 ^ 53"
    and pr: "sy_procs S p = Some (j, ph)" "may_resend False ph"
    and m: "malloc_step A D R j ph (sy_db S, sy_redis S) = ((s', r'), ph')"
  shows "seq_inv A I rv (S\<lparr> sy_redis := r' \<rparr>)"
proof -
  from seq_inv_proc[OF inv pr(1)] have j: "no_colon (mj_tenant j)" "1 \<le> mj_need j" by (simp_all add: proc_ok_def)
  obtain se ms x where "rd_Run R (luaInSegment (key_of A (mj_tenant j) (mj_conv j)) (mj_need j) se ms) (sy_redis S) = (r', x)"
    using pr(2) m by (cases ph) (auto simp: may_resend_def split: prod.splits)
  from in_run_shrunk[OF inv bnd j this] show ?thesis by (intro inv_shrink[OF inv]) simp_all
qed

lemma step_inv:
  assumes inv: "seq_inv A I rv S" and bnd: "\<And>t c. I (sy_db S) t c < 2 ^ 53" and st: "seq_step False A D W R rv S S'"
  shows "seq_inv A I rv S'"
  using st
proof cases
  case (call t p c need now clk)
  then show ?thesis
    by (intro inv_shrink[OF inv]) (auto simp: proc_ok_def)
next
  case (die p)
  then show ?thesis by (intro inv_shrink[OF inv]) auto
next
  case (proceed p j ph s' r' ph')
  show ?thesis unfolding proceed(1) by (rule proceed_inv[OF inv bnd proceed(2-4)])
next
  case (again p j ph s' r' ph')
  show ?thesis unfolding again(1) by (rule again_inv[OF inv bnd again(2-4)])
next
  case (writer s')
  then show ?thesis by (intro inv_shrink[OF inv]) (auto intro: writer_mono)
next
  case (others r')
  then show ?thesis by (intro inv_shrink[OF inv]) (auto intro: seg_kept_shrunk seg_kept_get)
qed

lemma start_inv:
  assumes "seq_start rv S" "\<And>t c. 0 \<le> I (sy_db S) t c"
  shows "seq_inv A I rv S"
proof -
  have "holds A rv S t c x = {}" for t c x
    using assms(1) by (cases x) (simp_all add: seq_start_def proc_holds_def seg_of_def seg_holds_def given_holds_def)
  then show ?thesis
    using assms by (simp add: seq_inv_def seq_start_def seg_of_def disjoint_holders_def)
qed

lemma reach_inv:
  assumes "seq_reach False A D W R rv S0 S" "seq_start rv S0" "\<And>t c. 0 \<le> I (sy_db S0) t c"
    and "\<And>t c. I (sy_db S) t c < 2 ^ 53"
  shows "seq_inv A I rv S"
  using assms(1,4)
proof (induction rule: seq_reach.induct)
  case start
  show ?case by (rule start_inv[OF assms(2,3)])
next
  case (step S S')
  have b: "I (sy_db S) t c < 2 ^ 53" for t c
    using step_mono[OF step.hyps(2)] step.prems by (rule order.strict_trans1)
  from step_inv[OF step.IH[OF b] b step.hyps(2)] show ?case .
qed

lemma given_unique:
  assumes reach: "seq_reach False A D W R rv S0 S" "seq_start rv S0" "\<And>t c. 0 \<le> I (sy_db S0) t c" "\<And>t c. I (sy_db S) t c < 2 ^ 53"
    and nc: "no_colon t" and i: "i < length (sy_given S)" "sy_given S ! i = (t, c, a, n)"
  shows "{a..a + n - 1} \<subseteq> {1..I (sy_db S) t c} \<and>
    (\<forall>k b m. k < length (sy_given S) \<longrightarrow> k \<noteq> i \<longrightarrow> sy_given S ! k = (t, c, b, m) \<longrightarrow> {a..a + n - 1} \<inter> {b..b + m - 1} = {})"
proof -
  from seq_inv_holds[OF reach_inv[OF reach] nc]
  have d: "disjoint_holders (holds A rv S t c) (I (sy_db S) t c)" .
  have h: "holds A rv S t c (HGiven k) = {b..b + m - 1}" if "k < length (sy_given S)" "sy_given S ! k = (t, c, b, m)" for k b m
    using that by (simp add: given_holds_def)
  show ?thesis
  proof (intro conjI allI impI)
    show "{a..a + n - 1} \<subseteq> {1..I (sy_db S) t c}"
      using d unfolding disjoint_holders_def h[OF i, symmetric] by blast
    fix k b m
    assume k: "k < length (sy_given S)" "k \<noteq> i" "sy_given S ! k = (t, c, b, m)"
    show "{a..a + n - 1} \<inter> {b..b + m - 1} = {}"
      using d k(2) unfolding disjoint_holders_def h[OF i, symmetric] h[OF k(1,3), symmetric] by blast
  qed
qed

end

end
