(* ===== verification/SeqProps.thy ===== *)
theory SeqProps
  imports SeqSystem
begin

section \<open>What holds of the sequence allocator\<close>

text \<open>
  The DAO of MongoDB provides the interface of the allocator; the method \<open>Malloc\<close> is the composition of
  its steps; numbers are never given out twice while no script is sent twice, and may be when one is; the marks of a conversation stay in order.
\<close>

subsection \<open>The DAO provides the interface\<close>

lemma alloc_segment_ok:
  assumes laws: "mongo_laws M view" and run: "DAO_AllocSegment M now t c b s = (s', Ok (a, e))"
    and pos: "0 \<le> issued t c (view collSeqConv s)"
  shows "a = issued t c (view collSeqConv s) + 1
    \<and> e = issued t c (view collSeqConv s) + (if b \<le> 0 then 256 else b)
    \<and> issued t c (view collSeqConv s') = e \<and> int64 e
    \<and> (\<forall>t' c'. (t', c') \<noteq> (t, c) \<longrightarrow> issued t' c' (view collSeqConv s') = issued t' c' (view collSeqConv s))"
proof -
  let ?b = "if b \<le> 0 then 256 else b"
  let ?V = "view collSeqConv s"
  obtain s1 x where x: "mg_FindOneAndUpdate M collSeqConv (conv_filter t c) (alloc_update ?b now) True False s = (s1, x)"
    by (rule prod.exhaust)
  with run obtain o1 where o: "x = Ok o1" by (cases x) (simp_all add: DAO_AllocSegment_def Let_def)
  from mongo_FindOneAndUpdate_Ok[OF laws x[unfolded o]]
  have fu: "find_update_spec (conv_filter t c) (alloc_update ?b now) True False ?V = (view collSeqConv s1, o1)"
    and i64: "list_all doc_int64 (view collSeqConv s1)" by simp_all
  from alloc_spec[where ds = ?V and b = ?b and now = now and t = t and c = c, unfolded fu]
  have sp: "issued t c (view collSeqConv s1) = issued t c ?V + ?b"
    "\<forall>t' c'. (t', c') \<noteq> (t, c) \<longrightarrow> issued t' c' (view collSeqConv s1) = issued t' c' ?V"
    "case o1 of None \<Rightarrow> issued t c ?V = 0 | Some d \<Rightarrow> doc_int d ''issued_seq'' = issued t c ?V" by simp_all
  from issued_int64[OF i64, of t c] sp(1) have i: "int64 (issued t c ?V + ?b)" by simp
  have b: "1 \<le> ?b" by simp
  have i1: "int64 (issued t c ?V + 1)" using i b pos by (simp add: int64_def)
  have "s' = s1 \<and> a = issued t c ?V + 1 \<and> e = issued t c ?V + ?b"
  proof (cases o1)
    case None
    with run x o sp(3) i show ?thesis by (simp add: DAO_AllocSegment_def Let_def)
  next
    case (Some d)
    with run x o obtain old where old: "decode_int64 d ''issued_seq'' = Ok old"
      by (cases "decode_int64 d ''issued_seq''") (simp_all add: DAO_AllocSegment_def Let_def)
    then have "doc_int d ''issued_seq'' = old"
      by (auto simp: decode_int64_def doc_int_def split: option.splits mval.splits)
    with sp(3) Some have "old = issued t c ?V" by simp
    with run x o Some old i i1 show ?thesis by (simp add: DAO_AllocSegment_def Let_def)
  qed
  with sp i show ?thesis by simp
qed

lemma AllocSegment_call:
  assumes "DAO_AllocSegment M now t c b s = (s', x)"
  shows "\<exists>b' y. 0 \<le> b' \<and> mg_FindOneAndUpdate M collSeqConv (conv_filter t c) (alloc_update b' now) True False s = (s', y)"
proof -
  let ?b = "if b \<le> 0 then 256 else b"
  obtain s1 y where y: "mg_FindOneAndUpdate M collSeqConv (conv_filter t c) (alloc_update ?b now) True False s = (s1, y)"
    by (rule prod.exhaust)
  have "s' = s1"
  proof (cases y)
    case (Ok o1)
    show ?thesis
    proof (cases o1)
      case None
      with Ok assms y show ?thesis by (simp add: DAO_AllocSegment_def Let_def)
    next
      case (Some d)
      with Ok assms y show ?thesis
        by (cases "decode_int64 d ''issued_seq''") (simp_all add: DAO_AllocSegment_def Let_def)
    qed
  qed (use assms y in \<open>simp_all add: DAO_AllocSegment_def Let_def\<close>)
  with y show ?thesis by (intro exI[of _ ?b] exI[of _ y]) simp
qed

lemma alloc_segment_mono:
  assumes laws: "mongo_laws M view" and run: "DAO_AllocSegment M now t c b s = (s', x)"
  shows "issued_le (view collSeqConv s) (view collSeqConv s')"
proof -
  from AllocSegment_call[OF run] obtain b' y where b: "0 \<le> b'"
    and y: "mg_FindOneAndUpdate M collSeqConv (conv_filter t c) (alloc_update b' now) True False s = (s', y)" by blast
  show ?thesis using FindOneAndUpdate_issued[OF laws y] b by (simp add: upsert_issued)
qed

locale mongo_driver =
  fixes M :: "'s mongo" and view :: "string \<Rightarrow> 's \<Rightarrow> doc list"
  assumes laws: "mongo_laws M view"

sublocale mongo_driver \<subseteq> dao: dao_iface "DAO_AllocSegment M" "seq_writer M" "\<lambda>s t c. issued t c (view collSeqConv s)"
proof
  fix now t c b s s' a e
  assume "DAO_AllocSegment M now t c b s = (s', Ok (a, e))" "0 \<le> issued t c (view collSeqConv s)"
  from alloc_segment_ok[OF laws this] have "a = issued t c (view collSeqConv s) + 1"
    "e = issued t c (view collSeqConv s) + (if b \<le> 0 then 256 else b)" "issued t c (view collSeqConv s') = e"
    by blast+
  then show "a = issued t c (view collSeqConv s) + 1 \<and> a \<le> e \<and> e \<le> issued t c (view collSeqConv s')" by (cases "b \<le> 0") simp_all
next
  fix now t c b s s' x t' c'
  assume "DAO_AllocSegment M now t c b s = (s', x)"
  from alloc_segment_mono[OF laws this]
  show "issued t' c' (view collSeqConv s) \<le> issued t' c' (view collSeqConv s')" by (simp add: issued_le_def)
next
  fix s s' t c
  assume "seq_writer M s s'"
  from seq_writer_issued[OF laws this]
  show "issued t c (view collSeqConv s) \<le> issued t c (view collSeqConv s')" by (simp add: issued_le_def)
qed

interpretation mem: mongo_driver mem_mongo mem_view
  by unfold_locales (rule mem_mongo_laws)

lemma append_at_first: "x \<notin> set a \<Longrightarrow> x \<notin> set b \<Longrightarrow> a @ x # u = b @ x # v \<Longrightarrow> a = b \<and> u = v"
proof (induction a arbitrary: b)
  case Nil
  then show ?case by (cases b) auto
next
  case (Cons y a)
  then show ?case by (cases b) auto
qed

lemma defaultKey_inj:
  assumes "no_colon t" "no_colon t'" "defaultKey t c = defaultKey t' c'"
  shows "t = t' \<and> c = c'"
proof -
  from assms(3) have e: "t @ CHR '':'' # c = t' @ CHR '':'' # c'" by (simp add: defaultKey_def)
  with assms(1,2) show ?thesis
    unfolding no_colon_def by (intro append_at_first) assumption+
qed

lemma key_of_default: "al_KeyFn A = None \<Longrightarrow> key_of A t c = defaultKey t c"
  by (simp add: key_of_def Allocator_ensure_def Let_def)

text \<open>The allocator over MongoDB and Redis, with its default keys.\<close>

locale seq_over_mongo = mongo_driver M view
  for M :: "'s mongo" and view +
  fixes A :: allocator and R :: "'r redis" and rv :: "'r \<Rightarrow> rdb"
  assumes default_keys: "al_KeyFn A = None" and rlaws: "redis_laws R rv"

sublocale seq_over_mongo \<subseteq>
  sys: seq_system "DAO_AllocSegment M" "seq_writer M" "\<lambda>s t c. issued t c (view collSeqConv s)" A R rv
proof
  show "redis_laws R rv" by (rule rlaws)
  fix t t' c c'
  assume "no_colon t" "no_colon t'" "key_of A t c = key_of A t' c'"
  then show "t = t' \<and> c = c'"
    by (intro defaultKey_inj) (simp_all only: key_of_default[OF default_keys])
qed

text \<open>The allocator as the message handler sets it up.\<close>

definition handler_alloc :: allocator where
  "handler_alloc = \<lparr> al_BlockSizeFn = None, al_KeyFn = None, al_MaxRetry = 5 \<rparr>"

interpretation mem_seq: seq_over_mongo mem_mongo mem_view handler_alloc mem_redis mr_db
  by unfold_locales (simp_all add: handler_alloc_def mem_redis_laws)

subsection \<open>The method is the composition of its steps\<close>

inductive malloc_solo for A D R j where
  refl: "malloc_solo A D R j x x"
| step: "malloc_step A D R j ph w = (w1, ph1) \<Longrightarrow> \<not> is_done ph \<Longrightarrow> malloc_solo A D R j (w1, ph1) y \<Longrightarrow>
    malloc_solo A D R j (w, ph) y"

inductive_cases malloc_soloE: "malloc_solo A D R j (w, ph) y"

definition finished :: "'w \<times> (int \<times> int) go \<Rightarrow> 'w \<times> mphase" where
  "finished x = (fst x, PDone (snd x))"

lemma solo_one: "malloc_step A D R j ph w = (w1, ph1) \<Longrightarrow> \<not> is_done ph \<Longrightarrow> malloc_solo A D R j (w, ph) (w1, ph1)"
  by (rule malloc_solo.step[OF _ _ malloc_solo.refl])

lemma not_done [simp]: "\<not> is_done PFirst" "\<not> is_done (PAlloc n le)" "\<not> is_done (PSet n le a b)" "\<not> is_done (PIn n le b)"
  by (simp_all add: is_done_def)

lemma loop_solo:
  assumes j: "mj_tenant j = t" "mj_conv j = c" "mj_need j = need" "mj_nowms j = ms" "mj_clk j = clk"
  shows "malloc_solo A D R j (w, PAlloc n le) (finished (Malloc_loop A D R t c need ms clk n le w))"
proof (induction n arbitrary: le w)
  case 0
  obtain s r where "w = (s, r)" by (cases w)
  then have "malloc_step A D R j (PAlloc 0 le) w = finished (Malloc_loop A D R t c need ms clk 0 le w)"
    by (simp add: finished_def)
  then show ?case by (cases "finished (Malloc_loop A D R t c need ms clk 0 le w)") (simp add: solo_one)
next
  case (Suc n)
  obtain s r where w: "w = (s, r)" by (cases w)
  obtain s1 x where d: "D (clk n) t c (block_of A t c need) s = (s1, x)" by (rule prod.exhaust)
  show ?case
  proof (cases x)
    case (Ok ab)
    obtain a b where ab: "ab = (a, b)" by (cases ab)
    obtain r1 y where s: "rd_Run R (luaSetSegment (key_of A t c) (wrap64 (a - 1)) b ms) r = (r1, y)" by (rule prod.exhaust)
    have 1: "malloc_step A D R j (PAlloc (Suc n) le) w = ((s1, r), PSet n le a b)"
      using w d Ok ab j by simp
    show ?thesis
    proof (cases y)
      case Y: (Ok v)
      obtain r2 z where i: "rd_Run R (luaInSegment (key_of A t c) need b ms) r1 = (r2, z)" by (rule prod.exhaust)
      have 2: "malloc_step A D R j (PSet n le a b) (s1, r) = ((s1, r1), PIn n le b)" using s Y j by simp
      have 3: "malloc_step A D R j (PIn n le b) (s1, r1) = ((s1, r2), in_next n le z)" using i j by simp
      have go: "malloc_solo A D R j (w, PAlloc (Suc n) le) u" if "malloc_solo A D R j ((s1, r2), in_next n le z) u" for u
        by (rule malloc_solo.step[OF 1 _ malloc_solo.step[OF 2 _ malloc_solo.step[OF 3 _ that]]]) simp_all
      show ?thesis
      proof (cases z)
        case Z: (Ok res)
        show ?thesis
        proof (cases "reply_at res 0")
          case (Ok code)
          show ?thesis
          proof (cases "code = 0")
            case True
            with Ok Z have "in_next n le z = PDone (reply_start res)" by (simp add: in_next_def)
            moreover have "Malloc_loop A D R t c need ms clk (Suc n) le w = ((s1, r2), reply_start res)"
              using True Ok Z Y w d ab i s \<open>x = Ok ab\<close> by simp
            ultimately show ?thesis using go[OF malloc_solo.refl] by (simp add: finished_def)
          next
            case False
            with Ok Z have "in_next n le z = PAlloc n le" by (simp add: in_next_def)
            moreover have "Malloc_loop A D R t c need ms clk (Suc n) le w = Malloc_loop A D R t c need ms clk n le (s1, r2)"
              using False Ok Z Y w d ab i s \<open>x = Ok ab\<close> by simp
            ultimately show ?thesis using go Suc.IH by simp
          qed
        qed (use go[OF malloc_solo.refl] Z Y w d ab i s \<open>x = Ok ab\<close> in \<open>simp_all add: in_next_def finished_def\<close>)
      next
        case Z: (Error e)
        then have "in_next n le z = PAlloc n (Some e)" by (simp add: in_next_def)
        moreover have "Malloc_loop A D R t c need ms clk (Suc n) le w = Malloc_loop A D R t c need ms clk n (Some e) (s1, r2)"
          using Z Y w d ab i s Ok by simp
        ultimately show ?thesis using go Suc.IH by simp
      qed (use go[OF malloc_solo.refl] Y w d ab i s Ok in \<open>simp_all add: in_next_def finished_def\<close>)
    next
      case Y: (Error e)
      have 2: "malloc_step A D R j (PSet n le a b) (s1, r) = ((s1, r1), PAlloc n (Some e))" using s Y j by simp
      moreover have "Malloc_loop A D R t c need ms clk (Suc n) le w = Malloc_loop A D R t c need ms clk n (Some e) (s1, r1)"
        using Y w d ab s Ok by simp
      ultimately show ?thesis
        using malloc_solo.step[OF 1 _ malloc_solo.step[OF 2 _ Suc.IH]] by simp
    next
      case Y: (Panic e)
      have 2: "malloc_step A D R j (PSet n le a b) (s1, r) = ((s1, r1), PDone (Panic e))" using s Y j by simp
      moreover have "Malloc_loop A D R t c need ms clk (Suc n) le w = ((s1, r1), Panic e)"
        using Y w d ab s Ok by simp
      ultimately show ?thesis
        using malloc_solo.step[OF 1 _ solo_one[OF 2]] by (simp add: finished_def)
    qed
  next
    case (Error e)
    with w d j have "malloc_step A D R j (PAlloc (Suc n) le) w = ((s1, r), PDone (Error e))" by simp
    from solo_one[OF this] show ?thesis using w d Error by (simp add: finished_def)
  next
    case (Panic e)
    with w d j have "malloc_step A D R j (PAlloc (Suc n) le) w = ((s1, r), PDone (Panic e))" by simp
    from solo_one[OF this] show ?thesis using w d Panic by (simp add: finished_def)
  qed
qed

lemma malloc_solo_run:
  "malloc_solo A D R (malloc_job t c need now clk) (w, PFirst) (finished (Allocator_Malloc A D R t c need now clk w))"
proof -
  let ?j = "malloc_job t c need now clk"
  let ?need = "if need \<le> 0 then 1 else need"
  obtain s r where w: "w = (s, r)" by (cases w)
  obtain r1 x where i: "rd_Run R (luaInSegment (key_of A t c) ?need 0 (nowms_of now)) r = (r1, x)" by (rule prod.exhaust)
  have 1: "malloc_step A D R ?j PFirst w = ((s, r1), first_next A x)" using w i by (simp add: malloc_job_def)
  have go: "malloc_solo A D R ?j (w, PFirst) u" if "malloc_solo A D R ?j ((s, r1), first_next A x) u" for u
    by (rule malloc_solo.step[OF 1 _ that]) simp
  have lp: "malloc_solo A D R ?j ((s, r1), PAlloc (retries_of A) None)
      (finished (Malloc_loop A D R t c ?need (nowms_of now) clk (retries_of A) None (s, r1)))"
    by (rule loop_solo) (simp_all add: malloc_job_def)
  show ?thesis
  proof (cases x)
    case (Error e)
    then show ?thesis using go lp w i by (simp add: Allocator_Malloc_def Let_def first_next_def)
  next
    case (Panic e)
    then show ?thesis using go[OF malloc_solo.refl] w i by (simp add: Allocator_Malloc_def Let_def first_next_def finished_def)
  next
    case X: (Ok res)
    show ?thesis
    proof (cases "reply_at res 0")
      case (Ok code)
      show ?thesis
      proof (cases "code = 1 \<or> code = 3")
        case True
        then have "code \<noteq> 0" by auto
        with True go lp w i X Ok show ?thesis by (simp add: Allocator_Malloc_def Let_def first_next_def)
      next
        case False
        then show ?thesis using go[OF malloc_solo.refl] w i X Ok
          by (cases "code = 0") (simp_all add: Allocator_Malloc_def Let_def first_next_def finished_def)
      qed
    qed (use go[OF malloc_solo.refl] w i X in \<open>simp_all add: Allocator_Malloc_def Let_def first_next_def finished_def\<close>)
  qed
qed

text \<open>A call of a process that nothing interrupts leads from a reachable state to a reachable one.\<close>

definition sys_at :: "('s, 'r) seq_sys \<Rightarrow> nat \<Rightarrow> mjob \<Rightarrow> ('s \<times> 'r) \<times> mphase \<Rightarrow> ('s, 'r) seq_sys" where
  "sys_at S p j x = S\<lparr> sy_db := fst (fst x), sy_redis := snd (fst x), sy_procs := (sy_procs S)(p := Some (j, snd x)),
     sy_given := sy_given S @ given_by j (snd x) \<rparr>"

lemma given_not_done: "\<not> is_done ph \<Longrightarrow> given_by j ph = []"
  by (auto simp: given_by_def is_done_def split: mphase.splits)

lemma sys_at_step:
  assumes "seq_reach Z A D W R rv S0 (sys_at S p j (w, ph))" "\<not> is_done ph" "malloc_step A D R j ph w = x"
  shows "seq_reach Z A D W R rv S0 (sys_at S p j x)"
proof -
  let ?S = "sys_at S p j (w, ph)"
  obtain s r ph' where x: "x = ((s, r), ph')" by (cases x) auto
  have "seq_step Z A D W R rv ?S (?S\<lparr> sy_db := s, sy_redis := r, sy_procs := (sy_procs ?S)(p := Some (j, ph')),
      sy_given := sy_given ?S @ given_by j ph' \<rparr>)"
    by (rule seq_step.proceed[OF _ assms(2)]) (simp_all add: sys_at_def assms(3) x)
  moreover have "?S\<lparr> sy_db := s, sy_redis := r, sy_procs := (sy_procs ?S)(p := Some (j, ph')),
      sy_given := sy_given ?S @ given_by j ph' \<rparr> = sys_at S p j x"
    by (simp add: sys_at_def x given_not_done[OF assms(2)])
  ultimately show ?thesis using seq_reach.step[OF assms(1)] by simp
qed

lemma solo_reach:
  assumes "malloc_solo A D R j x y" "seq_reach Z A D W R rv S0 (sys_at S p j x)"
  shows "seq_reach Z A D W R rv S0 (sys_at S p j y)"
  using assms
proof (induction rule: malloc_solo.induct)
  case (step ph w w1 ph1 y)
  from sys_at_step[OF step.prems step.hyps(2,1)] show ?case by (rule step.IH)
qed

text \<open>A whole call of \<open>Malloc\<close>, by a process that then dies.\<close>

lemma call_reach:
  assumes r: "seq_reach Z A D W R rv S0 S" and nc: "no_colon t" and idle: "sy_procs S = (\<lambda>_. None)"
    and m: "Allocator_Malloc A D R t c need now clk (sy_db S, sy_redis S) = ((s', r'), Ok (a, ms))"
  shows "seq_reach Z A D W R rv S0 \<lparr> sy_db = s', sy_redis = r', sy_procs = (\<lambda>_. None),
    sy_given = sy_given S @ [(t, c, a, if need \<le> 0 then 1 else need)] \<rparr>"
proof -
  let ?j = "malloc_job t c need now clk"
  let ?S1 = "S\<lparr> sy_procs := (sy_procs S)(0 := Some (?j, PFirst)) \<rparr>"
  have "?S1 = sys_at S 0 ?j ((sy_db S, sy_redis S), PFirst)"
    by (simp add: sys_at_def given_not_done)
  with seq_reach.step[OF r seq_step.call[OF nc, where p = 0 and c = c and need = need and now = now and clk = clk]]
  have 1: "seq_reach Z A D W R rv S0 (sys_at S 0 ?j ((sy_db S, sy_redis S), PFirst))" by simp
  from malloc_solo_run[of A D R t c need now clk "(sy_db S, sy_redis S)"]
  have 2: "malloc_solo A D R ?j ((sy_db S, sy_redis S), PFirst) ((s', r'), PDone (Ok (a, ms)))"
    by (simp add: m finished_def)
  let ?S2 = "sys_at S 0 ?j ((s', r'), PDone (Ok (a, ms)))"
  from seq_reach.step[OF solo_reach[OF 2 1] seq_step.die[where p = 0]]
  have "seq_reach Z A D W R rv S0 (?S2\<lparr> sy_procs := (sy_procs ?S2)(0 := None) \<rparr>)" .
  moreover have "?S2\<lparr> sy_procs := (sy_procs ?S2)(0 := None) \<rparr> = \<lparr> sy_db = s', sy_redis = r', sy_procs = (\<lambda>_. None),
    sy_given = sy_given S @ [(t, c, a, if need \<le> 0 then 1 else need)] \<rparr>"
    using idle by (cases S) (simp add: sys_at_def given_by_def malloc_job_def)
  ultimately show ?thesis by simp
qed

subsection \<open>The marks of a conversation\<close>

text \<open>The lowest number kept never passes the highest one committed.\<close>

definition marks_ok :: "doc \<Rightarrow> bool" where
  "marks_ok d \<longleftrightarrow> 0 \<le> doc_int d ''min_seq'' \<and> doc_int d ''min_seq'' \<le> doc_int d ''max_seq''"

inductive mark_op :: "'s mongo \<Rightarrow> 's \<Rightarrow> 's \<Rightarrow> bool" for M where
  alloc: "DAO_AllocSegment M now t c b s = (s', x) \<Longrightarrow> mark_op M s s'"
| commit: "DAO_AdvanceCommit M now t c n s = (s', r) \<Longrightarrow> 0 \<le> n \<Longrightarrow> mark_op M s s'"
| prune: "DAO_AdvanceMin M now t c n s = (s', r) \<Longrightarrow> 0 \<le> n \<Longrightarrow> mark_op M s s'"
| raise: "DAO_RaiseIssuedFloor M now t c n s = (s', r) \<Longrightarrow> mark_op M s s'"
| ensure: "EnsureSeqConversation M now t a b ct s = (s', y) \<Longrightarrow> mark_op M s s'"
| maxseq: "UpdateMaxSeq M now c n s = (s', z) \<Longrightarrow> 0 \<le> n \<Longrightarrow> mark_op M s s'"

lemma update_one_all:
  assumes "\<forall>d \<in> set ds. P d" "\<And>d. P d \<Longrightarrow> doc_matches f d \<Longrightarrow> P (apply_update u d)" "ups \<Longrightarrow> P (upsert_doc f u)"
  shows "\<forall>d \<in> set (fst (update_one_spec f u ups ds)). P d"
proof (cases "change_first f u ds")
  case None
  with assms(1,3) show ?thesis by (auto simp: update_one_spec_def)
next
  case (Some x)
  then obtain ds' d d' where x: "change_first f u ds = Some (ds', d, d')" by (cases x) auto
  from change_first_Some[OF x] obtain l r where "ds = l @ d # r" "ds' = l @ d' # r" "d' = apply_update u d"
    "doc_matches f d" by blast
  with x assms(1) assms(2)[of d] show ?thesis by (auto simp: update_one_spec_def)
qed

lemma UpdateOne_all:
  assumes "mongo_laws M view" "mg_UpdateOne M c f u ups s = (s', r)" "\<forall>d \<in> set (view c s). P d"
    "\<And>d. P d \<Longrightarrow> doc_matches f d \<Longrightarrow> P (apply_update u d)" "ups \<Longrightarrow> P (upsert_doc f u)"
  shows "\<forall>d \<in> set (view c s'). P d"
  using mongo_UpdateOne[OF assms(1,2)] update_one_all[where P = P, OF assms(3-5)] assms(3) by auto

lemma FindOneAndUpdate_all:
  assumes "mongo_laws M view" "mg_FindOneAndUpdate M c f u ups aft s = (s', r)" "\<forall>d \<in> set (view c s). P d"
    "\<And>d. P d \<Longrightarrow> doc_matches f d \<Longrightarrow> P (apply_update u d)" "ups \<Longrightarrow> P (upsert_doc f u)"
  shows "\<forall>d \<in> set (view c s'). P d"
  using mongo_FindOneAndUpdate[OF assms(1,2)] update_one_all[where P = P, OF assms(3-5)] assms(3)
  by (auto simp: find_update_one)

lemma upsert_marks:
  "0 \<le> n \<Longrightarrow> marks_ok (upsert_doc (conv_filter t c) (commit_update n now))"
  "0 \<le> n \<Longrightarrow> marks_ok (upsert_doc [(''conversation_id'', CEq (MStr c))] (commit_update n now))"
  "marks_ok (upsert_doc (conv_filter t c) (floor_update m now))"
  "marks_ok (upsert_doc (conv_filter t c) (ensure_seq_update t c now))"
  "marks_ok (upsert_doc (conv_filter t c) (alloc_update b now))"
  by (simp_all add: marks_ok_def update_simps commit_update_def floor_update_def ensure_seq_update_def alloc_update_def conv_filter_def)
    (simp_all add: doc_int_def)

lemma apply_marks:
  "marks_ok d \<Longrightarrow> marks_ok (apply_update (alloc_update b now) d)"
  "marks_ok d \<Longrightarrow> marks_ok (apply_update (floor_update m now) d)"
  "marks_ok d \<Longrightarrow> marks_ok (apply_update (ensure_seq_update t c now) d)"
  by (simp_all add: marks_ok_def update_simps alloc_update_def floor_update_def ensure_seq_update_def)

lemma apply_commit_marks: "marks_ok d \<Longrightarrow> 0 \<le> n \<Longrightarrow> marks_ok (apply_update (commit_update n now) d)"
  by (simp add: marks_ok_def update_simps commit_update_def doc_int_def split: option.splits mval.splits)

lemma apply_min_marks:
  assumes "marks_ok d" "0 \<le> n" "doc_matches (conv_filter t c @ [(''max_seq'', CGte (MInt n))]) d"
  shows "marks_ok (apply_update (min_update n now) d)"
proof -
  from assms(3) obtain m where "map_of d ''max_seq'' = Some (MInt m)" "n \<le> m"
    by (auto simp: doc_matches_def mval_leq_def split: option.splits elim!: mval_less.elims)
  with assms(1,2) show ?thesis
    by (simp add: marks_ok_def update_simps min_update_def doc_int_def split: option.splits mval.splits)
qed

lemma mark_op_marks:
  assumes laws: "mongo_laws M view" and "mark_op M s s'" and ok: "\<forall>d \<in> set (view collSeqConv s). marks_ok d"
  shows "\<forall>d \<in> set (view collSeqConv s'). marks_ok d"
  using assms(2)
proof cases
  case (alloc now t c b x)
  from AllocSegment_call[OF alloc] obtain b' y where
    "mg_FindOneAndUpdate M collSeqConv (conv_filter t c) (alloc_update b' now) True False s = (s', y)" by blast
  from FindOneAndUpdate_all[OF laws this ok] show ?thesis by (simp add: upsert_marks apply_marks)
next
  case (commit now t c n r)
  then obtain r' where "mg_UpdateOne M collSeqConv (conv_filter t c) (commit_update n now) True s = (s', r')"
    by (auto simp: DAO_AdvanceCommit_def dest: upd_err_fst)
  from UpdateOne_all[OF laws this ok] commit(2) show ?thesis by (simp add: upsert_marks apply_commit_marks)
next
  case (prune now t c n r)
  then obtain r' where "mg_UpdateOne M collSeqConv
       (conv_filter t c @ [(''max_seq'', CGte (MInt n))]) (min_update n now) False s = (s', r')"
    by (auto simp: DAO_AdvanceMin_def dest: upd_err_fst)
  from UpdateOne_all[OF laws this ok] apply_min_marks[OF _ prune(2)] show ?thesis by simp
next
  case (raise now t c n r)
  then obtain r' where "mg_UpdateOne M collSeqConv (conv_filter t c) (floor_update n now) True s = (s', r')"
    by (auto simp: DAO_RaiseIssuedFloor_def dest: upd_err_fst)
  from UpdateOne_all[OF laws this ok] show ?thesis by (simp add: upsert_marks apply_marks)
next
  case (ensure now t a b ct y)
  then obtain r' where "mg_UpdateOne M collSeqConv (conv_filter t (buildP2PConvID a b))
       (ensure_seq_update t (buildP2PConvID a b) now) True s = (s', r')"
    by (auto dest: EnsureSeqConversation_call)
  from UpdateOne_all[OF laws this ok] show ?thesis by (simp add: upsert_marks apply_marks)
next
  case (maxseq now c n z)
  then obtain r' where "mg_FindOneAndUpdate M collSeqConv [(''conversation_id'', CEq (MStr c))]
       (commit_update n now) True True s = (s', r')"
    by (auto dest: UpdateMaxSeq_call)
  from FindOneAndUpdate_all[OF laws this ok] maxseq(2) show ?thesis by (simp add: upsert_marks apply_commit_marks)
qed

subsection \<open>Properties\<close>

context seq_over_mongo
begin

lemma numbers_unique:
  assumes "seq_start rv S0" "\<And>t c. 0 \<le> issued t c (view collSeqConv (sy_db S0))"
    and "seq_reach False A (DAO_AllocSegment M) (seq_writer M) R rv S0 S" "\<And>t c. issued t c (view collSeqConv (sy_db S)) < 2 ^ 53"
    and "no_colon t" "i < length (sy_given S)" "sy_given S ! i = (t, c, a, n)"
  shows "{a..a + n - 1} \<subseteq> {1..issued t c (view collSeqConv (sy_db S))} \<and>
    (\<forall>k b m. k < length (sy_given S) \<longrightarrow> k \<noteq> i \<longrightarrow> sy_given S ! k = (t, c, b, m) \<longrightarrow> {a..a + n - 1} \<inter> {b..b + m - 1} = {})"
  by (rule sys.given_unique[OF assms(3,1,2,4-7)])

end

text \<open>C3: message numbers are never given out twice. Any number of processes call \<open>Malloc\<close> for any
  conversations, interleaved at every call to MongoDB or Redis; replies get lost, processes die between
  two calls, segments expire or are evicted from Redis, and the other writers of the documents run in
  between. Then every range of numbers that was returned lies within what MongoDB has reserved for its
  conversation, and two returned ranges of one conversation have no number in common. A script that takes
  numbers may be sent again after a lost reply, whoever ran in between; the one that stores a segment may be
  sent again as long as nobody ran in between, which C4 shows to be needed (that is the \<open>False\<close>). Besides:
  tenants without a colon, so that the Redis keys of conversations differ; numbers below \<open>2 ^ 53\<close>, which the
  scripts handle exactly; the default keys; no segment in Redis at the start.\<close>

theorem seq_numbers_unique:
  assumes "mongo_laws M view" "redis_laws R rv" "al_KeyFn A = None"
    and "seq_start rv S0" "\<forall>t c. 0 \<le> issued t c (view collSeqConv (sy_db S0))"
    and "seq_reach False A (DAO_AllocSegment M) (seq_writer M) R rv S0 S"
    and "\<forall>t c. issued t c (view collSeqConv (sy_db S)) < 2 ^ 53"
    and "no_colon t" "i < length (sy_given S)" "sy_given S ! i = (t, c, a, n)"
  shows "{a..a + n - 1} \<subseteq> {1..issued t c (view collSeqConv (sy_db S))} \<and>
    (\<forall>k b m. k < length (sy_given S) \<longrightarrow> k \<noteq> i \<longrightarrow> sy_given S ! k = (t, c, b, m) \<longrightarrow> {a..a + n - 1} \<inter> {b..b + m - 1} = {})"
proof -
  have "seq_over_mongo M view A R rv"
    using assms(1-3) by (simp add: seq_over_mongo_def mongo_driver_def seq_over_mongo_axioms_def)
  from seq_over_mongo.numbers_unique[OF this assms(4) _ assms(6) _ assms(8-10)] assms(5,7)
  show ?thesis by blast
qed

text \<open>Two calls on empty servers give out 1 and then 2 to 4.\<close>

definition seq_w0 :: "mem_db \<times> mem_rd" where
  "seq_w0 = ([], \<lparr> mr_db = \<lparr> rd_now = 0, rd_keys = [] \<rparr>, mr_published = [] \<rparr>)"

definition seq_call :: "int \<Rightarrow> mem_db \<times> mem_rd \<Rightarrow> (mem_db \<times> mem_rd) \<times> (int \<times> int) go" where
  "seq_call n w = Allocator_Malloc handler_alloc (DAO_AllocSegment mem_mongo) mem_redis ''t'' ''c'' n 0 (\<lambda>_. 0) w"

definition seq_w :: "int \<Rightarrow> mem_db \<times> mem_rd" where
  "seq_w n = ([(collSeqConv, [[(''tenant_id'', MStr ''t''), (''conversation_id'', MStr ''c''), (''max_seq'', MInt 0),
       (''min_seq'', MInt 0), (''create_time'', MTime 0), (''issued_seq'', MInt 256), (''update_time'', MTime 0)]])],
     \<lparr> mr_db = \<lparr> rd_now = 0, rd_keys = [(''seq:blk:t:c'',
         RHash [(''curr'', n), (''end'', 256), (''mill'', 0)], Some 3600000)] \<rparr>, mr_published = [] \<rparr>)"

lemma seq_call_1: "seq_call 1 seq_w0 = (seq_w 1, Ok (1, 0))"
  by code_simp

lemma seq_call_2: "seq_call 3 (seq_w 1) = (seq_w 4, Ok (2, 0))"
  by code_simp

lemma issued_bound: "list_all (\<lambda>d. doc_int d ''issued_seq'' < b) ds \<Longrightarrow> 0 < b \<Longrightarrow> issued t c ds < b"
  by (induction ds) (auto simp: issued_Cons, auto simp: issued_def)

definition seq_S0 :: "(mem_db, mem_rd) seq_sys" where
  "seq_S0 = \<lparr> sy_db = fst seq_w0, sy_redis = snd seq_w0, sy_procs = (\<lambda>_. None), sy_given = [] \<rparr>"

definition seq_S2 :: "(mem_db, mem_rd) seq_sys" where
  "seq_S2 = \<lparr> sy_db = fst (seq_w 4), sy_redis = snd (seq_w 4), sy_procs = (\<lambda>_. None),
     sy_given = [(''t'', ''c'', 1, 1), (''t'', ''c'', 2, 3)] \<rparr>"

lemma seq_S2_reach: "seq_reach False handler_alloc (DAO_AllocSegment mem_mongo) (seq_writer mem_mongo) mem_redis mr_db seq_S0 seq_S2"
proof -
  have nc: "no_colon ''t''" by (simp add: no_colon_def)
  have 1: "Allocator_Malloc handler_alloc (DAO_AllocSegment mem_mongo) mem_redis ''t'' ''c'' 1 0 (\<lambda>_. 0)
      (sy_db seq_S0, sy_redis seq_S0) = ((fst (seq_w 1), snd (seq_w 1)), Ok (1, 0))"
    using seq_call_1 by (simp add: seq_call_def seq_S0_def)
  from call_reach[OF seq_reach.start nc _ 1]
  have r1: "seq_reach False handler_alloc (DAO_AllocSegment mem_mongo) (seq_writer mem_mongo) mem_redis mr_db seq_S0
     \<lparr> sy_db = fst (seq_w 1), sy_redis = snd (seq_w 1), sy_procs = (\<lambda>_. None), sy_given = [(''t'', ''c'', 1, 1)] \<rparr>"
    by (simp add: seq_S0_def)
  have 2: "Allocator_Malloc handler_alloc (DAO_AllocSegment mem_mongo) mem_redis ''t'' ''c'' 3 0 (\<lambda>_. 0)
      (fst (seq_w 1), snd (seq_w 1)) = ((fst (seq_w 4), snd (seq_w 4)), Ok (2, 0))"
    using seq_call_2 by (simp add: seq_call_def)
  from call_reach[OF r1 nc, where c = "''c''" and need = 3 and now = 0 and clk = "\<lambda>_. 0"] 2 show ?thesis by (simp add: seq_S2_def)
qed

lemma seq_S2_issued: "issued t c (mem_view collSeqConv (sy_db seq_S2)) < 2 ^ 53"
  by (rule issued_bound) (simp_all add: seq_S2_def seq_w_def mem_view_def doc_int_def)

lemma seq_S0_start: "seq_start mr_db seq_S0" "issued t c (mem_view collSeqConv (sy_db seq_S0)) = 0"
  by (simp_all add: seq_start_def seq_S0_def seq_w0_def r_get_def mem_view_def issued_def)

theorem seq_numbers_unique_witness:
  "{2..2 + 3 - 1} \<subseteq> {1..issued ''t'' ''c'' (mem_view collSeqConv (sy_db seq_S2))} \<and> {2..2 + 3 - 1} \<inter> {1..1 + 1 - (1::int)} = {}"
proof -
  have "{2..2 + 3 - 1} \<subseteq> {1..issued ''t'' ''c'' (mem_view collSeqConv (sy_db seq_S2))} \<and>
    (\<forall>k b m. k < length (sy_given seq_S2) \<longrightarrow> k \<noteq> 1 \<longrightarrow> sy_given seq_S2 ! k = (''t'', ''c'', b, m) \<longrightarrow>
      {2..2 + 3 - 1} \<inter> {b..b + m - 1} = {})"
  proof (rule seq_numbers_unique[OF mem_mongo_laws mem_redis_laws _ seq_S0_start(1) _ seq_S2_reach])
    show "al_KeyFn handler_alloc = None" by (simp add: handler_alloc_def)
    show "\<forall>t c. 0 \<le> issued t c (mem_view collSeqConv (sy_db seq_S0))" by (simp add: seq_S0_start(2))
    show "\<forall>t c. issued t c (mem_view collSeqConv (sy_db seq_S2)) < 2 ^ 53" using seq_S2_issued by blast
  qed (simp_all add: no_colon_def seq_S2_def)
  then have "{2..2 + 3 - 1} \<subseteq> {1..issued ''t'' ''c'' (mem_view collSeqConv (sy_db seq_S2))}"
    "0 < length (sy_given seq_S2) \<longrightarrow> (0::nat) \<noteq> 1 \<longrightarrow> sy_given seq_S2 ! 0 = (''t'', ''c'', 1, 1) \<longrightarrow>
      {2..2 + 3 - 1} \<inter> {1..1 + 1 - (1::int)} = {}" by blast+
  then show ?thesis by (simp add: seq_S2_def)
qed

text \<open>
  What C3 excludes does happen to the deployed client, whose options leave the retries of go-redis at their default:
  process 0 reserves 1 to 256 and stores the segment, but the reply is lost; process 1 is given number 1; the client of
  process 0 sends the script again, which sets the segment back to its start.
\<close>

definition lost_job :: mjob where
  "lost_job = malloc_job ''t'' ''c'' 1 0 (\<lambda>_. 0)"

definition seq_two :: "mem_db \<times> mem_rd \<Rightarrow> mphase \<Rightarrow> mphase option \<Rightarrow> (string \<times> string \<times> int \<times> int) list \<Rightarrow> (mem_db, mem_rd) seq_sys" where
  "seq_two w ph0 ph1 g = \<lparr> sy_db = fst w, sy_redis = snd w,
     sy_procs = (\<lambda>_. None)(0 := Some (lost_job, ph0), 1 := map_option (Pair lost_job) ph1), sy_given = g \<rparr>"

definition step_lost :: "mphase \<Rightarrow> mem_db \<times> mem_rd \<Rightarrow> (mem_db \<times> mem_rd) \<times> mphase" where
  "step_lost = malloc_step handler_alloc (DAO_AllocSegment mem_mongo) mem_redis lost_job"

lemma lost_steps:
  "step_lost PFirst seq_w0 = (seq_w0, PAlloc 5 None)"
  "step_lost (PAlloc 5 None) seq_w0 = ((fst (seq_w 0), snd seq_w0), PSet 4 None 1 256)"
  "step_lost (PSet 4 None 1 256) (fst (seq_w 0), snd seq_w0) = (seq_w 0, PIn 4 None 256)"
  "step_lost PFirst (seq_w 0) = (seq_w 1, PDone (Ok (1, 0)))"
  "step_lost (PSet 4 None 1 256) (seq_w 1) = (seq_w 0, PIn 4 None 256)"
  "step_lost (PIn 4 None 256) (seq_w 0) = (seq_w 1, PDone (Ok (1, 0)))"
  by code_simp+

abbreviation lost_reach :: "(mem_db, mem_rd) seq_sys \<Rightarrow> bool" where
  "lost_reach \<equiv> seq_reach True handler_alloc (DAO_AllocSegment mem_mongo) (seq_writer mem_mongo) mem_redis mr_db seq_S0"

lemma lost_proceed0:
  assumes "lost_reach (seq_two w ph b g)" "step_lost ph w = (w', ph')" "\<not> is_done ph"
  shows "lost_reach (seq_two w' ph' b (g @ given_by lost_job ph'))"
  using seq_reach.step[OF assms(1) seq_step.proceed[where p = 0 and j = lost_job and ph = ph and s' = "fst w'" and r' = "snd w'" and ph' = ph']]
    assms(2,3) by (simp add: seq_two_def step_lost_def fun_upd_twist)

lemma lost_proceed1:
  assumes "lost_reach (seq_two w a (Some ph) g)" "step_lost ph w = (w', ph')" "\<not> is_done ph"
  shows "lost_reach (seq_two w' a (Some ph') (g @ given_by lost_job ph'))"
  using seq_reach.step[OF assms(1) seq_step.proceed[where p = 1 and j = lost_job and ph = ph and s' = "fst w'" and r' = "snd w'" and ph' = ph']]
    assms(2,3) by (simp add: seq_two_def step_lost_def)

lemma lost_again0:
  assumes "lost_reach (seq_two w ph b g)" "step_lost ph w = (w', ph')" "may_resend True ph" "fst w' = fst w"
  shows "lost_reach (seq_two w' ph b g)"
  using seq_reach.step[OF assms(1) seq_step.again[where p = 0 and j = lost_job and ph = ph and s' = "fst w'" and r' = "snd w'" and ph' = ph']]
    assms(2-4) by (cases w') (simp add: seq_two_def step_lost_def)

lemma lost_call1: "lost_reach (seq_two w a None g) \<Longrightarrow> lost_reach (seq_two w a (Some PFirst) g)"
  using seq_reach.step[OF _ seq_step.call[where p = 1 and t = "''t''" and c = "''c''" and need = 1 and now = 0 and clk = "\<lambda>_. 0"]]
  by (force simp: seq_two_def lost_job_def no_colon_def)

lemma lost_call0: "lost_reach (seq_two seq_w0 PFirst None [])"
proof -
  have "seq_S0\<lparr> sy_procs := (sy_procs seq_S0)(0 := Some (lost_job, PFirst)) \<rparr> = seq_two seq_w0 PFirst None []"
    by (simp add: seq_two_def seq_S0_def fun_eq_iff)
  then show ?thesis
    using seq_reach.step[OF seq_reach.start seq_step.call[where p = 0 and t = "''t''" and c = "''c''" and need = 1 and now = 0
        and clk = "\<lambda>_. 0" and S = seq_S0]]
    by (simp add: lost_job_def no_colon_def)
qed

lemma lost_run: "lost_reach (seq_two (seq_w 1) (PDone (Ok (1, 0))) (Some (PDone (Ok (1, 0)))) [(''t'', ''c'', 1, 1), (''t'', ''c'', 1, 1)])"
proof -
  have g: "given_by lost_job (PDone (Ok (1, 0))) = [(''t'', ''c'', 1, 1)]" by code_simp
  have n: "given_by lost_job (PAlloc n le) = []" "given_by lost_job (PSet n le a e) = []" "given_by lost_job (PIn n le e) = []"
    for n le a e by (simp_all add: given_by_def)
  from lost_proceed0[OF lost_proceed0[OF lost_call0 lost_steps(1)] lost_steps(2)]
  have "lost_reach (seq_two (fst (seq_w 0), snd seq_w0) (PSet 4 None 1 256) None [])" by (simp add: n)
  from lost_again0[OF this lost_steps(3)] have "lost_reach (seq_two (seq_w 0) (PSet 4 None 1 256) None [])"
    by (simp add: may_resend_def)
  from lost_proceed1[OF lost_call1[OF this] lost_steps(4)]
  have "lost_reach (seq_two (seq_w 1) (PSet 4 None 1 256) (Some (PDone (Ok (1, 0)))) [(''t'', ''c'', 1, 1)])" by (simp add: g)
  from lost_proceed0[OF lost_proceed0[OF this lost_steps(5)] lost_steps(6)] show ?thesis by (simp add: n g)
qed

text \<open>C4: a script that is sent again repeats numbers. The client is built with go-redis's default retries, which send a
  script again when its reply is lost, and \<^verbatim>\<open>luaSetSegment\<close> overwrites the counter it finds. With two processes and
  one lost reply, from empty servers, two calls of \<^verbatim>\<open>Malloc\<close> return the same number of the same conversation.\<close>

theorem resent_script_repeats_numbers:
  "seq_start mr_db seq_S0 \<and>
   (\<exists>S. seq_reach True handler_alloc (DAO_AllocSegment mem_mongo) (seq_writer mem_mongo) mem_redis mr_db seq_S0 S
      \<and> sy_given S = [(''t'', ''c'', 1, 1), (''t'', ''c'', 1, 1)])"
  using seq_S0_start(1) lost_run by (auto simp: seq_two_def)

text \<open>A reservation that succeeds gives exactly the numbers after everything reserved so far, as
  many as asked for (256 for a size that is not positive), without overflow, and changes what is
  reserved of no other conversation.\<close>

theorem alloc_segment_contiguous:
  assumes "mongo_laws M view" "DAO_AllocSegment M now t c b s = (s', Ok (a, e))"
    and "0 \<le> issued t c (view collSeqConv s)"
  shows "a = issued t c (view collSeqConv s) + 1
    \<and> e = issued t c (view collSeqConv s) + (if b \<le> 0 then 256 else b)
    \<and> issued t c (view collSeqConv s') = e \<and> int64 e
    \<and> (\<forall>t' c'. (t', c') \<noteq> (t, c) \<longrightarrow> issued t' c' (view collSeqConv s') = issued t' c' (view collSeqConv s))"
  by (rule alloc_segment_ok[OF assms])

theorem alloc_segment_contiguous_witness:
  "(257::int) = issued ''t'' ''c'' (mem_view collSeqConv (fst (seq_w 4))) + 1 \<and>
   issued ''t'' ''c'' (mem_view collSeqConv (fst (DAO_AllocSegment mem_mongo 0 ''t'' ''c'' 0 (fst (seq_w 4))))) = 512"
proof -
  have r: "DAO_AllocSegment mem_mongo 0 ''t'' ''c'' 0 (fst (seq_w 4)) =
      (fst (DAO_AllocSegment mem_mongo 0 ''t'' ''c'' 0 (fst (seq_w 4))), Ok (257, 512))"
    by code_simp
  have p: "0 \<le> issued ''t'' ''c'' (mem_view collSeqConv (fst (seq_w 4)))" by code_simp
  from alloc_segment_contiguous[OF mem_mongo_laws r p] show ?thesis by blast
qed

text \<open>C25: the marks of a conversation stay in order. Whatever reservations, commits, prunings, floor
  corrections and creations run on \<^verbatim>\<open>seq_conversation\<close>, with numbers that are not negative, in
  every document the lowest number kept is at least 0 and at most the highest number committed:
  \<open>AdvanceMin\<close> never passes \<open>max_seq\<close>.\<close>

theorem seq_marks_in_order:
  assumes "mongo_laws M view" "mark_op M s s'" "\<forall>d \<in> set (view collSeqConv s). marks_ok d"
  shows "\<forall>d \<in> set (view collSeqConv s'). marks_ok d"
  by (rule mark_op_marks[OF assms])

theorem seq_marks_in_order_witness:
  "list_all marks_ok (mem_view collSeqConv (fst (DAO_AdvanceMin mem_mongo 7 ''t'' ''c'' 5 (fst (DAO_AdvanceCommit mem_mongo 3 ''t'' ''c'' 9 [])))))"
proof -
  let ?s1 = "fst (DAO_AdvanceCommit mem_mongo 3 ''t'' ''c'' 9 [])"
  let ?s2 = "fst (DAO_AdvanceMin mem_mongo 7 ''t'' ''c'' 5 ?s1)"
  have m: "mark_op mem_mongo ?s1 ?s2" by (rule mark_op.prune[OF surjective_pairing]) simp
  have "\<forall>d \<in> set (mem_view collSeqConv ?s1). marks_ok d" by code_simp
  from seq_marks_in_order[OF mem_mongo_laws m this] show ?thesis by (simp add: list_all_iff)
qed

end
