(* ===== verification/OnlineProps.thy ===== *)
theory OnlineProps
  imports Online
begin

section \<open>What holds of the online store\<close>

text \<open>
  The effect of the scripts on the keyspace, key by key, and the properties of the methods under the
  documented behaviour of the server.
\<close>

subsection \<open>Commands, key by key\<close>

abbreviation lk :: "string \<Rightarrow> rdb \<Rightarrow> (rval \<times> int option) option" where
  "lk k db \<equiv> map_of (rd_keys db) k"

lemma r_get_lk: "r_get k db = map_option fst (lk k db)"
  by (simp add: r_get_def)

lemma lk_del [simp]: "lk k' (r_del k db) = (if k' = k then None else lk k' db)"
  by (simp add: r_del_def)

lemma lk_put [simp]: "lk k' (r_put k v db) =
    (if k' = k then (if r_empty v then None else Some (v, r_expiry k db)) else lk k' db)"
  by (simp add: r_put_def)

lemma now_put [simp]: "rd_now (r_put k v db) = rd_now db" "rd_now (r_del k db) = rd_now db"
  by (simp_all add: r_put_def r_del_def)

text \<open>The sorted set of a key, or the refusal.\<close>

definition zs :: "string \<Rightarrow> rdb \<Rightarrow> (string, int) gomap go" where
  "zs k db = snd (r_zset k db)"

lemma r_zset_eq: "r_zset k db = (db, zs k db)"
  by (auto simp: zs_def r_zset_def split: option.splits rval.splits)

lemma zs_cong: "r_get k db' = r_get k db \<Longrightarrow> zs k db' = zs k db"
  by (simp add: zs_def r_zset_def split: option.splits rval.splits)

lemma zs_no_panic [simp]: "zs k db \<noteq> Panic e"
  by (auto simp: zs_def r_zset_def split: option.splits rval.splits)

lemma zs_put [simp]: "zs k (r_put k (RZset z) db) = Ok z"
  by (simp add: zs_def r_zset_def r_get_lk r_empty_def)

lemma zs_put_other: "k' \<noteq> k \<Longrightarrow> zs k' (r_put k v db) = zs k' db"
  by (rule zs_cong) (simp add: r_get_lk)

lemma zs_del [simp]: "zs k' (r_del k db) = (if k' = k then Ok [] else zs k' db)"
  by (simp add: zs_def r_zset_def r_get_lk split: option.splits rval.splits)

lemma zcmd: "zs k db = Ok z \<Longrightarrow> rthen (r_zset k) f db = f z db"
  by (simp add: rthen_def r_zset_eq)

lemma zcmd_err: "zs k db = Error e \<Longrightarrow> rthen (r_zset k) f db = (db, Error e)"
  by (simp add: rthen_def r_zset_eq)

lemma rthen_Ok: "c db = (db1, Ok x) \<Longrightarrow> rthen c f db = f x db1"
  by (simp add: rthen_def)

lemma rthen_Error: "c db = (db1, Error e) \<Longrightarrow> rthen c f db = (db1, Error e)"
  by (simp add: rthen_def)

text \<open>The same keys but for those that have expired at some reading of the clock.\<close>

definition only_expired :: "rdb \<Rightarrow> rdb \<Rightarrow> bool" where
  "only_expired db db0 \<longleftrightarrow> (\<exists>t. \<forall>k. lk k db0 = lk k (purge t db))"

lemma early_reading: "\<exists>t. \<forall>(k, v, e) \<in> set ks. case e of Some x \<Rightarrow> t < x | None \<Rightarrow> True" for ks :: "(string \<times> rval \<times> int option) list"
proof (induction ks)
  case (Cons y ks)
  then obtain t where t: "\<forall>(k, v, e) \<in> set ks. case e of Some x \<Rightarrow> t < x | None \<Rightarrow> True" by blast
  obtain k v e where y: "y = (k, v, e)" by (cases y) auto
  have "\<forall>(k, v, e) \<in> set (y # ks). case e of Some x \<Rightarrow> (case snd (snd y) of Some z \<Rightarrow> min t (z - 1) | None \<Rightarrow> t) < x | None \<Rightarrow> True"
    using t unfolding y by (force split: option.splits)
  then show ?case by blast
qed simp

lemma only_expired_refl [simp]: "only_expired db db"
proof -
  obtain t where t: "\<forall>(k, v, e) \<in> set (rd_keys db). case e of Some x \<Rightarrow> t < x | None \<Rightarrow> True" using early_reading by blast
  have "r_alive t (lk k db)" for k
    using t by (fastforce simp: r_alive_def dest: map_of_SomeD split: option.splits)
  then show ?thesis unfolding only_expired_def by (intro exI[of _ t]) simp
qed

lemma only_expired_cong: "(\<And>k. lk k db' = lk k db1) \<Longrightarrow> only_expired db db1 \<Longrightarrow> only_expired db db'"
  by (simp add: only_expired_def)

lemma only_expired_none: "only_expired db db0 \<Longrightarrow> lk k db = None \<Longrightarrow> lk k db0 = None"
  by (auto simp: only_expired_def)

lemma only_expired_purge: "only_expired db db0 \<Longrightarrow> only_expired db (purge t db0)"
proof -
  assume "only_expired db db0"
  then obtain t0 where t0: "\<forall>k. lk k db0 = lk k (purge t0 db)" unfolding only_expired_def by blast
  have "lk k (purge t db0) = lk k (purge (max t t0) db)" for k
    using t0[rule_format, of k] by (cases "lk k db") (auto simp: r_alive_def split: option.splits)
  then show ?thesis unfolding only_expired_def by blast
qed

subsection \<open>Sweeping a set\<close>

lemma clean_loop:
  assumes "zs z db = Ok m" "z \<notin> set vs"
  shows "\<exists>db'. rfor vs (\<lambda>v. rthen (ZREM z v) (\<lambda>_. DEL v)) db = (db', Ok ())
    \<and> zs z db' = Ok (filter (\<lambda>(k, s). k \<notin> set vs) m) \<and> rd_now db' = rd_now db
    \<and> (\<forall>k. k \<noteq> z \<longrightarrow> lk k db' = (if k \<in> set vs then None else lk k db))"
  using assms
proof (induction vs arbitrary: db m)
  case Nil
  then show ?case by (simp add: rret_def)
next
  case (Cons v vs)
  let ?d = "r_put z (RZset (AList.delete v m)) db"
  let ?d1 = "r_del v ?d"
  have s: "rthen (ZREM z v) (\<lambda>_. DEL v) db = (?d1, Ok (if r_get v ?d = None then 0 else 1))"
    using Cons.prems by (simp add: rthen_def ZREM_def r_zset_eq DEL_def)
  have z1: "zs z ?d1 = Ok (AList.delete v m)" using Cons.prems(2) by simp
  from Cons.prems(2) have "z \<notin> set vs" by simp
  from Cons.IH[OF z1 this] obtain db' where
    d: "rfor vs (\<lambda>v. rthen (ZREM z v) (\<lambda>_. DEL v)) ?d1 = (db', Ok ())"
    "zs z db' = Ok (filter (\<lambda>(k, s). k \<notin> set vs) (AList.delete v m))" "rd_now db' = rd_now ?d1"
    "\<forall>k. k \<noteq> z \<longrightarrow> lk k db' = (if k \<in> set vs then None else lk k ?d1)" by blast
  have f: "filter (\<lambda>(k, s). k \<notin> set vs) (AList.delete v m) = filter (\<lambda>(k, s). k \<notin> set (v # vs)) m"
    by (auto simp: AList.delete_eq intro: filter_cong)
  have l: "lk k db' = (if k \<in> set (v # vs) then None else lk k db)" if "k \<noteq> z" for k
    using d(4) that by simp
  have "rfor (v # vs) (\<lambda>v. rthen (ZREM z v) (\<lambda>_. DEL v)) db = (db', Ok ())"
    using d(1) by (simp add: rthen_Ok[where c = "rthen (ZREM z v) (\<lambda>_. DEL v)", OF s])
  with d(2,3) f l show ?case by (intro exI[of _ db']) simp
qed

lemma clean_filter:
  assumes "gm_ok m"
  shows "filter (\<lambda>(k, s). k \<notin> set (map fst (filter (\<lambda>(m, s). s \<le> now) (z_sorted m)))) m = filter (\<lambda>(k, s). now < s) m"
proof (rule filter_cong[OF refl])
  fix x assume x: "x \<in> set m"
  obtain k s where ks: "x = (k, s)" by (cases x)
  have "(k \<in> fst ` set (filter (\<lambda>(m, s). s \<le> now) (z_sorted m))) = (s \<le> now)"
    using assms x by (force simp: ks z_sorted_def gm_in_set image_iff)
  then show "(case x of (k, s) \<Rightarrow> k \<notin> set (map fst (filter (\<lambda>(m, s). s \<le> now) (z_sorted m)))) = (case x of (k, s) \<Rightarrow> now < s)"
    by (auto simp: ks)
qed

lemma lua_clean_run:
  assumes "zs z db = Ok m" "gm_ok m" "z \<notin> fst ` set m"
  shows "\<exists>db'. lua_clean z now db = (db', Ok (map fst (filter (\<lambda>(m, s). s \<le> now) (z_sorted m))))
    \<and> zs z db' = Ok (filter (\<lambda>(k, s). now < s) m) \<and> rd_now db' = rd_now db
    \<and> (\<forall>k. k \<noteq> z \<longrightarrow> lk k db' = (case map_of m k of Some s \<Rightarrow> if s \<le> now then None else lk k db | None \<Rightarrow> lk k db))"
proof -
  let ?vs = "map fst (filter (\<lambda>(m, s). s \<le> now) (z_sorted m))"
  have "z \<notin> set ?vs" using assms(3) by (auto simp: z_sorted_def image_iff)
  from clean_loop[OF assms(1) this] obtain db' where
    d: "rfor ?vs (\<lambda>v. rthen (ZREM z v) (\<lambda>_. DEL v)) db = (db', Ok ())"
    "zs z db' = Ok (filter (\<lambda>(k, s). k \<notin> set ?vs) m)" "rd_now db' = rd_now db"
    "\<forall>k. k \<noteq> z \<longrightarrow> lk k db' = (if k \<in> set ?vs then None else lk k db)" by blast
  have v: "k \<in> set ?vs \<longleftrightarrow> (\<exists>s. map_of m k = Some s \<and> s \<le> now)" for k
    using assms(2) by (force simp: z_sorted_def gm_in_set image_iff)
  have "ZRANGE_upto z now db = (db, Ok ?vs)"
    by (simp add: ZRANGE_upto_def zcmd[OF assms(1)] rret_def)
  with d(1) have "lua_clean z now db = (db', Ok ?vs)"
    by (simp add: lua_clean_def rthen_def rret_def)
  moreover have "lk k db' = (case map_of m k of Some s \<Rightarrow> if s \<le> now then None else lk k db | None \<Rightarrow> lk k db)" if "k \<noteq> z" for k
    using d(4) that v[of k] by (auto split: option.splits)
  ultimately show ?thesis using d(2,3) by (intro exI[of _ db']) (simp only: clean_filter[OF assms(2)], simp)
qed

lemma lua_keep_run:
  assumes "zs z db = Ok m"
  shows "\<exists>db'. lua_keep z db = (db', Ok ()) \<and> (\<forall>k. r_get k db' = r_get k db) \<and> (\<forall>k. k \<noteq> z \<longrightarrow> lk k db' = lk k db)
    \<and> rd_now db' = rd_now db"
proof -
  have "ZCARD z db = (db, Ok (int (length m)))" by (simp add: ZCARD_def zcmd[OF assms] rret_def)
  moreover have "\<exists>db'. rvoid (EXPIRE z 3600) db = (db', Ok ()) \<and> (\<forall>k. r_get k db' = r_get k db)
      \<and> (\<forall>k. k \<noteq> z \<longrightarrow> lk k db' = lk k db) \<and> rd_now db' = rd_now db"
    by (cases "lk z db") (auto simp: rvoid_def rthen_def rret_def EXPIRE_def PEXPIRE_def PEXPIREAT_def r_get_lk)
  ultimately show ?thesis by (auto simp: lua_keep_def rthen_def rret_def)
qed

subsection \<open>The three queries\<close>

lemma sorted_from:
  "gm_ok m \<Longrightarrow> set (map fst (filter (\<lambda>(k, s). lo \<le> s) (z_sorted m))) = {k. \<exists>s. map_of m k = Some s \<and> lo \<le> s}"
  by (force simp: z_sorted_def gm_in_set image_iff)

lemma sorted_filter_length: "length (filter P (z_sorted m)) = length (filter P m)"
  by (metis mset_filter mset_sort size_mset z_sorted_def)

lemma r_zset_id [simp]: "r_zset k db = (db1, x) \<longleftrightarrow> db1 = db \<and> x = zs k db"
  by (auto simp: r_zset_eq)

lemma map_of_filter_val:
  "gm_ok m \<Longrightarrow> map_of (filter (\<lambda>(k, s). P s) m) k =
    (case map_of m k of Some s \<Rightarrow> if P s then Some s else None | None \<Rightarrow> None)"
proof (induction m)
  case (Cons x m)
  then have "gm_ok m" "map_of m (fst x) = None" by (simp_all add: gm_ok_def map_of_eq_None_iff)
  with Cons.IH show ?case by (cases x) auto
qed simp

lemma queries_run:
  assumes "zs z db = Ok m" "gm_ok m" "z \<notin> fst ` set m"
  shows "\<exists>db' ms. luaGetActiveAndSweep z now db = (db', Ok (LArr (map LStr ms)))
    \<and> luaIsOnline z now db = (db', Ok (if ms = [] then LArr [LInt 0, LInt 0] else LArr [LInt 1, LInt (int (length ms))]))
    \<and> luaGetNewestActive z now db = (db', Ok (LStr (if ms = [] then '''' else last ms)))
    \<and> set ms = {k. \<exists>s. map_of m k = Some s \<and> now < s} \<and> zs z db' = Ok (filter (\<lambda>(k, s). now < s) m)"
proof -
  let ?m = "filter (\<lambda>(k, s). now < s) m"
  let ?ms = "map fst (filter (\<lambda>(k, s). now + 1 \<le> s) (z_sorted ?m))"
  from lua_clean_run[OF assms] obtain db1 where
    c: "lua_clean z now db = (db1, Ok (map fst (filter (\<lambda>(m, s). s \<le> now) (z_sorted m))))" and z1: "zs z db1 = Ok ?m"
    by blast
  from lua_keep_run[OF z1] obtain db' where k: "lua_keep z db1 = (db', Ok ())" and g: "\<forall>k. r_get k db' = r_get k db1"
    by blast
  have z': "zs z db' = Ok ?m" using zs_cong[of z db' db1] g z1 by simp
  have f: "ZRANGE_from z (now + 1) db1 = (db1, Ok ?ms)"
    by (simp add: ZRANGE_from_def zcmd[OF z1] rret_def)
  have n: "ZCOUNT_from z (now + 1) db1 = (db1, Ok (int (length ?ms)))"
    by (simp add: ZCOUNT_from_def zcmd[OF z1] rret_def sorted_filter_length)
  have v: "ZREVRANGE_from z (now + 1) 1 db1 = (db1, Ok (take 1 (rev ?ms)))"
    by (simp add: ZREVRANGE_from_def rthen_def f rret_def del: take_Suc)
  have t: "(case take 1 (rev xs) of [] \<Rightarrow> '''' | i # _ \<Rightarrow> i) = (if xs = [] then '''' else last xs)" for xs :: "string list"
    by (cases xs rule: rev_cases) auto
  have ok: "gm_ok ?m" using assms(2) by (auto simp: gm_ok_def distinct_map_filter)
  have "map_of ?m k = (case map_of m k of Some s \<Rightarrow> if now < s then Some s else None | None \<Rightarrow> None)" for k
    by (rule map_of_filter_val[OF assms(2)])
  then have s: "set ?ms = {k. \<exists>s. map_of m k = Some s \<and> now < s}"
    using sorted_from[OF ok, of "now + 1"] by (auto split: option.splits if_splits)
  show ?thesis
  proof (intro exI[of _ db'] exI[of _ ?ms] conjI s z')
    show "luaGetActiveAndSweep z now db = (db', Ok (LArr (map LStr ?ms)))"
      by (simp add: luaGetActiveAndSweep_def rthen_def c f k rret_def)
    show "luaIsOnline z now db = (db', Ok (if ?ms = [] then LArr [LInt 0, LInt 0] else LArr [LInt 1, LInt (int (length ?ms))]))"
      by (simp add: luaIsOnline_def rthen_def c n k rret_def)
    show "luaGetNewestActive z now db = (db', Ok (LStr (if ?ms = [] then '''' else last ?ms)))"
      unfolding luaGetNewestActive_def rthen_Ok[where c = "lua_clean z now", OF c]
        rthen_Ok[where c = "ZREVRANGE_from z (now + 1) 1", OF v] rthen_Ok[where c = "lua_keep z", OF k] rret_def t ..
  qed
qed

subsection \<open>Logging in\<close>

lemma EXPIRE_pos:
  assumes "0 < s"
  shows "\<exists>db' n. EXPIRE k s db = (db', Ok n) \<and> (\<forall>k'. r_get k' db' = r_get k' db)
    \<and> (\<forall>k'. k' \<noteq> k \<longrightarrow> lk k' db' = lk k' db)
    \<and> (lk k db \<noteq> None \<longrightarrow> r_expiry k db' = Some (rd_now db + s * 1000)) \<and> rd_now db' = rd_now db"
  using assms
  by (cases "lk k db") (auto simp: EXPIRE_def PEXPIRE_def PEXPIREAT_def r_get_lk r_expiry_def)

lemma rvoid_Ok: "c db = (db', Ok x) \<Longrightarrow> rvoid c db = (db', Ok ())"
  by (simp add: rvoid_def rthen_def rret_def)

text \<open>Storing the session key: with an instant, which may be past, or with a time to live.\<close>

lemma store_session:
  assumes "1 \<le> ttl"
  shows "\<exists>db'. (if ex = 1 then rthen (SET_cmd k ''1'') (\<lambda>_. rvoid (PEXPIREAT k (expAt * 1000))) else SET_EX k ''1'' ttl) db
      = (db', Ok ()) \<and> (\<forall>k'. k' \<noteq> k \<longrightarrow> lk k' db' = lk k' db) \<and> rd_now db' = rd_now db
    \<and> (ex = 1 \<longrightarrow> rd_now db < expAt * 1000 \<longrightarrow> lk k db' = Some (RStr ''1'', Some (expAt * 1000)))
    \<and> (ex \<noteq> 1 \<longrightarrow> lk k db' = Some (RStr ''1'', Some (rd_now db + ttl * 1000)))"
  using assms
  by (auto simp: rthen_def SET_cmd_def SET_EX_def SET_PX_def rvoid_def rret_def PEXPIREAT_def r_del_def)

lemma bind_run:
  assumes run: "luaBindUser zU zV kU kA ttl now expAt ex db = (db', Ok (LInt 1))"
    and d: "kU \<noteq> kA" "zU \<noteq> kU" "zU \<noteq> kA" "zV \<noteq> kU" "zV \<noteq> kA" "zU \<noteq> zV" and ttl: "1 \<le> ttl"
  shows "lk kA db = None \<and> lk kU db \<noteq> None \<and> lk kU db' = None
    \<and> (ex = 1 \<longrightarrow> rd_now db < expAt * 1000 \<longrightarrow> lk kA db' = Some (RStr ''1'', Some (expAt * 1000)))
    \<and> (ex \<noteq> 1 \<longrightarrow> lk kA db' = Some (RStr ''1'', Some (rd_now db + ttl * 1000)))
    \<and> (\<exists>zv. zs zV db = Ok zv \<and> zs zV db' = Ok (AList.update kA expAt zv)) \<and> r_expiry zV db' = Some (rd_now db + ttl * 2000)
    \<and> (\<exists>zu. zs zU db = Ok zu \<and> zs zU db' = Ok (AList.delete kU zu))
    \<and> (\<forall>k. k \<notin> {zU, zV, kU, kA} \<longrightarrow> lk k db' = lk k db) \<and> rd_now db' = rd_now db"
proof -
  have A: "r_get kA db = None" using run
    by (cases "r_get kA db") (simp_all add: luaBindUser_def rthen_def EXISTS_def rret_def)
  have U: "r_get kU db \<noteq> None"
  proof
    assume "r_get kU db = None"
    with run A show False
      by (cases "zs zU db") (simp_all add: luaBindUser_def rthen_def EXISTS_def rret_def ZREM_def r_zset_eq)
  qed
  obtain zu where zu: "zs zU db = Ok zu"
  proof (cases "zs zU db")
    case (Error e)
    with run A U show thesis by (simp add: luaBindUser_def rthen_def EXISTS_def rret_def ZREM_def r_zset_eq)
  qed simp_all
  let ?d1 = "r_put zU (RZset (AList.delete kU zu)) db"
  let ?d2 = "r_del kU ?d1"
  have z1: "ZREM zU kU db = (?d1, Ok ())" by (simp add: ZREM_def zcmd[OF zu])
  obtain x where x: "DEL kU ?d1 = (?d2, Ok x)" by (simp add: DEL_def)
  from store_session[OF ttl, of ex kA expAt ?d2] obtain d3 where
    s: "(if ex = 1 then rthen (SET_cmd kA ''1'') (\<lambda>_. rvoid (PEXPIREAT kA (expAt * 1000))) else SET_EX kA ''1'' ttl) ?d2 = (d3, Ok ())"
    and s1: "\<forall>k'. k' \<noteq> kA \<longrightarrow> lk k' d3 = lk k' ?d2" and s2: "rd_now d3 = rd_now ?d2"
    and s3: "ex = 1 \<longrightarrow> rd_now ?d2 < expAt * 1000 \<longrightarrow> lk kA d3 = Some (RStr ''1'', Some (expAt * 1000))"
    and s4: "ex \<noteq> 1 \<longrightarrow> lk kA d3 = Some (RStr ''1'', Some (rd_now ?d2 + ttl * 1000))" by blast
  have r: "luaBindUser zU zV kU kA ttl now expAt ex db =
      rthen (ZADD zV expAt kA) (\<lambda>_. rthen (EXPIRE zV (ttl * 2)) (\<lambda>_. rret (LInt 1))) d3"
  proof -
    have EA: "EXISTS kA db = (db, Ok 0)" and EU: "EXISTS kU db = (db, Ok 1)" using A U by (simp_all add: EXISTS_def)
    show ?thesis
      unfolding luaBindUser_def rthen_Ok[where c = "EXISTS kA", OF EA] rthen_Ok[where c = "EXISTS kU", OF EU]
        if_not_P[OF zero_neq_one] if_not_P[OF one_neq_zero] rthen_Ok[where c = "ZREM zU kU", OF z1]
        rthen_Ok[where c = "DEL kU", OF x]
        rthen_Ok[where c = "if ex = 1 then rthen (SET_cmd kA ''1'') (\<lambda>_. rvoid (PEXPIREAT kA (expAt * 1000))) else SET_EX kA ''1'' ttl", OF s] ..
  qed
  obtain zv where zv: "zs zV d3 = Ok zv"
  proof (cases "zs zV d3")
    case (Error e)
    with run r show thesis by (simp add: ZADD_def rthen_def r_zset_eq)
  qed simp_all
  let ?d4 = "r_put zV (RZset (AList.update kA expAt zv)) d3"
  from EXPIRE_pos[of "ttl * 2" zV ?d4] ttl obtain d5 n where
    e: "EXPIRE zV (ttl * 2) ?d4 = (d5, Ok n)" "\<forall>k'. r_get k' d5 = r_get k' ?d4" "\<forall>k'. k' \<noteq> zV \<longrightarrow> lk k' d5 = lk k' ?d4"
    and n5: "rd_now d5 = rd_now ?d4" and x5: "lk zV ?d4 \<noteq> None \<longrightarrow> r_expiry zV d5 = Some (rd_now ?d4 + ttl * 2 * 1000)"
    by auto
  have "lk zV ?d4 \<noteq> None" by (simp add: r_empty_def update_nonempty)
  with x5 s2 have x: "r_expiry zV d5 = Some (rd_now db + ttl * 2000)" by simp
  have "lk zV d3 = lk zV db" using s1 d by simp
  then have "zs zV d3 = zs zV db" by (intro zs_cong) (simp only: r_get_lk)
  with zv have zv0: "zs zV db = Ok zv" by simp
  have "db' = d5" using run r e(1) by (simp add: ZADD_def rthen_def r_zset_eq zv rret_def)
  moreover have "zs zV d5 = Ok (AList.update kA expAt zv)" using zs_cong[of zV d5 ?d4] e(2) by simp
  moreover have "zs zU d5 = Ok (AList.delete kU zu)"
  proof -
    have "lk zU d5 = lk zU ?d1" using e(3) s1 d by simp
    then have "zs zU d5 = zs zU ?d1" by (intro zs_cong) (simp only: r_get_lk)
    then show ?thesis by simp
  qed
  ultimately show ?thesis using A U d e(3) s1 s2 s3 s4 n5 zu zv0 x by (auto simp: r_get_lk)
qed

text \<open>
  A run of the script either leaves the keys alone or leaves no key of the first stage. So when the script runs
  several times for one call and the last run succeeds, the earlier ones did nothing.
\<close>

lemma bind_once:
  assumes d: "kU \<noteq> kA" "zU \<noteq> kU" "zV \<noteq> kU" and ttl: "1 \<le> ttl"
  shows "fst (luaBindUser zU zV kU kA ttl now expAt ex db) = db \<or> lk kU (fst (luaBindUser zU zV kU kA ttl now expAt ex db)) = None"
proof (cases "r_get kA db = None \<and> (\<exists>zu. zs zU db = Ok zu)")
  case False
  then show ?thesis
    by (cases "zs zU db") (auto simp: luaBindUser_def rthen_def EXISTS_def rret_def ZREM_def r_zset_eq)
next
  case True
  then obtain zu where zu: "zs zU db = Ok zu" and A: "r_get kA db = None" by blast
  let ?d1 = "r_put zU (RZset (AList.delete kU zu)) db"
  have EA: "EXISTS kA db = (db, Ok 0)" using A by (simp add: EXISTS_def)
  have z1: "ZREM zU kU db = (?d1, Ok ())" by (simp add: ZREM_def zcmd[OF zu])
  show ?thesis
  proof (cases "r_get kU db = None")
    case U: True
    then have EU: "EXISTS kU db = (db, Ok 0)" by (simp add: EXISTS_def)
    have "lk kU ?d1 = None" using U d by (simp add: r_get_lk)
    then show ?thesis
      unfolding luaBindUser_def rthen_Ok[where c = "EXISTS kA", OF EA] if_not_P[OF zero_neq_one]
        rthen_Ok[where c = "EXISTS kU", OF EU] if_P[OF refl] rthen_Ok[where c = "ZREM zU kU", OF z1] by (simp add: rret_def)
  next
    case U: False
    then have EU: "EXISTS kU db = (db, Ok 1)" by (simp add: EXISTS_def)
    let ?d2 = "r_del kU ?d1"
    obtain x where x: "DEL kU ?d1 = (?d2, Ok x)" by (simp add: DEL_def)
    from store_session[OF ttl, of ex kA expAt ?d2] obtain d3 where
      s: "(if ex = 1 then rthen (SET_cmd kA ''1'') (\<lambda>_. rvoid (PEXPIREAT kA (expAt * 1000))) else SET_EX kA ''1'' ttl) ?d2 = (d3, Ok ())"
      and s1: "\<forall>k'. k' \<noteq> kA \<longrightarrow> lk k' d3 = lk k' ?d2" by blast
    from s1 d have "lk kU d3 = None" by simp
    moreover have "r_get kU (fst (rthen (ZADD zV expAt kA) (\<lambda>_. rthen (EXPIRE zV (ttl * 2)) (\<lambda>_. rret (LInt 1))) d3)) = r_get kU d3"
    proof (cases "zs zV d3")
      case (Ok zv)
      have "ZADD zV expAt kA d3 = (r_put zV (RZset (AList.update kA expAt zv)) d3, Ok ())"
        by (simp add: ZADD_def zcmd[OF Ok])
      moreover from EXPIRE_pos[of "ttl * 2" zV "r_put zV (RZset (AList.update kA expAt zv)) d3"] ttl obtain d5 n where
        "EXPIRE zV (ttl * 2) (r_put zV (RZset (AList.update kA expAt zv)) d3) = (d5, Ok n)"
        "\<forall>k'. r_get k' d5 = r_get k' (r_put zV (RZset (AList.update kA expAt zv)) d3)" by auto
      ultimately show ?thesis using d by (simp add: rthen_def rret_def r_get_lk)
    qed (simp_all add: ZADD_def rthen_def r_zset_eq)
    ultimately show ?thesis
      unfolding luaBindUser_def rthen_Ok[where c = "EXISTS kA", OF EA] rthen_Ok[where c = "EXISTS kU", OF EU]
        if_not_P[OF zero_neq_one] if_not_P[OF one_neq_zero] rthen_Ok[where c = "ZREM zU kU", OF z1]
        rthen_Ok[where c = "DEL kU", OF x]
        rthen_Ok[where c = "if ex = 1 then rthen (SET_cmd kA ''1'') (\<lambda>_. rvoid (PEXPIREAT kA (expAt * 1000))) else SET_EX kA ''1'' ttl", OF s]
      by (simp add: r_get_lk)
  qed
qed

lemma bind_sent:
  "sent_before (luaBindUser zU zV kU kA ttl now expAt ex) db db1 \<Longrightarrow> kU \<noteq> kA \<Longrightarrow> zU \<noteq> kU \<Longrightarrow> zV \<noteq> kU \<Longrightarrow> 1 \<le> ttl \<Longrightarrow>
   only_expired db db1 \<or> lk kU db1 = None"
proof (induction rule: sent_before.induct)
  case not_sent
  show ?case by (simp add: only_expired_def)
next
  case (sent db1 t)
  from sent.IH[OF sent.prems] have "only_expired db (purge t db1) \<or> lk kU (purge t db1) = None"
    using only_expired_purge[of db db1 t] by auto
  with bind_once[OF sent.prems, of now expAt ex "purge t db1"] show ?case by auto
qed

text \<open>The four keys of a session are different.\<close>

lemma session_keys_differ:
  "unauthSessionKey m s \<noteq> sessionKey m u s" "unauthIndexKey m \<noteq> unauthSessionKey m s"
  "unauthIndexKey m \<noteq> sessionKey m u s" "userIndexKey m u \<noteq> unauthSessionKey m s"
  "userIndexKey m u \<noteq> sessionKey m u s" "unauthIndexKey m \<noteq> userIndexKey m u"
  by (auto simp: unauthSessionKey_def sessionKey_def unauthIndexKey_def userIndexKey_def)

subsection \<open>Heartbeats\<close>

lemma hb_missing:
  "r_get kConn db = None \<Longrightarrow> luaHeartbeatAuth zU kConn ttl now expAt ex mem zt rf cl db = (db, Ok (LInt 0))"
  by (simp add: luaHeartbeatAuth_def rthen_def EXISTS_def rret_def)

lemma hb_sent_missing:
  "sent_before (luaHeartbeatAuth zU kConn ttl now expAt ex mem zt rf cl) db db1 \<Longrightarrow> lk kConn db = None \<Longrightarrow> lk kConn db1 = None"
proof (induction rule: sent_before.induct)
  case (sent db1 t)
  then have "r_get kConn (purge t db1) = None" by (simp add: r_get_lk)
  from hb_missing[OF this] sent show ?case by simp
qed

lemma hb_run:
  assumes run: "luaHeartbeatAuth zU kC ttl now expAt ex mem zt 1 1 db = (db', Ok (LInt 1))"
    and d: "zU \<noteq> kC" and ttl: "1 \<le> ttl" "0 < zt"
  shows "rd_now db' = rd_now db \<and> r_expiry zU db' = Some (rd_now db + zt * 1000)
    \<and> (if ex = 1 then rd_now db < expAt * 1000 \<longrightarrow> (\<exists>v. lk kC db' = Some (v, Some (expAt * 1000)))
       else (\<exists>v. lk kC db' = Some (v, Some (rd_now db + ttl * 1000))))"
proof -
  have K: "r_get kC db \<noteq> None" using run hb_missing[of kC db] by fastforce
  then obtain v e where k: "lk kC db = Some (v, e)" by (auto simp: r_get_lk)
  let ?c = "if ex = 1 then EXPIREAT kC expAt else EXPIRE kC ttl"
  have "\<exists>d1 x. ?c db = (d1, Ok x) \<and> rd_now d1 = rd_now db
    \<and> (if ex = 1 then rd_now db < expAt * 1000 \<longrightarrow> lk kC d1 = Some (v, Some (expAt * 1000))
       else lk kC d1 = Some (v, Some (rd_now db + ttl * 1000)))"
    using k ttl by (auto simp: EXPIREAT_def EXPIRE_def PEXPIRE_def PEXPIREAT_def r_del_def)
  then obtain d1 x where c: "?c db = (d1, Ok x)" and n1: "rd_now d1 = rd_now db"
    and l1: "if ex = 1 then rd_now db < expAt * 1000 \<longrightarrow> lk kC d1 = Some (v, Some (expAt * 1000))
       else lk kC d1 = Some (v, Some (rd_now db + ttl * 1000))" by blast
  have EC: "EXISTS kC db = (db, Ok 1)" using K by (simp add: EXISTS_def)
  have r: "luaHeartbeatAuth zU kC ttl now expAt ex mem zt 1 1 db =
     rthen (ZREMRANGE_upto zU now) (\<lambda>_. rthen (ZADD zU expAt mem) (\<lambda>_.
       rthen (rvoid (EXPIRE zU zt)) (\<lambda>_. rret (LInt 1)))) d1"
    unfolding luaHeartbeatAuth_def rthen_Ok[where c = "EXISTS kC", OF EC] if_not_P[OF one_neq_zero]
      rthen_Ok[where c = "if ex = 1 then EXPIREAT kC expAt else EXPIRE kC ttl", OF c]
    using ttl by simp
  obtain z where z: "zs zU d1 = Ok z"
  proof (cases "zs zU d1")
    case (Error e)
    with run r show thesis by (simp add: ZREMRANGE_upto_def rthen_def r_zset_eq)
  qed simp_all
  let ?z2 = "filter (\<lambda>(m, s). \<not> s \<le> now) z"
  let ?d2 = "r_put zU (RZset ?z2) d1"
  let ?d3 = "r_put zU (RZset (AList.update mem expAt ?z2)) ?d2"
  from EXPIRE_pos[OF ttl(2), of zU ?d3] obtain d4 n where
    e: "EXPIRE zU zt ?d3 = (d4, Ok n)" "\<forall>k'. k' \<noteq> zU \<longrightarrow> lk k' d4 = lk k' ?d3"
      "lk zU ?d3 \<noteq> None \<longrightarrow> r_expiry zU d4 = Some (rd_now ?d3 + zt * 1000)" "rd_now d4 = rd_now ?d3" by blast
  have b: "ZREMRANGE_upto zU now d1 = (?d2, Ok ())" by (simp add: ZREMRANGE_upto_def zcmd[OF z])
  have zz: "zs zU ?d2 = Ok ?z2" by simp
  have a: "ZADD zU expAt mem ?d2 = (?d3, Ok ())" unfolding ZADD_def zcmd[OF zz] ..
  have "db' = d4" using run
    unfolding r rthen_Ok[where c = "ZREMRANGE_upto zU now", OF b] rthen_Ok[where c = "ZADD zU expAt mem", OF a]
      rthen_Ok[where c = "rvoid (EXPIRE zU zt)", OF rvoid_Ok[where c = "EXPIRE zU zt", OF e(1)]] rret_def by simp
  moreover have "lk zU ?d3 \<noteq> None" by (simp add: r_empty_def update_nonempty)
  ultimately show ?thesis using e(2,3,4) l1 n1 d by (auto split: if_splits)
qed

lemma reply_Int64_Ok: "reply_Int64 x = Ok i \<Longrightarrow> x = Ok (LInt i)"
  by (auto simp: reply_Int64_def split: go.splits rreply.splits)

subsection \<open>Logging out\<close>

lemma del_loop:
  "\<exists>db'. rfor ks DEL db = (db', Ok ()) \<and> rd_now db' = rd_now db \<and> (\<forall>k. lk k db' = (if k \<in> set ks then None else lk k db))"
proof (induction ks arbitrary: db)
  case (Cons k ks)
  from Cons.IH[of "r_del k db"] obtain db' where d: "rfor ks DEL (r_del k db) = (db', Ok ())"
    "rd_now db' = rd_now db" "\<forall>x. lk x db' = (if x \<in> set ks then None else lk x (r_del k db))" by auto
  then have "rfor (k # ks) DEL db = (db', Ok ())" by (simp add: rthen_def DEL_def)
  with d(2,3) show ?case by (intro exI[of _ db']) simp
qed (simp add: rret_def)

lemma logout_run:
  assumes "zs z db = Ok m"
  shows "\<exists>db'. luaLogoutAll z db = (db', Ok (LArr (map LStr (map fst (z_sorted m)))))
    \<and> (\<forall>k. lk k db' = (if k = z \<or> k \<in> fst ` set m then None else lk k db))"
proof -
  let ?ks = "map fst (z_sorted m)"
  from del_loop[of ?ks db] obtain d1 where d: "rfor ?ks DEL db = (d1, Ok ())" "rd_now d1 = rd_now db"
    "\<forall>k. lk k d1 = (if k \<in> set ?ks then None else lk k db)" by blast
  have a: "ZRANGE_all z db = (db, Ok ?ks)" by (simp add: ZRANGE_all_def zcmd[OF assms] rret_def)
  have "luaLogoutAll z db = (r_del z d1, Ok (LArr (map LStr ?ks)))"
    unfolding luaLogoutAll_def rthen_Ok[where c = "ZRANGE_all z", OF a] rthen_Ok[where c = "rfor ?ks DEL", OF d(1)]
    by (simp add: rthen_def DEL_def rret_def)
  with d show ?thesis by (auto simp: z_sorted_def)
qed

lemma logout_refused: "zs z db = Error e \<Longrightarrow> luaLogoutAll z db = (db, Error e)"
  by (simp add: luaLogoutAll_def ZRANGE_all_def rthen_def r_zset_eq)

text \<open>
  Logged out: the index \<open>i\<close> and its members \<open>z\<close> are gone, and nothing else but keys that expired, before or since.
\<close>

definition logged_out :: "string \<Rightarrow> rdb \<Rightarrow> rdb \<Rightarrow> (string, int) gomap \<Rightarrow> bool" where
  "logged_out i db db' z \<longleftrightarrow> (\<exists>db0 db1. only_expired db db0 \<and> zs i db0 = Ok z
     \<and> (\<forall>k. lk k db1 = (if k = i \<or> k \<in> fst ` set z then None else lk k db0)) \<and> only_expired db1 db')"

lemma logged_out_purge: "logged_out i db db1 z \<Longrightarrow> logged_out i db (purge t db1) z"
  unfolding logged_out_def using only_expired_purge by blast

lemma logout_first:
  assumes "only_expired db db0" "luaLogoutAll i db0 = (db', Ok v)"
  shows "\<exists>z. logged_out i db db' z \<and> v = LArr (map LStr (map fst (z_sorted z)))"
proof -
  obtain z where z: "zs i db0 = Ok z" using assms(2) by (cases "zs i db0") (auto dest: logout_refused)
  from logout_run[OF z] assms(2) have "v = LArr (map LStr (map fst (z_sorted z)))"
    "\<forall>k. lk k db' = (if k = i \<or> k \<in> fst ` set z then None else lk k db0)" by auto
  then show ?thesis unfolding logged_out_def using assms(1) z by (intro exI[of _ z] conjI exI[of _ db0] exI[of _ db']) simp_all
qed

text \<open>A second run finds no index: it removes nothing and answers with no member.\<close>

lemma logout_again:
  assumes "logged_out i db db1 z" "luaLogoutAll i db1 = (db', x)"
  shows "logged_out i db db' z \<and> x = Ok (LArr [])"
proof -
  from assms(1) obtain db0 d where d: "only_expired db db0" "zs i db0 = Ok z"
    "\<forall>k. lk k d = (if k = i \<or> k \<in> fst ` set z then None else lk k db0)" "only_expired d db1" unfolding logged_out_def by blast
  then have "lk i db1 = None" by (intro only_expired_none[OF d(4)]) simp
  then have n: "zs i db1 = Ok []" by (simp add: zs_def r_zset_def r_get_lk)
  from logout_run[OF n] assms(2) \<open>lk i db1 = None\<close> have "x = Ok (LArr [])" "\<And>k. lk k db' = lk k db1" by (auto simp: z_sorted_def)
  with only_expired_cong[OF this(2) d(4)] d(1-3) show ?thesis unfolding logged_out_def by blast
qed

lemma logout_sent:
  "sent_before (luaLogoutAll i) db db1 \<Longrightarrow> only_expired db db1 \<or> (\<exists>z. logged_out i db db1 z)"
proof (induction rule: sent_before.induct)
  case (sent db1 t)
  from sent.IH show ?case
  proof (elim disjE exE)
    assume o: "only_expired db db1"
    show ?case
    proof (cases "zs i (purge t db1)")
      case (Ok z)
      from logout_run[OF Ok] logout_first[OF only_expired_purge[OF o]] show ?thesis by (metis fst_conv)
    qed (use only_expired_purge[OF o] in \<open>simp_all add: logout_refused\<close>)
  next
    fix z assume "logged_out i db db1 z"
    from logout_again[OF logged_out_purge[OF this] surjective_pairing] show ?case by blast
  qed
qed simp

lemma purge_lk: "lk k (purge t db) = None \<or> lk k (purge t db) = lk k db"
  by simp

lemma broadcast_view: "redis_laws R rv \<Longrightarrow> rv (broadcast R m p pl r) = rv r"
  by (simp add: broadcast_def redis_publish[OF _ surjective_pairing])

lemma authorize_moves_session:
  assumes "redis_laws R rv" "Authorize R m now u s r = (r', Ok (True, None))" "second \<le> oc_TTL m"
  shows "\<exists>db0. only_expired (rv r) db0 \<and> rd_now db0 = rd_now (rv r')
    \<and> lk (unauthSessionKey m s) db0 \<noteq> None \<and> lk (sessionKey m u s) db0 = None
    \<and> lk (unauthSessionKey m s) (rv r') = None
    \<and> (\<not> oc_UseEXAT m \<longrightarrow> lk (sessionKey m u s) (rv r') = Some (RStr ''1'', Some (rd_now (rv r') + dur_seconds (oc_TTL m) * 1000)))
    \<and> (oc_UseEXAT m \<longrightarrow> rd_now (rv r') < unix (now + oc_TTL m) * 1000 \<longrightarrow>
         lk (sessionKey m u s) (rv r') = Some (RStr ''1'', Some (unix (now + oc_TTL m) * 1000)))
    \<and> (\<exists>zv. zs (userIndexKey m u) db0 = Ok zv
         \<and> zs (userIndexKey m u) (rv r') = Ok (AList.update (sessionKey m u s) (unix (now + oc_TTL m)) zv))
    \<and> r_expiry (userIndexKey m u) (rv r') = Some (rd_now (rv r') + dur_seconds (oc_TTL m) * 2000)
    \<and> (\<exists>zu. zs (unauthIndexKey m) db0 = Ok zu \<and> zs (unauthIndexKey m) (rv r') = Ok (AList.delete (unauthSessionKey m s) zu))
    \<and> (\<forall>k. k \<notin> {unauthIndexKey m, userIndexKey m u, unauthSessionKey m s, sessionKey m u s} \<longrightarrow>
         lk k (rv r') = lk k db0)"
proof -
  let ?sc = "luaBindUser (unauthIndexKey m) (userIndexKey m u) (unauthSessionKey m s) (sessionKey m u s)
     (dur_seconds (oc_TTL m)) (unix now) (unix (now + oc_TTL m)) (boolToInt (oc_UseEXAT m))"
  obtain r1 x where x: "rd_Run R ?sc r = (r1, x)" by (rule prod.exhaust)
  from assms(2) x have "oc_UnauthTTL m > 0 \<and> r1 = r' \<and> reply_Int64 x = Ok 1"
    by (simp add: Authorize_def Let_def split: if_splits go.splits)
  then have r1: "r1 = r'" and rc: "x = Ok (LInt 1)" by (simp_all add: reply_Int64_Ok)
  from redis_run_Ok[OF assms(1) x[unfolded rc r1]] obtain db1 t where db1: "sent_before ?sc (rv r) db1"
    and t: "?sc (purge t db1) = (rv r', Ok (LInt 1))" by blast
  have ttl: "1 \<le> dur_seconds (oc_TTL m)" using assms(3) by (simp add: dur_seconds_def second_def)
  note d = session_keys_differ
  note b = bind_run[OF t d(1-6) ttl]
  then have n: "rd_now (rv r') = t" by (simp only: purge_now)
  from b have "lk (unauthSessionKey m s) (purge t db1) \<noteq> None" by blast
  then have "lk (unauthSessionKey m s) db1 \<noteq> None" by (auto split: if_splits)
  with bind_sent[OF db1 d(1,2,4) ttl] only_expired_purge have o: "only_expired (rv r) (purge t db1)" by blast
  show ?thesis
    by (rule exI[of _ "purge t db1"]) (use b o in \<open>unfold n purge_now; cases "oc_UseEXAT m"; simp add: boolToInt_def del: purge_keys\<close>)
qed

subsection \<open>Properties\<close>

text \<open>C24: the three queries of a user's sessions agree. On the same keys at the same second they leave
  the same keys behind; the list has exactly the members that expire later than now, the flag says
  whether it is empty and the count is its length, and the newest session is its last member.\<close>

theorem session_queries_agree:
  assumes "zs z db = Ok m" "gm_ok m" "z \<notin> fst ` set m"
  shows "\<exists>db' ms. luaGetActiveAndSweep z now db = (db', Ok (LArr (map LStr ms)))
    \<and> luaIsOnline z now db = (db', Ok (if ms = [] then LArr [LInt 0, LInt 0] else LArr [LInt 1, LInt (int (length ms))]))
    \<and> luaGetNewestActive z now db = (db', Ok (LStr (if ms = [] then '''' else last ms)))
    \<and> set ms = {k. \<exists>s. map_of m k = Some s \<and> now < s} \<and> zs z db' = Ok (filter (\<lambda>(k, s). now < s) m)"
  by (rule queries_run[OF assms])

definition online_db :: "(string \<times> rval \<times> int option) list \<Rightarrow> mem_rd" where
  "online_db ks = \<lparr> mr_db = \<lparr> rd_now = 100000, rd_keys = ks \<rparr>, mr_published = [] \<rparr>"

definition three_sessions :: "(string, int) gomap" where
  "three_sessions = [(''a'', 90), (''b'', 160), (''c'', 130)]"

theorem session_queries_agree_witness:
  "snd (luaIsOnline ''z'' 100 (mr_db (online_db [(''z'', RZset three_sessions, None)]))) = Ok (LArr [LInt 1, LInt 2])"
proof -
  let ?db = "mr_db (online_db [(''z'', RZset three_sessions, None)])"
  have z: "zs ''z'' ?db = Ok three_sessions" by (simp add: zs_def r_zset_def r_get_lk online_db_def)
  obtain db' ms where "luaIsOnline ''z'' 100 ?db = (db', Ok (if ms = [] then LArr [LInt 0, LInt 0] else LArr [LInt 1, LInt (int (length ms))]))"
    "luaGetActiveAndSweep ''z'' 100 ?db = (db', Ok (LArr (map LStr ms)))"
    using session_queries_agree[OF z, of 100] by (auto simp: three_sessions_def gm_ok_def)
  moreover have "snd (luaGetActiveAndSweep ''z'' 100 ?db) = Ok (LArr (map LStr [''c'', ''b'']))" by code_simp
  ultimately have "map LStr ms = map LStr [''c'', ''b'']" by simp
  then have "ms = [''c'', ''b'']" by (auto simp: map_eq_Cons_conv)
  with \<open>luaIsOnline ''z'' 100 ?db = _\<close> show ?thesis by simp
qed

text \<open>C23: a login that succeeds moves the connection from the unauthenticated to the authenticated
  stage in one step. The keyspace \<open>db0\<close> it found is that of the call, but for keys that expired meanwhile (also when
  the client sent the script several times). In it the connection's first key existed and its session key did not;
  afterwards the first key is gone and the index of the node has lost exactly its entry; the session key is there with
  the time to live of the configuration (for an expiry given as an instant: when Redis's clock is before it), the index
  of the user has gained exactly it, under the second at which it expires, and lives twice as long; no other key has
  changed. The time to live is at least a second.\<close>

theorem authorize_moves_the_session:
  assumes "redis_laws R rv" "Authorize R m now u s r = (r', Ok (True, None))" "second \<le> oc_TTL m"
  shows "\<exists>db0. only_expired (rv r) db0 \<and> rd_now db0 = rd_now (rv r')
    \<and> lk (unauthSessionKey m s) db0 \<noteq> None \<and> lk (sessionKey m u s) db0 = None
    \<and> lk (unauthSessionKey m s) (rv r') = None
    \<and> (\<not> oc_UseEXAT m \<longrightarrow> lk (sessionKey m u s) (rv r') = Some (RStr ''1'', Some (rd_now (rv r') + dur_seconds (oc_TTL m) * 1000)))
    \<and> (oc_UseEXAT m \<longrightarrow> rd_now (rv r') < unix (now + oc_TTL m) * 1000 \<longrightarrow>
         lk (sessionKey m u s) (rv r') = Some (RStr ''1'', Some (unix (now + oc_TTL m) * 1000)))
    \<and> (\<exists>zv. zs (userIndexKey m u) db0 = Ok zv
         \<and> zs (userIndexKey m u) (rv r') = Ok (AList.update (sessionKey m u s) (unix (now + oc_TTL m)) zv))
    \<and> r_expiry (userIndexKey m u) (rv r') = Some (rd_now (rv r') + dur_seconds (oc_TTL m) * 2000)
    \<and> (\<exists>zu. zs (unauthIndexKey m) db0 = Ok zu \<and> zs (unauthIndexKey m) (rv r') = Ok (AList.delete (unauthSessionKey m s) zu))
    \<and> (\<forall>k. k \<notin> {unauthIndexKey m, userIndexKey m u, unauthSessionKey m s, sessionKey m u s} \<longrightarrow>
         lk k (rv r') = lk k db0)"
  by (rule authorize_moves_session[OF assms])

definition demo_conf :: "bool \<Rightarrow> online_config" where
  "demo_conf tag = \<lparr> oc_NodeID = ''gw'', oc_TTL = 300 * second, oc_ChannelName = ''online_changes'', oc_SnowflakeNode = 1,
     oc_UseClusterTag = tag, oc_MaxSessions = 5, oc_UseJSONValue = True, oc_Secret = ''x'', oc_UseEXAT = True,
     oc_UnauthTTL = 30 * second, oc_UserIndexTTL = 120 * second \<rparr>"

definition demo_login :: "bool \<Rightarrow> mem_rd \<times> (bool \<times> code_error) go" where
  "demo_login tag = Authorize mem_redis (demo_conf tag) (100 * second) ''u'' ''7''
     (fst (Connect mem_redis (demo_conf tag) (90 * second) ''7'' (online_db [])))"

lemma demo_login_tag: "snd (demo_login True) = Ok (True, None)"
  by code_simp

lemma demo_login_plain: "snd (demo_login False) = Ok (True, None)"
  by code_simp

theorem authorize_moves_the_session_witness:
  "lk ''n:{gw}:id:7'' (mr_db (fst (demo_login True))) = None \<and>
   (\<exists>z. zs ''nidx:{gw:u}'' (mr_db (fst (demo_login True))) = Ok z \<and> map_of z ''n:{gw:u}:id:7'' = Some 400)"
proof -
  have r: "Authorize mem_redis (demo_conf True) (100 * second) ''u'' ''7''
     (fst (Connect mem_redis (demo_conf True) (90 * second) ''7'' (online_db []))) = (fst (demo_login True), Ok (True, None))"
    using demo_login_tag by (simp add: demo_login_def prod_eq_iff)
  have k: "unauthSessionKey (demo_conf True) ''7'' = ''n:{gw}:id:7''" "userIndexKey (demo_conf True) ''u'' = ''nidx:{gw:u}''"
    "sessionKey (demo_conf True) ''u'' ''7'' = ''n:{gw:u}:id:7''" "unix (100 * second + oc_TTL (demo_conf True)) = 400"
    by code_simp+
  have t: "second \<le> oc_TTL (demo_conf True)" by code_simp
  from authorize_moves_the_session[OF mem_redis_laws r t] show ?thesis unfolding k by (auto simp: update_conv')
qed

text \<open>The index of a user can go before the sessions in it. A heartbeat gives the index key the time
  to live \<open>UserIndexTTL\<close> (two minutes as the gateway sets it up) and the session key the longer \<open>TTL\<close>
  (five minutes): when the index time is over and no heartbeat came, the session key is alive and yet
  the user is reported offline with no sessions.\<close>

theorem heartbeat_index_goes_first:
  assumes "redis_once R rv" "HeartbeatAuthorized R m now g u s r = (r', Ok (True, None))"
    and "second \<le> oc_UserIndexTTL m" "second \<le> oc_TTL m"
    and "rd_now (rv r') + dur_seconds (oc_UserIndexTTL m) * 1000 \<le> t'"
    and "t' < (if oc_UseEXAT m then unix (now + oc_TTL m) * 1000 else rd_now (rv r') + dur_seconds (oc_TTL m) * 1000)"
  shows "lk (''n:{'' @ g @ '':'' @ u @ ''}:id:'' @ s) (purge t' (rv r')) \<noteq> None
      \<and> snd (luaIsOnline (''nidx:{'' @ g @ '':'' @ u @ ''}'') sec (purge t' (rv r'))) = Ok (LArr [LInt 0, LInt 0])"
proof -
  let ?z = "''nidx:{'' @ g @ '':'' @ u @ ''}''" and ?k = "''n:{'' @ g @ '':'' @ u @ ''}:id:'' @ s"
  let ?sc = "luaHeartbeatAuth ?z ?k (dur_seconds (oc_TTL m)) (unix now) (unix (now + oc_TTL m))
             (boolToInt (oc_UseEXAT m)) ?k (dur_seconds (oc_UserIndexTTL m)) 1 1"
  have pos: "1 \<le> dur_seconds (oc_TTL m)" "0 < dur_seconds (oc_UserIndexTTL m)" "0 < oc_UserIndexTTL m"
    using assms(3,4) by (simp_all add: dur_seconds_def second_def)
  obtain r1 x where x: "rd_Run R ?sc r = (r1, x)" by (rule prod.exhaust)
  from assms(2) x pos(3) have "r1 = r' \<and> reply_Int64 x = Ok 1"
    by (simp add: HeartbeatAuthorized_def Let_def split: if_splits go.splits)
  then have r1: "r1 = r'" and rc: "x = Ok (LInt 1)" by (simp_all add: reply_Int64_Ok)
  from redis_once_Ok[OF assms(1) x[unfolded rc r1]] obtain t where t: "?sc (purge t (rv r)) = (rv r', Ok (LInt 1))" by blast
  have "?z \<noteq> ?k" by simp
  from hb_run[OF t this pos(1,2)] have h: "rd_now (rv r') = t" "r_expiry ?z (rv r') = Some (t + dur_seconds (oc_UserIndexTTL m) * 1000)"
    "if oc_UseEXAT m then t < unix (now + oc_TTL m) * 1000 \<longrightarrow> (\<exists>v. lk ?k (rv r') = Some (v, Some (unix (now + oc_TTL m) * 1000)))
     else (\<exists>v. lk ?k (rv r') = Some (v, Some (t + dur_seconds (oc_TTL m) * 1000)))"
    by (cases "oc_UseEXAT m"; simp add: boolToInt_def)+
  from h(2) obtain v where z: "lk ?z (rv r') = Some (v, Some (t + dur_seconds (oc_UserIndexTTL m) * 1000))"
    by (auto simp: r_expiry_def split: option.splits prod.splits)
  have t': "t + dur_seconds (oc_UserIndexTTL m) * 1000 \<le> t'"
    "t' < (if oc_UseEXAT m then unix (now + oc_TTL m) * 1000 else t + dur_seconds (oc_TTL m) * 1000)"
    using assms(5,6) unfolding h(1) by simp_all
  have "t < t'" using t'(1) pos(2) by linarith
  with h(3) t'(2) have "lk ?k (purge t' (rv r')) \<noteq> None"
    by (auto simp: r_alive_def split: if_splits)
  moreover have "zs ?z (purge t' (rv r')) = Ok []"
    using z t'(1) by (simp add: zs_def r_zset_def r_get_lk r_alive_def)
  then have "snd (luaIsOnline ?z sec (purge t' (rv r'))) = Ok (LArr [LInt 0, LInt 0])"
    using queries_run[of ?z "purge t' (rv r')" "[]" sec] by auto
  ultimately show ?thesis ..
qed

definition demo_beat :: "bool \<Rightarrow> mem_rd \<times> (bool \<times> code_error) go" where
  "demo_beat tag = HeartbeatAuthorized mem_redis (demo_conf tag) (100 * second) ''gw'' ''u'' ''7'' (fst (demo_login tag))"

lemma demo_beat_tag: "snd (demo_beat True) = Ok (True, None)"
  by code_simp

lemma demo_beat_plain: "snd (demo_beat False) = Ok (False, None)"
  by code_simp

theorem heartbeat_index_goes_first_witness:
  "lk (''n:{'' @ ''gw'' @ '':'' @ ''u'' @ ''}:id:'' @ ''7'') (purge 399000 (mr_db (fst (demo_beat True)))) \<noteq> None \<and>
   snd (luaIsOnline (''nidx:{'' @ ''gw'' @ '':'' @ ''u'' @ ''}'') 399 (purge 399000 (mr_db (fst (demo_beat True))))) = Ok (LArr [LInt 0, LInt 0])"
proof -
  have r: "HeartbeatAuthorized mem_redis (demo_conf True) (100 * second) ''gw'' ''u'' ''7'' (fst (demo_login True))
      = (fst (demo_beat True), Ok (True, None))"
    using demo_beat_tag by (simp add: demo_beat_def prod_eq_iff)
  have t: "second \<le> oc_UserIndexTTL (demo_conf True)" "second \<le> oc_TTL (demo_conf True)" by code_simp+
  have a: "rd_now (mr_db (fst (demo_beat True))) + dur_seconds (oc_UserIndexTTL (demo_conf True)) * 1000 \<le> 399000" by code_simp
  have b: "399000 < (if oc_UseEXAT (demo_conf True) then unix (100 * second + oc_TTL (demo_conf True)) * 1000
      else rd_now (mr_db (fst (demo_beat True))) + dur_seconds (oc_TTL (demo_conf True)) * 1000)" by code_simp
  show ?thesis by (rule heartbeat_index_goes_first[OF mem_redis_once r t a b])
qed

text \<open>Without cluster tags a heartbeat never finds the session. \<open>HeartbeatAuthorized\<close> builds its keys
  with tags whatever the configuration says; after a login under a configuration without them (and a
  node whose name does not begin with a brace), when the tagged key was not there before, the heartbeat
  of the same session does not report success.\<close>

theorem heartbeat_needs_cluster_tag:
  assumes "redis_laws R rv" "\<not> oc_UseClusterTag m" "oc_NodeID m \<noteq> []" "hd (oc_NodeID m) \<noteq> CHR ''{''" "second \<le> oc_TTL m"
    and "lk (''n:{'' @ oc_NodeID m @ '':'' @ u @ ''}:id:'' @ s) (rv r) = None"
    and "Authorize R m now u s r = (r1, Ok (True, None))"
    and "HeartbeatAuthorized R m now' (oc_NodeID m) u s r1 = (r2, Ok (alive, err))"
  shows "\<not> alive"
proof
  let ?z = "''nidx:{'' @ oc_NodeID m @ '':'' @ u @ ''}''" and ?k = "''n:{'' @ oc_NodeID m @ '':'' @ u @ ''}:id:'' @ s"
  let ?zt = "if 0 < oc_UserIndexTTL m then dur_seconds (oc_UserIndexTTL m) else 0"
  let ?sc = "luaHeartbeatAuth ?z ?k (dur_seconds (oc_TTL m)) (unix now') (unix (now' + oc_TTL m))
             (boolToInt (oc_UseEXAT m)) ?k ?zt 1 1"
  assume alive
  obtain c n where n: "oc_NodeID m = c # n" "c \<noteq> CHR ''{''" using assms(3,4) by (cases "oc_NodeID m") auto
  have k: "?k \<notin> {unauthIndexKey m, userIndexKey m u, unauthSessionKey m s, sessionKey m u s}"
    using assms(2) n by (simp add: unauthIndexKey_def userIndexKey_def unauthSessionKey_def sessionKey_def)
  obtain db0 where o: "only_expired (rv r) db0" and "lk ?k (rv r1) = lk ?k db0"
    using authorize_moves_session[OF assms(1,7,5)] k by blast
  with only_expired_none[OF o assms(6)] have none: "lk ?k (rv r1) = None" by simp
  obtain r3 x where x: "rd_Run R ?sc r1 = (r3, x)" by (rule prod.exhaust)
  from assms(8) x \<open>alive\<close> have rc: "x = Ok (LInt 1)"
    by (auto simp: HeartbeatAuthorized_def Let_def reply_Int64_Ok split: if_splits go.splits)
  from redis_run_Ok[OF assms(1) x[unfolded rc]] obtain db1 t' where db1: "sent_before ?sc (rv r1) db1"
    and "?sc (purge t' db1) = (rv r3, Ok (LInt 1))" by blast
  moreover have "r_get ?k (purge t' db1) = None" using hb_sent_missing[OF db1 none] by (simp add: r_get_lk)
  ultimately show False using hb_missing by simp
qed

theorem heartbeat_needs_cluster_tag_witness:
  "snd (demo_login False) = Ok (True, None) \<and> snd (demo_beat False) = Ok (False, None)"
proof -
  have l: "Authorize mem_redis (demo_conf False) (100 * second) ''u'' ''7''
     (fst (Connect mem_redis (demo_conf False) (90 * second) ''7'' (online_db []))) = (fst (demo_login False), Ok (True, None))"
    using demo_login_plain by (simp add: demo_login_def prod_eq_iff)
  have "oc_NodeID (demo_conf False) = ''gw''" by (simp add: demo_conf_def)
  then have b: "HeartbeatAuthorized mem_redis (demo_conf False) (100 * second) (oc_NodeID (demo_conf False)) ''u'' ''7''
     (fst (demo_login False)) = (fst (demo_beat False), Ok (False, None))"
    using demo_beat_plain by (simp add: demo_beat_def prod_eq_iff)
  have c: "\<not> oc_UseClusterTag (demo_conf False)" "oc_NodeID (demo_conf False) \<noteq> []" "hd (oc_NodeID (demo_conf False)) \<noteq> CHR ''{''"
    "second \<le> oc_TTL (demo_conf False)" by code_simp+
  have k: "lk (''n:{'' @ oc_NodeID (demo_conf False) @ '':'' @ ''u'' @ ''}:id:'' @ ''7'')
     (mr_db (fst (Connect mem_redis (demo_conf False) (90 * second) ''7'' (online_db [])))) = None" by code_simp
  from heartbeat_needs_cluster_tag[OF mem_redis_laws c k l b] demo_login_plain demo_beat_plain show ?thesis by simp
qed

lemma reply_StringSlice_LArr: "reply_StringSlice (Ok (LArr (map LStr ss))) = Ok ss"
  by (simp add: reply_StringSlice_def)

text \<open>C33: forcing a user out removes every session in the user's index and the index, and touches no other key but for
  those that expire; the broadcast changes nothing in the store. The answer lists exactly the sessions removed, in
  the order of their expiry, unless the client sent its script again after a lost reply: then it may list none, and
  nothing is broadcast.\<close>

theorem force_logout_removes_all:
  assumes "redis_laws R rv" "ForceLogoutUser R m u publish reason r = (r', Ok ks)"
  shows "\<exists>z. logged_out (userIndexKey m u) (rv r) (rv r') z \<and> (ks = map fst (z_sorted z) \<or> ks = [] \<and> \<not> redis_once R rv)"
proof -
  let ?i = "userIndexKey m u"
  obtain r1 x where x: "rd_Run R (luaLogoutAll ?i) r = (r1, x)" by (rule prod.exhaust)
  from assms(2) x have ks: "reply_StringSlice x = Ok ks"
    and r': "r' = broadcast R m (publish \<and> 0 < length ks) (''FORCE_LOGOUT:'' @ u @ '':'' @ reason @ '':'' @ join '','' ks) r1"
    by (auto simp: ForceLogoutUser_def Let_def split: go.splits)
  then obtain v where v: "x = Ok v" by (cases x) (simp_all add: reply_StringSlice_def)
  have e: "rv r' = rv r1" unfolding r' by (rule broadcast_view[OF assms(1)])
  have once: ?thesis if "only_expired (rv r) db1" "luaLogoutAll ?i (purge t db1) = (rv r1, Ok v)" for db1 t
  proof -
    from logout_first[OF only_expired_purge[OF that(1)] that(2)] obtain z where
      z: "logged_out ?i (rv r) (rv r1) z" "v = LArr (map LStr (map fst (z_sorted z)))" by blast
    have "ks = map fst (z_sorted z)" using ks v z(2) by (simp only: reply_StringSlice_LArr go.inject)
    with z(1) e show ?thesis by auto
  qed
  show ?thesis
  proof (cases "redis_once R rv")
    case True
    from redis_once_Ok[OF True x[unfolded v]] once[OF only_expired_refl] show ?thesis by blast
  next
    case False
    from redis_run_Ok[OF assms(1) x[unfolded v]] obtain db1 t where
      db1: "sent_before (luaLogoutAll ?i) (rv r) db1" and t: "luaLogoutAll ?i (purge t db1) = (rv r1, Ok v)" by blast
    from logout_sent[OF db1] show ?thesis
    proof (elim disjE exE)
      fix z assume "logged_out ?i (rv r) db1 z"
      from logout_again[OF logged_out_purge[OF this] t] have l: "logged_out ?i (rv r) (rv r1) z" "v = LArr (map LStr [])" by simp_all
      have "ks = []" using ks v l(2) by (simp only: reply_StringSlice_LArr go.inject)
      with l(1) e False show ?thesis by auto
    qed (rule once[OF _ t])
  qed
qed

theorem force_logout_removes_all_witness:
  "\<exists>z. logged_out ''nidx:{gw:u}'' (mr_db (fst (demo_login True)))
      (mr_db (fst (ForceLogoutUser mem_redis (demo_conf True) ''u'' True ''r'' (fst (demo_login True))))) z
    \<and> map fst (z_sorted z) = [''n:{gw:u}:id:7'']"
proof -
  let ?f = "ForceLogoutUser mem_redis (demo_conf True) ''u'' True ''r'' (fst (demo_login True))"
  have "snd ?f = Ok [''n:{gw:u}:id:7'']" by code_simp
  then have f: "?f = (fst ?f, Ok [''n:{gw:u}:id:7''])" by (simp add: prod_eq_iff)
  have k: "userIndexKey (demo_conf True) ''u'' = ''nidx:{gw:u}''" by code_simp
  from force_logout_removes_all[OF mem_redis_laws f] show ?thesis unfolding k by (metis list.distinct(1))
qed

subsection \<open>Offline queues\<close>

lemma l_range_all: "l_range l 0 (- 1) = l" "l \<noteq> [] \<Longrightarrow> l_range l 0 (int (length l) - 1) = l"
  by (simp_all add: l_range_def l_index_def Let_def not_less neq_Nil_conv)

lemma purge_forever: "lk k db = Some (v, None) \<Longrightarrow> lk k (purge t db) = Some (v, None)"
  by (simp add: r_alive_def)

lemma fetch_run:
  assumes laws: "redis_once R rv" and L: "lk (offlineKey u) (rv r) = Some (RList L, None)" "L \<noteq> []"
    and n: "int (length L) \<le> (if n \<le> 0 then 100 else n)"
    and run: "FetchOffline (Some R) dec u n r = (r', Ok ms)"
  shows "ms = map dec L \<and> lk (offlineKey u) (rv r') = Some (RList L, None)"
proof -
  let ?k = "offlineKey u"
  obtain r1 x1 where x1: "rd_Run R (rthen (LLEN ?k) (\<lambda>n. rret (LInt n))) r = (r1, x1)" by (rule prod.exhaust)
  obtain v1 where v1: "x1 = Ok v1" using run x1 by (cases x1) (simp_all add: FetchOffline_def Let_def reply_Int64_def)
  from redis_once_Ok[OF laws x1[unfolded v1]] obtain t1 where
    t1: "rthen (LLEN ?k) (\<lambda>n. rret (LInt n)) (purge t1 (rv r)) = (rv r1, Ok v1)" by blast
  have l1: "lk ?k (rv r1) = Some (RList L, None)" and v1': "v1 = LInt (int (length L))"
    using t1 purge_forever[OF L(1), of t1]
    by (simp_all add: LLEN_def r_list_def r_get_lk rthen_def rret_def del: purge_keys)
  define m where "m = (if int (length L) < (if n \<le> 0 then 100 else n) then int (length L) else (if n \<le> 0 then 100 else n))"
  have m: "m = int (length L)" using n by (simp add: m_def)
  obtain r2 x2 where x2: "rd_Run R (rthen (LRANGE ?k 0 (int (length L) - 1)) (\<lambda>vs. rret (LArr (map LStr vs)))) r1 = (r2, x2)"
    by (rule prod.exhaust)
  have r: "FetchOffline (Some R) dec u n r = (case reply_StringSlice x2 of
       Error e \<Rightarrow> (r2, Error e) | Panic e \<Rightarrow> (r2, Panic e)
     | Ok vals \<Rightarrow> (case run_unit R (LTRIM ?k 0 (- 1)) r2 of
           (r3, Ok _) \<Rightarrow> (r3, Ok (map dec vals)) | (r3, Error e) \<Rightarrow> (r3, Error e) | (r3, Panic e) \<Rightarrow> (r3, Panic e)))"
    using x1 v1 v1' x2 L(2) m n
    by (simp add: FetchOffline_def Let_def reply_Int64_def m_def split del: if_split cong del: go.case_cong_weak)
  obtain v2 where v2: "x2 = Ok v2" using run r by (cases x2) (simp_all add: reply_StringSlice_def)
  from redis_once_Ok[OF laws x2[unfolded v2]] obtain t2 where
    t2: "rthen (LRANGE ?k 0 (int (length L) - 1)) (\<lambda>vs. rret (LArr (map LStr vs))) (purge t2 (rv r1)) = (rv r2, Ok v2)" by blast
  have l2: "lk ?k (rv r2) = Some (RList L, None)" and v2': "v2 = LArr (map LStr L)"
    using t2 purge_forever[OF l1, of t2] l_range_all(2)[OF L(2)]
    by (simp_all add: LRANGE_def r_list_def r_get_lk rthen_def rret_def del: purge_keys)
  let ?sc = "rthen (rpipe [LTRIM ?k 0 (- 1)]) (\<lambda>_. rret LNil)"
  obtain r3 x3 where x3: "rd_Run R ?sc r2 = (r3, x3)" by (rule prod.exhaust)
  have "x3 \<noteq> Panic e" for e using redis_once_Panic[OF laws] x3 by blast
  with run r v2 v2' x3 obtain v3 where v3: "x3 = Ok v3" and e: "ms = map dec L" "r' = r3"
    by (cases x3) (simp_all add: reply_StringSlice_LArr run_unit_def run_pipe_def)
  from redis_once_Ok[OF laws x3[unfolded v3]] obtain t3 where t3: "?sc (purge t3 (rv r2)) = (rv r3, Ok v3)" by blast
  have "LTRIM ?k 0 (- 1) (purge t3 (rv r2)) = (r_put ?k (RList L) (purge t3 (rv r2)), Ok ())"
    using purge_forever[OF l2, of t3] by (simp add: LTRIM_def r_list_def r_get_lk rthen_def l_range_all del: purge_keys)
  with t3 have "rv r3 = r_put ?k (RList L) (purge t3 (rv r2))" by (simp add: rthen_def rret_def)
  then have "lk ?k (rv r3) = Some (RList L, None)"
    using purge_forever[OF l2, of t3] L(2) by (simp add: r_empty_def r_expiry_def del: purge_keys)
  with e show ?thesis by simp
qed

text \<open>Fetching everything clears nothing. When a user's queue holds no more messages than are asked
  for, \<open>FetchOffline\<close> returns the whole queue, newest message first, and leaves it as it is: the trim
  to the range from 0 to -1 keeps all. The same messages are delivered again by the next fetch.\<close>

theorem full_fetch_clears_nothing:
  assumes "redis_once R rv" "lk (offlineKey u) (rv r) = Some (RList L, None)" "L \<noteq> []"
    and "int (length L) \<le> (if n \<le> 0 then 100 else n)"
    and "FetchOffline (Some R) dec u n r = (r', Ok ms)" "FetchOffline (Some R) dec u n r' = (r'', Ok ms')"
  shows "ms = map dec L \<and> ms' = ms \<and> lk (offlineKey u) (rv r'') = Some (RList L, None)"
proof -
  from fetch_run[OF assms(1-5)] have 1: "ms = map dec L" "lk (offlineKey u) (rv r') = Some (RList L, None)" by blast+
  from fetch_run[OF assms(1) 1(2) assms(3,4,6)] 1(1) show ?thesis by blast
qed

definition demo_msg :: "offline_msg \<Rightarrow> string" where
  "demo_msg x = om_From x @ ''/'' @ om_Payload x"

definition demo_read :: "string \<Rightarrow> offline_msg" where
  "demo_read s = \<lparr> om_From = takeWhile (\<lambda>c. c \<noteq> CHR ''/'') s, om_Payload = drop 1 (dropWhile (\<lambda>c. c \<noteq> CHR ''/'') s) \<rparr>"

definition demo_queue :: mem_rd where
  "demo_queue = fst (EnqueueOffline (Some mem_redis) demo_msg ''u'' ''b'' ''2''
     (fst (EnqueueOffline (Some mem_redis) demo_msg ''u'' ''a'' ''1'' (online_db []))))"

theorem full_fetch_clears_nothing_witness:
  "snd (FetchOffline (Some mem_redis) demo_read ''u'' 10 demo_queue) = Ok (map demo_read [''b/2'', ''a/1'']) \<and>
   snd (FetchOffline (Some mem_redis) demo_read ''u'' 10 (fst (FetchOffline (Some mem_redis) demo_read ''u'' 10 demo_queue)))
     = Ok (map demo_read [''b/2'', ''a/1''])"
proof -
  let ?f = "FetchOffline (Some mem_redis) demo_read ''u'' 10 demo_queue"
  let ?g = "FetchOffline (Some mem_redis) demo_read ''u'' 10 (fst ?f)"
  have l: "lk (offlineKey ''u'') (mr_db demo_queue) = Some (RList [''b/2'', ''a/1''], None)" by code_simp
  obtain x y where f: "snd ?f = Ok x" and g: "snd ?g = Ok y"
  proof -
    have "snd ?f = Ok (map demo_read [''b/2'', ''a/1''])" "snd ?g = Ok (map demo_read [''b/2'', ''a/1''])" by code_simp+
    then show thesis by (rule that)
  qed
  from f g have f': "?f = (fst ?f, Ok x)" and g': "?g = (fst ?g, Ok y)" by (simp_all add: prod_eq_iff)
  from full_fetch_clears_nothing[OF mem_redis_once l _ _ f' g'] f g show ?thesis by simp
qed

text \<open>The gateway of a user is read back from the index key. For a configuration with cluster tags
  and a node name without colons and closing braces, \<open>ExtractGateway\<close> gives back the node of the key
  that \<open>userIndexKey\<close> built, whatever the user id contains.\<close>

theorem gateway_of_index_key:
  assumes "oc_UseClusterTag m" "oc_NodeID m \<noteq> []" "CHR '':'' \<notin> set (oc_NodeID m)" "CHR ''}'' \<notin> set (oc_NodeID m)"
  shows "ExtractGateway (userIndexKey m u) = oc_NodeID m"
proof -
  define N where "N = oc_NodeID m"
  define rest where "rest = u @ ''}''"
  define c where "c = length (takeWhile (\<lambda>x. x \<noteq> CHR ''}'') rest)"
  have N: "N \<noteq> []" "CHR '':'' \<notin> set N" "CHR ''}'' \<notin> set N" using assms by (simp_all add: N_def)
  have k: "userIndexKey m u = ''nidx:{'' @ N @ CHR '':'' # rest"
    using assms(1) by (simp add: userIndexKey_def N_def rest_def)
  have s: "index_byte CHR ''{'' (userIndexKey m u) = 5" unfolding k by (simp add: index_byte_def)
  have t: "takeWhile (\<lambda>x. x \<noteq> CHR ''}'') (N @ CHR '':'' # rest) = N @ CHR '':'' # takeWhile (\<lambda>x. x \<noteq> CHR ''}'') rest"
    by (subst takeWhile_append2) (use N(3) in auto)
  have "CHR ''}'' \<in> set (userIndexKey m u)" unfolding k by (simp add: rest_def)
  moreover have "takeWhile (\<lambda>x. x \<noteq> CHR ''}'') (userIndexKey m u) = ''nidx:{'' @ N @ CHR '':'' # takeWhile (\<lambda>x. x \<noteq> CHR ''}'') rest"
    unfolding k using t by simp
  ultimately have e: "index_byte CHR ''}'' (userIndexKey m u) = 6 + int (length N) + 1 + int c"
    by (simp add: index_byte_def c_def)
  have d: "drop (nat (5 + 1)) (userIndexKey m u) = N @ CHR '':'' # rest" unfolding k by simp
  have n: "nat (6 + int (length N) + 1 + int c - (5 + 1)) = length N + Suc c" by simp
  have "take (length N + Suc c) (N @ CHR '':'' # rest) = N @ CHR '':'' # take c rest" by simp
  moreover have "takeWhile (\<lambda>x. x \<noteq> CHR '':'') (N @ CHR '':'' # take c rest) = N"
    by (subst takeWhile_append2) (use N(2) in auto)
  moreover have "0 < length N" using N(1) by simp
  ultimately show ?thesis
    unfolding ExtractGateway_def Let_def s e d n N_def[symmetric] by simp
qed

theorem gateway_of_index_key_witness: "ExtractGateway (userIndexKey (demo_conf True) ''a:b}c'') = ''gw''"
proof -
  have "ExtractGateway (userIndexKey (demo_conf True) ''a:b}c'') = oc_NodeID (demo_conf True)"
    by (rule gateway_of_index_key) (simp_all add: demo_conf_def)
  then show ?thesis by (simp add: demo_conf_def)
qed

end
