(* ===== verification/MsgData.thy ===== *)
theory MsgData
  imports MongoDoc GoStrings
begin

section \<open>Messages: the frame's form, the stored form, their BSON\<close>

text \<open>
  The generated structs of \<^verbatim>\<open>gen/message/message.pb.go\<close> (the fields the program reads), the
  records of \<^verbatim>\<open>module/chat/model/msg.go\<close>, and the documents the BSON tags of those make. A nil
  pointer is \<open>None\<close>; a map of JSON values is a list of fields, \<open>None\<close> for the nil map.
\<close>

type_synonym json = doc

subsection \<open>What arrives\<close>

record pb_TextElem =
  pbte_Content :: string

record pb_PictureBaseInfo =
  pbpi_Uuid :: string
  pbpi_Type :: string
  pbpi_Size :: int
  pbpi_Width :: int
  pbpi_Height :: int
  pbpi_Url :: string

record pb_PictureElem =
  pbpe_SourcePicture :: "pb_PictureBaseInfo option"
  pbpe_BigPicture :: "pb_PictureBaseInfo option"
  pbpe_SnapshotPicture :: "pb_PictureBaseInfo option"

record pb_FileElem =
  pbfe_Uuid :: string
  pbfe_SourceUrl :: string
  pbfe_FileName :: string
  pbfe_FileSize :: int
  pbfe_FileType :: string

record pb_CustomElem =
  pbce_Data :: "json option"
  pbce_Description :: string
  pbce_Extension :: string

record pb_NotificationElem =
  pbne_Detail :: string

record pb_MessageEntity =
  pbme_Type :: string
  pbme_Offset :: int
  pbme_Length :: int
  pbme_Url :: string
  pbme_Ex :: string

record pb_AdvancedTextElem =
  pbae_Text :: string
  pbae_MessageEntityList :: "pb_MessageEntity option list"

record pb_MarkdownTextElem =
  pbmk_Content :: string

record pb_SoundElem =
  pbse_Uuid :: string
  pbse_SoundPath :: string
  pbse_SourceUrl :: string
  pbse_DataSize :: int
  pbse_Duration :: int
  pbse_SoundType :: string

record pb_VideoElem =
  pbve_VideoPath :: string
  pbve_VideoUuid :: string
  pbve_VideoUrl :: string
  pbve_VideoType :: string
  pbve_VideoSize :: int
  pbve_Duration :: int
  pbve_SnapshotPath :: string
  pbve_SnapshotUuid :: string
  pbve_SnapshotSize :: int
  pbve_SnapshotUrl :: string
  pbve_SnapshotWidth :: int
  pbve_SnapshotHeight :: int
  pbve_SnapshotType :: string

record pb_LocationElem =
  pble_Description :: string
  pble_Longitude :: float64
  pble_Latitude :: float64

record pb_CardElem =
  pbcd_UserId :: string
  pbcd_Nickname :: string
  pbcd_FaceUrl :: string
  pbcd_Ex :: string

record pb_AtInfo =
  pbai_AtUserId :: string
  pbai_GroupNickname :: string

record pb_FaceElem =
  pbfa_Index :: int
  pbfa_Data :: "json option"

record pb_OfflinePushInfo =
  pbop_Title :: string
  pbop_Desc :: string
  pbop_Ex :: string
  pbop_IosBadgeCountPlus1 :: bool
  pbop_IosCategory :: string
  pbop_IosSound :: string
  pbop_AndroidVivoClassification :: bool

text \<open>
  A message without the elements that hold other messages; of \<^verbatim>\<open>typing_elem\<close> the text is kept.
\<close>

record pb_head =
  ph_ClientMsgId :: string
  ph_ServerMsgId :: string
  ph_CreateTime :: int
  ph_SendTime :: int
  ph_SessionType :: int
  ph_SendId :: string
  ph_RecvId :: string
  ph_MsgFrom :: int
  ph_ContentType :: int
  ph_SenderPlatformId :: int
  ph_SenderNickname :: string
  ph_SenderFaceUrl :: string
  ph_GroupId :: string
  ph_Seq :: int
  ph_IsRead :: bool
  ph_Status :: int
  ph_OfflinePush :: "pb_OfflinePushInfo option"
  ph_AttachedInfo :: string
  ph_Ex :: string
  ph_LocalEx :: string
  ph_TextElem :: "pb_TextElem option"
  ph_CardElem :: "pb_CardElem option"
  ph_PictureElem :: "pb_PictureElem option"
  ph_SoundElem :: "pb_SoundElem option"
  ph_VideoElem :: "pb_VideoElem option"
  ph_FileElem :: "pb_FileElem option"
  ph_FaceElem :: "pb_FaceElem option"
  ph_LocationElem :: "pb_LocationElem option"
  ph_CustomElem :: "pb_CustomElem option"
  ph_NotificationElem :: "pb_NotificationElem option"
  ph_AdvancedTextElem :: "pb_AdvancedTextElem option"
  ph_MarkdownTextElem :: "pb_MarkdownTextElem option"
  ph_TypingElem :: "string option"
  ph_IsEdited :: bool
  ph_EditedAt :: int
  ph_EditVersion :: int
  ph_ExpireAt :: int
  ph_AccessLevel :: string
  ph_TraceId :: string
  ph_SessionId :: string
  ph_Tags :: "string list"
  ph_GuildId :: string
  ph_ChannelId :: string
  ph_ThreadId :: string
  ph_ReplyTo :: string
  ph_IsEphemeral :: bool

datatype pb_MessageData = PbMessageData (pb_hd: pb_head) (pb_AtText: "pb_AtTextElem option")
    (pb_Merge: "pb_MergeElem option") (pb_Quote: "pb_QuoteElem option")
and pb_AtTextElem = PbAtTextElem (pbat_Text: string) (pbat_AtUserList: "string list")
    (pbat_AtUsersInfo: "pb_AtInfo option list") (pbat_QuoteMessage: "pb_MessageData option") (pbat_IsAtSelf: bool)
and pb_MergeElem = PbMergeElem (pbmg_Title: string) (pbmg_AbstractList: "string list")
    (pbmg_MultiMessage: "pb_MessageData option list") (pbmg_MessageEntityList: "pb_MessageEntity option list")
and pb_QuoteElem = PbQuoteElem (pbqe_Text: string) (pbqe_QuoteMessage: "pb_MessageData option")

subsection \<open>What is stored\<close>

record RevokeModel =
  rv_Role :: int
  rv_UserID :: string
  rv_Nickname :: string
  rv_Time :: int

record TextElem =
  te_Content :: string

record PictureBaseInfo =
  pi_UUID :: string
  pi_Type :: string
  pi_Size :: int
  pi_Width :: int
  pi_Height :: int
  pi_URL :: string

record PictureElem =
  pe_SourcePicture :: "PictureBaseInfo option"
  pe_BigPicture :: "PictureBaseInfo option"
  pe_SnapshotPicture :: "PictureBaseInfo option"

record FileElem =
  fe_UUID :: string
  fe_SourceURL :: string
  fe_FileName :: string
  fe_FileSize :: int
  fe_FileType :: string

record CustomElem =
  ce_Data :: "json option"
  ce_Description :: string
  ce_Extension :: string

record NotificationElem =
  ne_Detail :: string

record MessageLite =
  ml_ServerMsgID :: string
  ml_ContentType :: int
  ml_TextElem :: "TextElem option"
  ml_SendTimeMS :: int
  ml_SendID :: string
  ml_RecvID :: string
  ml_SessionType :: int

record QuoteElem =
  qe_Text :: string
  qe_QuoteMessage :: "MessageLite option"

record MessageEntity =
  me_Type :: string
  me_Offset :: int
  me_Length :: int
  me_URL :: string
  me_Ex :: string

record AdvancedTextElem =
  ae_Text :: string
  ae_MessageEntityList :: "MessageEntity list"

record MarkdownTextElem =
  mk_Content :: string

record SoundElem =
  se_UUID :: string
  se_SoundPath :: string
  se_SourceURL :: string
  se_DataSize :: int
  se_Duration :: int
  se_SoundType :: string

record VideoElem =
  ve_VideoPath :: string
  ve_VideoUUID :: string
  ve_VideoURL :: string
  ve_VideoType :: string
  ve_VideoSize :: int
  ve_Duration :: int
  ve_SnapshotPath :: string
  ve_SnapshotUUID :: string
  ve_SnapshotSize :: int
  ve_SnapshotURL :: string
  ve_SnapshotWidth :: int
  ve_SnapshotHeight :: int
  ve_SnapshotType :: string

record LocationElem =
  le_Description :: string
  le_Longitude :: float64
  le_Latitude :: float64

record CardElem =
  cd_UserID :: string
  cd_Nickname :: string
  cd_FaceURL :: string
  cd_Ex :: string

record AtInfo =
  ai_AtUserID :: string
  ai_GroupNickname :: string

record AtTextElem =
  at_Text :: string
  at_AtUserList :: "string list"
  at_AtUsersInfo :: "AtInfo list"
  at_QuoteMessage :: "MessageLite option"
  at_IsAtSelf :: bool

record FaceElem =
  fa_Index :: int
  fa_Data :: "json option"

record MergeElem =
  mg_Title :: string
  mg_AbstractList :: "string list"
  mg_MultiMessage :: "MessageLite option list"
  mg_MessageEntityList :: "MessageEntity list"

record OfflinePushInfo =
  op_Title :: string
  op_Desc :: string
  op_Ex :: string
  op_IOSBadgeCountPlus1 :: bool
  op_IOSCategory :: string
  op_IosSound :: string
  op_AndroidVivoClassification :: bool

record MessageModel =
  mm_ID :: string
  mm_TenantID :: string
  mm_ClientMsgID :: string
  mm_ServerMsgID :: string
  mm_CreateTimeMS :: int
  mm_SendTimeMS :: int
  mm_SessionType :: int
  mm_SendID :: string
  mm_RecvID :: string
  mm_MsgFrom :: int
  mm_ContentType :: int
  mm_SenderPlatformID :: int
  mm_SenderNickname :: string
  mm_SenderFaceURL :: string
  mm_GroupID :: string
  mm_ConversationID :: string
  mm_Seq :: int
  mm_IsRead :: int
  mm_Status :: int
  mm_GuildID :: string
  mm_ChannelID :: string
  mm_ThreadID :: string
  mm_TextElem :: "TextElem option"
  mm_AdvancedTextElem :: "AdvancedTextElem option"
  mm_MarkdownTextElem :: "MarkdownTextElem option"
  mm_PictureElem :: "PictureElem option"
  mm_SoundElem :: "SoundElem option"
  mm_VideoElem :: "VideoElem option"
  mm_FileElem :: "FileElem option"
  mm_LocationElem :: "LocationElem option"
  mm_CardElem :: "CardElem option"
  mm_AtTextElem :: "AtTextElem option"
  mm_FaceElem :: "FaceElem option"
  mm_MergeElem :: "MergeElem option"
  mm_QuoteElem :: "QuoteElem option"
  mm_CustomElem :: "CustomElem option"
  mm_NotificationElem :: "NotificationElem option"
  mm_ContentText :: string
  mm_OfflinePush :: "OfflinePushInfo option"
  mm_AttachedInfo :: string
  mm_Ex :: "json option"
  mm_LocalEx :: string
  mm_IsEdited :: int
  mm_EditedAtMS :: int
  mm_EditVersion :: int
  mm_ExpireAtMS :: int
  mm_AccessLevel :: string
  mm_TraceID :: string
  mm_SessionTrace :: string
  mm_Tags :: "string list"
  mm_ReplyTo :: string
  mm_IsEphemeral :: int
  mm_Rich :: "json option"
  mm_AutoMod :: "json list"
  mm_Revoke :: "RevokeModel option"

text \<open>The content types, with the numbers of the protocol.\<close>

abbreviation (input) TEXT :: int where "TEXT \<equiv> 101"
abbreviation (input) ADVANCED_TEXT :: int where "ADVANCED_TEXT \<equiv> 102"
abbreviation (input) MARKDOWN :: int where "MARKDOWN \<equiv> 103"
abbreviation (input) PICTURE :: int where "PICTURE \<equiv> 201"
abbreviation (input) SOUND :: int where "SOUND \<equiv> 202"
abbreviation (input) VIDEO :: int where "VIDEO \<equiv> 203"
abbreviation (input) FILE :: int where "FILE \<equiv> 204"
abbreviation (input) LOCATION :: int where "LOCATION \<equiv> 205"
abbreviation (input) CARD_MSG :: int where "CARD_MSG \<equiv> 301"
abbreviation (input) AT_TEXT :: int where "AT_TEXT \<equiv> 302"
abbreviation (input) FACE :: int where "FACE \<equiv> 303"
abbreviation (input) MERGE :: int where "MERGE \<equiv> 304"
abbreviation (input) QUOTE :: int where "QUOTE \<equiv> 305"
abbreviation (input) TYPING :: int where "TYPING \<equiv> 306"
abbreviation (input) CUSTOM :: int where "CUSTOM \<equiv> 399"
abbreviation (input) MsgNOTIFICATION :: int where "MsgNOTIFICATION \<equiv> 401"

subsection \<open>The documents\<close>

text \<open>
  A tag with \<^verbatim>\<open>omitempty\<close> leaves a zero value out: an empty string, list or map, the number 0, a
  nil pointer. A map is written in one of the orders of its keys.
\<close>

definition omit_if :: "bool \<Rightarrow> string \<Rightarrow> mval \<Rightarrow> doc" where
  "omit_if z k v = (if z then [] else [(k, v)])"

definition opt_field :: "string \<Rightarrow> ('a \<Rightarrow> mval) \<Rightarrow> 'a option \<Rightarrow> doc" where
  "opt_field k f x = (case x of None \<Rightarrow> [] | Some y \<Rightarrow> [(k, f y)])"

definition map_field :: "string \<Rightarrow> json option \<Rightarrow> doc" where
  "map_field k x = (case x of None \<Rightarrow> [] | Some m \<Rightarrow> omit_if (m = []) k (MDoc m))"

definition float_zero :: "float64 \<Rightarrow> bool" where
  "float_zero x \<longleftrightarrow> x = 0 \<or> x = 2 ^ 63"

definition zero_oid :: string where
  "zero_oid = replicate 12 CHR 0x00"

definition bson_RevokeModel :: "RevokeModel \<Rightarrow> mval" where
  "bson_RevokeModel e = MDoc ([(''role'', MInt (rv_Role e))]
     @ [(''user_id'', MStr (rv_UserID e))]
     @ [(''nickname'', MStr (rv_Nickname e))]
     @ [(''time'', MInt (rv_Time e))])"

definition bson_TextElem :: "TextElem \<Rightarrow> mval" where
  "bson_TextElem e = MDoc ([(''content'', MStr (te_Content e))])"

definition bson_PictureBaseInfo :: "PictureBaseInfo \<Rightarrow> mval" where
  "bson_PictureBaseInfo e = MDoc (omit_if (pi_UUID e = []) ''uuid'' (MStr (pi_UUID e))
     @ omit_if (pi_Type e = []) ''type'' (MStr (pi_Type e))
     @ omit_if (pi_Size e = 0) ''size'' (MInt (pi_Size e))
     @ omit_if (pi_Width e = 0) ''width'' (MInt (pi_Width e))
     @ omit_if (pi_Height e = 0) ''height'' (MInt (pi_Height e))
     @ omit_if (pi_URL e = []) ''url'' (MStr (pi_URL e)))"

definition bson_PictureElem :: "PictureElem \<Rightarrow> mval" where
  "bson_PictureElem e = MDoc (opt_field ''source_picture'' bson_PictureBaseInfo (pe_SourcePicture e)
     @ opt_field ''big_picture'' bson_PictureBaseInfo (pe_BigPicture e)
     @ opt_field ''snapshot_picture'' bson_PictureBaseInfo (pe_SnapshotPicture e))"

definition bson_FileElem :: "FileElem \<Rightarrow> mval" where
  "bson_FileElem e = MDoc (omit_if (fe_UUID e = []) ''uuid'' (MStr (fe_UUID e))
     @ omit_if (fe_SourceURL e = []) ''source_url'' (MStr (fe_SourceURL e))
     @ omit_if (fe_FileName e = []) ''file_name'' (MStr (fe_FileName e))
     @ omit_if (fe_FileSize e = 0) ''file_size'' (MInt (fe_FileSize e))
     @ omit_if (fe_FileType e = []) ''file_type'' (MStr (fe_FileType e)))"

definition bson_CustomElem :: "CustomElem \<Rightarrow> mval" where
  "bson_CustomElem e = MDoc (map_field ''data'' (ce_Data e)
     @ omit_if (ce_Description e = []) ''description'' (MStr (ce_Description e))
     @ omit_if (ce_Extension e = []) ''extension'' (MStr (ce_Extension e)))"

definition bson_NotificationElem :: "NotificationElem \<Rightarrow> mval" where
  "bson_NotificationElem e = MDoc ([(''detail'', MStr (ne_Detail e))])"

definition bson_MessageLite :: "MessageLite \<Rightarrow> mval" where
  "bson_MessageLite e = MDoc (omit_if (ml_ServerMsgID e = []) ''server_msg_id'' (MStr (ml_ServerMsgID e))
     @ omit_if (ml_ContentType e = 0) ''content_type'' (MInt (ml_ContentType e))
     @ opt_field ''text_elem'' bson_TextElem (ml_TextElem e)
     @ omit_if (ml_SendTimeMS e = 0) ''send_time_ms'' (MInt (ml_SendTimeMS e))
     @ omit_if (ml_SendID e = []) ''send_id'' (MStr (ml_SendID e))
     @ omit_if (ml_RecvID e = []) ''recv_id'' (MStr (ml_RecvID e))
     @ omit_if (ml_SessionType e = 0) ''session_type'' (MInt (ml_SessionType e)))"

definition bson_QuoteElem :: "QuoteElem \<Rightarrow> mval" where
  "bson_QuoteElem e = MDoc (omit_if (qe_Text e = []) ''text'' (MStr (qe_Text e))
     @ opt_field ''quote_message'' bson_MessageLite (qe_QuoteMessage e))"

definition bson_MessageEntity :: "MessageEntity \<Rightarrow> mval" where
  "bson_MessageEntity e = MDoc (omit_if (me_Type e = []) ''type'' (MStr (me_Type e))
     @ omit_if (me_Offset e = 0) ''offset'' (MInt (me_Offset e))
     @ omit_if (me_Length e = 0) ''length'' (MInt (me_Length e))
     @ omit_if (me_URL e = []) ''url'' (MStr (me_URL e))
     @ omit_if (me_Ex e = []) ''ex'' (MStr (me_Ex e)))"

definition bson_AdvancedTextElem :: "AdvancedTextElem \<Rightarrow> mval" where
  "bson_AdvancedTextElem e = MDoc ([(''text'', MStr (ae_Text e))]
     @ omit_if (ae_MessageEntityList e = []) ''message_entity_list'' (MArr (map bson_MessageEntity (ae_MessageEntityList e))))"

definition bson_MarkdownTextElem :: "MarkdownTextElem \<Rightarrow> mval" where
  "bson_MarkdownTextElem e = MDoc ([(''content'', MStr (mk_Content e))])"

definition bson_SoundElem :: "SoundElem \<Rightarrow> mval" where
  "bson_SoundElem e = MDoc (omit_if (se_UUID e = []) ''uuid'' (MStr (se_UUID e))
     @ omit_if (se_SoundPath e = []) ''sound_path'' (MStr (se_SoundPath e))
     @ omit_if (se_SourceURL e = []) ''source_url'' (MStr (se_SourceURL e))
     @ omit_if (se_DataSize e = 0) ''data_size'' (MInt (se_DataSize e))
     @ omit_if (se_Duration e = 0) ''duration'' (MInt (se_Duration e))
     @ omit_if (se_SoundType e = []) ''sound_type'' (MStr (se_SoundType e)))"

definition bson_VideoElem :: "VideoElem \<Rightarrow> mval" where
  "bson_VideoElem e = MDoc (omit_if (ve_VideoPath e = []) ''video_path'' (MStr (ve_VideoPath e))
     @ omit_if (ve_VideoUUID e = []) ''video_uuid'' (MStr (ve_VideoUUID e))
     @ omit_if (ve_VideoURL e = []) ''video_url'' (MStr (ve_VideoURL e))
     @ omit_if (ve_VideoType e = []) ''video_type'' (MStr (ve_VideoType e))
     @ omit_if (ve_VideoSize e = 0) ''video_size'' (MInt (ve_VideoSize e))
     @ omit_if (ve_Duration e = 0) ''duration'' (MInt (ve_Duration e))
     @ omit_if (ve_SnapshotPath e = []) ''snapshot_path'' (MStr (ve_SnapshotPath e))
     @ omit_if (ve_SnapshotUUID e = []) ''snapshot_uuid'' (MStr (ve_SnapshotUUID e))
     @ omit_if (ve_SnapshotSize e = 0) ''snapshot_size'' (MInt (ve_SnapshotSize e))
     @ omit_if (ve_SnapshotURL e = []) ''snapshot_url'' (MStr (ve_SnapshotURL e))
     @ omit_if (ve_SnapshotWidth e = 0) ''snapshot_width'' (MInt (ve_SnapshotWidth e))
     @ omit_if (ve_SnapshotHeight e = 0) ''snapshot_height'' (MInt (ve_SnapshotHeight e))
     @ omit_if (ve_SnapshotType e = []) ''snapshot_type'' (MStr (ve_SnapshotType e)))"

definition bson_LocationElem :: "LocationElem \<Rightarrow> mval" where
  "bson_LocationElem e = MDoc (omit_if (le_Description e = []) ''description'' (MStr (le_Description e))
     @ omit_if (float_zero (le_Longitude e)) ''longitude'' (MDouble (le_Longitude e))
     @ omit_if (float_zero (le_Latitude e)) ''latitude'' (MDouble (le_Latitude e)))"

definition bson_CardElem :: "CardElem \<Rightarrow> mval" where
  "bson_CardElem e = MDoc (omit_if (cd_UserID e = []) ''user_id'' (MStr (cd_UserID e))
     @ omit_if (cd_Nickname e = []) ''nickname'' (MStr (cd_Nickname e))
     @ omit_if (cd_FaceURL e = []) ''face_url'' (MStr (cd_FaceURL e))
     @ omit_if (cd_Ex e = []) ''ex'' (MStr (cd_Ex e)))"

definition bson_AtInfo :: "AtInfo \<Rightarrow> mval" where
  "bson_AtInfo e = MDoc (omit_if (ai_AtUserID e = []) ''at_user_id'' (MStr (ai_AtUserID e))
     @ omit_if (ai_GroupNickname e = []) ''group_nickname'' (MStr (ai_GroupNickname e)))"

definition bson_AtTextElem :: "AtTextElem \<Rightarrow> mval" where
  "bson_AtTextElem e = MDoc (omit_if (at_Text e = []) ''text'' (MStr (at_Text e))
     @ omit_if (at_AtUserList e = []) ''at_user_list'' (MArr (map MStr (at_AtUserList e)))
     @ omit_if (at_AtUsersInfo e = []) ''at_users_info'' (MArr (map bson_AtInfo (at_AtUsersInfo e)))
     @ opt_field ''quote_message'' bson_MessageLite (at_QuoteMessage e)
     @ omit_if (\<not> at_IsAtSelf e) ''is_at_self'' (MBool (at_IsAtSelf e)))"

definition bson_FaceElem :: "FaceElem \<Rightarrow> mval" where
  "bson_FaceElem e = MDoc (omit_if (fa_Index e = 0) ''index'' (MInt (fa_Index e))
     @ map_field ''data'' (fa_Data e))"

definition bson_MergeElem :: "MergeElem \<Rightarrow> mval" where
  "bson_MergeElem e = MDoc (omit_if (mg_Title e = []) ''title'' (MStr (mg_Title e))
     @ omit_if (mg_AbstractList e = []) ''abstract_list'' (MArr (map MStr (mg_AbstractList e)))
     @ omit_if (mg_MultiMessage e = []) ''multi_message'' (MArr (map (\<lambda>x. case x of None \<Rightarrow> MNull | Some m \<Rightarrow> bson_MessageLite m) (mg_MultiMessage e)))
     @ omit_if (mg_MessageEntityList e = []) ''message_entity_list'' (MArr (map bson_MessageEntity (mg_MessageEntityList e))))"

definition bson_OfflinePushInfo :: "OfflinePushInfo \<Rightarrow> mval" where
  "bson_OfflinePushInfo e = MDoc (omit_if (op_Title e = []) ''title'' (MStr (op_Title e))
     @ omit_if (op_Desc e = []) ''desc'' (MStr (op_Desc e))
     @ omit_if (op_Ex e = []) ''ex'' (MStr (op_Ex e))
     @ omit_if (\<not> op_IOSBadgeCountPlus1 e) ''ios_badge_count_plus1'' (MBool (op_IOSBadgeCountPlus1 e))
     @ omit_if (op_IOSCategory e = []) ''ios_category'' (MStr (op_IOSCategory e))
     @ omit_if (op_IosSound e = []) ''ios_sound'' (MStr (op_IosSound e))
     @ omit_if (\<not> op_AndroidVivoClassification e) ''android_vivo_classification'' (MBool (op_AndroidVivoClassification e)))"

definition bson_msg_head :: "MessageModel \<Rightarrow> doc" where
  "bson_msg_head m = omit_if (mm_ID m = zero_oid) ''_id'' (MOid (mm_ID m))
     @ [(''tenant_id'', MStr (mm_TenantID m))]
     @ omit_if (mm_ClientMsgID m = []) ''client_msg_id'' (MStr (mm_ClientMsgID m))
     @ [(''server_msg_id'', MStr (mm_ServerMsgID m))]
     @ [(''create_time_ms'', MInt (mm_CreateTimeMS m))]
     @ [(''send_time_ms'', MInt (mm_SendTimeMS m))]
     @ [(''session_type'', MInt (mm_SessionType m))]
     @ [(''send_id'', MStr (mm_SendID m))]
     @ [(''recv_id'', MStr (mm_RecvID m))]
     @ [(''msg_from'', MInt (mm_MsgFrom m))]
     @ [(''content_type'', MInt (mm_ContentType m))]
     @ [(''sender_platform_id'', MInt (mm_SenderPlatformID m))]
     @ omit_if (mm_SenderNickname m = []) ''sender_nickname'' (MStr (mm_SenderNickname m))
     @ omit_if (mm_SenderFaceURL m = []) ''sender_face_url'' (MStr (mm_SenderFaceURL m))
     @ omit_if (mm_GroupID m = []) ''group_id'' (MStr (mm_GroupID m))
     @ [(''conversation_id'', MStr (mm_ConversationID m))]
     @ [(''seq_num'', MInt (mm_Seq m))]
     @ omit_if (mm_IsRead m = 0) ''is_read'' (MInt (mm_IsRead m))
     @ omit_if (mm_Status m = 0) ''status'' (MInt (mm_Status m))
     @ omit_if (mm_GuildID m = []) ''guild_id'' (MStr (mm_GuildID m))
     @ omit_if (mm_ChannelID m = []) ''channel_id'' (MStr (mm_ChannelID m))
     @ omit_if (mm_ThreadID m = []) ''thread_id'' (MStr (mm_ThreadID m))"

definition bson_msg_elems :: "MessageModel \<Rightarrow> doc" where
  "bson_msg_elems m = opt_field ''text_elem'' bson_TextElem (mm_TextElem m)
     @ opt_field ''advanced_text_elem'' bson_AdvancedTextElem (mm_AdvancedTextElem m)
     @ opt_field ''markdown_text_elem'' bson_MarkdownTextElem (mm_MarkdownTextElem m)
     @ opt_field ''picture_elem'' bson_PictureElem (mm_PictureElem m)
     @ opt_field ''sound_elem'' bson_SoundElem (mm_SoundElem m)
     @ opt_field ''video_elem'' bson_VideoElem (mm_VideoElem m)
     @ opt_field ''file_elem'' bson_FileElem (mm_FileElem m)
     @ opt_field ''location_elem'' bson_LocationElem (mm_LocationElem m)
     @ opt_field ''card_elem'' bson_CardElem (mm_CardElem m)
     @ opt_field ''at_text_elem'' bson_AtTextElem (mm_AtTextElem m)
     @ opt_field ''face_elem'' bson_FaceElem (mm_FaceElem m)
     @ opt_field ''merge_elem'' bson_MergeElem (mm_MergeElem m)
     @ opt_field ''quote_elem'' bson_QuoteElem (mm_QuoteElem m)
     @ opt_field ''custom_elem'' bson_CustomElem (mm_CustomElem m)
     @ opt_field ''notification_elem'' bson_NotificationElem (mm_NotificationElem m)"

definition bson_msg_rest :: "MessageModel \<Rightarrow> doc" where
  "bson_msg_rest m = omit_if (mm_ContentText m = []) ''content_text'' (MStr (mm_ContentText m))
     @ opt_field ''offline_push'' bson_OfflinePushInfo (mm_OfflinePush m)
     @ omit_if (mm_AttachedInfo m = []) ''attached_info'' (MStr (mm_AttachedInfo m))
     @ map_field ''ex'' (mm_Ex m)
     @ omit_if (mm_LocalEx m = []) ''local_ex'' (MStr (mm_LocalEx m))
     @ omit_if (mm_IsEdited m = 0) ''is_edited'' (MInt (mm_IsEdited m))
     @ omit_if (mm_EditedAtMS m = 0) ''edited_at_ms'' (MInt (mm_EditedAtMS m))
     @ omit_if (mm_EditVersion m = 0) ''edit_version'' (MInt (mm_EditVersion m))
     @ omit_if (mm_ExpireAtMS m = 0) ''expire_at_ms'' (MInt (mm_ExpireAtMS m))
     @ omit_if (mm_AccessLevel m = []) ''access_level'' (MStr (mm_AccessLevel m))
     @ omit_if (mm_TraceID m = []) ''trace_id'' (MStr (mm_TraceID m))
     @ omit_if (mm_SessionTrace m = []) ''session_trace_id'' (MStr (mm_SessionTrace m))
     @ omit_if (mm_Tags m = []) ''tags'' (MArr (map MStr (mm_Tags m)))
     @ omit_if (mm_ReplyTo m = []) ''reply_to'' (MStr (mm_ReplyTo m))
     @ omit_if (mm_IsEphemeral m = 0) ''is_ephemeral'' (MInt (mm_IsEphemeral m))
     @ map_field ''rich'' (mm_Rich m)
     @ omit_if (mm_AutoMod m = []) ''automod'' (MArr (map MDoc (mm_AutoMod m)))
     @ opt_field ''revoke'' bson_RevokeModel (mm_Revoke m)"

definition bson_MessageModel :: "MessageModel \<Rightarrow> doc" where
  "bson_MessageModel m = bson_msg_head m @ bson_msg_elems m @ bson_msg_rest m"

end
