(* ===== verification/MsgBuild.thy ===== *)
theory MsgBuild
  imports MsgData
begin

section \<open>From a frame's message to the stored message\<close>

text \<open>
  \<^verbatim>\<open>module/chat/service/message.go\<close>. The formats of other packages are parameters: the JSON text
  of a protobuf struct, the maps a struct and a JSON text stand for. No law is needed of them.
\<close>

record codec =
  cd_Format :: "json option \<Rightarrow> string"
  cd_Unmarshal :: "string \<Rightarrow> json option go"

subsection \<open>Copies of the parts\<close>

definition AnyToMap :: "json option \<Rightarrow> json option" where
  "AnyToMap s = s"

text \<open>\<^verbatim>\<open>json.Unmarshal\<close> of \<^verbatim>\<open>null\<close> leaves the nil map.\<close>

definition TryParseJSONMap :: "codec \<Rightarrow> string \<Rightarrow> json option" where
  "TryParseJSONMap C v =
     (if TrimSpace v = '''' then None else case cd_Unmarshal C v of Ok m \<Rightarrow> m | _ \<Rightarrow> None)"

definition StructToJSONString :: "codec \<Rightarrow> json option \<Rightarrow> string" where
  "StructToJSONString C st = cd_Format C st"

definition copyPic :: "pb_PictureBaseInfo option \<Rightarrow> PictureBaseInfo option" where
  "copyPic p = map_option (\<lambda>p. \<lparr> pi_UUID = pbpi_Uuid p, pi_Type = pbpi_Type p, pi_Size = pbpi_Size p, pi_Width = pbpi_Width p, pi_Height = pbpi_Height p, pi_URL = pbpi_Url p \<rparr>) p"

text \<open>Nil entries are skipped.\<close>

definition copyEntities :: "pb_MessageEntity option list \<Rightarrow> MessageEntity list" where
  "copyEntities src = List.map_filter (map_option (\<lambda>e. \<lparr> me_Type = pbme_Type e, me_Offset = pbme_Offset e, me_Length = pbme_Length e, me_URL = pbme_Url e, me_Ex = pbme_Ex e \<rparr>)) src"

definition copyLite :: "pb_MessageData option \<Rightarrow> MessageLite option" where
  "copyLite m = map_option (\<lambda>m. \<lparr> ml_ServerMsgID = ph_ServerMsgId (pb_hd m), ml_ContentType = ph_ContentType (pb_hd m),
     ml_TextElem = map_option (\<lambda>t. \<lparr> te_Content = pbte_Content t \<rparr>) (ph_TextElem (pb_hd m)),
     ml_SendTimeMS = ph_SendTime (pb_hd m), ml_SendID = ph_SendId (pb_hd m), ml_RecvID = ph_RecvId (pb_hd m),
     ml_SessionType = ph_SessionType (pb_hd m) \<rparr>) m"

definition copyLiteSlice :: "pb_MessageData option list \<Rightarrow> MessageLite option list" where
  "copyLiteSlice l = map copyLite l"

definition copyAtInfos :: "pb_AtInfo option list \<Rightarrow> AtInfo list" where
  "copyAtInfos src = List.map_filter (map_option (\<lambda>a. \<lparr> ai_AtUserID = pbai_AtUserId a, ai_GroupNickname = pbai_GroupNickname a \<rparr>)) src"

subsection \<open>The content\<close>

text \<open>Previews that are written in the source, as their UTF-8 bytes.\<close>

definition lbl_picture :: string where
  "lbl_picture = [CHR ''['', CHR 0xE5, CHR 0x9B, CHR 0xBE, CHR 0xE7, CHR 0x89, CHR 0x87, CHR '']'']"

definition lbl_sound :: string where
  "lbl_sound = [CHR ''['', CHR 0xE8, CHR 0xAF, CHR 0xAD, CHR 0xE9, CHR 0x9F, CHR 0xB3, CHR '']'']"

definition lbl_video :: string where
  "lbl_video = [CHR ''['', CHR 0xE8, CHR 0xA7, CHR 0x86, CHR 0xE9, CHR 0xA2, CHR 0x91, CHR '']'']"

definition lbl_file :: string where
  "lbl_file = [CHR ''['', CHR 0xE6, CHR 0x96, CHR 0x87, CHR 0xE4, CHR 0xBB, CHR 0xB6, CHR '']'', CHR '' '']"

definition lbl_location :: string where
  "lbl_location = [CHR ''['', CHR 0xE4, CHR 0xBD, CHR 0x8D, CHR 0xE7, CHR 0xBD, CHR 0xAE, CHR '']'', CHR '' '']"

definition lbl_card :: string where
  "lbl_card = [CHR ''['', CHR 0xE5, CHR 0x90, CHR 0x8D, CHR 0xE7, CHR 0x89, CHR 0x87, CHR '']'', CHR '' '']"

definition lbl_face :: string where
  "lbl_face = [CHR ''['', CHR 0xE8, CHR 0xA1, CHR 0xA8, CHR 0xE6, CHR 0x83, CHR 0x85, CHR '']'']"

definition lbl_merge :: string where
  "lbl_merge = [CHR ''['', CHR 0xE5, CHR 0x90, CHR 0x88, CHR 0xE5, CHR 0xB9, CHR 0xB6, CHR 0xE8, CHR 0xBD, CHR 0xAC, CHR 0xE5, CHR 0x8F, CHR 0x91, CHR '']'', CHR '' '']"

definition lbl_typing :: string where
  "lbl_typing = [CHR ''['', CHR 0xE6, CHR 0xAD, CHR 0xA3, CHR 0xE5, CHR 0x9C, CHR 0xA8, CHR 0xE8, CHR 0xBE, CHR 0x93, CHR 0xE5, CHR 0x85, CHR 0xA5, CHR '']'']"

definition lbl_custom :: string where
  "lbl_custom = [CHR ''['', CHR 0xE8, CHR 0x87, CHR 0xAA, CHR 0xE5, CHR 0xAE, CHR 0x9A, CHR 0xE4, CHR 0xB9, CHR 0x89, CHR '']'', CHR '' '']"

definition lbl_notification :: string where
  "lbl_notification = [CHR ''['', CHR 0xE9, CHR 0x80, CHR 0x9A, CHR 0xE7, CHR 0x9F, CHR 0xA5, CHR '']'']"

text \<open>The branches of the switch: the element and the preview.\<close>

definition put_text :: "pb_TextElem \<Rightarrow> MessageModel \<Rightarrow> MessageModel" where
  "put_text e m = m\<lparr> mm_TextElem := Some \<lparr> te_Content = pbte_Content e \<rparr>,
     mm_ContentText := TrimPreview (pbte_Content e) \<rparr>"

definition put_advanced :: "pb_AdvancedTextElem \<Rightarrow> MessageModel \<Rightarrow> MessageModel" where
  "put_advanced e m = m\<lparr> mm_AdvancedTextElem := Some \<lparr> ae_Text = pbae_Text e, ae_MessageEntityList = copyEntities (pbae_MessageEntityList e) \<rparr>,
     mm_ContentText := TrimPreview (pbae_Text e) \<rparr>"

definition put_markdown :: "pb_MarkdownTextElem \<Rightarrow> MessageModel \<Rightarrow> MessageModel" where
  "put_markdown e m = m\<lparr> mm_MarkdownTextElem := Some \<lparr> mk_Content = pbmk_Content e \<rparr>,
     mm_ContentText := TrimPreview (pbmk_Content e) \<rparr>"

definition put_picture :: "pb_PictureElem \<Rightarrow> MessageModel \<Rightarrow> MessageModel" where
  "put_picture e m = m\<lparr> mm_PictureElem := Some \<lparr> pe_SourcePicture = copyPic (pbpe_SourcePicture e), pe_BigPicture = copyPic (pbpe_BigPicture e),
       pe_SnapshotPicture = copyPic (pbpe_SnapshotPicture e) \<rparr>,
     mm_ContentText := lbl_picture \<rparr>"

definition put_sound :: "pb_SoundElem \<Rightarrow> MessageModel \<Rightarrow> MessageModel" where
  "put_sound e m = m\<lparr> mm_SoundElem := Some \<lparr> se_UUID = pbse_Uuid e, se_SoundPath = pbse_SoundPath e, se_SourceURL = pbse_SourceUrl e, se_DataSize = pbse_DataSize e, se_Duration = pbse_Duration e, se_SoundType = pbse_SoundType e \<rparr>,
     mm_ContentText := lbl_sound \<rparr>"

definition put_video :: "pb_VideoElem \<Rightarrow> MessageModel \<Rightarrow> MessageModel" where
  "put_video e m = m\<lparr> mm_VideoElem := Some \<lparr> ve_VideoPath = pbve_VideoPath e, ve_VideoUUID = pbve_VideoUuid e, ve_VideoURL = pbve_VideoUrl e, ve_VideoType = pbve_VideoType e, ve_VideoSize = pbve_VideoSize e, ve_Duration = pbve_Duration e, ve_SnapshotPath = pbve_SnapshotPath e, ve_SnapshotUUID = pbve_SnapshotUuid e, ve_SnapshotSize = pbve_SnapshotSize e, ve_SnapshotURL = pbve_SnapshotUrl e, ve_SnapshotWidth = pbve_SnapshotWidth e, ve_SnapshotHeight = pbve_SnapshotHeight e, ve_SnapshotType = pbve_SnapshotType e \<rparr>,
     mm_ContentText := lbl_video \<rparr>"

definition put_file :: "pb_FileElem \<Rightarrow> MessageModel \<Rightarrow> MessageModel" where
  "put_file e m = m\<lparr> mm_FileElem := Some \<lparr> fe_UUID = pbfe_Uuid e, fe_SourceURL = pbfe_SourceUrl e, fe_FileName = pbfe_FileName e, fe_FileSize = pbfe_FileSize e, fe_FileType = pbfe_FileType e \<rparr>,
     mm_ContentText := lbl_file @ pbfe_FileName e \<rparr>"

definition put_location :: "pb_LocationElem \<Rightarrow> MessageModel \<Rightarrow> MessageModel" where
  "put_location e m = m\<lparr> mm_LocationElem := Some \<lparr> le_Description = pble_Description e, le_Longitude = pble_Longitude e, le_Latitude = pble_Latitude e \<rparr>,
     mm_ContentText := lbl_location @ pble_Description e \<rparr>"

definition put_card :: "pb_CardElem \<Rightarrow> MessageModel \<Rightarrow> MessageModel" where
  "put_card e m = m\<lparr> mm_CardElem := Some \<lparr> cd_UserID = pbcd_UserId e, cd_Nickname = pbcd_Nickname e, cd_FaceURL = pbcd_FaceUrl e, cd_Ex = pbcd_Ex e \<rparr>,
     mm_ContentText := lbl_card @ pbcd_Nickname e \<rparr>"

definition put_at :: "pb_AtTextElem \<Rightarrow> MessageModel \<Rightarrow> MessageModel" where
  "put_at e m = m\<lparr> mm_AtTextElem := Some \<lparr> at_Text = pbat_Text e, at_AtUserList = pbat_AtUserList e,
       at_AtUsersInfo = copyAtInfos (pbat_AtUsersInfo e), at_QuoteMessage = copyLite (pbat_QuoteMessage e),
       at_IsAtSelf = pbat_IsAtSelf e \<rparr>,
     mm_ContentText := TrimPreview (pbat_Text e) \<rparr>"

definition put_face :: "codec \<Rightarrow> pb_FaceElem \<Rightarrow> MessageModel \<Rightarrow> MessageModel" where
  "put_face C e m = m\<lparr> mm_FaceElem := Some \<lparr> fa_Index = pbfa_Index e, fa_Data = TryParseJSONMap C (StructToJSONString C (pbfa_Data e)) \<rparr>,
     mm_ContentText := lbl_face \<rparr>"

definition put_merge :: "pb_MergeElem \<Rightarrow> MessageModel \<Rightarrow> MessageModel" where
  "put_merge e m = m\<lparr> mm_MergeElem := Some \<lparr> mg_Title = pbmg_Title e, mg_AbstractList = pbmg_AbstractList e,
       mg_MultiMessage = copyLiteSlice (pbmg_MultiMessage e), mg_MessageEntityList = copyEntities (pbmg_MessageEntityList e) \<rparr>,
     mm_ContentText := lbl_merge @ pbmg_Title e \<rparr>"

definition put_quote :: "pb_QuoteElem \<Rightarrow> MessageModel \<Rightarrow> MessageModel" where
  "put_quote e m = m\<lparr> mm_QuoteElem := Some \<lparr> qe_Text = pbqe_Text e, qe_QuoteMessage = copyLite (pbqe_QuoteMessage e) \<rparr>,
     mm_ContentText := TrimPreview (pbqe_Text e) \<rparr>"

text \<open>For typing no element is stored.\<close>

definition put_typing :: "string \<Rightarrow> MessageModel \<Rightarrow> MessageModel" where
  "put_typing e m = m\<lparr> mm_ContentText := lbl_typing \<rparr>"

definition put_custom :: "pb_CustomElem \<Rightarrow> MessageModel \<Rightarrow> MessageModel" where
  "put_custom e m = m\<lparr> mm_CustomElem := Some \<lparr> ce_Data = AnyToMap (pbce_Data e), ce_Description = pbce_Description e, ce_Extension = pbce_Extension e \<rparr>,
     mm_ContentText := lbl_custom @ pbce_Description e \<rparr>"

definition put_notification :: "pb_NotificationElem \<Rightarrow> MessageModel \<Rightarrow> MessageModel" where
  "put_notification e m = m\<lparr> mm_NotificationElem := Some \<lparr> ne_Detail = pbne_Detail e \<rparr>,
     mm_ContentText := lbl_notification \<rparr>"

definition need_elem :: "string \<Rightarrow> 'e option \<Rightarrow> ('e \<Rightarrow> MessageModel \<Rightarrow> MessageModel) \<Rightarrow> MessageModel \<Rightarrow> MessageModel go" where
  "need_elem err e put m = (case e of None \<Rightarrow> Error err | Some x \<Rightarrow> Ok (put x m))"

definition set_content :: "codec \<Rightarrow> pb_MessageData \<Rightarrow> MessageModel \<Rightarrow> MessageModel go" where
  "set_content C md m =
     (let ct = ph_ContentType (pb_hd md) in
      if ct = TEXT then need_elem ''content_type=TEXT but text_elem is nil'' (ph_TextElem (pb_hd md)) put_text m
      else if ct = ADVANCED_TEXT then need_elem ''content_type=ADVANCED_TEXT but advanced_text_elem is nil'' (ph_AdvancedTextElem (pb_hd md)) put_advanced m
      else if ct = MARKDOWN then need_elem ''content_type=MARKDOWN but markdown_text_elem is nil'' (ph_MarkdownTextElem (pb_hd md)) put_markdown m
      else if ct = PICTURE then need_elem ''content_type=PICTURE but picture_elem is nil'' (ph_PictureElem (pb_hd md)) put_picture m
      else if ct = SOUND then need_elem ''content_type=SOUND but sound_elem is nil'' (ph_SoundElem (pb_hd md)) put_sound m
      else if ct = VIDEO then need_elem ''content_type=VIDEO but video_elem is nil'' (ph_VideoElem (pb_hd md)) put_video m
      else if ct = FILE then need_elem ''content_type=FILE but file_elem is nil'' (ph_FileElem (pb_hd md)) put_file m
      else if ct = LOCATION then need_elem ''content_type=LOCATION but location_elem is nil'' (ph_LocationElem (pb_hd md)) put_location m
      else if ct = CARD_MSG then need_elem ''content_type=CARD but card_elem is nil'' (ph_CardElem (pb_hd md)) put_card m
      else if ct = AT_TEXT then need_elem ''content_type=AT_TEXT but at_text_elem is nil'' (pb_AtText md) put_at m
      else if ct = FACE then need_elem ''content_type=FACE but face_elem is nil'' (ph_FaceElem (pb_hd md)) (put_face C) m
      else if ct = MERGE then need_elem ''content_type=MERGE but merge_elem is nil'' (pb_Merge md) put_merge m
      else if ct = QUOTE then need_elem ''content_type=QUOTE but quote_elem is nil'' (pb_Quote md) put_quote m
      else if ct = TYPING then need_elem ''content_type=TYPING but typing_elem is nil'' (ph_TypingElem (pb_hd md)) put_typing m
      else if ct = CUSTOM then need_elem ''content_type=CUSTOM but custom_elem is nil'' (ph_CustomElem (pb_hd md)) put_custom m
      else if ct = MsgNOTIFICATION then need_elem ''content_type=MsgNOTIFICATION but notification_elem is nil'' (ph_NotificationElem (pb_hd md)) put_notification m
      else Error ''unsupported content_type'')"

subsection \<open>The message\<close>

definition offline_push :: "pb_OfflinePushInfo option \<Rightarrow> OfflinePushInfo option" where
  "offline_push p = map_option (\<lambda>e. \<lparr> op_Title = pbop_Title e, op_Desc = pbop_Desc e, op_Ex = pbop_Ex e, op_IOSBadgeCountPlus1 = pbop_IosBadgeCountPlus1 e, op_IOSCategory = pbop_IosCategory e, op_IosSound = pbop_IosSound e, op_AndroidVivoClassification = pbop_AndroidVivoClassification e \<rparr>) p"

text \<open>The fields every message has; \<open>sid\<close> is the id that \<^verbatim>\<open>ids.GenerateString\<close> drew, \<open>now\<close> the clock in ms.\<close>

definition base_message :: "codec \<Rightarrow> int \<Rightarrow> string \<Rightarrow> string \<Rightarrow> pb_head \<Rightarrow> int \<Rightarrow> string \<Rightarrow> MessageModel" where
  "base_message C now sid tenantID h seq conversationID = \<lparr>
     mm_ID = zero_oid,
     mm_TenantID = tenantID,
     mm_ClientMsgID = ph_ClientMsgId h,
     mm_ServerMsgID = sid,
     mm_CreateTimeMS = Nz64 (ph_CreateTime h) now,
     mm_SendTimeMS = Nz64 (ph_SendTime h) now,
     mm_SessionType = ph_SessionType h,
     mm_SendID = ph_SendId h,
     mm_RecvID = ph_RecvId h,
     mm_MsgFrom = ph_MsgFrom h,
     mm_ContentType = ph_ContentType h,
     mm_SenderPlatformID = ph_SenderPlatformId h,
     mm_SenderNickname = ph_SenderNickname h,
     mm_SenderFaceURL = ph_SenderFaceUrl h,
     mm_GroupID = ph_GroupId h,
     mm_ConversationID = conversationID,
     mm_Seq = seq,
     mm_IsRead = Bool2i (ph_IsRead h),
     mm_Status = ph_Status h,
     mm_GuildID = ph_GuildId h,
     mm_ChannelID = ph_ChannelId h,
     mm_ThreadID = ph_ThreadId h,
     mm_TextElem = None,
     mm_AdvancedTextElem = None,
     mm_MarkdownTextElem = None,
     mm_PictureElem = None,
     mm_SoundElem = None,
     mm_VideoElem = None,
     mm_FileElem = None,
     mm_LocationElem = None,
     mm_CardElem = None,
     mm_AtTextElem = None,
     mm_FaceElem = None,
     mm_MergeElem = None,
     mm_QuoteElem = None,
     mm_CustomElem = None,
     mm_NotificationElem = None,
     mm_ContentText = '''',
     mm_OfflinePush = offline_push (ph_OfflinePush h),
     mm_AttachedInfo = ph_AttachedInfo h,
     mm_Ex = TryParseJSONMap C (ph_Ex h),
     mm_LocalEx = ph_LocalEx h,
     mm_IsEdited = Bool2i (ph_IsEdited h),
     mm_EditedAtMS = ph_EditedAt h,
     mm_EditVersion = ph_EditVersion h,
     mm_ExpireAtMS = ph_ExpireAt h,
     mm_AccessLevel = ph_AccessLevel h,
     mm_TraceID = ph_TraceId h,
     mm_SessionTrace = ph_SessionId h,
     mm_Tags = ph_Tags h,
     mm_ReplyTo = ph_ReplyTo h,
     mm_IsEphemeral = Bool2i (ph_IsEphemeral h),
     mm_Rich = None,
     mm_AutoMod = [],
     mm_Revoke = None \<rparr>"

definition BuildMessageModelFromPB ::
  "codec \<Rightarrow> int \<Rightarrow> string \<Rightarrow> string \<Rightarrow> pb_MessageData option \<Rightarrow> int \<Rightarrow> string \<Rightarrow> MessageModel go" where
  "BuildMessageModelFromPB C now sid tenantID md seq conversationID =
     (case md of None \<Rightarrow> Error ''nil MessageData''
      | Some d \<Rightarrow> set_content C d (base_message C now sid tenantID (pb_hd d) seq conversationID))"

end
