(* ===== verification/Frames.thy ===== *)
theory Frames
  imports MsgBuild RedisLib
begin

section \<open>Frames\<close>

text \<open>
  The frames between clients, gateways and data nodes (\<^verbatim>\<open>gen/message/frame.pb.go\<close>, the fields the
  program uses) and their constructors in \<^verbatim>\<open>service/chat/frames.go\<close> and
  \<^verbatim>\<open>module/chat/service/message.go\<close>. Reading the payload of an authentication frame uses the
  package mapstructure, a parameter.
\<close>

subsection \<open>The frame\<close>

abbreviation (input) FT_DATA :: int where "FT_DATA \<equiv> 1"
abbreviation (input) FT_DELIVER :: int where "FT_DELIVER \<equiv> 4"
abbreviation (input) FT_PING :: int where "FT_PING \<equiv> 5"
abbreviation (input) FT_AUTH :: int where "FT_AUTH \<equiv> 9"
abbreviation (input) FT_CONN :: int where "FT_CONN \<equiv> 10"
abbreviation (input) FT_ACK :: int where "FT_ACK \<equiv> 11"
abbreviation (input) FT_SYNC :: int where "FT_SYNC \<equiv> 13"
abbreviation (input) FT_CACK :: int where "FT_CACK \<equiv> 18"

record pb_Conversation =
  pbc_TenantId :: string
  pbc_OwnerUserId :: string
  pbc_ConversationId :: string
  pbc_ConversationType :: int
  pbc_UserId :: string
  pbc_GroupId :: string
  pbc_ReadSeq :: int
  pbc_ReadOutboxSeq :: int
  pbc_LocalMaxSeq :: int
  pbc_MinSeq :: int
  pbc_ServerMaxSeq :: int
  pbc_MentionUnread :: int
  pbc_MentionReadSeq :: int
  pbc_PerDeviceReadSeq :: "(string, int) gomap"
  pbc_UpdatedAt :: int

datatype pb_Body = NoBody | Payload pb_MessageData | SyncConversations "pb_Conversation list" | EncryptedPayload string

record MessageFrameData =
  fr_Type :: int
  fr_From :: string
  fr_To :: string
  fr_Ts :: int
  fr_GatewayId :: string
  fr_ConnId :: string
  fr_TenantId :: string
  fr_AppId :: string
  fr_Qos :: int
  fr_Priority :: int
  fr_AckRequired :: bool
  fr_AckId :: string
  fr_DedupId :: string
  fr_Nonce :: string
  fr_ExpiresAt :: int
  fr_TraceId :: string
  fr_SessionId :: string
  fr_DeviceId :: string
  fr_Platform :: string
  fr_AppVersion :: string
  fr_Locale :: string
  fr_Meta :: "(string, string) gomap"
  fr_Body :: pb_Body

definition zero_frame :: MessageFrameData where
  "zero_frame = \<lparr> fr_Type = 0, fr_From = '''', fr_To = '''', fr_Ts = 0, fr_GatewayId = '''', fr_ConnId = '''',
     fr_TenantId = '''', fr_AppId = '''', fr_Qos = 0, fr_Priority = 0, fr_AckRequired = False, fr_AckId = '''',
     fr_DedupId = '''', fr_Nonce = '''', fr_ExpiresAt = 0, fr_TraceId = '''', fr_SessionId = '''', fr_DeviceId = '''',
     fr_Platform = '''', fr_AppVersion = '''', fr_Locale = '''', fr_Meta = [], fr_Body = NoBody \<rparr>"

text \<open>\<^verbatim>\<open>GetPayload\<close>: nil when the body is another one.\<close>

definition GetPayload :: "MessageFrameData \<Rightarrow> pb_MessageData option" where
  "GetPayload f = (case fr_Body f of Payload p \<Rightarrow> Some p | _ \<Rightarrow> None)"

definition zero_head :: pb_head where
  "zero_head = \<lparr> ph_ClientMsgId = '''', ph_ServerMsgId = '''', ph_CreateTime = 0, ph_SendTime = 0, ph_SessionType = 0,
     ph_SendId = '''', ph_RecvId = '''', ph_MsgFrom = 0, ph_ContentType = 0, ph_SenderPlatformId = 0,
     ph_SenderNickname = '''', ph_SenderFaceUrl = '''', ph_GroupId = '''', ph_Seq = 0, ph_IsRead = False, ph_Status = 0,
     ph_OfflinePush = None, ph_AttachedInfo = '''', ph_Ex = '''', ph_LocalEx = '''', ph_TextElem = None,
     ph_CardElem = None, ph_PictureElem = None, ph_SoundElem = None, ph_VideoElem = None, ph_FileElem = None,
     ph_FaceElem = None, ph_LocationElem = None, ph_CustomElem = None, ph_NotificationElem = None,
     ph_AdvancedTextElem = None, ph_MarkdownTextElem = None, ph_TypingElem = None, ph_IsEdited = False,
     ph_EditedAt = 0, ph_EditVersion = 0, ph_ExpireAt = 0, ph_AccessLevel = '''', ph_TraceId = '''',
     ph_SessionId = '''', ph_Tags = [], ph_GuildId = '''', ph_ChannelId = '''', ph_ThreadId = '''', ph_ReplyTo = '''',
     ph_IsEphemeral = False \<rparr>"

definition plain_msg :: "pb_head \<Rightarrow> pb_MessageData" where
  "plain_msg h = PbMessageData h None None None"

subsection \<open>Numbers in a protobuf struct\<close>

text \<open>\<^verbatim>\<open>structpb.NewStruct\<close> turns an integer into the nearest double.\<close>

definition float_of_int :: "int \<Rightarrow> float64" where
  "float_of_int n =
     (let v = nat \<bar>tonumber n\<bar>; e = bit_len v - 1 in
      if v = 0 then 0
      else (if n < 0 then 2 ^ 63 else 0) + (int e + 1023) * 2 ^ 52
           + (int (if e \<le> 52 then v * 2 ^ (52 - e) else v div 2 ^ (e - 52)) - 2 ^ 52))"

text \<open>It refuses a text that is not UTF-8; the program drops the error, and the struct is nil.\<close>

definition valid_utf8 :: "string \<Rightarrow> bool" where
  "valid_utf8 s \<longleftrightarrow> list_all (\<lambda>(r, b). r \<noteq> 0xFFFD \<or> length b = 3) (runes s)"

fun json_valid :: "mval \<Rightarrow> bool" where
  "json_valid (MStr s) \<longleftrightarrow> valid_utf8 s"
| "json_valid (MArr xs) \<longleftrightarrow> list_all json_valid xs"
| "json_valid (MDoc d) \<longleftrightarrow> list_all (\<lambda>(k, v). valid_utf8 k \<and> json_valid v) d"
| "json_valid _ \<longleftrightarrow> True"

definition NewStruct :: "json \<Rightarrow> json option" where
  "NewStruct d = (if json_valid (MDoc d) then Some d else None)"

subsection \<open>Replies of the server\<close>

definition BuildConnectionAck :: "int \<Rightarrow> string \<Rightarrow> string \<Rightarrow> string \<Rightarrow> string \<Rightarrow> MessageFrameData" where
  "BuildConnectionAck now connID gatewayID sessionID nodeID = zero_frame\<lparr> fr_Type := FT_CONN, fr_Ts := now,
     fr_GatewayId := gatewayID, fr_ConnId := connID, fr_SessionId := sessionID, fr_Meta := [(''node_id'', nodeID)] \<rparr>"

definition BuildSessionAck ::
  "int \<Rightarrow> string \<Rightarrow> string \<Rightarrow> string \<Rightarrow> string \<Rightarrow> string \<Rightarrow> MessageFrameData" where
  "BuildSessionAck now toUserID connID gatewayID sessionKey nodeID =
     (let st = NewStruct [(''type'', MStr ''session_ack''), (''session_key'', MStr sessionKey), (''node_id'', MStr nodeID),
                (''ts'', MDouble (float_of_int now))];
          msg = zero_head\<lparr> ph_ContentType := 399, ph_SessionType := 4, ph_MsgFrom := 2, ph_SenderPlatformId := 9,
                ph_CreateTime := now,
                ph_CustomElem := Some \<lparr> pbce_Data = st, pbce_Description = ''session_ack'', pbce_Extension = ''v1'' \<rparr> \<rparr>
      in zero_frame\<lparr> fr_Type := FT_DELIVER, fr_From := ''auth_service'', fr_To := toUserID, fr_Ts := now,
           fr_GatewayId := gatewayID, fr_ConnId := connID, fr_AppId := ''your-app'', fr_Body := Payload (plain_msg msg),
           fr_Qos := 1, fr_Priority := 0, fr_AckRequired := False \<rparr>)"

text \<open>A request without a payload makes the field access panic.\<close>

definition BuildAuthAck :: "int \<Rightarrow> MessageFrameData \<Rightarrow> MessageFrameData go" where
  "BuildAuthAck now req =
     (let st = NewStruct [(''ok'', MBool True), (''user_id'', MStr (fr_From req)), (''session_id'', MStr (fr_SessionId req)),
                (''conn_id'', MStr (fr_ConnId req)), (''device_id'', MStr (fr_DeviceId req)),
                (''granted_scopes'', MArr [MStr ''read'', MStr ''write'', MStr ''profile'']),
                (''token_expire_at'', MDouble (float_of_int (now + 3600 * 1000))),
                (''server_time'', MDouble (float_of_int now)),
                (''heartbeat'', MDoc [(''ping_interval_ms'', MDouble (float_of_int 25000)),
                                      (''pong_timeout_ms'', MDouble (float_of_int 75000))]),
                (''policy'', MDoc [(''max_sessions'', MDouble (float_of_int 5)),
                                   (''kick_unauth_after_ms'', MDouble (float_of_int 30000))])]
      in case GetPayload req of
           None \<Rightarrow> Panic ''invalid memory address or nil pointer dereference''
         | Some p \<Rightarrow> Ok (zero_frame\<lparr> fr_Type := FT_AUTH, fr_From := fr_To req, fr_To := fr_From req, fr_Ts := now,
             fr_GatewayId := fr_GatewayId req, fr_ConnId := fr_ConnId req, fr_TenantId := fr_TenantId req,
             fr_AppId := fr_AppId req, fr_Qos := 1, fr_Priority := 0, fr_AckId := fr_AckId req,
             fr_DedupId := ''authack-'' @ itoa now, fr_Nonce := fr_Nonce req, fr_ExpiresAt := now + 3600 * 1000,
             fr_SessionId := fr_SessionId req, fr_DeviceId := fr_DeviceId req, fr_Platform := fr_Platform req,
             fr_AppVersion := fr_AppVersion req, fr_Locale := fr_Locale req,
             fr_Meta := [(''ip'', ''203.0.113.10''), (''ua'', ''Chrome/139'')],
             fr_Body := Payload (plain_msg (zero_head\<lparr> ph_ClientMsgId := ph_ClientMsgId (pb_hd p),
               ph_ServerMsgId := fr_SessionId req, ph_CreateTime := now, ph_SendTime := now, ph_SessionType := 4,
               ph_SendId := ''gateway_auth'', ph_RecvId := fr_From req, ph_MsgFrom := ph_MsgFrom (pb_hd p),
               ph_ContentType := ph_ContentType (pb_hd p), ph_SenderPlatformId := 99, ph_SenderNickname := ''System'',
               ph_IsRead := False, ph_Status := 0,
               ph_CustomElem := Some \<lparr> pbce_Data = st, pbce_Description = ''session_ack'', pbce_Extension = ''v1'' \<rparr> \<rparr>)) \<rparr>))"

definition BuildSendSuccessAckDeliver ::
  "int \<Rightarrow> string \<Rightarrow> string \<Rightarrow> string \<Rightarrow> MessageFrameData \<Rightarrow> MessageFrameData" where
  "BuildSendSuccessAckDeliver now toUser clientMsgID serverMsgID req = zero_frame\<lparr> fr_Type := FT_DELIVER,
     fr_From := ''im_server'' @ fr_GatewayId req, fr_To := toUser, fr_Ts := now, fr_GatewayId := fr_GatewayId req,
     fr_ConnId := fr_ConnId req, fr_SessionId := fr_SessionId req, fr_TenantId := fr_TenantId req,
     fr_AppId := fr_AppId req, fr_Qos := 1, fr_DedupId := ''deliver-'' @ serverMsgID,
     fr_Body := Payload (plain_msg (zero_head\<lparr> ph_ClientMsgId := clientMsgID, ph_ServerMsgId := serverMsgID,
       ph_SendTime := now, ph_SessionType := 1, ph_MsgFrom := 2, ph_ContentType := 401, ph_SenderPlatformId := 9,
       ph_SenderNickname := ''System'', ph_Status := 0,
       ph_NotificationElem := Some \<lparr> pbne_Detail =
         ''{'' @ [CHR 34] @ ''ok'' @ [CHR 34] @ '':true,'' @ [CHR 34] @ ''msg'' @ [CHR 34] @ '':'' @ [CHR 34]
           @ ''Message delivered successfully'' @ [CHR 34] @ ''}'' \<rparr> \<rparr>)) \<rparr>"

definition BuildPing :: "int \<Rightarrow> string \<Rightarrow> string \<Rightarrow> string \<Rightarrow> string \<Rightarrow> MessageFrameData" where
  "BuildPing now connID gatewayID sessionID nodeID = zero_frame\<lparr> fr_Type := FT_PING, fr_Ts := now,
     fr_GatewayId := gatewayID, fr_ConnId := connID, fr_SessionId := sessionID,
     fr_Meta := [(''node_id'', nodeID), (''ping_interval_ms'', ''25000''), (''pong_timeout_ms'', ''75000'')] \<rparr>"

subsection \<open>Authentication payloads\<close>

record AuthPayload =
  ap_Type :: string
  ap_Token :: string
  ap_TokenHash :: string
  ap_TS :: int
  ap_Nonce :: string
  ap_UserID :: string
  ap_DeviceID :: string
  ap_Scope :: "string list"
  ap_Sig :: string

definition ExtractAuthPayload :: "(json \<Rightarrow> AuthPayload go) \<Rightarrow> pb_MessageData option \<Rightarrow> AuthPayload go" where
  "ExtractAuthPayload decode msg =
     (case msg of None \<Rightarrow> Error ''nil MessageData''
      | Some m \<Rightarrow> (case ph_CustomElem (pb_hd m) of None \<Rightarrow> Error ''custom_elem is nil''
          | Some ce \<Rightarrow> (case pbce_Data ce of None \<Rightarrow> Error ''custom_elem.data (Struct) is nil''
              | Some st \<Rightarrow> decode st)))"

subsection \<open>Conversations for a client\<close>

record Conversation =
  cv_TenantID :: string
  cv_OwnerUserID :: string
  cv_ConversationID :: string
  cv_ConversationType :: int
  cv_UserID :: string
  cv_GroupID :: string
  cv_RecvMsgOpt :: int
  cv_IsPinned :: bool
  cv_IsPrivateChat :: bool
  cv_BurnDuration :: int
  cv_GroupAtType :: int
  cv_AttachedInfo :: string
  cv_Ex :: string
  cv_ReadSeq :: int
  cv_ReadOutboxSeq :: int
  cv_LocalMaxSeq :: int
  cv_MentionUnread :: int
  cv_MentionReadSeq :: int
  cv_MinSeq :: int
  cv_ServerMaxSeq :: int
  cv_PerDeviceReadSeq :: "(string, int) gomap"
  cv_CreateTime :: time
  cv_UpdatedAt :: time
  cv_IsMsgDestruct :: bool
  cv_MsgDestructTime :: time
  cv_LatestMsgDestructTime :: time

definition pb_conversation :: "Conversation \<Rightarrow> pb_Conversation" where
  "pb_conversation c = \<lparr> pbc_TenantId = cv_TenantID c, pbc_OwnerUserId = cv_OwnerUserID c,
     pbc_ConversationId = cv_ConversationID c, pbc_ConversationType = cv_ConversationType c, pbc_UserId = cv_UserID c,
     pbc_GroupId = cv_GroupID c, pbc_ReadSeq = cv_ReadSeq c, pbc_ReadOutboxSeq = cv_ReadOutboxSeq c,
     pbc_LocalMaxSeq = cv_LocalMaxSeq c, pbc_MinSeq = cv_MinSeq c, pbc_ServerMaxSeq = cv_ServerMaxSeq c,
     pbc_MentionUnread = cv_MentionUnread c, pbc_MentionReadSeq = cv_MentionReadSeq c,
     pbc_PerDeviceReadSeq = cv_PerDeviceReadSeq c, pbc_UpdatedAt = cv_UpdatedAt c div millisecond \<rparr>"

text \<open>Nil conversations are skipped. Packing into \<^verbatim>\<open>Any\<close> is the library's call \<open>pack\<close>.\<close>

definition BuildSyncFrameConversations ::
  "(pb_Conversation list \<Rightarrow> unit go) \<Rightarrow> int \<Rightarrow> string \<Rightarrow> Conversation option list \<Rightarrow> MessageFrameData go" where
  "BuildSyncFrameConversations pack now userID convList =
     (let items = List.map_filter (map_option pb_conversation) convList
      in case pack items of
           Error e \<Rightarrow> Error e
         | Panic e \<Rightarrow> Panic e
         | Ok _ \<Rightarrow> Ok (zero_frame\<lparr> fr_Type := FT_SYNC, fr_From := ''im_server'', fr_To := userID, fr_Ts := now,
             fr_GatewayId := '''', fr_ConnId := '''', fr_SessionId := '''', fr_AckRequired := True,
             fr_Body := SyncConversations items \<rparr>))"

end
