(* ===== verification/BsonCode.thy ===== *)
theory BsonCode
  imports MsgData SeqStore
begin

section \<open>Fields of documents\<close>

text \<open>
  What the driver reads into the fields of a Go struct: a missing field and null are the zero value, a
  value of another type is an error. \<open>decode_int64\<close> is in \<open>SeqStore\<close>, the writing of optional
  fields in \<open>MsgData\<close>.
\<close>

definition decode_str :: "doc \<Rightarrow> string \<Rightarrow> string go" where
  "decode_str d k = (case map_of d k of
       None \<Rightarrow> Ok '''' | Some (MStr s) \<Rightarrow> Ok s | Some MNull \<Rightarrow> Ok '''' | _ \<Rightarrow> Error ''error decoding key'')"

definition decode_int32 :: "doc \<Rightarrow> string \<Rightarrow> int go" where
  "decode_int32 d k = (case decode_int64 d k of
       Ok n \<Rightarrow> if - (2 ^ 31) \<le> n \<and> n < 2 ^ 31 then Ok n else Error ''error decoding key'' | Error e \<Rightarrow> Error e | Panic e \<Rightarrow> Panic e)"

definition decode_bool :: "doc \<Rightarrow> string \<Rightarrow> bool go" where
  "decode_bool d k = (case map_of d k of
       None \<Rightarrow> Ok False | Some (MBool b) \<Rightarrow> Ok b | Some MNull \<Rightarrow> Ok False | Some (MInt n) \<Rightarrow> Ok (n \<noteq> 0)
     | _ \<Rightarrow> Error ''error decoding key'')"

definition decode_time :: "doc \<Rightarrow> string \<Rightarrow> time go" where
  "decode_time d k = (case map_of d k of
       None \<Rightarrow> Ok zero_time | Some (MTime t) \<Rightarrow> Ok t | Some MNull \<Rightarrow> Ok zero_time
     | Some (MInt n) \<Rightarrow> Ok (n * millisecond) | _ \<Rightarrow> Error ''error decoding key'')"

fun decode_ints :: "doc \<Rightarrow> (string, int) gomap go" where
  "decode_ints [] = Ok []"
| "decode_ints ((k, v) # d) = (case decode_int64 [(k, v)] k of
     Ok n \<Rightarrow> (case decode_ints d of Ok m \<Rightarrow> Ok ((k, n) # m) | e \<Rightarrow> e) | Error e \<Rightarrow> Error e | Panic e \<Rightarrow> Panic e)"

definition decode_int_map :: "doc \<Rightarrow> string \<Rightarrow> (string, int) gomap go" where
  "decode_int_map d k = (case map_of d k of
       None \<Rightarrow> Ok [] | Some (MDoc m) \<Rightarrow> decode_ints m | Some MNull \<Rightarrow> Ok [] | _ \<Rightarrow> Error ''error decoding key'')"

definition go_bind :: "'a go \<Rightarrow> ('a \<Rightarrow> 'b go) \<Rightarrow> 'b go" where
  "go_bind x f = (case x of Ok a \<Rightarrow> f a | Error e \<Rightarrow> Error e | Panic e \<Rightarrow> Panic e)"

text \<open>A date of MongoDB has whole milliseconds.\<close>

definition bson_time :: "time \<Rightarrow> mval" where
  "bson_time t = MTime (t div millisecond * millisecond)"

definition decode_time_opt :: "doc \<Rightarrow> string \<Rightarrow> time option go" where
  "decode_time_opt d k = (case map_of d k of
       None \<Rightarrow> Ok None | Some MNull \<Rightarrow> Ok None | _ \<Rightarrow> go_bind (decode_time d k) (\<lambda>t. Ok (Some t)))"

fun decode_str_list :: "mval list \<Rightarrow> string list go" where
  "decode_str_list [] = Ok []"
| "decode_str_list (v # vs) =
     (case v of MStr s \<Rightarrow> go_bind (decode_str_list vs) (\<lambda>ss. Ok (s # ss)) | _ \<Rightarrow> Error ''error decoding key'')"

definition decode_strs :: "doc \<Rightarrow> string \<Rightarrow> string list go" where
  "decode_strs d k = (case map_of d k of
       None \<Rightarrow> Ok [] | Some MNull \<Rightarrow> Ok [] | Some (MArr vs) \<Rightarrow> decode_str_list vs | _ \<Rightarrow> Error ''error decoding key'')"

text \<open>A lookup in a document that is written field by field.\<close>

lemma map_of_omit_if [simp]: "map_of (omit_if z k v) k' = (if z \<or> k \<noteq> k' then None else Some v)"
  by (simp add: omit_if_def)

lemma map_of_omit_app: "map_of (omit_if z k v @ xs) j = (if \<not> z \<and> j = k then Some v else map_of xs j)"
  by (simp add: omit_if_def)

lemma map_of_opt_field: "map_of (opt_field k f x @ xs) j = (if x \<noteq> None \<and> j = k then map_option f x else map_of xs j)"
  by (auto simp: opt_field_def split: option.splits)

lemma map_of_field: "map_of ([(k, v)] @ xs) j = (if j = k then Some v else map_of xs j)"
  by simp

lemma map_of_last: "map_of [(k, v)] j = (if j = k then Some v else None)"
  by simp

lemmas bson_lookup = map_of_omit_app map_of_opt_field map_of_field map_of_last

lemma decode_str_list_map [simp]: "decode_str_list (map MStr ss) = Ok ss"
  by (induction ss) (simp_all add: go_bind_def)

lemma go_bind_Ok [simp]: "go_bind (Ok x) f = f x"
  by (simp add: go_bind_def)

lemma go_bind_OkD: "go_bind x f = Ok y \<Longrightarrow> \<exists>a. x = Ok a \<and> f a = Ok y"
  by (cases x) (simp_all add: go_bind_def)

end
