(* ===== verification/KafkaTopics.thy ===== *)
theory KafkaTopics
  imports GoStrings "HOL-Library.Word" "HOL-Library.List_Lexorder" "HOL-Library.Char_ord"
begin

section \<open>Topics of the message broker\<close>

text \<open>
  \<^verbatim>\<open>service/dispatcher/kafka/\<close>: the names of topics (\<^verbatim>\<open>config.go\<close>, \<^verbatim>\<open>router.go\<close>), the table
  of handlers (\<^verbatim>\<open>handler.go\<close>) and the creation of topics at start (\<^verbatim>\<open>topic_ensure.go\<close>), and the
  part of \<^verbatim>\<open>global/config/config.go\<close> that configures them. A handler is known by its address, a number.
  The broker's administration client is a parameter.
\<close>

unbundle bit_operations_syntax

subsection \<open>Patterns\<close>

text \<open>
  \<^verbatim>\<open>fmt.Sprintf\<close> with one integer, for patterns whose verbs are \<^verbatim>\<open>%d\<close> and \<^verbatim>\<open>%%\<close>;
  \<open>used\<close> says that the integer was printed.
\<close>

fun sprintf_from :: "bool \<Rightarrow> string \<Rightarrow> int \<Rightarrow> string" where
  "sprintf_from used [] i = (if used then [] else ''%!(EXTRA int='' @ itoa i @ '')'')"
| "sprintf_from used (c # []) i = (if c = CHR ''%'' then ''%!(NOVERB)'' else [c]) @ sprintf_from used [] i"
| "sprintf_from used (c # d # s) i =
     (if c = CHR ''%'' \<and> d = CHR ''d'' then (if used then ''%!d(MISSING)'' else itoa i) @ sprintf_from True s i
      else if c = CHR ''%'' \<and> d = CHR ''%'' then CHR ''%'' # sprintf_from used s i
      else c # sprintf_from used (d # s) i)"

definition sprintf_int :: "string \<Rightarrow> int \<Rightarrow> string" where
  "sprintf_int pattern i = sprintf_from False pattern i"

definition key_at :: "string \<Rightarrow> nat \<Rightarrow> string" where
  "key_at pattern i =
     (if str_contains ''%d'' pattern then sprintf_int pattern (int i)
      else if str_contains ''{i}'' pattern then ReplaceAll pattern ''{i}'' (itoa (int i))
      else pattern @ ''-'' @ itoa (int i))"

definition expandPattern :: "string \<Rightarrow> int \<Rightarrow> string list" where
  "expandPattern pattern cnt = map (key_at pattern) [0..<nat (max 1 cnt)]"

definition expandPatterns :: "string list \<Rightarrow> int \<Rightarrow> string list" where
  "expandPatterns patterns cnt = concat (map (\<lambda>p. expandPattern p cnt) patterns)"

subsection \<open>Configuration\<close>

record message_handler_config =
  mh_Handler :: nat
  mh_MessageType :: int
  mh_SendTopicPattern :: string
  mh_ReceiveTopicPattern :: string
  mh_TopicCount :: int
  mh_ReplicationFactor :: int
  mh_IsConsumer :: bool
  mh_NodeId :: string

text \<open>\<^verbatim>\<open>make\<close> with a negative capacity panics.\<close>

definition genKeys :: "message_handler_config \<Rightarrow> string \<Rightarrow> int \<Rightarrow> bool \<Rightarrow> string list go" where
  "genKeys c pattern0 cnt isNeedNode =
     (if cnt < 0 then Panic ''makeslice: cap out of range''
      else let pattern = (if isNeedNode then mh_NodeId c @ ''_'' @ pattern0 else pattern0)
           in Ok (map (key_at pattern) [0..<nat cnt]))"

definition SendTopicKeys :: "message_handler_config \<Rightarrow> string list go" where
  "SendTopicKeys c = genKeys c (mh_SendTopicPattern c) (mh_TopicCount c) True"

definition ReceiveTopicKeys :: "message_handler_config \<Rightarrow> bool \<Rightarrow> string list go" where
  "ReceiveTopicKeys c isNeedNode = genKeys c (mh_ReceiveTopicPattern c) (mh_TopicCount c) isNeedNode"

definition Keys :: "message_handler_config \<Rightarrow> string list go" where
  "Keys c = (if mh_IsConsumer c then genKeys c (mh_SendTopicPattern c) (mh_TopicCount c) True
             else genKeys c (mh_ReceiveTopicPattern c) (mh_TopicCount c) True)"

record app_config =
  ac_Brokers :: "string list"
  ac_GroupID :: string
  ac_MessageConfigs :: "message_handler_config list"
  ac_AutoCreateTopicsOnStart :: bool

definition GetMessageHandlerConfig :: "app_config \<Rightarrow> int \<Rightarrow> message_handler_config option" where
  "GetMessageHandlerConfig c messageType = find (\<lambda>mc. mh_MessageType mc = messageType) (ac_MessageConfigs c)"

text \<open>\<open>None\<close> is the nil slice.\<close>

definition GetTopicKeys :: "app_config \<Rightarrow> int \<Rightarrow> string list option go" where
  "GetTopicKeys c messageType =
     (case GetMessageHandlerConfig c messageType of None \<Rightarrow> Ok None
      | Some mc \<Rightarrow> (case Keys mc of Ok ks \<Rightarrow> Ok (Some ks) | Error e \<Rightarrow> Error e | Panic e \<Rightarrow> Panic e))"

fun all_keys :: "message_handler_config list \<Rightarrow> string list go" where
  "all_keys [] = Ok []"
| "all_keys (mc # mcs) =
     (case Keys mc of
        Ok ks \<Rightarrow> (case all_keys mcs of Ok ks' \<Rightarrow> Ok (ks @ ks') | Error e \<Rightarrow> Error e | Panic e \<Rightarrow> Panic e)
      | Error e \<Rightarrow> Error e | Panic e \<Rightarrow> Panic e)"

definition GetAllTopicKeys :: "app_config \<Rightarrow> string list go" where
  "GetAllTopicKeys c = all_keys (ac_MessageConfigs c)"

text \<open>
  What \<^verbatim>\<open>ConfigKafka\<close> configures, from the type of the node and the topics of its configuration.
  The node id is that of the first gateway's configuration, \<open>gw\<close>, on every node.
\<close>

record node_config =
  nc_NodeType :: string
  nc_GroupId :: string
  nc_NodeId :: string
  nc_ReceiveTopic :: "int \<Rightarrow> string"
  nc_SendMsgTopic :: "int \<Rightarrow> string"

definition topics_of :: "string \<Rightarrow> string \<Rightarrow> int \<Rightarrow> string" where
  "topics_of d a t = (if t = 1 then d else if t = 18 then a else '''')"

definition MessageGatewayConfig :: node_config where
  "MessageGatewayConfig = \<lparr> nc_NodeType = ''msgGateWay'', nc_GroupId = ''message_gateway_node_01'', nc_NodeId = ''gateway_01'',
     nc_ReceiveTopic = topics_of ''message_receive_data'' ''message_receive_ack'',
     nc_SendMsgTopic = topics_of ''message_sender_data'' ''message_sender_ack'' \<rparr>"

definition MessageGatewayConfigV1 :: node_config where
  "MessageGatewayConfigV1 = \<lparr> nc_NodeType = ''msgGateWay'', nc_GroupId = ''message_gateway_node_01'', nc_NodeId = ''gateway_02'',
     nc_ReceiveTopic = topics_of ''message_receive_data'' ''message_receive_ack'',
     nc_SendMsgTopic = topics_of ''message_sender_data'' ''message_sender_ack'' \<rparr>"

definition MessageDataConfig :: node_config where
  "MessageDataConfig = \<lparr> nc_NodeType = ''msgDataNode'', nc_GroupId = ''message_data_node_02'', nc_NodeId = ''date_01'',
     nc_ReceiveTopic = topics_of ''message_receive_data'' ''message_receive_ack'',
     nc_SendMsgTopic = topics_of ''message_sender_data'' ''message_sender_ack'' \<rparr>"

definition MessageApiNodeConfig :: node_config where
  "MessageApiNodeConfig = \<lparr> nc_NodeType = ''apiNode'', nc_GroupId = ''message_api_node_03'', nc_NodeId = ''apiNode_01'',
     nc_ReceiveTopic = topics_of ''message_receive_data'' ''message_receive_ack'',
     nc_SendMsgTopic = topics_of ''message_sender_data'' ''message_sender_ack'' \<rparr>"

definition kafka_config :: "nat \<Rightarrow> node_config \<Rightarrow> int \<Rightarrow> message_handler_config" where
  "kafka_config h global t = \<lparr> mh_Handler = h, mh_MessageType = t, mh_SendTopicPattern = nc_SendMsgTopic global t,
     mh_ReceiveTopicPattern = nc_ReceiveTopic global t, mh_TopicCount = 2, mh_ReplicationFactor = 0,
     mh_IsConsumer = (nc_NodeType global = ''msgDataNode'' \<or> nc_NodeType global = ''apiNode''),
     mh_NodeId = nc_NodeId MessageGatewayConfig \<rparr>"

definition ConfigKafka :: "nat \<Rightarrow> node_config \<Rightarrow> app_config" where
  "ConfigKafka h global = \<lparr> ac_Brokers = [''127.0.0.1:9092''], ac_GroupID = nc_GroupId global,
     ac_MessageConfigs = [kafka_config h global 1, kafka_config h global 18], ac_AutoCreateTopicsOnStart = True \<rparr>"

subsection \<open>The topic of a user\<close>

text \<open>\<^verbatim>\<open>crc32.ChecksumIEEE\<close>, a bit at a time.\<close>

definition crc_bit :: "32 word \<Rightarrow> 32 word" where
  "crc_bit c = (if bit c 0 then drop_bit 1 c XOR 0xEDB88320 else drop_bit 1 c)"

definition crc_byte :: "char \<Rightarrow> 32 word \<Rightarrow> 32 word" where
  "crc_byte b c = (crc_bit ^^ 8) (c XOR of_char b)"

definition ChecksumIEEE :: "string \<Rightarrow> int" where
  "ChecksumIEEE s = uint (NOT (fold crc_byte s (NOT 0)))"

definition SelectTopicByUser :: "string \<Rightarrow> string list \<Rightarrow> string" where
  "SelectTopicByUser userId topics =
     (if length topics = 0 then '''' else topics ! nat (ChecksumIEEE userId mod int (length topics)))"

definition SelectCAckTopicByUser :: "string \<Rightarrow> string list \<Rightarrow> string" where
  "SelectCAckTopicByUser userId topics =
     (if length topics = 0 then '''' else topics ! nat (ChecksumIEEE userId mod int (length topics)))"

text \<open>All topics, each once, in the order they first appear.\<close>

fun add_new :: "string list \<Rightarrow> string list \<Rightarrow> string list" where
  "add_new out [] = out"
| "add_new out (t # ts) = add_new (if t \<in> set out then out else out @ [t]) ts"

fun gen_topics :: "string list \<Rightarrow> message_handler_config list \<Rightarrow> string list go" where
  "gen_topics out [] = Ok out"
| "gen_topics out (mc # mcs) =
     (case Keys mc of
        Ok pats \<Rightarrow> gen_topics (add_new out (concat (map (\<lambda>pat. expandPattern pat (mh_TopicCount mc)) pats))) mcs
      | Error e \<Rightarrow> Error e | Panic e \<Rightarrow> Panic e)"

definition GenTopics :: "app_config \<Rightarrow> string list go" where
  "GenTopics app = gen_topics [] (ac_MessageConfigs app)"

subsection \<open>Handlers\<close>

type_synonym handler_map = "(string, nat) gomap"

text \<open>\<open>None\<close> is the nil handler. The results are \<^verbatim>\<open>ok\<close> and \<^verbatim>\<open>duplicated\<close>.\<close>

definition RegisterHandler :: "string \<Rightarrow> nat option \<Rightarrow> handler_map \<Rightarrow> handler_map \<times> bool \<times> bool" where
  "RegisterHandler topic handler hm =
     (case handler of None \<Rightarrow> (hm, False, False)
      | Some h \<Rightarrow> (case map_of hm topic of
            Some old \<Rightarrow> (if old = h then (hm, True, True) else (hm, False, True))
          | None \<Rightarrow> (AList.update topic h hm, True, False)))"

definition GetHandler :: "string \<Rightarrow> handler_map \<Rightarrow> nat go" where
  "GetHandler topic hm = (case map_of hm topic of Some h \<Rightarrow> Ok h | None \<Rightarrow> Error (''no handler registered for topic: '' @ topic))"

definition RegisterDefaultHandlers :: "string list \<Rightarrow> nat \<Rightarrow> handler_map \<Rightarrow> handler_map" where
  "RegisterDefaultHandlers topics handler hm = fold (\<lambda>t hm. fst (RegisterHandler t (Some handler) hm)) topics hm"

subsection \<open>Topics at start\<close>

record topic_plan =
  tp_partitions :: int
  tp_replicationFactor :: int
  tp_configEntries :: "(string \<times> string) list"

record 'a admin_client =
  ad_Open :: "unit go"
  ad_ListTopics :: "'a \<Rightarrow> string list go"
  ad_CreateTopic :: "string \<Rightarrow> topic_plan \<Rightarrow> 'a \<Rightarrow> 'a \<times> unit go"
  ad_IsExists :: "string \<Rightarrow> bool"

text \<open>\<open>ad_IsExists\<close> is \<^verbatim>\<open>errors.Is(err, sarama.ErrTopicAlreadyExists)\<close>.\<close>

definition isTopicExistsErr :: "'a admin_client \<Rightarrow> string \<Rightarrow> bool" where
  "isTopicExistsErr A err \<longleftrightarrow> ad_IsExists A err \<or> str_contains ''already exists'' (ToLower err)"

definition wrap16 :: "int \<Rightarrow> int" where
  "wrap16 x = (x + 2 ^ 15) mod 2 ^ 16 - 2 ^ 15"

definition plan_of :: "message_handler_config \<Rightarrow> topic_plan" where
  "plan_of mc =
     (let rep0 = wrap16 (mh_ReplicationFactor mc); rep = (if rep0 \<le> 0 then 1 else rep0);
          minISR = (if 1 < rep then itoa (rep - 1) else ''1'')
      in \<lparr> tp_partitions = 3, tp_replicationFactor = rep,
           tp_configEntries = [(''cleanup.policy'', ''delete''), (''retention.ms'', ''604800000''),
             (''segment.bytes'', ''1073741824''), (''min.insync.replicas'', minISR),
             (''unclean.leader.election.enable'', ''false'')] \<rparr>)"

fun add_plans :: "string list \<Rightarrow> topic_plan \<Rightarrow> string list \<Rightarrow> (string, topic_plan) gomap \<Rightarrow> (string, topic_plan) gomap" where
  "add_plans existing p [] pm = pm"
| "add_plans existing p (t # ts) pm =
     add_plans existing p ts (if t \<in> set existing \<or> map_of pm t \<noteq> None then pm else AList.update t p pm)"

text \<open>\<open>safeSendKeys\<close> and \<open>safeRecvKeys\<close> call the methods; handlers are registered for both lists.\<close>

fun plan_topics ::
  "bool \<Rightarrow> string list \<Rightarrow> message_handler_config list \<Rightarrow> (string, topic_plan) gomap \<Rightarrow> handler_map \<Rightarrow>
   ((string, topic_plan) gomap \<times> handler_map) go" where
  "plan_topics auto existing [] pm hm = Ok (pm, hm)"
| "plan_topics auto existing (mc # mcs) pm hm =
     (if \<not> auto then plan_topics auto existing mcs pm hm
      else case SendTopicKeys mc of
             Ok sk \<Rightarrow>
              (case ReceiveTopicKeys mc True of
                 Ok rk \<Rightarrow>
                   plan_topics auto existing mcs
                     (add_plans existing (plan_of mc)
                        (expandPatterns [mh_SendTopicPattern mc] (mh_TopicCount mc)
                         @ expandPatterns [mh_ReceiveTopicPattern mc] (mh_TopicCount mc)) pm)
                     (RegisterDefaultHandlers rk (mh_Handler mc) (RegisterDefaultHandlers sk (mh_Handler mc) hm))
               | Error e \<Rightarrow> Error e | Panic e \<Rightarrow> Panic e)
           | Error e \<Rightarrow> Error e | Panic e \<Rightarrow> Panic e)"

fun create_topics :: "'a admin_client \<Rightarrow> (string \<times> topic_plan) list \<Rightarrow> 'a \<Rightarrow> 'a \<times> unit go" where
  "create_topics A [] a = (a, Ok ())"
| "create_topics A ((name, p) # rest) a =
     (case ad_CreateTopic A name p a of
        (a1, Ok _) \<Rightarrow> create_topics A rest a1
      | (a1, Error e) \<Rightarrow> if isTopicExistsErr A e then create_topics A rest a1
                        else (a1, Error (''create topic '' @ name @ '': '' @ e))
      | (a1, Panic e) \<Rightarrow> (a1, Panic e))"

definition EnsureTopics ::
  "'a admin_client \<Rightarrow> app_config \<Rightarrow> handler_map \<Rightarrow> 'a \<Rightarrow> 'a \<times> handler_map \<times> unit go" where
  "EnsureTopics A app hm a =
     (if length (ac_Brokers app) = 0 then (a, hm, Error ''no brokers provided'')
      else case ad_Open A of
             Error e \<Rightarrow> (a, hm, Error (''new cluster admin: '' @ e))
           | Panic e \<Rightarrow> (a, hm, Panic e)
           | Ok _ \<Rightarrow>
           case ad_ListTopics A a of
             Error e \<Rightarrow> (a, hm, Error (''list topics: '' @ e))
           | Panic e \<Rightarrow> (a, hm, Panic e)
           | Ok existing \<Rightarrow>
               (case plan_topics (ac_AutoCreateTopicsOnStart app) existing (ac_MessageConfigs app) [] hm of
                  Error e \<Rightarrow> (a, hm, Error e)
                | Panic e \<Rightarrow> (a, hm, Panic e)
                | Ok (pm, hm1) \<Rightarrow>
                    (let (a1, r) = create_topics A (sort_key fst pm) a in (a1, hm1, r))))"

subsection \<open>Lemmas\<close>

lemma SelectTopicByUser_in: "topics \<noteq> [] \<Longrightarrow> SelectTopicByUser u topics \<in> set topics"
  by (simp add: SelectTopicByUser_def nat_less_iff)

lemma set_add_new: "set (add_new out ts) = set out \<union> set ts"
  by (induction out ts rule: add_new.induct) auto

lemma distinct_add_new: "distinct out \<Longrightarrow> distinct (add_new out ts)"
  by (induction out ts rule: add_new.induct) auto

end
