(* ===== verification/MsgStore.thy ===== *)
theory MsgStore
  imports Frames BsonCode SeqAlloc Online KafkaTopics Snowflake
begin

section \<open>The data node\<close>

text \<open>
  Storing a message (\<^verbatim>\<open>module/chat/model/msg.go\<close>), what a data node does with a frame it takes from
  the broker (\<^verbatim>\<open>module/message/message_data_msg.go\<close>) and with a client's acknowledgement
  (\<^verbatim>\<open>cack_msg.go\<close>). MongoDB, Redis, the producer of the broker, the channel to the gateway's writer
  and the JSON form of frames are parameters.
\<close>

subsection \<open>Storing and finding\<close>

text \<open>\<open>oid\<close> is the new object id, \<open>dup\<close> the driver's test for a duplicate key. The message is changed in place.\<close>

definition lbl_dup :: string where
  "lbl_dup = ''seq '' @ [CHR 0xE5, CHR 0xB7, CHR 0xB2, CHR 0xE5, CHR 0xAD, CHR 0x98, CHR 0xE5, CHR 0x9C, CHR 0xA8,
     CHR 0xEF, CHR 0xBC, CHR 0x8C, CHR 0xE6, CHR 0x8B, CHR 0x92, CHR 0xE7, CHR 0xBB, CHR 0x9D, CHR 0xE9, CHR 0x87, CHR 0x8D,
     CHR 0xE5, CHR 0xA4, CHR 0x8D, CHR 0xE6, CHR 0x8F, CHR 0x92, CHR 0xE5, CHR 0x85, CHR 0xA5] @ '': ''"

definition fill_message :: "string \<Rightarrow> int \<Rightarrow> MessageModel \<Rightarrow> MessageModel" where
  "fill_message oid now m0 =
     (let m1 = (if mm_ID m0 = zero_oid then m0\<lparr> mm_ID := oid \<rparr> else m0)
      in if mm_SendTimeMS m1 = 0 then m1\<lparr> mm_SendTimeMS := now \<rparr> else m1)"

definition InsertMessage ::
  "'s mongo \<Rightarrow> (string \<Rightarrow> bool) \<Rightarrow> string \<Rightarrow> int \<Rightarrow> MessageModel \<Rightarrow> 's \<Rightarrow> 's \<times> unit go" where
  "InsertMessage M dup oid now m s =
     (case mg_InsertOne M ''message'' (bson_MessageModel (fill_message oid now m)) s of
        (s1, Error e) \<Rightarrow> (s1, Error (if dup e then lbl_dup @ e else e))
      | x \<Rightarrow> x)"

text \<open>The document found; decoding it into the struct is not modelled.\<close>

definition GetMessageByServerMsgID :: "'s mongo \<Rightarrow> string \<Rightarrow> 's \<Rightarrow> doc option go" where
  "GetMessageByServerMsgID M serverMsgID s = mg_FindOne M ''message'' [(''server_msg_id'', CEq (MStr serverMsgID))] s"

subsection \<open>Frames as text\<close>

record frame_codec =
  fc_Marshal :: "MessageFrameData \<Rightarrow> string go"
  fc_Unmarshal :: "string \<Rightarrow> MessageFrameData go"

text \<open>A frame's pointer is never nil where \<^verbatim>\<open>EncodeFrame\<close> is called.\<close>

definition EncodeFrame :: "frame_codec \<Rightarrow> MessageFrameData option \<Rightarrow> string go" where
  "EncodeFrame F req = (case req of None \<Rightarrow> Error ''EncodeFrame: req is nil'' | Some f \<Rightarrow> fc_Marshal F f)"

definition DecodeFrame :: "frame_codec \<Rightarrow> string \<Rightarrow> MessageFrameData go" where
  "DecodeFrame F data = (if length data = 0 then Error ''DecodeFrame: data is empty'' else fc_Unmarshal F data)"

text \<open>\<^verbatim>\<open>ParseFrameJSON\<close> reads a frame with unknown fields discarded, its own decoder \<open>parse\<close>.\<close>

definition ParseFrameJSON :: "(string \<Rightarrow> MessageFrameData go) \<Rightarrow> string \<Rightarrow> MessageFrameData go" where
  "ParseFrameJSON parse raw = (case parse raw of Error e \<Rightarrow> Error (''unmarshal frame failed: '' @ e) | x \<Rightarrow> x)"

subsection \<open>What a node works with\<close>

record relay_msg =
  rm_Frame :: MessageFrameData
  rm_ConnectId :: string

text \<open>
  The servers, codecs and configuration of a node, and its state: MongoDB's, Redis's, what was given to
  the producer (topic, key, value), the frames in the channel to the relay loop.
\<close>

record ('s, 'r, 'k) node =
  nd_M :: "'s mongo"
  nd_R :: "'r redis"
  nd_Send :: "string \<Rightarrow> string \<Rightarrow> string \<Rightarrow> 'k \<Rightarrow> 'k \<times> unit go"
  nd_frames :: frame_codec
  nd_parse :: "string \<Rightarrow> MessageFrameData go"
  nd_codec :: codec
  nd_pack :: "pb_Conversation list \<Rightarrow> unit go"
  nd_dup :: "string \<Rightarrow> bool"
  nd_type :: string
  nd_kafka :: app_config

record ('s, 'r, 'k) node_state =
  ns_mongo :: 's
  ns_redis :: 'r
  ns_kafka :: 'k
  ns_relay :: "relay_msg list"
  ns_ids :: generator

text \<open>What a call reads from the clock and from chance, in the order of the code.\<close>

record inputs =
  in_order :: order
  in_t_ensure :: time
  in_t_malloc :: time
  in_clk_malloc :: "nat \<Rightarrow> time"
  in_t_sides :: time
  in_t_sideA :: time
  in_t_sideB :: time
  in_t_build :: int
  in_clk_id :: "int list"
  in_oid :: string
  in_t_insert :: int
  in_t_max :: time
  in_t_ack :: int

text \<open>The producer's error is logged, and the call still returns nil.\<close>

definition MessageProducerHandler ::
  "('s, 'r, 'k) node \<Rightarrow> string \<Rightarrow> string \<Rightarrow> string \<Rightarrow> ('s, 'r, 'k) node_state \<Rightarrow> ('s, 'r, 'k) node_state \<times> unit go" where
  "MessageProducerHandler N topic key value w =
     (case nd_Send N topic key value (ns_kafka w) of
        (k1, Panic e) \<Rightarrow> (w\<lparr> ns_kafka := k1 \<rparr>, Panic e)
      | (k1, _) \<Rightarrow> (w\<lparr> ns_kafka := k1 \<rparr>, Ok ()))"

definition ReplayMsg :: "('s, 'r, 'k) node \<Rightarrow> string \<Rightarrow> string \<Rightarrow> ('s, 'r, 'k) node_state \<Rightarrow> ('s, 'r, 'k) node_state \<times> unit go" where
  "ReplayMsg N data connectId w =
     (case ParseFrameJSON (nd_parse N) data of
        Ok f \<Rightarrow> (w\<lparr> ns_relay := ns_relay w @ [\<lparr> rm_Frame = f, rm_ConnectId = connectId \<rparr>] \<rparr>, Ok ())
      | Error e \<Rightarrow> (w, Error e)
      | Panic e \<Rightarrow> (w, Panic e))"

subsection \<open>A message frame on a data node\<close>

definition tenant :: string where
  "tenant = ''tenant_001''"

definition ConvTypeP2P :: int where
  "ConvTypeP2P = 100"

definition node_allocator :: "('s, 'r, 'k) node \<Rightarrow> allocator" where
  "node_allocator N = \<lparr> al_BlockSizeFn = None, al_KeyFn = None, al_MaxRetry = 5 \<rparr>"

text \<open>The value of a call whose error is dropped; a panic is not.\<close>

definition dropped :: "'a \<Rightarrow> 'a go \<Rightarrow> 'a" where
  "dropped d r = (case r of Ok a \<Rightarrow> a | _ \<Rightarrow> d)"

definition go_panic :: "'a go \<Rightarrow> string option" where
  "go_panic r = (case r of Panic e \<Rightarrow> Some e | _ \<Rightarrow> None)"

text \<open>
  Indexes, the conversation, the number, both sides of the conversation. All their errors are dropped:
  the id of the conversation is then empty, the number 0.
\<close>

definition data_prepare ::
  "('s, 'r, 'k) node \<Rightarrow> inputs \<Rightarrow> MessageFrameData \<Rightarrow> ('s, 'r, 'k) node_state \<Rightarrow> ('s, 'r, 'k) node_state \<times> (string \<times> int) go" where
  "data_prepare N ipt f w =
     (let M = nd_M N; (s1, r1) = EnsureIndexes M (in_order ipt) (ns_mongo w) in
      case go_panic r1 of Some e \<Rightarrow> (w\<lparr> ns_mongo := s1 \<rparr>, Panic e)
      | None \<Rightarrow>
      (let (s2, r2) = EnsureSeqConversation M (in_t_ensure ipt) tenant (fr_From f) (fr_To f) ConvTypeP2P s1;
           convId = fst (dropped ('''', False) r2) in
       case go_panic r2 of Some e \<Rightarrow> (w\<lparr> ns_mongo := s2 \<rparr>, Panic e)
       | None \<Rightarrow>
       (let ((s3, rd), r3) = Allocator_Malloc (node_allocator N) (DAO_AllocSegment M) (nd_R N) tenant convId 1 (in_t_malloc ipt)
              (in_clk_malloc ipt) (s2, ns_redis w);
            start = fst (dropped (0, 0) r3) in
        case go_panic r3 of Some e \<Rightarrow> (w\<lparr> ns_mongo := s3, ns_redis := rd \<rparr>, Panic e)
        | None \<Rightarrow>
        (let (s4, createdA, createdB, r4) = EnsureTwoSidesByKnownConvID M (in_t_sides ipt) (in_t_sideA ipt) (in_t_sideB ipt)
               tenant convId ConvTypeP2P (fr_From f) (fr_To f) start s3 in
         case go_panic r4 of Some e \<Rightarrow> (w\<lparr> ns_mongo := s4, ns_redis := rd \<rparr>, Panic e)
         | None \<Rightarrow> (w\<lparr> ns_mongo := s4, ns_redis := rd \<rparr>, Ok (convId, start))))))"

text \<open>The message is built and stored, the conversation's mark moved. A call that waits for the clock for ever is \<open>None\<close>.\<close>

definition data_store ::
  "('s, 'r, 'k) node \<Rightarrow> inputs \<Rightarrow> string \<Rightarrow> MessageFrameData \<Rightarrow> string \<times> int \<Rightarrow> ('s, 'r, 'k) node_state \<Rightarrow>
   (('s, 'r, 'k) node_state \<times> unit go) option" where
  "data_store N ipt topic f cs w =
     (let (convId, start) = cs; M = nd_M N in
      case (case GetPayload f of None \<Rightarrow> Some ('''', ns_ids w, in_clk_id ipt) | Some _ \<Rightarrow> GenerateString (in_clk_id ipt) (ns_ids w)) of
        None \<Rightarrow> None
      | Some (sid, ids1, _) \<Rightarrow>
          (let w1 = w\<lparr> ns_ids := ids1 \<rparr> in
           case BuildMessageModelFromPB (nd_codec N) (in_t_build ipt) sid tenant (GetPayload f) start convId of
             Error e \<Rightarrow> Some (w1, Error e)
           | Panic e \<Rightarrow> Some (w1, Panic e)
           | Ok newMsg \<Rightarrow>
              (case InsertMessage M (nd_dup N) (in_oid ipt) (in_t_insert ipt) newMsg (ns_mongo w1) of
                 (s2, Error e) \<Rightarrow> Some (w1\<lparr> ns_mongo := s2 \<rparr>, Error e)
               | (s2, Panic e) \<Rightarrow> Some (w1\<lparr> ns_mongo := s2 \<rparr>, Panic e)
               | (s2, Ok _) \<Rightarrow>
                  (case UpdateMaxSeq M (in_t_max ipt) convId start s2 of
                     (s3, Error e) \<Rightarrow> Some (w1\<lparr> ns_mongo := s3 \<rparr>, Error e)
                   | (s3, Panic e) \<Rightarrow> Some (w1\<lparr> ns_mongo := s3 \<rparr>, Panic e)
                   | (s3, Ok sq) \<Rightarrow>
                       Some (w1\<lparr> ns_mongo := s3 \<rparr>,
                             if sq \<noteq> start then Error (''topic key:'' @ topic @ '' seq diff error'') else Ok ())))))"

text \<open>The gateway and topic are those of the sender; the frame and its acknowledgement go there.\<close>

definition sender_topic :: "('s, 'r, 'k) node \<Rightarrow> string \<Rightarrow> ('s, 'r, 'k) node_state \<Rightarrow> string go" where
  "sender_topic N user w =
     (case GetUserGateway (nd_R N) user (ns_redis w) of
        Panic e \<Rightarrow> Panic e
      | g \<Rightarrow>
        (let gateway = (case g of Ok gw \<Rightarrow> gw | _ \<Rightarrow> '''') in
         case GetMessageHandlerConfig (nd_kafka N) FT_DATA of
           None \<Rightarrow> Panic ''invalid memory address or nil pointer dereference''
         | Some mc \<Rightarrow> (case ReceiveTopicKeys mc False of
               Ok keys \<Rightarrow> Ok (gateway @ ''_'' @ SelectCAckTopicByUser user keys)
             | Error e \<Rightarrow> Error e | Panic e \<Rightarrow> Panic e)))"

definition data_forward ::
  "('s, 'r, 'k) node \<Rightarrow> inputs \<Rightarrow> string \<Rightarrow> string \<Rightarrow> MessageFrameData \<Rightarrow> ('s, 'r, 'k) node_state \<Rightarrow> ('s, 'r, 'k) node_state \<times> unit go" where
  "data_forward N ipt key value f w =
     (case sender_topic N (fr_From f) w of
        Error e \<Rightarrow> (w, Error e)
      | Panic e \<Rightarrow> (w, Panic e)
      | Ok topicKey \<Rightarrow>
          (case MessageProducerHandler N topicKey key value w of
             (w1, Error e) \<Rightarrow> (w1, Error e)
           | (w1, Panic e) \<Rightarrow> (w1, Panic e)
           | (w1, Ok _) \<Rightarrow>
              (case GetPayload f of None \<Rightarrow> (w1, Panic ''invalid memory address or nil pointer dereference'')
               | Some p \<Rightarrow>
                 (case EncodeFrame (nd_frames N) (Some (BuildSendSuccessAckDeliver (in_t_ack ipt) (fr_From f)
                          (ph_ClientMsgId (pb_hd p)) (ph_ServerMsgId (pb_hd p)) f)) of
                    Error e \<Rightarrow> (w1, Error e)
                  | Panic e \<Rightarrow> (w1, Panic e)
                  | Ok ackData \<Rightarrow> MessageProducerHandler N topicKey key ackData w1))))"

definition data_node_message ::
  "('s, 'r, 'k) node \<Rightarrow> inputs \<Rightarrow> string \<Rightarrow> string \<Rightarrow> string \<Rightarrow> MessageFrameData \<Rightarrow> ('s, 'r, 'k) node_state \<Rightarrow>
   (('s, 'r, 'k) node_state \<times> unit go) option" where
  "data_node_message N ipt topic key value f w =
     (case data_prepare N ipt f w of
        (w1, Error e) \<Rightarrow> Some (w1, Error e)
      | (w1, Panic e) \<Rightarrow> Some (w1, Panic e)
      | (w1, Ok cs) \<Rightarrow>
          (case data_store N ipt topic f cs w1 of
             None \<Rightarrow> None
           | Some (w2, Ok _) \<Rightarrow> Some (data_forward N ipt key value f w2)
           | Some (w2, e) \<Rightarrow> Some (w2, e)))"

definition HandlerTopicMessage ::
  "('s, 'r, 'k) node \<Rightarrow> inputs \<Rightarrow> string \<Rightarrow> string \<Rightarrow> string \<Rightarrow> ('s, 'r, 'k) node_state \<Rightarrow>
   (('s, 'r, 'k) node_state \<times> unit go) option" where
  "HandlerTopicMessage N ipt topic key value w =
     (case DecodeFrame (nd_frames N) value of
        Error e \<Rightarrow> Some (w, Error e)
      | Panic e \<Rightarrow> Some (w, Panic e)
      | Ok f \<Rightarrow>
          if nd_type N = ''msgDataNode'' then
            (if fr_Type f = FT_DATA then data_node_message N ipt topic key value f w else Some (w, Ok ()))
          else if fr_Type f = FT_DATA then Some (ReplayMsg N value '''' w)
          else if fr_Type f = FT_DELIVER then Some (ReplayMsg N value (fr_SessionId f) w)
          else Some (w, Ok ()))"

subsection \<open>An acknowledgement of a client\<close>

text \<open>Reading a conversation.\<close>

definition decode_Conversation :: "doc \<Rightarrow> Conversation go" where
  "decode_Conversation d =
     go_bind (decode_str d ''tenant_id'') (\<lambda>v1.
     go_bind (decode_str d ''owner_user_id'') (\<lambda>v2.
     go_bind (decode_str d ''conversation_id'') (\<lambda>v3.
     go_bind (decode_int32 d ''conversation_type'') (\<lambda>v4.
     go_bind (decode_str d ''user_id'') (\<lambda>v5.
     go_bind (decode_str d ''group_id'') (\<lambda>v6.
     go_bind (decode_int32 d ''recv_msg_opt'') (\<lambda>v7.
     go_bind (decode_bool d ''is_pinned'') (\<lambda>v8.
     go_bind (decode_bool d ''is_private_chat'') (\<lambda>v9.
     go_bind (decode_int32 d ''burn_duration'') (\<lambda>v10.
     go_bind (decode_int32 d ''group_at_type'') (\<lambda>v11.
     go_bind (decode_str d ''attached_info'') (\<lambda>v12.
     go_bind (decode_str d ''ex'') (\<lambda>v13.
     go_bind (decode_int64 d ''read_seq'') (\<lambda>v14.
     go_bind (decode_int64 d ''read_outbox_seq'') (\<lambda>v15.
     go_bind (decode_int64 d ''local_max_seq'') (\<lambda>v16.
     go_bind (decode_int32 d ''mention_unread'') (\<lambda>v17.
     go_bind (decode_int64 d ''mention_read_seq'') (\<lambda>v18.
     go_bind (decode_int64 d ''min_seq'') (\<lambda>v19.
     go_bind (decode_int64 d ''server_max_seq'') (\<lambda>v20.
     go_bind (decode_int_map d ''per_device_read_seq'') (\<lambda>v21.
     go_bind (decode_time d ''create_time'') (\<lambda>v22.
     go_bind (decode_time d ''updated_at'') (\<lambda>v23.
     go_bind (decode_bool d ''is_msg_destruct'') (\<lambda>v24.
     go_bind (decode_time d ''msg_destruct_time'') (\<lambda>v25.
     go_bind (decode_time d ''latest_msg_destruct_time'') (\<lambda>v26.
       Ok \<lparr> cv_TenantID = v1, cv_OwnerUserID = v2, cv_ConversationID = v3, cv_ConversationType = v4, cv_UserID = v5, cv_GroupID = v6
           , cv_RecvMsgOpt = v7, cv_IsPinned = v8, cv_IsPrivateChat = v9, cv_BurnDuration = v10, cv_GroupAtType = v11, cv_AttachedInfo = v12
           , cv_Ex = v13, cv_ReadSeq = v14, cv_ReadOutboxSeq = v15, cv_LocalMaxSeq = v16, cv_MentionUnread = v17, cv_MentionReadSeq = v18
           , cv_MinSeq = v19, cv_ServerMaxSeq = v20, cv_PerDeviceReadSeq = v21, cv_CreateTime = v22, cv_UpdatedAt = v23, cv_IsMsgDestruct = v24
           , cv_MsgDestructTime = v25, cv_LatestMsgDestructTime = v26 \<rparr>))))))))))))))))))))))))))"

definition find_conversation :: "'s mongo \<Rightarrow> string \<Rightarrow> string \<Rightarrow> 's \<Rightarrow> Conversation option go" where
  "find_conversation M tenantID conversationID s =
     go_bind (GetConversationByID M tenantID conversationID s)
       (\<lambda>d. case d of None \<Rightarrow> Ok None | Some x \<Rightarrow> go_bind (decode_Conversation x) (\<lambda>c. Ok (Some c)))"

definition str_field :: "doc \<Rightarrow> string \<Rightarrow> string" where
  "str_field d k = (case decode_str d k of Ok s \<Rightarrow> s | _ \<Rightarrow> '''')"

text \<open>The message is known: its conversation's lower mark moves, and the sender's client is sent the conversation.\<close>

definition cack_message ::
  "('s, 'r, 'k) node \<Rightarrow> int \<Rightarrow> MessageFrameData \<Rightarrow> int \<Rightarrow> doc \<Rightarrow> ('s, 'r, 'k) node_state \<Rightarrow> ('s, 'r, 'k) node_state \<times> unit go" where
  "cack_message N now f sq message w =
     (let M = nd_M N; convId = str_field message ''conversation_id'' in
      case Conversation_UpdateMinSeq M tenant convId sq (ns_mongo w) of
        (s1, Error e) \<Rightarrow> (w\<lparr> ns_mongo := s1 \<rparr>, Error e)
      | (s1, Panic e) \<Rightarrow> (w\<lparr> ns_mongo := s1 \<rparr>, Panic e)
      | (s1, Ok _) \<Rightarrow>
          (let w1 = w\<lparr> ns_mongo := s1 \<rparr> in
           case find_conversation M tenant convId s1 of
             Error e \<Rightarrow> (w1, Error e)
           | Panic e \<Rightarrow> (w1, Panic e)
           | Ok conv \<Rightarrow>
              (case BuildSyncFrameConversations (nd_pack N) now (str_field message ''send_id'') [conv] of
                 Error e \<Rightarrow> (w1, Error e)
               | Panic e \<Rightarrow> (w1, Panic e)
               | Ok frame \<Rightarrow>
                   (case EncodeFrame (nd_frames N) (Some frame) of
                      Panic e \<Rightarrow> (w1, Panic e)
                    | Ok data \<Rightarrow> ReplayMsg N data (fr_SessionId f) w1
                    | Error e \<Rightarrow> ReplayMsg N '''' (fr_SessionId f) w1))))"

definition HandlerCAckTopicMessage ::
  "('s, 'r, 'k) node \<Rightarrow> int \<Rightarrow> string \<Rightarrow> ('s, 'r, 'k) node_state \<Rightarrow> ('s, 'r, 'k) node_state \<times> unit go" where
  "HandlerCAckTopicMessage N now value w =
     (case DecodeFrame (nd_frames N) value of
        Error e \<Rightarrow> (w, Error e)
      | Panic e \<Rightarrow> (w, Panic e)
      | Ok f \<Rightarrow>
          if fr_Type f \<noteq> FT_CACK then (w, Ok ())
          else case GetPayload f of None \<Rightarrow> (w, Panic ''invalid memory address or nil pointer dereference'')
             | Some p \<Rightarrow>
                (let msgId = ph_ServerMsgId (pb_hd p) in
                 if msgId = '''' then (w, Ok ())
                 else case GetMessageByServerMsgID (nd_M N) msgId (ns_mongo w) of
                        Panic e \<Rightarrow> (w, Panic e)
                      | Ok (Some message) \<Rightarrow> cack_message N now f (ph_Seq (pb_hd p)) message w
                      | _ \<Rightarrow> (w, Ok ())))"

end
