(* ===== verification/MsgProps.thy ===== *)
theory MsgProps
  imports MsgStore OnlineProps SeqProps
begin

section \<open>What holds of messages\<close>

text \<open>
  The stored message: its one content element, the errors of building it, storing and finding it; what
  a data node that reports success did.
\<close>

subsection \<open>Content\<close>

text \<open>The field of the document that holds the content of a type; for typing there is none.\<close>

definition content_field :: "int \<Rightarrow> string list" where
  "content_field ct =
     (if ct = TEXT then [''text_elem''] else if ct = ADVANCED_TEXT then [''advanced_text_elem'']
      else if ct = MARKDOWN then [''markdown_text_elem''] else if ct = PICTURE then [''picture_elem'']
      else if ct = SOUND then [''sound_elem''] else if ct = VIDEO then [''video_elem''] else if ct = FILE then [''file_elem'']
      else if ct = LOCATION then [''location_elem''] else if ct = CARD_MSG then [''card_elem'']
      else if ct = AT_TEXT then [''at_text_elem''] else if ct = FACE then [''face_elem'']
      else if ct = MERGE then [''merge_elem''] else if ct = QUOTE then [''quote_elem'']
      else if ct = CUSTOM then [''custom_elem''] else if ct = MsgNOTIFICATION then [''notification_elem''] else [])"

text \<open>The element of a type is there.\<close>

definition carries :: "pb_MessageData \<Rightarrow> bool" where
  "carries d =
     (let h = pb_hd d; ct = ph_ContentType h in
      if ct = TEXT then ph_TextElem h \<noteq> None else if ct = ADVANCED_TEXT then ph_AdvancedTextElem h \<noteq> None
      else if ct = MARKDOWN then ph_MarkdownTextElem h \<noteq> None else if ct = PICTURE then ph_PictureElem h \<noteq> None
      else if ct = SOUND then ph_SoundElem h \<noteq> None else if ct = VIDEO then ph_VideoElem h \<noteq> None
      else if ct = FILE then ph_FileElem h \<noteq> None else if ct = LOCATION then ph_LocationElem h \<noteq> None
      else if ct = CARD_MSG then ph_CardElem h \<noteq> None else if ct = AT_TEXT then pb_AtText d \<noteq> None
      else if ct = FACE then ph_FaceElem h \<noteq> None else if ct = MERGE then pb_Merge d \<noteq> None
      else if ct = QUOTE then pb_Quote d \<noteq> None else if ct = TYPING then ph_TypingElem h \<noteq> None
      else if ct = CUSTOM then ph_CustomElem h \<noteq> None else if ct = MsgNOTIFICATION then ph_NotificationElem h \<noteq> None
      else False)"

lemma need_elem_Ok: "need_elem err e put m = Ok m' \<longleftrightarrow> (\<exists>x. e = Some x \<and> m' = put x m)"
  by (auto simp: need_elem_def split: option.splits)

lemma need_elem_no_panic [simp]: "need_elem err e put m \<noteq> Panic p"
  by (simp add: need_elem_def split: option.splits)

lemma need_elem_ok_iff: "(\<exists>m'. need_elem err e put m = Ok m') \<longleftrightarrow> e \<noteq> None"
  by (auto simp: need_elem_Ok)

lemma set_content_ok_iff: "(\<exists>m'. set_content C d m = Ok m') \<longleftrightarrow> carries d"
  unfolding set_content_def carries_def Let_def
  by (simp add: need_elem_ok_iff if_distrib[of "\<lambda>x. \<exists>m'. x = Ok m'"] cong: if_cong)

lemma set_content_no_panic: "set_content C d m \<noteq> Panic p"
  by (simp add: set_content_def Let_def)

lemmas put_defs = put_text_def put_advanced_def put_markdown_def put_picture_def put_sound_def put_video_def put_file_def
  put_location_def put_card_def put_at_def put_face_def put_merge_def put_quote_def put_typing_def put_custom_def
  put_notification_def

text \<open>The fields that say which message it is.\<close>

definition key_fields :: "MessageModel \<Rightarrow> (string \<times> string \<times> string \<times> string \<times> string) \<times> int \<times> int \<times> int" where
  "key_fields m = ((mm_ID m, mm_TenantID m, mm_ServerMsgID m, mm_ConversationID m, mm_SendID m),
     mm_Seq m, mm_ContentType m, mm_SendTimeMS m)"

lemma put_key_fields:
  "key_fields (put_text e0 m) = key_fields m"
  "key_fields (put_advanced e1 m) = key_fields m"
  "key_fields (put_markdown e2 m) = key_fields m"
  "key_fields (put_picture e3 m) = key_fields m"
  "key_fields (put_sound e4 m) = key_fields m"
  "key_fields (put_video e5 m) = key_fields m"
  "key_fields (put_file e6 m) = key_fields m"
  "key_fields (put_location e7 m) = key_fields m"
  "key_fields (put_card e8 m) = key_fields m"
  "key_fields (put_at e9 m) = key_fields m"
  "key_fields (put_face C e10 m) = key_fields m"
  "key_fields (put_merge e11 m) = key_fields m"
  "key_fields (put_quote e12 m) = key_fields m"
  "key_fields (put_typing e13 m) = key_fields m"
  "key_fields (put_custom e14 m) = key_fields m"
  "key_fields (put_notification e15 m) = key_fields m"
  by (simp_all add: key_fields_def put_defs)

lemma set_content_key_fields: "set_content C d m = Ok m' \<Longrightarrow> key_fields m' = key_fields m"
  by (auto simp: set_content_def Let_def need_elem_Ok put_key_fields split: if_splits)

lemma base_elems: "bson_msg_elems (base_message C now sid tid h sq conv) = []"
  by (simp add: bson_msg_elems_def base_message_def opt_field_def)

text \<open>Each branch sets one element of a message that has none.\<close>

lemma put_elems:
  assumes "m = base_message C now sid tid h sq conv"
  shows "map fst (bson_msg_elems (put_text e1 m)) = [''text_elem'']"
    "map fst (bson_msg_elems (put_advanced e2 m)) = [''advanced_text_elem'']"
    "map fst (bson_msg_elems (put_markdown e3 m)) = [''markdown_text_elem'']"
    "map fst (bson_msg_elems (put_picture e4 m)) = [''picture_elem'']"
    "map fst (bson_msg_elems (put_sound e5 m)) = [''sound_elem'']"
    "map fst (bson_msg_elems (put_video e6 m)) = [''video_elem'']"
    "map fst (bson_msg_elems (put_file e7 m)) = [''file_elem'']"
    "map fst (bson_msg_elems (put_location e8 m)) = [''location_elem'']"
    "map fst (bson_msg_elems (put_card e9 m)) = [''card_elem'']"
    "map fst (bson_msg_elems (put_at e10 m)) = [''at_text_elem'']"
    "map fst (bson_msg_elems (put_face C e11 m)) = [''face_elem'']"
    "map fst (bson_msg_elems (put_merge e12 m)) = [''merge_elem'']"
    "map fst (bson_msg_elems (put_quote e13 m)) = [''quote_elem'']"
    "map fst (bson_msg_elems (put_typing e14 m)) = []"
    "map fst (bson_msg_elems (put_custom e15 m)) = [''custom_elem'']"
    "map fst (bson_msg_elems (put_notification e16 m)) = [''notification_elem'']"
  by (simp_all add: assms bson_msg_elems_def base_message_def opt_field_def put_defs)

lemma set_content_elems:
  assumes "set_content C d m = Ok m'" "m = base_message C now sid tid h sq conv"
  shows "map fst (bson_msg_elems m') = content_field (ph_ContentType (pb_hd d))"
  using assms(1) put_elems[OF assms(2)]
  by (auto simp: set_content_def content_field_def Let_def need_elem_Ok split: if_splits)

text \<open>
  What the stored message and the frame's message have in common: the element of the content type, field by field
  (messages that are quoted or merged by their server id, entities and mentions that are not nil by their position
  or user), and for the types with a text its preview.
\<close>

definition same_picture :: "PictureBaseInfo option \<Rightarrow> pb_PictureBaseInfo option \<Rightarrow> bool" where
  "same_picture p q \<longleftrightarrow> map_option (\<lambda>e. (pi_UUID e, pi_Type e, pi_Size e, pi_Width e, pi_Height e, pi_URL e)) p
     = map_option (\<lambda>e. (pbpi_Uuid e, pbpi_Type e, pbpi_Size e, pbpi_Width e, pbpi_Height e, pbpi_Url e)) q"

definition same_entities :: "MessageEntity list \<Rightarrow> pb_MessageEntity option list \<Rightarrow> bool" where
  "same_entities es qs \<longleftrightarrow> map (\<lambda>e. (me_Type e, me_Offset e, me_Length e, me_URL e, me_Ex e)) es
     = List.map_filter (map_option (\<lambda>e. (pbme_Type e, pbme_Offset e, pbme_Length e, pbme_Url e, pbme_Ex e))) qs"

definition same_lite :: "MessageLite option \<Rightarrow> pb_MessageData option \<Rightarrow> bool" where
  "same_lite l q \<longleftrightarrow> map_option (\<lambda>e. (ml_ServerMsgID e, ml_SendID e, map_option te_Content (ml_TextElem e))) l
     = map_option (\<lambda>e. (ph_ServerMsgId (pb_hd e), ph_SendId (pb_hd e), map_option pbte_Content (ph_TextElem (pb_hd e)))) q"

definition both :: "'a option \<Rightarrow> 'b option \<Rightarrow> ('a \<Rightarrow> 'b \<Rightarrow> bool) \<Rightarrow> bool" where
  "both x y P = (case (x, y) of (Some a, Some b) \<Rightarrow> P a b | _ \<Rightarrow> False)"

definition same_content :: "pb_MessageData \<Rightarrow> MessageModel \<Rightarrow> bool" where
  "same_content d m =
     (let h = pb_hd d; ct = ph_ContentType h in
      if ct = TEXT then both (mm_TextElem m) (ph_TextElem h) (\<lambda>a b. te_Content a = pbte_Content b
        \<and> mm_ContentText m = TrimPreview (pbte_Content b))
      else if ct = ADVANCED_TEXT then both (mm_AdvancedTextElem m) (ph_AdvancedTextElem h) (\<lambda>a b. ae_Text a = pbae_Text b
        \<and> same_entities (ae_MessageEntityList a) (pbae_MessageEntityList b) \<and> mm_ContentText m = TrimPreview (pbae_Text b))
      else if ct = MARKDOWN then both (mm_MarkdownTextElem m) (ph_MarkdownTextElem h) (\<lambda>a b. mk_Content a = pbmk_Content b
        \<and> mm_ContentText m = TrimPreview (pbmk_Content b))
      else if ct = PICTURE then both (mm_PictureElem m) (ph_PictureElem h) (\<lambda>a b.
        same_picture (pe_SourcePicture a) (pbpe_SourcePicture b) \<and> same_picture (pe_BigPicture a) (pbpe_BigPicture b)
        \<and> same_picture (pe_SnapshotPicture a) (pbpe_SnapshotPicture b))
      else if ct = SOUND then both (mm_SoundElem m) (ph_SoundElem h) (\<lambda>a b.
        (se_UUID a, se_SoundPath a, se_SourceURL a, se_DataSize a, se_Duration a, se_SoundType a)
        = (pbse_Uuid b, pbse_SoundPath b, pbse_SourceUrl b, pbse_DataSize b, pbse_Duration b, pbse_SoundType b))
      else if ct = VIDEO then both (mm_VideoElem m) (ph_VideoElem h) (\<lambda>a b.
        (ve_VideoPath a, ve_VideoUUID a, ve_VideoURL a, ve_VideoType a, ve_VideoSize a, ve_Duration a, ve_SnapshotPath a,
         ve_SnapshotUUID a, ve_SnapshotSize a, ve_SnapshotURL a, ve_SnapshotWidth a, ve_SnapshotHeight a, ve_SnapshotType a)
        = (pbve_VideoPath b, pbve_VideoUuid b, pbve_VideoUrl b, pbve_VideoType b, pbve_VideoSize b, pbve_Duration b, pbve_SnapshotPath b,
           pbve_SnapshotUuid b, pbve_SnapshotSize b, pbve_SnapshotUrl b, pbve_SnapshotWidth b, pbve_SnapshotHeight b, pbve_SnapshotType b))
      else if ct = FILE then both (mm_FileElem m) (ph_FileElem h) (\<lambda>a b.
        (fe_UUID a, fe_SourceURL a, fe_FileName a, fe_FileSize a, fe_FileType a)
        = (pbfe_Uuid b, pbfe_SourceUrl b, pbfe_FileName b, pbfe_FileSize b, pbfe_FileType b))
      else if ct = LOCATION then both (mm_LocationElem m) (ph_LocationElem h) (\<lambda>a b.
        (le_Description a, le_Longitude a, le_Latitude a) = (pble_Description b, pble_Longitude b, pble_Latitude b))
      else if ct = CARD_MSG then both (mm_CardElem m) (ph_CardElem h) (\<lambda>a b.
        (cd_UserID a, cd_Nickname a, cd_FaceURL a, cd_Ex a) = (pbcd_UserId b, pbcd_Nickname b, pbcd_FaceUrl b, pbcd_Ex b))
      else if ct = AT_TEXT then both (mm_AtTextElem m) (pb_AtText d) (\<lambda>a b.
        (at_Text a, at_AtUserList a, at_IsAtSelf a) = (pbat_Text b, pbat_AtUserList b, pbat_IsAtSelf b)
        \<and> map (\<lambda>e. (ai_AtUserID e, ai_GroupNickname e)) (at_AtUsersInfo a)
          = List.map_filter (map_option (\<lambda>e. (pbai_AtUserId e, pbai_GroupNickname e))) (pbat_AtUsersInfo b)
        \<and> same_lite (at_QuoteMessage a) (pbat_QuoteMessage b) \<and> mm_ContentText m = TrimPreview (pbat_Text b))
      else if ct = FACE then both (mm_FaceElem m) (ph_FaceElem h) (\<lambda>a b. fa_Index a = pbfa_Index b)
      else if ct = MERGE then both (mm_MergeElem m) (pb_Merge d) (\<lambda>a b.
        (mg_Title a, mg_AbstractList a) = (pbmg_Title b, pbmg_AbstractList b)
        \<and> list_all2 same_lite (mg_MultiMessage a) (pbmg_MultiMessage b)
        \<and> same_entities (mg_MessageEntityList a) (pbmg_MessageEntityList b))
      else if ct = QUOTE then both (mm_QuoteElem m) (pb_Quote d) (\<lambda>a b. qe_Text a = pbqe_Text b
        \<and> same_lite (qe_QuoteMessage a) (pbqe_QuoteMessage b) \<and> mm_ContentText m = TrimPreview (pbqe_Text b))
      else if ct = TYPING then True
      else if ct = CUSTOM then both (mm_CustomElem m) (ph_CustomElem h) (\<lambda>a b.
        (ce_Data a, ce_Description a, ce_Extension a) = (pbce_Data b, pbce_Description b, pbce_Extension b))
      else ct = MsgNOTIFICATION \<and> both (mm_NotificationElem m) (ph_NotificationElem h) (\<lambda>a b. ne_Detail a = pbne_Detail b))"

lemma both_Some [simp]: "both (Some a) (Some b) P = P a b"
  by (simp add: both_def)

lemma same_copies:
  "same_picture (copyPic p) p" "same_entities (copyEntities es) es" "same_lite (copyLite l) l"
  "map (\<lambda>e. (ai_AtUserID e, ai_GroupNickname e)) (copyAtInfos as) = List.map_filter (map_option (\<lambda>e. (pbai_AtUserId e, pbai_GroupNickname e))) as"
  by (auto simp: same_picture_def copyPic_def same_entities_def copyEntities_def same_lite_def copyLite_def copyAtInfos_def
      List.map_filter_def option.map_comp comp_def split: option.splits)

lemma same_lite_slice: "list_all2 same_lite (copyLiteSlice l) l"
  by (simp add: copyLiteSlice_def list_all2_map1 same_copies list_all2_same)

lemma set_content_same: "set_content C d m = Ok m' \<Longrightarrow> same_content d m'"
  unfolding set_content_def same_content_def Let_def
  by (auto simp: need_elem_Ok put_defs same_copies same_lite_slice AnyToMap_def split: if_splits)

lemma BuildMessage_Ok:
  assumes "BuildMessageModelFromPB C now sid tid md sq conv = Ok m"
  shows "\<exists>d. md = Some d \<and> carries d \<and> same_content d m \<and> map fst (bson_msg_elems m) = content_field (ph_ContentType (pb_hd d))
    \<and> key_fields m = key_fields (base_message C now sid tid (pb_hd d) sq conv)"
proof -
  from assms obtain d where d: "md = Some d" "set_content C d (base_message C now sid tid (pb_hd d) sq conv) = Ok m"
    by (auto simp: BuildMessageModelFromPB_def split: option.splits)
  from d(2) have "carries d" by (metis set_content_ok_iff)
  with d set_content_elems[OF d(2) HOL.refl] set_content_key_fields[OF d(2)] set_content_same[OF d(2)] show ?thesis by blast
qed

text \<open>C36: a message that is built has, among the elements it is stored with, exactly the one of its content type, and
  none for typing.\<close>

theorem stored_content_matches_type:
  assumes "BuildMessageModelFromPB C now sid tid (Some d) sq conv = Ok m"
  shows "map fst (bson_msg_elems m) = content_field (mm_ContentType m) \<and> mm_ContentType m = ph_ContentType (pb_hd d)"
  using BuildMessage_Ok[OF assms] by (auto simp: key_fields_def base_message_def)

text \<open>Building fails exactly when there is no message, its content type is not one of the sixteen that are stored,
  or the element of its type is missing; it never panics.\<close>

theorem message_built_iff:
  "(case BuildMessageModelFromPB C now sid tid md sq conv of Ok m \<Rightarrow> True | _ \<Rightarrow> False)
     = (case md of None \<Rightarrow> False | Some d \<Rightarrow> carries d)
   \<and> BuildMessageModelFromPB C now sid tid md sq conv \<noteq> Panic p"
proof (cases md)
  case None
  then show ?thesis by (simp add: BuildMessageModelFromPB_def)
next
  case (Some d)
  let ?b = "base_message C now sid tid (pb_hd d) sq conv"
  from set_content_ok_iff[of C d ?b] set_content_no_panic[of C d ?b] Some show ?thesis
    by (cases "set_content C d ?b") (simp_all add: BuildMessageModelFromPB_def)
qed

subsection \<open>Storing and finding\<close>

lemma map_of_msg:
  "map_of (bson_MessageModel m) ''server_msg_id'' = Some (MStr (mm_ServerMsgID m))"
  "map_of (bson_MessageModel m) ''conversation_id'' = Some (MStr (mm_ConversationID m))"
  "map_of (bson_MessageModel m) ''send_id'' = Some (MStr (mm_SendID m))"
  "map_of (bson_MessageModel m) ''tenant_id'' = Some (MStr (mm_TenantID m))"
  "map_of (bson_MessageModel m) ''seq_num'' = Some (MInt (mm_Seq m))"
  by (simp_all add: bson_MessageModel_def bson_msg_head_def map_add_def)

lemma fill_fields [simp]:
  "mm_ServerMsgID (fill_message oid now m) = mm_ServerMsgID m" "mm_ConversationID (fill_message oid now m) = mm_ConversationID m"
  "mm_Seq (fill_message oid now m) = mm_Seq m" "mm_SendID (fill_message oid now m) = mm_SendID m"
  "mm_TenantID (fill_message oid now m) = mm_TenantID m"
  by (simp_all add: fill_message_def Let_def)

lemma InsertMessage_Ok:
  assumes "mongo_laws M view" "InsertMessage M dup oid now m s = (s', Ok u)"
  shows "view ''message'' s' = view ''message'' s @ [bson_MessageModel (fill_message oid now m)]"
proof -
  obtain s1 r1 where 1: "mg_InsertOne M ''message'' (bson_MessageModel (fill_message oid now m)) s = (s1, r1)" by fastforce
  with assms(2) have "r1 = Ok u" "s1 = s'" by (cases r1, auto simp: InsertMessage_def)+
  with 1 mongo_InsertOne_Ok[OF assms(1)] show ?thesis by simp
qed

lemma find_last: "find P (xs @ [x]) = (case find P xs of None \<Rightarrow> if P x then Some x else None | Some y \<Rightarrow> Some y)"
  by (induction xs) auto

text \<open>C10: a message stored under a new server id is the one that id finds, with its conversation, sender and
  number.\<close>

theorem stored_message_is_found:
  assumes laws: "mongo_laws M view" and ins: "InsertMessage M dup oid now m s = (s', Ok u)"
    and new: "list_all (\<lambda>d. map_of d ''server_msg_id'' \<noteq> Some (MStr (mm_ServerMsgID m))) (view ''message'' s)"
    and get: "GetMessageByServerMsgID M (mm_ServerMsgID m) s' = Ok r"
  shows "(case r of None \<Rightarrow> False | Some d \<Rightarrow> str_field d ''conversation_id'' = mm_ConversationID m
      \<and> str_field d ''send_id'' = mm_SendID m \<and> decode_int64 d ''seq_num'' = Ok (mm_Seq m))"
proof -
  let ?f = "[(''server_msg_id'', CEq (MStr (mm_ServerMsgID m)))]"
  let ?d = "bson_MessageModel (fill_message oid now m)"
  have "find (doc_matches ?f) (view ''message'' s) = None"
    using new by (simp add: find_None_iff list_all_iff doc_matches_def)
  moreover have "doc_matches ?f ?d" by (simp add: doc_matches_def map_of_msg)
  ultimately have "find (doc_matches ?f) (view ''message'' s') = Some ?d"
    by (simp add: InsertMessage_Ok[OF laws ins] find_last)
  with mongo_FindOne[OF laws] get have "r = Some ?d" by (auto simp: GetMessageByServerMsgID_def)
  then show ?thesis by (simp add: str_field_def decode_str_def decode_int64_def map_of_msg)
qed

subsection \<open>What the operations leave alone\<close>

lemma EnsureSeqConversation_other:
  assumes "mongo_laws M view" "EnsureSeqConversation M now t a b ct s = (s', r)" "c \<noteq> collSeqConv"
  shows "view c s' = view c s"
  using EnsureSeqConversation_call[OF assms(2)] mongo_UpdateOne_other[OF assms(1) _ assms(3)] by blast

lemma DAO_AllocSegment_other:
  assumes "mongo_laws M view" "DAO_AllocSegment M now t c b s = (s', r)" "c' \<noteq> collSeqConv"
  shows "view c' s' = view c' s"
proof -
  obtain s1 r1 where 1: "mg_FindOneAndUpdate M collSeqConv (conv_filter t c)
      (alloc_update (if b \<le> 0 then 256 else b) now) True False s = (s1, r1)" by fastforce
  with assms(2) have "s1 = s'"
    by (cases r1) (auto simp: DAO_AllocSegment_def Let_def split: option.splits go.splits)
  with mongo_FindOneAndUpdate_other[OF assms(1) 1 assms(3)] show ?thesis by simp
qed

lemma Malloc_loop_other:
  assumes laws: "mongo_laws M view" and c: "c' \<noteq> collSeqConv"
  shows "Malloc_loop A (DAO_AllocSegment M) R t c need nowms clk n le (s, r) = ((s', r'), x) \<Longrightarrow> view c' s' = view c' s"
proof (induction n arbitrary: le s r)
  case (Suc n)
  obtain s1 a where 1: "DAO_AllocSegment M (clk n) t c (block_of A t c need) s = (s1, a)" by fastforce
  from DAO_AllocSegment_other[OF laws 1 c] have v: "view c' s1 = view c' s" .
  show ?case
  proof (cases a)
    case (Ok p)
    obtain b e where p: "p = (b, e)" by fastforce
    obtain r1 y where 2: "rd_Run R (luaSetSegment (key_of A t c) (wrap64 (b - 1)) e nowms) r = (r1, y)" by fastforce
    obtain r2 z where 3: "rd_Run R (luaInSegment (key_of A t c) need e nowms) r1 = (r2, z)" by fastforce
    from Suc.prems v Suc.IH show ?thesis
      by (cases y; cases z) (auto simp: 1 2 3 Ok p split: go.splits if_splits)
  qed (use Suc.prems v 1 in auto)
qed simp

lemma Malloc_other:
  assumes laws: "mongo_laws M view" and c: "c' \<noteq> collSeqConv"
    and m: "Allocator_Malloc A (DAO_AllocSegment M) R t c need now clk (s, r) = ((s', r'), x)"
  shows "view c' s' = view c' s"
proof -
  obtain r1 y where 1: "rd_Run R (luaInSegment (key_of A t c) (if need \<le> 0 then 1 else need) 0 (nowms_of now)) r = (r1, y)" by fastforce
  from m show ?thesis
    by (cases y) (auto simp: Allocator_Malloc_def Let_def 1 split: go.splits if_splits dest: Malloc_loop_other[OF laws c])
qed

lemma ensure_side_other:
  assumes laws: "mongo_laws M view" and c: "c \<noteq> ''conversation''"
    and e: "ensure_side M now t cv ct sm a b s = (s', r)"
  shows "view c s' = view c s"
proof -
  obtain s1 x where 1: "mg_UpdateOne M ''conversation'' (owner_filter t a cv) (side_update t a b cv ct now) True s = (s1, x)" by fastforce
  obtain s2 y where 2: "mg_UpdateOne M ''conversation'' (owner_filter t a cv) (shadow_update sm now) False s1 = (s2, y)" by fastforce
  from e mongo_UpdateOne_other[OF laws 1 c] mongo_UpdateOne_other[OF laws 2 c] show ?thesis
    by (cases x; cases y) (auto simp: ensure_side_def 1 2 split: if_splits)
qed

lemma TwoSides_other:
  assumes laws: "mongo_laws M view" and c: "c \<noteq> ''conversation''"
    and e: "EnsureTwoSidesByKnownConvID M n1 n2 n3 t cv ct a b sm s = (s', r)"
  shows "view c s' = view c s"
proof -
  obtain s1 x where 1: "mg_UpdateMany M ''conversation'' (pair_filter t cv a b) (shadow_update sm n1) s = (s1, x)" by fastforce
  obtain s2 y where 2: "ensure_side M n2 t cv ct sm a b s = (s2, y)" by fastforce
  obtain s3 z where 3: "ensure_side M n3 t cv ct sm b a s2 = (s3, z)" by fastforce
  from e mongo_UpdateMany_other[OF laws 1 c] ensure_side_other[OF laws c 2] ensure_side_other[OF laws c 3] show ?thesis
    by (cases y; cases z) (auto simp: EnsureTwoSidesByKnownConvID_def 1 2 3 split: go.splits if_splits)
qed

text \<open>Preparing a message stores none.\<close>

lemma data_prepare_messages:
  assumes laws: "mongo_laws (nd_M N) view" and p: "data_prepare N ipt f w = (w1, r)"
  shows "view ''message'' (ns_mongo w1) = view ''message'' (ns_mongo w)"
proof -
  have n: "''message'' \<noteq> collSeqConv" "''message'' \<noteq> ''conversation''" by (simp_all add: collSeqConv_def)
  obtain s1 r1 where 1: "EnsureIndexes (nd_M N) (in_order ipt) (ns_mongo w) = (s1, r1)" by fastforce
  obtain s2 r2 where 2: "EnsureSeqConversation (nd_M N) (in_t_ensure ipt) tenant (fr_From f) (fr_To f) ConvTypeP2P s1 = (s2, r2)" by fastforce
  let ?c = "fst (dropped ([], False) r2)"
  obtain s3 rd r3 where 3: "Allocator_Malloc (node_allocator N) (DAO_AllocSegment (nd_M N)) (nd_R N) tenant ?c 1 (in_t_malloc ipt)
      (in_clk_malloc ipt) (s2, ns_redis w) = ((s3, rd), r3)" by (metis prod.exhaust)
  let ?st = "fst (dropped (0, 0) r3)"
  obtain s4 a b r4 where 4: "EnsureTwoSidesByKnownConvID (nd_M N) (in_t_sides ipt) (in_t_sideA ipt) (in_t_sideB ipt) tenant ?c ConvTypeP2P
      (fr_From f) (fr_To f) ?st s3 = (s4, a, b, r4)" by (metis prod.exhaust)
  from EnsureIndexes_view[OF laws 1] EnsureSeqConversation_other[OF laws 2 n(1)] Malloc_other[OF laws n(1) 3]
    TwoSides_other[OF laws n(2) 4]
  have v: "view ''message'' s1 = view ''message'' (ns_mongo w)" "view ''message'' s2 = view ''message'' (ns_mongo w)"
    "view ''message'' s3 = view ''message'' (ns_mongo w)" "view ''message'' s4 = view ''message'' (ns_mongo w)" by simp_all
  from p have "ns_mongo w1 \<in> {s1, s2, s3, s4}"
    by (auto simp: data_prepare_def Let_def 1 2 3 4 split: option.splits)
  with v show ?thesis by auto
qed

subsection \<open>What a data node that succeeded did\<close>

lemma find_after_update:
  assumes k: "\<And>d. doc_matches f (apply_update u d) = doc_matches f d" "doc_matches f (upsert_doc f u)"
    and s: "find_update_spec f u True True ds = (ds', Some d)"
  shows "find (doc_matches f) ds' = Some d"
proof (cases "change_first f u ds")
  case None
  with s k(2) show ?thesis by (auto simp: find_update_spec_def find_last change_first_None)
next
  case (Some x)
  then obtain ds1 d0 d1 where x: "change_first f u ds = Some (ds1, d0, d1)" by (cases x) auto
  from change_first_Some[OF x] obtain l r where l: "ds1 = l @ d1 # r" "d1 = apply_update u d0" "doc_matches f d0"
    "\<forall>y \<in> set l. \<not> doc_matches f y" by blast
  have "find (doc_matches f) (l @ d1 # r) = Some d1" using l(2,3,4) k(1) by (induction l) auto
  with s x l(1) show ?thesis by (auto simp: find_update_spec_def)
qed

lemma UpdateMaxSeq_Ok:
  assumes laws: "mongo_laws M view" and u: "UpdateMaxSeq M now c n s = (s', Ok sq)"
  shows "\<exists>d. find (doc_matches [(''conversation_id'', CEq (MStr c))]) (view collSeqConv s') = Some d
    \<and> decode_int64 d ''max_seq'' = Ok sq"
proof -
  let ?f = "[(''conversation_id'', CEq (MStr c))]"
  obtain s1 r1 where 1: "mg_FindOneAndUpdate M collSeqConv ?f (commit_update n now) True True s = (s1, r1)" by fastforce
  from u obtain d where d: "r1 = Ok (Some d)" "s1 = s'" "decode_int64 d ''max_seq'' = Ok sq"
    by (cases r1) (auto simp: UpdateMaxSeq_def 1 split: option.splits)
  have k: "\<And>d. doc_matches ?f (apply_update (commit_update n now) d) = doc_matches ?f d"
    "doc_matches ?f (upsert_doc ?f (commit_update n now))"
    by (simp_all add: doc_matches_def commit_update_def update_simps)
  from mongo_FindOneAndUpdate_Ok[OF laws 1[unfolded d(1,2)]]
  have "find_update_spec ?f (commit_update n now) True True (view collSeqConv s) = (view collSeqConv s', Some d)" by simp
  from find_after_update[OF k this] d(3) show ?thesis by blast
qed

lemma UpdateMaxSeq_other:
  assumes laws: "mongo_laws M view" and u: "UpdateMaxSeq M now c n s = (s', r)" and k: "c' \<noteq> collSeqConv"
  shows "view c' s' = view c' s"
  using UpdateMaxSeq_call[OF u] mongo_FindOneAndUpdate_other[OF laws _ k] by blast

text \<open>A message as a data node stores it: its number, conversation and content, and the mark of the conversation.\<close>

definition stored_as :: "MessageFrameData \<Rightarrow> string \<Rightarrow> int \<Rightarrow> MessageModel \<Rightarrow> bool" where
  "stored_as f convId start m \<longleftrightarrow> mm_Seq m = start \<and> mm_ConversationID m = convId \<and> mm_TenantID m = tenant
     \<and> (case GetPayload f of None \<Rightarrow> False
        | Some d \<Rightarrow> same_content d m \<and> mm_ContentType m = ph_ContentType (pb_hd d) \<and> mm_SendID m = ph_SendId (pb_hd d))"

definition mark_of :: "string \<Rightarrow> doc list \<Rightarrow> int go" where
  "mark_of convId ds = (case find (doc_matches [(''conversation_id'', CEq (MStr convId))]) ds of
     None \<Rightarrow> Error ''none'' | Some d \<Rightarrow> decode_int64 d ''max_seq'')"

lemma data_store_Ok:
  assumes laws: "mongo_laws (nd_M N) view" and d: "data_store N ipt topic f (convId, start) w = Some (w', Ok u)"
  shows "\<exists>m. stored_as f convId start m
    \<and> view ''message'' (ns_mongo w') = view ''message'' (ns_mongo w) @ [bson_MessageModel (fill_message (in_oid ipt) (in_t_insert ipt) m)]
    \<and> mark_of convId (view collSeqConv (ns_mongo w')) = Ok start"
proof -
  from d obtain sid ids1 clk where 1: "(case GetPayload f of None \<Rightarrow> Some ([], ns_ids w, in_clk_id ipt)
      | Some _ \<Rightarrow> GenerateString (in_clk_id ipt) (ns_ids w)) = Some (sid, ids1, clk)"
    by (auto simp: data_store_def Let_def split: option.splits prod.splits)
  let ?B = "BuildMessageModelFromPB (nd_codec N) (in_t_build ipt) sid tenant (GetPayload f) start convId"
  from d 1 obtain m where 2: "?B = Ok m" by (cases ?B) (auto simp: data_store_def Let_def)
  obtain s2 r2 where 3: "InsertMessage (nd_M N) (nd_dup N) (in_oid ipt) (in_t_insert ipt) m (ns_mongo w) = (s2, r2)" by fastforce
  from d 1 2 3 obtain v where r2: "r2 = Ok v" by (cases r2) (auto simp: data_store_def Let_def)
  obtain s3 r3 where 4: "UpdateMaxSeq (nd_M N) (in_t_max ipt) convId start s2 = (s3, r3)" by fastforce
  from d 1 2 3 4 r2 have r3: "r3 = Ok start" "ns_mongo w' = s3"
    by (cases r3, auto simp: data_store_def Let_def split: if_splits)+
  from BuildMessage_Ok[OF 2] obtain p where p: "GetPayload f = Some p" "same_content p m"
    "key_fields m = key_fields (base_message (nd_codec N) (in_t_build ipt) sid tenant (pb_hd p) start convId)" by blast
  have "stored_as f convId start m"
    using p by (simp add: stored_as_def key_fields_def base_message_def)
  moreover from UpdateMaxSeq_other[OF laws 4, of "''message''"] InsertMessage_Ok[OF laws 3[unfolded r2]] r3(2)
  have "view ''message'' (ns_mongo w') = view ''message'' (ns_mongo w) @ [bson_MessageModel (fill_message (in_oid ipt) (in_t_insert ipt) m)]"
    by (simp add: collSeqConv_def)
  moreover from UpdateMaxSeq_Ok[OF laws 4[unfolded r3(1)]] r3(2)
  have "mark_of convId (view collSeqConv (ns_mongo w')) = Ok start" by (auto simp: mark_of_def)
  ultimately show ?thesis by blast
qed

lemma MessageProducerHandler_mongo: "MessageProducerHandler N t k v w = (w', r) \<Longrightarrow> ns_mongo w' = ns_mongo w"
  by (auto simp: MessageProducerHandler_def split: prod.splits go.splits)

lemma data_forward_mongo: "data_forward N ipt key value f w = (w', r) \<Longrightarrow> ns_mongo w' = ns_mongo w"
  by (simp add: data_forward_def split: go.splits prod.splits option.splits)
    (metis MessageProducerHandler_mongo)+

lemma fill_text [simp]: "mm_TextElem (fill_message oid now m) = mm_TextElem m"
  by (simp add: fill_message_def Let_def)


text \<open>The three stages of a message that a data node reports as handled.\<close>

lemma data_node_stages:
  assumes "nd_type N = ''msgDataNode''" "DecodeFrame (nd_frames N) value = Ok f" "fr_Type f = FT_DATA"
    "HandlerTopicMessage N ipt topic key value w = Some (w', Ok u)"
  obtains w1 convId start w2 v where "data_prepare N ipt f w = (w1, Ok (convId, start))"
    "data_store N ipt topic f (convId, start) w1 = Some (w2, Ok v)" "data_forward N ipt key value f w2 = (w', Ok u)"
proof -
  have h: "data_node_message N ipt topic key value f w = Some (w', Ok u)" using assms by (simp add: HandlerTopicMessage_def)
  obtain w1 r1 where 1: "data_prepare N ipt f w = (w1, r1)" by fastforce
  from h 1 obtain cs where r1: "r1 = Ok cs" by (cases r1) (auto simp: data_node_message_def)
  obtain convId start where cs: "cs = (convId, start)" by fastforce
  from h 1 r1 obtain w2 r2 where 2: "data_store N ipt topic f cs w1 = Some (w2, r2)"
    by (auto simp: data_node_message_def split: option.splits)
  from h 1 r1 2 obtain v where r2: "r2 = Ok v" by (cases r2) (auto simp: data_node_message_def)
  from h 1 r1 2 r2 have "data_forward N ipt key value f w2 = (w', Ok u)" by (simp add: data_node_message_def)
  with 1 2 r1 r2 cs that show ?thesis by blast
qed


text \<open>The number the allocator gives to a frame.\<close>

definition malloc_of ::
  "('s, 'r, 'k) node \<Rightarrow> inputs \<Rightarrow> MessageFrameData \<Rightarrow> ('s, 'r, 'k) node_state \<Rightarrow> (int \<times> int) go" where
  "malloc_of N ipt f w =
     (let s1 = fst (EnsureIndexes (nd_M N) (in_order ipt) (ns_mongo w));
          (s2, r2) = EnsureSeqConversation (nd_M N) (in_t_ensure ipt) tenant (fr_From f) (fr_To f) ConvTypeP2P s1
      in snd (Allocator_Malloc (node_allocator N) (DAO_AllocSegment (nd_M N)) (nd_R N) tenant (fst (dropped ('''', False) r2)) 1
           (in_t_malloc ipt) (in_clk_malloc ipt) (s2, ns_redis w)))"

lemma data_prepare_start:
  assumes "data_prepare N ipt f w = (w1, Ok (convId, start))"
  shows "start = fst (dropped (0, 0) (malloc_of N ipt f w))"
  using assms by (auto simp: data_prepare_def malloc_of_def Let_def split: prod.splits option.splits)

text \<open>The error of the allocator is dropped: when it gives no number, a message the data node reports as handled
  was stored with number 0.\<close>

theorem stored_without_a_number:
  assumes "mongo_laws (nd_M N) view" "nd_type N = ''msgDataNode''" "DecodeFrame (nd_frames N) value = Ok f" "fr_Type f = FT_DATA"
    and "HandlerTopicMessage N ipt topic key value w = Some (w', Ok u)" "malloc_of N ipt f w = Error e"
  shows "\<exists>m. mm_Seq m = 0 \<and>
    view ''message'' (ns_mongo w') = view ''message'' (ns_mongo w) @ [bson_MessageModel (fill_message (in_oid ipt) (in_t_insert ipt) m)]"
proof -
  from data_node_stages[OF assms(2-5)] obtain w1 convId start w2 v where
    st: "data_prepare N ipt f w = (w1, Ok (convId, start))"
    "data_store N ipt topic f (convId, start) w1 = Some (w2, Ok v)" "data_forward N ipt key value f w2 = (w', Ok u)" .
  have "start = 0" using data_prepare_start[OF st(1)] assms(6) by (simp add: dropped_def)
  with data_store_Ok[OF assms(1) st(2)] data_prepare_messages[OF assms(1) st(1)] data_forward_mongo[OF st(3)]
  show ?thesis by (auto simp: stored_as_def)
qed

subsection \<open>A message on a node, step by step\<close>

text \<open>One picture from alice to bob, on servers in memory, with Redis up and with Redis down.\<close>

lemma select_single: "SelectCAckTopicByUser u [k] = k"
  by (simp add: SelectCAckTopicByUser_def)

definition demo_picture :: pb_MessageData where
  "demo_picture = plain_msg (zero_head\<lparr> ph_ContentType := 201, ph_SendId := ''alice'', ph_CreateTime := 5,
     ph_PictureElem := Some \<lparr> pbpe_SourcePicture = None, pbpe_BigPicture = None, pbpe_SnapshotPicture = None \<rparr> \<rparr>)"

definition demo_frame :: MessageFrameData where
  "demo_frame = zero_frame\<lparr> fr_Type := 1, fr_From := ''alice'', fr_To := ''bob'', fr_Body := Payload demo_picture \<rparr>"

definition demo_mh :: message_handler_config where
  "demo_mh = \<lparr> mh_Handler = 1, mh_MessageType = 1, mh_SendTopicPattern = ''send'', mh_ReceiveTopicPattern = ''recv'',
     mh_TopicCount = 1, mh_ReplicationFactor = 0, mh_IsConsumer = True, mh_NodeId = ''n'' \<rparr>"

definition demo_codec :: codec where
  "demo_codec = \<lparr> cd_Format = (\<lambda>_. ''''), cd_Unmarshal = (\<lambda>_. Ok None) \<rparr>"

definition demo_node :: "mem_rd redis \<Rightarrow> (mem_db, mem_rd, (string \<times> string \<times> string) list) node" where
  "demo_node R = \<lparr> nd_M = mem_mongo, nd_R = R, nd_Send = (\<lambda>t k v ks. (ks @ [(t, k, v)], Ok ())),
     nd_frames = \<lparr> fc_Marshal = (\<lambda>_. Ok ''ack''), fc_Unmarshal = (\<lambda>_. Ok demo_frame) \<rparr>, nd_parse = (\<lambda>_. Ok demo_frame),
     nd_codec = demo_codec, nd_pack = (\<lambda>_. Ok ()), nd_dup = (\<lambda>_. False), nd_type = ''msgDataNode'',
     nd_kafka = \<lparr> ac_Brokers = [''b''], ac_GroupID = ''g'', ac_MessageConfigs = [demo_mh], ac_AutoCreateTopicsOnStart = True \<rparr> \<rparr>"

definition demo_ipt :: inputs where
  "demo_ipt = \<lparr> in_order = [], in_t_ensure = 1, in_t_malloc = 2, in_clk_malloc = (\<lambda>_. 3), in_t_sides = 4, in_t_sideA = 5,
     in_t_sideB = 6, in_t_build = 7, in_clk_id = [1000], in_oid = replicate 12 CHR ''x'', in_t_insert = 8, in_t_max = 9, in_t_ack = 10 \<rparr>"

definition demo_w0 :: "(mem_db, mem_rd, (string \<times> string \<times> string) list) node_state" where
  "demo_w0 = \<lparr> ns_mongo = [], ns_redis = (snd seq_w0), ns_kafka = [], ns_relay = [],
     ns_ids = \<lparr> gen_epochMS = 1000, gen_nodeID = 0, gen_seq = 0, gen_lastTSMS = 0 \<rparr> \<rparr>"

definition dead_redis :: "mem_rd redis" where
  "dead_redis = mem_redis\<lparr> rd_Run := (\<lambda>sc r. (r, Error ''down'')), rd_Scan := (\<lambda>p r. Error ''down'') \<rparr>"

definition demo_seq_doc :: "int \<Rightarrow> int \<Rightarrow> doc" where
  "demo_seq_doc iss t = [(''tenant_id'', MStr ''tenant_001''), (''conversation_id'', MStr ''p2p:alice_bob''), (''max_seq'', MInt 0),
     (''min_seq'', MInt 0), (''issued_seq'', MInt iss), (''compact_wm'', MInt 0), (''epoch'', MInt 0), (''shard_key'', MStr []),
     (''create_time'', MTime 1), (''update_time'', MTime t)]"

definition demo_side_doc :: "string \<Rightarrow> string \<Rightarrow> time \<Rightarrow> doc" where
  "demo_side_doc a b t = [(''tenant_id'', MStr ''tenant_001''), (''owner_user_id'', MStr a),
     (''conversation_id'', MStr ''p2p:alice_bob''), (''conversation_type'', MInt 100), (''user_id'', MStr b),
     (''group_id'', MStr []), (''recv_msg_opt'', MInt 0), (''is_pinned'', MBool False), (''is_private_chat'', MBool False),
     (''burn_duration'', MInt 0), (''group_at_type'', MInt 0), (''attached_info'', MStr []), (''ex'', MStr []),
     (''read_seq'', MInt 0), (''min_seq'', MInt 0), (''server_max_seq'', MInt 0), (''create_time'', MTime t),
     (''is_msg_destruct'', MBool False), (''msg_destruct_time'', MInt 0),
     (''latest_msg_destruct_time'', MTime zero_time), (''update_time'', MTime t)]"

definition demo_redis :: mem_rd where
  "demo_redis = \<lparr> mr_db = \<lparr> rd_now = 0, rd_keys = [(''seq:blk:tenant_001:p2p:alice_bob'',
     RHash [(''curr'', 1), (''end'', 256), (''mill'', 0)], Some 3600000)] \<rparr>, mr_published = [] \<rparr>"

definition demo_mongo :: "int \<Rightarrow> mem_db" where
  "demo_mongo iss = [(collSeqConv, [demo_seq_doc iss 3]),
     (''conversation'', [demo_side_doc ''alice'' ''bob'' 5, demo_side_doc ''bob'' ''alice'' 6])]"

definition demo_seg :: "int \<Rightarrow> int \<Rightarrow> mem_rd" where
  "demo_seg c e = \<lparr> mr_db = \<lparr> rd_now = 0, rd_keys = [(''seq:blk:tenant_001:p2p:alice_bob'',
     RHash [(''curr'', c), (''end'', e), (''mill'', 0)], Some 3600000)] \<rparr>, mr_published = [] \<rparr>"

lemma demo_key: "key_of (node_allocator N) tenant ''p2p:alice_bob'' = ''seq:blk:tenant_001:p2p:alice_bob''"
  by (simp add: key_of_def node_allocator_def Allocator_ensure_def defaultKey_def tenant_def)

lemma demo_block: "block_of (node_allocator N) tenant ''p2p:alice_bob'' 1 = 256"
  by (simp add: block_of_def node_allocator_def Allocator_ensure_def defaultBlock_def tenant_def)

lemma demo_run1: "rd_Run mem_redis (luaInSegment ''seq:blk:tenant_001:p2p:alice_bob'' 1 0 0) (snd seq_w0) = (snd seq_w0, Ok (LArr [LInt 1]))"
  by code_simp

lemma demo_dao: "DAO_AllocSegment mem_mongo 3 tenant ''p2p:alice_bob'' 256 [(collSeqConv, [demo_seq_doc 0 1])] =
   ([(collSeqConv, [demo_seq_doc 256 3])], Ok (1, 256))"
  by code_simp

lemma demo_run2: "rd_Run mem_redis (luaSetSegment ''seq:blk:tenant_001:p2p:alice_bob'' 0 256 0) (snd seq_w0) = (demo_seg 0 256, Ok (LInt 1))"
  by code_simp

lemma demo_run3: "rd_Run mem_redis (luaInSegment ''seq:blk:tenant_001:p2p:alice_bob'' 1 256 0) (demo_seg 0 256) =
   (demo_redis, Ok (LArr [LInt 0, LInt 1, LInt 0, LInt 256, LInt 0]))"
  by code_simp

lemma demo_1: "EnsureIndexes mem_mongo [] [] = ([], Ok ())"
  by code_simp

lemma demo_2: "EnsureSeqConversation mem_mongo 1 tenant ''alice'' ''bob'' ConvTypeP2P [] =
    ([(collSeqConv, [demo_seq_doc 0 1])], Ok (''p2p:alice_bob'', True))"
  by code_simp

lemma demo_3: "Allocator_Malloc (node_allocator N) (DAO_AllocSegment mem_mongo) mem_redis tenant ''p2p:alice_bob'' 1 2
    (\<lambda>_. 3) ([(collSeqConv, [demo_seq_doc 0 1])], snd seq_w0) = (([(collSeqConv, [demo_seq_doc 256 3])], demo_redis), Ok (1, 0))"
proof -
  have r: "retries_of (node_allocator N) = Suc 4" "nowms_of 2 = 0"
    by (simp_all add: retries_of_def Allocator_ensure_def node_allocator_def nowms_of_def millisecond_def)
  have "wrap64 (1 - 1) = 0" by (simp add: wrap64_def)
  then show ?thesis
    by (simp add: Allocator_Malloc_def r demo_key demo_block demo_run1 demo_dao demo_run2 demo_run3 reply_at_def reply_start_def del: Suc_numeral)
qed

lemma demo_4: "EnsureTwoSidesByKnownConvID mem_mongo 4 5 6 tenant ''p2p:alice_bob'' ConvTypeP2P ''alice'' ''bob'' 1
    [(collSeqConv, [demo_seq_doc 256 3])] = (demo_mongo 256, True, True, Ok ())"
  by code_simp

lemma demo_3d: "Allocator_Malloc (node_allocator N) (DAO_AllocSegment mem_mongo) dead_redis tenant ''p2p:alice_bob'' 1 2
    (\<lambda>_. 3) ([(collSeqConv, [demo_seq_doc 0 1])], snd seq_w0) = (([(collSeqConv, [demo_seq_doc 1280 3])], snd seq_w0), Error ''down'')"
  by code_simp

lemma demo_4d: "EnsureTwoSidesByKnownConvID mem_mongo 4 5 6 tenant ''p2p:alice_bob'' ConvTypeP2P ''alice'' ''bob'' 0
    [(collSeqConv, [demo_seq_doc 1280 3])] = (demo_mongo 1280, True, True, Ok ())"
  by code_simp

lemmas demo_fields = demo_w0_def demo_node_def demo_ipt_def demo_frame_def

lemma demo_prepare:
  "data_prepare (demo_node mem_redis) demo_ipt demo_frame demo_w0 =
     (demo_w0\<lparr> ns_mongo := demo_mongo 256, ns_redis := demo_redis \<rparr>, Ok (''p2p:alice_bob'', 1))"
  "data_prepare (demo_node dead_redis) demo_ipt demo_frame demo_w0 =
     (demo_w0\<lparr> ns_mongo := demo_mongo 1280, ns_redis := snd seq_w0 \<rparr>, Ok (''p2p:alice_bob'', 0))"
  by (simp_all add: data_prepare_def demo_fields demo_1 demo_2 demo_3 demo_4 demo_3d demo_4d go_panic_def dropped_def)

lemma demo_malloc: "malloc_of (demo_node dead_redis) demo_ipt demo_frame demo_w0 = Error ''down''"
  by (simp add: malloc_of_def demo_fields demo_1 demo_2 demo_3d dropped_def)

text \<open>The message of the example.\<close>

definition demo_msg :: "int \<Rightarrow> MessageModel" where
  "demo_msg n = put_picture (\<lparr> pbpe_SourcePicture = None, pbpe_BigPicture = None, pbpe_SnapshotPicture = None \<rparr>)
     (base_message demo_codec 7 ''0'' tenant (pb_hd demo_picture) n ''p2p:alice_bob'')"

lemma demo_head: "ph_ContentType (pb_hd demo_picture) = PICTURE"
  "ph_PictureElem (pb_hd demo_picture) = Some (\<lparr> pbpe_SourcePicture = None, pbpe_BigPicture = None, pbpe_SnapshotPicture = None \<rparr>)"
  by (simp_all add: demo_picture_def plain_msg_def)

lemma demo_build: "BuildMessageModelFromPB demo_codec 7 ''0'' tenant (Some demo_picture) n ''p2p:alice_bob'' = Ok (demo_msg n)"
  by (simp add: BuildMessageModelFromPB_def demo_msg_def set_content_def need_elem_def demo_head)

lemma demo_int64: "doc_int64 (bson_MessageModel (fill_message (replicate 12 CHR ''x'') 8 (demo_msg 1)))"
  "doc_int64 (bson_MessageModel (fill_message (replicate 12 CHR ''x'') 8 (demo_msg 0)))"
  by code_simp+

lemma demo_insert:
  "doc_int64 (bson_MessageModel (fill_message oid t m)) \<Longrightarrow> InsertMessage mem_mongo d oid t m (demo_mongo n) =
     (demo_mongo n @ [(''message'', [bson_MessageModel (fill_message oid t m)])], Ok ())"
  by (simp add: InsertMessage_def mem_mongo_def mem_view_def mem_store_def demo_mongo_def collSeqConv_def)

lemma demo_ids: "GenerateString [1000] \<lparr> gen_epochMS = 1000, gen_nodeID = 0, gen_seq = 0, gen_lastTSMS = 0 \<rparr> =
    Some (''0'', \<lparr> gen_epochMS = 1000, gen_nodeID = 0, gen_seq = 0, gen_lastTSMS = 1000 \<rparr>, [])"
  by code_simp

lemma demo_max:
  "snd (UpdateMaxSeq mem_mongo 9 ''p2p:alice_bob'' 1 (demo_mongo 256 @ ms)) = Ok 1"
  "snd (UpdateMaxSeq mem_mongo 9 ''p2p:alice_bob'' 0 (demo_mongo 1280 @ ms)) = Ok 0"
  unfolding demo_mongo_def by code_simp+

lemma demo_store:
  assumes "\<And>ms. snd (UpdateMaxSeq mem_mongo 9 ''p2p:alice_bob'' n (demo_mongo iss @ ms)) = Ok n"
    "doc_int64 (bson_MessageModel (fill_message (replicate 12 CHR ''x'') 8 (demo_msg n)))"
  shows "\<exists>w1. data_store (demo_node R) demo_ipt topic demo_frame (''p2p:alice_bob'', n)
       (demo_w0\<lparr> ns_mongo := demo_mongo iss, ns_redis := r \<rparr>) = Some (w1, Ok ()) \<and> ns_redis w1 = r \<and> ns_kafka w1 = []"
proof -
  obtain s3 where "UpdateMaxSeq mem_mongo 9 ''p2p:alice_bob'' n
     (demo_mongo iss @ [(''message'', [bson_MessageModel (fill_message (replicate 12 CHR ''x'') 8 (demo_msg n))])]) = (s3, Ok n)"
    by (metis assms(1) prod.collapse)
  then show ?thesis
    by (simp add: data_store_def demo_fields demo_ids demo_build demo_insert assms(2) GetPayload_def)
qed

lemma demo_keys: "ReceiveTopicKeys demo_mh False = Ok [''recv-0'']"
  by code_simp

lemma demo_topic:
  assumes "GetUserGateway R ''alice'' (ns_redis w) = Error e"
  shows "sender_topic (demo_node R) ''alice'' w = Ok ''_recv-0''"
proof -
  have "GetMessageHandlerConfig (nd_kafka (demo_node R)) FT_DATA = Some demo_mh"
    by (simp add: GetMessageHandlerConfig_def demo_node_def demo_mh_def)
  then show ?thesis using assms by (simp add: sender_topic_def demo_keys select_single) (simp add: demo_node_def demo_keys select_single)
qed

lemma demo_forward:
  assumes "GetUserGateway R ''alice'' (ns_redis w) = Error e"
  shows "snd (data_forward (demo_node R) demo_ipt k v demo_frame w) = Ok ()"
proof -
  have f: "fr_From demo_frame = ''alice''" "GetPayload demo_frame = Some demo_picture" by (simp_all add: demo_frame_def GetPayload_def)
  have c: "\<And>x. EncodeFrame (nd_frames (demo_node R)) (Some x) = Ok ''ack''" by (simp add: EncodeFrame_def demo_node_def)
  have s: "\<And>t k v w. snd (MessageProducerHandler (demo_node R) t k v w) = Ok ()"
    by (simp add: MessageProducerHandler_def demo_node_def)
  obtain w1 where "MessageProducerHandler (demo_node R) ''_recv-0'' k v w = (w1, Ok ())" by (metis s prod.collapse)
  with s show ?thesis by (simp add: data_forward_def f c demo_topic[OF assms])
qed

lemma demo_handled:
  assumes "data_prepare (demo_node R) demo_ipt demo_frame demo_w0 =
      (demo_w0\<lparr> ns_mongo := demo_mongo iss, ns_redis := r \<rparr>, Ok (''p2p:alice_bob'', n))"
    and "\<And>ms. snd (UpdateMaxSeq mem_mongo 9 ''p2p:alice_bob'' n (demo_mongo iss @ ms)) = Ok n"
    and "doc_int64 (bson_MessageModel (fill_message (replicate 12 CHR ''x'') 8 (demo_msg n)))"
    and "GetUserGateway R ''alice'' r = Error e"
  shows "\<exists>w'. HandlerTopicMessage (demo_node R) demo_ipt ''t'' ''k'' ''v'' demo_w0 = Some (w', Ok ())"
proof -
  from demo_store[OF assms(2,3), of R "''t''" r] obtain w1 where
    w1: "data_store (demo_node R) demo_ipt ''t'' demo_frame (''p2p:alice_bob'', n)
       (demo_w0\<lparr> ns_mongo := demo_mongo iss, ns_redis := r \<rparr>) = Some (w1, Ok ())" "ns_redis w1 = r" by blast
  obtain w2 where w2: "data_forward (demo_node R) demo_ipt ''k'' ''v'' demo_frame w1 = (w2, Ok ())"
    by (metis demo_forward assms(4) w1(2) prod.collapse)
  have "DecodeFrame (nd_frames (demo_node R)) ''v'' = Ok demo_frame" "nd_type (demo_node R) = ''msgDataNode''" "fr_Type demo_frame = FT_DATA"
    by (simp_all add: DecodeFrame_def demo_node_def demo_frame_def)
  with w1 w2 assms(1) show ?thesis by (simp add: HandlerTopicMessage_def data_node_message_def)
qed

lemma demo_gateway: "GetUserGateway mem_redis ''alice'' demo_redis = Error ''user alice has no gateway''"
  "GetUserGateway dead_redis ''alice'' (snd seq_w0) = Error ''user alice has no gateway''"
  by code_simp+


lemma demo_down: "\<exists>w'. HandlerTopicMessage (demo_node dead_redis) demo_ipt ''t'' ''k'' ''v'' demo_w0 = Some (w', Ok ())"
  by (rule demo_handled[OF demo_prepare(2) demo_max(2) demo_int64(2) demo_gateway(2)])

lemma demo_empty: "mem_view ''message'' (ns_mongo demo_w0) = []"
  by (simp add: demo_w0_def mem_view_def)

lemma demo_premises: "mongo_laws (nd_M (demo_node R)) mem_view" "nd_type (demo_node R) = ''msgDataNode''"
  "DecodeFrame (nd_frames (demo_node R)) ''v'' = Ok demo_frame" "fr_Type demo_frame = FT_DATA"
  by (simp_all add: DecodeFrame_def demo_node_def demo_frame_def mem_mongo_laws)

theorem stored_content_matches_type_witness:
  "map fst (bson_msg_elems (demo_msg 7)) = [''picture_elem'']"
  using stored_content_matches_type[OF demo_build[of 7]] by (simp add: content_field_def demo_head)

lemma demo_get: "\<exists>r. GetMessageByServerMsgID mem_mongo i s = Ok r"
  by (simp add: GetMessageByServerMsgID_def mem_mongo_def)

theorem stored_message_is_found_witness:
  "case GetMessageByServerMsgID mem_mongo ''0''
      (fst (InsertMessage mem_mongo (\<lambda>_. False) (replicate 12 CHR ''x'') 8 (demo_msg 1) (demo_mongo 256))) of
     Ok (Some d) \<Rightarrow> str_field d ''send_id'' = ''alice'' \<and> decode_int64 d ''seq_num'' = Ok 1 | _ \<Rightarrow> False"
proof -
  let ?s = "demo_mongo 256 @ [(''message'', [bson_MessageModel (fill_message (replicate 12 CHR ''x'') 8 (demo_msg 1))])]"
  have k: "mm_ServerMsgID (demo_msg 1) = ''0''" "mm_SendID (demo_msg 1) = ''alice''" "mm_Seq (demo_msg 1) = 1"
    by (simp_all add: demo_msg_def put_picture_def base_message_def demo_picture_def plain_msg_def)
  have ins: "InsertMessage mem_mongo (\<lambda>_. False) (replicate 12 CHR ''x'') 8 (demo_msg 1) (demo_mongo 256) = (?s, Ok ())"
    by (rule demo_insert[OF demo_int64(1)])
  obtain r where r: "GetMessageByServerMsgID mem_mongo (mm_ServerMsgID (demo_msg 1)) ?s = Ok r"
    using demo_get by blast
  have new: "list_all (\<lambda>d. map_of d ''server_msg_id'' \<noteq> Some (MStr (mm_ServerMsgID (demo_msg 1)))) (mem_view ''message'' (demo_mongo 256))"
    by (simp add: mem_view_def demo_mongo_def collSeqConv_def)
  have "case r of None \<Rightarrow> False | Some d \<Rightarrow> str_field d ''conversation_id'' = mm_ConversationID (demo_msg 1)
      \<and> str_field d ''send_id'' = mm_SendID (demo_msg 1) \<and> decode_int64 d ''seq_num'' = Ok (mm_Seq (demo_msg 1))"
    by (rule stored_message_is_found[OF mem_mongo_laws ins new r])
  then obtain d where "r = Some d" "str_field d ''send_id'' = ''alice''" "decode_int64 d ''seq_num'' = Ok 1"
    unfolding k by (cases r) simp_all
  with r show ?thesis unfolding k ins fst_conv by (simp only: go.case option.case simp_thms)
qed


theorem stored_without_a_number_witness:
  "\<exists>w' m. HandlerTopicMessage (demo_node dead_redis) demo_ipt ''t'' ''k'' ''v'' demo_w0 = Some (w', Ok ())
     \<and> mm_Seq m = 0 \<and> mem_view ''message'' (ns_mongo w') = [bson_MessageModel (fill_message (in_oid demo_ipt) (in_t_insert demo_ipt) m)]"
proof -
  from demo_down obtain w' where w: "HandlerTopicMessage (demo_node dead_redis) demo_ipt ''t'' ''k'' ''v'' demo_w0 = Some (w', Ok ())" by blast
  from stored_without_a_number[OF demo_premises w demo_malloc] w show ?thesis
    by (simp only: demo_empty append_Nil) blast
qed

end
