(* ===== verification/MsgIndex.thy ===== *)
theory MsgIndex
  imports RedisWrites
begin

section \<open>The index of client message ids\<close>

text \<open>
  \<^verbatim>\<open>module/message/msgindex.go\<close>: the id the server gave a message of a client is kept in Redis for a window
  of time, so that a message that is sent again gets its first id. \<open>gen\<close> is what the generator gives when
  no id is proposed, \<open>gotext\<close> the text \<^verbatim>\<open>\%#v\<close> makes of a reply.
\<close>

subsection \<open>The index\<close>

record msg_index =
  cx_prefix :: string
  cx_ttl :: duration

text \<open>Options are functions on the index.\<close>

definition WithPrefix :: "string \<Rightarrow> msg_index \<Rightarrow> msg_index" where
  "WithPrefix prefix m = m\<lparr> cx_prefix := prefix \<rparr>"

definition WithTTL :: "duration \<Rightarrow> msg_index \<Rightarrow> msg_index" where
  "WithTTL ttl m = m\<lparr> cx_ttl := ttl \<rparr>"

definition NewClientMsgIndex :: "(msg_index \<Rightarrow> msg_index) list \<Rightarrow> msg_index" where
  "NewClientMsgIndex opts = fold (\<lambda>o1 m. o1 m) opts \<lparr> cx_prefix = ''im:cid'', cx_ttl = 48 * 3600 * second \<rparr>"

definition cid_key :: "msg_index \<Rightarrow> string \<Rightarrow> string \<Rightarrow> string \<Rightarrow> string" where
  "cid_key m tenant sender clientMsgID = cx_prefix m @ '':'' @ tenant @ '':'' @ sender @ '':'' @ clientMsgID"

definition lua_ensure :: "string \<Rightarrow> string \<Rightarrow> int \<Rightarrow> rscript" where
  "lua_ensure k v ttl_ms =
     rthen (SETNX k v) (\<lambda>ok.
       if ok = 1 then rthen (PEXPIRE k (tonumber ttl_ms)) (\<lambda>_. rret (LArr [LInt 0, LStr v]))
       else rthen (GET_cmd k) (\<lambda>old. rret (LArr [LInt 1, (case old of None \<Rightarrow> LNil | Some s \<Rightarrow> LStr s)])))"

text \<open>\<^verbatim>\<open>m.ttl/time.Millisecond\<close>, cut off towards zero.\<close>

definition ttl_ms :: "duration \<Rightarrow> int" where
  "ttl_ms d = (if d < 0 then - ((- d) div millisecond) else d div millisecond)"

definition proposed_id :: "string \<Rightarrow> string \<Rightarrow> string" where
  "proposed_id proposedSID gen = (if proposedSID = '''' then gen else proposedSID)"

definition Ensure ::
  "'r redis \<Rightarrow> (rreply \<Rightarrow> string) \<Rightarrow> msg_index \<Rightarrow> string \<Rightarrow> string \<Rightarrow> string \<Rightarrow> string \<Rightarrow> string \<Rightarrow> 'r \<Rightarrow> 'r \<times> (string \<times> bool) go" where
  "Ensure R gotext m tenant sender clientMsgID proposedSID gen r =
     (case rd_Run R (lua_ensure (cid_key m tenant sender clientMsgID) (proposed_id proposedSID gen) (ttl_ms (cx_ttl m))) r of
        (r1, Ok LNil) \<Rightarrow> (r1, Error ''redis: nil'')
      | (r1, Ok (LArr [a, b])) \<Rightarrow>
          (let flag = (case a of LInt i \<Rightarrow> i | _ \<Rightarrow> 0); val = (case b of LStr s \<Rightarrow> s | _ \<Rightarrow> '''')
           in (r1, Ok (val, flag = 1)))
      | (r1, Ok res) \<Rightarrow> (r1, Error (''unexpected lua result: '' @ gotext res))
      | (r1, Error e) \<Rightarrow> (r1, Error e)
      | (r1, Panic e) \<Rightarrow> (r1, Panic e))"

definition index_Get :: "'r redis \<Rightarrow> msg_index \<Rightarrow> string \<Rightarrow> string \<Rightarrow> string \<Rightarrow> 'r \<Rightarrow> 'r \<times> string go" where
  "index_Get R m tenant sender clientMsgID r =
     map_prod id reply_Text (rd_Run R (rthen (GET_cmd (cid_key m tenant sender clientMsgID))
       (\<lambda>v. rret (case v of None \<Rightarrow> LNil | Some s \<Rightarrow> LStr s))) r)"

definition index_Exists :: "'r redis \<Rightarrow> msg_index \<Rightarrow> string \<Rightarrow> string \<Rightarrow> string \<Rightarrow> 'r \<Rightarrow> 'r \<times> bool go" where
  "index_Exists R m tenant sender clientMsgID r =
     (case map_prod id reply_Int64 (rd_Run R (rthen (EXISTS (cid_key m tenant sender clientMsgID)) (\<lambda>n. rret (LInt n))) r) of
        (r1, Ok n) \<Rightarrow> (r1, Ok (n = 1)) | (r1, Error e) \<Rightarrow> (r1, Error e) | (r1, Panic e) \<Rightarrow> (r1, Panic e))"

definition index_Del :: "'r redis \<Rightarrow> msg_index \<Rightarrow> string \<Rightarrow> string \<Rightarrow> string \<Rightarrow> 'r \<Rightarrow> 'r \<times> unit go" where
  "index_Del R m tenant sender clientMsgID r =
     (case rd_Run R (rthen (DEL (cid_key m tenant sender clientMsgID)) (\<lambda>n. rret (LInt n))) r of
        (r1, Ok _) \<Rightarrow> (r1, Ok ()) | (r1, Error e) \<Rightarrow> (r1, Error e) | (r1, Panic e) \<Rightarrow> (r1, Panic e))"

definition index_Touch :: "'r redis \<Rightarrow> msg_index \<Rightarrow> string \<Rightarrow> string \<Rightarrow> string \<Rightarrow> 'r \<Rightarrow> 'r \<times> unit go" where
  "index_Touch R m tenant sender clientMsgID r =
     (case rd_Run R (rthen (PEXPIRE (cid_key m tenant sender clientMsgID) (formatMs (cx_ttl m))) (\<lambda>n. rret (LInt n))) r of
        (r1, Ok _) \<Rightarrow> (r1, Ok ()) | (r1, Error e) \<Rightarrow> (r1, Error e) | (r1, Panic e) \<Rightarrow> (r1, Panic e))"

subsection \<open>What a call does\<close>

lemma sets_at_most_DEL_any [sets_at_most_intros]: "sets_at_most k v (DEL j)"
  by (rule sets_at_most_none) (auto simp: DEL_def r_del_def r_get_def)

lemma lua_ensure_sets: "sets_at_most k v (lua_ensure k v n)"
  unfolding lua_ensure_def by (intro sets_at_most_intros)

text \<open>An answer is what the key holds afterwards; it is the proposed id or what the key held before.\<close>

lemma lua_ensure_answer:
  assumes "lua_ensure k v n db = (db', Ok x)"
  shows "r_get k db = None \<and> x = LArr [LInt 0, LStr v] \<and> (0 < tonumber n \<longrightarrow> r_get k db' = Some (RStr v))
    \<or> (\<exists>s. r_get k db = Some (RStr s) \<and> x = LArr [LInt 1, LStr s] \<and> db' = db)"
proof (cases "r_get k db")
  case None
  then show ?thesis using assms
    by (auto simp: lua_ensure_def rthen_def SETNX_def SET_cmd_def PEXPIRE_def PEXPIREAT_def rret_def r_get_def split: if_splits)
next
  case (Some y)
  then show ?thesis using assms
    by (cases y) (auto simp: lua_ensure_def rthen_def SETNX_def GET_cmd_def rret_def)
qed

text \<open>
  The answer is read from the run whose reply arrived; \<open>db1\<close> is the keyspace it found. When the script was sent
  once, that is the keyspace of the call.
\<close>

lemma Ensure_found:
  assumes "Ensure R gotext m tenant sender cid p gen r = (r', Ok (sid, ex))"
    and "lua_ensure (cid_key m tenant sender cid) (proposed_id p gen) (ttl_ms (cx_ttl m)) (purge t db1) = (rv r', Ok x)"
    and "rd_Run R (lua_ensure (cid_key m tenant sender cid) (proposed_id p gen) (ttl_ms (cx_ttl m))) r = (r', Ok x)"
  shows "(if ex then r_get (cid_key m tenant sender cid) db1 = Some (RStr sid) else sid = proposed_id p gen)
    \<and> (0 < tonumber (ttl_ms (cx_ttl m)) \<or> ex \<longrightarrow> r_get (cid_key m tenant sender cid) (rv r') = Some (RStr sid))"
  using lua_ensure_answer[OF assms(2)]
proof (elim disjE exE conjE)
  assume "x = LArr [LInt 0, LStr (proposed_id p gen)]"
    "0 < tonumber (ttl_ms (cx_ttl m)) \<longrightarrow> r_get (cid_key m tenant sender cid) (rv r') = Some (RStr (proposed_id p gen))"
  then show ?thesis using assms(1,3) by (auto simp: Ensure_def)
next
  fix s
  assume "r_get (cid_key m tenant sender cid) (purge t db1) = Some (RStr s)" "x = LArr [LInt 1, LStr s]" "rv r' = purge t db1"
  then show ?thesis using assms(1,3) by (auto simp: Ensure_def dest: r_get_unpurged)
qed

lemma Ensure_ran:
  assumes "Ensure R gotext m tenant sender cid p gen r = (r', Ok (sid, ex))"
  obtains x where "rd_Run R (lua_ensure (cid_key m tenant sender cid) (proposed_id p gen) (ttl_ms (cx_ttl m))) r = (r', Ok x)"
proof -
  obtain r1 y where run: "rd_Run R (lua_ensure (cid_key m tenant sender cid) (proposed_id p gen) (ttl_ms (cx_ttl m))) r = (r1, y)" by fastforce
  then show thesis using that assms by (cases y) (auto simp: Ensure_def Let_def split: rreply.splits list.splits)
qed

lemma Ensure_Ok:
  assumes "redis_laws R rv" "Ensure R gotext m tenant sender cid p gen r = (r', Ok (sid, ex))"
  shows "(if ex then r_get (cid_key m tenant sender cid) (rv r) = Some (RStr sid) \<or> sid = proposed_id p gen else sid = proposed_id p gen)
    \<and> (0 < tonumber (ttl_ms (cx_ttl m)) \<or> ex \<longrightarrow> r_get (cid_key m tenant sender cid) (rv r') = Some (RStr sid))"
proof -
  obtain x where x: "rd_Run R (lua_ensure (cid_key m tenant sender cid) (proposed_id p gen) (ttl_ms (cx_ttl m))) r = (r', Ok x)"
    by (rule Ensure_ran[OF assms(2)])
  then obtain db1 t where sent: "sent_before (lua_ensure (cid_key m tenant sender cid) (proposed_id p gen) (ttl_ms (cx_ttl m))) (rv r) db1"
    and run: "lua_ensure (cid_key m tenant sender cid) (proposed_id p gen) (ttl_ms (cx_ttl m)) (purge t db1) = (rv r', Ok x)"
    using redis_run_Ok[OF assms(1)] by blast
  from Ensure_found[where rv = rv and r' = r', OF assms(2) run x] sent_sets_at_most[OF sent lua_ensure_sets, of "cid_key m tenant sender cid" "RStr sid"]
  show ?thesis by (auto split: if_splits)
qed

lemma Ensure_once:
  assumes "redis_once R rv" "Ensure R gotext m tenant sender cid p gen r = (r', Ok (sid, True))"
  shows "r_get (cid_key m tenant sender cid) (rv r) = Some (RStr sid)"
proof -
  obtain x where x: "rd_Run R (lua_ensure (cid_key m tenant sender cid) (proposed_id p gen) (ttl_ms (cx_ttl m))) r = (r', Ok x)"
    by (rule Ensure_ran[OF assms(2)])
  then obtain t where "lua_ensure (cid_key m tenant sender cid) (proposed_id p gen) (ttl_ms (cx_ttl m)) (purge t (rv r)) = (rv r', Ok x)"
    using redis_once_Ok[OF assms(1)] by blast
  from Ensure_found[where rv = rv and r' = r', OF assms(2) this x] show ?thesis by simp
qed

text \<open>The script of a new message, run again because its reply was lost, finds the id this very call proposed.\<close>

theorem resent_ensure_says_known:
  assumes "lua_ensure k v n db = (db1, Ok x)" "r_get k db = None" "0 < tonumber n" "r_get k (purge t db1) \<noteq> None"
  shows "x = LArr [LInt 0, LStr v] \<and> lua_ensure k v n (purge t db1) = (purge t db1, Ok (LArr [LInt 1, LStr v]))"
proof -
  have x: "x = LArr [LInt 0, LStr v]" and "r_get k db1 = Some (RStr v)" using lua_ensure_answer[OF assms(1)] assms(2,3) by auto
  with assms(4) r_get_unpurged[of k t db1] have "r_get k (purge t db1) = Some (RStr v)" by (cases "r_get k (purge t db1)") auto
  with x show ?thesis by (simp add: lua_ensure_def rthen_def SETNX_def GET_cmd_def rret_def)
qed

lemma Ensure_sets:
  assumes "redis_laws R rv" "Ensure R gotext m tenant sender cid p gen r = (r', x)" "r_get j (rv r') = Some y"
  shows "r_get j (rv r) = Some y \<or> j = cid_key m tenant sender cid \<and> y = RStr (proposed_id p gen)"
proof -
  let ?sc = "lua_ensure (cid_key m tenant sender cid) (proposed_id p gen) (ttl_ms (cx_ttl m))"
  obtain r1 z where run: "rd_Run R ?sc r = (r1, z)" by fastforce
  then have "r1 = r'" using assms(2) by (auto simp: Ensure_def Let_def split: go.splits rreply.splits list.splits)
  with run_sets_at_most[OF assms(1) run lua_ensure_sets, of j y] assms(3) show ?thesis by simp
qed

subsection \<open>Any number of calls\<close>

datatype index_op = OEnsure string string string string string | OGet string string string | OExists string string string
  | ODel string string string | OTouch string string string

datatype index_answer = AEnsure "(string \<times> bool) go" | AText "string go" | AFound "bool go" | ADone "unit go"

fun index_call :: "'r redis \<Rightarrow> (rreply \<Rightarrow> string) \<Rightarrow> msg_index \<Rightarrow> index_op \<Rightarrow> 'r \<Rightarrow> 'r \<times> index_answer" where
  "index_call R gotext m (OEnsure t s c p gen) r = map_prod id AEnsure (Ensure R gotext m t s c p gen r)"
| "index_call R gotext m (OGet t s c) r = map_prod id AText (index_Get R m t s c r)"
| "index_call R gotext m (OExists t s c) r = map_prod id AFound (index_Exists R m t s c r)"
| "index_call R gotext m (ODel t s c) r = map_prod id ADone (index_Del R m t s c r)"
| "index_call R gotext m (OTouch t s c) r = map_prod id ADone (index_Touch R m t s c r)"

fun index_run :: "'r redis \<Rightarrow> (rreply \<Rightarrow> string) \<Rightarrow> msg_index \<Rightarrow> index_op list \<Rightarrow> 'r \<Rightarrow> 'r" where
  "index_run R gotext m [] r = r"
| "index_run R gotext m (c # cs) r = index_run R gotext m cs (fst (index_call R gotext m c r))"

text \<open>The ids that calls proposed for a key.\<close>

fun proposals :: "msg_index \<Rightarrow> string \<Rightarrow> index_op list \<Rightarrow> string set" where
  "proposals m k [] = {}"
| "proposals m k (OEnsure t s c p gen # cs) = (if cid_key m t s c = k then {proposed_id p gen} else {}) \<union> proposals m k cs"
| "proposals m k (_ # cs) = proposals m k cs"

lemma read_writes_nothing:
  assumes "redis_laws R rv" "rd_Run R sc r = (r', x)" "\<And>k v. sets_at_most k v sc" "r_get j (rv r') = Some y"
  shows "r_get j (rv r) = Some y"
  using run_sets_at_most[OF assms(1,2) assms(3)[of "''x'' @ j" "''''"] assms(4)] by auto

lemma index_call_keys:
  assumes "redis_laws R rv" "r_get j (rv (fst (index_call R gotext m c r))) = Some y"
  shows "r_get j (rv r) = Some y \<or> (\<exists>v \<in> proposals m j [c]. y = RStr v)"
proof (cases c)
  case (OEnsure t s cid p gen)
  obtain r1 x where e: "Ensure R gotext m t s cid p gen r = (r1, x)" by fastforce
  from Ensure_sets[OF assms(1) e] show ?thesis using assms(2) OEnsure e by auto
next
  case (OGet t s cid)
  obtain r1 x where run: "rd_Run R (rthen (GET_cmd (cid_key m t s cid)) (\<lambda>v. rret (case v of None \<Rightarrow> LNil | Some s \<Rightarrow> LStr s))) r = (r1, x)" by fastforce
  have "r_get j (rv r1) = Some y" using assms(2) OGet run by (simp add: index_Get_def)
  then have "r_get j (rv r) = Some y" by (rule read_writes_nothing[OF assms(1) run, rotated]) (intro sets_at_most_intros)
  then show ?thesis ..
next
  case (OExists t s cid)
  obtain r1 x where run: "rd_Run R (rthen (EXISTS (cid_key m t s cid)) (\<lambda>n. rret (LInt n))) r = (r1, x)" by fastforce
  have "r_get j (rv r1) = Some y" using assms(2) OExists run by (auto simp: index_Exists_def split: go.splits)
  then have "r_get j (rv r) = Some y" by (rule read_writes_nothing[OF assms(1) run, rotated]) (intro sets_at_most_intros)
  then show ?thesis ..
next
  case (ODel t s cid)
  obtain r1 x where run: "rd_Run R (rthen (DEL (cid_key m t s cid)) (\<lambda>n. rret (LInt n))) r = (r1, x)" by fastforce
  have "r_get j (rv r1) = Some y" using assms(2) ODel run by (auto simp: index_Del_def split: go.splits)
  then have "r_get j (rv r) = Some y" by (rule read_writes_nothing[OF assms(1) run, rotated]) (intro sets_at_most_intros)
  then show ?thesis ..
next
  case (OTouch t s cid)
  obtain r1 x where run: "rd_Run R (rthen (PEXPIRE (cid_key m t s cid) (formatMs (cx_ttl m))) (\<lambda>n. rret (LInt n))) r = (r1, x)" by fastforce
  have "r_get j (rv r1) = Some y" using assms(2) OTouch run by (auto simp: index_Touch_def split: go.splits)
  then have "r_get j (rv r) = Some y" by (rule read_writes_nothing[OF assms(1) run, rotated]) (intro sets_at_most_intros)
  then show ?thesis ..
qed

lemma proposals_Cons: "proposals m j (c # cs) = proposals m j [c] \<union> proposals m j cs"
  by (cases c) auto

lemma index_run_keys:
  "redis_laws R rv \<Longrightarrow> r_get j (rv (index_run R gotext m cs r)) = Some y \<Longrightarrow> r_get j (rv r) = Some y \<or> (\<exists>v \<in> proposals m j cs. y = RStr v)"
proof (induction cs arbitrary: r)
  case (Cons c cs)
  from Cons.IH[OF Cons.prems(1), of "fst (index_call R gotext m c r)"] Cons.prems(2)
  have "r_get j (rv (fst (index_call R gotext m c r))) = Some y \<or> (\<exists>v \<in> proposals m j cs. y = RStr v)" by simp
  then show ?case using index_call_keys[OF Cons.prems(1)] by (subst proposals_Cons) blast
qed simp

text \<open>C21: a message that is sent again gets an id its key was given before. Whatever calls went before, from any number of
  processes and with replies lost, an id that \<^verbatim>\<open>Ensure\<close> answers as known was proposed for the same key by an earlier
  call, or by this one when the client sent its script again (\<open>resent_ensure_says_known\<close>), and by an earlier call when it
  sends a script once; an id it answers as new is the one this call proposed. Either way the key holds the id.\<close>
theorem known_id_was_proposed:
  assumes "redis_laws R rv" and "r_get (cid_key m t s c) (rv r0) = None" and "0 < tonumber (ttl_ms (cx_ttl m))"
    and "Ensure R gotext m t s c p gen (index_run R gotext m cs r0) = (r', Ok (sid, ex))"
  shows "(if ex then sid \<in> insert (proposed_id p gen) (proposals m (cid_key m t s c) cs) else sid = proposed_id p gen)
    \<and> (ex \<and> redis_once R rv \<longrightarrow> sid \<in> proposals m (cid_key m t s c) cs)
    \<and> r_get (cid_key m t s c) (rv r') = Some (RStr sid)"
proof -
  have "sid \<in> proposals m (cid_key m t s c) cs"
    if "r_get (cid_key m t s c) (rv (index_run R gotext m cs r0)) = Some (RStr sid)"
    using index_run_keys[OF assms(1) that] assms(2) by auto
  then show ?thesis using Ensure_Ok[OF assms(1,4)] Ensure_once[of R rv gotext m t s c p gen] assms(3,4) by (auto split: if_splits)
qed

text \<open>
  As long as the key is not deleted and every call that asks finds it, all answers are the same: a call that
  finds the id leaves the key as it was.
\<close>

lemma found_id_stays:
  assumes "redis_once R rv" "Ensure R gotext m t s c p gen r = (r', Ok (sid, True))" "r_get (cid_key m t s c) (rv r) = Some (RStr sid0)"
  shows "sid = sid0 \<and> r_get (cid_key m t s c) (rv r') = Some (RStr sid0)"
  using Ensure_once[OF assms(1,2)] Ensure_Ok[OF redis_once_laws[OF assms(1)] assms(2)] assms(3) by auto

text \<open>The parts of a key are not separated: two messages of two tenants can have one key.\<close>

theorem keys_collide: "cid_key m ''a'' ''b:c'' ''1'' = cid_key m ''a:b'' ''c'' ''1''"
  by (simp add: cid_key_def)

text \<open>Two processes, the second one asks again.\<close>

definition empty_rd :: mem_rd where
  "empty_rd = \<lparr> mr_db = \<lparr> rd_now = 0, rd_keys = [] \<rparr>, mr_published = [] \<rparr>"

theorem known_id_was_proposed_witness:
  "snd (Ensure mem_redis (\<lambda>_. '''') (NewClientMsgIndex []) ''t'' ''u'' ''1'' '''' ''B''
      (index_run mem_redis (\<lambda>_. '''') (NewClientMsgIndex []) [OEnsure ''t'' ''u'' ''1'' '''' ''A''] empty_rd)) = Ok (''A'', True)
   \<and> ''A'' \<in> proposals (NewClientMsgIndex []) (cid_key (NewClientMsgIndex []) ''t'' ''u'' ''1'') [OEnsure ''t'' ''u'' ''1'' '''' ''A'']"
proof -
  let ?e = "Ensure mem_redis (\<lambda>_. '''') (NewClientMsgIndex []) ''t'' ''u'' ''1'' '''' ''B''
      (index_run mem_redis (\<lambda>_. '''') (NewClientMsgIndex []) [OEnsure ''t'' ''u'' ''1'' '''' ''A''] empty_rd)"
  have a: "snd ?e = Ok (''A'', True)" by code_simp
  then obtain r' where e: "?e = (r', Ok (''A'', True))" by (metis prod.collapse)
  have t: "0 < tonumber (ttl_ms (cx_ttl (NewClientMsgIndex [])))" by code_simp
  have n: "r_get (cid_key (NewClientMsgIndex []) ''t'' ''u'' ''1'') (mr_db empty_rd) = None" by (simp add: r_get_def empty_rd_def)
  show ?thesis using known_id_was_proposed[OF mem_redis_laws n t e] mem_redis_once a by simp
qed

end
