(* ===== verification/KafkaConsumer.thy ===== *)
theory KafkaConsumer
  imports Prelude
begin

section \<open>Committing what was handled\<close>

text \<open>
  \<^verbatim>\<open>service/dispatcher/kafka/consumer.go\<close>: one partition of a topic. Messages are handed to a pool
  of workers; what they finished comes back over a channel, in any order; the loop marks an offset only
  when everything before it succeeded. The steps of the loop and of the workers interleave.
\<close>

record claim_state =
  cl_next :: int
  cl_pendingOK :: "int list"
  cl_work :: "int list"
  cl_ackC :: "(int \<times> bool) list"
  cl_marks :: "int list"

definition claim_init :: "int \<Rightarrow> claim_state" where
  "claim_init initialOffset = \<lparr> cl_next = initialOffset, cl_pendingOK = [], cl_work = [], cl_ackC = [], cl_marks = [] \<rparr>"

text \<open>The inner loop: while the next offset is done, mark it and go on.\<close>

function advance :: "int \<Rightarrow> int list \<Rightarrow> int list \<Rightarrow> int \<times> int list \<times> int list" where
  "advance nxt pending marks =
     (if nxt \<in> set pending then advance (wrap64 (nxt + 1)) (removeAll nxt pending) (marks @ [wrap64 (nxt + 1)])
      else (nxt, pending, marks))"
  by pat_completeness auto
termination
  by (relation "measure (\<lambda>(n, p, m). length p)") (auto intro: length_removeAll_less)

declare advance.simps [simp del]

text \<open>The set of completed offsets.\<close>

definition handle_ack :: "int \<times> bool \<Rightarrow> claim_state \<Rightarrow> claim_state" where
  "handle_ack a st =
     (if \<not> snd a then st
      else (case advance (cl_next st) (List.insert (fst a) (cl_pendingOK st)) (cl_marks st) of
              (n, p, m) \<Rightarrow> st\<lparr> cl_next := n, cl_pendingOK := p, cl_marks := m \<rparr>))"

text \<open>
  A step: a message is taken and given to a worker (the pool has 32, and at most 4096 messages are in
  flight); or it has no handler, or the pool refuses it; a worker ends with a result, or panics, which
  the pool logs; the loop takes the next acknowledgement, of which the channel holds 2048.
\<close>

datatype claim_event = EvSubmit int | EvRefuse int | EvFinish int bool | EvPanic int | EvAck

inductive claim_step :: "claim_state \<Rightarrow> claim_event \<Rightarrow> claim_state \<Rightarrow> bool" where
  submit: "length (cl_work st) < 32 \<Longrightarrow> claim_step st (EvSubmit off) (st\<lparr> cl_work := cl_work st @ [off] \<rparr>)"
| refuse: "length (cl_ackC st) < 2048 \<Longrightarrow>
    claim_step st (EvRefuse off) (st\<lparr> cl_ackC := cl_ackC st @ [(off, False)] \<rparr>)"
| finish: "off \<in> set (cl_work st) \<Longrightarrow> length (cl_ackC st) < 2048 \<Longrightarrow>
    claim_step st (EvFinish off ok) (st\<lparr> cl_work := remove1 off (cl_work st), cl_ackC := cl_ackC st @ [(off, ok)] \<rparr>)"
| panic: "off \<in> set (cl_work st) \<Longrightarrow> claim_step st (EvPanic off) (st\<lparr> cl_work := remove1 off (cl_work st) \<rparr>)"
| take_ack: "cl_ackC st = a # rest \<Longrightarrow> claim_step st EvAck (handle_ack a (st\<lparr> cl_ackC := rest \<rparr>))"

inductive_cases claim_stepE: "claim_step st ev st'"

text \<open>What happened in a claim that started at an offset.\<close>

inductive claim_run :: "int \<Rightarrow> claim_event list \<Rightarrow> claim_state \<Rightarrow> bool" for initialOffset where
  start: "claim_run initialOffset [] (claim_init initialOffset)"
| step: "claim_run initialOffset evs st \<Longrightarrow> claim_step st ev st' \<Longrightarrow> claim_run initialOffset (evs @ [ev]) st'"

fun ev_offset :: "claim_event \<Rightarrow> int option" where
  "ev_offset (EvSubmit off) = Some off"
| "ev_offset (EvRefuse off) = Some off"
| "ev_offset (EvFinish off ok) = Some off"
| "ev_offset (EvPanic off) = Some off"
| "ev_offset EvAck = None"

text \<open>Offsets of 64 bits that have a successor.\<close>

definition offsets_ok :: "claim_event list \<Rightarrow> bool" where
  "offsets_ok evs \<longleftrightarrow> list_all (\<lambda>e. case ev_offset e of None \<Rightarrow> True | Some off \<Rightarrow> off < 2 ^ 63 - 1) evs"

definition succeeded :: "claim_event list \<Rightarrow> int set" where
  "succeeded evs = {off. EvFinish off True \<in> set evs}"

lemma succeeded_append [simp]: "succeeded (evs @ evs') = succeeded evs \<union> succeeded evs'"
  by (auto simp: succeeded_def)

lemma offsets_ok_append [simp]: "offsets_ok (evs @ evs') \<longleftrightarrow> offsets_ok evs \<and> offsets_ok evs'"
  by (simp add: offsets_ok_def)

subsection \<open>The inner loop\<close>

lemma advance_spec:
  assumes "advance nxt pending marks = (n, p, m)" "int64 nxt" "\<forall>off \<in> set pending. off < 2 ^ 63 - 1"
  shows "nxt \<le> n \<and> int64 n \<and> n \<notin> set p \<and> set p \<subseteq> set pending \<and> set pending \<subseteq> set p \<union> {nxt..<n} \<and> {nxt..<n} \<subseteq> set pending
    \<and> m = marks @ [nxt + 1..n]"
  using assms
proof (induction nxt pending marks rule: advance.induct)
  case (1 nxt pending marks)
  show ?case
  proof (cases "nxt \<in> set pending")
    case False
    with "1.prems"(1) have "n = nxt" "p = pending" "m = marks" by (simp_all add: advance.simps[of nxt])
    with False "1.prems"(2) show ?thesis by simp
  next
    case True
    with "1.prems"(2,3) have w: "wrap64 (nxt + 1) = nxt + 1" "int64 (nxt + 1)" by (auto simp: int64_def)
    from True "1.prems"(1) have "advance (nxt + 1) (removeAll nxt pending) (marks @ [nxt + 1]) = (n, p, m)"
      by (simp add: advance.simps[of nxt] w(1))
    from "1.IH"[OF True, unfolded w(1), OF this w(2)] "1.prems"(3)
    have ih: "nxt + 1 \<le> n" "int64 n" "n \<notin> set p" "set p \<subseteq> set pending - {nxt}" "set pending - {nxt} \<subseteq> set p \<union> {nxt + 1..<n}"
      "{nxt + 1..<n} \<subseteq> set pending - {nxt}" "m = (marks @ [nxt + 1]) @ [nxt + 1 + 1..n]"
      by auto
    have "{nxt..<n} = insert nxt {nxt + 1..<n}" using ih(1) by auto
    moreover have "[nxt + 1..n] = (nxt + 1) # [nxt + 1 + 1..n]" using ih(1) by (simp add: upto_rec1)
    ultimately show ?thesis using ih True by auto
  qed
qed

subsection \<open>The invariant of a claim\<close>

definition claim_inv :: "int \<Rightarrow> claim_event list \<Rightarrow> claim_state \<Rightarrow> bool" where
  "claim_inv i evs st \<longleftrightarrow> i \<le> cl_next st \<and> int64 (cl_next st) \<and> cl_next st \<notin> set (cl_pendingOK st)
     \<and> cl_marks st = [i + 1..cl_next st] \<and> {i..<cl_next st} \<subseteq> succeeded evs
     \<and> set (cl_pendingOK st) \<subseteq> succeeded evs \<and> (\<forall>off. (off, True) \<in> set (cl_ackC st) \<longrightarrow> off \<in> succeeded evs)
     \<and> (\<forall>off \<in> succeeded evs. i \<le> off \<and> off < cl_next st \<or> off \<in> set (cl_pendingOK st) \<or> (off, True) \<in> set (cl_ackC st))"

lemma succeeded_less: "offsets_ok evs \<Longrightarrow> off \<in> succeeded evs \<Longrightarrow> off < 2 ^ 63 - 1"
  by (force simp: succeeded_def offsets_ok_def list_all_iff)

lemma upto_join:
  assumes "a \<le> b + 1" "b \<le> c"
  shows "[a..b] @ [b + 1..c] = [a..c :: int]"
proof (cases "b = c")
  case False
  with assms(2) have "b + 1 \<le> c" by simp
  from upto_split1[OF assms(1) this] show ?thesis by simp
qed simp

lemma claim_inv_ack:
  assumes inv: "claim_inv i evs st" and ok: "offsets_ok evs" and a: "cl_ackC st = a # rest"
  shows "claim_inv i (evs @ [EvAck]) (handle_ack a (st\<lparr> cl_ackC := rest \<rparr>))"
proof -
  have s: "succeeded (evs @ [EvAck]) = succeeded evs" by (simp add: succeeded_def)
  obtain off b where ab: "a = (off, b)" by fastforce
  show ?thesis
  proof (cases b)
    case False
    with inv a ab s show ?thesis by (auto simp: claim_inv_def handle_ack_def)
  next
    case True
    with inv a ab have off: "off \<in> succeeded evs" by (auto simp: claim_inv_def)
    let ?pend = "List.insert off (cl_pendingOK st)"
    obtain n p m where adv: "advance (cl_next st) ?pend (cl_marks st) = (n, p, m)" by (metis prod_cases3)
    have "\<forall>x \<in> set ?pend. x < 2 ^ 63 - 1"
      using inv off succeeded_less[OF ok] by (auto simp: claim_inv_def)
    with advance_spec[OF adv] inv
    have sp: "cl_next st \<le> n" "int64 n" "n \<notin> set p" "set p \<subseteq> insert off (set (cl_pendingOK st))"
      "insert off (set (cl_pendingOK st)) \<subseteq> set p \<union> {cl_next st..<n}"
      "{cl_next st..<n} \<subseteq> insert off (set (cl_pendingOK st))" "m = cl_marks st @ [cl_next st + 1..n]"
      by (auto simp: claim_inv_def)
    from inv have i: "i \<le> cl_next st" "cl_marks st = [i + 1..cl_next st]" "{i..<cl_next st} \<subseteq> succeeded evs"
      "set (cl_pendingOK st) \<subseteq> succeeded evs" "\<And>x. (x, True) \<in> set rest \<Longrightarrow> x \<in> succeeded evs"
      "\<And>x. x \<in> succeeded evs \<Longrightarrow> i \<le> x \<and> x < cl_next st \<or> x \<in> set (cl_pendingOK st) \<or> x = off \<or> (x, True) \<in> set rest"
      by (auto simp: claim_inv_def a ab)
    have marks: "[i + 1..cl_next st] @ [cl_next st + 1..n] = [i + 1..n]"
      using i(1) sp(1) by (intro upto_join) simp_all
    have st': "handle_ack a (st\<lparr> cl_ackC := rest \<rparr>) = st\<lparr> cl_ackC := rest, cl_next := n, cl_pendingOK := p, cl_marks := m \<rparr>"
      using True ab adv by (simp add: handle_ack_def)
    have pend: "insert off (set (cl_pendingOK st)) \<subseteq> succeeded evs" using off i(4) by simp
    have "x \<in> succeeded evs" if "i \<le> x" "x < n" for x
    proof (cases "x < cl_next st")
      case True
      with that i(3) show ?thesis by auto
    next
      case False
      with that have "x \<in> {cl_next st..<n}" by simp
      with sp(6) pend show ?thesis by blast
    qed
    then have "{i..<n} \<subseteq> succeeded evs" by auto
    moreover have "i \<le> x \<and> x < n \<or> x \<in> set p \<or> (x, True) \<in> set rest" if "x \<in> succeeded evs" for x
    proof -
      have "x \<in> set p \<or> cl_next st \<le> x \<and> x < n" if "x \<in> insert off (set (cl_pendingOK st))"
        using subsetD[OF sp(5) that] by auto
      with i(6)[OF that] i(1) sp(1) show ?thesis by auto
    qed
    moreover have "set p \<subseteq> succeeded evs" using sp(4) pend by (rule subset_trans)
    ultimately show ?thesis
      using i(1,5) sp(1,2,3,7) by (simp add: claim_inv_def s st' i(2) marks del: succeeded_append)
  qed
qed

lemma claim_run_inv:
  "claim_run i evs st \<Longrightarrow> int64 i \<Longrightarrow> offsets_ok evs \<Longrightarrow> claim_inv i evs st"
proof (induction rule: claim_run.induct)
  case start
  then show ?case by (simp add: claim_inv_def claim_init_def succeeded_def)
next
  case (step evs st ev st')
  then have inv: "claim_inv i evs st" and ok: "offsets_ok evs" by simp_all
  from step.hyps(2) show ?case
  proof cases
    case (take_ack a rest)
    with claim_inv_ack[OF inv ok] show ?thesis by simp
  next
    case (finish off ok)
    with inv show ?thesis by (auto simp: claim_inv_def succeeded_def)
  qed (use inv in \<open>auto simp: claim_inv_def succeeded_def\<close>)
qed

text \<open>What a worker ends was given to it.\<close>

lemma claim_run_submitted:
  "claim_run i evs st \<Longrightarrow> (\<forall>off \<in> set (cl_work st). EvSubmit off \<in> set evs)
     \<and> (\<forall>off ok. EvFinish off ok \<in> set evs \<longrightarrow> EvSubmit off \<in> set evs)"
proof (induction rule: claim_run.induct)
  case start
  then show ?case by (simp add: claim_init_def)
next
  case (step evs st ev st')
  from step.hyps(2) step.IH show ?case
    by cases (auto dest: set_remove1_subset[THEN subsetD]
        simp: handle_ack_def split: prod.splits)
qed

subsection \<open>What is committed\<close>

text \<open>The steps as a function, to run a claim on given events.\<close>

fun claim_do :: "claim_event \<Rightarrow> claim_state \<Rightarrow> claim_state option" where
  "claim_do (EvSubmit off) st = (if length (cl_work st) < 32 then Some (st\<lparr> cl_work := cl_work st @ [off] \<rparr>) else None)"
| "claim_do (EvRefuse off) st =
     (if length (cl_ackC st) < 2048 then Some (st\<lparr> cl_ackC := cl_ackC st @ [(off, False)] \<rparr>) else None)"
| "claim_do (EvFinish off ok) st =
     (if off \<in> set (cl_work st) \<and> length (cl_ackC st) < 2048
      then Some (st\<lparr> cl_work := remove1 off (cl_work st), cl_ackC := cl_ackC st @ [(off, ok)] \<rparr>) else None)"
| "claim_do (EvPanic off) st = (if off \<in> set (cl_work st) then Some (st\<lparr> cl_work := remove1 off (cl_work st) \<rparr>) else None)"
| "claim_do EvAck st = (case cl_ackC st of [] \<Rightarrow> None | a # rest \<Rightarrow> Some (handle_ack a (st\<lparr> cl_ackC := rest \<rparr>)))"

fun claim_dos :: "claim_event list \<Rightarrow> claim_state \<Rightarrow> claim_state option" where
  "claim_dos [] st = Some st"
| "claim_dos (ev # evs) st = (case claim_do ev st of None \<Rightarrow> None | Some st' \<Rightarrow> claim_dos evs st')"

lemma claim_do_step: "claim_do ev st = Some st' \<longleftrightarrow> claim_step st ev st'"
proof
  show "claim_do ev st = Some st' \<Longrightarrow> claim_step st ev st'"
    by (cases ev) (auto intro: claim_step.intros split: if_splits list.splits)
next
  show "claim_step st ev st' \<Longrightarrow> claim_do ev st = Some st'"
    by (erule claim_stepE) simp_all
qed

lemma claim_dos_run:
  "claim_run i evs0 st \<Longrightarrow> claim_dos evs st = Some st' \<Longrightarrow> claim_run i (evs0 @ evs) st'"
proof (induction evs arbitrary: evs0 st)
  case (Cons ev evs)
  then obtain st1 where 1: "claim_do ev st = Some st1" "claim_dos evs st1 = Some st'" by (auto split: option.splits)
  from claim_run.step[OF Cons.prems(1) claim_do_step[THEN iffD1, OF 1(1)]] Cons.IH[OF _ 1(2)] show ?case by fastforce
qed simp

lemma claim_dos_start: "claim_dos evs (claim_init i) = Some st \<Longrightarrow> claim_run i evs st"
  using claim_dos_run[OF claim_run.start] by fastforce

text \<open>C12: the offsets a claim marks are, in order, one after another from where it started, and everything below
  a marked offset was handled with success: a restart from the last mark skips no message that was not
  handled.\<close>

theorem marks_cover_handled:
  assumes "claim_run i evs st" "int64 i" "offsets_ok evs"
  shows "cl_marks st = [i + 1..cl_next st] \<and> i \<le> cl_next st \<and> {i..<cl_next st} \<subseteq> succeeded evs"
  using claim_run_inv[OF assms] by (simp add: claim_inv_def)

text \<open>Two messages, handled in the other order; a third fails.\<close>

definition demo_events :: "claim_event list" where
  "demo_events = [EvSubmit 5, EvSubmit 6, EvSubmit 7, EvFinish 6 True, EvAck, EvFinish 5 True, EvFinish 7 False, EvAck, EvAck]"

definition demo_claim :: claim_state where
  "demo_claim = \<lparr> cl_next = 7, cl_pendingOK = [], cl_work = [], cl_ackC = [], cl_marks = [6, 7] \<rparr>"

lemma demo_claim_run: "claim_run 5 demo_events demo_claim"
  by (rule claim_dos_start) code_simp

lemma demo_claim_ok: "int64 5" "offsets_ok demo_events"
  by code_simp+

theorem marks_cover_handled_witness:
  "cl_marks demo_claim = [5 + 1..cl_next demo_claim] \<and> 5 \<le> cl_next demo_claim \<and> {5..<cl_next demo_claim} \<subseteq> succeeded demo_events"
  by (rule marks_cover_handled[OF demo_claim_run demo_claim_ok])



text \<open>A claim that starts at an offset no message has, as the client's -1 for a group that has committed
  nothing yet, never marks anything, whatever it handles.\<close>

theorem no_commit_without_start:
  assumes "claim_run i evs st" "int64 i" "offsets_ok evs" "EvSubmit i \<notin> set evs"
  shows "cl_marks st = []"
proof -
  have "i \<notin> succeeded evs" using claim_run_submitted[OF assms(1)] assms(4) by (auto simp: succeeded_def)
  with claim_run_inv[OF assms(1,2,3)] have "\<not> i < cl_next st" "cl_marks st = [i + 1..cl_next st]"
    by (auto simp: claim_inv_def)
  then show ?thesis by simp
qed

text \<open>A new group: the claim starts at -1, the messages at 0; both are handled.\<close>

definition stuck_events :: "claim_event list" where
  "stuck_events = [EvSubmit 0, EvSubmit 1, EvFinish 0 True, EvFinish 1 True, EvAck, EvAck]"

definition stuck_claim :: claim_state where
  "stuck_claim = \<lparr> cl_next = - 1, cl_pendingOK = [1, 0], cl_work = [], cl_ackC = [], cl_marks = [] \<rparr>"

theorem no_commit_without_start_witness:
  "claim_run (- 1) stuck_events stuck_claim \<and> EvFinish 0 True \<in> set stuck_events \<and> cl_marks stuck_claim = []"
proof -
  have r: "claim_run (- 1) stuck_events stuck_claim" by (rule claim_dos_start) code_simp
  have "int64 (- 1)" "offsets_ok stuck_events" "EvSubmit (- 1) \<notin> set stuck_events" "EvFinish 0 True \<in> set stuck_events"
    by code_simp+
  with no_commit_without_start[OF r] r show ?thesis by simp
qed

end
