(* ===== verification/KafkaProducer.thy ===== *)
theory KafkaProducer
  imports KafkaTopics
begin

section \<open>Producers and the start of consumers\<close>

text \<open>
  The rest of \<^verbatim>\<open>service/dispatcher/kafka/\<close>: the configuration of the client library
  (\<^verbatim>\<open>producer.go\<close>), the global client and producers, the three ways to send (\<^verbatim>\<open>send.go\<close>,
  \<^verbatim>\<open>sync.go\<close>, \<^verbatim>\<open>async.go\<close>) and the start of a consumer group (\<^verbatim>\<open>consumer.go\<close>,
  \<^verbatim>\<open>boot_consumer.go\<close>). The library is a parameter: its new configuration, its check of one, its clients.
\<close>

subsection \<open>The configuration of the library\<close>

type_synonym kafka_version = "nat \<times> nat \<times> nat \<times> nat"

record producer_config = app_config +
  ac_ProducerCompression :: string
  ac_ConsumerInitialOffset :: string
  ac_KafkaVersion :: kafka_version
  ac_ProducerRetries :: int

datatype compression = CompressionNone | CompressionSnappy | CompressionLZ4 | CompressionZSTD
datatype start_offset = OffsetNewest | OffsetOldest
datatype required_acks = NoResponse | WaitForLocal | WaitForAll
datatype partitioner = HashPartitioner | OtherPartitioner

record sarama_config =
  sc_Version :: kafka_version
  sc_Return_Successes :: bool
  sc_Return_Errors :: bool
  sc_RequiredAcks :: required_acks
  sc_Retry_Max :: int
  sc_Partitioner :: partitioner
  sc_Compression :: compression
  sc_Initial :: start_offset
  sc_Consumer_Errors :: bool
  sc_DialTimeout :: duration
  sc_ReadTimeout :: duration
  sc_WriteTimeout :: duration

text \<open>
  \<^verbatim>\<open>strings.ToLower\<close> lowers ASCII letters here: no other character has a letter of the names compared below as
  its lower case.
\<close>

definition compression_of :: "string \<Rightarrow> compression" where
  "compression_of s = (if ToLower s = ''snappy'' then CompressionSnappy else if ToLower s = ''lz4'' then CompressionLZ4
     else if ToLower s = ''zstd'' then CompressionZSTD else CompressionNone)"

definition offset_of :: "string \<Rightarrow> start_offset" where
  "offset_of s = (if ToLower s = ''oldest'' then OffsetOldest else OffsetNewest)"

text \<open>\<open>cfg\<close> is what \<^verbatim>\<open>sarama.NewConfig\<close> gives; the result of the check at the end is dropped.\<close>

definition BuildBaseConfigWith :: "sarama_config \<Rightarrow> 'e producer_config_scheme \<Rightarrow> sarama_config" where
  "BuildBaseConfigWith cfg c =
     (let retries = (if ac_ProducerRetries c \<le> 0 then 1 else ac_ProducerRetries c)
      in cfg\<lparr> sc_Version := (if ac_KafkaVersion c = (0, 0, 0, 0) then (2, 8, 0, 0) else ac_KafkaVersion c),
              sc_Return_Successes := True, sc_Return_Errors := True, sc_RequiredAcks := WaitForAll,
              sc_Retry_Max := retries, sc_Partitioner := HashPartitioner, sc_Compression := compression_of (ac_ProducerCompression c),
              sc_Initial := offset_of (ac_ConsumerInitialOffset c), sc_Consumer_Errors := True,
              sc_DialTimeout := 10 * second, sc_ReadTimeout := 30 * second, sc_WriteTimeout := 30 * second \<rparr>)"

text \<open>The older one reads the global configuration and writes the number of retries back into it.\<close>

definition BuildBaseConfig :: "sarama_config \<Rightarrow> 'e producer_config_scheme \<Rightarrow> 'e producer_config_scheme \<times> sarama_config" where
  "BuildBaseConfig cfg c =
     (let c1 = (if ac_ProducerRetries c \<le> 0 then c\<lparr> ac_ProducerRetries := 1 \<rparr> else c)
      in (c1, cfg\<lparr> sc_Version := ac_KafkaVersion c,
              sc_Return_Successes := True, sc_Return_Errors := True, sc_RequiredAcks := WaitForAll,
              sc_Retry_Max := ac_ProducerRetries c1, sc_Partitioner := HashPartitioner,
              sc_Compression := compression_of (ac_ProducerCompression c1),
              sc_Initial := offset_of (ac_ConsumerInitialOffset c1), sc_Consumer_Errors := True,
              sc_DialTimeout := 10 * second, sc_ReadTimeout := 30 * second, sc_WriteTimeout := 30 * second \<rparr>))"

definition FixedPartitioner_Partition :: "'m \<Rightarrow> int \<Rightarrow> int go" where
  "FixedPartitioner_Partition msg numPartitions = Ok 0"

definition FixedPartitioner_RequiresConsistency :: bool where
  "FixedPartitioner_RequiresConsistency = True"

subsection \<open>Clients and producers\<close>

text \<open>The global variables; \<open>kg_input\<close> holds what was sent asynchronously and not yet taken.\<close>

record ('c, 'p, 'a) kafka_globals =
  kg_Client :: "'c option"
  kg_Producer :: "'p option"
  kg_SyncProd :: "'p option"
  kg_AsyncProd :: "'a option"
  kg_input :: "(string \<times> string option \<times> string) list"

record ('c, 'p, 'a, 's) sarama =
  sa_NewClient :: "string list \<Rightarrow> sarama_config \<Rightarrow> 's \<Rightarrow> 's \<times> 'c go"
  sa_Validate :: "sarama_config \<Rightarrow> unit go"
  sa_NewSync :: "'c option \<Rightarrow> 's \<Rightarrow> 's \<times> 'p go"
  sa_NewAsync :: "'c option \<Rightarrow> 's \<Rightarrow> 's \<times> 'a go"
  sa_SendMessage :: "'p \<Rightarrow> string \<times> string option \<times> string \<Rightarrow> 's \<Rightarrow> 's \<times> (int \<times> int) go"
  sa_room :: "'a \<Rightarrow> nat"

definition InitKafkaClient ::
  "('c, 'p, 'a, 's) sarama \<Rightarrow> sarama_config \<Rightarrow> 'e producer_config_scheme \<Rightarrow> ('c, 'p, 'a) kafka_globals \<Rightarrow> 's
   \<Rightarrow> 'e producer_config_scheme \<times> ('c, 'p, 'a) kafka_globals \<times> 's \<times> unit go" where
  "InitKafkaClient S base c g s =
     (case BuildBaseConfig base c of
        (c1, cfg) \<Rightarrow> (case sa_NewClient S (ac_Brokers c1) cfg s of
             (s1, Ok k) \<Rightarrow> (c1, g\<lparr> kg_Client := Some k \<rparr>, s1, Ok ())
           | (s1, Error e) \<Rightarrow> (c1, g, s1, Error e)
           | (s1, Panic e) \<Rightarrow> (c1, g, s1, Panic e)))"

definition InitKafkaClientWith :: "('c, 'p, 'a, 's) sarama \<Rightarrow> sarama_config \<Rightarrow> 'e producer_config_scheme \<Rightarrow> 's \<Rightarrow> 's \<times> 'c go" where
  "InitKafkaClientWith S base c s =
     (if length (ac_Brokers c) = 0 then (s, Error ''brokers is empty'')
      else let cfg = BuildBaseConfigWith base c
           in case sa_Validate S cfg of
                Error e \<Rightarrow> (s, Error (''sarama config validate: '' @ e))
              | Panic e \<Rightarrow> (s, Panic e)
              | Ok _ \<Rightarrow> sa_NewClient S (ac_Brokers c) cfg s)"

definition InitSyncProducerFromClient ::
  "('c, 'p, 'a, 's) sarama \<Rightarrow> ('c, 'p, 'a) kafka_globals \<Rightarrow> 's \<Rightarrow> ('c, 'p, 'a) kafka_globals \<times> 's \<times> unit go" where
  "InitSyncProducerFromClient S g s =
     (case sa_NewSync S (kg_Client g) s of
        (s1, Ok p) \<Rightarrow> (g\<lparr> kg_Producer := Some p, kg_SyncProd := Some p \<rparr>, s1, Ok ())
      | (s1, Error e) \<Rightarrow> (g, s1, Error e)
      | (s1, Panic e) \<Rightarrow> (g, s1, Panic e))"

definition InitAsyncProducerFromClient ::
  "('c, 'p, 'a, 's) sarama \<Rightarrow> ('c, 'p, 'a) kafka_globals \<Rightarrow> 's \<Rightarrow> ('c, 'p, 'a) kafka_globals \<times> 's \<times> unit go" where
  "InitAsyncProducerFromClient S g s =
     (case sa_NewAsync S (kg_Client g) s of
        (s1, Ok p) \<Rightarrow> (g\<lparr> kg_AsyncProd := Some p \<rparr>, s1, Ok ())
      | (s1, Error e) \<Rightarrow> (g, s1, Error e)
      | (s1, Panic e) \<Rightarrow> (g, s1, Panic e))"

definition drop_place :: "'s \<times> (int \<times> int) go \<Rightarrow> 's \<times> unit go" where
  "drop_place r = (case r of (s, Ok _) \<Rightarrow> (s, Ok ()) | (s, Error e) \<Rightarrow> (s, Error e) | (s, Panic e) \<Rightarrow> (s, Panic e))"

definition SendMessage :: "('c, 'p, 'a, 's) sarama \<Rightarrow> ('c, 'p, 'a) kafka_globals \<Rightarrow> string \<Rightarrow> string \<Rightarrow> string \<Rightarrow> 's \<Rightarrow> 's \<times> unit go" where
  "SendMessage S g topic key val s =
     (case kg_Producer g of None \<Rightarrow> (s, Error ''producer not initialized'')
      | Some p \<Rightarrow> drop_place (sa_SendMessage S p (topic, Some key, val) s))"

definition SendSync :: "('c, 'p, 'a, 's) sarama \<Rightarrow> ('c, 'p, 'a) kafka_globals \<Rightarrow> string \<Rightarrow> string \<Rightarrow> 's \<Rightarrow> 's \<times> unit go" where
  "SendSync S g topic val s =
     (case kg_SyncProd g of None \<Rightarrow> (s, Panic ''nil pointer dereference'')
      | Some p \<Rightarrow> drop_place (sa_SendMessage S p (topic, None, val) s))"

text \<open>\<open>None\<close>: the caller waits for room in the channel of the producer.\<close>

definition SendAsync :: "('c, 'p, 'a, 's) sarama \<Rightarrow> ('c, 'p, 'a) kafka_globals \<Rightarrow> string \<Rightarrow> string \<Rightarrow> (('c, 'p, 'a) kafka_globals \<times> unit go) option" where
  "SendAsync S g topic val =
     (case kg_AsyncProd g of None \<Rightarrow> Some (g, Panic ''nil pointer dereference'')
      | Some a \<Rightarrow> if length (kg_input g) < sa_room S a then Some (g\<lparr> kg_input := kg_input g @ [(topic, None, val)] \<rparr>, Ok ()) else None)"

subsection \<open>The start of consumers\<close>

text \<open>
  The configuration of a group, and the loop that consumes. \<open>over\<close> tells whether the loop's context is
  over; only the return of the function that made it cancels it. The loop may not end: \<open>None\<close>.
\<close>

record group_config =
  gc_Version :: kafka_version
  gc_Initial :: start_offset
  gc_AutoCommit :: "duration option"
  gc_Session :: duration
  gc_Heartbeat :: duration
  gc_ReturnErrors :: bool

definition consumer_config :: group_config where
  "consumer_config = \<lparr> gc_Version = (2, 1, 0, 0), gc_Initial = OffsetNewest, gc_AutoCommit = Some (2 * second),
     gc_Session = 30 * second, gc_Heartbeat = 3 * second, gc_ReturnErrors = True \<rparr>"

partial_function (option) consume_loop :: "('s \<Rightarrow> 's \<times> unit go) \<Rightarrow> bool \<Rightarrow> 's \<Rightarrow> ('s \<times> unit go) option" where
  "consume_loop consume over s =
     (case consume s of
        (s1, Panic e) \<Rightarrow> Some (s1, Panic e)
      | (s1, _) \<Rightarrow> if over then Some (s1, Ok ()) else consume_loop consume over s1)"

definition StartConsumerGroup ::
  "(string list \<Rightarrow> string \<Rightarrow> group_config \<Rightarrow> 's \<Rightarrow> 's \<times> 'g go) \<Rightarrow> ('g \<Rightarrow> string list \<Rightarrow> 's \<Rightarrow> 's \<times> unit go)
   \<Rightarrow> string list \<Rightarrow> string \<Rightarrow> string list \<Rightarrow> 's \<Rightarrow> ('s \<times> unit go) option" where
  "StartConsumerGroup NewGroup Consume brokers groupID topics s =
     (case NewGroup brokers groupID consumer_config s of
        (s1, Error e) \<Rightarrow> Some (s1, Error e)
      | (s1, Panic e) \<Rightarrow> Some (s1, Panic e)
      | (s1, Ok g) \<Rightarrow> consume_loop (Consume g topics) False s1)"

text \<open>The error of the start is only logged.\<close>

definition BootConsumers ::
  "(string list \<Rightarrow> string \<Rightarrow> group_config \<Rightarrow> 's \<Rightarrow> 's \<times> 'g go) \<Rightarrow> ('g \<Rightarrow> string list \<Rightarrow> 's \<Rightarrow> 's \<times> unit go)
   \<Rightarrow> 'e app_config_scheme \<Rightarrow> string list \<Rightarrow> 's \<Rightarrow> ('s \<times> unit go) option" where
  "BootConsumers NewGroup Consume c topics s =
     (case StartConsumerGroup NewGroup Consume (ac_Brokers c) (ac_GroupID c) topics s of
        None \<Rightarrow> None
      | Some (s1, Panic e) \<Rightarrow> Some (s1, Panic e)
      | Some (s1, _) \<Rightarrow> Some (s1, Ok ()))"

subsection \<open>What is true of them\<close>

text \<open>The two configurations are the same wherever a version is given, and retries are at least one.\<close>

theorem base_configs_agree:
  "ac_KafkaVersion c \<noteq> (0, 0, 0, 0) \<Longrightarrow> snd (BuildBaseConfig cfg c) = BuildBaseConfigWith cfg c"
  "1 \<le> sc_Retry_Max (BuildBaseConfigWith cfg c)"
  by (auto simp: BuildBaseConfig_def BuildBaseConfigWith_def Let_def)

lemma consume_loop_ends:
  assumes "consume_loop consume over s = Some r"
  shows "(\<forall>s s1 e. consume s \<noteq> (s1, Panic e)) \<longrightarrow> over"
  using assms
proof (rule consume_loop.raw_induct[where P = "\<lambda>consume over s r. (\<forall>s s1 e. consume s \<noteq> (s1, Panic e)) \<longrightarrow> over", rotated])
  fix loop :: "('s \<Rightarrow> 's \<times> unit go) \<Rightarrow> bool \<Rightarrow> 's \<Rightarrow> ('s \<times> unit go) option" and consume over s r
  assume ih: "\<And>consume over s r. loop consume over s = Some r \<Longrightarrow> (\<forall>s s1 e. consume s \<noteq> (s1, Panic e)) \<longrightarrow> over"
    and eq: "(case consume s of (s1, Panic e) \<Rightarrow> Some (s1, Panic e)
      | (s1, _) \<Rightarrow> if over then Some (s1, Ok ()) else loop consume over s1) = Some r"
  obtain s1 x where c: "consume s = (s1, x)" by fastforce
  show "(\<forall>s s1 e. consume s \<noteq> (s1, Panic e)) \<longrightarrow> over"
  proof (cases "(\<exists>e. x = Panic e) \<or> over")
    case True
    with c show ?thesis by blast
  next
    case False
    with eq c have "loop consume over s1 = Some r" by (cases x) simp_all
    then show ?thesis by (rule ih)
  qed
qed

text \<open>C34: starting the consumers never succeeds. The call returns only when the group could not be made, and then with no error;
  a group that was made is consumed for ever, whatever its sessions answer, so nothing after the call is run.\<close>
theorem boot_returns_only_on_failure:
  assumes "\<forall>g t s s1 e. Consume g t s \<noteq> (s1, Panic e)"
  shows "BootConsumers NewGroup Consume c topics s =
    (case NewGroup (ac_Brokers c) (ac_GroupID c) consumer_config s of
       (s1, Error e) \<Rightarrow> Some (s1, Ok ()) | (s1, Panic e) \<Rightarrow> Some (s1, Panic e) | (s1, Ok g) \<Rightarrow> None)"
proof -
  have "consume_loop (Consume g topics) False s1 = None" for g s1
    using consume_loop_ends[of "Consume g topics" False s1] assms by (cases "consume_loop (Consume g topics) False s1") auto
  then show ?thesis by (auto simp: BootConsumers_def StartConsumerGroup_def split: prod.splits go.splits)
qed

theorem boot_returns_only_on_failure_witness:
  "BootConsumers (\<lambda>b i c s. (s, if b = [] then Error ''no brokers'' else Ok (0::nat))) (\<lambda>g t s. (Suc s, Error ''rebalance''))
     \<lparr> ac_Brokers = [], ac_GroupID = ''g'', ac_MessageConfigs = [], ac_AutoCreateTopicsOnStart = False \<rparr> [''t''] 0 = Some (0, Ok ())
   \<and> BootConsumers (\<lambda>b i c s. (s, if b = [] then Error ''no brokers'' else Ok (0::nat))) (\<lambda>g t s. (Suc s, Error ''rebalance''))
     \<lparr> ac_Brokers = [''b:9092''], ac_GroupID = ''g'', ac_MessageConfigs = [], ac_AutoCreateTopicsOnStart = False \<rparr> [''t''] 0 = None"
  by (subst (1 2) boot_returns_only_on_failure) simp_all

text \<open>Before the producers are made, one way to send reports an error and the other two panic.\<close>

theorem sending_before_init:
  assumes "kg_Producer g = None" "kg_SyncProd g = None" "kg_AsyncProd g = None"
  shows "SendMessage S g topic key val s = (s, Error ''producer not initialized'')"
    and "SendSync S g topic val s = (s, Panic ''nil pointer dereference'')"
    and "SendAsync S g topic val = Some (g, Panic ''nil pointer dereference'')"
  using assms by (simp_all add: SendMessage_def SendSync_def SendAsync_def)

text \<open>Once the synchronous producer is made both synchronous ways use it, and differ only in the key.\<close>

lemma sync_producers_agree:
  "InitSyncProducerFromClient S g s = (g1, s1, Ok ()) \<Longrightarrow> kg_Producer g1 = kg_SyncProd g1 \<and> kg_Producer g1 \<noteq> None"
  by (auto simp: InitSyncProducerFromClient_def split: prod.splits go.splits)

end
