(* ===== verification/Nodes.thy ===== *)
theory Nodes
  imports KafkaProducer NacosRegistry Globals Snowflake
begin

section \<open>What a node starts\<close>

text \<open>
  \<^verbatim>\<open>global/config/config.go\<close> and what the three main programs (\<^verbatim>\<open>chatgateway.go\<close>,
  \<^verbatim>\<open>chatDataNode.go\<close>, \<^verbatim>\<open>chatApiNode.go\<close>) do with it: the number of the node in
  its ids, and the goroutine that creates topics, makes the clients of the broker, announces the topics and starts
  the consumers. The broker, the registry and the client libraries are parameters.
\<close>

subsection \<open>The configuration\<close>

definition ConfigIds :: "generator \<Rightarrow> generator" where
  "ConfigIds g = SetNodeID 100 g"

text \<open>The id of the connections' manager and the address of the router, from the environment.\<close>

definition node_id :: "(string \<Rightarrow> string) \<Rightarrow> node_config \<Rightarrow> string" where
  "node_id env c = (if env ''GATEWAY_ID'' = '''' then nc_NodeId c else env ''GATEWAY_ID'')"

definition router_addr :: "(string \<Rightarrow> string) \<Rightarrow> string" where
  "router_addr env = (if env ''ROUTER_ADDR'' = '''' then ''127.0.0.1:50051'' else env ''ROUTER_ADDR'')"

text \<open>The global configuration of the broker with what \<^verbatim>\<open>ConfigKafka\<close> writes into it.\<close>

definition kafka_Cfg :: "nat \<Rightarrow> node_config \<Rightarrow> producer_config" where
  "kafka_Cfg h c = app_config.extend (ConfigKafka h c)
     \<lparr> ac_ProducerCompression = ''snappy'', ac_ConsumerInitialOffset = ''newest'', ac_KafkaVersion = (2, 1, 0, 0),
       ac_ProducerRetries = 5 \<rparr>"

subsection \<open>The goroutine that starts messaging\<close>

record ('a, 'c, 'p, 'q, 's, 'r) node =
  no_cfg :: producer_config
  no_handlers :: handler_map
  no_globals :: "('c, 'p, 'q) kafka_globals"
  no_admin :: 'a
  no_broker :: 's
  no_manager :: "service_manager option"
  no_registry :: 'r

record ('a, 'c, 'p, 'q, 's, 'r, 'g) node_env =
  ne_Admin :: "'a admin_client"
  ne_Sarama :: "('c, 'p, 'q, 's) sarama"
  ne_base :: sarama_config
  ne_Registry :: "'r registry_ops"
  ne_NewGroup :: "string list \<Rightarrow> string \<Rightarrow> group_config \<Rightarrow> 's \<Rightarrow> 's \<times> 'g go"
  ne_Consume :: "'g \<Rightarrow> string list \<Rightarrow> 's \<Rightarrow> 's \<times> unit go"

text \<open>
  A step that reports an error ends the goroutine, which reports nothing: \<open>Ok ()\<close>. A panic of a goroutine ends the
  program. \<open>None\<close>: the goroutine runs for ever.
\<close>

definition start_step :: "'w \<times> unit go \<Rightarrow> ('w \<Rightarrow> ('w \<times> unit go) option) \<Rightarrow> ('w \<times> unit go) option" where
  "start_step r next_step = (case r of (w, Ok _) \<Rightarrow> next_step w | (w, Error e) \<Rightarrow> Some (w, Ok ()) | (w, Panic e) \<Rightarrow> Some (w, Panic e))"

text \<open>Making a cluster administrator builds the configuration of the library, which may write the retries back.\<close>

definition create_all_topics :: "('a, 'c, 'p, 'q, 's, 'r, 'g) node_env \<Rightarrow> ('a, 'c, 'p, 'q, 's, 'r) node \<Rightarrow> ('a, 'c, 'p, 'q, 's, 'r) node \<times> unit go" where
  "create_all_topics E w =
     (if \<not> ac_AutoCreateTopicsOnStart (no_cfg w) then (w, Ok ())
      else let w1 = w\<lparr> no_cfg := fst (BuildBaseConfig (ne_base E) (no_cfg w)) \<rparr>
           in case ad_Open (ne_Admin E) of Error e \<Rightarrow> (w1, Error e) | Panic e \<Rightarrow> (w1, Panic e)
              | Ok _ \<Rightarrow> (case EnsureTopics (ne_Admin E) (app_config.truncate (no_cfg w1)) (no_handlers w1) (no_admin w1) of
                   (a1, hm1, x) \<Rightarrow> (w1\<lparr> no_admin := a1, no_handlers := hm1 \<rparr>, x)))"

definition init_client :: "('a, 'c, 'p, 'q, 's, 'r, 'g) node_env \<Rightarrow> ('a, 'c, 'p, 'q, 's, 'r) node \<Rightarrow> ('a, 'c, 'p, 'q, 's, 'r) node \<times> unit go" where
  "init_client E w = (case InitKafkaClient (ne_Sarama E) (ne_base E) (no_cfg w) (no_globals w) (no_broker w) of
     (c1, g1, s1, x) \<Rightarrow> (w\<lparr> no_cfg := c1, no_globals := g1, no_broker := s1 \<rparr>, x))"

definition init_producer :: "('a, 'c, 'p, 'q, 's, 'r, 'g) node_env \<Rightarrow> ('a, 'c, 'p, 'q, 's, 'r) node \<Rightarrow> ('a, 'c, 'p, 'q, 's, 'r) node \<times> unit go" where
  "init_producer E w = (case InitSyncProducerFromClient (ne_Sarama E) (no_globals w) (no_broker w) of
     (g1, s1, x) \<Rightarrow> (w\<lparr> no_globals := g1, no_broker := s1 \<rparr>, x))"

text \<open>The global manager of services is nil until another goroutine has made it; its method reads a field first.\<close>

definition announce_topics :: "('a, 'c, 'p, 'q, 's, 'r, 'g) node_env \<Rightarrow> string list \<Rightarrow> ('a, 'c, 'p, 'q, 's, 'r) node \<Rightarrow> ('a, 'c, 'p, 'q, 's, 'r) node \<times> unit go" where
  "announce_topics E keys w =
     (case no_manager w of None \<Rightarrow> (w, Panic ''nil pointer dereference'')
      | Some m \<Rightarrow> (case ServiceManager_RegisterMethod (ne_Registry E) ''GetSenderTopicKey'' [(''keys'', join '','' keys)] m (no_registry w) of
           (m1, r1, None) \<Rightarrow> (w\<lparr> no_manager := Some m1, no_registry := r1 \<rparr>, Ok ())
         | (m1, r1, Some e) \<Rightarrow> (w\<lparr> no_manager := Some m1, no_registry := r1 \<rparr>, Error e)))"

text \<open>A consumer that was booted leaves the goroutine waiting for a context nobody cancels.\<close>

definition run_consumers :: "('a, 'c, 'p, 'q, 's, 'r, 'g) node_env \<Rightarrow> string list \<Rightarrow> ('a, 'c, 'p, 'q, 's, 'r) node \<Rightarrow> (('a, 'c, 'p, 'q, 's, 'r) node \<times> unit go) option" where
  "run_consumers E keys w = (case BootConsumers (ne_NewGroup E) (ne_Consume E) (no_cfg w) keys (no_broker w) of
     Some (s1, Panic e) \<Rightarrow> Some (w\<lparr> no_broker := s1 \<rparr>, Panic e)
   | Some (s1, Error e) \<Rightarrow> Some (w\<lparr> no_broker := s1 \<rparr>, Ok ())
   | _ \<Rightarrow> None)"

definition start_messaging ::
  "('a, 'c, 'p, 'q, 's, 'r, 'g) node_env \<Rightarrow> nat \<Rightarrow> node_config \<Rightarrow> ('a, 'c, 'p, 'q, 's, 'r) node \<Rightarrow> (('a, 'c, 'p, 'q, 's, 'r) node \<times> unit go) option" where
  "start_messaging E h c w0 =
     start_step (create_all_topics E (w0\<lparr> no_cfg := kafka_Cfg h c \<rparr>)) (\<lambda>w1.
     start_step (init_client E w1) (\<lambda>w2.
     start_step (init_producer E w2) (\<lambda>w3.
     (case GetAllTopicKeys (app_config.truncate (no_cfg w3)) of
        Ok keys \<Rightarrow> start_step (announce_topics E keys w3) (run_consumers E keys)
      | Error e \<Rightarrow> Some (w3, Ok ()) | Panic e \<Rightarrow> Some (w3, Panic e)))))"

subsection \<open>What a node consumes\<close>

definition the_nodes :: "node_config list" where
  "the_nodes = [MessageGatewayConfig, MessageGatewayConfigV1, MessageDataConfig, MessageApiNodeConfig]"

lemma node_topics:
  "GetAllTopicKeys (ConfigKafka h MessageGatewayConfig) = Ok [''gateway_01_message_receive_data-0'', ''gateway_01_message_receive_data-1'',
     ''gateway_01_message_receive_ack-0'', ''gateway_01_message_receive_ack-1'']"
  "GetAllTopicKeys (ConfigKafka h MessageGatewayConfigV1) = GetAllTopicKeys (ConfigKafka h MessageGatewayConfig)"
  "GetAllTopicKeys (ConfigKafka h MessageDataConfig) = Ok [''gateway_01_message_sender_data-0'', ''gateway_01_message_sender_data-1'',
     ''gateway_01_message_sender_ack-0'', ''gateway_01_message_sender_ack-1'']"
  "GetAllTopicKeys (ConfigKafka h MessageApiNodeConfig) = GetAllTopicKeys (ConfigKafka h MessageDataConfig)"
  by code_simp+

text \<open>The names \<^verbatim>\<open>EnsureTopics\<close> creates come from the patterns, without the node.\<close>

definition pattern_topics :: "message_handler_config \<Rightarrow> string list" where
  "pattern_topics mc = expandPatterns [mh_SendTopicPattern mc] (mh_TopicCount mc) @ expandPatterns [mh_ReceiveTopicPattern mc] (mh_TopicCount mc)"

lemma add_plans_dom: "dom (map_of (add_plans existing p ts pm)) \<subseteq> dom (map_of pm) \<union> set ts"
  by (induction existing p ts pm rule: add_plans.induct) (auto simp: update_conv' split: if_splits)

lemma plan_topics_dom:
  "plan_topics auto existing mcs pm hm = Ok (pm1, hm1) \<Longrightarrow>
   dom (map_of pm1) \<subseteq> dom (map_of pm) \<union> (\<Union>mc\<in>set mcs. set (pattern_topics mc))"
proof (induction mcs arbitrary: pm hm)
  case (Cons mc mcs)
  show ?case
  proof (cases auto)
    case True
    with Cons.prems obtain sk where sk: "SendTopicKeys mc = Ok sk" by (cases "SendTopicKeys mc") simp_all
    with Cons.prems True obtain rk where "ReceiveTopicKeys mc True = Ok rk" by (cases "ReceiveTopicKeys mc True") simp_all
    with sk Cons.prems True have "plan_topics auto existing mcs (add_plans existing (plan_of mc) (pattern_topics mc) pm)
      (RegisterDefaultHandlers rk (mh_Handler mc) (RegisterDefaultHandlers sk (mh_Handler mc) hm)) = Ok (pm1, hm1)"
      by (simp add: pattern_topics_def del: add_plans.simps)
    from Cons.IH[OF this] add_plans_dom[of existing "plan_of mc" "pattern_topics mc" pm] show ?thesis
      unfolding list.set(2) UN_insert by blast
  next
    case False
    with Cons.prems have "plan_topics auto existing mcs pm hm = Ok (pm1, hm1)" by simp
    from Cons.IH[OF this] show ?thesis unfolding list.set(2) UN_insert by blast
  qed
qed simp

lemma create_topics_view:
  assumes "\<And>n p a. topics (fst (ad_CreateTopic A n p a)) \<subseteq> insert n (topics a)"
  shows "topics (fst (create_topics A ps a)) \<subseteq> topics a \<union> fst ` set ps"
proof (induction ps arbitrary: a)
  case (Cons np rest)
  obtain n p where np: "np = (n, p)" by fastforce
  obtain a1 x where c: "ad_CreateTopic A n p a = (a1, x)" by fastforce
  with assms[of n p a] have a1: "topics a1 \<subseteq> insert n (topics a)" by simp
  show ?case using Cons.IH[of a1] a1 c np by (cases x) auto
qed simp

text \<open>Every node has the same eight names in its patterns.\<close>

definition raw_topics :: "string list" where
  "raw_topics = [''message_sender_data-0'', ''message_sender_data-1'', ''message_receive_data-0'', ''message_receive_data-1'',
     ''message_sender_ack-0'', ''message_sender_ack-1'', ''message_receive_ack-0'', ''message_receive_ack-1'']"

lemma node_patterns:
  assumes "c \<in> set the_nodes"
  shows "(\<Union>mc\<in>set (ac_MessageConfigs (ConfigKafka h c)). set (pattern_topics mc)) = set raw_topics"
proof -
  have "list_all (\<lambda>c. concat (map pattern_topics (ac_MessageConfigs (ConfigKafka h c))) = raw_topics) the_nodes" by code_simp
  then have "concat (map pattern_topics (ac_MessageConfigs (ConfigKafka h c))) = raw_topics" using assms unfolding list_all_iff by blast
  then show ?thesis by (metis set_concat set_map image_image)
qed

lemma EnsureTopics_view:
  assumes create: "\<And>n p a. topics (fst (ad_CreateTopic A n p a)) \<subseteq> insert n (topics a)"
    and run: "EnsureTopics A app hm a = (a1, hm1, x)"
  shows "topics a1 \<subseteq> topics a \<union> (\<Union>mc\<in>set (ac_MessageConfigs app). set (pattern_topics mc))"
proof (cases "a1 = a")
  case False
  then obtain existing pm hm2 where plan: "plan_topics (ac_AutoCreateTopicsOnStart app) existing (ac_MessageConfigs app) [] hm = Ok (pm, hm2)"
    and a1: "a1 = fst (create_topics A (sort_key fst pm) a)"
    using run by (auto simp: EnsureTopics_def Let_def split: go.splits if_splits prod.splits)
  have "fst ` set (sort_key fst pm) = dom (map_of pm)" by (simp add: dom_map_of_conv_image_fst)
  with create_topics_view[of topics A, OF create, of "sort_key fst pm" a] plan_topics_dom[OF plan] a1 show ?thesis by auto
qed simp

text \<open>C20: a node consumes no topic that starting it creates: creating topics leaves out the node's prefix that
  consuming and sending put before the name. A topic a node consumes exists after the creation only if it did before.\<close>
theorem consumed_topics_are_not_created:
  assumes "\<And>n p a. topics (fst (ad_CreateTopic A n p a)) \<subseteq> insert n (topics a)"
    and "c \<in> set the_nodes" and "GetAllTopicKeys (ConfigKafka h c) = Ok keys" and "t \<in> set keys"
    and "EnsureTopics A (ConfigKafka h c) hm a = (a1, hm1, x)" and "t \<in> topics a1"
  shows "t \<in> topics a"
proof -
  have "list_all (\<lambda>c. list_all (\<lambda>t. t \<notin> set raw_topics) (case GetAllTopicKeys (ConfigKafka h c) of Ok ks \<Rightarrow> ks | _ \<Rightarrow> [])) the_nodes"
    by code_simp
  then have "t \<notin> set raw_topics" using assms(2-4) unfolding list_all_iff by fastforce
  moreover have "t \<in> topics a \<or> t \<in> set raw_topics"
    using EnsureTopics_view[of topics A, OF assms(1,5)] assms(6) unfolding node_patterns[OF assms(2)] by blast
  ultimately show ?thesis by blast
qed

text \<open>A server that keeps the names it was given, and refuses one it has.\<close>

definition demo_admin :: "string list admin_client" where
  "demo_admin = \<lparr> ad_Open = Ok (), ad_ListTopics = Ok,
     ad_CreateTopic = (\<lambda>n p a. if n \<in> set a then (a, Error ''exists'') else (n # a, Ok ())), ad_IsExists = (\<lambda>e. e = ''exists'') \<rparr>"

theorem consumed_topics_are_not_created_witness:
  "(case EnsureTopics demo_admin (ConfigKafka 7 MessageDataConfig) [] [''gateway_01_message_sender_data-1'', ''x''] of
      (a1, hm1, x) \<Rightarrow> x = Ok () \<and> length a1 = 10 \<and> ''gateway_01_message_sender_data-1'' \<in> set a1 \<and> ''gateway_01_message_sender_data-0'' \<notin> set a1)
   \<and> ''gateway_01_message_sender_data-1'' \<in> set [''gateway_01_message_sender_data-1'', ''x'']"
proof -
  let ?a = "[''gateway_01_message_sender_data-1'', ''x'']"
  obtain a1 hm1 x where run: "EnsureTopics demo_admin (ConfigKafka 7 MessageDataConfig) [] ?a = (a1, hm1, x)" by (metis prod_cases3)
  have val: "(case EnsureTopics demo_admin (ConfigKafka 7 MessageDataConfig) [] ?a of
      (a1, hm1, x) \<Rightarrow> x = Ok () \<and> length a1 = 10 \<and> ''gateway_01_message_sender_data-1'' \<in> set a1 \<and> ''gateway_01_message_sender_data-0'' \<notin> set a1)"
    by code_simp
  have law: "set (fst (ad_CreateTopic demo_admin n p a)) \<subseteq> insert n (set a)" for n p a by (auto simp: demo_admin_def)
  have "''gateway_01_message_sender_data-1'' \<in> set ?a"
    by (rule consumed_topics_are_not_created[where topics = set, OF law _ node_topics(3) _ run]) (use val run in \<open>simp_all add: the_nodes_def\<close>)
  with val show ?thesis by blast
qed

text \<open>What a node consumes has a handler, though: handlers are registered under the names with the prefix.\<close>

lemma RegisterDefaultHandlers_dom: "dom (map_of (RegisterDefaultHandlers ts h hm)) = dom (map_of hm) \<union> set ts"
proof (induction ts arbitrary: hm)
  case (Cons t ts)
  have "dom (map_of (fst (RegisterHandler t (Some h) hm))) = insert t (dom (map_of hm))"
    by (auto simp: RegisterHandler_def update_conv' split: option.splits)
  with Cons.IH[of "fst (RegisterHandler t (Some h) hm)"] show ?case by (simp add: RegisterDefaultHandlers_def)
qed (simp add: RegisterDefaultHandlers_def)

lemma plan_topics_handlers:
  "plan_topics True existing mcs pm hm = Ok (pm1, hm1) \<Longrightarrow> all_keys mcs = Ok ks \<Longrightarrow>
   dom (map_of hm) \<union> set ks \<subseteq> dom (map_of hm1)"
proof (induction mcs arbitrary: pm hm ks)
  case (Cons mc mcs)
  from Cons.prems obtain sk where sk: "SendTopicKeys mc = Ok sk" by (cases "SendTopicKeys mc") simp_all
  with Cons.prems obtain rk where rk: "ReceiveTopicKeys mc True = Ok rk" by (cases "ReceiveTopicKeys mc True") simp_all
  obtain k where k: "Keys mc = Ok k" using Cons.prems(2) by (cases "Keys mc") simp_all
  with Cons.prems(2) obtain ks1 where ks1: "all_keys mcs = Ok ks1" by (cases "all_keys mcs") simp_all
  have ks: "ks = k @ ks1" using Cons.prems(2) k ks1 by simp
  have "k = sk \<or> k = rk" using k sk rk by (auto simp: Keys_def SendTopicKeys_def ReceiveTopicKeys_def split: if_splits)
  let ?hm = "RegisterDefaultHandlers rk (mh_Handler mc) (RegisterDefaultHandlers sk (mh_Handler mc) hm)"
  from Cons.prems(1) sk rk obtain pm2 where "plan_topics True existing mcs pm2 ?hm = Ok (pm1, hm1)"
    by (simp del: add_plans.simps)
  from Cons.IH[OF this ks1] have "dom (map_of ?hm) \<union> set ks1 \<subseteq> dom (map_of hm1)" .
  with \<open>k = sk \<or> k = rk\<close> show ?case unfolding RegisterDefaultHandlers_dom ks by auto
qed simp

lemma consumed_topics_have_handlers:
  assumes "EnsureTopics A app hm a = (a1, hm1, Ok ())" and "ac_AutoCreateTopicsOnStart app"
    and "GetAllTopicKeys app = Ok ks" and "t \<in> set ks"
  shows "\<exists>h. GetHandler t hm1 = Ok h"
proof -
  obtain existing pm where "plan_topics True existing (ac_MessageConfigs app) [] hm = Ok (pm, hm1)"
    using assms(1,2) by (auto simp: EnsureTopics_def Let_def split: go.splits if_splits prod.splits)
  from plan_topics_handlers[OF this] assms(3,4) have "t \<in> dom (map_of hm1)" unfolding GetAllTopicKeys_def by blast
  then show ?thesis by (auto simp: GetHandler_def)
qed

subsection \<open>The ids of two nodes\<close>

text \<open>C27: every node has the number 100 in its ids, so ids of two nodes are not kept apart: two nodes that make their first id
  of a millisecond in the same millisecond make the same one.\<close>
theorem nodes_make_equal_ids:
  assumes "gen_epochMS a = gen_epochMS b" and "gen_lastTSMS a < now" and "gen_lastTSMS b < now"
  shows "map_option fst (GenerateString (now # clk) (ConfigIds a)) = map_option fst (GenerateString (now # clk') (ConfigIds b))
    \<and> GenerateString (now # clk) (ConfigIds a) \<noteq> None"
  using assms by (simp add: GenerateString_def ConfigIds_def SetNodeID_def)

theorem nodes_make_equal_ids_witness:
  "map_option fst (GenerateString [1577836800001] (ConfigIds initDefault)) = Some (itoa 4603904) \<and>
   map_option fst (GenerateString [1577836800001] (ConfigIds (initDefault\<lparr> gen_seq := 7, gen_lastTSMS := 1577836800000 \<rparr>))) = Some (itoa 4603904)"
proof -
  have "snow_id 1577836800001 1577836800000 100 0 = 4603904" using snow_id_eq[of 1577836800001 1577836800000 100 0] by simp
  then have "map_option fst (GenerateString [1577836800001] (ConfigIds initDefault)) = Some (itoa 4603904)"
    by (simp add: GenerateString_def ConfigIds_def SetNodeID_def initDefault_def)
  moreover have "map_option fst (GenerateString [1577836800001] (ConfigIds initDefault)) =
      map_option fst (GenerateString [1577836800001] (ConfigIds (initDefault\<lparr> gen_seq := 7, gen_lastTSMS := 1577836800000 \<rparr>)))"
    by (rule nodes_make_equal_ids[THEN conjunct1]) (simp_all add: initDefault_def)
  ultimately show ?thesis by metis
qed

subsection \<open>A node that is not registered yet\<close>

lemma create_keeps_manager: "no_manager (fst (create_all_topics E w)) = no_manager w"
proof -
  have upd: "no_manager (fst (case p of (a1, hm1, x) \<Rightarrow> (v\<lparr> no_admin := a1, no_handlers := hm1 \<rparr>, x))) = no_manager v" for p and v :: "('a, 'b, 'c, 'd, 'e, 'f) node" and x :: "unit go"
    by (cases p) simp
  show ?thesis unfolding create_all_topics_def Let_def
    by (cases "ac_AutoCreateTopicsOnStart (no_cfg w)"; cases "ad_Open (ne_Admin E)") (simp_all only: upd if_True if_False not_True_eq_False not_False_eq_True go.case fst_conv, simp_all)
qed

lemma init_keeps_manager: "no_manager (fst (init_client E w)) = no_manager w" "no_manager (fst (init_producer E w)) = no_manager w"
  by (simp_all add: init_client_def init_producer_def split: prod.split)

lemmas steps_keep_manager = create_keeps_manager init_keeps_manager

definition registered :: "service_manager option \<Rightarrow> bool" where
  "registered mo \<longleftrightarrow> (case mo of None \<Rightarrow> False | Some m \<Rightarrow> sm_selfInst m \<noteq> None)"

lemma announce_unregistered:
  assumes "\<not> registered (no_manager w)"
  shows "announce_topics E keys w = (w, if no_manager w = None then Panic ''nil pointer dereference'' else Error ''self instance not set; call SetSelf first'')"
  using assms by (auto simp: registered_def announce_topics_def ServiceManager_RegisterMethod_def split: option.splits)

lemma start_step_cong: "(\<And>w u. r = (w, Ok u) \<Longrightarrow> k w = k' w) \<Longrightarrow> start_step r k = start_step r k'"
  by (auto simp: start_step_def split: prod.split go.split)

lemma start_unregistered:
  assumes "\<not> registered (no_manager w)"
  shows "start_messaging E' h c w =
     start_step (create_all_topics E' (w\<lparr> no_cfg := kafka_Cfg h c \<rparr>)) (\<lambda>w1.
     start_step (init_client E' w1) (\<lambda>w2.
     start_step (init_producer E' w2) (\<lambda>w3.
     (case GetAllTopicKeys (app_config.truncate (no_cfg w3)) of
        Ok keys \<Rightarrow> Some (w3, if no_manager w = None then Panic ''nil pointer dereference'' else Ok ())
      | Error e \<Rightarrow> Some (w3, Ok ()) | Panic e \<Rightarrow> Some (w3, Panic e)))))"
proof -
  have ann: "start_step (announce_topics E' ks w3) (run_consumers E' ks) =
      Some (w3, if no_manager w3 = None then Panic ''nil pointer dereference'' else Ok ())" if "no_manager w3 = no_manager w" for E' ks w3
    using announce_unregistered[of w3 E' ks] assms that by (simp add: start_step_def)
  show ?thesis unfolding start_messaging_def
  proof (intro start_step_cong)
    fix w1 w2 w3 u1 u2 u3
    assume "create_all_topics E' (w\<lparr> no_cfg := kafka_Cfg h c \<rparr>) = (w1, Ok u1)" "init_client E' w1 = (w2, Ok u2)" "init_producer E' w2 = (w3, Ok u3)"
    then have "no_manager w3 = no_manager w"
      using create_keeps_manager[of E' "w\<lparr> no_cfg := kafka_Cfg h c \<rparr>"] init_keeps_manager(1)[of E' w1] init_keeps_manager(2)[of E' w2] by simp
    then show "(case GetAllTopicKeys (app_config.truncate (no_cfg w3)) of
        Ok keys \<Rightarrow> start_step (announce_topics E' keys w3) (run_consumers E' keys)
      | Error e \<Rightarrow> Some (w3, Ok ()) | Panic e \<Rightarrow> Some (w3, Panic e)) =
      (case GetAllTopicKeys (app_config.truncate (no_cfg w3)) of
        Ok keys \<Rightarrow> Some (w3, if no_manager w = None then Panic ''nil pointer dereference'' else Ok ())
      | Error e \<Rightarrow> Some (w3, Ok ()) | Panic e \<Rightarrow> Some (w3, Panic e))"
      by (simp add: ann split: go.split)
  qed
qed

text \<open>C26: registering the node is left to another goroutine. While the node is not registered the goroutine that starts messaging
  ends without making a consumer group, and nothing starts it again; it ends the program when the broker is up and the
  global manager not made yet.\<close>
theorem messaging_needs_registration:
  assumes "\<not> registered (no_manager w)"
  shows "start_messaging E h c w \<noteq> None
    \<and> start_messaging (E\<lparr> ne_NewGroup := NewGroup, ne_Consume := Consume \<rparr>) h c w = start_messaging E h c w
    \<and> (no_manager w = None \<and> create_all_topics E (w\<lparr> no_cfg := kafka_Cfg h c \<rparr>) = (w1, Ok ()) \<and> init_client E w1 = (w2, Ok ()) \<and> init_producer E w2 = (w3, Ok ())
         \<and> GetAllTopicKeys (app_config.truncate (no_cfg w3)) = Ok keys
       \<longrightarrow> start_messaging E h c w = Some (w3, Panic ''nil pointer dereference''))"
proof -
  let ?E = "E\<lparr> ne_NewGroup := NewGroup, ne_Consume := Consume \<rparr>"
  have fields: "ne_Admin ?E = ne_Admin E" "ne_base ?E = ne_base E" "ne_Sarama ?E = ne_Sarama E" by simp_all
  have same: "create_all_topics ?E = create_all_topics E" "init_client ?E = init_client E" "init_producer ?E = init_producer E"
    unfolding create_all_topics_def init_client_def init_producer_def fields by (rule refl)+
  note eq = start_unregistered[OF assms]
  have "start_messaging E h c w \<noteq> None" unfolding eq by (simp add: start_step_def split: prod.split go.split)
  moreover have "start_messaging ?E h c w = start_messaging E h c w" unfolding eq same by (rule refl)
  moreover have "no_manager w = None \<and> create_all_topics E (w\<lparr> no_cfg := kafka_Cfg h c \<rparr>) = (w1, Ok ()) \<and> init_client E w1 = (w2, Ok ()) \<and> init_producer E w2 = (w3, Ok ())
         \<and> GetAllTopicKeys (app_config.truncate (no_cfg w3)) = Ok keys
       \<longrightarrow> start_messaging E h c w = Some (w3, Panic ''nil pointer dereference'')"
    unfolding eq by (simp add: start_step_def)
  ultimately show ?thesis by blast
qed

definition demo_node_env :: "(string list, unit, unit, unit, unit, unit, unit) node_env" where
  "demo_node_env = \<lparr> ne_Admin = demo_admin,
     ne_Sarama = \<lparr> sa_NewClient = (\<lambda>b c s. (s, Ok ())), sa_Validate = (\<lambda>c. Ok ()), sa_NewSync = (\<lambda>c s. (s, Ok ())), sa_NewAsync = (\<lambda>c s. (s, Ok ())),
        sa_SendMessage = (\<lambda>p m s. (s, Ok (0, 0))), sa_room = (\<lambda>a. 0) \<rparr>,
     ne_base = \<lparr> sc_Version = (1, 0, 0, 0), sc_Return_Successes = False, sc_Return_Errors = True, sc_RequiredAcks = WaitForLocal, sc_Retry_Max = 3,
        sc_Partitioner = HashPartitioner, sc_Compression = CompressionNone, sc_Initial = OffsetNewest, sc_Consumer_Errors = False,
        sc_DialTimeout = 30, sc_ReadTimeout = 30, sc_WriteTimeout = 30 \<rparr>,
     ne_Registry = \<lparr> rg_Register = (\<lambda>i opts s. (s, None)), rg_Deregister = (\<lambda>n i s. (s, None)), rg_List = (\<lambda>n s. Ok []),
        rg_Watch = (\<lambda>n s. Error ''no watch''), rg_WatchNext = (\<lambda>x s. (x, Ok [])), rg_Close = (\<lambda>s. (s, None)), rg_UpdateTTL = (\<lambda>n i t s. (s, None)) \<rparr>,
     ne_NewGroup = (\<lambda>b i c s. (s, Ok ())), ne_Consume = (\<lambda>g t s. (s, Ok ())) \<rparr>"

definition demo_start :: "(string list, unit, unit, unit, unit, unit) node" where
  "demo_start = \<lparr> no_cfg = kafka_Cfg 0 MessageGatewayConfig, no_handlers = [], no_globals = \<lparr> kg_Client = None, kg_Producer = None, kg_SyncProd = None, kg_AsyncProd = None, kg_input = [] \<rparr>,
     no_admin = [], no_broker = (), no_manager = None, no_registry = () \<rparr>"

theorem messaging_needs_registration_witness:
  "start_messaging demo_node_env 7 MessageDataConfig demo_start \<noteq> None \<and>
   start_messaging demo_node_env 7 MessageDataConfig (demo_start\<lparr> no_manager := Some (ServiceManager_New 0) \<rparr>) \<noteq> None"
  using messaging_needs_registration[of demo_start demo_node_env 7 MessageDataConfig]
    messaging_needs_registration[of "demo_start\<lparr> no_manager := Some (ServiceManager_New 0) \<rparr>" demo_node_env 7 MessageDataConfig]
  by (simp add: registered_def demo_start_def ServiceManager_New_def)

text \<open>The node whose manager is not made yet: its program ends.\<close>

lemma demo_start_ends_program:
  "map_option snd (start_messaging demo_node_env 7 MessageDataConfig demo_start) = Some (Panic ''nil pointer dereference'')"
  by code_simp

subsection \<open>The goroutine that makes the node known\<close>

text \<open>
  \<^verbatim>\<open>BootBlocking\<close>: the watches are started, then the reports of the methods go on, one for every element of
  \<open>ticks\<close>, until the context is over, and the registry is closed. The registrations at its start and its end are
  commented out in the code.
\<close>

definition boot_running :: "'s registry_ops \<Rightarrow> string list \<Rightarrow> order list \<Rightarrow> service_manager \<Rightarrow> 's \<Rightarrow> service_manager \<times> 's" where
  "boot_running R watchServices ticks m s =
     (let m1 = fold (\<lambda>svc m. fst (ServiceManager_StartWatch R svc m s)) watchServices m
      in (m1, fold (\<lambda>o1 s. TTLReport_tick R o1 m1 s) ticks s))"

definition BootBlocking :: "'s registry_ops \<Rightarrow> string list \<Rightarrow> order list \<Rightarrow> service_manager \<Rightarrow> 's \<Rightarrow> service_manager \<times> 's" where
  "BootBlocking R watchServices ticks m s = (case boot_running R watchServices ticks m s of (m1, s1) \<Rightarrow> (m1, fst (rg_Close R s1)))"

text \<open>
  \<^verbatim>\<open>RunService\<close> never cancels the context, so it stays before the end of \<^verbatim>\<open>BootBlocking\<close>.
  \<open>None\<close>: Consul's client could not be made, which ends the program.
\<close>

definition RunService ::
  "(string \<Rightarrow> string) \<Rightarrow> (string \<Rightarrow> 's registry_ops go) \<Rightarrow> string \<Rightarrow> string \<Rightarrow> int \<Rightarrow> (string, string) gomap \<Rightarrow> order list
   \<Rightarrow> service_manager once_cell \<Rightarrow> 's \<Rightarrow> (service_manager once_cell \<times> 's) option" where
  "RunService env NewConsul srvName serviceID port md ticks g s =
     (case NewConsul (run_consul_addr env) of
        Ok R \<Rightarrow>
         (case InitDefault ServiceManager_New (20 * second) g of
            (g1, None) \<Rightarrow> None
          | (g1, Some m) \<Rightarrow>
             (let self = run_instance srvName serviceID port md;
                  m1 = ServiceManager_SetSelf self \<lparr> ro_TTL = 0, ro_HealthURL = ''http://127.0.0.1:8080/health'', ro_WarmupWeight = 0 \<rparr> srvName m
              in case boot_running R [srvName] ticks m1 s of (m2, s2) \<Rightarrow> Some (g1\<lparr> oc_value := Some m2 \<rparr>, s2)))
      | _ \<Rightarrow> None)"

lemma StartWatch_self: "sm_selfInst (fst (ServiceManager_StartWatch R svc m s)) = sm_selfInst m"
  by (auto simp: ServiceManager_StartWatch_def ServiceManager_ensure_def ServiceManager_apply_def put_state_def Let_def split: prod.splits option.splits go.splits)

lemma TTLReport_tick_view:
  assumes "\<And>i n st s. view (fst (rg_UpdateTTL R i n st s)) = view s"
  shows "view (TTLReport_tick R o1 m s) = view s"
proof -
  have "view (fold (\<lambda>i s. fst (rg_UpdateTTL R (f i) n st s)) ids s) = view s" for f n st ids
    by (induction ids arbitrary: s) (simp_all add: assms)
  then show ?thesis by (simp add: TTLReport_tick_def Let_def)
qed

lemma boot_running_view:
  assumes "\<And>i n st s. view (fst (rg_UpdateTTL R i n st s)) = view s" and "boot_running R svcs ticks m s = (m1, s1)"
  shows "view s1 = view s \<and> sm_selfInst m1 = sm_selfInst m"
proof -
  have "view (fold (\<lambda>o1 s. TTLReport_tick R o1 m2 s) ticks s) = view s" for m2
    by (induction ticks arbitrary: s) (simp_all add: TTLReport_tick_view[where view = view, OF assms(1)])
  moreover have "sm_selfInst (fold (\<lambda>svc m. fst (ServiceManager_StartWatch R svc m s)) svcs m) = sm_selfInst m"
    by (induction svcs arbitrary: m) (simp_all add: StartWatch_self)
  ultimately show ?thesis using assms(2) by (auto simp: boot_running_def Let_def)
qed

text \<open>
  The goroutine makes the node ready to register methods, but it does not register the node itself: what the
  registry lists is what it listed before.
\<close>

theorem run_service_registers_nothing:
  assumes "NewConsul (run_consul_addr env) = Ok R" and "\<And>i n st s. view (fst (rg_UpdateTTL R i n st s)) = view s"
    and "RunService env NewConsul srvName serviceID port md ticks fresh_cell s = Some (g, s1)"
  shows "view s1 = view s \<and> registered (oc_value g)"
proof -
  define m1 where "m1 = ServiceManager_SetSelf (run_instance srvName serviceID port md)
    \<lparr> ro_TTL = 0, ro_HealthURL = ''http://127.0.0.1:8080/health'', ro_WarmupWeight = 0 \<rparr> srvName (ServiceManager_New (20 * second))"
  obtain m2 s2 where b: "boot_running R [srvName] ticks m1 s = (m2, s2)" by fastforce
  have "s1 = s2" "oc_value g = Some m2"
    using assms(1,3) b by (auto simp: RunService_def InitDefault_def once_do_def fresh_cell_def Let_def m1_def)
  moreover have "sm_selfInst m1 \<noteq> None" by (simp add: m1_def ServiceManager_SetSelf_def)
  ultimately show ?thesis using boot_running_view[where view = view, OF assms(2) b] by (simp add: registered_def)
qed

end
