(* ===== verification/Natsx.thy ===== *)
theory Natsx
  imports GoStrings
begin

section \<open>Messaging over NATS (\<^verbatim>\<open>service/natsx/\<close>)\<close>

text \<open>
  Routes by business name, publishing, subscribing, the chain of middlewares, the store that
  recognises a message seen before, retrying publication and the global manager with what is
  registered before it starts. The client library is the record \<open>nats\<close> of the calls made, over a
  state of its own; \<open>'h\<close> is the type of handlers.
\<close>

abbreviation (input) Core :: int where "Core \<equiv> 0"
abbreviation (input) JetStreamPush :: int where "JetStreamPush \<equiv> 1"
abbreviation (input) JetStreamPull :: int where "JetStreamPull \<equiv> 2"

record natsx_route =
  nr_Biz :: string
  nr_Subject :: string
  nr_Mode :: int
  nr_Queue :: string
  nr_Durable :: string
  nr_AckWait :: duration
  nr_MaxAckPending :: int

record natsx_config =
  nf_Servers :: "string list"
  nf_Name :: string
  nf_ReconnectWait :: duration
  nf_Timeout :: duration
  nf_PublishAsyncMax :: int

type_synonym header = "(string, string) gomap"

record natsx_message =
  nm_Subject :: string
  nm_Data :: string
  nm_Header :: header

record ('n, 'h) nats =
  nl_Connect :: "natsx_config \<Rightarrow> 'n \<Rightarrow> 'n \<times> unit go"
  nl_JetStream :: "int \<Rightarrow> 'n \<Rightarrow> 'n \<times> unit go"
  nl_Publish :: "string \<Rightarrow> header \<Rightarrow> string \<Rightarrow> 'n \<Rightarrow> 'n \<times> unit go"
  nl_JSPublish :: "string \<Rightarrow> header \<Rightarrow> string \<Rightarrow> 'n \<Rightarrow> 'n \<times> unit go"
  nl_Subscribe :: "string \<Rightarrow> string option \<Rightarrow> 'h \<Rightarrow> 'n \<Rightarrow> 'n \<times> nat go"
  nl_JSSubscribe :: "string \<Rightarrow> string option \<Rightarrow> duration \<Rightarrow> int \<Rightarrow> string option \<Rightarrow> 'h \<Rightarrow> 'n \<Rightarrow> 'n \<times> nat go"
  nl_PullSubscribe :: "string \<Rightarrow> string \<Rightarrow> 'n \<Rightarrow> 'n \<times> nat go"
  nl_Fetch :: "nat \<Rightarrow> int \<Rightarrow> duration \<Rightarrow> 'n \<Rightarrow> 'n \<times> natsx_message list go"
  nl_DrainSub :: "nat \<Rightarrow> 'n \<Rightarrow> 'n"
  nl_Drain :: "'n \<Rightarrow> 'n \<times> unit go"

subsection \<open>The client\<close>

record natsx_client =
  nx_cfg :: natsx_config
  nx_js :: bool
  nx_routes :: "(string, natsx_route) gomap"
  nx_subs :: "(string, nat) gomap"

definition config_defaults :: "natsx_config \<Rightarrow> natsx_config" where
  "config_defaults cfg =
     (let c1 = (if nf_ReconnectWait cfg = 0 then cfg\<lparr> nf_ReconnectWait := 500 * millisecond \<rparr> else cfg);
          c2 = (if nf_Timeout c1 = 0 then c1\<lparr> nf_Timeout := 3 * second \<rparr> else c1)
      in if nf_PublishAsyncMax c2 = 0 then c2\<lparr> nf_PublishAsyncMax := 4096 \<rparr> else c2)"

definition NewNatsxClient :: "('n, 'h) nats \<Rightarrow> natsx_config \<Rightarrow> 'n \<Rightarrow> 'n \<times> natsx_client go" where
  "NewNatsxClient L cfg0 n =
     (if length (nf_Servers cfg0) = 0 then (n, Error ''nats servers missing'')
      else let cfg = config_defaults cfg0 in
        case nl_Connect L cfg n of
          (n1, Ok _) \<Rightarrow> (n1, Ok \<lparr> nx_cfg = cfg, nx_js = False, nx_routes = [], nx_subs = [] \<rparr>)
        | (n1, Error e) \<Rightarrow> (n1, Error e)
        | (n1, Panic e) \<Rightarrow> (n1, Panic e))"

definition NatsxClient_Close :: "('n, 'h) nats \<Rightarrow> order \<Rightarrow> natsx_client \<Rightarrow> 'n \<Rightarrow> natsx_client \<times> 'n \<times> unit go" where
  "NatsxClient_Close L o1 c n =
     (let n1 = fold (nl_DrainSub L) (map snd (reorder o1 (nx_subs c))) n
      in (c\<lparr> nx_subs := [] \<rparr>, nl_Drain L n1))"

definition ensureJS :: "('n, 'h) nats \<Rightarrow> natsx_client \<Rightarrow> 'n \<Rightarrow> natsx_client \<times> 'n \<times> unit go" where
  "ensureJS L c n =
     (if nx_js c then (c, n, Ok ())
      else case nl_JetStream L (nf_PublishAsyncMax (nx_cfg c)) n of
             (n1, Ok _) \<Rightarrow> (c\<lparr> nx_js := True \<rparr>, n1, Ok ())
           | (n1, Error e) \<Rightarrow> (c, n1, Error e)
           | (n1, Panic e) \<Rightarrow> (c, n1, Panic e))"

definition route_defaults :: "natsx_route \<Rightarrow> natsx_route" where
  "route_defaults r =
     (let r1 = (if nr_AckWait r = 0 then r\<lparr> nr_AckWait := 30 * second \<rparr> else r)
      in if nr_MaxAckPending r1 = 0 then r1\<lparr> nr_MaxAckPending := 1024 \<rparr> else r1)"

definition put_route :: "natsx_route \<Rightarrow> natsx_client \<Rightarrow> natsx_client" where
  "put_route r c = c\<lparr> nx_routes := AList.update (nr_Biz r) (route_defaults r) (nx_routes c) \<rparr>"

definition NatsxClient_RegisterRoute ::
  "('n, 'h) nats \<Rightarrow> natsx_route \<Rightarrow> natsx_client \<Rightarrow> 'n \<Rightarrow> natsx_client \<times> 'n \<times> unit go" where
  "NatsxClient_RegisterRoute L r c n =
     (if nr_Biz r = '''' \<or> nr_Subject r = '''' then (c, n, Error ''invalid route'')
      else if nr_Mode r = JetStreamPush \<or> nr_Mode r = JetStreamPull then
        (case ensureJS L c n of
           (c1, n1, Ok _) \<Rightarrow> (put_route r c1, n1, Ok ())
         | (c1, n1, Error e) \<Rightarrow> (c1, n1, Error (''init jetstream: '' @ e))
         | (c1, n1, Panic e) \<Rightarrow> (c1, n1, Panic e))
      else (put_route r c, n, Ok ()))"

definition NatsxClient_route :: "string \<Rightarrow> natsx_client \<Rightarrow> natsx_route option" where
  "NatsxClient_route biz c = map_of (nx_routes c) biz"

subsection \<open>Publishing\<close>

definition publish_failed :: "'n \<times> unit go \<Rightarrow> 'n \<times> unit go" where
  "publish_failed x = (case x of (n, Error e) \<Rightarrow> (n, Error (''publish failed: '' @ e)) | _ \<Rightarrow> x)"

definition sendCore :: "('n, 'h) nats \<Rightarrow> string \<Rightarrow> string \<Rightarrow> header \<Rightarrow> 'n \<Rightarrow> 'n \<times> unit go" where
  "sendCore L subject data hdr n = publish_failed (nl_Publish L subject hdr data n)"

definition sendJS :: "('n, 'h) nats \<Rightarrow> string \<Rightarrow> string \<Rightarrow> header \<Rightarrow> 'n \<Rightarrow> 'n \<times> unit go" where
  "sendJS L subject data hdr n = publish_failed (nl_JSPublish L subject hdr data n)"

text \<open>A route in a JetStream mode was registered with the context initialised.\<close>

definition NatsxProducer_Publish ::
  "('n, 'h) nats \<Rightarrow> natsx_client \<Rightarrow> string \<Rightarrow> string \<Rightarrow> header \<Rightarrow> 'n \<Rightarrow> 'n \<times> unit go" where
  "NatsxProducer_Publish L c biz data hdr n =
     (case NatsxClient_route biz c of
        None \<Rightarrow> (n, Error (''route not found: '' @ biz))
      | Some r \<Rightarrow>
          if nr_Mode r = Core then sendCore L (nr_Subject r) data hdr n
          else if nr_Mode r = JetStreamPush \<or> nr_Mode r = JetStreamPull then
            (if nx_js c then sendJS L (nr_Subject r) data hdr n else (n, Panic ''invalid memory address or nil pointer dereference''))
          else (n, Error ''unsupported mode''))"

text \<open>\<open>rnd\<close> is the random id; the caller's header gets the id as well, and is returned.\<close>

definition NatsxProducer_PublishOnce ::
  "('n, 'h) nats \<Rightarrow> string \<Rightarrow> natsx_client \<Rightarrow> string \<Rightarrow> string \<Rightarrow> header \<Rightarrow> string \<Rightarrow> 'n \<Rightarrow> 'n \<times> header \<times> unit go" where
  "NatsxProducer_PublishOnce L rnd c biz data hdr msgID n =
     (let hdr1 = AList.update ''Nats-Msg-Id'' (if msgID = '''' then rnd else msgID) hdr;
          (n1, r) = NatsxProducer_Publish L c biz data hdr1 n
      in (n1, hdr1, r))"

text \<open>
  Publishing with retries: \<open>pub\<close> publishes once, \<open>dones\<close> says at each wait whether the context ended
  first. The loop counts from \<open>i\<close> to \<open>Retries\<close>.
\<close>

function sync_loop ::
  "('n \<Rightarrow> 'n \<times> unit go) \<Rightarrow> (int \<Rightarrow> string option) \<Rightarrow> int \<Rightarrow> int \<Rightarrow> unit go \<Rightarrow> 'n \<Rightarrow> 'n \<times> unit go" where
  "sync_loop pub dones retries i err n =
     (if retries < i then (n, err)
      else case pub n of
             (n1, Ok _) \<Rightarrow> (n1, Ok ())
           | (n1, Panic e) \<Rightarrow> (n1, Panic e)
           | (n1, Error e) \<Rightarrow>
               (case dones i of
                  Some ctxErr \<Rightarrow> (n1, Error ctxErr)
                | None \<Rightarrow> sync_loop pub dones retries (i + 1) (Error e) n1))"
  by pat_completeness auto
termination
  by (relation "measure (\<lambda>(pub, dones, retries, i, err, n). nat (retries + 1 - i))") auto

declare sync_loop.simps [simp del]

definition NatsxSyncPublisher_Publish ::
  "('n \<Rightarrow> 'n \<times> unit go) \<Rightarrow> (int \<Rightarrow> string option) \<Rightarrow> int \<Rightarrow> 'n \<Rightarrow> 'n \<times> unit go" where
  "NatsxSyncPublisher_Publish pub dones retries n = sync_loop pub dones retries 0 (Ok ()) n"

text \<open>The asynchronous publisher: its interval, and a publication per tick until the context ends.\<close>

definition async_interval :: "int \<Rightarrow> duration \<Rightarrow> duration" where
  "async_interval rate delay =
     (let i1 = (if delay = 0 \<and> 0 < rate then second div rate else delay) in if i1 = 0 then millisecond else i1)"

fun NatsxAsyncPublisher_Run :: "('n \<Rightarrow> 'n \<times> unit go) \<Rightarrow> bool list \<Rightarrow> 'n \<Rightarrow> 'n \<times> bool" where
  "NatsxAsyncPublisher_Run pub [] n = (n, False)"
| "NatsxAsyncPublisher_Run pub (ended # ticks) n =
     (if ended then (n, True) else NatsxAsyncPublisher_Run pub ticks (fst (pub n)))"

subsection \<open>Handlers and their middlewares\<close>

text \<open>A handler changes a state of its own and returns; a middleware makes a handler of a handler.\<close>

type_synonym 'w handler = "natsx_message \<Rightarrow> 'w \<Rightarrow> 'w \<times> unit go"
type_synonym 'w middleware = "'w handler \<Rightarrow> 'w handler"

text \<open>The loop of \<^verbatim>\<open>NatsxChain\<close>, from the last index down.\<close>

fun chain_down :: "'w middleware list \<Rightarrow> nat \<Rightarrow> 'w handler \<Rightarrow> 'w handler" where
  "chain_down mws 0 h = h"
| "chain_down mws (Suc i) h = chain_down mws i ((mws ! i) h)"

definition NatsxChain :: "'w handler \<Rightarrow> 'w middleware list \<Rightarrow> 'w handler" where
  "NatsxChain h mws = chain_down mws (length mws) h"

text \<open>\<^verbatim>\<open>headerToMap\<close>: the first value of each name; a name without values is left out.\<close>

definition headerToMap :: "(string, string list) gomap \<Rightarrow> header" where
  "headerToMap h = List.map_filter (\<lambda>(k, vs). case vs of [] \<Rightarrow> None | v # _ \<Rightarrow> Some (k, v)) h"

datatype nats_ack = Ack | Nak

text \<open>What the callback of a subscription answers. For Core nothing is answered.\<close>

definition deliver_core :: "'w handler \<Rightarrow> natsx_message \<Rightarrow> 'w \<Rightarrow> 'w" where
  "deliver_core h m w = fst (h m w)"

definition deliver_push :: "'w handler \<Rightarrow> natsx_message \<Rightarrow> 'w \<Rightarrow> 'w \<times> nats_ack go" where
  "deliver_push h m w = (case h m w of (w1, Ok _) \<Rightarrow> (w1, Ok Ack) | (w1, Error e) \<Rightarrow> (w1, Ok Nak) | (w1, Panic e) \<Rightarrow> (w1, Panic e))"

subsection \<open>Messages seen before\<close>

text \<open>The store in memory: a key and the second it expires. \<open>now1\<close> and \<open>now2\<close> are the two readings of a call.\<close>

record mem_idem =
  mi_m :: "(string, int) gomap"
  mi_ttl :: duration

definition unix_sec :: "time \<Rightarrow> int" where
  "unix_sec t = t div second"

definition NewMemIdem :: "duration \<Rightarrow> mem_idem" where
  "NewMemIdem defaultTTL = \<lparr> mi_m = [], mi_ttl = defaultTTL \<rparr>"

definition memIdem_clean :: "time \<Rightarrow> mem_idem \<Rightarrow> mem_idem" where
  "memIdem_clean now mi = mi\<lparr> mi_m := filter (\<lambda>(k, exp). \<not> exp \<le> unix_sec now) (mi_m mi) \<rparr>"

definition SeenOnce :: "time \<Rightarrow> time \<Rightarrow> string \<Rightarrow> duration \<Rightarrow> mem_idem \<Rightarrow> mem_idem \<times> bool go" where
  "SeenOnce now1 now2 key ttl0 mi =
     (let ttl = (if ttl0 \<le> 0 then mi_ttl mi else ttl0); exp = unix_sec (now1 + ttl)
      in case map_of (mi_m mi) key of
           Some old \<Rightarrow> if unix_sec now2 < old then (mi, Ok True)
                      else (mi\<lparr> mi_m := AList.update key exp (mi_m mi) \<rparr>, Ok False)
         | None \<Rightarrow> (mi\<lparr> mi_m := AList.update key exp (mi_m mi) \<rparr>, Ok False))"

fun first_header :: "string list \<Rightarrow> header \<Rightarrow> string" where
  "first_header [] h = ''''"
| "first_header (k # ks) h = (case map_of h k of Some v \<Rightarrow> if v \<noteq> '''' then v else first_header ks h | None \<Rightarrow> first_header ks h)"

definition msgIDFromHeader :: "header \<Rightarrow> string" where
  "msgIDFromHeader h = first_header [''Nats-Msg-Id'', ''nats-msg-id'', ''X-Msg-Id'', ''x-msg-id''] h"

definition msg_key :: "natsx_message \<Rightarrow> string" where
  "msg_key m = (let i = msgIDFromHeader (nm_Header m) in if i = '''' then nm_Subject m @ ''|'' @ TrimSpace (nm_Data m) else i)"

text \<open>The middleware, over any store: \<open>seen\<close> asks and records. An error of the store counts as not seen.\<close>

definition NatsxIdemMiddleware :: "(string \<Rightarrow> 'w \<Rightarrow> 'w \<times> bool go) \<Rightarrow> 'w middleware" where
  "NatsxIdemMiddleware seen next1 m w =
     (case seen (msg_key m) w of
        (w1, Ok True) \<Rightarrow> (w1, Ok ())
      | (w1, Panic e) \<Rightarrow> (w1, Panic e)
      | (w1, _) \<Rightarrow> next1 m w1)"

subsection \<open>Subscribing\<close>

definition put_sub :: "string \<Rightarrow> natsx_client \<Rightarrow> 'n \<times> nat go \<Rightarrow> natsx_client \<times> 'n \<times> unit go" where
  "put_sub biz c x = (case x of
       (n, Ok i) \<Rightarrow> (c\<lparr> nx_subs := AList.update biz i (nx_subs c) \<rparr>, n, Ok ())
     | (n, Error e) \<Rightarrow> (c, n, Error e)
     | (n, Panic e) \<Rightarrow> (c, n, Panic e))"

definition NatsxConsumer_Subscribe ::
  "('n, 'h) nats \<Rightarrow> string \<Rightarrow> 'h \<Rightarrow> natsx_client \<Rightarrow> 'n \<Rightarrow> natsx_client \<times> 'n \<times> unit go" where
  "NatsxConsumer_Subscribe L biz h c n =
     (case NatsxClient_route biz c of
        None \<Rightarrow> (c, n, Error (''route not found: '' @ biz))
      | Some r \<Rightarrow>
         (let q = (if nr_Queue r = '''' then None else Some (nr_Queue r)) in
          if nr_Mode r = Core then put_sub biz c (nl_Subscribe L (nr_Subject r) q h n)
          else if nr_Mode r = JetStreamPush then
            (if \<not> nx_js c then (c, n, Error ''jetstream not initialized'')
             else put_sub biz c (nl_JSSubscribe L (nr_Subject r) q (nr_AckWait r) (nr_MaxAckPending r)
                    (if nr_Durable r = '''' then None else Some (nr_Durable r)) h n))
          else (c, n, Error (''mode not supported in Subscribe: '' @ itoa (nr_Mode r)))))"

text \<open>Pulling: one batch, each message answered; and the loop, with the readings of the context.\<close>

fun deliver_batch :: "'w handler \<Rightarrow> natsx_message list \<Rightarrow> 'w \<Rightarrow> 'w \<times> nats_ack list go" where
  "deliver_batch h [] w = (w, Ok [])"
| "deliver_batch h (m # ms) w =
     (case deliver_push h m w of
        (w1, Ok a) \<Rightarrow> (case deliver_batch h ms w1 of (w2, Ok as) \<Rightarrow> (w2, Ok (a # as)) | (w2, e) \<Rightarrow> (w2, e))
      | (w1, Error e) \<Rightarrow> (w1, Error e)
      | (w1, Panic e) \<Rightarrow> (w1, Panic e))"

fun pull_loop ::
  "('n, 'h) nats \<Rightarrow> nat \<Rightarrow> int \<Rightarrow> duration \<Rightarrow> 'w handler \<Rightarrow> bool list \<Rightarrow> 'n \<Rightarrow> 'w \<Rightarrow> 'n \<times> 'w \<times> unit go option" where
  "pull_loop L sub batch wait h [] n w = (n, w, None)"
| "pull_loop L sub batch wait h (ended # dones) n w =
     (if ended then (n, w, Some (Ok ()))
      else case nl_Fetch L sub batch wait n of
             (n1, Ok ms) \<Rightarrow>
               (case deliver_batch h ms w of
                  (w1, Ok _) \<Rightarrow> pull_loop L sub batch wait h dones n1 w1
                | (w1, Error e) \<Rightarrow> (n1, w1, Some (Error e))
                | (w1, Panic e) \<Rightarrow> (n1, w1, Some (Panic e)))
           | (n1, Error e) \<Rightarrow> pull_loop L sub batch wait h dones n1 w
           | (n1, Panic e) \<Rightarrow> (n1, w, Some (Panic e)))"

definition NatsxConsumer_PullConsume ::
  "('n, 'h) nats \<Rightarrow> string \<Rightarrow> int \<Rightarrow> duration \<Rightarrow> 'w handler \<Rightarrow> 'w middleware list \<Rightarrow> bool list \<Rightarrow> natsx_client \<Rightarrow> 'n \<Rightarrow> 'w \<Rightarrow>
   'n \<times> 'w \<times> unit go option" where
  "NatsxConsumer_PullConsume L biz batch wait h mws dones c n w =
     (case NatsxClient_route biz c of
        None \<Rightarrow> (n, w, Some (Error (''route not found: '' @ biz)))
      | Some r \<Rightarrow>
          if nr_Mode r \<noteq> JetStreamPull then (n, w, Some (Error (''biz='' @ biz @ '' not JetStreamPull'')))
          else if \<not> nx_js c then (n, w, Some (Error ''jetstream not initialized''))
          else if nr_Durable r = '''' then (n, w, Some (Error ''JetStreamPull requires Durable consumer name''))
          else (case nl_PullSubscribe L (nr_Subject r) (nr_Durable r) n of
                  (n1, Error e) \<Rightarrow> (n1, w, Some (Error e))
                | (n1, Panic e) \<Rightarrow> (n1, w, Some (Panic e))
                | (n1, Ok sub) \<Rightarrow>
                    pull_loop L sub (if batch \<le> 0 then 64 else batch) (if wait \<le> 0 then 500 * millisecond else wait)
                      (NatsxChain h mws) dones n1 w))"

subsection \<open>The global manager\<close>

record ('n, 'h) natsx_global =
  ng_mgr :: "natsx_client option"
  ng_started :: bool
  ng_pendingRoutes :: "(string, natsx_route) gomap"
  ng_pendingHandlers :: "(string, 'h list) gomap"
  ng_registeredBizSet :: "string list"
  ng_subscribedBizSet :: "string list"
  ng_nats :: "'n"

definition global_init :: "'n \<Rightarrow> ('n, 'h) natsx_global" where
  "global_init n = \<lparr> ng_mgr = None, ng_started = False, ng_pendingRoutes = [], ng_pendingHandlers = [],
     ng_registeredBizSet = [], ng_subscribedBizSet = [], ng_nats = n \<rparr>"

definition RegisterRoute :: "('n, 'h) nats \<Rightarrow> natsx_route \<Rightarrow> ('n, 'h) natsx_global \<Rightarrow> ('n, 'h) natsx_global \<times> unit go" where
  "RegisterRoute L r g =
     (if nr_Biz r \<in> set (ng_registeredBizSet g) then (g, Ok ())
      else case ng_mgr g of
             None \<Rightarrow> (g\<lparr> ng_pendingRoutes := AList.update (nr_Biz r) r (ng_pendingRoutes g),
                         ng_registeredBizSet := List.insert (nr_Biz r) (ng_registeredBizSet g) \<rparr>, Ok ())
           | Some c \<Rightarrow>
               (case NatsxClient_RegisterRoute L r c (ng_nats g) of
                  (c1, n1, Ok _) \<Rightarrow> (g\<lparr> ng_mgr := Some c1, ng_nats := n1,
                      ng_registeredBizSet := List.insert (nr_Biz r) (ng_registeredBizSet g) \<rparr>, Ok ())
                | (c1, n1, e) \<Rightarrow> (g\<lparr> ng_mgr := Some c1, ng_nats := n1 \<rparr>, e)))"

definition RegisterHandler_nats :: "('n, 'h) nats \<Rightarrow> string \<Rightarrow> 'h \<Rightarrow> ('n, 'h) natsx_global \<Rightarrow> ('n, 'h) natsx_global \<times> unit go" where
  "RegisterHandler_nats L biz h g =
     (case ng_mgr g of
        None \<Rightarrow> (g\<lparr> ng_pendingHandlers := AList.update biz
                  ((case map_of (ng_pendingHandlers g) biz of None \<Rightarrow> [] | Some hs \<Rightarrow> hs) @ [h]) (ng_pendingHandlers g) \<rparr>, Ok ())
      | Some c \<Rightarrow>
          (case NatsxConsumer_Subscribe L biz h c (ng_nats g) of
             (c1, n1, Ok _) \<Rightarrow> (g\<lparr> ng_mgr := Some c1, ng_nats := n1,
                 ng_subscribedBizSet := List.insert biz (ng_subscribedBizSet g) \<rparr>, Ok ())
           | (c1, n1, e) \<Rightarrow> (g\<lparr> ng_mgr := Some c1, ng_nats := n1 \<rparr>, e)))"

text \<open>
  Start: the manager, then what was registered before, in the orders \<open>o1\<close> and \<open>o2\<close> of the two maps;
  what fails is logged. A failed connection ends the process, the value \<open>Panic\<close> here.
\<close>

definition apply_route :: "('n, 'h) nats \<Rightarrow> string \<times> natsx_route \<Rightarrow> ('n, 'h) natsx_global \<Rightarrow> ('n, 'h) natsx_global" where
  "apply_route L br g = (case ng_mgr g of None \<Rightarrow> g
     | Some c \<Rightarrow> (case NatsxClient_RegisterRoute L (snd br) c (ng_nats g) of
           (c1, n1, Ok _) \<Rightarrow> g\<lparr> ng_mgr := Some c1, ng_nats := n1,
               ng_registeredBizSet := List.insert (fst br) (ng_registeredBizSet g) \<rparr>
         | (c1, n1, _) \<Rightarrow> g\<lparr> ng_mgr := Some c1, ng_nats := n1 \<rparr>))"

definition apply_handler :: "('n, 'h) nats \<Rightarrow> string \<Rightarrow> 'h \<Rightarrow> ('n, 'h) natsx_global \<Rightarrow> ('n, 'h) natsx_global" where
  "apply_handler L biz h g = (case ng_mgr g of None \<Rightarrow> g
     | Some c \<Rightarrow> (case NatsxConsumer_Subscribe L biz h c (ng_nats g) of
           (c1, n1, _) \<Rightarrow> g\<lparr> ng_mgr := Some c1, ng_nats := n1 \<rparr>))"

definition apply_handlers :: "('n, 'h) nats \<Rightarrow> string \<times> 'h list \<Rightarrow> ('n, 'h) natsx_global \<Rightarrow> ('n, 'h) natsx_global" where
  "apply_handlers L bh g =
     (let g1 = fold (apply_handler L (fst bh)) (snd bh) g
      in g1\<lparr> ng_subscribedBizSet := List.insert (fst bh) (ng_subscribedBizSet g1) \<rparr>)"

definition default_config :: natsx_config where
  "default_config = \<lparr> nf_Servers = [''nats://127.0.0.1:4222''], nf_Name = ''global-nats'', nf_ReconnectWait = 0,
     nf_Timeout = 0, nf_PublishAsyncMax = 0 \<rparr>"

definition StartNats ::
  "('n, 'h) nats \<Rightarrow> order \<Rightarrow> order \<Rightarrow> natsx_config list \<Rightarrow> ('n, 'h) natsx_global \<Rightarrow> ('n, 'h) natsx_global \<times> unit go" where
  "StartNats L o1 o2 cfg g =
     (if ng_started g then (g, Ok ())
      else case NewNatsxClient L (case cfg of [] \<Rightarrow> default_config | c # _ \<Rightarrow> c) (ng_nats g) of
             (n1, Ok c) \<Rightarrow>
               (let g1 = g\<lparr> ng_started := True, ng_mgr := Some c, ng_nats := n1 \<rparr>;
                    g2 = fold (apply_route L) (reorder o1 (ng_pendingRoutes g1)) g1;
                    g3 = fold (apply_handlers L) (reorder o2 (ng_pendingHandlers g2)) g2
                in (g3\<lparr> ng_pendingRoutes := [], ng_pendingHandlers := [] \<rparr>, Ok ()))
           | (n1, Error e) \<Rightarrow> (g\<lparr> ng_started := True, ng_nats := n1 \<rparr>, Panic (''failed to start NatsManager: '' @ e))
           | (n1, Panic e) \<Rightarrow> (g\<lparr> ng_started := True, ng_nats := n1 \<rparr>, Panic e))"

definition StopNats :: "('n, 'h) nats \<Rightarrow> order \<Rightarrow> ('n, 'h) natsx_global \<Rightarrow> ('n, 'h) natsx_global \<times> unit go" where
  "StopNats L o1 g = (case ng_mgr g of None \<Rightarrow> (g, Ok ())
     | Some c \<Rightarrow> (case NatsxClient_Close L o1 c (ng_nats g) of (c1, n1, r) \<Rightarrow> (g\<lparr> ng_mgr := None, ng_nats := n1 \<rparr>, r)))"

definition GetNatsManager :: "('n, 'h) natsx_global \<Rightarrow> natsx_client go" where
  "GetNatsManager g = (case ng_mgr g of None \<Rightarrow> Error ''NatsManager not started: call StartNats() first'' | Some c \<Rightarrow> Ok c)"

definition Publish_nats :: "('n, 'h) nats \<Rightarrow> string \<Rightarrow> string \<Rightarrow> header \<Rightarrow> ('n, 'h) natsx_global \<Rightarrow> ('n, 'h) natsx_global \<times> unit go" where
  "Publish_nats L biz data hdr g = (case ng_mgr g of None \<Rightarrow> (g, Error ''NatsManager not started'')
     | Some c \<Rightarrow> (case NatsxProducer_Publish L c biz data hdr (ng_nats g) of (n1, r) \<Rightarrow> (g\<lparr> ng_nats := n1 \<rparr>, r)))"

end
