(* ===== verification/NatsxProps.thy ===== *)
theory NatsxProps
  imports Natsx
begin

section \<open>What holds of the messaging layer\<close>

text \<open>
  The contract of a store of seen messages as a locale, what the middleware guarantees over it, the
  store in memory as an instance; chains of middlewares; the number of attempts of the retrying
  publisher.
\<close>

subsection \<open>Chains\<close>

lemma chain_down_append: "i \<le> length mws \<Longrightarrow> chain_down (mws @ rest) i h = chain_down mws i h"
  by (induction i arbitrary: h) (simp_all add: nth_append)

lemma chain_snoc: "NatsxChain h (mws @ [mw]) = NatsxChain (mw h) mws"
  by (simp add: NatsxChain_def chain_down_append)

text \<open>The first middleware of the list is the outermost.\<close>

lemma NatsxChain_foldr: "NatsxChain h mws = foldr (\<lambda>mw. mw) mws h"
  by (induction mws arbitrary: h rule: rev_induct) (simp_all add: chain_snoc, simp add: NatsxChain_def)

subsection \<open>Deliveries through the middleware\<close>

text \<open>What reaches a store and a handler behind the middleware: deliveries, with the readings of the clock, and cleanings.\<close>

datatype idem_event = Deliver "time \<times> time" natsx_message | Clean time

definition idem_deliver ::
  "(time \<times> time \<Rightarrow> string \<Rightarrow> 's \<Rightarrow> 's \<times> bool go) \<Rightarrow> 'b handler \<Rightarrow> time \<times> time \<Rightarrow> natsx_message \<Rightarrow> 's \<times> 'b \<Rightarrow> ('s \<times> 'b) \<times> unit go" where
  "idem_deliver seen h t m sb =
     NatsxIdemMiddleware (\<lambda>k (s, b). case seen t k s of (s1, r) \<Rightarrow> ((s1, b), r))
       (\<lambda>m (s, b). case h m b of (b1, r) \<Rightarrow> ((s, b1), r)) m sb"

fun idem_run ::
  "(time \<times> time \<Rightarrow> string \<Rightarrow> 's \<Rightarrow> 's \<times> bool go) \<Rightarrow> (time \<Rightarrow> 's \<Rightarrow> 's) \<Rightarrow> 'b handler \<Rightarrow> idem_event list \<Rightarrow> 's \<times> 'b \<Rightarrow>
   ('s \<times> 'b) \<times> unit go list" where
  "idem_run seen clean h [] sb = (sb, [])"
| "idem_run seen clean h (Clean t # evs) (s, b) = idem_run seen clean h evs (clean t s, b)"
| "idem_run seen clean h (Deliver t m # evs) sb =
     (case idem_deliver seen h t m sb of (sb1, r) \<Rightarrow>
      case idem_run seen clean h evs sb1 of (sb2, rs) \<Rightarrow> (sb2, r # rs))"

text \<open>The events concern one message key and happen before second \<open>e\<close>.\<close>

fun repeats_before :: "string \<Rightarrow> int \<Rightarrow> idem_event \<Rightarrow> bool" where
  "repeats_before k e (Deliver t m) \<longleftrightarrow> msg_key m = k \<and> unix_sec (snd t) < e"
| "repeats_before k e (Clean t) \<longleftrightarrow> unix_sec t < e"

definition deliveries :: "idem_event list \<Rightarrow> nat" where
  "deliveries evs = length (filter (\<lambda>e. case e of Deliver _ _ \<Rightarrow> True | Clean _ \<Rightarrow> False) evs)"

lemma deliveries_simps [simp]:
  "deliveries [] = 0" "deliveries (Clean t # evs) = deliveries evs" "deliveries (Deliver t1 m # evs) = Suc (deliveries evs)"
  by (simp_all add: deliveries_def)

text \<open>The contract: a key is remembered until a second, which a call that finds nothing sets.\<close>

locale idem_store =
  fixes seen :: "time \<times> time \<Rightarrow> string \<Rightarrow> 's \<Rightarrow> 's \<times> bool go"
    and clean :: "time \<Rightarrow> 's \<Rightarrow> 's"
    and remembered :: "'s \<Rightarrow> string \<Rightarrow> int option"
    and expiry :: "time \<times> time \<Rightarrow> 's \<Rightarrow> int"
  assumes seen_hit: "remembered s k = Some e \<Longrightarrow> unix_sec (snd t) < e \<Longrightarrow> seen t k s = (s, Ok True)"
    and seen_miss: "(\<And>e. remembered s k = Some e \<Longrightarrow> e \<le> unix_sec (snd t)) \<Longrightarrow>
      \<exists>s'. seen t k s = (s', Ok False) \<and> remembered s' k = Some (expiry t s)"
    and clean_keeps: "remembered s k = Some e \<Longrightarrow> unix_sec t1 < e \<Longrightarrow> remembered (clean t1 s) k = Some e"
begin

lemma repeats_skipped:
  assumes "remembered s k = Some e" "list_all (repeats_before k e) evs"
  shows "\<exists>s'. idem_run seen clean h evs (s, b) = ((s', b), replicate (deliveries evs) (Ok ())) \<and> remembered s' k = Some e"
  using assms
proof (induction evs arbitrary: s)
  case (Cons ev evs)
  show ?case
  proof (cases ev)
    case (Clean t)
    with Cons.prems have "remembered (clean t s) k = Some e" by (auto intro: clean_keeps)
    from Cons.IH[OF this] Cons.prems(2) Clean show ?thesis by simp
  next
    case (Deliver t m)
    with Cons.prems have "seen t (msg_key m) s = (s, Ok True)" by (intro seen_hit) auto
    then have "idem_deliver seen h t m (s, b) = ((s, b), Ok ())"
      by (simp add: idem_deliver_def NatsxIdemMiddleware_def)
    with Cons.IH[OF Cons.prems(1)] Cons.prems(2) Deliver show ?thesis by auto
  qed
qed simp

lemma handled_once:
  assumes new: "\<And>e. remembered s (msg_key m) = Some e \<Longrightarrow> e \<le> unix_sec (snd t)"
    and h: "h m b = (b1, r)" and evs: "list_all (repeats_before (msg_key m) (expiry t s)) evs"
  shows "\<exists>s'. idem_run seen clean h (Deliver t m # evs) (s, b) = ((s', b1), r # replicate (deliveries evs) (Ok ()))"
proof -
  from seen_miss[OF new] obtain s1 where s1: "seen t (msg_key m) s = (s1, Ok False)"
    "remembered s1 (msg_key m) = Some (expiry t s)" by blast
  then have "idem_deliver seen h t m (s, b) = ((s1, b1), r)"
    by (simp add: idem_deliver_def NatsxIdemMiddleware_def h)
  with repeats_skipped[OF s1(2) evs, of h b1] show ?thesis by auto
qed

end

subsection \<open>The store in memory\<close>

definition mem_seen :: "duration \<Rightarrow> time \<times> time \<Rightarrow> string \<Rightarrow> mem_idem \<Rightarrow> mem_idem \<times> bool go" where
  "mem_seen ttl t k s = SeenOnce (fst t) (snd t) k ttl s"

definition mem_expiry :: "duration \<Rightarrow> time \<times> time \<Rightarrow> mem_idem \<Rightarrow> int" where
  "mem_expiry ttl t s = unix_sec (fst t + (if ttl \<le> 0 then mi_ttl s else ttl))"

lemma map_of_filter_keep: "map_of m k = Some v \<Longrightarrow> P (k, v) \<Longrightarrow> map_of (filter P m) k = Some v"
  by (induction m) (auto split: if_splits)

interpretation mem: idem_store "mem_seen ttl" memIdem_clean "\<lambda>s k. map_of (mi_m s) k" "mem_expiry ttl" for ttl
proof
  fix s :: mem_idem and k e and t :: "time \<times> time"
  assume "map_of (mi_m s) k = Some e" "unix_sec (snd t) < e"
  then show "mem_seen ttl t k s = (s, Ok True)" by (simp add: mem_seen_def SeenOnce_def)
next
  fix s :: mem_idem and k and t :: "time \<times> time"
  assume "\<And>e. map_of (mi_m s) k = Some e \<Longrightarrow> e \<le> unix_sec (snd t)"
  then show "\<exists>s'. mem_seen ttl t k s = (s', Ok False) \<and> map_of (mi_m s') k = Some (mem_expiry ttl t s)"
    by (auto simp: mem_seen_def SeenOnce_def mem_expiry_def Let_def split: option.splits)
next
  fix s :: mem_idem and k e t1
  assume "map_of (mi_m s) k = Some e" "unix_sec t1 < e"
  then show "map_of (mi_m (memIdem_clean t1 s)) k = Some e"
    by (simp add: memIdem_clean_def map_of_filter_keep)
qed

text \<open>C17: behind the middleware over the store in memory, a message whose key is new reaches the handler
  once; every repetition before the key expires is answered as done, also when the handler failed the
  first time, so that the redelivery a failure asks for is acknowledged without being handled.\<close>

theorem repeated_message_handled_once:
  assumes "map_of (mi_m s) (msg_key m) = None" "h m b = (b1, r)"
    and "list_all (repeats_before (msg_key m) (mem_expiry ttl t s)) evs"
  shows "snd (fst (idem_run (mem_seen ttl) memIdem_clean h (Deliver t m # evs) (s, b))) = b1
    \<and> snd (idem_run (mem_seen ttl) memIdem_clean h (Deliver t m # evs) (s, b)) = r # replicate (deliveries evs) (Ok ())"
proof -
  have "\<And>e. map_of (mi_m s) (msg_key m) = Some e \<Longrightarrow> e \<le> unix_sec (snd t)" using assms(1) by simp
  from mem.handled_once[where h = h, OF this assms(2,3)] show ?thesis by auto
qed

text \<open>A handler that fails: the redelivery ten seconds later is answered as done.\<close>

definition order_msg :: natsx_message where
  "order_msg = \<lparr> nm_Subject = ''jobs'', nm_Data = ''x'', nm_Header = [(''Nats-Msg-Id'', ''m1'')] \<rparr>"

definition failing :: "nat handler" where
  "failing m n = (Suc n, Error ''db down'')"

definition redeliveries :: "idem_event list" where
  "redeliveries = [Clean (65 * second), Deliver (70 * second, 70 * second) order_msg]"

theorem repeated_message_handled_once_witness:
  "snd (fst (idem_run (mem_seen 0) memIdem_clean failing (Deliver (60 * second, 60 * second) order_msg # redeliveries)
      (NewMemIdem (600 * second), 0))) = 1
    \<and> snd (idem_run (mem_seen 0) memIdem_clean failing (Deliver (60 * second, 60 * second) order_msg # redeliveries)
      (NewMemIdem (600 * second), 0)) = [Error ''db down'', Ok ()]"
proof -
  have new: "map_of (mi_m (NewMemIdem (600 * second))) (msg_key order_msg) = None" by (simp add: NewMemIdem_def)
  have h: "failing order_msg 0 = (1, Error ''db down'')" by (simp add: failing_def)
  have e: "list_all (repeats_before (msg_key order_msg) (mem_expiry 0 (60 * second, 60 * second) (NewMemIdem (600 * second)))) redeliveries"
    by code_simp
  have d: "deliveries redeliveries = 1" by code_simp
  from repeated_message_handled_once[where s = "NewMemIdem (600 * second)" and m = order_msg and h = failing and b = 0
      and t = "(60 * second, 60 * second)" and evs = redeliveries, OF new h e] show ?thesis by (simp add: d)
qed

subsection \<open>Publishing with retries\<close>

text \<open>A publication that counts itself.\<close>

definition counted :: "('n \<Rightarrow> 'n \<times> unit go) \<Rightarrow> 'n \<times> nat \<Rightarrow> ('n \<times> nat) \<times> unit go" where
  "counted pub nc = (case pub (fst nc) of (n1, r) \<Rightarrow> ((n1, Suc (snd nc)), r))"

lemma sync_loop_counted:
  "fst (fst (sync_loop (counted pub) dones retries i err (n, c))) = fst (sync_loop pub dones retries i err n)
   \<and> snd (sync_loop (counted pub) dones retries i err (n, c)) = snd (sync_loop pub dones retries i err n)
   \<and> int (snd (fst (sync_loop (counted pub) dones retries i err (n, c)))) \<le> int c + max 0 (retries + 1 - i)
   \<and> c \<le> snd (fst (sync_loop (counted pub) dones retries i err (n, c)))
   \<and> (i \<le> retries \<longrightarrow> c < snd (fst (sync_loop (counted pub) dones retries i err (n, c))))"
proof (induction pub dones retries i err n arbitrary: c rule: sync_loop.induct)
  case (1 pub dones retries i err n)
  show ?case
  proof (cases "retries < i")
    case True
    then show ?thesis by (simp add: sync_loop.simps[of _ _ _ i])
  next
    case False
    obtain n1 r where p: "pub n = (n1, r)" by fastforce
    then have cp: "counted pub (n, c) = ((n1, Suc c), r)" by (simp add: counted_def)
    show ?thesis
    proof (cases r)
      case (Error e)
      show ?thesis
      proof (cases "dones i")
        case None
        from "1.IH"[OF False p[symmetric] Error None, of "Suc c"] False show ?thesis
          by (simp add: sync_loop.simps[of _ _ _ i] cp p Error None)
      qed (use False in \<open>simp add: sync_loop.simps[of _ _ _ i] cp p Error\<close>)
    qed (use False in \<open>simp_all add: sync_loop.simps[of _ _ _ i] cp p\<close>)
  qed
qed

text \<open>Publishing with retries ends after at most \<open>Retries + 1\<close> attempts, and after at least one unless
  \<open>Retries\<close> is negative; then it reports success without having tried.\<close>

theorem sync_publish_attempts:
  "int (snd (fst (NatsxSyncPublisher_Publish (counted pub) dones retries (n, 0)))) \<le> max 0 (retries + 1)
   \<and> (snd (fst (NatsxSyncPublisher_Publish (counted pub) dones retries (n, 0))) = 0) = (retries < 0)
   \<and> (retries < 0) = (NatsxSyncPublisher_Publish pub dones retries n = (n, Ok ())
        \<and> snd (fst (NatsxSyncPublisher_Publish (counted pub) dones retries (n, 0))) = 0)"
  using sync_loop_counted[where pub = pub and dones = dones and retries = retries and i = 0 and err = "Ok ()" and n = n and c = 0]
  unfolding NatsxSyncPublisher_Publish_def
  by (cases "retries < 0") (auto simp: sync_loop.simps[of _ _ _ 0])

end
