(* ===== verification/Gateway.thy ===== *)
theory Gateway
  imports MsgStore ConnSteps
begin

section \<open>A gateway node\<close>

text \<open>
  \<^verbatim>\<open>service/chat/{router,ws_server,dispatcher}.go\<close> and \<^verbatim>\<open>module/message/handler/\<close>: the handlers that
  answer a client's frames, the loops behind their channels, the loop that relays frames of the broker
  to sockets, and the life of a socket. The connection manager is the component of that name, the
  online store that of presence.
\<close>

subsection \<open>The node\<close>

text \<open>
  The libraries and the configuration of a gateway. \<open>gw_marshal\<close> and \<open>gw_parse\<close> are the JSON form of a
  frame, \<open>gw_decode\<close> that of an authentication, \<open>gw_Ping\<close> the error of sending a ping; \<open>gw_handler\<close> is
  \<^verbatim>\<open>Server.MsgHandler\<close>, which may be nil.
\<close>

record ('r, 'k) gw_env =
  gw_W :: ws_lib
  gw_Ping :: "conn \<Rightarrow> string option"
  gw_R :: "'r redis"
  gw_oc :: online_config
  gw_kafka :: app_config
  gw_marshal :: "MessageFrameData \<Rightarrow> string go"
  gw_parse :: "string \<Rightarrow> MessageFrameData go"
  gw_decode :: "json \<Rightarrow> AuthPayload go"
  gw_handler :: "(string \<Rightarrow> string \<Rightarrow> string \<Rightarrow> 'k \<Rightarrow> 'k \<times> unit go) option"

text \<open>What a step reads from the clock, and the choices the language leaves open.\<close>

record gw_inputs =
  gi_clk_id :: "int list"
  gi_t1 :: time
  gi_t2 :: time
  gi_t3 :: time
  gi_pick :: nat
  gi_o1 :: order
  gi_o2 :: order
  gi_o3 :: "string \<Rightarrow> order"

text \<open>
  The state of a gateway: its connections, the servers it talks to, the channels \<^verbatim>\<open>data\<close> of the connect
  and the authentication handler and \<^verbatim>\<open>WsRelayBound\<close>, the users in \<^verbatim>\<open>WsOutbound\<close>, what was written to
  sockets, the sockets the gateway closed itself, and which loops still run.
\<close>

record ('r, 'k) gateway =
  gt_conn :: conn_manager
  gt_redis :: 'r
  gt_broker :: 'k
  gt_ids :: generator
  gt_connectQ :: "MessageFrameData list"
  gt_authQ :: "(MessageFrameData \<times> ptr option) list"
  gt_relayQ :: "relay_msg list"
  gt_outbound :: "string list"
  gt_written :: "(conn \<times> bytes) list"
  gt_closed :: "conn list"
  gt_connectLoop :: bool
  gt_authLoop :: bool
  gt_relayLoop :: bool

definition nil_deref :: string where
  "nil_deref = ''invalid memory address or nil pointer dereference''"

text \<open>A channel of the package takes 8192 values; a send to a full one waits, which is the result \<open>None\<close>.\<close>

definition chan_full :: "'a list \<Rightarrow> bool" where
  "chan_full q \<longleftrightarrow> 8192 \<le> length q"

subsection \<open>Writing\<close>

definition WriteJSONWithDeadline :: "ws_lib \<Rightarrow> conn option \<Rightarrow> bytes \<Rightarrow> (conn \<times> bytes) list \<times> string option" where
  "WriteJSONWithDeadline W ws jsonBytes =
     (case ws of None \<Rightarrow> ([], Some ''nil websocket'') | Some c \<Rightarrow> ([(c, jsonBytes)], ws_WriteMessage W c jsonBytes))"

text \<open>\<^verbatim>\<open>ws.Close()\<close> on a nil socket panics.\<close>

definition close_ws :: "conn option \<Rightarrow> ('r, 'k) gateway \<Rightarrow> ('r, 'k) gateway \<times> unit go" where
  "close_ws ws g = (case ws of None \<Rightarrow> (g, Panic nil_deref) | Some c \<Rightarrow> (g\<lparr> gt_closed := c # gt_closed g \<rparr>, Ok ()))"

text \<open>
  How every loop sends a frame to a socket: a frame that has no JSON form is skipped; when the write
  fails the socket is closed and \<^verbatim>\<open>Remove\<close> is called with \<open>key\<close>.
\<close>

definition send_or_drop ::
  "('r, 'k) gw_env \<Rightarrow> order \<Rightarrow> string \<Rightarrow> MessageFrameData \<Rightarrow> conn option \<Rightarrow> ('r, 'k) gateway \<Rightarrow> ('r, 'k) gateway \<times> unit go" where
  "send_or_drop E o1 key f ws g =
     (case gw_marshal E f of
        Error _ \<Rightarrow> (g, Ok ())
      | Panic e \<Rightarrow> (g, Panic e)
      | Ok data \<Rightarrow>
          (let (out, err) = WriteJSONWithDeadline (gw_W E) ws data; g1 = g\<lparr> gt_written := gt_written g @ out \<rparr>
           in case err of None \<Rightarrow> (g1, Ok ())
              | Some _ \<Rightarrow>
                  (case close_ws ws g1 of
                     (g2, Ok _) \<Rightarrow> (g2\<lparr> gt_conn := ConnManager_Remove o1 key (gt_conn g2) \<rparr>, Ok ())
                   | (g2, e) \<Rightarrow> (g2, e))))"

fun send_list ::
  "('r, 'k) gw_env \<Rightarrow> order \<Rightarrow> string \<Rightarrow> MessageFrameData \<Rightarrow> conn list \<Rightarrow> ('r, 'k) gateway \<Rightarrow> ('r, 'k) gateway \<times> unit go" where
  "send_list E o1 key f [] g = (g, Ok ())"
| "send_list E o1 key f (c # cs) g =
     (case send_or_drop E o1 key f (Some c) g of (g1, Ok _) \<Rightarrow> send_list E o1 key f cs g1 | (g1, e) \<Rightarrow> (g1, e))"

subsection \<open>Frames of the broker\<close>

text \<open>\<^verbatim>\<open>RelayMsg\<close>, called by the consumers of the broker.\<close>

definition RelayMsg :: "('r, 'k) gw_env \<Rightarrow> string \<Rightarrow> string \<Rightarrow> ('r, 'k) gateway \<Rightarrow> ('r, 'k) gateway \<times> unit go option" where
  "RelayMsg E msgData conectId g =
     (case ParseFrameJSON (gw_parse E) msgData of
        Error e \<Rightarrow> (g, Some (Error e))
      | Panic e \<Rightarrow> (g, Some (Panic e))
      | Ok f \<Rightarrow> if chan_full (gt_relayQ g) then (g, None)
                else (g\<lparr> gt_relayQ := gt_relayQ g @ [\<lparr> rm_Frame = f, rm_ConnectId = conectId \<rparr>] \<rparr>, Some (Ok ())))"

text \<open>
  The body of the loop of \<^verbatim>\<open>LoopRelayData\<close>. A session that is not found leaves \<^verbatim>\<open>ws\<close> nil and goes on; the
  write then fails, and closing the nil socket panics.
\<close>

definition relay_one :: "('r, 'k) gw_env \<Rightarrow> gw_inputs \<Rightarrow> relay_msg \<Rightarrow> ('r, 'k) gateway \<Rightarrow> ('r, 'k) gateway \<times> unit go" where
  "relay_one E ipt msg g =
     (let f = rm_Frame msg; to1 = fr_To f in
      if 0 < length (rm_ConnectId msg)
      then send_or_drop E (gi_o2 ipt) to1 f (ConnManager_Get (gi_o1 ipt) to1 (rm_ConnectId msg) (gt_conn g)) g
      else send_list E (gi_o2 ipt) to1 f (ConnManager_GetAll (gi_o1 ipt) to1 (gt_conn g)) g)"

text \<open>A panic is recovered outside the loop, so the loop is over.\<close>

definition LoopRelayData :: "('r, 'k) gw_env \<Rightarrow> gw_inputs \<Rightarrow> ('r, 'k) gateway \<Rightarrow> ('r, 'k) gateway" where
  "LoopRelayData E ipt g =
     (if \<not> gt_relayLoop g then g
      else case gt_relayQ g of [] \<Rightarrow> g
         | msg # rest \<Rightarrow>
             (case relay_one E ipt msg (g\<lparr> gt_relayQ := rest \<rparr>) of
                (g1, Ok _) \<Rightarrow> g1
              | (g1, _) \<Rightarrow> g1\<lparr> gt_relayLoop := False \<rparr>))"

subsection \<open>A new socket\<close>

text \<open>The fields the handler sets on the record the manager returned.\<close>

definition set_session :: "ptr \<Rightarrow> string \<Rightarrow> conn_manager \<Rightarrow> conn_manager" where
  "set_session p sKey m =
     m\<lparr> cm_heap := (cm_heap m)(p := (cm_heap m p)\<lparr> wc_RId := sKey, wc_SendChan := Some 256 \<rparr>) \<rparr>"

text \<open>\<^verbatim>\<open>Connect\<close> draws the id when the stage before the login is configured, and its clock may stand still.\<close>

definition draw_id :: "('r, 'k) gw_env \<Rightarrow> gw_inputs \<Rightarrow> ('r, 'k) gateway \<Rightarrow> (string \<times> ('r, 'k) gateway) option" where
  "draw_id E ipt g =
     (if oc_UnauthTTL (gw_oc E) \<le> 0 then Some ('''', g)
      else case GenerateString (gi_clk_id ipt) (gt_ids g) of
             None \<Rightarrow> None
           | Some (sid, ids1, _) \<Rightarrow> Some (sid, g\<lparr> gt_ids := ids1 \<rparr>))"

definition ConnectHandler_Handle ::
  "('r, 'k) gw_env \<Rightarrow> gw_inputs \<Rightarrow> conn \<Rightarrow> ('r, 'k) gateway \<Rightarrow> ('r, 'k) gateway \<times> unit go option" where
  "ConnectHandler_Handle E ipt c g =
     (case draw_id E ipt g of
        None \<Rightarrow> (g, None)
      | Some (sid, g0) \<Rightarrow>
         (let (r1, res) = Connect (gw_R E) (gw_oc E) (gi_t1 ipt) sid (gt_redis g0); g1 = g0\<lparr> gt_redis := r1 \<rparr> in
          case res of
            Panic e \<Rightarrow> (g1, Some (Panic e))
          | Error _ \<Rightarrow> (g1\<lparr> gt_closed := c # gt_closed g1 \<rparr>, Some (Error ''500 ServerInternalError''))
          | Ok (sKey, snowID) \<Rightarrow>
              (let (m1, rec) = ConnManager_AddUnauth (gw_W E) (gi_t2 ipt) (gi_pick ipt) snowID (Some c) (gt_conn g1);
                   g2 = g1\<lparr> gt_conn := m1 \<rparr> in
               case rec of
                 Panic e \<Rightarrow> (g2, Some (Panic e))
               | Error _ \<Rightarrow> (g2\<lparr> gt_closed := c # gt_closed g2 \<rparr>, Some (Error ''500 ServerInternalError''))
               | Ok p \<Rightarrow>
                   (let g3 = g2\<lparr> gt_conn := set_session p sKey m1 \<rparr>;
                        ack = BuildConnectionAck (gi_t3 ipt div millisecond) snowID (ConnManager_GwId m1) sKey snowID in
                    if chan_full (gt_connectQ g3) then (g3, None)
                    else (g3\<lparr> gt_connectQ := gt_connectQ g3 @ [ack] \<rparr>, Some (Ok ()))))))"

text \<open>The loop of the handler: the greeting goes to the socket registered under its connection id.\<close>

definition connect_one :: "('r, 'k) gw_env \<Rightarrow> gw_inputs \<Rightarrow> MessageFrameData \<Rightarrow> ('r, 'k) gateway \<Rightarrow> ('r, 'k) gateway \<times> unit go" where
  "connect_one E ipt f g =
     (let connID = fr_ConnId f in
      if connID = '''' then (g, Ok ())
      else case ConnManager_GetUnAuthClient connID (gt_conn g) of
             Ok p \<Rightarrow> send_or_drop E (gi_o2 ipt) connID f (wc_Conn (cm_heap (gt_conn g) p)) g
           | Error _ \<Rightarrow> (g, Ok ())
           | Panic e \<Rightarrow> (g, Panic e))"

definition ConnectHandler_Run :: "('r, 'k) gw_env \<Rightarrow> gw_inputs \<Rightarrow> ('r, 'k) gateway \<Rightarrow> ('r, 'k) gateway" where
  "ConnectHandler_Run E ipt g =
     (if \<not> gt_connectLoop g then g
      else case gt_connectQ g of [] \<Rightarrow> g
         | f # rest \<Rightarrow>
             (case connect_one E ipt f (g\<lparr> gt_connectQ := rest \<rparr>) of
                (g1, Ok _) \<Rightarrow> g1
              | (g1, _) \<Rightarrow> g1\<lparr> gt_connectLoop := False \<rparr>))"

subsection \<open>A login\<close>

text \<open>
  \<^verbatim>\<open>CodeError.Is\<close> compares codes: no relation between codes is ever added. The connection whose socket
  sent the frame goes with the answer; the session bound is the one the frame names.
\<close>

definition AuthHandler_Handle ::
  "('r, 'k) gw_env \<Rightarrow> gw_inputs \<Rightarrow> MessageFrameData \<Rightarrow> conn \<Rightarrow> ('r, 'k) gateway \<Rightarrow> ('r, 'k) gateway \<times> unit go option" where
  "AuthHandler_Handle E ipt f c g =
     (case ExtractAuthPayload (gw_decode E) (GetPayload f) of
        Panic e \<Rightarrow> (g, Some (Panic e))
      | Error _ \<Rightarrow> (g, Some (Ok ()))
      | Ok ap \<Rightarrow>
         if fr_ConnId f = '''' then (g, Some (Ok ()))
         else
          (let (r1, a) = Authorize (gw_R E) (gw_oc E) (gi_t1 ipt) (ap_UserID ap) (fr_SessionId f) (gt_redis g);
               g1 = g\<lparr> gt_redis := r1 \<rparr> in
           case a of
             Panic e \<Rightarrow> (g1, Some (Panic e))
           | Error _ \<Rightarrow> (g1, Some (Ok ()))
           | Ok (_, aerr) \<Rightarrow>
              if (case aerr of None \<Rightarrow> False | Some x \<Rightarrow> snd x \<noteq> snd ErrorRecordIsExist) then (g1, Some (Ok ()))
              else
               (let (m1, b) = ConnManager_BindUser (gi_t2 ipt) (gi_o1 ipt) (gi_o2 ipt) (fr_SessionId f) (ap_UserID ap) (gt_conn g1);
                    g2 = g1\<lparr> gt_conn := m1 \<rparr> in
                case b of
                  Panic e \<Rightarrow> (g2, Some (Panic e))
                | _ \<Rightarrow>
                   (let rec = ConnManager_GetClient (gi_o1 ipt) (gi_o2 ipt) (gi_o3 ipt) (Some c) m1 in
                    case BuildAuthAck (gi_t3 ipt div millisecond) f of
                      Panic e \<Rightarrow> (g2, Some (Panic e))
                    | Error _ \<Rightarrow> (g2, Some (Ok ()))
                    | Ok ack \<Rightarrow>
                        if chan_full (gt_authQ g2) then (g2, None)
                        else (g2\<lparr> gt_authQ := gt_authQ g2 @ [(ack, rec)] \<rparr>, Some (Ok ()))))))"

definition auth_one ::
  "('r, 'k) gw_env \<Rightarrow> gw_inputs \<Rightarrow> MessageFrameData \<times> ptr option \<Rightarrow> ('r, 'k) gateway \<Rightarrow> ('r, 'k) gateway \<times> unit go" where
  "auth_one E ipt msg g =
     (let f = fst msg; connID = fr_SessionId f in
      if connID = '''' then (g, Ok ())
      else case snd msg of None \<Rightarrow> (g, Panic nil_deref)
         | Some p \<Rightarrow>
            (case ConnManager_Get (gi_o1 ipt) (wc_UserId (cm_heap (gt_conn g) p)) connID (gt_conn g) of
               None \<Rightarrow> (g, Ok ())
             | Some c \<Rightarrow> send_or_drop E (gi_o2 ipt) connID f (Some c) g))"

definition AuthHandler_Run :: "('r, 'k) gw_env \<Rightarrow> gw_inputs \<Rightarrow> ('r, 'k) gateway \<Rightarrow> ('r, 'k) gateway" where
  "AuthHandler_Run E ipt g =
     (if \<not> gt_authLoop g then g
      else case gt_authQ g of [] \<Rightarrow> g
         | msg # rest \<Rightarrow>
             (case auth_one E ipt msg (g\<lparr> gt_authQ := rest \<rparr>) of
                (g1, Ok _) \<Rightarrow> g1
              | (g1, _) \<Rightarrow> g1\<lparr> gt_authLoop := False \<rparr>))"

subsection \<open>Frames for the data nodes\<close>

text \<open>The result of \<^verbatim>\<open>GetTopicKeys\<close> at the start of the data handler is not used.\<close>

definition to_broker ::
  "('r, 'k) gw_env \<Rightarrow> (string \<Rightarrow> string list \<Rightarrow> string) \<Rightarrow> int \<Rightarrow> MessageFrameData \<Rightarrow> ('r, 'k) gateway \<Rightarrow> ('r, 'k) gateway \<times> unit go" where
  "to_broker E select t f g =
     (case GetMessageHandlerConfig (gw_kafka E) t of
        None \<Rightarrow> (g, Panic nil_deref)
      | Some mc \<Rightarrow>
         (case SendTopicKeys mc of
            Error e \<Rightarrow> (g, Error e)
          | Panic e \<Rightarrow> (g, Panic e)
          | Ok keys \<Rightarrow>
             (case gw_marshal E f of
                Error e \<Rightarrow> (g, Error e)
              | Panic e \<Rightarrow> (g, Panic e)
              | Ok data \<Rightarrow>
                 (case gw_handler E of
                    None \<Rightarrow> (g, Ok ())
                  | Some h \<Rightarrow>
                      (case h (select (fr_To f) keys) (fr_To f) data (gt_broker g) of
                         (k1, r) \<Rightarrow> (g\<lparr> gt_broker := k1 \<rparr>, r))))))"

definition DataHandler_Handle :: "('r, 'k) gw_env \<Rightarrow> MessageFrameData \<Rightarrow> ('r, 'k) gateway \<Rightarrow> ('r, 'k) gateway \<times> unit go" where
  "DataHandler_Handle E f g =
     (case GetTopicKeys (gw_kafka E) 2 of
        Panic e \<Rightarrow> (g, Panic e)
      | _ \<Rightarrow> to_broker E SelectTopicByUser FT_DATA f g)"

definition CAckHandler_Handle :: "('r, 'k) gw_env \<Rightarrow> MessageFrameData \<Rightarrow> ('r, 'k) gateway \<Rightarrow> ('r, 'k) gateway \<times> unit go" where
  "CAckHandler_Handle E f g = to_broker E SelectCAckTopicByUser FT_CACK f g"

subsection \<open>The loops of the acknowledgement and the relay handler\<close>

text \<open>
  What each does with a frame from its channel. Their context is cancelled when \<^verbatim>\<open>Run\<close> returns, so
  neither goroutine lives to take one.
\<close>

fun ack_list ::
  "('r, 'k) gw_env \<Rightarrow> gw_inputs \<Rightarrow> MessageFrameData \<Rightarrow> conn list \<Rightarrow> ('r, 'k) gateway \<Rightarrow> ('r, 'k) gateway \<times> unit go" where
  "ack_list E ipt f [] g = (g, Ok ())"
| "ack_list E ipt f (c # cs) g =
     (case GetPayload f of None \<Rightarrow> (g, Panic nil_deref)
      | Some p \<Rightarrow>
         (case send_or_drop E (gi_o2 ipt) (fr_ConnId f)
                 (BuildSendSuccessAckDeliver (gi_t1 ipt div millisecond) (fr_To f) (ph_ClientMsgId (pb_hd p)) (ph_ServerMsgId (pb_hd p)) f)
                 (Some c) g of
            (g1, Ok _) \<Rightarrow> ack_list E ipt f cs g1 | (g1, e) \<Rightarrow> (g1, e)))"

definition ack_one :: "('r, 'k) gw_env \<Rightarrow> gw_inputs \<Rightarrow> MessageFrameData \<Rightarrow> ('r, 'k) gateway \<Rightarrow> ('r, 'k) gateway \<times> unit go" where
  "ack_one E ipt f g =
     (if fr_ConnId f = '''' then (g, Ok ())
      else ack_list E ipt f (ConnManager_GetAll (gi_o1 ipt) (fr_To f) (gt_conn g)) g)"

definition relay_handler_one :: "('r, 'k) gw_env \<Rightarrow> gw_inputs \<Rightarrow> MessageFrameData \<Rightarrow> ('r, 'k) gateway \<Rightarrow> ('r, 'k) gateway \<times> unit go" where
  "relay_handler_one E ipt f g = send_list E (gi_o2 ipt) (fr_To f) f (ConnManager_GetAll (gi_o1 ipt) (fr_To f) (gt_conn g)) g"

subsection \<open>The writer of a socket\<close>

text \<open>
  The goroutine that \<^verbatim>\<open>PingHandler.Handle\<close> starts for a connection: what its \<^verbatim>\<open>select\<close> receives, what it
  does, and the clean-up when it ends. The record may have been released and reused meanwhile.
\<close>

datatype ping_event = PingPayload bytes | PingClosed | PingFirst | PingTick

definition ping_exit :: "gw_inputs \<Rightarrow> conn \<Rightarrow> ptr \<Rightarrow> ('r, 'k) gateway \<Rightarrow> ('r, 'k) gateway" where
  "ping_exit ipt c p g =
     g\<lparr> gt_closed := c # gt_closed g,
        gt_conn := ConnManager_RemoveBySnow (gi_o1 ipt) (wc_SnowID (cm_heap (gt_conn g) p)) (gt_conn g) \<rparr>"

text \<open>The flag says whether the goroutine goes on.\<close>

definition ping_step ::
  "('r, 'k) gw_env \<Rightarrow> gw_inputs \<Rightarrow> conn \<Rightarrow> ptr \<Rightarrow> ping_event \<Rightarrow> ('r, 'k) gateway \<Rightarrow> ('r, 'k) gateway \<times> bool" where
  "ping_step E ipt c p ev g =
     (case ev of
        PingClosed \<Rightarrow> (ping_exit ipt c p g, False)
      | PingPayload d \<Rightarrow>
          (let g1 = g\<lparr> gt_written := gt_written g @ [(c, d)] \<rparr>
           in if ws_WriteMessage (gw_W E) c d = None then (g1, True) else (ping_exit ipt c p g1, False))
      | PingFirst \<Rightarrow> if gw_Ping E c = None then (g, True) else (ping_exit ipt c p g, False)
      | PingTick \<Rightarrow>
          (let w = cm_heap (gt_conn g) p;
               (r1, x) = HeartbeatAuthorized (gw_R E) (gw_oc E) (gi_t1 ipt) (ConnManager_GwId (gt_conn g)) (wc_UserId w) (wc_SnowID w) (gt_redis g);
               g1 = g\<lparr> gt_redis := r1 \<rparr>
           in if gw_Ping E c = None then (g1, True) else (ping_exit ipt c p g1, False)))"

subsection \<open>The life of a socket\<close>

text \<open>
  \<^verbatim>\<open>HandleWS\<close>: the socket is greeted and gets its writer, the frames it sends are answered one by one,
  and when it is gone the session is taken off the store and its user announced.
\<close>

definition HandleWS_open ::
  "('r, 'k) gw_env \<Rightarrow> gw_inputs \<Rightarrow> conn \<Rightarrow> ('r, 'k) gateway \<Rightarrow> ('r, 'k) gateway \<times> ptr option go option" where
  "HandleWS_open E ipt c g =
     (case ConnectHandler_Handle E ipt c g of
        (g1, None) \<Rightarrow> (g1, None)
      | (g1, Some (Error e)) \<Rightarrow> (g1, Some (Error e))
      | (g1, Some (Panic e)) \<Rightarrow> (g1, Some (Panic e))
      | (g1, Some (Ok _)) \<Rightarrow>
          (g1, Some (Ok (ConnManager_GetClient (gi_o1 ipt) (gi_o2 ipt) (gi_o3 ipt) (Some c) (gt_conn g1)))))"

text \<open>\<^verbatim>\<open>msg.SessionId = rec.SnowID\<close> for messages and acknowledgements. Frames of other types are dropped.\<close>

definition HandleWS_message ::
  "('r, 'k) gw_env \<Rightarrow> gw_inputs \<Rightarrow> conn \<Rightarrow> ptr \<Rightarrow> string \<Rightarrow> ('r, 'k) gateway \<Rightarrow> ('r, 'k) gateway \<times> unit go option" where
  "HandleWS_message E ipt c p data g =
     (case ParseFrameJSON (gw_parse E) data of
        Panic e \<Rightarrow> (g, Some (Panic e))
      | Error _ \<Rightarrow> (g, Some (Ok ()))
      | Ok msg \<Rightarrow>
         (let own = msg\<lparr> fr_SessionId := wc_SnowID (cm_heap (gt_conn g) p) \<rparr> in
          if fr_Type msg = FT_AUTH then AuthHandler_Handle E ipt msg c g
          else if fr_Type msg = FT_DATA \<or> fr_Type msg = FT_CACK then
            (case (if fr_Type msg = FT_DATA then DataHandler_Handle E own g else CAckHandler_Handle E own g) of
               (g1, Panic e) \<Rightarrow> (g1, Some (Panic e))
             | (g1, _) \<Rightarrow> (g1, Some (Ok ())))
          else (g, Some (Ok ()))))"

text \<open>At the end \<^verbatim>\<open>HandleWS\<close> waits on a channel that nobody closes, so its socket is never closed there.\<close>

definition HandleWS_gone :: "('r, 'k) gw_env \<Rightarrow> ptr \<Rightarrow> ('r, 'k) gateway \<Rightarrow> ('r, 'k) gateway" where
  "HandleWS_gone E p g =
     (let w = cm_heap (gt_conn g) p;
          r1 = (if wc_UserId w \<noteq> '''' then fst (Offline (gw_R E) (gw_oc E) (wc_UserId w) (wc_SnowID w) True ''offline'' (gt_redis g))
                else fst (OfflineUnauth (gw_R E) (gw_oc E) (wc_SnowID w) True ''offline'' (gt_redis g)))
      in g\<lparr> gt_redis := r1,
            gt_outbound := (if chan_full (gt_outbound g) then gt_outbound g else gt_outbound g @ [wc_UserId w]) \<rparr>)"

subsection \<open>The node as a machine\<close>

text \<open>
  What happens on a gateway, one thing at a time: a socket is opened (it gets a new address), sends
  text or goes away; its writer or one of the loops takes what it waits for; a consumer of the broker
  hands a frame over; the sweeper runs. \<open>gy_readers\<close> and \<open>gy_writers\<close> are the goroutines of open sockets
  with the record they hold.
\<close>

record ('r, 'k) gw_sys =
  gy_gw :: "('r, 'k) gateway"
  gy_next :: conn
  gy_readers :: "(conn \<times> ptr) list"
  gy_writers :: "(conn \<times> ptr) list"

datatype gw_event =
    GOpen gw_inputs
  | GMessage gw_inputs conn string
  | GGone conn
  | GWriter gw_inputs conn ping_event
  | GConnectLoop gw_inputs
  | GAuthLoop gw_inputs
  | GRelayLoop gw_inputs
  | GRelay string string
  | GSweep order "string \<Rightarrow> order" time

text \<open>
  A goroutine that waits for ever takes no further part, nor does one that panics; when it is the one
  that runs \<^verbatim>\<open>HandleWS\<close> the web server recovers it, after the deferred \<^verbatim>\<open>ws.Close()\<close>.
\<close>

definition deferred_close :: "conn \<Rightarrow> ('r, 'k) gateway \<Rightarrow> ('r, 'k) gateway" where
  "deferred_close c g = g\<lparr> gt_closed := c # gt_closed g \<rparr>"

definition gw_open :: "('r, 'k) gw_env \<Rightarrow> gw_inputs \<Rightarrow> ('r, 'k) gw_sys \<Rightarrow> ('r, 'k) gw_sys" where
  "gw_open E ipt y =
     (let c = gy_next y; (g1, r) = HandleWS_open E ipt c (gy_gw y); y1 = y\<lparr> gy_gw := g1, gy_next := Suc c \<rparr>
      in case r of
           None \<Rightarrow> y1
         | Some (Ok (Some p)) \<Rightarrow> y1\<lparr> gy_readers := (c, p) # gy_readers y1, gy_writers := (c, p) # gy_writers y1 \<rparr>
         | Some _ \<Rightarrow> y1\<lparr> gy_gw := deferred_close c g1 \<rparr>)"

fun gw_step :: "('r, 'k) gw_env \<Rightarrow> gw_event \<Rightarrow> ('r, 'k) gw_sys \<Rightarrow> ('r, 'k) gw_sys" where
  "gw_step E (GOpen ipt) y = gw_open E ipt y"
| "gw_step E (GMessage ipt c d) y =
     (case map_of (gy_readers y) c of None \<Rightarrow> y
      | Some p \<Rightarrow>
         (case HandleWS_message E ipt c p d (gy_gw y) of
            (g1, Some (Ok _)) \<Rightarrow> y\<lparr> gy_gw := g1 \<rparr>
          | (g1, None) \<Rightarrow> y\<lparr> gy_gw := g1, gy_readers := AList.delete c (gy_readers y) \<rparr>
          | (g1, Some _) \<Rightarrow> y\<lparr> gy_gw := deferred_close c g1, gy_readers := AList.delete c (gy_readers y) \<rparr>))"
| "gw_step E (GGone c) y =
     (case map_of (gy_readers y) c of None \<Rightarrow> y
      | Some p \<Rightarrow> y\<lparr> gy_gw := HandleWS_gone E p (gy_gw y), gy_readers := AList.delete c (gy_readers y) \<rparr>)"
| "gw_step E (GWriter ipt c ev) y =
     (case map_of (gy_writers y) c of None \<Rightarrow> y
      | Some p \<Rightarrow>
         (case ping_step E ipt c p ev (gy_gw y) of
            (g1, goes_on) \<Rightarrow> y\<lparr> gy_gw := g1, gy_writers := (if goes_on then gy_writers y else AList.delete c (gy_writers y)) \<rparr>))"
| "gw_step E (GConnectLoop ipt) y = y\<lparr> gy_gw := ConnectHandler_Run E ipt (gy_gw y) \<rparr>"
| "gw_step E (GAuthLoop ipt) y = y\<lparr> gy_gw := AuthHandler_Run E ipt (gy_gw y) \<rparr>"
| "gw_step E (GRelayLoop ipt) y = y\<lparr> gy_gw := LoopRelayData E ipt (gy_gw y) \<rparr>"
| "gw_step E (GRelay d cid) y = y\<lparr> gy_gw := fst (RelayMsg E d cid (gy_gw y)) \<rparr>"
| "gw_step E (GSweep o1 o2 now) y =
     y\<lparr> gy_gw := (gy_gw y)\<lparr> gt_conn := ConnManager_sweepOnce o1 o2 now (gt_conn (gy_gw y)) \<rparr> \<rparr>"

fun gw_run :: "('r, 'k) gw_env \<Rightarrow> gw_event list \<Rightarrow> ('r, 'k) gw_sys \<Rightarrow> ('r, 'k) gw_sys" where
  "gw_run E [] y = y"
| "gw_run E (ev # evs) y = gw_run E evs (gw_step E ev y)"

text \<open>The node as \<^verbatim>\<open>chatgateway.go\<close> starts it.\<close>

definition gw_start :: "string \<Rightarrow> 'r \<Rightarrow> 'k \<Rightarrow> generator \<Rightarrow> ('r, 'k) gw_sys" where
  "gw_start gwID r k ids = \<lparr> gy_gw = \<lparr> gt_conn = NewConnManager gwID, gt_redis = r, gt_broker = k, gt_ids = ids,
     gt_connectQ = [], gt_authQ = [], gt_relayQ = [], gt_outbound = [], gt_written = [], gt_closed = [],
     gt_connectLoop = True, gt_authLoop = True, gt_relayLoop = True \<rparr>, gy_next = 0, gy_readers = [], gy_writers = [] \<rparr>"

end
