(* ===== verification/GatewaySteps.thy ===== *)
theory GatewaySteps
  imports Gateway ConnLegacy "HOL-Library.Sublist"
begin

section \<open>Every event of a gateway keeps its connections well-formed\<close>

text \<open>
  One lemma per handler and loop of the theory \<^verbatim>\<open>Gateway\<close>, composed for the events of the machine: the
  indexes of the connection manager agree, and its sockets are ones the gateway opened. Then the bounds
  of the channels.
\<close>

subsection \<open>Connections of sockets opened so far\<close>

text \<open>
  The invariants of the manager, without a limit per user, over sockets below an address. They speak of the sockets
  the manager closed; those the gateway closes itself may stay registered (\<open>gateway_failed_greeting_stays\<close>).
\<close>

definition cm_within :: "conn \<Rightarrow> conn_manager \<Rightarrow> bool" where
  "cm_within n m \<longleftrightarrow> cm_inv m \<and> sock_inv m \<and> mc_MaxPerUser (cm_conf m) \<le> 0
     \<and> (\<forall>s p c. map_of (cm_bySnow m) s = Some p \<longrightarrow> wc_Conn (cm_heap m p) = Some c \<longrightarrow> c < n)
     \<and> (\<forall>c \<in> set (cm_closed m). c < n)"

lemma cm_withinD:
  assumes "cm_within n m"
  shows "cm_inv m" "sock_inv m" "mc_MaxPerUser (cm_conf m) \<le> 0" "never_panics (cm_conf m)"
    "map_of (cm_bySnow m) s = Some p \<Longrightarrow> wc_Conn (cm_heap m p) = Some c \<Longrightarrow> c < n"
    "c \<in> set (cm_closed m) \<Longrightarrow> c < n"
  using assms by (auto simp: cm_within_def never_panics_def)

text \<open>A registered socket: opened, not closed by the manager, and of this record only.\<close>

lemma cm_within_socket:
  assumes "cm_within n m" "map_of (cm_bySnow m) s = Some p" "wc_Conn (cm_heap m p) = Some c"
  shows "c < n \<and> c \<notin> set (cm_closed m)
    \<and> (\<forall>s' p'. map_of (cm_bySnow m) s' = Some p' \<longrightarrow> wc_Conn (cm_heap m p') = Some c \<longrightarrow> s' = s \<and> p' = p)"
proof (intro conjI allI impI)
  have e: "(s, p) \<in> set (cm_bySnow m)" using assms(2) by (rule map_of_SomeD)
  show "c < n" by (rule cm_withinD(5)[OF assms])
  show "c \<notin> set (cm_closed m)" using cm_withinD(2)[OF assms(1)] e assms(3) by (force simp: sock_inv_def)
  fix s' p'
  assume m: "map_of (cm_bySnow m) s' = Some p'" "wc_Conn (cm_heap m p') = Some c"
  have "(s', p') \<in> set (cm_bySnow m)" using m(1) by (rule map_of_SomeD)
  with cm_withinD(2)[OF assms(1)] e assms(3) m(2) show "s' = s" unfolding sock_inv_def by fastforce
  with assms(2) m(1) show "p' = p" by simp
qed

lemma cm_within_Suc: "cm_within n m \<Longrightarrow> cm_within (Suc n) m"
  by (fastforce simp: cm_within_def)

lemma cm_within_shrinks:
  assumes "cm_within n m" "cm_inv m'" "cm_shrinks m m'"
  shows "cm_within n m'"
proof -
  note d = cm_withinD[OF assms(1)]
  have "sock_inv m'" using cm_shrinks_sock_inv[OF d(1) assms(2) d(2) assms(3)] .
  moreover have "c < n" if "map_of (cm_bySnow m') s = Some p" "wc_Conn (cm_heap m' p) = Some c" for s p c
    using assms(3) that d(5)[of s p c] unfolding cm_shrinks_def by auto
  moreover have "c < n" if "c \<in> set (cm_closed m')" for c
    using assms(3) that d(5,6) unfolding cm_shrinks_def by blast
  ultimately show ?thesis using assms(2,3) d(3) by (simp add: cm_within_def cm_shrinks_def)
qed

text \<open>No limit, so a bind never evicts.\<close>

lemma cm_within_exec:
  assumes "cm_within n m"
  shows "cm_within n (ConnManager_Remove o1 u m)" "cm_within n (fst (ConnManager_BindUser now o1 o2 sid u m))"
    "cm_within n (ConnManager_RemoveBySnow o2 sid m)" "cm_within n (ConnManager_sweepOnce o1 o3 now m)"
proof -
  note d = cm_withinD[OF assms]
  have k: "bind_keeps sid u m" using d(3) by (simp add: bind_keeps_def)
  from cm_within_shrinks[OF assms] show
    "cm_within n (ConnManager_Remove o1 u m)" "cm_within n (fst (ConnManager_BindUser now o1 o2 sid u m))"
    "cm_within n (ConnManager_RemoveBySnow o2 sid m)" "cm_within n (ConnManager_sweepOnce o1 o3 now m)"
    using d(1,4) k by (auto intro: Remove_inv BindUser_inv RemoveBySnow_inv sweepOnce_effect
        Remove_shrinks BindUser_shrinks RemoveBySnow_shrinks sweepOnce_shrinks)
qed

lemma AddUnauth_within:
  assumes w: "cm_within n m"
  shows "cm_within (Suc n) (fst (ConnManager_AddUnauth W now pick sid (Some n) m))"
proof (cases "\<exists>p. snd (ConnManager_AddUnauth W now pick sid (Some n) m) = Ok p")
  case False
  then have "fst (ConnManager_AddUnauth W now pick sid (Some n) m) = m" using AddUnauth_fail by blast
  with cm_within_Suc[OF w] show ?thesis by simp
next
  case True
  note d = cm_withinD[OF w]
  let ?m = "fst (ConnManager_AddUnauth W now pick sid (Some n) m)"
  from True obtain p where p: "snd (ConnManager_AddUnauth W now pick sid (Some n) m) = Ok p" by blast
  have fr: "socket_fresh (Some n) m"
    using d(5,6) cm_invD(2)[OF d(1)] by (fastforce simp: socket_fresh_def gm_in_set)
  have inv: "cm_inv ?m" using AddUnauth_inv[OF d(1)] .
  note gr = AddUnauth_grows(1)[OF d(1) p]
  have "sock_inv ?m" using cm_grows_sock_inv[OF d(1) inv d(2) fr gr] .
  moreover have "c < Suc n" if "map_of (cm_bySnow ?m) s = Some q" "wc_Conn (cm_heap ?m q) = Some c" for s q c
    using gr that d(5)[of s q c] unfolding cm_grows_def by (cases "s = sid") auto
  moreover have "c < Suc n" if "c \<in> set (cm_closed ?m)" for c
    using gr that d(5,6) unfolding cm_grows_def by (meson less_Suc_eq)
  ultimately show ?thesis using inv cm_grows_conf[OF gr] d(3) by (auto simp: cm_within_def)
qed

lemma set_session_sel [simp]:
  "cm_conns (set_session p k m) = cm_conns m" "cm_bySnow (set_session p k m) = cm_bySnow m"
  "cm_byUser (set_session p k m) = cm_byUser m" "cm_conf (set_session p k m) = cm_conf m"
  "cm_next (set_session p k m) = cm_next m" "cm_pool (set_session p k m) = cm_pool m"
  "cm_closed (set_session p k m) = cm_closed m" "user_conns (set_session p k m) = user_conns m"
  "wc_Conn (cm_heap (set_session p k m) q) = wc_Conn (cm_heap m q)"
  "wc_UserId (cm_heap (set_session p k m) q) = wc_UserId (cm_heap m q)"
  "wc_SnowID (cm_heap (set_session p k m) q) = wc_SnowID (cm_heap m q)"
  "wc_Authorized (cm_heap (set_session p k m) q) = wc_Authorized (cm_heap m q)"
  by (simp_all add: set_session_def user_conns_def fun_eq_iff)

lemma set_session_within: "cm_within n m \<Longrightarrow> cm_within n (set_session p k m)"
  unfolding cm_within_def cm_inv_def sock_inv_def index_agrees_def entry_ok_def set_session_sel .

subsection \<open>Every step keeps them\<close>

text \<open>The connections of a gateway are within the sockets below \<open>n\<close>.\<close>

abbreviation gw_within :: "nat \<Rightarrow> ('r, 'k) gateway \<Rightarrow> bool" where
  "gw_within n g \<equiv> cm_within n (gt_conn g)"

named_theorems gw_within_intros \<open>the parts of a step that keep the connections well-formed\<close>

lemma close_ws_conn [simp]: "gt_conn (fst (close_ws ws g)) = gt_conn g"
  by (simp add: close_ws_def split: option.splits)

lemma send_or_drop_within [gw_within_intros]:
  assumes "gw_within n g"
  shows "gw_within n (fst (send_or_drop E o1 key f ws g))"
proof -
  have "gt_conn (fst (send_or_drop E o1 key f ws g)) \<in> {gt_conn g, ConnManager_Remove o1 key (gt_conn g)}"
    by (auto simp: send_or_drop_def close_ws_def Let_def split: go.splits prod.splits option.splits)
  with assms cm_within_exec(1)[OF assms] show ?thesis by fastforce
qed

lemma send_list_within [gw_within_intros]: "gw_within n g \<Longrightarrow> gw_within n (fst (send_list E o1 key f cs g))"
proof (induction cs arbitrary: g)
  case (Cons c cs)
  show ?case
    using send_or_drop_within[OF Cons.prems, of E o1 key f "Some c"] Cons.IH
    by (auto split: prod.splits go.splits)
qed simp

lemma relay_one_within [gw_within_intros]: "gw_within n g \<Longrightarrow> gw_within n (fst (relay_one E ipt msg g))"
  by (simp add: relay_one_def Let_def send_or_drop_within send_list_within)

lemma LoopRelayData_within: "gw_within n g \<Longrightarrow> gw_within n (LoopRelayData E ipt g)"
  using relay_one_within[of n "g\<lparr> gt_relayQ := tl (gt_relayQ g) \<rparr>" E ipt "hd (gt_relayQ g)"]
  by (auto simp: LoopRelayData_def split: list.splits prod.splits go.splits)

lemma RelayMsg_conn [simp]: "gt_conn (fst (RelayMsg E d cid g)) = gt_conn g"
  by (simp add: RelayMsg_def split: go.splits)

lemma connect_one_within [gw_within_intros]: "gw_within n g \<Longrightarrow> gw_within n (fst (connect_one E ipt f g))"
  by (simp add: connect_one_def Let_def send_or_drop_within split: go.splits)

lemma ConnectHandler_Run_within: "gw_within n g \<Longrightarrow> gw_within n (ConnectHandler_Run E ipt g)"
  using connect_one_within[of n "g\<lparr> gt_connectQ := tl (gt_connectQ g) \<rparr>" E ipt "hd (gt_connectQ g)"]
  by (auto simp: ConnectHandler_Run_def split: list.splits prod.splits go.splits)

lemma auth_one_within [gw_within_intros]: "gw_within n g \<Longrightarrow> gw_within n (fst (auth_one E ipt msg g))"
  by (simp add: auth_one_def Let_def send_or_drop_within split: option.splits)

lemma AuthHandler_Run_within: "gw_within n g \<Longrightarrow> gw_within n (AuthHandler_Run E ipt g)"
  using auth_one_within[of n "g\<lparr> gt_authQ := tl (gt_authQ g) \<rparr>" E ipt "hd (gt_authQ g)"]
  by (auto simp: AuthHandler_Run_def split: list.splits prod.splits go.splits)

lemma draw_id_conn: "draw_id E ipt g = Some (sid, g0) \<Longrightarrow> gt_conn g0 = gt_conn g"
  by (auto simp: draw_id_def split: if_splits option.splits prod.splits)

text \<open>A new socket: either nothing is registered, or the record the manager returns.\<close>

lemma ConnectHandler_conn:
  "gt_conn (fst (ConnectHandler_Handle E ipt c g)) = gt_conn g
   \<or> (\<exists>sid m1. m1 = fst (ConnManager_AddUnauth (gw_W E) (gi_t2 ipt) (gi_pick ipt) sid (Some c) (gt_conn g))
         \<and> (gt_conn (fst (ConnectHandler_Handle E ipt c g)) = m1
            \<or> (\<exists>p k. gt_conn (fst (ConnectHandler_Handle E ipt c g)) = set_session p k m1)))"
proof (cases "draw_id E ipt g")
  case (Some x)
  then obtain sid g0 where d: "draw_id E ipt g = Some (sid, g0)" by (cases x) auto
  obtain r1 res where c1: "Connect (gw_R E) (gw_oc E) (gi_t1 ipt) sid (gt_redis g0) = (r1, res)" by fastforce
  show ?thesis
  proof (cases res)
    case (Ok x)
    then obtain k s where ok: "res = Ok (k, s)" by (cases x) auto
    obtain m1 rec where a: "ConnManager_AddUnauth (gw_W E) (gi_t2 ipt) (gi_pick ipt) s (Some c) (gt_conn g) = (m1, rec)"
      by fastforce
    have "gt_conn (fst (ConnectHandler_Handle E ipt c g)) = m1
      \<or> (\<exists>p k. gt_conn (fst (ConnectHandler_Handle E ipt c g)) = set_session p k m1)"
      by (cases rec) (use d c1 ok a draw_id_conn[OF d] in \<open>auto simp: ConnectHandler_Handle_def Let_def\<close>)
    with a show ?thesis by (metis fst_conv)
  qed (use d c1 draw_id_conn[OF d] in \<open>auto simp: ConnectHandler_Handle_def\<close>)
qed (simp add: ConnectHandler_Handle_def)

lemma ConnectHandler_within: "gw_within n g \<Longrightarrow> gw_within (Suc n) (fst (ConnectHandler_Handle E ipt n g))"
  using ConnectHandler_conn[of E ipt n g] AddUnauth_within[of n "gt_conn g"] set_session_within cm_within_Suc
  by metis

lemma AuthHandler_conn:
  "gt_conn (fst (AuthHandler_Handle E ipt f c g)) = gt_conn g
   \<or> (\<exists>u. gt_conn (fst (AuthHandler_Handle E ipt f c g))
        = fst (ConnManager_BindUser (gi_t2 ipt) (gi_o1 ipt) (gi_o2 ipt) (fr_SessionId f) u (gt_conn g)))"
proof (cases "ExtractAuthPayload (gw_decode E) (GetPayload f)")
  case (Ok ap)
  obtain r1 a where a: "Authorize (gw_R E) (gw_oc E) (gi_t1 ipt) (ap_UserID ap) (fr_SessionId f) (gt_redis g) = (r1, a)"
    by fastforce
  obtain m1 b where b: "ConnManager_BindUser (gi_t2 ipt) (gi_o1 ipt) (gi_o2 ipt) (fr_SessionId f) (ap_UserID ap) (gt_conn g) = (m1, b)"
    by fastforce
  have "gt_conn (fst (AuthHandler_Handle E ipt f c g)) \<in> {gt_conn g, m1}"
    by (simp add: AuthHandler_Handle_def Let_def Ok a b split: go.splits prod.splits option.splits)
  with b show ?thesis by (metis fst_conv insertE singletonD)
qed (simp_all add: AuthHandler_Handle_def)

lemma AuthHandler_within: "gw_within n g \<Longrightarrow> gw_within n (fst (AuthHandler_Handle E ipt f c g))"
  using AuthHandler_conn[of E ipt f c g] cm_within_exec(2) by metis

lemma to_broker_conn [simp]: "gt_conn (fst (to_broker E sel t f g)) = gt_conn g"
  by (simp add: to_broker_def split: option.splits go.splits prod.splits)

lemma DataHandler_conn [simp]: "gt_conn (fst (DataHandler_Handle E f g)) = gt_conn g"
  by (simp add: DataHandler_Handle_def split: go.splits)

lemma CAckHandler_conn [simp]: "gt_conn (fst (CAckHandler_Handle E f g)) = gt_conn g"
  by (simp add: CAckHandler_Handle_def)

lemma ping_step_within: "gw_within n g \<Longrightarrow> gw_within n (fst (ping_step E ipt c p ev g))"
  by (cases ev) (simp_all add: ping_step_def ping_exit_def Let_def cm_within_exec(3) split: prod.splits)

text \<open>A frame of a client is one call of a handler, or nothing.\<close>

lemma fst_case_go: "fst (case x of (g1, Ok u) \<Rightarrow> (g1, A u) | (g1, Error e) \<Rightarrow> (g1, B e) | (g1, Panic e) \<Rightarrow> (g1, C e)) = fst x"
  by (simp split: prod.splits go.splits)

lemma HandleWS_message_state:
  "\<exists>msg own. fst (HandleWS_message E ipt c p data g)
     \<in> {g, fst (AuthHandler_Handle E ipt msg c g), fst (DataHandler_Handle E own g), fst (CAckHandler_Handle E own g)}"
proof (cases "ParseFrameJSON (gw_parse E) data")
  case (Ok msg)
  let ?own = "msg\<lparr> fr_SessionId := wc_SnowID (cm_heap (gt_conn g) p) \<rparr>"
  show ?thesis
    by (rule exI[of _ msg], rule exI[of _ ?own]) (simp add: HandleWS_message_def Let_def Ok fst_case_go)
qed (simp_all add: HandleWS_message_def)

lemma HandleWS_message_within:
  assumes "gw_within n g"
  shows "gw_within n (fst (HandleWS_message E ipt c p data g))"
proof -
  obtain msg own where "fst (HandleWS_message E ipt c p data g)
     \<in> {g, fst (AuthHandler_Handle E ipt msg c g), fst (DataHandler_Handle E own g), fst (CAckHandler_Handle E own g)}"
    using HandleWS_message_state by blast
  then show ?thesis
    by (elim insertE emptyE) (simp_all add: assms AuthHandler_within)
qed

lemma HandleWS_open_within: "gw_within n g \<Longrightarrow> gw_within (Suc n) (fst (HandleWS_open E ipt n g))"
  using ConnectHandler_within[of n g E ipt] by (auto simp: HandleWS_open_def split: prod.splits option.splits go.splits)

lemma HandleWS_gone_conn [simp]: "gt_conn (HandleWS_gone E p g) = gt_conn g"
  by (simp add: HandleWS_gone_def Let_def)

lemma deferred_close_sel [simp]:
  "gt_conn (deferred_close c g) = gt_conn g" "gt_relayQ (deferred_close c g) = gt_relayQ g"
  "gt_connectQ (deferred_close c g) = gt_connectQ g" "gt_authQ (deferred_close c g) = gt_authQ g"
  "gt_outbound (deferred_close c g) = gt_outbound g" "gt_relayLoop (deferred_close c g) = gt_relayLoop g"
  by (simp_all add: deferred_close_def)

text \<open>Every event keeps the connections within the sockets opened so far.\<close>

abbreviation sys_within :: "('r, 'k) gw_sys \<Rightarrow> bool" where
  "sys_within y \<equiv> gw_within (gy_next y) (gy_gw y)"

lemma gw_open_within: "sys_within y \<Longrightarrow> sys_within (gw_open E ipt y)"
  using HandleWS_open_within[of "gy_next y" "gy_gw y" E ipt]
  by (auto simp: gw_open_def Let_def split: prod.splits option.splits go.splits)

lemma gw_step_within:
  assumes "sys_within y"
  shows "sys_within (gw_step E ev y)"
proof (cases ev)
  case (GMessage ipt c d)
  show ?thesis
  proof (cases "map_of (gy_readers y) c")
    case (Some p)
    with GMessage HandleWS_message_within[OF assms, of E ipt c p d] show ?thesis
      by (auto split: prod.splits option.splits go.splits)
  qed (use assms GMessage in simp)
next
  case (GWriter ipt c ev)
  with assms ping_step_within[OF assms, of E ipt c _ ev] show ?thesis
    by (auto split: option.splits prod.splits) (metis fst_conv)
next
  case (GSweep o1 o2 now)
  with cm_within_exec(4)[OF assms] show ?thesis by simp
qed (use assms in \<open>simp_all add: gw_open_within ConnectHandler_Run_within AuthHandler_Run_within LoopRelayData_within
      split: option.splits\<close>)

lemma gw_run_within: "sys_within y \<Longrightarrow> sys_within (gw_run E evs y)"
  by (induction evs arbitrary: y) (simp_all add: gw_step_within)

lemma gw_start_within: "sys_within (gw_start gwID r k ids)"
proof -
  have np: "never_panics ManagerConf_zero" by (simp add: never_panics_def ManagerConf_zero_def)
  have "cm_inv (NewConnManager gwID)" "sock_inv (NewConnManager gwID)"
    using cm_reach_inv[OF cm_reach_new[of undefined ManagerConf_zero gwID] np] by (simp_all add: NewConnManager_def)
  then show ?thesis
    by (simp add: gw_start_def cm_within_def NewConnManager_def NewConnManagerWithConf_def ManagerConf_norm_def
        ManagerConf_zero_def)
qed

subsection \<open>The channels\<close>

text \<open>No channel ever holds more than it takes.\<close>

definition chan_ok :: "'a list \<Rightarrow> bool" where
  "chan_ok q \<longleftrightarrow> length q \<le> 8192"

definition gw_chans_ok :: "('r, 'k) gateway \<Rightarrow> bool" where
  "gw_chans_ok g \<longleftrightarrow> chan_ok (gt_connectQ g) \<and> chan_ok (gt_authQ g) \<and> chan_ok (gt_relayQ g) \<and> chan_ok (gt_outbound g)"

lemma chan_ok_send: "\<not> chan_full q \<Longrightarrow> chan_ok (q @ [x])"
  by (simp add: chan_ok_def chan_full_def)

lemma chan_ok_tl: "chan_ok (x # q) \<Longrightarrow> chan_ok q"
  by (simp add: chan_ok_def)

lemma gw_chans_okD:
  "gw_chans_ok g \<Longrightarrow> chan_ok (gt_connectQ g)" "gw_chans_ok g \<Longrightarrow> chan_ok (gt_authQ g)"
  "gw_chans_ok g \<Longrightarrow> chan_ok (gt_relayQ g)" "gw_chans_ok g \<Longrightarrow> chan_ok (gt_outbound g)"
  by (simp_all add: gw_chans_ok_def)

text \<open>What sends to no channel leaves all of them alone.\<close>

definition gw_chans :: "('r, 'k) gateway
    \<Rightarrow> MessageFrameData list \<times> (MessageFrameData \<times> ptr option) list \<times> relay_msg list \<times> string list" where
  "gw_chans g = (gt_connectQ g, gt_authQ g, gt_relayQ g, gt_outbound g)"

lemma gw_chans_cong: "gw_chans g = gw_chans h \<Longrightarrow> gw_chans_ok g \<longleftrightarrow> gw_chans_ok h"
  by (simp add: gw_chans_def gw_chans_ok_def)

named_theorems gw_chans_sel \<open>operations that send to no channel\<close>

lemma close_ws_chans [gw_chans_sel]: "gw_chans (fst (close_ws ws g)) = gw_chans g"
  by (simp add: close_ws_def gw_chans_def split: option.splits)

lemma send_or_drop_chans [gw_chans_sel]: "gw_chans (fst (send_or_drop E o1 key f ws g)) = gw_chans g"
  by (simp add: send_or_drop_def close_ws_def gw_chans_def Let_def split: go.splits prod.splits option.splits)

lemma send_list_chans [gw_chans_sel]: "gw_chans (fst (send_list E o1 key f cs g)) = gw_chans g"
proof (induction cs arbitrary: g)
  case (Cons c cs)
  show ?case
    using send_or_drop_chans[of E o1 key f "Some c" g] Cons.IH by (auto split: prod.splits go.splits)
qed simp

lemma relay_one_chans [gw_chans_sel]: "gw_chans (fst (relay_one E ipt msg g)) = gw_chans g"
  by (simp add: relay_one_def Let_def gw_chans_sel)

lemma connect_one_chans [gw_chans_sel]: "gw_chans (fst (connect_one E ipt f g)) = gw_chans g"
  by (simp add: connect_one_def Let_def gw_chans_sel split: go.splits)

lemma auth_one_chans [gw_chans_sel]: "gw_chans (fst (auth_one E ipt msg g)) = gw_chans g"
  by (simp add: auth_one_def Let_def gw_chans_sel split: option.splits)

lemma to_broker_chans [gw_chans_sel]: "gw_chans (fst (to_broker E sel t f g)) = gw_chans g"
  by (simp add: to_broker_def gw_chans_def split: option.splits go.splits prod.splits)

lemma DataHandler_chans [gw_chans_sel]: "gw_chans (fst (DataHandler_Handle E f g)) = gw_chans g"
  by (simp add: DataHandler_Handle_def gw_chans_sel split: go.splits)

lemma CAckHandler_chans [gw_chans_sel]: "gw_chans (fst (CAckHandler_Handle E f g)) = gw_chans g"
  by (simp add: CAckHandler_Handle_def gw_chans_sel)

lemma ping_step_chans [gw_chans_sel]: "gw_chans (fst (ping_step E ipt c p ev g)) = gw_chans g"
  by (cases ev) (simp_all add: ping_step_def ping_exit_def gw_chans_def Let_def split: prod.splits)

text \<open>A loop takes the head of its channel.\<close>

lemma LoopRelayData_chans:
  "gw_chans (LoopRelayData E ipt g) \<in> {gw_chans g, gw_chans (g\<lparr> gt_relayQ := tl (gt_relayQ g) \<rparr>)}"
  using relay_one_chans[of E ipt "hd (gt_relayQ g)" "g\<lparr> gt_relayQ := tl (gt_relayQ g) \<rparr>"]
  by (auto simp: LoopRelayData_def gw_chans_def split: list.splits prod.splits go.splits)

lemma ConnectHandler_Run_chans:
  "gw_chans (ConnectHandler_Run E ipt g) \<in> {gw_chans g, gw_chans (g\<lparr> gt_connectQ := tl (gt_connectQ g) \<rparr>)}"
  using connect_one_chans[of E ipt "hd (gt_connectQ g)" "g\<lparr> gt_connectQ := tl (gt_connectQ g) \<rparr>"]
  by (auto simp: ConnectHandler_Run_def gw_chans_def split: list.splits prod.splits go.splits)

lemma AuthHandler_Run_chans:
  "gw_chans (AuthHandler_Run E ipt g) \<in> {gw_chans g, gw_chans (g\<lparr> gt_authQ := tl (gt_authQ g) \<rparr>)}"
  using auth_one_chans[of E ipt "hd (gt_authQ g)" "g\<lparr> gt_authQ := tl (gt_authQ g) \<rparr>"]
  by (auto simp: AuthHandler_Run_def gw_chans_def split: list.splits prod.splits go.splits)

text \<open>A handler sends at most one value, and only when there is room.\<close>

lemma draw_id_chans: "draw_id E ipt g = Some (sid, g0) \<Longrightarrow> gw_chans g0 = gw_chans g"
  by (auto simp: draw_id_def gw_chans_def split: if_splits option.splits prod.splits)

lemma ConnectHandler_chans:
  "gw_chans (fst (ConnectHandler_Handle E ipt c g)) = gw_chans g
   \<or> \<not> chan_full (gt_connectQ g) \<and> (\<exists>a. gw_chans (fst (ConnectHandler_Handle E ipt c g))
        = gw_chans (g\<lparr> gt_connectQ := gt_connectQ g @ [a] \<rparr>))"
proof (cases "draw_id E ipt g")
  case (Some x)
  then obtain sid g0 where d: "draw_id E ipt g = Some (sid, g0)" by (cases x) auto
  show ?thesis
    using draw_id_chans[OF d]
    by (auto simp: ConnectHandler_Handle_def Let_def d gw_chans_def split: prod.splits go.splits)
qed (simp add: ConnectHandler_Handle_def)

lemma AuthHandler_chans:
  "gw_chans (fst (AuthHandler_Handle E ipt f c g)) = gw_chans g
   \<or> \<not> chan_full (gt_authQ g) \<and> (\<exists>a. gw_chans (fst (AuthHandler_Handle E ipt f c g))
        = gw_chans (g\<lparr> gt_authQ := gt_authQ g @ [a] \<rparr>))"
  by (auto simp: AuthHandler_Handle_def Let_def gw_chans_def split: prod.splits go.splits option.splits)

lemma gw_chans_ok_tl:
  "gw_chans_ok g \<Longrightarrow> gw_chans h \<in> {gw_chans g, gw_chans (g\<lparr> gt_relayQ := tl (gt_relayQ g) \<rparr>)} \<Longrightarrow> gw_chans_ok h"
  "gw_chans_ok g \<Longrightarrow> gw_chans h \<in> {gw_chans g, gw_chans (g\<lparr> gt_connectQ := tl (gt_connectQ g) \<rparr>)} \<Longrightarrow> gw_chans_ok h"
  "gw_chans_ok g \<Longrightarrow> gw_chans h \<in> {gw_chans g, gw_chans (g\<lparr> gt_authQ := tl (gt_authQ g) \<rparr>)} \<Longrightarrow> gw_chans_ok h"
  by (auto simp: gw_chans_def gw_chans_ok_def chan_ok_def)

lemma ConnectHandler_chans_ok: "gw_chans_ok g \<Longrightarrow> gw_chans_ok (fst (ConnectHandler_Handle E ipt c g))"
  using ConnectHandler_chans[of E ipt c g] by (auto simp: gw_chans_ok_def gw_chans_def chan_ok_send)

lemma AuthHandler_chans_ok: "gw_chans_ok g \<Longrightarrow> gw_chans_ok (fst (AuthHandler_Handle E ipt f c g))"
  using AuthHandler_chans[of E ipt f c g] by (auto simp: gw_chans_ok_def gw_chans_def chan_ok_send)

lemma HandleWS_open_state: "fst (HandleWS_open E ipt c g) = fst (ConnectHandler_Handle E ipt c g)"
  by (simp add: HandleWS_open_def split: prod.splits option.splits go.splits)

lemma gw_chans_close [simp]: "gw_chans (deferred_close c g) = gw_chans g" "gw_chans_ok (deferred_close c g) = gw_chans_ok g"
  by (simp_all add: gw_chans_def gw_chans_ok_def)

lemma gw_open_state:
  "gy_gw (gw_open E ipt y) \<in> {fst (ConnectHandler_Handle E ipt (gy_next y) (gy_gw y)),
     deferred_close (gy_next y) (fst (ConnectHandler_Handle E ipt (gy_next y) (gy_gw y)))}"
  by (simp add: gw_open_def Let_def HandleWS_open_state[symmetric] split: prod.splits option.splits go.splits)

lemma gw_open_chans_ok: "gw_chans_ok (gy_gw y) \<Longrightarrow> gw_chans_ok (gy_gw (gw_open E ipt y))"
  using gw_open_state[of E ipt y] ConnectHandler_chans_ok by fastforce

lemma HandleWS_message_chans_ok:
  assumes "gw_chans_ok g"
  shows "gw_chans_ok (fst (HandleWS_message E ipt c p data g))"
proof -
  obtain msg own where "fst (HandleWS_message E ipt c p data g)
     \<in> {g, fst (AuthHandler_Handle E ipt msg c g), fst (DataHandler_Handle E own g), fst (CAckHandler_Handle E own g)}"
    using HandleWS_message_state by blast
  then show ?thesis
    by (elim insertE emptyE)
      (simp_all add: assms AuthHandler_chans_ok gw_chans_cong[OF DataHandler_chans] gw_chans_cong[OF CAckHandler_chans])
qed

lemma HandleWS_gone_chans_ok: "gw_chans_ok g \<Longrightarrow> gw_chans_ok (HandleWS_gone E p g)"
  by (simp add: HandleWS_gone_def Let_def gw_chans_ok_def chan_ok_send)

lemma RelayMsg_chans_ok: "gw_chans_ok g \<Longrightarrow> gw_chans_ok (fst (RelayMsg E d cid g))"
  by (simp add: RelayMsg_def gw_chans_ok_def chan_ok_send split: go.splits)

lemma gw_step_message_state:
  "gy_gw (gw_step E (GMessage ipt c d) y)
   \<in> {gy_gw y} \<union> {fst (HandleWS_message E ipt c p d (gy_gw y)) | p. True}
     \<union> {deferred_close c (fst (HandleWS_message E ipt c p d (gy_gw y))) | p. True}"
proof (cases "map_of (gy_readers y) c")
  case (Some p)
  obtain g1 r where "HandleWS_message E ipt c p d (gy_gw y) = (g1, r)" by fastforce
  with Some show ?thesis by (cases r) (auto split: go.splits intro: exI[of _ p])
qed simp

lemma gw_step_chans_ok:
  assumes "gw_chans_ok (gy_gw y)"
  shows "gw_chans_ok (gy_gw (gw_step E ev y))"
proof (cases ev)
  case (GMessage ipt c d)
  with gw_step_message_state[of E ipt c d y] assms HandleWS_message_chans_ok[OF assms] show ?thesis by auto
next
  case (GWriter ipt c ev)
  with assms show ?thesis
    using gw_chans_cong[OF ping_step_chans[of E ipt c _ ev "gy_gw y"]] by (auto split: option.splits prod.splits) (metis fst_conv)
next
  case (GRelayLoop ipt)
  then show ?thesis using gw_chans_ok_tl(1)[OF assms LoopRelayData_chans] by simp
next
  case (GConnectLoop ipt)
  then show ?thesis using gw_chans_ok_tl(2)[OF assms ConnectHandler_Run_chans] by simp
next
  case (GAuthLoop ipt)
  then show ?thesis using gw_chans_ok_tl(3)[OF assms AuthHandler_Run_chans] by simp
qed (use assms in \<open>simp_all add: gw_open_chans_ok HandleWS_gone_chans_ok RelayMsg_chans_ok
      gw_chans_ok_def[of "gateway.gt_conn_update _ _"] gw_chans_okD split: option.splits\<close>)

lemma gw_run_chans_ok: "gw_chans_ok (gy_gw y) \<Longrightarrow> gw_chans_ok (gy_gw (gw_run E evs y))"
  by (induction evs arbitrary: y) (simp_all add: gw_step_chans_ok)

text \<open>A relay loop that has ended stays ended, and its channel is never read again.\<close>

definition relay_dead :: "relay_msg list \<Rightarrow> ('r, 'k) gateway \<Rightarrow> bool" where
  "relay_dead q g \<longleftrightarrow> \<not> gt_relayLoop g \<and> prefix q (gt_relayQ g)"

named_theorems gw_flag \<open>operations that leave the flag of the relay loop alone\<close>

lemma send_or_drop_flag [gw_flag]: "gt_relayLoop (fst (send_or_drop E o1 key f ws g)) = gt_relayLoop g"
  by (simp add: send_or_drop_def close_ws_def Let_def split: go.splits prod.splits option.splits)

lemma connect_one_flag [gw_flag]: "gt_relayLoop (fst (connect_one E ipt f g)) = gt_relayLoop g"
  by (simp add: connect_one_def Let_def gw_flag split: go.splits)

lemma auth_one_flag [gw_flag]: "gt_relayLoop (fst (auth_one E ipt msg g)) = gt_relayLoop g"
  by (simp add: auth_one_def Let_def gw_flag split: option.splits)

lemma ConnectHandler_Run_flag [gw_flag]: "gt_relayLoop (ConnectHandler_Run E ipt g) = gt_relayLoop g"
  using connect_one_flag[of E ipt "hd (gt_connectQ g)" "g\<lparr> gt_connectQ := tl (gt_connectQ g) \<rparr>"]
  by (auto simp: ConnectHandler_Run_def split: list.splits prod.splits go.splits)

lemma AuthHandler_Run_flag [gw_flag]: "gt_relayLoop (AuthHandler_Run E ipt g) = gt_relayLoop g"
  using auth_one_flag[of E ipt "hd (gt_authQ g)" "g\<lparr> gt_authQ := tl (gt_authQ g) \<rparr>"]
  by (auto simp: AuthHandler_Run_def split: list.splits prod.splits go.splits)

lemma draw_id_flag: "draw_id E ipt g = Some (sid, g0) \<Longrightarrow> gt_relayLoop g0 = gt_relayLoop g"
  by (auto simp: draw_id_def split: if_splits option.splits prod.splits)

lemma ConnectHandler_flag [gw_flag]: "gt_relayLoop (fst (ConnectHandler_Handle E ipt c g)) = gt_relayLoop g"
  by (cases "draw_id E ipt g")
    (auto simp: ConnectHandler_Handle_def Let_def draw_id_flag split: prod.splits go.splits)

lemma AuthHandler_flag [gw_flag]: "gt_relayLoop (fst (AuthHandler_Handle E ipt f c g)) = gt_relayLoop g"
  by (simp add: AuthHandler_Handle_def Let_def split: prod.splits go.splits option.splits)

lemma to_broker_flag [gw_flag]: "gt_relayLoop (fst (to_broker E sel t f g)) = gt_relayLoop g"
  by (simp add: to_broker_def split: option.splits go.splits prod.splits)

lemma DataHandler_flag [gw_flag]: "gt_relayLoop (fst (DataHandler_Handle E f g)) = gt_relayLoop g"
  by (simp add: DataHandler_Handle_def gw_flag split: go.splits)

lemma CAckHandler_flag [gw_flag]: "gt_relayLoop (fst (CAckHandler_Handle E f g)) = gt_relayLoop g"
  by (simp add: CAckHandler_Handle_def gw_flag)

lemma ping_step_flag [gw_flag]: "gt_relayLoop (fst (ping_step E ipt c p ev g)) = gt_relayLoop g"
  by (cases ev) (simp_all add: ping_step_def ping_exit_def Let_def split: prod.splits)

lemma HandleWS_message_flag [gw_flag]: "gt_relayLoop (fst (HandleWS_message E ipt c p data g)) = gt_relayLoop g"
proof -
  obtain msg own where "fst (HandleWS_message E ipt c p data g)
     \<in> {g, fst (AuthHandler_Handle E ipt msg c g), fst (DataHandler_Handle E own g), fst (CAckHandler_Handle E own g)}"
    using HandleWS_message_state by blast
  then show ?thesis by (elim insertE emptyE) (simp_all add: gw_flag)
qed

text \<open>What sends to other channels only.\<close>

lemma ConnectHandler_relayQ: "gt_relayQ (fst (ConnectHandler_Handle E ipt c g)) = gt_relayQ g"
  using ConnectHandler_chans[of E ipt c g] by (auto simp: gw_chans_def)

lemma AuthHandler_relayQ: "gt_relayQ (fst (AuthHandler_Handle E ipt f c g)) = gt_relayQ g"
  using AuthHandler_chans[of E ipt f c g] by (auto simp: gw_chans_def)

lemma gw_chans_relayQ: "gw_chans g = gw_chans h \<Longrightarrow> gt_relayQ g = gt_relayQ h"
  by (simp add: gw_chans_def)

lemma HandleWS_message_relayQ: "gt_relayQ (fst (HandleWS_message E ipt c p data g)) = gt_relayQ g"
proof -
  obtain msg own where "fst (HandleWS_message E ipt c p data g)
     \<in> {g, fst (AuthHandler_Handle E ipt msg c g), fst (DataHandler_Handle E own g), fst (CAckHandler_Handle E own g)}"
    using HandleWS_message_state by blast
  then show ?thesis
    by (elim insertE emptyE)
      (simp_all add: AuthHandler_relayQ gw_chans_relayQ[OF DataHandler_chans] gw_chans_relayQ[OF CAckHandler_chans])
qed

lemma loops_relayQ:
  "gt_relayQ (ConnectHandler_Run E ipt g) = gt_relayQ g" "gt_relayQ (AuthHandler_Run E ipt g) = gt_relayQ g"
  using ConnectHandler_Run_chans[of E ipt g] AuthHandler_Run_chans[of E ipt g] by (auto simp: gw_chans_def)

lemma gw_open_relay:
  "gt_relayQ (gy_gw (gw_open E ipt y)) = gt_relayQ (gy_gw y)"
  "gt_relayLoop (gy_gw (gw_open E ipt y)) = gt_relayLoop (gy_gw y)"
  using gw_open_state[of E ipt y] by (auto simp: gw_flag ConnectHandler_relayQ)

lemma gw_step_dead:
  assumes "relay_dead q (gy_gw y)"
  shows "relay_dead q (gy_gw (gw_step E ev y))"
proof (cases ev)
  case (GMessage ipt c d)
  with gw_step_message_state[of E ipt c d y] assms show ?thesis
    by (auto simp: relay_dead_def gw_flag HandleWS_message_relayQ)
next
  case (GWriter ipt c ev)
  with assms show ?thesis
    using ping_step_flag[of E ipt c _ ev "gy_gw y"] gw_chans_relayQ[OF ping_step_chans[of E ipt c _ ev "gy_gw y"]]
    by (auto simp: relay_dead_def split: option.splits prod.splits) (metis fst_conv)+
next
  case (GRelay d cid)
  with assms show ?thesis by (auto simp: relay_dead_def RelayMsg_def split: go.splits)
qed (use assms in \<open>auto simp: relay_dead_def gw_open_relay gw_flag loops_relayQ HandleWS_gone_def
      Let_def LoopRelayData_def split: option.splits\<close>)

lemma gw_run_dead: "relay_dead q (gy_gw y) \<Longrightarrow> relay_dead q (gy_gw (gw_run E evs y))"
  by (induction evs arbitrary: y) (simp_all add: gw_step_dead)

end
