(* ===== verification/GatewayProps.thy ===== *)
theory GatewayProps
  imports GatewaySteps ConnProps
begin

section \<open>What holds of a gateway\<close>

text \<open>
  The connections and the channels of a gateway after any events; what a login binds and what it looks
  at; where a relayed frame goes, and what ends the relay loop.
\<close>

subsection \<open>A gateway to try things on\<close>

definition demo_store :: "unit redis" where
  "demo_store = \<lparr> rd_Run = (\<lambda>_ r. (r, Ok (LInt 0))), rd_Publish = (\<lambda>_ _ r. (r, Ok 0)), rd_Scan = (\<lambda>_ _. Ok []),
     rd_XAdd = (\<lambda>_ _ _ r. (r, Ok ''1-0'')) \<rparr>"

definition demo_oc :: online_config where
  "demo_oc = \<lparr> oc_NodeID = ''n'', oc_TTL = 100 * second, oc_ChannelName = ''c'', oc_SnowflakeNode = 1, oc_UseClusterTag = True,
     oc_MaxSessions = 0, oc_UseJSONValue = False, oc_Secret = '''', oc_UseEXAT = False, oc_UnauthTTL = 10 * second,
     oc_UserIndexTTL = 0 \<rparr>"

definition demo_auth :: AuthPayload where
  "demo_auth = \<lparr> ap_Type = ''auth'', ap_Token = ''forged'', ap_TokenHash = '''', ap_TS = 0, ap_Nonce = '''', ap_UserID = ''alice'',
     ap_DeviceID = '''', ap_Scope = [], ap_Sig = '''' \<rparr>"

definition demo_env :: "(unit, unit) gw_env" where
  "demo_env = \<lparr> gw_W = demo_ws, gw_Ping = (\<lambda>_. None), gw_R = demo_store, gw_oc = demo_oc,
     gw_kafka = \<lparr> ac_Brokers = [], ac_GroupID = '''', ac_MessageConfigs = [], ac_AutoCreateTopicsOnStart = False \<rparr>,
     gw_marshal = (\<lambda>_. Ok ''{}''), gw_parse = (\<lambda>_. Error ''bad''), gw_decode = (\<lambda>_. Ok demo_auth), gw_handler = None \<rparr>"

text \<open>Two sockets with a session each, before any login.\<close>

definition demo_pair :: conn_manager where
  "demo_pair = cm_run demo_ws [OpAddUnauth 0 0 ''1'' (Some 1), OpAddUnauth 3 0 ''2'' (Some 2)] (NewConnManager ''gw'')"

definition demo_gw :: "conn_manager \<Rightarrow> relay_msg list \<Rightarrow> (unit, unit) gateway" where
  "demo_gw m q = (gy_gw (gw_start ''gw'' () () undefined))\<lparr> gt_conn := m, gt_relayQ := q \<rparr>"

subsection \<open>A login, and a frame for its session\<close>

lemma BindUser_free:
  assumes "sid \<noteq> ''''" "user \<noteq> ''''" "map_of (cm_bySnow m) sid = Some p" "wc_Conn (cm_heap m p) = Some c"
    "mc_MaxPerUser (cm_conf m) \<le> 0" "cm_inv m"
  shows "ConnManager_BindUser now o1 o2 sid user m
    = (conns_default user (Some c) ((unbind user p m)
        \<lparr> cm_byUser := byUser_insert user sid p (cm_byUser (unbind user p m)),
          cm_heap := (cm_heap m)(p := bound_WsConn now user (cm_conf m) (cm_heap m p)) \<rparr>), Ok ())"
  using assms cm_invD(6)[OF assms(6,3)]
  by (simp add: ConnManager_BindUser_def Let_def unbind_def bound_WsConn_def entry_ok_def)

text \<open>What a login does to the gateway, whatever socket it came from.\<close>

lemma AuthHandler_login:
  assumes "ExtractAuthPayload (gw_decode E) (GetPayload f) = Ok ap" "fr_ConnId f \<noteq> ''''"
    and "Authorize (gw_R E) (gw_oc E) (gi_t1 ipt) (ap_UserID ap) (fr_SessionId f) (gt_redis g) = (r1, Ok (b, e))"
    and "e = None \<or> map_option snd e = Some (snd ErrorRecordIsExist)"
    and "ConnManager_BindUser (gi_t2 ipt) (gi_o1 ipt) (gi_o2 ipt) (fr_SessionId f) (ap_UserID ap) (gt_conn g) = (m1, Ok ())"
    and "\<not> chan_full (gt_authQ g)"
  shows "\<exists>ack. AuthHandler_Handle E ipt f c g
    = (g\<lparr> gt_redis := r1, gt_conn := m1, gt_authQ := gt_authQ g @ [ack] \<rparr>, Some (Ok ()))"
proof -
  have "GetPayload f \<noteq> None" using assms(1) by (cases "GetPayload f") (simp_all add: ExtractAuthPayload_def)
  then obtain a where "BuildAuthAck (gi_t3 ipt div millisecond) f = Ok a" by (auto simp: BuildAuthAck_def Let_def)
  with assms show ?thesis
    by (auto simp: AuthHandler_Handle_def Let_def split: option.splits)
qed

lemma send_or_drop_ok:
  assumes "gw_marshal E f = Ok d" "ws_WriteMessage (gw_W E) c d = None"
  shows "send_or_drop E o1 key f (Some c) g = (g\<lparr> gt_written := gt_written g @ [(c, d)] \<rparr>, Ok ())"
  using assms by (simp add: send_or_drop_def WriteJSONWithDeadline_def)

text \<open>C6: a login binds the session its frame names, whatever socket the frame came from and whatever
  the answer of Redis (no such session, or one already bound): from then on that session's socket, and
  no other, gets the user's frames for the session, once each, and no other user has it.\<close>

theorem gateway_login_routes:
  assumes "ExtractAuthPayload (gw_decode E) (GetPayload f) = Ok ap" and "fr_ConnId f \<noteq> ''''"
    and "Authorize (gw_R E) (gw_oc E) (gi_t1 ipt) (ap_UserID ap) (fr_SessionId f) (gt_redis g) = (r1, Ok (b, e))"
    and "e = None \<or> map_option snd e = Some (snd ErrorRecordIsExist)"
    and "cm_inv (gt_conn g)" and "mc_MaxPerUser (cm_conf (gt_conn g)) \<le> 0" and "\<not> chan_full (gt_authQ g)"
    and "map_of (cm_bySnow (gt_conn g)) (fr_SessionId f) = Some p" and "wc_Conn (cm_heap (gt_conn g) p) = Some c2"
    and "fr_SessionId f \<noteq> ''''" and "ap_UserID ap \<noteq> ''''"
    and "g' = fst (AuthHandler_Handle E ipt f c g)"
    and "gw_marshal E f2 = Ok d" and "ws_WriteMessage (gw_W E) c2 d = None" and "fr_To f2 = ap_UserID ap"
  shows "relay_one E ipt2 \<lparr> rm_Frame = f2, rm_ConnectId = fr_SessionId f \<rparr> g'
      = (g'\<lparr> gt_written := gt_written g' @ [(c2, d)] \<rparr>, Ok ())
    \<and> (\<forall>o1 v. v \<noteq> ap_UserID ap \<longrightarrow> ConnManager_Get o1 v (fr_SessionId f) (gt_conn g') = None)"
proof -
  let ?u = "ap_UserID ap" and ?s = "fr_SessionId f" and ?m = "gt_conn g"
  obtain m1 where b: "ConnManager_BindUser (gi_t2 ipt) (gi_o1 ipt) (gi_o2 ipt) ?s ?u ?m = (m1, Ok ())"
    using BindUser_free[OF assms(10,11,8,9,6,5)] by blast
  from AuthHandler_login[OF assms(1-4) b assms(7), of c] assms(12) have g': "gt_conn g' = m1" by force
  have k: "bind_keeps ?s ?u ?m" using assms(6) by (simp add: bind_keeps_def)
  have "ConnManager_Get o3 ?u ?s m1 = Some c2 \<and> (\<forall>v. v \<noteq> ?u \<longrightarrow> ConnManager_Get o3 v ?s m1 = None)" for o3
    using BindUser_Get[OF assms(5) k b, of o3] assms(8,9) by auto
  then show ?thesis
    using assms(10,13-15) by (simp_all add: relay_one_def Let_def g' send_or_drop_ok)
qed

definition demo_ipt0 :: gw_inputs where
  "demo_ipt0 = \<lparr> gi_clk_id = [], gi_t1 = 7, gi_t2 = 8, gi_t3 = 9, gi_pick = 0, gi_o1 = [], gi_o2 = [], gi_o3 = (\<lambda>_. []) \<rparr>"

text \<open>A login that names session 1.\<close>

definition demo_login_frame :: MessageFrameData where
  "demo_login_frame = zero_frame\<lparr> fr_Type := FT_AUTH, fr_ConnId := ''2'', fr_SessionId := ''1'',
     fr_Body := Payload (plain_msg (zero_head\<lparr> ph_CustomElem :=
       Some \<lparr> pbce_Data = Some [], pbce_Description = '''', pbce_Extension = '''' \<rparr> \<rparr>)) \<rparr>"

definition demo_to_alice :: MessageFrameData where
  "demo_to_alice = zero_frame\<lparr> fr_Type := FT_DELIVER, fr_To := ''alice'' \<rparr>"

lemma demo_pair_reach: "cm_reach demo_ws ManagerConf_zero ''gw'' demo_pair"
  unfolding demo_pair_def NewConnManager_def by (rule cm_reach_run[OF cm_reach_new]) code_simp

lemma demo_pair_facts:
  "cm_inv demo_pair" "mc_MaxPerUser (cm_conf demo_pair) \<le> 0"
  "map_of (cm_bySnow demo_pair) ''1'' = Some 0" "wc_Conn (cm_heap demo_pair 0) = Some 1"
  "map_of (cm_bySnow demo_pair) ''2'' = Some 1" "wc_Conn (cm_heap demo_pair 1) = Some 2"
proof -
  show "cm_inv demo_pair"
    using cm_reach_inv[OF demo_pair_reach] by (simp add: never_panics_def ManagerConf_zero_def)
qed (code_simp+)

lemma demo_login_facts:
  "ExtractAuthPayload (gw_decode demo_env) (GetPayload demo_login_frame) = Ok demo_auth"
  "Authorize (gw_R demo_env) (gw_oc demo_env) 7 ''alice'' ''1'' () = ((), Ok (False, None))"
  by (simp_all add: ExtractAuthPayload_def GetPayload_def demo_login_frame_def plain_msg_def demo_env_def demo_store_def
      demo_oc_def Authorize_def reply_Int64_def second_def Let_def)

lemma demo_sel:
  "fr_SessionId demo_login_frame = ''1''" "fr_ConnId demo_login_frame \<noteq> ''''" "ap_UserID demo_auth = ''alice''"
  "fr_To demo_to_alice = ap_UserID demo_auth"
  "gt_conn (demo_gw m q) = m" "gt_authQ (demo_gw m q) = []" "gt_written (demo_gw m q) = []" "gt_redis (demo_gw m q) = ()"
  "gw_marshal demo_env demo_to_alice = Ok ''{}''" "ws_WriteMessage (gw_W demo_env) c ''{}'' = None" "gi_t1 demo_ipt0 = 7"
  by (simp_all add: demo_login_frame_def demo_auth_def demo_to_alice_def demo_gw_def gw_start_def demo_env_def demo_ws_def
      demo_ipt0_def)

lemma demo_written: "gt_written (fst (AuthHandler_Handle demo_env demo_ipt0 demo_login_frame c (demo_gw demo_pair []))) = []"
  by (simp add: AuthHandler_Handle_def demo_login_facts Let_def demo_sel split: go.splits prod.splits option.splits)

theorem gateway_login_routes_witness:
  "relay_one demo_env demo_ipt0 \<lparr> rm_Frame = demo_to_alice, rm_ConnectId = ''1'' \<rparr>
      (fst (AuthHandler_Handle demo_env demo_ipt0 demo_login_frame 2 (demo_gw demo_pair [])))
    = ((fst (AuthHandler_Handle demo_env demo_ipt0 demo_login_frame 2 (demo_gw demo_pair [])))
        \<lparr> gt_written := [(1, ''{}'')] \<rparr>, Ok ())"
  using gateway_login_routes[of demo_env demo_login_frame demo_auth demo_ipt0 "demo_gw demo_pair []" "()" False None 0 1
      _ 2 demo_to_alice "''{}''" demo_ipt0] demo_login_facts demo_pair_facts demo_sel demo_written
  by (simp add: chan_full_def)

text \<open>A login looks at no field of the authentication but the user id: the token, its hash, the nonce
  and the signature may be anything.\<close>

theorem gateway_login_ignores_token:
  "AuthHandler_Handle (E\<lparr> gw_decode := (\<lambda>j. case gw_decode E j of
        Ok ap \<Rightarrow> Ok (ap\<lparr> ap_Type := t1, ap_Token := t2, ap_TokenHash := t3, ap_TS := t4, ap_Nonce := t5, ap_DeviceID := t6,
                        ap_Scope := t7, ap_Sig := t8 \<rparr>)
      | x \<Rightarrow> x) \<rparr>) ipt f c g
   = AuthHandler_Handle E ipt f c g"
proof -
  let ?E = "E\<lparr> gw_decode := (\<lambda>j. case gw_decode E j of
        Ok ap \<Rightarrow> Ok (ap\<lparr> ap_Type := t1, ap_Token := t2, ap_TokenHash := t3, ap_TS := t4, ap_Nonce := t5, ap_DeviceID := t6,
                        ap_Scope := t7, ap_Sig := t8 \<rparr>)
      | x \<Rightarrow> x) \<rparr>"
  have x: "ExtractAuthPayload (gw_decode ?E) (GetPayload f)
     = (case ExtractAuthPayload (gw_decode E) (GetPayload f) of
          Ok ap \<Rightarrow> Ok (ap\<lparr> ap_Type := t1, ap_Token := t2, ap_TokenHash := t3, ap_TS := t4, ap_Nonce := t5, ap_DeviceID := t6,
                        ap_Scope := t7, ap_Sig := t8 \<rparr>)
        | x \<Rightarrow> x)"
    by (simp add: ExtractAuthPayload_def split: option.splits go.splits)
  show ?thesis
    unfolding AuthHandler_Handle_def x
    by (cases "ExtractAuthPayload (gw_decode E) (GetPayload f)") (simp_all add: Let_def split: prod.splits go.splits)
qed

subsection \<open>Frames for all connections of a user\<close>

lemma reorder_single [simp]: "reorder o1 [x] = [x]"
proof -
  have "length (reorder o1 [x]) = 1" "set (reorder o1 [x]) = {x}" by simp_all
  then show ?thesis by (cases "reorder o1 [x]") auto
qed

text \<open>The first login of a user makes its socket the user's legacy entry too, and a frame relayed to
  the user without a session goes to that socket twice.\<close>

theorem gateway_first_login_doubles:
  assumes "ExtractAuthPayload (gw_decode E) (GetPayload f) = Ok ap" and "fr_ConnId f \<noteq> ''''"
    and "Authorize (gw_R E) (gw_oc E) (gi_t1 ipt) (ap_UserID ap) (fr_SessionId f) (gt_redis g) = (r1, Ok (b, e))"
    and "e = None \<or> map_option snd e = Some (snd ErrorRecordIsExist)"
    and "cm_inv (gt_conn g)" and "mc_MaxPerUser (cm_conf (gt_conn g)) \<le> 0" and "\<not> chan_full (gt_authQ g)"
    and "map_of (cm_bySnow (gt_conn g)) (fr_SessionId f) = Some p" and "wc_Conn (cm_heap (gt_conn g) p) = Some c2"
    and "fr_SessionId f \<noteq> ''''" and "ap_UserID ap \<noteq> ''''"
    and "user_conns (gt_conn g) (ap_UserID ap) = []" and "map_of (cm_conns (gt_conn g)) (ap_UserID ap) = None"
    and "g' = fst (AuthHandler_Handle E ipt f c g)"
    and "gw_marshal E f2 = Ok d" and "ws_WriteMessage (gw_W E) c2 d = None" and "fr_To f2 = ap_UserID ap"
  shows "relay_one E ipt2 \<lparr> rm_Frame = f2, rm_ConnectId = '''' \<rparr> g'
      = (g'\<lparr> gt_written := gt_written g' @ [(c2, d), (c2, d)] \<rparr>, Ok ())"
proof -
  let ?u = "ap_UserID ap" and ?s = "fr_SessionId f" and ?m = "gt_conn g"
  note bu = BindUser_free[OF assms(10,11,8,9,6,5)]
  define m1 where "m1 = fst (ConnManager_BindUser (gi_t2 ipt) (gi_o1 ipt) (gi_o2 ipt) ?s ?u ?m)"
  have b: "ConnManager_BindUser (gi_t2 ipt) (gi_o1 ipt) (gi_o2 ipt) ?s ?u ?m = (m1, Ok ())"
    by (simp add: m1_def bu)
  from AuthHandler_login[OF assms(1-4) b assms(7), of c] assms(14) have g': "gt_conn g' = m1" by force
  have ub: "cm_conns (unbind ?u p ?m) = cm_conns ?m" "inner_map (cm_byUser (unbind ?u p ?m)) ?u = []"
    using assms(12) by (auto simp: unbind_def Let_def user_conns_def)
  have "map_of (cm_conns m1) ?u = Some (Some c2)" "user_conns m1 ?u = [(?s, p)]" "wc_Conn (cm_heap m1 p) = Some c2"
    using assms(9,13) by (auto simp: m1_def bu conns_default_def ub user_conns_def bound_WsConn_def)
  then have "ConnManager_GetAll o1 ?u m1 = [c2, c2]" for o1
    by (simp add: ConnManager_GetAll_def List.map_filter_def)
  with assms(15-17) show ?thesis
    by (simp add: relay_one_def Let_def g' send_or_drop_ok)
qed

theorem gateway_first_login_doubles_witness:
  "relay_one demo_env demo_ipt0 \<lparr> rm_Frame = demo_to_alice, rm_ConnectId = '''' \<rparr>
      (fst (AuthHandler_Handle demo_env demo_ipt0 demo_login_frame 1 (demo_gw demo_pair [])))
    = ((fst (AuthHandler_Handle demo_env demo_ipt0 demo_login_frame 1 (demo_gw demo_pair [])))
        \<lparr> gt_written := [(1, ''{}''), (1, ''{}'')] \<rparr>, Ok ())"
proof -
  have u: "user_conns demo_pair ''alice'' = []" "map_of (cm_conns demo_pair) ''alice'' = None" by code_simp+
  show ?thesis
    using gateway_first_login_doubles[of demo_env demo_login_frame demo_auth demo_ipt0 "demo_gw demo_pair []" "()" False None 0 1
        _ 1 demo_to_alice "''{}''" demo_ipt0] demo_login_facts demo_pair_facts demo_sel demo_written u
    by (simp add: chan_full_def)
qed

subsection \<open>Whatever happens on a gateway\<close>

text \<open>C2: after any events on a fresh gateway the indexes of its connections agree, and a socket that is registered
  is one the gateway has opened and the manager has not closed, registered under one session with one record. (The
  sockets that the gateway closes by itself are not among those the manager knows of: a connection whose greeting
  could not be written stays, \<open>gateway_failed_greeting_stays\<close>.)\<close>

theorem gateway_connections_agree:
  assumes "y = gw_run E evs (gw_start gwID r k ids)"
  shows "cm_inv (gt_conn (gy_gw y))
    \<and> (\<forall>s p c. map_of (cm_bySnow (gt_conn (gy_gw y))) s = Some p \<longrightarrow> wc_Conn (cm_heap (gt_conn (gy_gw y)) p) = Some c \<longrightarrow>
         c < gy_next y \<and> c \<notin> set (cm_closed (gt_conn (gy_gw y)))
       \<and> (\<forall>s' p'. map_of (cm_bySnow (gt_conn (gy_gw y))) s' = Some p' \<longrightarrow>
            wc_Conn (cm_heap (gt_conn (gy_gw y)) p') = Some c \<longrightarrow> s' = s \<and> p' = p))"
proof -
  have w: "cm_within (gy_next y) (gt_conn (gy_gw y))" unfolding assms by (rule gw_run_within[OF gw_start_within])
  show ?thesis by (intro conjI allI impI cm_withinD(1)[OF w]) (use cm_within_socket[OF w] in blast)+
qed

text \<open>Two sockets, one after the other; the generator of the example counts from 0.\<close>

definition two_opens :: "gw_event list" where
  "two_opens = [GOpen (demo_ipt0\<lparr> gi_clk_id := [0] \<rparr>), GOpen (demo_ipt0\<lparr> gi_clk_id := [0] \<rparr>)]"

definition count_ids :: generator where
  "count_ids = \<lparr> gen_epochMS = 0, gen_nodeID = 0, gen_seq = 0, gen_lastTSMS = - 1 \<rparr>"

lemma two_opens_facts:
  "let m = gt_conn (gy_gw (gw_run demo_env two_opens (gw_start ''gw'' () () count_ids)))
   in map_of (cm_bySnow m) ''0'' = Some 0 \<and> wc_Conn (cm_heap m 0) = Some 0 \<and> map_of (cm_bySnow m) ''1'' = Some 1"
  by code_simp

theorem gateway_connections_agree_witness:
  "let y = gw_run demo_env two_opens (gw_start ''gw'' () () count_ids); m = gt_conn (gy_gw y)
   in wc_Conn (cm_heap m 0) = Some 0 \<and> 0 \<notin> set (cm_closed m) \<and> wc_Conn (cm_heap m 1) \<noteq> Some 0"
proof -
  define y where "y = gw_run demo_env two_opens (gw_start ''gw'' () () count_ids)"
  have f: "map_of (cm_bySnow (gt_conn (gy_gw y))) ''0'' = Some 0" "wc_Conn (cm_heap (gt_conn (gy_gw y)) 0) = Some 0"
    "map_of (cm_bySnow (gt_conn (gy_gw y))) ''1'' = Some 1"
    using two_opens_facts by (simp_all add: y_def Let_def)
  from gateway_connections_agree[OF y_def] f show ?thesis unfolding y_def[symmetric] Let_def by (metis zero_neq_one)
qed

text \<open>After any events on a fresh gateway none of its four channels holds more than 8192 values.\<close>

theorem gateway_channels_bounded:
  "gw_chans_ok (gy_gw (gw_run E evs (gw_start gwID r k ids)))"
  by (rule gw_run_chans_ok) (simp add: gw_start_def gw_chans_ok_def chan_ok_def)

text \<open>C38: a frame for a session that is not on the gateway ends the relay loop: the loop closes a nil
  socket. Whatever happens afterwards, no later frame of its channel is ever taken.\<close>

theorem gateway_unknown_session_ends_relay:
  assumes "gt_relayQ (gy_gw y) = msg # rest" and "0 < length (rm_ConnectId msg)"
    and "ConnManager_Get (gi_o1 ipt) (fr_To (rm_Frame msg)) (rm_ConnectId msg) (gt_conn (gy_gw y)) = None"
    and "gw_marshal E (rm_Frame msg) = Ok d" and "gt_relayLoop (gy_gw y)"
  shows "\<not> gt_relayLoop (gy_gw (gw_run E (GRelayLoop ipt # evs) y))
    \<and> prefix rest (gt_relayQ (gy_gw (gw_run E (GRelayLoop ipt # evs) y)))"
proof -
  have "LoopRelayData E ipt (gy_gw y) = (gy_gw y)\<lparr> gt_relayQ := rest, gt_relayLoop := False \<rparr>"
    using assms by (simp add: LoopRelayData_def relay_one_def Let_def send_or_drop_def WriteJSONWithDeadline_def close_ws_def)
  then have "relay_dead rest (gy_gw (gw_step E (GRelayLoop ipt) y))" by (simp add: relay_dead_def)
  from gw_run_dead[OF this, of E evs] show ?thesis by (simp add: relay_dead_def)
qed

definition demo_sys :: "(unit, unit) gw_sys" where
  "demo_sys = \<lparr> gy_gw = demo_gw demo_pair [\<lparr> rm_Frame = demo_to_alice, rm_ConnectId = ''9'' \<rparr>,
       \<lparr> rm_Frame = demo_to_alice, rm_ConnectId = ''1'' \<rparr>], gy_next = 3, gy_readers = [], gy_writers = [] \<rparr>"

theorem gateway_unknown_session_ends_relay_witness:
  "prefix [\<lparr> rm_Frame = demo_to_alice, rm_ConnectId = ''1'' \<rparr>]
     (gt_relayQ (gy_gw (gw_run demo_env [GRelayLoop demo_ipt0, GRelay ''x'' '''', GRelayLoop demo_ipt0] demo_sys)))"
proof -
  have "ConnManager_Get [] ''alice'' ''9'' demo_pair = None" by code_simp
  then show ?thesis
    using gateway_unknown_session_ends_relay[of demo_sys "\<lparr> rm_Frame = demo_to_alice, rm_ConnectId = ''9'' \<rparr>"
        "[\<lparr> rm_Frame = demo_to_alice, rm_ConnectId = ''1'' \<rparr>]" demo_ipt0 demo_env "''{}''" "[GRelay ''x'' '''', GRelayLoop demo_ipt0]"]
      demo_sel
    by (simp add: demo_sys_def demo_gw_def gw_start_def demo_ipt0_def)
qed

text \<open>When the greeting of a new socket cannot be written the socket is closed, but \<^verbatim>\<open>Remove\<close> is called with
  the connection id where it takes a user: the connection stays registered, with its closed socket.\<close>

theorem gateway_failed_greeting_stays:
  assumes "gt_connectLoop g" and "gt_connectQ g = f # rest" and "fr_ConnId f \<noteq> ''''"
    and "map_of (cm_bySnow (gt_conn g)) (fr_ConnId f) = Some p" and "wc_Conn (cm_heap (gt_conn g) p) = Some c"
    and "gw_marshal E f = Ok d" and "ws_WriteMessage (gw_W E) c d = Some e"
    and "map_of (cm_byUser (gt_conn g)) (fr_ConnId f) = None"
  shows "map_of (cm_bySnow (gt_conn (ConnectHandler_Run E ipt g))) (fr_ConnId f) = Some p
    \<and> wc_Conn (cm_heap (gt_conn (ConnectHandler_Run E ipt g)) p) = Some c
    \<and> c \<in> set (gt_closed (ConnectHandler_Run E ipt g))"
  using assms
  by (simp add: ConnectHandler_Run_def connect_one_def ConnManager_GetUnAuthClient_def Let_def send_or_drop_def
      WriteJSONWithDeadline_def close_ws_def ConnManager_Remove_def drop_user_def)

theorem gateway_failed_greeting_stays_witness:
  "let E = demo_env\<lparr> gw_W := demo_ws\<lparr> ws_WriteMessage := (\<lambda>_ _. Some ''reset'') \<rparr> \<rparr>;
       g = (demo_gw demo_pair [])\<lparr> gt_connectQ := [demo_to_alice\<lparr> fr_ConnId := ''2'' \<rparr>] \<rparr>
   in map_of (cm_bySnow (gt_conn (ConnectHandler_Run E demo_ipt0 g))) ''2'' = Some 1
      \<and> 2 \<in> set (gt_closed (ConnectHandler_Run E demo_ipt0 g))"
proof -
  have u: "map_of (cm_byUser demo_pair) ''2'' = None" by code_simp
  show ?thesis
    using gateway_failed_greeting_stays[of "(demo_gw demo_pair [])\<lparr> gt_connectQ := [demo_to_alice\<lparr> fr_ConnId := ''2'' \<rparr>] \<rparr>"
        "demo_to_alice\<lparr> fr_ConnId := ''2'' \<rparr>" "[]" 1 2 "demo_env\<lparr> gw_W := demo_ws\<lparr> ws_WriteMessage := (\<lambda>_ _. Some ''reset'') \<rparr> \<rparr>"
        "''{}''" "''reset''" demo_ipt0] demo_pair_facts u
    by (simp add: demo_sel) (simp add: demo_gw_def gw_start_def demo_env_def)
qed

end
