(* ===== verification/UserService.thy ===== *)
theory UserService
  imports MsgStore RedisWrites
begin

section \<open>Users and their sessions\<close>

text \<open>
  \<^verbatim>\<open>tools/security/jwt.go\<close>, \<^verbatim>\<open>module/user/model/\<close>, \<^verbatim>\<open>module/user/service/user.go\<close> and the reading of the
  credentials of a request: tokens are signed, a login replaces the session of the device in MongoDB and
  lists its token in Redis, a check accepts a token by its listed session or by its hash. The token
  library, the hash, MongoDB and Redis are parameters.
\<close>

subsection \<open>Tokens\<close>

text \<open>
  The token library: \<open>jl_Sign alg key claims\<close>, \<open>jl_Parse keyfunc t token\<close>, whose key function learns whether
  the method of the token is of the HMAC family and which gives whether the token is valid and the
  claims, if they are a map; \<open>jl_Sum256\<close> is the hash, in hexadecimal.
\<close>

record jwt_lib =
  jl_Sign :: "string \<Rightarrow> string \<Rightarrow> doc \<Rightarrow> string go"
  jl_Parse :: "(bool \<Rightarrow> string go) \<Rightarrow> time \<Rightarrow> string \<Rightarrow> (bool \<times> doc option) go"
  jl_Sum256 :: "string \<Rightarrow> string"

record jwt_options =
  jo_Secret :: string
  jo_Alg :: string
  jo_TTL :: duration

definition jwt_DefaultOptions :: "string \<Rightarrow> jwt_options" where
  "jwt_DefaultOptions secret = \<lparr> jo_Secret = secret, jo_Alg = ''HS256'', jo_TTL = 2 * 3600 * second \<rparr>"

definition HashToken :: "jwt_lib \<Rightarrow> string \<Rightarrow> string" where
  "HashToken J token = ''sha256:'' @ jl_Sum256 J token"

text \<open>
  Upper case as far as the comparison with ASCII words sees it: besides the ASCII letters only the dotless
  i and the long s have an ASCII upper case.
\<close>

definition upper_rune :: "nat \<Rightarrow> nat" where
  "upper_rune r = (if in_range 97 122 r then r - 32 else if r = 0x131 then 73 else if r = 0x17F then 83 else r)"

definition ToUpper :: "string \<Rightarrow> string" where
  "ToUpper s = concat (map (encode_rune \<circ> upper_rune \<circ> fst) (runes s))"

definition signingMethod :: "string \<Rightarrow> string go" where
  "signingMethod alg =
     (let a = ToUpper (TrimSpace alg) in
      if a \<in> {'''', ''HS256''} then Ok ''HS256''
      else if a = ''HS384'' then Ok ''HS384''
      else if a = ''HS512'' then Ok ''HS512''
      else Error (''unsupported alg: '' @ alg @ '' (use HS256/HS384/HS512)''))"

definition jwt_Generate ::
  "jwt_lib \<Rightarrow> jwt_options \<Rightarrow> string \<Rightarrow> string list \<Rightarrow> time \<Rightarrow> (string \<times> string \<times> time) go" where
  "jwt_Generate J opts userID scopes now =
     (case signingMethod (jo_Alg opts) of
        Error e \<Rightarrow> Error e | Panic e \<Rightarrow> Panic e
      | Ok mth \<Rightarrow>
          (let ttl = (if jo_TTL opts \<le> 0 then 2 * 3600 * second else jo_TTL opts); exp = now + ttl;
               claims = [(''sub'', MStr userID), (''iat'', MInt (unix now)), (''nbf'', MInt (unix now)), (''exp'', MInt (unix exp))]
                 @ omit_if (scopes = []) ''scope'' (MArr (map MStr scopes))
           in case jl_Sign J mth (jo_Secret opts) claims of
                Error e \<Rightarrow> Error e | Panic e \<Rightarrow> Panic e
              | Ok tok \<Rightarrow> Ok (tok, HashToken J tok, exp)))"

definition jwt_key :: "string \<Rightarrow> bool \<Rightarrow> string go" where
  "jwt_key secret hmac = (if hmac then Ok secret else Error ''unexpected alg'')"

definition jwt_Verify :: "jwt_lib \<Rightarrow> jwt_options \<Rightarrow> time \<Rightarrow> string \<Rightarrow> string \<Rightarrow> doc go" where
  "jwt_Verify J opts now token expectedHash =
     (case signingMethod (jo_Alg opts) of
        Error e \<Rightarrow> Error e | Panic e \<Rightarrow> Panic e
      | Ok _ \<Rightarrow>
          (case jl_Parse J (jwt_key (jo_Secret opts)) now token of
             Error e \<Rightarrow> Error e | Panic e \<Rightarrow> Panic e
           | Ok (valid, claims) \<Rightarrow>
               if \<not> valid then Error ''invalid token''
               else if expectedHash \<noteq> '''' \<and> HashToken J token \<noteq> expectedHash then Error ''access token hash mismatch''
               else (case claims of None \<Rightarrow> Error ''claims type mismatch'' | Some c \<Rightarrow> Ok c)))"

definition GetSubject :: "doc \<Rightarrow> string go" where
  "GetSubject claims = (case map_of claims ''sub'' of
       None \<Rightarrow> Ok '''' | Some (MStr s) \<Rightarrow> Ok s | _ \<Rightarrow> Error ''sub is invalid'')"

subsection \<open>Documents of users and sessions\<close>

record UserSession =
  ss_SessionID :: string
  ss_UserID :: string
  ss_TenantID :: string
  ss_DeviceType :: string
  ss_DeviceID :: string
  ss_AppVersion :: string
  ss_OS :: string
  ss_IP :: string
  ss_UserAgent :: string
  ss_AccessToken :: string
  ss_LoginTime :: time
  ss_LastActive :: time
  ss_ExpireTime :: time
  ss_ExpireAt :: time
  ss_LogoutTime :: "time option"
  ss_Status :: string
  ss_Reason :: string
  ss_AccessTokenHash :: string
  ss_RefreshTokenHash :: string
  ss_Scope :: "string list"
  ss_IsValid :: bool
  ss_RiskScore :: int
  ss_Ex :: string
  ss_CreateTime :: time
  ss_UpdateTime :: time

definition UserSession_zero :: UserSession where
  "UserSession_zero = \<lparr> ss_SessionID = '''', ss_UserID = '''', ss_TenantID = '''', ss_DeviceType = '''', ss_DeviceID = '''',
     ss_AppVersion = '''', ss_OS = '''', ss_IP = '''', ss_UserAgent = '''', ss_AccessToken = '''',
     ss_LoginTime = zero_time, ss_LastActive = zero_time, ss_ExpireTime = zero_time, ss_ExpireAt = zero_time, ss_LogoutTime = None,
     ss_Status = '''', ss_Reason = '''', ss_AccessTokenHash = '''', ss_RefreshTokenHash = '''', ss_Scope = [],
     ss_IsValid = False, ss_RiskScore = 0, ss_Ex = '''', ss_CreateTime = zero_time, ss_UpdateTime = zero_time \<rparr>"

definition bson_UserSession :: "UserSession \<Rightarrow> doc" where
  "bson_UserSession s = [(''session_id'', MStr (ss_SessionID s))]
     @ [(''user_id'', MStr (ss_UserID s))]
     @ omit_if (ss_TenantID s = '''') ''tenant_id'' (MStr (ss_TenantID s))
     @ [(''device_type'', MStr (ss_DeviceType s))]
     @ omit_if (ss_DeviceID s = '''') ''device_id'' (MStr (ss_DeviceID s))
     @ omit_if (ss_AppVersion s = '''') ''app_version'' (MStr (ss_AppVersion s))
     @ omit_if (ss_OS s = '''') ''os'' (MStr (ss_OS s))
     @ [(''ip'', MStr (ss_IP s))]
     @ omit_if (ss_UserAgent s = '''') ''user_agent'' (MStr (ss_UserAgent s))
     @ omit_if (ss_AccessToken s = '''') ''access_token'' (MStr (ss_AccessToken s))
     @ [(''login_time'', bson_time (ss_LoginTime s))]
     @ [(''last_active'', bson_time (ss_LastActive s))]
     @ [(''expire_time'', bson_time (ss_ExpireTime s))]
     @ [(''expire_at'', bson_time (ss_ExpireAt s))]
     @ opt_field ''logout_time'' bson_time (ss_LogoutTime s)
     @ [(''status'', MStr (ss_Status s))]
     @ [(''reason'', MStr (ss_Reason s))]
     @ [(''access_token_hash'', MStr (ss_AccessTokenHash s))]
     @ [(''refresh_token_hash'', MStr (ss_RefreshTokenHash s))]
     @ omit_if (ss_Scope s = []) ''scope'' (MArr (map MStr (ss_Scope s)))
     @ [(''is_valid'', MBool (ss_IsValid s))]
     @ omit_if (ss_RiskScore s = 0) ''risk_score'' (MInt (ss_RiskScore s))
     @ omit_if (ss_Ex s = '''') ''ex'' (MStr (ss_Ex s))
     @ [(''create_time'', bson_time (ss_CreateTime s))]
     @ [(''update_time'', bson_time (ss_UpdateTime s))]"

definition decode_UserSession :: "doc \<Rightarrow> UserSession go" where
  "decode_UserSession d =
     go_bind (decode_str d ''session_id'') (\<lambda>v1.
     go_bind (decode_str d ''user_id'') (\<lambda>v2.
     go_bind (decode_str d ''tenant_id'') (\<lambda>v3.
     go_bind (decode_str d ''device_type'') (\<lambda>v4.
     go_bind (decode_str d ''device_id'') (\<lambda>v5.
     go_bind (decode_str d ''app_version'') (\<lambda>v6.
     go_bind (decode_str d ''os'') (\<lambda>v7.
     go_bind (decode_str d ''ip'') (\<lambda>v8.
     go_bind (decode_str d ''user_agent'') (\<lambda>v9.
     go_bind (decode_str d ''access_token'') (\<lambda>v10.
     go_bind (decode_time d ''login_time'') (\<lambda>v11.
     go_bind (decode_time d ''last_active'') (\<lambda>v12.
     go_bind (decode_time d ''expire_time'') (\<lambda>v13.
     go_bind (decode_time d ''expire_at'') (\<lambda>v14.
     go_bind (decode_time_opt d ''logout_time'') (\<lambda>v15.
     go_bind (decode_str d ''status'') (\<lambda>v16.
     go_bind (decode_str d ''reason'') (\<lambda>v17.
     go_bind (decode_str d ''access_token_hash'') (\<lambda>v18.
     go_bind (decode_str d ''refresh_token_hash'') (\<lambda>v19.
     go_bind (decode_strs d ''scope'') (\<lambda>v20.
     go_bind (decode_bool d ''is_valid'') (\<lambda>v21.
     go_bind (decode_int64 d ''risk_score'') (\<lambda>v22.
     go_bind (decode_str d ''ex'') (\<lambda>v23.
     go_bind (decode_time d ''create_time'') (\<lambda>v24.
     go_bind (decode_time d ''update_time'') (\<lambda>v25.
       Ok \<lparr> ss_SessionID = v1, ss_UserID = v2, ss_TenantID = v3, ss_DeviceType = v4, ss_DeviceID = v5,
           ss_AppVersion = v6, ss_OS = v7, ss_IP = v8, ss_UserAgent = v9, ss_AccessToken = v10,
           ss_LoginTime = v11, ss_LastActive = v12, ss_ExpireTime = v13, ss_ExpireAt = v14, ss_LogoutTime = v15,
           ss_Status = v16, ss_Reason = v17, ss_AccessTokenHash = v18, ss_RefreshTokenHash = v19, ss_Scope = v20,
           ss_IsValid = v21, ss_RiskScore = v22, ss_Ex = v23, ss_CreateTime = v24, ss_UpdateTime = v25 \<rparr>)))))))))))))))))))))))))"

record User =
  us_UserID :: string
  us_TenantID :: string
  us_Nickname :: string
  us_FaceURL :: string
  us_Bio :: string
  us_AccountType :: int
  us_AppMangerLevel :: int
  us_Status :: int
  us_IsDeleted :: bool
  us_DeletedAt :: "time option"
  us_GlobalRecvMsgOpt :: int
  us_MuteUntil :: "time option"
  us_Language :: string
  us_Timezone :: string
  us_Phone :: string
  us_Email :: string
  us_PhoneVerified :: bool
  us_EmailVerified :: bool
  us_TwoFAEnabled :: bool
  us_LastLoginIP :: string
  us_LastLoginTime :: "time option"
  us_Presence :: string
  us_LastActive :: time
  us_CreateTime :: time
  us_UpdateTime :: time
  us_Ex :: string

definition decode_User :: "doc \<Rightarrow> User go" where
  "decode_User d =
     go_bind (decode_str d ''user_id'') (\<lambda>v1.
     go_bind (decode_str d ''tenant_id'') (\<lambda>v2.
     go_bind (decode_str d ''nickname'') (\<lambda>v3.
     go_bind (decode_str d ''face_url'') (\<lambda>v4.
     go_bind (decode_str d ''bio'') (\<lambda>v5.
     go_bind (decode_int32 d ''account_type'') (\<lambda>v6.
     go_bind (decode_int32 d ''app_manger_level'') (\<lambda>v7.
     go_bind (decode_int32 d ''status'') (\<lambda>v8.
     go_bind (decode_bool d ''is_deleted'') (\<lambda>v9.
     go_bind (decode_time_opt d ''deleted_at'') (\<lambda>v10.
     go_bind (decode_int32 d ''global_recv_msg_opt'') (\<lambda>v11.
     go_bind (decode_time_opt d ''mute_until'') (\<lambda>v12.
     go_bind (decode_str d ''language'') (\<lambda>v13.
     go_bind (decode_str d ''timezone'') (\<lambda>v14.
     go_bind (decode_str d ''phone'') (\<lambda>v15.
     go_bind (decode_str d ''email'') (\<lambda>v16.
     go_bind (decode_bool d ''phone_verified'') (\<lambda>v17.
     go_bind (decode_bool d ''email_verified'') (\<lambda>v18.
     go_bind (decode_bool d ''two_fa_enabled'') (\<lambda>v19.
     go_bind (decode_str d ''last_login_ip'') (\<lambda>v20.
     go_bind (decode_time_opt d ''last_login_time'') (\<lambda>v21.
     go_bind (decode_str d ''presence'') (\<lambda>v22.
     go_bind (decode_time d ''last_active'') (\<lambda>v23.
     go_bind (decode_time d ''create_time'') (\<lambda>v24.
     go_bind (decode_time d ''update_time'') (\<lambda>v25.
     go_bind (decode_str d ''ex'') (\<lambda>v26.
       Ok \<lparr> us_UserID = v1, us_TenantID = v2, us_Nickname = v3, us_FaceURL = v4, us_Bio = v5,
           us_AccountType = v6, us_AppMangerLevel = v7, us_Status = v8, us_IsDeleted = v9, us_DeletedAt = v10,
           us_GlobalRecvMsgOpt = v11, us_MuteUntil = v12, us_Language = v13, us_Timezone = v14, us_Phone = v15,
           us_Email = v16, us_PhoneVerified = v17, us_EmailVerified = v18, us_TwoFAEnabled = v19, us_LastLoginIP = v20,
           us_LastLoginTime = v21, us_Presence = v22, us_LastActive = v23, us_CreateTime = v24, us_UpdateTime = v25,
           us_Ex = v26 \<rparr>))))))))))))))))))))))))))"

subsection \<open>The service\<close>

text \<open>
  The servers and libraries of the service. \<open>ue_ReplaceOne coll filter replacement upsert\<close> is the driver's
  call; with an error it gives no result. \<open>ue_secret\<close> is \<^verbatim>\<open>GetJwtSecret\<close>.
\<close>

record ('s, 'r) user_env =
  ue_M :: "'s mongo"
  ue_ReplaceOne :: "string \<Rightarrow> mfilter \<Rightarrow> doc \<Rightarrow> bool \<Rightarrow> 's \<Rightarrow> 's \<times> update_result go"
  ue_R :: "'r redis"
  ue_J :: jwt_lib
  ue_secret :: string

record ('s, 'r) user_state =
  ud_mongo :: 's
  ud_redis :: 'r

definition user_session_coll :: string where
  "user_session_coll = ''user_session''"

definition user_session_log_coll :: string where
  "user_session_log_coll = ''user_session_log''"

definition UserSessionKey :: "string \<Rightarrow> string" where
  "UserSessionKey hash = ''user_session:token_hash:'' @ hash"

definition ErrTokenExpired :: string where
  "ErrTokenExpired = ''1501 TokenExpiredError''"

text \<open>\<^verbatim>\<open>FindOne(...).Decode\<close>: \<open>Ok None\<close> is \<^verbatim>\<open>mongo.ErrNoDocuments\<close>.\<close>

definition find_session :: "('s, 'r) user_env \<Rightarrow> mfilter \<Rightarrow> ('s, 'r) user_state \<Rightarrow> UserSession option go" where
  "find_session E f w = go_bind (mg_FindOne (ue_M E) user_session_coll f (ud_mongo w))
     (\<lambda>d. case d of None \<Rightarrow> Ok None | Some x \<Rightarrow> go_bind (decode_UserSession x) (\<lambda>s. Ok (Some s)))"

definition GetUserById :: "('s, 'r) user_env \<Rightarrow> string \<Rightarrow> ('s, 'r) user_state \<Rightarrow> User go" where
  "GetUserById E userId w =
     (case mg_FindOne (ue_M E) ''user'' [(''user_id'', CEq (MStr (TrimSpace userId)))] (ud_mongo w) of
        Error e \<Rightarrow> Error (''find user failed: '' @ e)
      | Panic e \<Rightarrow> Panic e
      | Ok None \<Rightarrow> Error ''find user failed: mongo: no documents in result''
      | Ok (Some d) \<Rightarrow> (case decode_User d of Error e \<Rightarrow> Error (''find user failed: '' @ e) | x \<Rightarrow> x))"

definition GetUserByToken :: "('s, 'r) user_env \<Rightarrow> time \<Rightarrow> string \<Rightarrow> string \<Rightarrow> ('s, 'r) user_state \<Rightarrow> User go" where
  "GetUserByToken E now token hash w =
     (case jwt_Verify (ue_J E) (jwt_DefaultOptions (ue_secret E)) now token hash of
        Error e \<Rightarrow> Error (''token verify failed: '' @ e)
      | Panic e \<Rightarrow> Panic e
      | Ok claims \<Rightarrow>
          (case GetSubject claims of
             Error e \<Rightarrow> Error ''invalid token: no user_id in claims''
           | Panic e \<Rightarrow> Panic e
           | Ok userID \<Rightarrow> GetUserById E userID w))"

definition set_key :: "('s, 'r) user_env \<Rightarrow> string \<Rightarrow> string \<Rightarrow> duration \<Rightarrow> ('s, 'r) user_state \<Rightarrow> ('s, 'r) user_state" where
  "set_key E k v ttl w = w\<lparr> ud_redis := fst (rd_Run (ue_R E) (rthen (SET_dur k v ttl) (\<lambda>_. rret LNil)) (ud_redis w)) \<rparr>"

text \<open>\<^verbatim>\<open>rdb.Get\<close>: a key that does not exist is an error of the client.\<close>

definition get_key :: "('s, 'r) user_env \<Rightarrow> string \<Rightarrow> ('s, 'r) user_state \<Rightarrow> ('s, 'r) user_state \<times> string go" where
  "get_key E k w =
     (case rd_Run (ue_R E) (rthen (GET_cmd k) (\<lambda>v. rret (case v of None \<Rightarrow> LNil | Some s \<Rightarrow> LStr s))) (ud_redis w) of
        (r1, x) \<Rightarrow> (w\<lparr> ud_redis := r1 \<rparr>, reply_Text x))"

subsubsection \<open>Checking a token\<close>

text \<open>\<open>t1\<close>, \<open>t2\<close> and \<open>t3\<close> are the readings of the clock: of the token library, for the filter, for what is left.\<close>

definition valid_session :: "string \<Rightarrow> string \<Rightarrow> time \<Rightarrow> mfilter" where
  "valid_session field v t = [(field, CEq (MStr v)), (''is_valid'', CEq (MBool True)), (''expire_time'', CGt (bson_time t))]"

definition Verify_cached ::
  "('s, 'r) user_env \<Rightarrow> time \<Rightarrow> string \<Rightarrow> string \<Rightarrow> ('s, 'r) user_state \<Rightarrow> ('s, 'r) user_state \<times> UserSession go" where
  "Verify_cached E t2 rk v w =
     (if v = ''-'' then (w, Error ErrTokenExpired)
      else case find_session E (valid_session ''session_id'' v t2) w of
             Ok (Some s) \<Rightarrow> (w, Ok s)
           | Panic e \<Rightarrow> (w, Panic e)
           | _ \<Rightarrow> (set_key E rk ''-'' (30 * second) w, Error ErrTokenExpired))"

definition Verify_stored ::
  "('s, 'r) user_env \<Rightarrow> time \<Rightarrow> time \<Rightarrow> string \<Rightarrow> string \<Rightarrow> ('s, 'r) user_state \<Rightarrow> ('s, 'r) user_state \<times> UserSession go" where
  "Verify_stored E t2 t3 rk tokenHash w =
     (case find_session E (valid_session ''access_token_hash'' tokenHash t2) w of
        Error e \<Rightarrow> (w, Error e)
      | Panic e \<Rightarrow> (w, Panic e)
      | Ok None \<Rightarrow> (set_key E rk ''-'' (30 * second) w, Error ErrTokenExpired)
      | Ok (Some s) \<Rightarrow>
          (let ttl = ss_ExpireTime s - t3 in
           if ttl \<le> 0 then (set_key E rk ''-'' (30 * second) w, Error ErrTokenExpired)
           else (set_key E rk (ss_SessionID s) ttl w, Ok s)))"

definition user_Verify ::
  "('s, 'r) user_env \<Rightarrow> time \<Rightarrow> time \<Rightarrow> time \<Rightarrow> string \<Rightarrow> string \<Rightarrow> ('s, 'r) user_state \<Rightarrow> ('s, 'r) user_state \<times> UserSession go" where
  "user_Verify E t1 t2 t3 token tokenHash w =
     (case jwt_Verify (ue_J E) (jwt_DefaultOptions (ue_secret E)) t1 token tokenHash of
        Error e \<Rightarrow> (w, Error e)
      | Panic e \<Rightarrow> (w, Panic e)
      | Ok _ \<Rightarrow>
          (let rk = UserSessionKey tokenHash in
           case get_key E rk w of
             (w1, Ok v) \<Rightarrow> Verify_cached E t2 rk v w1
           | (w1, Panic e) \<Rightarrow> (w1, Panic e)
           | (w1, Error _) \<Rightarrow> Verify_stored E t2 t3 rk tokenHash w1))"

subsubsection \<open>A login\<close>

record UserSessionId =
  sk_UserId :: string
  sk_DeviceType :: string
  sk_DeviceID :: string

definition session_filter :: "UserSessionId \<Rightarrow> mfilter" where
  "session_filter key = [(''user_id'', CEq (MStr (sk_UserId key))), (''device_type'', CEq (MStr (sk_DeviceType key))),
     (''device_id'', CEq (MStr (sk_DeviceID key)))]"

text \<open>The archived copy goes through the encoder and the decoder; its log id is never set.\<close>

definition archive_doc :: "UserSession \<Rightarrow> doc" where
  "archive_doc old = bson_UserSession
     ((case decode_UserSession (bson_UserSession old) of Ok s \<Rightarrow> s | _ \<Rightarrow> UserSession_zero)\<lparr> ss_Reason := ''relogin'' \<rparr>)"

text \<open>\<open>t3\<close> and \<open>t4\<close> are the readings for \<^verbatim>\<open>UpdateTime\<close> of the new session and for what is left of it.\<close>

definition relogin_pipe :: "time \<Rightarrow> UserSession option \<Rightarrow> UserSession \<Rightarrow> unit rcmd list" where
  "relogin_pipe t4 old new =
     (let ttl = ss_ExpireTime new - t4; newKey = UserSessionKey (ss_AccessTokenHash new) in
      (case old of None \<Rightarrow> []
       | Some o1 \<Rightarrow> if ss_AccessTokenHash o1 \<noteq> '''' then [rvoid (DEL (UserSessionKey (ss_AccessTokenHash o1)))] else [])
      @ (if ss_IsValid new \<and> 0 < ttl \<and> ss_AccessTokenHash new \<noteq> '''' \<and> ss_SessionID new \<noteq> ''''
         then [SET_dur newKey (ss_SessionID new) ttl]
         else if ss_AccessTokenHash new \<noteq> '''' then [rvoid (DEL newKey)] else []))"

text \<open>
  The old session is archived. Marking it invalid calls \<^verbatim>\<open>UpdateByID\<close> with a document in place of update
  operators, which the driver refuses before it sends anything; the error is dropped. When the
  replacement fails the log line reads a field of the result, which is nil then.
\<close>

definition replace_session ::
  "('s, 'r) user_env \<Rightarrow> time \<Rightarrow> time \<Rightarrow> UserSessionId \<Rightarrow> UserSession option \<Rightarrow> UserSession \<Rightarrow> ('s, 'r) user_state
   \<Rightarrow> ('s, 'r) user_state \<times> unit go" where
  "replace_session E t3 t4 key old newRec w =
     (let new = newRec\<lparr> ss_UpdateTime := t3 \<rparr> in
      case ue_ReplaceOne E user_session_coll (session_filter key) (bson_UserSession new) True (ud_mongo w) of
        (s1, Error e) \<Rightarrow> (w\<lparr> ud_mongo := s1 \<rparr>, Panic ''invalid memory address or nil pointer dereference'')
      | (s1, Panic e) \<Rightarrow> (w\<lparr> ud_mongo := s1 \<rparr>, Panic e)
      | (s1, Ok _) \<Rightarrow>
          (case run_pipe (ue_R E) (relogin_pipe t4 old new) (ud_redis w) of
             (r1, Panic e) \<Rightarrow> (w\<lparr> ud_mongo := s1, ud_redis := r1 \<rparr>, Panic e)
           | (r1, _) \<Rightarrow> (w\<lparr> ud_mongo := s1, ud_redis := r1 \<rparr>, Ok ())))"

definition ReLoginArchiveAndReplace ::
  "('s, 'r) user_env \<Rightarrow> time \<Rightarrow> time \<Rightarrow> UserSessionId \<Rightarrow> UserSession \<Rightarrow> ('s, 'r) user_state \<Rightarrow> ('s, 'r) user_state \<times> unit go" where
  "ReLoginArchiveAndReplace E t3 t4 key newRec w =
     (case find_session E (session_filter key @ [(''is_valid'', CEq (MBool True))]) w of
        Error e \<Rightarrow> (w, Error e)
      | Panic e \<Rightarrow> (w, Panic e)
      | Ok None \<Rightarrow> replace_session E t3 t4 key None newRec w
      | Ok (Some old) \<Rightarrow>
          (case mg_InsertOne (ue_M E) user_session_log_coll (archive_doc old) (ud_mongo w) of
             (s1, Error e) \<Rightarrow> (w\<lparr> ud_mongo := s1 \<rparr>, Error e)
           | (s1, Panic e) \<Rightarrow> (w\<lparr> ud_mongo := s1 \<rparr>, Panic e)
           | (s1, Ok _) \<Rightarrow> replace_session E t3 t4 key (Some old) newRec (w\<lparr> ud_mongo := s1 \<rparr>)))"

record LoginParams =
  lp_SessionID :: string
  lp_UserID :: string
  lp_TenantID :: string
  lp_DeviceType :: string
  lp_DeviceID :: string
  lp_IP :: string
  lp_UserAgent :: string
  lp_Scopes :: "string list"
  lp_TTL :: duration
  lp_Now :: time

text \<open>The session a login stores: the address, the agent, the scopes and the lifetime asked for are not used.\<close>

definition login_session :: "LoginParams \<Rightarrow> time \<Rightarrow> string \<times> string \<times> time \<Rightarrow> UserSession" where
  "login_session p now g = (case g of (token, hash, exp) \<Rightarrow>
     UserSession_zero\<lparr> ss_SessionID := lp_SessionID p, ss_UserID := lp_UserID p, ss_TenantID := lp_TenantID p,
       ss_DeviceType := lp_DeviceType p, ss_DeviceID := lp_DeviceID p, ss_AccessToken := token, ss_AccessTokenHash := hash,
       ss_IsValid := True, ss_Status := ''online'', ss_LoginTime := now, ss_LastActive := now, ss_ExpireTime := exp,
       ss_ExpireAt := exp, ss_CreateTime := now, ss_UpdateTime := now \<rparr>)"

definition Login ::
  "('s, 'r) user_env \<Rightarrow> time \<Rightarrow> time \<Rightarrow> time \<Rightarrow> time \<Rightarrow> LoginParams \<Rightarrow> ('s, 'r) user_state \<Rightarrow> ('s, 'r) user_state \<times> UserSession go" where
  "Login E t1 t2 t3 t4 p w =
     (case GetUserById E (lp_UserID p) w of
        Error e \<Rightarrow> (w, Error e)
      | Panic e \<Rightarrow> (w, Panic e)
      | Ok user \<Rightarrow>
          (let now = (if lp_Now p = zero_time then t1 else lp_Now p) in
           case jwt_Generate (ue_J E) (jwt_DefaultOptions (ue_secret E)) (lp_UserID p) (lp_Scopes p) t2 of
             Error e \<Rightarrow> (w, Error e)
           | Panic e \<Rightarrow> (w, Panic e)
           | Ok g \<Rightarrow>
               (let rec = login_session p now g;
                    key = \<lparr> sk_UserId = us_UserID user, sk_DeviceType = lp_DeviceType p, sk_DeviceID = lp_DeviceID p \<rparr>
                in case ReLoginArchiveAndReplace E t3 t4 key rec w of
                     (w1, Ok _) \<Rightarrow> (w1, Ok rec)
                   | (w1, Error e) \<Rightarrow> (w1, Error e)
                   | (w1, Panic e) \<Rightarrow> (w1, Panic e))))"

subsection \<open>The credentials of a request\<close>

text \<open>
  \<open>hdr\<close> gives the headers of a request under their lower-case names: \<^verbatim>\<open>GetHeader\<close> does not look at the
  case of a name.
\<close>

definition GetHeader :: "(string \<Rightarrow> string) \<Rightarrow> string \<Rightarrow> string" where
  "GetHeader hdr name = hdr (ToLower name)"

definition TrimPrefix :: "string \<Rightarrow> string \<Rightarrow> string" where
  "TrimPrefix s p = (if str_prefix p s then drop (length p) s else s)"

record AuthInfo =
  ai_Token :: string
  ai_Hash :: string
  ai_UserId :: string

definition GetAuthInfo :: "jwt_lib \<Rightarrow> string \<Rightarrow> time \<Rightarrow> (string \<Rightarrow> string) \<Rightarrow> AuthInfo go" where
  "GetAuthInfo J secret now hdr =
     (let authHeader = GetHeader hdr ''authorization''; authHash = GetHeader hdr ''authorizationHash'';
          token = TrimSpace (TrimPrefix authHeader ''Bearer '')
      in if token = '''' \<or> authHash = '''' then Error ''token or hash is empty''
         else go_bind (jwt_Verify J (jwt_DefaultOptions secret) now token authHash) (\<lambda>claims.
              go_bind (GetSubject claims) (\<lambda>subject.
                Ok \<lparr> ai_Token = token, ai_Hash = authHash, ai_UserId = subject \<rparr>)))"

record auth_options =
  ao_HeaderToken :: string
  ao_HeaderHash :: string
  ao_EnableAuthorizationBearer :: bool
  ao_SetEmptyIntoContext :: bool

definition auth_DefaultOptions :: auth_options where
  "auth_DefaultOptions = \<lparr> ao_HeaderToken = ''authorization'', ao_HeaderHash = ''authorizationHash'',
     ao_EnableAuthorizationBearer = True, ao_SetEmptyIntoContext = True \<rparr>"

text \<open>What the middleware puts into the context, and whether the request goes on to its handler.\<close>

definition bearer_token :: "(string \<Rightarrow> string) \<Rightarrow> string" where
  "bearer_token hdr =
     (let authz = TrimSpace (GetHeader hdr ''Authorization'') in
      if authz \<noteq> '''' \<and> str_prefix ''bearer '' (ToLower authz) then TrimSpace (drop (length ''bearer '') authz) else '''')"

definition auth_Middleware :: "auth_options \<Rightarrow> (string \<Rightarrow> string) \<Rightarrow> (string \<times> string) list \<times> bool" where
  "auth_Middleware o1 hdr =
     (let token0 = TrimSpace (GetHeader hdr (ao_HeaderToken o1));
          hash = TrimSpace (GetHeader hdr (ao_HeaderHash o1));
          token = (if token0 = '''' \<and> ao_EnableAuthorizationBearer o1 then bearer_token hdr else token0)
      in ((if token \<noteq> '''' then [(''authorization'', token)] else [])
          @ (if hash \<noteq> '''' \<or> (ao_SetEmptyIntoContext o1 \<and> token \<noteq> '''') then [(''authorizationHash'', hash)] else []),
          \<not> (token = '''' \<or> hash = '''')))"

end
