(* ===== verification/UserProps.thy ===== *)
theory UserProps
  imports UserService
begin

section \<open>What a check of a token accepts\<close>

text \<open>
  The laws of the replacement call and of the token library; sessions survive the encoder and the decoder;
  the list of tokens in Redis stays true to the sessions in MongoDB whatever logins and checks happen, so
  a check never returns the session of another token; a token of a new login is accepted, the token it
  replaces is not.
\<close>

subsection \<open>The laws of the libraries\<close>

fun replace_first :: "mfilter \<Rightarrow> doc \<Rightarrow> doc list \<Rightarrow> doc list option" where
  "replace_first f r [] = None"
| "replace_first f r (d # ds) = (if doc_matches f d then Some (r # ds) else map_option ((#) d) (replace_first f r ds))"

definition replace_one_spec :: "mfilter \<Rightarrow> doc \<Rightarrow> bool \<Rightarrow> doc list \<Rightarrow> doc list" where
  "replace_one_spec f r upsert ds =
     (case replace_first f r ds of Some ds' \<Rightarrow> ds' | None \<Rightarrow> if upsert then ds @ [r] else ds)"

definition mlaw_ReplaceOne ::
  "(string \<Rightarrow> mfilter \<Rightarrow> doc \<Rightarrow> bool \<Rightarrow> 's \<Rightarrow> 's \<times> update_result go) \<Rightarrow> (string \<Rightarrow> 's \<Rightarrow> doc list) \<Rightarrow> bool" where
  "mlaw_ReplaceOne rp view \<longleftrightarrow> (\<forall>c f r ups s s' x. rp c f r ups s = (s', x) \<longrightarrow>
     (case x of Ok _ \<Rightarrow> view c s' = replace_one_spec f r ups (view c s)
      | _ \<Rightarrow> view c s' \<in> {view c s, replace_one_spec f r ups (view c s)})
     \<and> (\<forall>c'. c' \<noteq> c \<longrightarrow> view c' s' = view c' s))"

text \<open>A signed token is accepted by the same key between \<open>nbf\<close> and \<open>exp\<close>.\<close>

definition jwt_laws :: "jwt_lib \<Rightarrow> bool" where
  "jwt_laws J \<longleftrightarrow> (\<forall>alg key cl tok kf t a b. jl_Sign J alg key cl = Ok tok \<longrightarrow> kf True = Ok key \<longrightarrow>
     map_of cl ''nbf'' = Some (MInt a) \<longrightarrow> map_of cl ''exp'' = Some (MInt b) \<longrightarrow> a * second \<le> t \<longrightarrow> t < b * second \<longrightarrow>
     (\<exists>cl'. jl_Parse J kf t tok = Ok (True, Some cl')))"

definition user_laws :: "('s, 'r) user_env \<Rightarrow> (string \<Rightarrow> 's \<Rightarrow> doc list) \<Rightarrow> ('r \<Rightarrow> rdb) \<Rightarrow> bool" where
  "user_laws E view rv \<longleftrightarrow> mongo_laws (ue_M E) view \<and> mlaw_ReplaceOne (ue_ReplaceOne E) view \<and> redis_laws (ue_R E) rv"

lemma replace_first_set: "replace_first f r ds = Some ds' \<Longrightarrow> set ds' \<subseteq> insert r (set ds)"
  by (induction ds arbitrary: ds') (auto split: if_splits)

lemma replace_one_set: "set (replace_one_spec f r ups ds) \<subseteq> insert r (set ds)"
  using replace_first_set[of f r ds] by (auto simp: replace_one_spec_def split: option.splits)

lemma replace_first_in: "replace_first f r ds = Some ds' \<Longrightarrow> r \<in> set ds'"
  by (induction ds arbitrary: ds') (auto split: if_splits)

lemma replace_one_in: "r \<in> set (replace_one_spec f r True ds)"
  using replace_first_in[of f r ds] by (auto simp: replace_one_spec_def split: option.splits)

text \<open>When at most one document matches, it is gone.\<close>

lemma replace_first_gone:
  "replace_first f r ds = Some ds' \<Longrightarrow> length (filter (doc_matches f) ds) \<le> 1 \<Longrightarrow> d \<in> set ds' \<Longrightarrow> doc_matches f d \<Longrightarrow> d = r"
  by (induction ds arbitrary: ds') (auto split: if_splits simp: filter_empty_conv)

lemma replace_first_None: "replace_first f r ds = None \<longleftrightarrow> (\<forall>d \<in> set ds. \<not> doc_matches f d)"
  by (induction ds) auto

lemma replace_one_gone:
  assumes "length (filter (doc_matches f) ds) \<le> 1" "d \<in> set (replace_one_spec f r True ds)" "doc_matches f d"
  shows "d = r"
  using assms replace_first_gone[of f r ds] replace_first_None[of f r ds]
  by (auto simp: replace_one_spec_def split: option.splits)

subsection \<open>A session in a document\<close>

text \<open>What is read back of a session: times in whole milliseconds.\<close>

definition ms_trunc :: "time \<Rightarrow> time" where
  "ms_trunc t = t div millisecond * millisecond"

definition stored_session :: "UserSession \<Rightarrow> UserSession" where
  "stored_session s = s\<lparr> ss_LoginTime := ms_trunc (ss_LoginTime s), ss_LastActive := ms_trunc (ss_LastActive s),
     ss_ExpireTime := ms_trunc (ss_ExpireTime s), ss_ExpireAt := ms_trunc (ss_ExpireAt s),
     ss_LogoutTime := map_option ms_trunc (ss_LogoutTime s), ss_CreateTime := ms_trunc (ss_CreateTime s),
     ss_UpdateTime := ms_trunc (ss_UpdateTime s) \<rparr>"

lemma bson_UserSession_at:
  "map_of (bson_UserSession s) ''session_id'' = Some (MStr (ss_SessionID s))"
  "map_of (bson_UserSession s) ''user_id'' = Some (MStr (ss_UserID s))"
  "map_of (bson_UserSession s) ''tenant_id'' = (if ss_TenantID s = '''' then None else Some (MStr (ss_TenantID s)))"
  "map_of (bson_UserSession s) ''device_type'' = Some (MStr (ss_DeviceType s))"
  "map_of (bson_UserSession s) ''device_id'' = (if ss_DeviceID s = '''' then None else Some (MStr (ss_DeviceID s)))"
  "map_of (bson_UserSession s) ''app_version'' = (if ss_AppVersion s = '''' then None else Some (MStr (ss_AppVersion s)))"
  "map_of (bson_UserSession s) ''os'' = (if ss_OS s = '''' then None else Some (MStr (ss_OS s)))"
  "map_of (bson_UserSession s) ''ip'' = Some (MStr (ss_IP s))"
  "map_of (bson_UserSession s) ''user_agent'' = (if ss_UserAgent s = '''' then None else Some (MStr (ss_UserAgent s)))"
  "map_of (bson_UserSession s) ''access_token'' = (if ss_AccessToken s = '''' then None else Some (MStr (ss_AccessToken s)))"
  "map_of (bson_UserSession s) ''login_time'' = Some (bson_time (ss_LoginTime s))"
  "map_of (bson_UserSession s) ''last_active'' = Some (bson_time (ss_LastActive s))"
  "map_of (bson_UserSession s) ''expire_time'' = Some (bson_time (ss_ExpireTime s))"
  "map_of (bson_UserSession s) ''expire_at'' = Some (bson_time (ss_ExpireAt s))"
  "map_of (bson_UserSession s) ''logout_time'' = map_option bson_time (ss_LogoutTime s)"
  "map_of (bson_UserSession s) ''status'' = Some (MStr (ss_Status s))"
  "map_of (bson_UserSession s) ''reason'' = Some (MStr (ss_Reason s))"
  "map_of (bson_UserSession s) ''access_token_hash'' = Some (MStr (ss_AccessTokenHash s))"
  "map_of (bson_UserSession s) ''refresh_token_hash'' = Some (MStr (ss_RefreshTokenHash s))"
  "map_of (bson_UserSession s) ''scope'' = (if ss_Scope s = [] then None else Some (MArr (map MStr (ss_Scope s))))"
  "map_of (bson_UserSession s) ''is_valid'' = Some (MBool (ss_IsValid s))"
  "map_of (bson_UserSession s) ''risk_score'' = (if ss_RiskScore s = 0 then None else Some (MInt (ss_RiskScore s)))"
  "map_of (bson_UserSession s) ''ex'' = (if ss_Ex s = '''' then None else Some (MStr (ss_Ex s)))"
  "map_of (bson_UserSession s) ''create_time'' = Some (bson_time (ss_CreateTime s))"
  "map_of (bson_UserSession s) ''update_time'' = Some (bson_time (ss_UpdateTime s))"
  unfolding bson_UserSession_def by (simp_all only: bson_lookup append_assoc) simp_all

lemma decode_at:
  "map_of d k = Some (MStr x) \<Longrightarrow> decode_str d k = Ok x"
  "map_of d k = (if x = '''' then None else Some (MStr x)) \<Longrightarrow> decode_str d k = Ok x"
  "map_of d k = Some (bson_time t) \<Longrightarrow> decode_time d k = Ok (ms_trunc t)"
  "map_of d k = Some (MBool b) \<Longrightarrow> decode_bool d k = Ok b"
  "map_of d k = (if ss = [] then None else Some (MArr (map MStr ss))) \<Longrightarrow> decode_strs d k = Ok ss"
  "map_of d k = map_option bson_time ot \<Longrightarrow> decode_time_opt d k = Ok (map_option ms_trunc ot)"
  by (auto simp: decode_str_def decode_time_def decode_bool_def decode_strs_def decode_time_opt_def bson_time_def ms_trunc_def
      go_bind_def split: if_splits option.splits)

lemma decode_bson_UserSession: "decode_UserSession (bson_UserSession s) = Ok (stored_session s)"
proof -
  have i: "decode_int64 (bson_UserSession s) ''risk_score'' = Ok (ss_RiskScore s)"
    by (simp add: decode_int64_def bson_UserSession_at)
  note str = decode_at(1)[OF bson_UserSession_at(1)] decode_at(1)[OF bson_UserSession_at(2)] decode_at(2)[OF bson_UserSession_at(3)]
    decode_at(1)[OF bson_UserSession_at(4)] decode_at(2)[OF bson_UserSession_at(5)] decode_at(2)[OF bson_UserSession_at(6)]
    decode_at(2)[OF bson_UserSession_at(7)] decode_at(1)[OF bson_UserSession_at(8)] decode_at(2)[OF bson_UserSession_at(9)]
    decode_at(2)[OF bson_UserSession_at(10)] decode_at(1)[OF bson_UserSession_at(16)] decode_at(1)[OF bson_UserSession_at(17)]
    decode_at(1)[OF bson_UserSession_at(18)] decode_at(1)[OF bson_UserSession_at(19)] decode_at(2)[OF bson_UserSession_at(23)]
  note tms = decode_at(3)[OF bson_UserSession_at(11)] decode_at(3)[OF bson_UserSession_at(12)] decode_at(3)[OF bson_UserSession_at(13)]
    decode_at(3)[OF bson_UserSession_at(14)] decode_at(3)[OF bson_UserSession_at(24)] decode_at(3)[OF bson_UserSession_at(25)]
    decode_at(6)[OF bson_UserSession_at(15)] decode_at(4)[OF bson_UserSession_at(21)] decode_at(5)[OF bson_UserSession_at(20)]
  show ?thesis
    unfolding decode_UserSession_def str tms i go_bind_Ok by (simp add: stored_session_def)
qed

text \<open>What a session that was read says of its document.\<close>

lemma decode_UserSession_fields:
  assumes "decode_UserSession d = Ok s"
  shows "decode_str d ''session_id'' = Ok (ss_SessionID s)" "decode_str d ''access_token_hash'' = Ok (ss_AccessTokenHash s)"
    "decode_bool d ''is_valid'' = Ok (ss_IsValid s)" "decode_time d ''expire_time'' = Ok (ss_ExpireTime s)"
  using assms unfolding decode_UserSession_def
  by (auto dest!: go_bind_OkD)

lemma find_session_Ok:
  assumes "mongo_laws (ue_M E) view" "find_session E f w = Ok (Some s)"
  obtains d where "d \<in> set (view user_session_coll (ud_mongo w))" "doc_matches f d" "decode_UserSession d = Ok s"
proof -
  from assms(2) obtain dd where d: "mg_FindOne (ue_M E) user_session_coll f (ud_mongo w) = Ok dd"
    and r: "(case dd of None \<Rightarrow> Ok None | Some x \<Rightarrow> go_bind (decode_UserSession x) (\<lambda>s. Ok (Some s))) = Ok (Some s)"
    unfolding find_session_def by (auto dest!: go_bind_OkD)
  from r obtain x where x: "dd = Some x" "decode_UserSession x = Ok s" by (cases dd) (auto dest!: go_bind_OkD)
  from mongo_FindOne[OF assms(1) d] x have "find (doc_matches f) (view user_session_coll (ud_mongo w)) = Some x" by simp
  with x that show ?thesis by (metis find_Some_iff nth_mem)
qed

text \<open>A session a check finds is valid and not over, to the millisecond.\<close>

lemma valid_session_doc:
  assumes "doc_matches (valid_session fld v t) d" "decode_UserSession d = Ok s"
  shows "map_of d fld = Some (MStr v)" "ss_IsValid s" "ms_trunc t < ss_ExpireTime s"
proof -
  have m: "map_of d fld = Some (MStr v)" "map_of d ''is_valid'' = Some (MBool True)"
    "case map_of d ''expire_time'' of None \<Rightarrow> False | Some x \<Rightarrow> mval_less (bson_time t) x"
    using assms(1) by (simp_all add: doc_matches_def valid_session_def)
  show "map_of d fld = Some (MStr v)" by (rule m(1))
  show "ss_IsValid s"
    using decode_UserSession_fields(3)[OF assms(2)] m(2) by (simp add: decode_bool_def)
  obtain x where x: "map_of d ''expire_time'' = Some x" "mval_less (bson_time t) x" using m(3) by (auto split: option.splits)
  then obtain b where b: "x = MTime b" "ms_trunc t < b"
    by (cases x) (auto simp: bson_time_def ms_trunc_def)
  then show "ms_trunc t < ss_ExpireTime s"
    using decode_UserSession_fields(4)[OF assms(2)] x(1) by (simp add: decode_time_def)
qed

subsection \<open>The list of tokens in Redis\<close>

lemma set_key_mongo [simp]: "ud_mongo (set_key E k v ttl w) = ud_mongo w"
  by (simp add: set_key_def)

lemma set_key_keys:
  assumes "redis_laws (ue_R E) rv" "r_get j (rv (ud_redis (set_key E k v ttl w))) = Some y"
  shows "r_get j (rv (ud_redis w)) = Some y \<or> j = k \<and> y = RStr v"
proof -
  obtain r1 x where r: "rd_Run (ue_R E) (rthen (SET_dur k v ttl) (\<lambda>_. rret LNil)) (ud_redis w) = (r1, x)" by fastforce
  show ?thesis
    by (rule run_sets_at_most[OF assms(1) r]) (use assms(2) r in \<open>auto simp: set_key_def intro: sets_at_most_intros\<close>)
qed

lemma get_key_mongo: "get_key E k w = (w1, x) \<Longrightarrow> ud_mongo w1 = ud_mongo w"
  by (auto simp: get_key_def split: prod.splits)

lemma get_key_keys:
  assumes "redis_laws (ue_R E) rv" "get_key E k w = (w1, x)" "r_get j (rv (ud_redis w1)) = Some y"
  shows "r_get j (rv (ud_redis w)) = Some y"
proof -
  let ?sc = "rthen (GET_cmd k) (\<lambda>v. rret (case v of None \<Rightarrow> LNil | Some s \<Rightarrow> LStr s))"
  obtain r1 z where r: "rd_Run (ue_R E) ?sc (ud_redis w) = (r1, z)" by fastforce
  have s: "sets_at_most a b ?sc" for a b by (intro sets_at_most_intros)
  have "r_get j (rv r1) = Some y" using assms(2,3) r by (auto simp: get_key_def)
  from run_sets_at_most[OF assms(1) r s this, of "k @ ''x''" "''''"] run_sets_at_most[OF assms(1) r s this, of "k @ ''yy''" "''''"]
  show ?thesis by auto
qed

lemma get_key_Ok:
  assumes "redis_laws (ue_R E) rv" "get_key E k w = (w1, Ok v)"
  shows "r_get k (rv (ud_redis w)) = Some (RStr v)"
proof -
  let ?sc = "rthen (GET_cmd k) (\<lambda>v. rret (case v of None \<Rightarrow> LNil | Some s \<Rightarrow> LStr s))"
  obtain r1 z where r: "rd_Run (ue_R E) ?sc (ud_redis w) = (r1, z)" by fastforce
  then have "reply_Text z = Ok v" using assms(2) by (simp add: get_key_def)
  then have z: "z = Ok (LStr v)" by (auto simp: reply_Text_def split: go.splits rreply.splits)
  obtain db1 t where db1: "sent_before ?sc (rv (ud_redis w)) db1" and "?sc (purge t db1) = (rv r1, Ok (LStr v))"
    using redis_run_Ok[OF assms(1) r[unfolded z]] by blast
  then have "r_get k (purge t db1) = Some (RStr v)"
    by (auto simp: rthen_def rret_def GET_cmd_def split: option.splits rval.splits)
  then have g: "r_get k db1 = Some (RStr v)" by (rule r_get_unpurged)
  have "sets_at_most (k @ ''x'') '''' ?sc" by (intro sets_at_most_intros)
  from sent_sets_at_most[OF db1 this g] show ?thesis by auto
qed

subsection \<open>Tokens and sessions stay together\<close>

text \<open>
  Every stored session carries an id and the hash of a token; sessions with the same id carry the same
  hash; and the session id listed under a hash belongs to sessions with that hash only.
\<close>

definition session_docs :: "(string \<Rightarrow> 's \<Rightarrow> doc list) \<Rightarrow> ('s, 'r) user_state \<Rightarrow> doc set" where
  "session_docs view w = set (view user_session_coll (ud_mongo w))"

definition has_id :: "doc \<Rightarrow> string \<Rightarrow> bool" where
  "has_id d v \<longleftrightarrow> map_of d ''session_id'' = Some (MStr v)"

definition has_hash :: "doc \<Rightarrow> string \<Rightarrow> bool" where
  "has_hash d h \<longleftrightarrow> map_of d ''access_token_hash'' = Some (MStr h)"

definition tokens_ok :: "jwt_lib \<Rightarrow> doc set \<Rightarrow> (string \<Rightarrow> rval option) \<Rightarrow> bool" where
  "tokens_ok J D keys \<longleftrightarrow>
     (\<forall>d \<in> D. \<exists>v tok. has_id d v \<and> has_hash d (HashToken J tok))
   \<and> (\<forall>d \<in> D. \<forall>e \<in> D. \<forall>v h. has_id d v \<longrightarrow> has_id e v \<longrightarrow> has_hash d h \<longrightarrow> has_hash e h)
   \<and> (\<forall>h v. \<forall>d \<in> D. keys (UserSessionKey h) = Some (RStr v) \<longrightarrow> v \<noteq> ''-'' \<longrightarrow> has_id d v \<longrightarrow> has_hash d h)"

lemma tokens_okI:
  assumes "\<And>d. d \<in> D \<Longrightarrow> \<exists>v tok. has_id d v \<and> has_hash d (HashToken J tok)"
    and "\<And>d e v h. d \<in> D \<Longrightarrow> e \<in> D \<Longrightarrow> has_id d v \<Longrightarrow> has_id e v \<Longrightarrow> has_hash d h \<Longrightarrow> has_hash e h"
    and "\<And>h v d. d \<in> D \<Longrightarrow> keys (UserSessionKey h) = Some (RStr v) \<Longrightarrow> v \<noteq> ''-'' \<Longrightarrow> has_id d v \<Longrightarrow> has_hash d h"
  shows "tokens_ok J D keys"
  using assms unfolding tokens_ok_def by blast

lemma tokens_okD:
  assumes "tokens_ok J D keys"
  shows "d \<in> D \<Longrightarrow> \<exists>v tok. has_id d v \<and> has_hash d (HashToken J tok)"
    "d \<in> D \<Longrightarrow> e \<in> D \<Longrightarrow> has_id d v \<Longrightarrow> has_id e v \<Longrightarrow> has_hash d h \<Longrightarrow> has_hash e h"
    "d \<in> D \<Longrightarrow> keys (UserSessionKey h) = Some (RStr v) \<Longrightarrow> v \<noteq> ''-'' \<Longrightarrow> has_id d v \<Longrightarrow> has_hash d h"
  using assms unfolding tokens_ok_def by blast+

definition user_inv :: "('s, 'r) user_env \<Rightarrow> (string \<Rightarrow> 's \<Rightarrow> doc list) \<Rightarrow> ('r \<Rightarrow> rdb) \<Rightarrow> ('s, 'r) user_state \<Rightarrow> bool" where
  "user_inv E view rv w \<longleftrightarrow> tokens_ok (ue_J E) (session_docs view w) (\<lambda>k. r_get k (rv (ud_redis w)))"

lemma UserSessionKey_inj [simp]: "UserSessionKey a = UserSessionKey b \<longleftrightarrow> a = b"
  by (simp add: UserSessionKey_def)

lemma tokens_ok_sub:
  assumes "tokens_ok J D keys" "D' \<subseteq> D" "\<And>k v. keys' k = Some (RStr v) \<Longrightarrow> keys k = Some (RStr v) \<or> v = ''-''"
  shows "tokens_ok J D' keys'"
proof (rule tokens_okI)
  fix h v d assume "d \<in> D'" "keys' (UserSessionKey h) = Some (RStr v)" "v \<noteq> ''-''" "has_id d v"
  then show "has_hash d h" using assms(2,3) tokens_okD(3)[OF assms(1), of d h v] by blast
qed (use tokens_okD(1,2)[OF assms(1)] assms(2) in blast)+

text \<open>One more entry of the list, for a session that is stored with this hash.\<close>

lemma tokens_ok_list:
  assumes "tokens_ok J D keys" "d \<in> D" "has_id d sid" "has_hash d h"
    and "\<And>k v. keys' k = Some (RStr v) \<Longrightarrow> keys k = Some (RStr v) \<or> k = UserSessionKey h \<and> v = sid"
  shows "tokens_ok J D keys'"
proof (rule tokens_okI)
  fix h' v e assume e: "e \<in> D" "keys' (UserSessionKey h') = Some (RStr v)" "v \<noteq> ''-''" "has_id e v"
  from assms(5)[OF e(2)] show "has_hash e h'"
  proof
    assume "keys (UserSessionKey h') = Some (RStr v)"
    then show ?thesis using tokens_okD(3)[OF assms(1) e(1)] e(3,4) by blast
  next
    assume "UserSessionKey h' = UserSessionKey h \<and> v = sid"
    then show ?thesis using tokens_okD(2)[OF assms(1,2) e(1) assms(3) _ assms(4)] e(4) by simp
  qed
qed (use tokens_okD(1,2)[OF assms(1)] in blast)+

text \<open>A new session under an id that no document and no key has.\<close>

lemma has_id_unique: "has_id d v \<Longrightarrow> has_id d v' \<Longrightarrow> v' = v"
  by (simp add: has_id_def)

lemma has_hash_unique: "has_hash d h \<Longrightarrow> has_hash d h' \<Longrightarrow> h' = h"
  by (simp add: has_hash_def)

lemma tokens_ok_new:
  assumes "tokens_ok J D keys" "D' \<subseteq> insert r D" "has_id r sid" "has_hash r (HashToken J tok)"
    and "\<And>d. d \<in> D \<Longrightarrow> \<not> has_id d sid" "\<And>k. keys k \<noteq> Some (RStr sid)"
    and "\<And>k v. keys' k = Some (RStr v) \<Longrightarrow> keys k = Some (RStr v) \<or> k = UserSessionKey (HashToken J tok) \<and> v = sid"
  shows "tokens_ok J D' keys'"
proof -
  have "tokens_ok J (insert r D) keys"
  proof (rule tokens_okI)
    fix d assume "d \<in> insert r D"
    then show "\<exists>v tok. has_id d v \<and> has_hash d (HashToken J tok)"
      using assms(3,4) tokens_okD(1)[OF assms(1)] by blast
  next
    fix d e v h assume de: "d \<in> insert r D" "e \<in> insert r D" "has_id d v" "has_id e v" "has_hash d h"
    show "has_hash e h"
    proof (cases "d = r \<or> e = r")
      case True
      with de(3,4) have "v = sid" using has_id_unique[OF assms(3)] by blast
      with de assms(5) have "d = e" by blast
      with de(5) show ?thesis by simp
    next
      case False
      with de show ?thesis using tokens_okD(2)[OF assms(1)] by blast
    qed
  next
    fix h v d assume d: "d \<in> insert r D" "keys (UserSessionKey h) = Some (RStr v)" "v \<noteq> ''-''" "has_id d v"
    then have "d \<noteq> r" using has_id_unique[OF assms(3)] assms(6) by blast
    with d show "has_hash d h" using tokens_okD(3)[OF assms(1)] by blast
  qed
  from tokens_ok_list[OF this _ assms(3,4) assms(7)] have "tokens_ok J (insert r D) keys'" by blast
  then show ?thesis by (rule tokens_ok_sub) (use assms(2) in auto)
qed

text \<open>A check that finds no session lists nothing new.\<close>

lemma user_inv_set_dash:
  "user_inv E view rv w \<Longrightarrow> redis_laws (ue_R E) rv \<Longrightarrow> user_inv E view rv (set_key E k ''-'' ttl w)"
  unfolding user_inv_def by (erule tokens_ok_sub) (auto simp: session_docs_def dest: set_key_keys)

lemma get_key_inv:
  assumes "user_inv E view rv w" "redis_laws (ue_R E) rv" "get_key E k w = (w1, x)"
  shows "user_inv E view rv w1"
  using assms(1) unfolding user_inv_def
  by (rule tokens_ok_sub) (use get_key_mongo[OF assms(3)] get_key_keys[OF assms(2,3)] in \<open>auto simp: session_docs_def\<close>)

lemma Verify_cached_inv:
  "user_inv E view rv w \<Longrightarrow> redis_laws (ue_R E) rv \<Longrightarrow> user_inv E view rv (fst (Verify_cached E t2 rk v w))"
  by (auto simp: Verify_cached_def user_inv_set_dash split: go.splits option.splits)

lemma has_id_decoded: "has_id d v \<Longrightarrow> decode_UserSession d = Ok s \<Longrightarrow> ss_SessionID s = v"
  using decode_UserSession_fields(1)[of d s] by (simp add: has_id_def decode_str_def)

lemma has_hash_decoded: "has_hash d h \<Longrightarrow> decode_UserSession d = Ok s \<Longrightarrow> ss_AccessTokenHash s = h"
  using decode_UserSession_fields(2)[of d s] by (simp add: has_hash_def decode_str_def)

lemma Verify_stored_inv:
  assumes "user_inv E view rv w" "mongo_laws (ue_M E) view" "redis_laws (ue_R E) rv"
  shows "user_inv E view rv (fst (Verify_stored E t2 t3 (UserSessionKey h) h w))"
proof (cases "find_session E (valid_session ''access_token_hash'' h t2) w")
  case (Ok x)
  show ?thesis
  proof (cases x)
    case None
    with Ok assms show ?thesis by (simp add: Verify_stored_def user_inv_set_dash)
  next
    case (Some s)
    with Ok have f: "find_session E (valid_session ''access_token_hash'' h t2) w = Ok (Some s)" by simp
    obtain d where d: "d \<in> session_docs view w" "doc_matches (valid_session ''access_token_hash'' h t2) d" "decode_UserSession d = Ok s"
      using find_session_Ok[OF assms(2) f] by (auto simp: session_docs_def)
    have hash: "has_hash d h" using valid_session_doc(1)[OF d(2,3)] by (simp add: has_hash_def)
    note inv = assms(1)[unfolded user_inv_def]
    obtain v where v: "has_id d v" using tokens_okD(1)[OF inv d(1)] by blast
    then have s: "ss_SessionID s = v" using d(3) by (rule has_id_decoded)
    have "tokens_ok (ue_J E) (session_docs view w) (\<lambda>k. r_get k (rv (ud_redis (set_key E (UserSessionKey h) v ttl w))))" for ttl
      by (rule tokens_ok_list[OF inv d(1) v hash]) (auto dest: set_key_keys[OF assms(3)])
    then have "user_inv E view rv (set_key E (UserSessionKey h) v ttl w)" for ttl
      by (simp add: user_inv_def session_docs_def)
    then show ?thesis using Ok Some assms by (simp add: Verify_stored_def Let_def user_inv_set_dash s)
  qed
qed (use assms in \<open>simp_all add: Verify_stored_def\<close>)

lemma user_Verify_inv:
  assumes "user_inv E view rv w" "mongo_laws (ue_M E) view" "redis_laws (ue_R E) rv"
  shows "user_inv E view rv (fst (user_Verify E t1 t2 t3 tok h w))"
proof (cases "jwt_Verify (ue_J E) (jwt_DefaultOptions (ue_secret E)) t1 tok h")
  case (Ok c)
  obtain w1 x where g: "get_key E (UserSessionKey h) w = (w1, x)" by fastforce
  have "user_inv E view rv w1" by (rule get_key_inv[OF assms(1,3) g])
  then show ?thesis
    using Ok g assms(2,3)
    by (cases x) (simp_all add: user_Verify_def Let_def Verify_cached_inv Verify_stored_inv)
qed (use assms in \<open>simp_all add: user_Verify_def\<close>)

text \<open>What a check answers with.\<close>

lemma user_Verify_Ok:
  assumes "user_inv E view rv w" "mongo_laws (ue_M E) view" "redis_laws (ue_R E) rv"
    and "user_Verify E t1 t2 t3 tok h w = (w', Ok s)"
  shows "ss_AccessTokenHash s = HashToken (ue_J E) tok" "h = HashToken (ue_J E) tok" "ss_IsValid s" "ms_trunc t2 < ss_ExpireTime s"
    "\<exists>d \<in> session_docs view w. decode_UserSession d = Ok s"
proof -
  obtain c where c: "jwt_Verify (ue_J E) (jwt_DefaultOptions (ue_secret E)) t1 tok h = Ok c"
    using assms(4) by (auto simp: user_Verify_def split: go.splits)
  then have ht: "h = '''' \<or> h = HashToken (ue_J E) tok" by (auto simp: jwt_Verify_def split: go.splits prod.splits if_splits)
  obtain w1 x where g: "get_key E (UserSessionKey h) w = (w1, x)" by fastforce
  have docs: "session_docs view w1 = session_docs view w" using get_key_mongo[OF g] by (simp add: session_docs_def)
  note inv = assms(1)[unfolded user_inv_def]
  have "\<exists>d fld v. d \<in> session_docs view w \<and> doc_matches (valid_session fld v t2) d \<and> decode_UserSession d = Ok s \<and> has_hash d h"
  proof (cases x)
    case (Ok v)
    then have "Verify_cached E t2 (UserSessionKey h) v w1 = (w', Ok s)" using assms(4) c g by (simp add: user_Verify_def Let_def)
    then have v: "v \<noteq> ''-''" and f: "find_session E (valid_session ''session_id'' v t2) w1 = Ok (Some s)"
      by (auto simp: Verify_cached_def split: if_splits go.splits option.splits)
    obtain d where d: "d \<in> session_docs view w1" "doc_matches (valid_session ''session_id'' v t2) d" "decode_UserSession d = Ok s"
      using find_session_Ok[OF assms(2) f] by (auto simp: session_docs_def)
    have "has_id d v" using valid_session_doc(1)[OF d(2,3)] by (simp add: has_id_def)
    moreover have "r_get (UserSessionKey h) (rv (ud_redis w)) = Some (RStr v)" using get_key_Ok[OF assms(3)] g Ok by blast
    ultimately have "has_hash d h" using tokens_okD(3)[OF inv _ _ v] d(1) docs by blast
    with d docs show ?thesis by blast
  next
    case (Error e)
    then have "Verify_stored E t2 t3 (UserSessionKey h) h w1 = (w', Ok s)" using assms(4) c g by (simp add: user_Verify_def Let_def)
    then have f: "find_session E (valid_session ''access_token_hash'' h t2) w1 = Ok (Some s)"
      by (auto simp: Verify_stored_def Let_def split: if_splits go.splits option.splits)
    obtain d where d: "d \<in> session_docs view w1" "doc_matches (valid_session ''access_token_hash'' h t2) d" "decode_UserSession d = Ok s"
      using find_session_Ok[OF assms(2) f] by (auto simp: session_docs_def)
    have "has_hash d h" using valid_session_doc(1)[OF d(2,3)] by (simp add: has_hash_def)
    with d docs show ?thesis by blast
  next
    case (Panic e)
    with assms(4) c g show ?thesis by (simp add: user_Verify_def Let_def)
  qed
  then obtain d fld v where d: "d \<in> session_docs view w" "doc_matches (valid_session fld v t2) d" "decode_UserSession d = Ok s"
    and hh: "has_hash d h" by blast
  obtain tk where "has_hash d (HashToken (ue_J E) tk)" using tokens_okD(1)[OF inv d(1)] by blast
  then have "h = HashToken (ue_J E) tk" by (rule has_hash_unique) (rule hh)
  then show h: "h = HashToken (ue_J E) tok" using ht by (auto simp: HashToken_def)
  show "ss_AccessTokenHash s = HashToken (ue_J E) tok" using has_hash_decoded[OF hh d(3)] h by simp
  show "ss_IsValid s" "ms_trunc t2 < ss_ExpireTime s" using valid_session_doc(2,3)[OF d(2,3)] by simp_all
  show "\<exists>d \<in> session_docs view w. decode_UserSession d = Ok s" using d by blast
qed

subsection \<open>Logins\<close>

lemma relogin_pipe_sets:
  "c \<in> set (relogin_pipe t4 old new) \<Longrightarrow> sets_at_most (UserSessionKey (ss_AccessTokenHash new)) (ss_SessionID new) c"
  by (auto simp: relogin_pipe_def Let_def sets_at_most_SET sets_at_most_DEL split: option.splits if_splits)

lemma run_pipe_keys:
  assumes "redis_laws R rv" "run_pipe R cs r = (r', x)" "\<And>c. c \<in> set cs \<Longrightarrow> sets_at_most k v c" "r_get j (rv r') = Some y"
  shows "r_get j (rv r) = Some y \<or> j = k \<and> y = RStr v"
proof -
  obtain z where z: "rd_Run R (rthen (rpipe cs) (\<lambda>_. rret LNil)) r = (r', z)"
    using assms(2) by (auto simp: run_pipe_def split: prod.splits go.splits)
  show ?thesis by (rule run_sets_at_most[OF assms(1) z _ assms(4)]) (intro sets_at_most_intros assms(3))
qed

lemma ReplaceOne_view:
  assumes "mlaw_ReplaceOne rp view" "rp c f r ups s = (s', x)"
  shows "view c s' = view c s \<or> view c s' = replace_one_spec f r ups (view c s)"
    "x = Ok y \<Longrightarrow> view c s' = replace_one_spec f r ups (view c s)"
    "c' \<noteq> c \<Longrightarrow> view c' s' = view c' s"
proof -
  have l: "(case x of Ok _ \<Rightarrow> view c s' = replace_one_spec f r ups (view c s)
      | _ \<Rightarrow> view c s' \<in> {view c s, replace_one_spec f r ups (view c s)}) \<and> (\<forall>c'. c' \<noteq> c \<longrightarrow> view c' s' = view c' s)"
    using assms unfolding mlaw_ReplaceOne_def by blast
  then show "view c s' = view c s \<or> view c s' = replace_one_spec f r ups (view c s)" by (auto split: go.splits)
  show "x = Ok y \<Longrightarrow> view c s' = replace_one_spec f r ups (view c s)" using l by simp
  show "c' \<noteq> c \<Longrightarrow> view c' s' = view c' s" using l by blast
qed

text \<open>An id that no stored session and no key has.\<close>

definition fresh_session :: "(string \<Rightarrow> 's \<Rightarrow> doc list) \<Rightarrow> ('r \<Rightarrow> rdb) \<Rightarrow> string \<Rightarrow> ('s, 'r) user_state \<Rightarrow> bool" where
  "fresh_session view rv sid w \<longleftrightarrow>
     (\<forall>d \<in> session_docs view w. \<not> has_id d sid) \<and> (\<forall>k. r_get k (rv (ud_redis w)) \<noteq> Some (RStr sid))"

lemma replace_session_inv:
  assumes inv: "user_inv E view rv w" and laws: "user_laws E view rv" and fr: "fresh_session view rv (ss_SessionID new) w"
    and h: "ss_AccessTokenHash new = HashToken (ue_J E) tok"
  shows "user_inv E view rv (fst (replace_session E t3 t4 key old new w))"
proof -
  let ?new = "new\<lparr> ss_UpdateTime := t3 \<rparr>"
  obtain s1 x where rp: "ue_ReplaceOne E user_session_coll (session_filter key) (bson_UserSession ?new) True (ud_mongo w) = (s1, x)"
    by fastforce
  obtain r1 z where rr: "run_pipe (ue_R E) (relogin_pipe t4 old ?new) (ud_redis w) = (r1, z)" by fastforce
  have l: "mlaw_ReplaceOne (ue_ReplaceOne E) view" "redis_laws (ue_R E) rv" using laws by (simp_all add: user_laws_def)
  have D: "session_docs view \<lparr> ud_mongo = s1, ud_redis = r \<rparr> \<subseteq> insert (bson_UserSession ?new) (session_docs view w)" for r
    using ReplaceOne_view(1)[OF l(1) rp] replace_one_set by (fastforce simp: session_docs_def)
  have n: "has_id (bson_UserSession ?new) (ss_SessionID new)" "has_hash (bson_UserSession ?new) (HashToken (ue_J E) tok)"
    by (simp_all add: has_id_def has_hash_def bson_UserSession_at h)
  have pk: "r_get k (rv r1) = Some y \<Longrightarrow> r_get k (rv (ud_redis w)) = Some y \<or>
      k = UserSessionKey (HashToken (ue_J E) tok) \<and> y = RStr (ss_SessionID new)" for k y
    by (rule run_pipe_keys[OF l(2) rr]) (use relogin_pipe_sets[of _ t4 old ?new] h in auto)
  have "user_inv E view rv \<lparr> ud_mongo = s1, ud_redis = r \<rparr>" if "r = ud_redis w \<or> r = r1" for r
    unfolding user_inv_def
  proof (rule tokens_ok_new[OF inv[unfolded user_inv_def] D n])
    show "\<not> has_id d (ss_SessionID new)" if "d \<in> session_docs view w" for d using fr that by (simp add: fresh_session_def)
    show "r_get k (rv (ud_redis w)) \<noteq> Some (RStr (ss_SessionID new))" for k using fr by (simp add: fresh_session_def)
    show "r_get k (rv (ud_redis w)) = Some (RStr v) \<or> k = UserSessionKey (HashToken (ue_J E) tok) \<and> v = ss_SessionID new"
      if "r_get k (rv (ud_redis \<lparr> ud_mongo = s1, ud_redis = r \<rparr>)) = Some (RStr v)" for k v
      using that \<open>r = ud_redis w \<or> r = r1\<close> pk[of k "RStr v"] by auto
  qed
  then show ?thesis
    using rp rr by (cases w) (auto simp: replace_session_def Let_def split: go.splits)
qed

lemma ReLogin_inv:
  assumes inv: "user_inv E view rv w" and laws: "user_laws E view rv" and fr: "fresh_session view rv (ss_SessionID new) w"
    and h: "ss_AccessTokenHash new = HashToken (ue_J E) tok"
  shows "user_inv E view rv (fst (ReLoginArchiveAndReplace E t3 t4 key new w))"
proof (cases "find_session E (session_filter key @ [(''is_valid'', CEq (MBool True))]) w")
  case (Ok x)
  show ?thesis
  proof (cases x)
    case None
    with Ok replace_session_inv[OF assms] show ?thesis by (simp add: ReLoginArchiveAndReplace_def)
  next
    case (Some old)
    obtain s1 r where i: "mg_InsertOne (ue_M E) user_session_log_coll (archive_doc old) (ud_mongo w) = (s1, r)" by fastforce
    have "view user_session_coll s1 = view user_session_coll (ud_mongo w)"
      by (rule mongo_InsertOne_other[OF _ i]) (use laws in \<open>simp_all add: user_laws_def user_session_coll_def user_session_log_coll_def\<close>)
    then have e: "session_docs view (w\<lparr> ud_mongo := s1 \<rparr>) = session_docs view w" by (simp add: session_docs_def)
    have inv1: "user_inv E view rv (w\<lparr> ud_mongo := s1 \<rparr>)" using inv by (simp add: user_inv_def e)
    have fr1: "fresh_session view rv (ss_SessionID new) (w\<lparr> ud_mongo := s1 \<rparr>)" using fr by (simp add: fresh_session_def e)
    show ?thesis
      using Ok Some i inv1 replace_session_inv[OF inv1 laws fr1 h]
      by (cases r) (simp_all add: ReLoginArchiveAndReplace_def)
  qed
qed (use inv in \<open>simp_all add: ReLoginArchiveAndReplace_def\<close>)

lemma jwt_Generate_hash: "jwt_Generate J opts u sc now = Ok (tok, h, exp) \<Longrightarrow> h = HashToken J tok"
  by (auto simp: jwt_Generate_def Let_def split: go.splits)

lemma Login_inv:
  assumes "user_inv E view rv w" "user_laws E view rv" "fresh_session view rv (lp_SessionID p) w"
  shows "user_inv E view rv (fst (Login E t1 t2 t3 t4 p w))"
proof (cases "GetUserById E (lp_UserID p) w")
  case (Ok user)
  show ?thesis
  proof (cases "jwt_Generate (ue_J E) (jwt_DefaultOptions (ue_secret E)) (lp_UserID p) (lp_Scopes p) t2")
    case g: (Ok g)
    obtain tok h exp where gt: "g = (tok, h, exp)" by (cases g)
    define new where "new = login_session p (if lp_Now p = zero_time then t1 else lp_Now p) g"
    have n: "ss_SessionID new = lp_SessionID p" "ss_AccessTokenHash new = HashToken (ue_J E) tok"
      using jwt_Generate_hash[of "ue_J E"] g gt by (auto simp: new_def login_session_def)
    let ?key = "\<lparr> sk_UserId = us_UserID user, sk_DeviceType = lp_DeviceType p, sk_DeviceID = lp_DeviceID p \<rparr>"
    have r: "user_inv E view rv (fst (ReLoginArchiveAndReplace E t3 t4 ?key new w))"
      by (rule ReLogin_inv[OF assms(1,2) _ n(2)]) (simp add: n(1) assms(3))
    obtain w1 x where "ReLoginArchiveAndReplace E t3 t4 ?key new w = (w1, x)" by fastforce
    with r show ?thesis by (cases x) (simp_all add: Login_def Ok g Let_def new_def[symmetric])
  qed (use assms Ok in \<open>simp_all add: Login_def Let_def\<close>)
qed (use assms in \<open>simp_all add: Login_def\<close>)

subsection \<open>The service as a machine\<close>

text \<open>
  What happens to the sessions of a service: a token is checked; someone logs in, under a session id that
  is new; sessions and keys go away, when their time is over or by hand.
\<close>

inductive user_reach :: "('s, 'r) user_env \<Rightarrow> (string \<Rightarrow> 's \<Rightarrow> doc list) \<Rightarrow> ('r \<Rightarrow> rdb) \<Rightarrow> ('s, 'r) user_state \<Rightarrow> bool"
  for E view rv where
  start: "session_docs view w = {} \<Longrightarrow> user_reach E view rv w"
| check: "user_reach E view rv w \<Longrightarrow> user_reach E view rv (fst (user_Verify E t1 t2 t3 token h w))"
| login: "user_reach E view rv w \<Longrightarrow> fresh_session view rv (lp_SessionID p) w \<Longrightarrow>
    user_reach E view rv (fst (Login E t1 t2 t3 t4 p w))"
| lose: "user_reach E view rv w \<Longrightarrow> session_docs view w' \<subseteq> session_docs view w \<Longrightarrow>
    (\<And>k x. r_get k (rv (ud_redis w')) = Some x \<Longrightarrow> r_get k (rv (ud_redis w)) = Some x) \<Longrightarrow> user_reach E view rv w'"

lemma user_reach_inv:
  assumes "user_laws E view rv" "user_reach E view rv w"
  shows "user_inv E view rv w"
  using assms(2)
proof induction
  case (start w)
  then show ?case by (simp add: user_inv_def tokens_ok_def)
next
  case (check w)
  then show ?case using assms(1) by (simp add: user_Verify_inv user_laws_def)
next
  case (login w)
  then show ?case using assms(1) by (simp add: Login_inv)
next
  case (lose w w')
  from lose.IH[unfolded user_inv_def] show ?case unfolding user_inv_def
    by (rule tokens_ok_sub) (use lose.hyps in auto)
qed

text \<open>C7: whatever logins and checks went before, whatever was lost and whatever of it failed, a check answers
  only with a session that is stored, valid and not over, and that was stored for exactly this token; the
  hash given with it is the token's.\<close>

theorem check_answers_own_session:
  assumes "user_laws E view rv" and "user_reach E view rv w"
    and "user_Verify E t1 t2 t3 token h w = (w', Ok s)"
  shows "ss_AccessTokenHash s = HashToken (ue_J E) token \<and> h = HashToken (ue_J E) token
    \<and> ss_IsValid s \<and> ms_trunc t2 < ss_ExpireTime s \<and> (\<exists>d \<in> session_docs view w. decode_UserSession d = Ok s)"
  using user_Verify_Ok[OF user_reach_inv[OF assms(1,2)] _ _ assms(3)] assms(1) by (simp add: user_laws_def)

subsection \<open>What a login leaves behind\<close>

text \<open>The documents and the keys after a login that succeeded.\<close>

definition login_effect ::
  "(string \<Rightarrow> 's \<Rightarrow> doc list) \<Rightarrow> ('r \<Rightarrow> rdb) \<Rightarrow> UserSessionId \<Rightarrow> UserSession \<Rightarrow> ('s, 'r) user_state \<Rightarrow> ('s, 'r) user_state \<Rightarrow> bool" where
  "login_effect view rv key new w w1 \<longleftrightarrow>
     view user_session_coll (ud_mongo w1) = replace_one_spec (session_filter key) (bson_UserSession new) True (view user_session_coll (ud_mongo w))
   \<and> (\<forall>j y. r_get j (rv (ud_redis w1)) = Some y \<longrightarrow>
        r_get j (rv (ud_redis w)) = Some y \<or> j = UserSessionKey (ss_AccessTokenHash new) \<and> y = RStr (ss_SessionID new))"

lemma replace_session_Ok:
  assumes laws: "user_laws E view rv" and r: "replace_session E t3 t4 key old new w = (w1, Ok ())"
  shows "login_effect view rv key (new\<lparr> ss_UpdateTime := t3 \<rparr>) w w1"
proof -
  let ?new = "new\<lparr> ss_UpdateTime := t3 \<rparr>"
  obtain s1 x where rp: "ue_ReplaceOne E user_session_coll (session_filter key) (bson_UserSession ?new) True (ud_mongo w) = (s1, x)"
    by fastforce
  obtain r1 z where rr: "run_pipe (ue_R E) (relogin_pipe t4 old ?new) (ud_redis w) = (r1, z)" by fastforce
  have l: "mlaw_ReplaceOne (ue_ReplaceOne E) view" "redis_laws (ue_R E) rv" using laws by (simp_all add: user_laws_def)
  obtain y where x: "x = Ok y" using r rp by (cases x) (auto simp: replace_session_def Let_def)
  have w1: "w1 = w\<lparr> ud_mongo := s1, ud_redis := r1 \<rparr>"
    using r rp rr x by (auto simp: replace_session_def Let_def split: go.splits)
  have "r_get j (rv r1) = Some y \<Longrightarrow> r_get j (rv (ud_redis w)) = Some y \<or>
      j = UserSessionKey (ss_AccessTokenHash ?new) \<and> y = RStr (ss_SessionID ?new)" for j y
    by (rule run_pipe_keys[OF l(2) rr]) (use relogin_pipe_sets[of _ t4 old ?new] in auto)
  then show ?thesis using ReplaceOne_view(2)[OF l(1) rp x] by (auto simp: login_effect_def w1)
qed

lemma ReLogin_Ok:
  assumes laws: "user_laws E view rv" and r: "ReLoginArchiveAndReplace E t3 t4 key new w = (w1, Ok ())"
  shows "login_effect view rv key (new\<lparr> ss_UpdateTime := t3 \<rparr>) w w1"
proof -
  obtain x where f: "find_session E (session_filter key @ [(''is_valid'', CEq (MBool True))]) w = Ok x"
    using r by (auto simp: ReLoginArchiveAndReplace_def split: go.splits)
  show ?thesis
  proof (cases x)
    case None
    with f r replace_session_Ok[OF laws] show ?thesis by (simp add: ReLoginArchiveAndReplace_def)
  next
    case (Some old)
    obtain s1 y where i: "mg_InsertOne (ue_M E) user_session_log_coll (archive_doc old) (ud_mongo w) = (s1, y)" by fastforce
    have v: "view user_session_coll s1 = view user_session_coll (ud_mongo w)"
      by (rule mongo_InsertOne_other[OF _ i]) (use laws in \<open>simp_all add: user_laws_def user_session_coll_def user_session_log_coll_def\<close>)
    have "replace_session E t3 t4 key (Some old) new (w\<lparr> ud_mongo := s1 \<rparr>) = (w1, Ok ())"
      using f r Some i by (cases y) (auto simp: ReLoginArchiveAndReplace_def)
    from replace_session_Ok[OF laws this] show ?thesis by (simp add: login_effect_def v)
  qed
qed

lemma Login_Ok:
  assumes laws: "user_laws E view rv" and r: "Login E t1 t2 t3 t4 p w = (w1, Ok rec)"
  obtains user tok exp where "GetUserById E (lp_UserID p) w = Ok user"
    "jwt_Generate (ue_J E) (jwt_DefaultOptions (ue_secret E)) (lp_UserID p) (lp_Scopes p) t2 = Ok (tok, HashToken (ue_J E) tok, exp)"
    "rec = login_session p (if lp_Now p = zero_time then t1 else lp_Now p) (tok, HashToken (ue_J E) tok, exp)"
    "login_effect view rv \<lparr> sk_UserId = us_UserID user, sk_DeviceType = lp_DeviceType p, sk_DeviceID = lp_DeviceID p \<rparr>
       (rec\<lparr> ss_UpdateTime := t3 \<rparr>) w w1"
proof -
  obtain user where u: "GetUserById E (lp_UserID p) w = Ok user" using r by (auto simp: Login_def split: go.splits)
  obtain g where g: "jwt_Generate (ue_J E) (jwt_DefaultOptions (ue_secret E)) (lp_UserID p) (lp_Scopes p) t2 = Ok g"
    using r u by (auto simp: Login_def Let_def split: go.splits)
  obtain tok h exp where gt: "g = (tok, h, exp)" by (cases g)
  have h: "h = HashToken (ue_J E) tok" using jwt_Generate_hash g gt by blast
  let ?key = "\<lparr> sk_UserId = us_UserID user, sk_DeviceType = lp_DeviceType p, sk_DeviceID = lp_DeviceID p \<rparr>"
  define new where "new = login_session p (if lp_Now p = zero_time then t1 else lp_Now p) g"
  obtain w2 x where rl: "ReLoginArchiveAndReplace E t3 t4 ?key new w = (w2, x)" by fastforce
  have "w2 = w1" "x = Ok ()" "rec = new"
    using r u g rl by (auto simp: Login_def Let_def new_def[symmetric] split: go.splits)
  with rl ReLogin_Ok[OF laws] have "login_effect view rv ?key (rec\<lparr> ss_UpdateTime := t3 \<rparr>) w w1" by simp
  then show ?thesis using that[OF u _ _ ] g gt h new_def \<open>rec = new\<close> by simp
qed

lemma ms_trunc_le: "ms_trunc t \<le> t" "t - millisecond < ms_trunc t"
proof -
  have "t = t div millisecond * millisecond + t mod millisecond" "0 \<le> t mod millisecond" "t mod millisecond < millisecond"
    by (simp_all add: millisecond_def)
  then show "ms_trunc t \<le> t" "t - millisecond < ms_trunc t" unfolding ms_trunc_def by linarith+
qed

lemma unix_le: "unix t * second \<le> t" "t - second < unix t * second"
proof -
  have "t = t div second * second + t mod second" "0 \<le> t mod second" "t mod second < second" by (simp_all add: second_def)
  then show "unix t * second \<le> t" "t - second < unix t * second" unfolding unix_def by linarith+
qed

lemma decode_rune_ascii: "(of_char c :: nat) < 0x80 \<Longrightarrow> decode_rune (c # cs) = (of_char c, 1)"
  by (simp add: decode_rune_def byte_at_def)

lemma runes_ascii: "list_all (\<lambda>c. (of_char c :: nat) < 0x80) s \<Longrightarrow> runes s = map (\<lambda>c. (of_char c, [c])) s"
  by (induction s) (simp_all add: decode_rune_ascii)

lemma signingMethod_HS256: "signingMethod ''HS256'' = Ok ''HS256''"
proof -
  have r: "runes ''HS256'' = map (\<lambda>c. (of_char c, [c])) ''HS256''" by (rule runes_ascii) simp
  have "TrimSpace ''HS256'' = ''HS256''" 
    unfolding TrimSpace_def r by (simp add: drop_spaces_def is_space_def in_range_def)
  moreover have "ToUpper ''HS256'' = ''HS256''" 
    unfolding ToUpper_def r by (simp add: encode_rune_def upper_rune_def in_range_def) code_simp
  ultimately show ?thesis by (simp add: signingMethod_def)
qed

lemma jwt_Generate_Verify:
  assumes "jwt_laws J" "jwt_Generate J (jwt_DefaultOptions key) u sc t = Ok (tok, h, exp)" "t \<le> t'" "t' < exp - second"
  shows "\<exists>cl. jwt_Verify J (jwt_DefaultOptions key) t' tok (HashToken J tok) = Ok cl" "exp = t + 2 * 3600 * second"
proof -
  define claims where "claims = [(''sub'', MStr u), (''iat'', MInt (unix t)), (''nbf'', MInt (unix t)), (''exp'', MInt (unix exp))]
      @ omit_if (sc = []) ''scope'' (MArr (map MStr sc))"
  show e: "exp = t + 2 * 3600 * second"
    using assms(2) by (auto simp: jwt_Generate_def jwt_DefaultOptions_def signingMethod_HS256 Let_def second_def split: go.splits)
  have s: "jl_Sign J ''HS256'' key claims = Ok tok"
    using assms(2) e by (auto simp: jwt_Generate_def jwt_DefaultOptions_def signingMethod_HS256 Let_def second_def claims_def split: go.splits)
  have "map_of claims ''nbf'' = Some (MInt (unix t))" "map_of claims ''exp'' = Some (MInt (unix exp))"
    by (simp_all add: claims_def)
  moreover have "unix t * second \<le> t'" "t' < unix exp * second" using unix_le[of t] unix_le[of exp] assms(3,4) by linarith+
  ultimately obtain cl where "jl_Parse J (jwt_key key) t' tok = Ok (True, Some cl)"
    using assms(1) s unfolding jwt_laws_def by (metis jwt_key_def)
  then show "\<exists>cl. jwt_Verify J (jwt_DefaultOptions key) t' tok (HashToken J tok) = Ok cl"
    by (simp add: jwt_Verify_def jwt_DefaultOptions_def signingMethod_HS256)
qed

text \<open>A filter that only one document of a collection can match finds it.\<close>

lemma find_session_only:
  assumes "mongo_laws (ue_M E) view" "mg_FindOne (ue_M E) user_session_coll f (ud_mongo w) = Ok x"
    and "d \<in> session_docs view w" "doc_matches f d" "\<And>e. e \<in> session_docs view w \<Longrightarrow> doc_matches f e \<Longrightarrow> e = d"
  shows "find_session E f w = go_bind (decode_UserSession d) (\<lambda>s. Ok (Some s))"
proof -
  have x: "x = find (doc_matches f) (view user_session_coll (ud_mongo w))" by (rule mongo_FindOne[OF assms(1,2)])
  then have "x \<noteq> None" using assms(3,4) by (auto simp: find_None_iff session_docs_def)
  then obtain e where e: "x = Some e" by blast
  then have "e \<in> session_docs view w" "doc_matches f e"
    using x by (auto simp: session_docs_def find_Some_iff)
  from assms(5)[OF this] e show ?thesis by (simp add: find_session_def assms(2))
qed

text \<open>
  A session that was put in and whose id and hash no other document has is what both searches find, in every state
  with the same documents, as long as it is valid.
\<close>

lemma stored_session_found:
  assumes laws: "mongo_laws (ue_M E) view" and put: "bson_UserSession r \<in> session_docs view w1"
    and D: "\<And>d. d \<in> session_docs view w1 \<Longrightarrow> d = bson_UserSession r \<or> \<not> has_id d (ss_SessionID r) \<and> \<not> has_hash d (ss_AccessTokenHash r)"
    and up: "\<forall>f. \<exists>x. mg_FindOne (ue_M E) user_session_coll f (ud_mongo w1) = Ok x"
    and mg: "ud_mongo w2 = ud_mongo w1" and ok: "ss_IsValid r" "t < ss_ExpireTime r - second"
    and fv: "(fld, v) \<in> {(''session_id'', ss_SessionID r), (''access_token_hash'', ss_AccessTokenHash r)}"
  shows "find_session E (valid_session fld v t) w2 = Ok (Some (stored_session r))"
proof -
  have sd: "session_docs view w2 = session_docs view w1" using mg by (simp add: session_docs_def)
  have less: "mval_less (bson_time t) (bson_time (ss_ExpireTime r))"
    using ms_trunc_le(1)[of t] ms_trunc_le(2)[of "ss_ExpireTime r"] ok(2) by (simp add: bson_time_def ms_trunc_def millisecond_def second_def)
  obtain y where y: "mg_FindOne (ue_M E) user_session_coll (valid_session fld v t) (ud_mongo w2) = Ok y"
    using up by (auto simp: mg)
  have "find_session E (valid_session fld v t) w2 = go_bind (decode_UserSession (bson_UserSession r)) (\<lambda>s. Ok (Some s))"
  proof (rule find_session_only[OF laws y])
    show "bson_UserSession r \<in> session_docs view w2" using put sd by simp
    show "doc_matches (valid_session fld v t) (bson_UserSession r)"
      using fv less ok(1) by (auto simp: doc_matches_def valid_session_def bson_UserSession_at)
    show "e = bson_UserSession r" if "e \<in> session_docs view w2" "doc_matches (valid_session fld v t) e" for e
      using D[of e] that fv sd by (auto simp: doc_matches_def valid_session_def has_id_def has_hash_def)
  qed
  then show ?thesis by (simp add: decode_bson_UserSession)
qed

text \<open>
  A token only says who it is for and in which second it was made: two logins of a user in the same second, on two
  devices for example, are given the same token and hash.
\<close>

theorem same_second_same_token:
  assumes "jwt_Generate J (jwt_DefaultOptions k) u sc t = Ok (tok, h, e)" "unix t = unix t'"
  shows "jwt_Generate J (jwt_DefaultOptions k) u sc t' = Ok (tok, h, t' + 2 * 3600 * second)"
proof -
  have u: "unix (x + 7200 * second) = unix x + 7200" for x by (simp add: unix_def second_def)
  have p: "\<not> second \<le> 0" by (simp add: second_def)
  show ?thesis
    using assms by (auto simp: jwt_Generate_def jwt_DefaultOptions_def signingMethod_HS256 Let_def u p split: go.splits)
qed

text \<open>C28: a token is accepted after the login that made it. The check, with the hash the login gave, answers
  with the session of the login as long as a second is left of it and MongoDB answers, whether Redis answers, fails,
  has lost the entry or runs a command several times. The session id is a new one; no document of MongoDB carries the
  token's hash and Redis lists nothing under it (two logins of a user in one second break this,
  \<open>same_second_same_token\<close>).\<close>

theorem login_then_check:
  assumes laws: "user_laws E view rv" and jl: "jwt_laws (ue_J E)" and login: "Login E t1 t2 t3 t4 p w = (w1, Ok rec)"
    and fresh: "fresh_session view rv (lp_SessionID p) w" "lp_SessionID p \<noteq> ''-''"
    and newtok: "\<forall>d \<in> session_docs view w. \<not> has_hash d (ss_AccessTokenHash rec)"
      "r_get (UserSessionKey (ss_AccessTokenHash rec)) (rv (ud_redis w)) = None"
    and up: "\<forall>f. \<exists>x. mg_FindOne (ue_M E) user_session_coll f (ud_mongo w1) = Ok x"
    and times: "t2 \<le> t5" "t5 < ss_ExpireTime rec - second" "t6 < ss_ExpireTime rec - second" "t7 < ss_ExpireTime rec - second"
  shows "\<exists>w2. user_Verify E t5 t6 t7 (ss_AccessToken rec) (ss_AccessTokenHash rec) w1
    = (w2, Ok (stored_session (rec\<lparr> ss_UpdateTime := t3 \<rparr>)))"
proof -
  let ?new = "rec\<lparr> ss_UpdateTime := t3 \<rparr>"
  from Login_Ok[OF laws login] obtain key tok exp where g: "jwt_Generate (ue_J E) (jwt_DefaultOptions (ue_secret E)) (lp_UserID p) (lp_Scopes p) t2
        = Ok (tok, HashToken (ue_J E) tok, exp)"
    and rec: "rec = login_session p (if lp_Now p = zero_time then t1 else lp_Now p) (tok, HashToken (ue_J E) tok, exp)"
    and eff: "login_effect view rv key ?new w w1" by metis
  have f: "ss_SessionID rec = lp_SessionID p" "ss_AccessToken rec = tok" "ss_AccessTokenHash rec = HashToken (ue_J E) tok"
    "ss_ExpireTime rec = exp" "ss_IsValid rec" by (simp_all add: rec login_session_def)
  have ml: "mongo_laws (ue_M E) view" "redis_laws (ue_R E) rv" using laws by (simp_all add: user_laws_def)
  have in1: "bson_UserSession ?new \<in> session_docs view w1" using eff replace_one_in by (simp add: login_effect_def session_docs_def)
  have D: "d = bson_UserSession ?new \<or> \<not> has_id d (ss_SessionID ?new) \<and> \<not> has_hash d (ss_AccessTokenHash ?new)" if "d \<in> session_docs view w1" for d
  proof -
    have "d = bson_UserSession ?new \<or> d \<in> session_docs view w"
      using eff replace_one_set[of "session_filter key" "bson_UserSession ?new" True] that by (auto simp: login_effect_def session_docs_def)
    then show ?thesis using fresh(1) newtok(1) f(1) unfolding fresh_session_def by auto
  qed
  have "t5 < exp - second" using times(2) f(4) by simp
  from jwt_Generate_Verify(1)[OF jl g times(1) this]
  obtain cl where cl: "jwt_Verify (ue_J E) (jwt_DefaultOptions (ue_secret E)) t5 tok (HashToken (ue_J E) tok) = Ok cl" ..
  obtain w2 x where gk: "get_key E (UserSessionKey (HashToken (ue_J E) tok)) w1 = (w2, x)" by fastforce
  have fs: "find_session E (valid_session fld v t6) w2 = Ok (Some (stored_session ?new))"
    if "(fld, v) \<in> {(''session_id'', lp_SessionID p), (''access_token_hash'', HashToken (ue_J E) tok)}" for fld v
    using stored_session_found[OF ml(1) in1 D up get_key_mongo[OF gk], of t6 fld v] that f times(3) by simp
  show ?thesis
  proof (cases x)
    case (Ok v)
    have "r_get (UserSessionKey (HashToken (ue_J E) tok)) (rv (ud_redis w1)) = Some (RStr v)"
      using get_key_Ok[OF ml(2)] gk Ok by blast
    then have "r_get (UserSessionKey (HashToken (ue_J E) tok)) (rv (ud_redis w)) = Some (RStr v) \<or> RStr v = RStr (ss_SessionID ?new)"
      using eff unfolding login_effect_def by blast
    then have "v = lp_SessionID p" using newtok(2) f(1,3) by simp
    then show ?thesis using gk Ok cl fs fresh(2) by (simp add: user_Verify_def Verify_cached_def f Let_def)
  next
    case (Error e)
    have "0 < ss_ExpireTime (stored_session ?new) - t7"
      using ms_trunc_le(2)[of exp] times(4) f(4) by (simp add: stored_session_def second_def millisecond_def)
    then show ?thesis using gk Error cl fs by (simp add: user_Verify_def Verify_stored_def f Let_def)
  next
    case (Panic e)
    then show ?thesis using gk by (auto simp: get_key_def reply_Text_def redis_run_Panic[OF ml(2)] split: prod.splits go.splits rreply.splits)
  qed
qed

text \<open>C29: a new login of a device takes the token of the old one away: whatever is asked, no check with the
  old hash \<open>h\<close> is answered with a session any more. This holds when the device has at most one stored session, when
  every session that carries \<open>h\<close> is one of this user and device, and when the new token has another hash; the session
  id is a new one. The sessions of a device without an id do not match the filter (\<open>login_without_device_adds\<close>),
  and a token made in the same second is the same one (\<open>same_second_same_token\<close>).\<close>

theorem relogin_revokes_old_token:
  assumes "user_laws E view rv" and "user_reach E view rv w" and "fresh_session view rv (lp_SessionID p) w"
    and "Login E t1 t2 t3 t4 p w = (w1, Ok rec)" and "GetUserById E (lp_UserID p) w = Ok user"
    and "f = session_filter \<lparr> sk_UserId = us_UserID user, sk_DeviceType = lp_DeviceType p, sk_DeviceID = lp_DeviceID p \<rparr>"
    and "length (filter (doc_matches f) (view user_session_coll (ud_mongo w))) \<le> 1"
    and "\<forall>d \<in> session_docs view w. has_hash d h \<longrightarrow> doc_matches f d" and "h \<noteq> ss_AccessTokenHash rec"
  shows "user_Verify E t5 t6 t7 token h w1 \<noteq> (w2, Ok s)"
proof
  assume v: "user_Verify E t5 t6 t7 token h w1 = (w2, Ok s)"
  let ?d = "bson_UserSession (rec\<lparr> ss_UpdateTime := t3 \<rparr>)"
  have inv: "user_inv E view rv w1"
    using Login_inv[OF user_reach_inv[OF assms(1,2)] assms(1,3), of t1 t2 t3 t4] assms(4) by simp
  have ml: "mongo_laws (ue_M E) view" "redis_laws (ue_R E) rv" using assms(1) by (simp_all add: user_laws_def)
  note vo = user_Verify_Ok[OF inv ml v]
  from vo(5) obtain d where d: "d \<in> session_docs view w1" "decode_UserSession d = Ok s" by blast
  from tokens_okD(1)[OF inv[unfolded user_inv_def] d(1)] obtain hh where hh: "has_hash d hh" by blast
  have "hh = h" using has_hash_decoded[OF hh d(2)] vo(1,2) by simp
  with hh have h: "has_hash d h" by simp
  from Login_Ok[OF assms(1,4)] assms(5,6) have "session_docs view w1 = set (replace_one_spec f ?d True (view user_session_coll (ud_mongo w)))"
    unfolding login_effect_def session_docs_def by (metis go.inject(1))
  with d(1) have in1: "d \<in> set (replace_one_spec f ?d True (view user_session_coll (ud_mongo w)))" by simp
  have nd: "d \<noteq> ?d" using h assms(9) by (auto simp: has_hash_def bson_UserSession_at)
  then have "d \<in> session_docs view w" using in1 replace_one_set[of f ?d True "view user_session_coll (ud_mongo w)"]
    by (auto simp: session_docs_def)
  with assms(8) h have "doc_matches f d" by blast
  with replace_one_gone[OF assms(7) in1] nd show False by blast
qed

text \<open>A session without a device id is stored without that field, which the filter for an empty id does not
  match: such a login replaces nothing, and the sessions before it stay as they are.\<close>

theorem login_without_device_adds:
  assumes "user_laws E view rv" and "Login E t1 t2 t3 t4 p w = (w1, Ok rec)" and "lp_DeviceID p = ''''"
    and "\<forall>d \<in> session_docs view w. \<exists>s. d = bson_UserSession s"
  shows "view user_session_coll (ud_mongo w1)
    = view user_session_coll (ud_mongo w) @ [bson_UserSession (rec\<lparr> ss_UpdateTime := t3 \<rparr>)]"
proof -
  from Login_Ok[OF assms(1,2)] obtain u where eff: "login_effect view rv \<lparr> sk_UserId = u, sk_DeviceType = lp_DeviceType p, sk_DeviceID = '''' \<rparr>
      (rec\<lparr> ss_UpdateTime := t3 \<rparr>) w w1" using assms(3) by metis
  have "\<not> doc_matches (session_filter \<lparr> sk_UserId = u, sk_DeviceType = lp_DeviceType p, sk_DeviceID = '''' \<rparr>) d"
    if d: "d \<in> set (view user_session_coll (ud_mongo w))" for d
  proof -
    obtain x where "d = bson_UserSession x" using d assms(4) by (auto simp: session_docs_def)
    then have "map_of d ''device_id'' \<noteq> Some (MStr '''')" by (simp add: bson_UserSession_at)
    then show ?thesis by (simp add: doc_matches_def session_filter_def)
  qed
  then have "replace_first (session_filter \<lparr> sk_UserId = u, sk_DeviceType = lp_DeviceType p, sk_DeviceID = '''' \<rparr>) r
      (view user_session_coll (ud_mongo w)) = None" for r by (simp add: replace_first_None)
  with eff show ?thesis by (simp add: login_effect_def replace_one_spec_def)
qed

subsection \<open>A service to try things on\<close>

definition toy_jwt :: jwt_lib where
  "toy_jwt = \<lparr> jl_Sign = (\<lambda>alg key cl. Ok (case map_of cl ''iat'' of Some (MInt i) \<Rightarrow> itoa i | _ \<Rightarrow> '''')),
     jl_Parse = (\<lambda>kf t tok. case kf True of Ok _ \<Rightarrow> Ok (True, Some []) | Error e \<Rightarrow> Error e | Panic e \<Rightarrow> Panic e),
     jl_Sum256 = (\<lambda>s. s) \<rparr>"

definition mem_replace :: "string \<Rightarrow> mfilter \<Rightarrow> doc \<Rightarrow> bool \<Rightarrow> mem_db \<Rightarrow> mem_db \<times> update_result go" where
  "mem_replace c f r ups s = (AList.update c (replace_one_spec f r ups (mem_view c s)) s,
     Ok \<lparr> ur_Matched = 1, ur_Modified = 1, ur_Upserted = 0 \<rparr>)"

definition toy_users :: "(mem_db, mem_rd) user_env" where
  "toy_users = \<lparr> ue_M = mem_mongo, ue_ReplaceOne = mem_replace, ue_R = mem_redis, ue_J = toy_jwt, ue_secret = ''k'' \<rparr>"

definition toy_state :: "(mem_db, mem_rd) user_state" where
  "toy_state = \<lparr> ud_mongo = [(''user'', [[(''user_id'', MStr ''alice'')]])],
     ud_redis = \<lparr> mr_db = \<lparr> rd_now = 0, rd_keys = [] \<rparr>, mr_published = [] \<rparr> \<rparr>"

definition toy_params :: "string \<Rightarrow> string \<Rightarrow> LoginParams" where
  "toy_params sid dev = \<lparr> lp_SessionID = sid, lp_UserID = ''alice'', lp_TenantID = '''', lp_DeviceType = ''web'', lp_DeviceID = dev,
     lp_IP = '''', lp_UserAgent = '''', lp_Scopes = [], lp_TTL = 0, lp_Now = zero_time \<rparr>"

lemma toy_laws: "user_laws toy_users mem_view mr_db"
  using mem_mongo_laws mem_redis_laws
  by (auto simp: user_laws_def toy_users_def mlaw_ReplaceOne_def mem_replace_def mem_view_def)

lemma toy_jwt_laws: "jwt_laws toy_jwt"
  by (auto simp: jwt_laws_def toy_jwt_def)

lemma TrimSpace_alice: "TrimSpace ''alice'' = ''alice''"
proof -
  have r: "runes ''alice'' = map (\<lambda>c. (of_char c, [c])) ''alice''" by (rule runes_ascii) simp
  show ?thesis unfolding TrimSpace_def r by (simp add: drop_spaces_def is_space_def in_range_def)
qed

lemma toy_user: "\<exists>u. GetUserById toy_users ''alice'' w = Ok u \<and> us_UserID u = ''alice''"
  if "map_of (ud_mongo w) ''user'' = Some [[(''user_id'', MStr ''alice'')]]"
  using that
  by (simp add: GetUserById_def toy_users_def mem_mongo_def mem_view_def TrimSpace_alice doc_matches_def decode_User_def decode_str_def
      decode_int32_def decode_int64_def decode_bool_def decode_time_opt_def decode_time_def)

lemma toy_gen:
  "jwt_Generate (ue_J toy_users) (jwt_DefaultOptions (ue_secret toy_users)) ''alice'' [] t
   = Ok (itoa (unix t), HashToken toy_jwt (itoa (unix t)), t + 2 * 3600 * second)"
  by (simp add: jwt_Generate_def toy_users_def toy_jwt_def jwt_DefaultOptions_def signingMethod_HS256 second_def omit_if_def Let_def)

definition toy_rec :: "string \<Rightarrow> string \<Rightarrow> time \<Rightarrow> UserSession" where
  "toy_rec sid dev t = login_session (toy_params sid dev) t (itoa (unix t), HashToken toy_jwt (itoa (unix t)), t + 2 * 3600 * second)"

definition toy_relogin :: "string \<Rightarrow> string \<Rightarrow> time \<Rightarrow> (mem_db, mem_rd) user_state \<Rightarrow> (mem_db, mem_rd) user_state" where
  "toy_relogin sid dev t w = fst (ReLoginArchiveAndReplace toy_users t t
     \<lparr> sk_UserId = ''alice'', sk_DeviceType = ''web'', sk_DeviceID = dev \<rparr> (toy_rec sid dev t) w)"

lemma toy_Login:
  assumes "map_of (ud_mongo w) ''user'' = Some [[(''user_id'', MStr ''alice'')]]" and "t \<noteq> zero_time"
    and "ReLoginArchiveAndReplace toy_users t t \<lparr> sk_UserId = ''alice'', sk_DeviceType = ''web'', sk_DeviceID = dev \<rparr> (toy_rec sid dev t) w
      = (w1, Ok ())"
  shows "Login toy_users t t t t (toy_params sid dev) w = (w1, Ok (toy_rec sid dev t))"
proof -
  obtain u where u: "GetUserById toy_users ''alice'' w = Ok u" "us_UserID u = ''alice''" using toy_user[OF assms(1)] by blast
  have p: "lp_UserID (toy_params sid dev) = ''alice''" "lp_Scopes (toy_params sid dev) = []" "lp_DeviceType (toy_params sid dev) = ''web''"
    "lp_DeviceID (toy_params sid dev) = dev" "lp_Now (toy_params sid dev) = zero_time" by (simp_all add: toy_params_def)
  show ?thesis
    using assms(3) by (simp add: Login_def p u toy_gen Let_def toy_rec_def)
qed

definition toy_w1 :: "(mem_db, mem_rd) user_state" where
  "toy_w1 = toy_relogin ''s1'' ''phone'' 0 toy_state"

lemma toy_first: "snd (ReLoginArchiveAndReplace toy_users 0 0 \<lparr> sk_UserId = ''alice'', sk_DeviceType = ''web'', sk_DeviceID = ''phone'' \<rparr>
   (toy_rec ''s1'' ''phone'' 0) toy_state) = Ok ()"
  by code_simp

definition toy_h :: "time \<Rightarrow> string" where
  "toy_h t = HashToken toy_jwt (itoa (unix t))"

lemma toy_sel [simp]: "ue_J toy_users = toy_jwt" "ue_secret toy_users = ''k''"
  by (simp_all add: toy_users_def)

lemma toy_rec_sel: "ss_AccessTokenHash (toy_rec sid dev t) = toy_h t" "ss_AccessToken (toy_rec sid dev t) = itoa (unix t)"
  "ss_ExpireTime (toy_rec sid dev t) = t + 2 * 3600 * second" "lp_SessionID (toy_params sid dev) = sid" "lp_DeviceID (toy_params sid dev) = dev"
  by (simp_all add: toy_rec_def toy_h_def login_session_def toy_params_def)

lemma toy_relogin_Ok:
  assumes "map_of (ud_mongo w) ''user'' = Some [[(''user_id'', MStr ''alice'')]]" "t \<noteq> zero_time"
    and "snd (ReLoginArchiveAndReplace toy_users t t \<lparr> sk_UserId = ''alice'', sk_DeviceType = ''web'', sk_DeviceID = dev \<rparr> (toy_rec sid dev t) w) = Ok ()"
  shows "Login toy_users t t t t (toy_params sid dev) w = (toy_relogin sid dev t w, Ok (toy_rec sid dev t))"
  by (rule toy_Login[OF assms(1,2)]) (simp add: toy_relogin_def prod_eq_iff assms(3))

lemma toy_login1: "Login toy_users 0 0 0 0 (toy_params ''s1'' ''phone'') toy_state = (toy_w1, Ok (toy_rec ''s1'' ''phone'' 0))"
  unfolding toy_w1_def by (rule toy_relogin_Ok[OF _ _ toy_first]) (simp_all add: toy_state_def zero_time_def second_def)

lemma toy_state_empty: "session_docs mem_view toy_state = {}" "r_get k (mr_db (ud_redis toy_state)) = None"
  by (simp_all add: session_docs_def mem_view_def toy_state_def user_session_coll_def r_get_def)

lemma toy_state_fresh: "fresh_session mem_view mr_db sid toy_state"
  by (simp add: fresh_session_def toy_state_empty)

lemma toy_w1_reach: "user_reach toy_users mem_view mr_db toy_w1"
  using user_reach.login[OF user_reach.start[OF toy_state_empty(1)], of mr_db "toy_params ''s1'' ''phone''" toy_users 0 0 0 0] toy_login1
    toy_state_fresh by (simp add: toy_rec_sel)

text \<open>The library accepts every token with its hash.\<close>

lemma toy_Verify:
  "user_Verify toy_users t1 t2 t3 token (HashToken toy_jwt token) w =
     (case get_key toy_users (UserSessionKey (HashToken toy_jwt token)) w of
             (w1, Ok v) \<Rightarrow> Verify_cached toy_users t2 (UserSessionKey (HashToken toy_jwt token)) v w1
           | (w1, Panic e) \<Rightarrow> (w1, Panic e)
           | (w1, Error _) \<Rightarrow> Verify_stored toy_users t2 t3 (UserSessionKey (HashToken toy_jwt token)) (HashToken toy_jwt token) w1)"
proof -
  have "jl_Parse toy_jwt (jwt_key ''k'') t token = Ok (True, Some [])" for t by (simp add: toy_jwt_def jwt_key_def)
  then show ?thesis by (simp add: user_Verify_def jwt_Verify_def jwt_DefaultOptions_def signingMethod_HS256 Let_def cong: go.case_cong)
qed

lemma toy_cached: "get_key toy_users (UserSessionKey (toy_h 0)) toy_w1 = (toy_w1, Ok ''s1'')"
  "snd (Verify_cached toy_users 1 (UserSessionKey (toy_h 0)) ''s1'' toy_w1) = Ok (stored_session ((toy_rec ''s1'' ''phone'' 0)\<lparr> ss_UpdateTime := 0 \<rparr>))"
  by code_simp+

theorem check_answers_own_session_witness:
  "\<exists>s. snd (user_Verify toy_users 1 1 1 (itoa (unix 0)) (toy_h 0) toy_w1) = Ok s \<and> ss_AccessTokenHash s = toy_h 0
    \<and> ss_IsValid s"
proof -
  obtain w' s where v: "user_Verify toy_users 1 1 1 (itoa (unix 0)) (toy_h 0) toy_w1 = (w', Ok s)"
    using toy_Verify[of 1 1 1 "itoa (unix 0)" toy_w1] toy_cached unfolding toy_h_def
    by (cases "Verify_cached toy_users 1 (UserSessionKey (HashToken toy_jwt (itoa (unix 0)))) ''s1'' toy_w1") simp
  from check_answers_own_session[OF toy_laws toy_w1_reach v] v show ?thesis by (simp add: toy_h_def)
qed

theorem login_then_check_witness:
  "\<exists>w2. user_Verify toy_users 1 1 1 (ss_AccessToken (toy_rec ''s1'' ''phone'' 0)) (toy_h 0) toy_w1
    = (w2, Ok (stored_session ((toy_rec ''s1'' ''phone'' 0)\<lparr> ss_UpdateTime := 0 \<rparr>)))"
proof -
  have "\<forall>f. \<exists>x. mg_FindOne (ue_M toy_users) user_session_coll f (ud_mongo toy_w1) = Ok x"
    by (simp add: toy_users_def mem_mongo_def)
  from login_then_check[OF toy_laws _ toy_login1 _ _ _ _ this, of 1 1 1] show ?thesis
    by (simp add: toy_rec_sel toy_jwt_laws toy_state_fresh toy_state_empty second_def)
qed

definition toy_w2 :: "(mem_db, mem_rd) user_state" where
  "toy_w2 = toy_relogin ''s2'' ''phone'' (5 * second) toy_w1"

lemma toy_second: "snd (ReLoginArchiveAndReplace toy_users (5 * second) (5 * second)
   \<lparr> sk_UserId = ''alice'', sk_DeviceType = ''web'', sk_DeviceID = ''phone'' \<rparr> (toy_rec ''s2'' ''phone'' (5 * second)) toy_w1) = Ok ()"
  by code_simp

lemma toy_w1_mongo: "ud_mongo toy_w1 = [(''user'', [[(''user_id'', MStr ''alice'')]]),
    (''user_session'', [bson_UserSession ((toy_rec ''s1'' ''phone'' 0)\<lparr> ss_UpdateTime := 0 \<rparr>)])]"
  by code_simp

lemma toy_w1_keys: "rd_keys (mr_db (ud_redis toy_w1)) = [(UserSessionKey (toy_h 0), RStr ''s1'', Some 7200000)]"
  by code_simp

lemma toy_w1_view: "view_docs = [bson_UserSession ((toy_rec ''s1'' ''phone'' 0)\<lparr> ss_UpdateTime := 0 \<rparr>)]"
  if "view_docs = mem_view user_session_coll (ud_mongo toy_w1)"
  using that by (simp add: toy_w1_mongo mem_view_def user_session_coll_def)

lemma toy_w1_fresh: "fresh_session mem_view mr_db ''s2'' toy_w1"
  using toy_w1_view[OF HOL.refl]
  by (simp add: fresh_session_def session_docs_def has_id_def bson_UserSession_at toy_rec_def login_session_def toy_params_def
      r_get_def toy_w1_keys)

theorem relogin_revokes_old_token_witness:
  "\<nexists>s. snd (user_Verify toy_users 1 (6 * second) 1 (itoa (unix 0)) (toy_h 0) toy_w2) = Ok s"
proof -
  have m: "map_of (ud_mongo toy_w1) ''user'' = Some [[(''user_id'', MStr ''alice'')]]" by (simp add: toy_w1_mongo)
  have l: "Login toy_users (5 * second) (5 * second) (5 * second) (5 * second) (toy_params ''s2'' ''phone'') toy_w1
      = (toy_w2, Ok (toy_rec ''s2'' ''phone'' (5 * second)))"
    unfolding toy_w2_def by (rule toy_relogin_Ok[OF m _ toy_second]) (simp add: zero_time_def second_def)
  obtain u where u: "GetUserById toy_users ''alice'' toy_w1 = Ok u" "us_UserID u = ''alice''" using toy_user[OF m] by blast
  have h: "toy_h 0 \<noteq> toy_h (5 * second)" by code_simp
  show ?thesis
  proof
    assume "\<exists>s. snd (user_Verify toy_users 1 (6 * second) 1 (itoa (unix 0)) (toy_h 0) toy_w2) = Ok s"
    then obtain w s where v: "user_Verify toy_users 1 (6 * second) 1 (itoa (unix 0)) (toy_h 0) toy_w2 = (w, Ok s)" by (metis prod.collapse)
    from relogin_revokes_old_token[OF toy_laws toy_w1_reach _ l, of u _ "toy_h 0" 1 "6 * second" 1 "itoa (unix 0)" w s] v
    show False
      using u h toy_w1_view[OF HOL.refl] toy_w1_fresh
      by (simp add: toy_rec_sel session_docs_def has_hash_def bson_UserSession_at toy_params_def doc_matches_def session_filter_def
          toy_rec_def login_session_def toy_h_def)
  qed
qed

definition toy_v1 :: "(mem_db, mem_rd) user_state" where
  "toy_v1 = toy_relogin ''s1'' '''' 0 toy_state"

lemma toy_third: "snd (ReLoginArchiveAndReplace toy_users (5 * second) (5 * second)
   \<lparr> sk_UserId = ''alice'', sk_DeviceType = ''web'', sk_DeviceID = '''' \<rparr> (toy_rec ''s2'' '''' (5 * second)) toy_v1) = Ok ()"
  by code_simp

lemma toy_v1_mongo: "ud_mongo toy_v1 = [(''user'', [[(''user_id'', MStr ''alice'')]]),
    (''user_session'', [bson_UserSession ((toy_rec ''s1'' '''' 0)\<lparr> ss_UpdateTime := 0 \<rparr>)])]"
  by code_simp

theorem login_without_device_adds_witness:
  "length (mem_view user_session_coll (ud_mongo (toy_relogin ''s2'' '''' (5 * second) toy_v1))) = 2"
proof -
  have m: "map_of (ud_mongo toy_v1) ''user'' = Some [[(''user_id'', MStr ''alice'')]]" by (simp add: toy_v1_mongo)
  have v: "mem_view user_session_coll (ud_mongo toy_v1) = [bson_UserSession ((toy_rec ''s1'' '''' 0)\<lparr> ss_UpdateTime := 0 \<rparr>)]"
    by (simp add: toy_v1_mongo mem_view_def user_session_coll_def)
  have l: "Login toy_users (5 * second) (5 * second) (5 * second) (5 * second) (toy_params ''s2'' '''') toy_v1
      = (toy_relogin ''s2'' '''' (5 * second) toy_v1, Ok (toy_rec ''s2'' '''' (5 * second)))"
    by (rule toy_relogin_Ok[OF m _ toy_third]) (simp add: zero_time_def second_def)
  have ex: "\<forall>d \<in> session_docs mem_view toy_v1. \<exists>s. d = bson_UserSession s" using v by (auto simp: session_docs_def)
  from login_without_device_adds[OF toy_laws l _ ex] v show ?thesis by (simp add: toy_rec_sel)
qed

end
