(* ===== verification/Requests.thy ===== *)
theory Requests
  imports UserService Errors Natsx
begin

section \<open>Requests of the API\<close>

text \<open>
  \<^verbatim>\<open>module/user/handler.go\<close>, \<^verbatim>\<open>global/msg.go\<close> and \<^verbatim>\<open>middleware/\<close>: the three handlers of users
  with what they write as an answer, and the middlewares over the calls of the web framework, which is a parameter.
  What binding the body of a request gives is an argument.
\<close>

subsection \<open>Answers\<close>

text \<open>The bodies of an answer: an error's text, an error of the catalogue, a session, or a user who may be nil.\<close>

datatype body = BError string | BCode CodeError | BSession UserSession | BMsg int string "UserSession option" | BUser "User option"

text \<open>What was written so far, and how the handler ended; a panic after a write leaves it written.\<close>

type_synonym answer = "(int \<times> body) list \<times> unit go"

definition err_args :: CodeError where
  "err_args = NewCodeError 1001 ''ArgsError''"

definition err_token_expired :: CodeError where
  "err_token_expired = NewCodeError 1501 ''TokenExpiredError''"

definition Sucess :: "UserSession \<Rightarrow> body" where
  "Sucess s = BMsg 200 '''' (Some s)"

definition HandlerLogin ::
  "('s, 'r) user_env \<Rightarrow> time \<Rightarrow> time \<Rightarrow> time \<Rightarrow> time \<Rightarrow> LoginParams go \<Rightarrow> string \<Rightarrow> ('s, 'r) user_state \<Rightarrow> ('s, 'r) user_state \<times> answer" where
  "HandlerLogin E t1 t2 t3 t4 bound sessionId w =
     (case bound of
        Error e \<Rightarrow> (w, [(400, BError e)], Ok ())
      | Panic e \<Rightarrow> (w, [], Panic e)
      | Ok p \<Rightarrow>
          (case Login E t1 t2 t3 t4 (p\<lparr> lp_SessionID := sessionId \<rparr>) w of
             (w1, Ok login) \<Rightarrow> (w1, [(200, BSession login)], Ok ())
           | (w1, Error e) \<Rightarrow> (w1, [(200, BCode err_args)], Ok ())
           | (w1, Panic e) \<Rightarrow> (w1, [], Panic e)))"

record check_params =
  cp_Token :: string
  cp_TokenHash :: string

text \<open>\<open>verify\<close> is the check of the service with its readings of the clock.\<close>

definition HandlerCheck ::
  "(string \<Rightarrow> string \<Rightarrow> ('s, 'r) user_state \<Rightarrow> ('s, 'r) user_state \<times> UserSession go) \<Rightarrow> check_params go \<Rightarrow> ('s, 'r) user_state \<Rightarrow> ('s, 'r) user_state \<times> answer" where
  "HandlerCheck verify bound w =
     (case bound of
        Error e \<Rightarrow> (w, [(400, BError e)], Ok ())
      | Panic e \<Rightarrow> (w, [], Panic e)
      | Ok p \<Rightarrow>
          (case verify (cp_Token p) (cp_TokenHash p) w of
             (w1, Ok s) \<Rightarrow> (w1, [(200, Sucess s)], Ok ())
           | (w1, Error e) \<Rightarrow> (w1, [(200, BCode err_token_expired)], Ok ())
           | (w1, Panic e) \<Rightarrow> (w1, [], Panic e)))"

text \<open>The handler goes on after it has written an error; without credentials it reads a nil pointer.\<close>

definition HandleUserInfo :: "('s, 'r) user_env \<Rightarrow> time \<Rightarrow> time \<Rightarrow> (string \<Rightarrow> string) \<Rightarrow> ('s, 'r) user_state \<Rightarrow> answer" where
  "HandleUserInfo E t1 t2 hdr w =
     (case GetAuthInfo (ue_J E) (ue_secret E) t1 hdr of
        Panic e \<Rightarrow> ([], Panic e)
      | Error e \<Rightarrow> ([(400, BError e)], Panic ''nil pointer dereference'')
      | Ok a \<Rightarrow>
          (case GetUserByToken E t2 (ai_Token a) (ai_Hash a) w of
             Panic e \<Rightarrow> ([], Panic e)
           | Error e \<Rightarrow> ([(400, BError e), (200, BUser None)], Ok ())
           | Ok u \<Rightarrow> ([(200, BUser (Some u))], Ok ())))"

text \<open>No request without valid credentials is shown a user; every such request is answered twice or panics.\<close>

theorem user_info_needs_credentials:
  "HandleUserInfo E t1 t2 hdr w = (ws, x) \<Longrightarrow> (c, BUser (Some u)) \<in> set ws \<Longrightarrow>
   \<exists>a. GetAuthInfo (ue_J E) (ue_secret E) t1 hdr = Ok a \<and> GetUserByToken E t2 (ai_Token a) (ai_Hash a) w = Ok u \<and> ws = [(200, BUser (Some u))]"
  by (auto simp: HandleUserInfo_def split: go.splits)

theorem user_info_goes_on:
  "GetAuthInfo (ue_J E) (ue_secret E) t1 hdr = Error e \<Longrightarrow> HandleUserInfo E t1 t2 hdr w = ([(400, BError e)], Panic ''nil pointer dereference'')"
  "GetAuthInfo (ue_J E) (ue_secret E) t1 hdr = Ok a \<Longrightarrow> GetUserByToken E t2 (ai_Token a) (ai_Hash a) w = Error e \<Longrightarrow>
     HandleUserInfo E t1 t2 hdr w = ([(400, BError e), (200, BUser None)], Ok ())"
  by (simp_all add: HandleUserInfo_def)

subsection \<open>Middlewares\<close>

text \<open>
  The web framework is a parameter: a record of the calls the middlewares make on a request's context. \<open>gin_Next\<close>
  runs the handlers that are still to come, \<open>gin_Abort\<close> is \<^verbatim>\<open>AbortWithStatusJSON\<close>. A handler changes the context.
\<close>

record 'c gin =
  gin_GetHeader :: "string \<Rightarrow> 'c \<Rightarrow> string"
  gin_Set :: "string \<Rightarrow> string \<Rightarrow> 'c \<Rightarrow> 'c"
  gin_Next :: "'c \<Rightarrow> 'c"
  gin_Abort :: "int \<Rightarrow> body \<Rightarrow> 'c \<Rightarrow> 'c"
  gin_IsAborted :: "'c \<Rightarrow> bool"

type_synonym 'c gin_handler = "'c \<Rightarrow> 'c"

text \<open>The manager keeps its middlewares in the order they were added; \<open>mids_Use\<close> is what it mounts.\<close>

definition mids_NewManager :: "'c gin_handler list" where
  "mids_NewManager = []"

definition mids_Add :: "'c gin_handler \<Rightarrow> 'c gin_handler list \<Rightarrow> 'c gin_handler list" where
  "mids_Add h mids = mids @ [h]"

definition mids_Clear :: "'c gin_handler list \<Rightarrow> 'c gin_handler list" where
  "mids_Clear mids = []"

fun mids_Use :: "'c gin \<Rightarrow> 'c gin_handler list \<Rightarrow> 'c gin_handler" where
  "mids_Use G [] c = gin_Next G c"
| "mids_Use G (h # hs) c = (let c1 = h c in if gin_IsAborted G c1 then c1 else mids_Use G hs c1)"

text \<open>The middlewares of the program, and the handlers of a route.\<close>

definition Origin :: "'c gin \<Rightarrow> 'c gin_handler" where
  "Origin G = gin_Next G"

definition security_Middleware :: "'c gin \<Rightarrow> auth_options \<Rightarrow> 'c gin_handler" where
  "security_Middleware G opts c =
     (case auth_Middleware opts (\<lambda>k. gin_GetHeader G k c) of (sets, pass) \<Rightarrow>
        (let c1 = fold (\<lambda>(k, v). gin_Set G k v) sets c
         in if pass then gin_Next G c1 else gin_Abort G 200 (BCode err_token_expired) c1))"

definition route_handlers :: "'c gin \<Rightarrow> 'c gin_handler \<Rightarrow> bool \<Rightarrow> 'c gin_handler list" where
  "route_handlers G handler isAuth = (if isAuth then [security_Middleware G auth_DefaultOptions, handler] else [handler])"

text \<open>A middleware that lets the request go on has run everything that comes after the manager; the middlewares that
  were added after it are given the context of a request that was handled.\<close>

lemma later_middleware_after_next:
  "mids_Use G (mids_Add m (mids_Add (Origin G) mids_NewManager)) c =
     (let c1 = gin_Next G c; c2 = m c1
      in if gin_IsAborted G c1 then c1 else if gin_IsAborted G c2 then c2 else gin_Next G c2)"
  by (simp add: mids_Add_def mids_NewManager_def Origin_def Let_def)

text \<open>A middleware that aborts ends the manager's loop, and only the ones before it have run.\<close>

lemma mids_Use_append:
  assumes "\<And>c'. \<not> gin_IsAborted G c' \<Longrightarrow> list_all (\<lambda>h. \<not> gin_IsAborted G (h c')) before" "\<not> gin_IsAborted G c"
  shows "mids_Use G (before @ later) c = mids_Use G later (fold (\<lambda>h. h) before c)"
  using assms
proof (induction before arbitrary: c)
  case (Cons h hs)
  from Cons.prems(1)[OF Cons.prems(2)] have n: "\<not> gin_IsAborted G (h c)" by simp
  have "list_all (\<lambda>h. \<not> gin_IsAborted G (h c')) hs" if "\<not> gin_IsAborted G c'" for c' using Cons.prems(1)[OF that] by simp
  from Cons.IH[OF this n] n show ?case by (simp add: Let_def)
qed simp

subsection \<open>Small helpers\<close>

definition ParseMode :: "string \<Rightarrow> int" where
  "ParseMode s = (if ToLower s = ''core'' then Core else if ToLower s = ''js_push'' then JetStreamPush
     else if ToLower s = ''js_pull'' then JetStreamPull else Core)"

text \<open>\<^verbatim>\<open>bytes\<close> are the sixteen random ones.\<close>

definition hex_digit :: "nat \<Rightarrow> char" where
  "hex_digit n = ''0123456789abcdef'' ! n"

definition RandMsgID :: "string \<Rightarrow> string" where
  "RandMsgID rnd = concat (map (\<lambda>c. [hex_digit (of_char c div 16), hex_digit (of_char c mod 16)]) rnd)"

lemma hex_digit_inj: "a < 16 \<Longrightarrow> b < 16 \<Longrightarrow> hex_digit a = hex_digit b \<Longrightarrow> a = b"
proof -
  have d: "distinct ''0123456789abcdef''" by code_simp
  assume "a < 16" "b < 16" "hex_digit a = hex_digit b"
  with d show ?thesis by (simp add: hex_digit_def nth_eq_iff_index_eq)
qed

text \<open>Different bytes give different ids.\<close>

theorem RandMsgID_inj: "RandMsgID xs = RandMsgID ys \<Longrightarrow> xs = ys"
proof (induction xs arbitrary: ys)
  case Nil
  then show ?case by (cases ys) (auto simp: RandMsgID_def)
next
  case (Cons x xs)
  then obtain y ys' where ys: "ys = y # ys'" by (cases ys) (auto simp: RandMsgID_def)
  have lt: "(of_char c :: nat) div 16 < 16" for c
  proof -
    have "(of_char c :: nat) \<in> {0..<256}" unfolding range_nat_of_char[symmetric] by (rule rangeI)
    then have "(of_char c :: nat) < 16 * 16" by (simp only: atLeastLessThan_iff) linarith
    then show ?thesis by (rule less_mult_imp_div_less)
  qed
  have "hex_digit (of_char x div 16) = hex_digit (of_char y div 16)" "hex_digit (of_char x mod 16) = hex_digit (of_char y mod 16)" "RandMsgID xs = RandMsgID ys'"
    using Cons.prems ys by (simp_all add: RandMsgID_def)
  then have "(of_char x :: nat) div 16 = of_char y div 16" "(of_char x :: nat) mod 16 = of_char y mod 16" "xs = ys'"
    using lt Cons.IH by (auto intro: hex_digit_inj)
  then have "(of_char x :: nat) = of_char y" by (metis div_mult_mod_eq)
  with ys \<open>xs = ys'\<close> show ?case by simp
qed

end
