(* ===== verification/ChatBox.thy ===== *)
theory ChatBox
  imports BsonCode
begin

section \<open>The log of a help desk conversation and its two timelines\<close>

text \<open>
  \<^verbatim>\<open>module/chatBox/\<close>: events get the next number of their conversation and are stored once
  per event id, in a transaction; the projector follows the change stream of the events and keeps what
  customers may read (\<^verbatim>\<open>public_timeline\<close>) apart from what only agents may read
  (\<^verbatim>\<open>private_notes\<close>). MongoDB, its sessions and its change stream are parameters.
\<close>

subsection \<open>Events\<close>

record ACLList =
  al_Teams :: "string list"
  al_Agents :: "string list"
  al_Roles :: "string list"
  al_Tags :: "string list"

definition bson_ACLList :: "ACLList \<Rightarrow> doc" where
  "bson_ACLList s = omit_if (al_Teams s = []) ''teams'' (MArr (map MStr (al_Teams s)))
     @ omit_if (al_Agents s = []) ''agents'' (MArr (map MStr (al_Agents s)))
     @ omit_if (al_Roles s = []) ''roles'' (MArr (map MStr (al_Roles s)))
     @ omit_if (al_Tags s = []) ''tags'' (MArr (map MStr (al_Tags s)))"

definition decode_ACLList :: "doc \<Rightarrow> ACLList go" where
  "decode_ACLList d =
     go_bind (decode_strs d ''teams'') (\<lambda>v1.
     go_bind (decode_strs d ''agents'') (\<lambda>v2.
     go_bind (decode_strs d ''roles'') (\<lambda>v3.
     go_bind (decode_strs d ''tags'') (\<lambda>v4.
       Ok \<lparr> al_Teams = v1, al_Agents = v2, al_Roles = v3, al_Tags = v4 \<rparr>))))"

text \<open>A field that holds a document: a missing one is the zero value.\<close>

definition decode_acl :: "doc \<Rightarrow> string \<Rightarrow> ACLList option go" where
  "decode_acl d k = (case map_of d k of
       None \<Rightarrow> Ok None | Some MNull \<Rightarrow> Ok None
     | Some (MDoc a) \<Rightarrow> go_bind (decode_ACLList a) (\<lambda>l. Ok (Some l)) | _ \<Rightarrow> Error ''error decoding key'')"

definition decode_map :: "doc \<Rightarrow> string \<Rightarrow> doc go" where
  "decode_map d k = (case map_of d k of
       None \<Rightarrow> Ok [] | Some MNull \<Rightarrow> Ok [] | Some (MDoc m) \<Rightarrow> Ok m | _ \<Rightarrow> Error ''error decoding key'')"

definition decode_oid :: "doc \<Rightarrow> string \<Rightarrow> string go" where
  "decode_oid d k = (case map_of d k of
       None \<Rightarrow> Ok zero_oid | Some MNull \<Rightarrow> Ok zero_oid | Some (MOid x) \<Rightarrow> Ok x | _ \<Rightarrow> Error ''error decoding key'')"

record ConversationEvent =
  ce_ID :: string
  ce_TenantID :: string
  ce_ConversationID :: string
  ce_Seq :: int
  ce_EventID :: string
  ce_EventType :: string
  ce_ActorType :: string
  ce_ActorID :: string
  ce_ContentType :: int
  ce_Payload :: doc
  ce_VisMode :: string
  ce_VisAllow :: "ACLList option"
  ce_VisDeny :: "ACLList option"
  ce_Sensitivity :: string
  ce_EffectiveMS :: int
  ce_ExpireAtMS :: int
  ce_VisVersion :: int
  ce_CreatedAtMS :: int
  ce_TraceID :: string
  ce_TargetEventID :: string
  ce_TargetSeq :: int

definition bson_ConversationEvent :: "ConversationEvent \<Rightarrow> doc" where
  "bson_ConversationEvent s = omit_if (ce_ID s = zero_oid) ''_id'' (MOid (ce_ID s))
     @ [(''tenant_id'', MStr (ce_TenantID s))]
     @ [(''conversation_id'', MStr (ce_ConversationID s))]
     @ [(''seq'', MInt (ce_Seq s))]
     @ [(''event_id'', MStr (ce_EventID s))]
     @ [(''event_type'', MStr (ce_EventType s))]
     @ omit_if (ce_ActorType s = '''') ''actor_type'' (MStr (ce_ActorType s))
     @ omit_if (ce_ActorID s = '''') ''actor_id'' (MStr (ce_ActorID s))
     @ omit_if (ce_ContentType s = 0) ''content_type'' (MInt (ce_ContentType s))
     @ omit_if (ce_Payload s = []) ''payload'' (MDoc (ce_Payload s))
     @ omit_if (ce_VisMode s = '''') ''vis_mode'' (MStr (ce_VisMode s))
     @ opt_field ''vis_allow'' (MDoc \<circ> bson_ACLList) (ce_VisAllow s)
     @ opt_field ''vis_deny'' (MDoc \<circ> bson_ACLList) (ce_VisDeny s)
     @ omit_if (ce_Sensitivity s = '''') ''sensitivity'' (MStr (ce_Sensitivity s))
     @ omit_if (ce_EffectiveMS s = 0) ''effective_ms'' (MInt (ce_EffectiveMS s))
     @ omit_if (ce_ExpireAtMS s = 0) ''expire_at_ms'' (MInt (ce_ExpireAtMS s))
     @ omit_if (ce_VisVersion s = 0) ''vis_version'' (MInt (ce_VisVersion s))
     @ [(''created_at_ms'', MInt (ce_CreatedAtMS s))]
     @ omit_if (ce_TraceID s = '''') ''trace_id'' (MStr (ce_TraceID s))
     @ omit_if (ce_TargetEventID s = '''') ''target_event_id'' (MStr (ce_TargetEventID s))
     @ omit_if (ce_TargetSeq s = 0) ''target_seq'' (MInt (ce_TargetSeq s))"

definition decode_ConversationEvent :: "doc \<Rightarrow> ConversationEvent go" where
  "decode_ConversationEvent d =
     go_bind (decode_oid d ''_id'') (\<lambda>v0.
     go_bind (decode_str d ''tenant_id'') (\<lambda>v1.
     go_bind (decode_str d ''conversation_id'') (\<lambda>v2.
     go_bind (decode_int64 d ''seq'') (\<lambda>v3.
     go_bind (decode_str d ''event_id'') (\<lambda>v4.
     go_bind (decode_str d ''event_type'') (\<lambda>v5.
     go_bind (decode_str d ''actor_type'') (\<lambda>v6.
     go_bind (decode_str d ''actor_id'') (\<lambda>v7.
     go_bind (decode_int32 d ''content_type'') (\<lambda>v8.
     go_bind (decode_map d ''payload'') (\<lambda>v9.
     go_bind (decode_str d ''vis_mode'') (\<lambda>v10.
     go_bind (decode_acl d ''vis_allow'') (\<lambda>v11.
     go_bind (decode_acl d ''vis_deny'') (\<lambda>v12.
     go_bind (decode_str d ''sensitivity'') (\<lambda>v13.
     go_bind (decode_int64 d ''effective_ms'') (\<lambda>v14.
     go_bind (decode_int64 d ''expire_at_ms'') (\<lambda>v15.
     go_bind (decode_int32 d ''vis_version'') (\<lambda>v16.
     go_bind (decode_int64 d ''created_at_ms'') (\<lambda>v17.
     go_bind (decode_str d ''trace_id'') (\<lambda>v18.
     go_bind (decode_str d ''target_event_id'') (\<lambda>v19.
     go_bind (decode_int64 d ''target_seq'') (\<lambda>v20.
       Ok \<lparr> ce_ID = v0, ce_TenantID = v1, ce_ConversationID = v2, ce_Seq = v3, ce_EventID = v4,
           ce_EventType = v5, ce_ActorType = v6, ce_ActorID = v7, ce_ContentType = v8, ce_Payload = v9,
           ce_VisMode = v10, ce_VisAllow = v11, ce_VisDeny = v12, ce_Sensitivity = v13, ce_EffectiveMS = v14,
           ce_ExpireAtMS = v15, ce_VisVersion = v16, ce_CreatedAtMS = v17, ce_TraceID = v18, ce_TargetEventID = v19,
           ce_TargetSeq = v20 \<rparr>)))))))))))))))))))))"

subsection \<open>Values of any type\<close>

text \<open>
  The dynamic types the projector asks for. The driver reads an embedded document into the type of the map
  it is in, \<^verbatim>\<open>map[string]any\<close> for the payload of an event, \<^verbatim>\<open>bson.M\<close> for a
  document read into one, and an array into \<^verbatim>\<open>primitive.A\<close>.
\<close>

datatype godyn = GNil | GMap doc | GM doc | GA "mval list" | GSliceMap "doc list" | GOther mval

fun as_any :: "(doc \<Rightarrow> godyn) \<Rightarrow> mval option \<Rightarrow> godyn" where
  "as_any parent None = GNil"
| "as_any parent (Some MNull) = GNil"
| "as_any parent (Some (MDoc d)) = parent d"
| "as_any parent (Some (MArr vs)) = GA vs"
| "as_any parent (Some v) = GOther v"

fun anyToMap :: "godyn \<Rightarrow> doc" where
  "anyToMap (GMap m) = m"
| "anyToMap _ = []"

fun anyToSliceMap :: "godyn \<Rightarrow> doc list option" where
  "anyToSliceMap (GSliceMap a) = Some a"
| "anyToSliceMap _ = None"

text \<open>A value that goes back into a document: nil is null.\<close>

definition any_field :: "doc \<Rightarrow> string \<Rightarrow> mval" where
  "any_field d k = (case map_of d k of None \<Rightarrow> MNull | Some v \<Rightarrow> v)"

definition acl_field :: "ACLList option \<Rightarrow> mval" where
  "acl_field x = (case x of None \<Rightarrow> MNull | Some a \<Rightarrow> MDoc (bson_ACLList a))"

definition slice_field :: "doc list option \<Rightarrow> mval" where
  "slice_field x = (case x of None \<Rightarrow> MNull | Some l \<Rightarrow> MArr (map MDoc l))"

subsection \<open>The projector\<close>

definition isPublic :: "ConversationEvent \<Rightarrow> bool" where
  "isPublic ev =
     (if ce_VisMode ev \<noteq> ''public'' then False
      else case ce_VisDeny ev of
             Some l \<Rightarrow> if al_Teams l \<noteq> [] \<or> al_Agents l \<noteq> [] \<or> al_Roles l \<noteq> [] then False else True
           | None \<Rightarrow> True)"

definition downgrade :: "doc \<Rightarrow> doc" where
  "downgrade content = content"

definition kindFromEvent :: "string \<Rightarrow> string" where
  "kindFromEvent t = (if t = ''InternalNoteAdded'' then ''internal_note''
     else if t = ''AgentMessageCreated'' then ''agent'' else ''system'')"

definition public_timeline :: string where
  "public_timeline = ''public_timeline''"

definition private_notes :: string where
  "private_notes = ''private_notes''"

definition seq_filter :: "string \<Rightarrow> string \<Rightarrow> int \<Rightarrow> mfilter" where
  "seq_filter tenant conv n = [(''tenant_id'', CEq (MStr tenant)), (''conversation_id'', CEq (MStr conv)), (''seq'', CEq (MInt n))]"

definition public_doc :: "ConversationEvent \<Rightarrow> doc" where
  "public_doc ev =
     [(''source_event_id'', MStr (ce_EventID ev)), (''from'', MStr (ce_ActorID ev)),
      (''msg_type'', any_field (ce_Payload ev) ''msg_type''),
      (''content'', MDoc (downgrade (anyToMap (as_any GMap (map_of (ce_Payload ev) ''content''))))),
      (''sensitivity'', MStr (ce_Sensitivity ev)), (''edited'', MBool False), (''redacted'', MBool False),
      (''created_at_ms'', MInt (ce_CreatedAtMS ev))]"

definition upsertPublic :: "'s mongo \<Rightarrow> ConversationEvent \<Rightarrow> 's \<Rightarrow> 's \<times> unit go" where
  "upsertPublic M ev s = upd_err (mg_UpdateOne M public_timeline (seq_filter (ce_TenantID ev) (ce_ConversationID ev) (ce_Seq ev))
     (no_update\<lparr> mu_setOnInsert := public_doc ev \<rparr>) True s)"

definition private_doc :: "ConversationEvent \<Rightarrow> doc" where
  "private_doc ev =
     [(''source_event_id'', MStr (ce_EventID ev)), (''kind'', MStr (kindFromEvent (ce_EventType ev))),
      (''content'', MDoc (anyToMap (as_any GMap (map_of (ce_Payload ev) ''content'')))),
      (''attachments'', slice_field (anyToSliceMap (as_any GMap (map_of (ce_Payload ev) ''attachments'')))),
      (''vis_mode'', MStr (ce_VisMode ev)), (''vis_allow'', acl_field (ce_VisAllow ev)), (''vis_deny'', acl_field (ce_VisDeny ev)),
      (''sensitivity'', MStr (ce_Sensitivity ev)), (''edited'', MBool False), (''redacted'', MBool False),
      (''created_at_ms'', MInt (ce_CreatedAtMS ev))]"

definition upsertPrivate :: "'s mongo \<Rightarrow> ConversationEvent \<Rightarrow> 's \<Rightarrow> 's \<times> unit go" where
  "upsertPrivate M ev s = upd_err (mg_UpdateOne M private_notes (seq_filter (ce_TenantID ev) (ce_ConversationID ev) (ce_Seq ev))
     (no_update\<lparr> mu_setOnInsert := private_doc ev \<rparr>) True s)"

definition edit_doc :: "doc \<Rightarrow> doc" where
  "edit_doc newContent = [(''content'', MDoc newContent), (''edited'', MBool True)]"

definition applyEdit :: "'s mongo \<Rightarrow> string \<Rightarrow> mfilter \<Rightarrow> doc \<Rightarrow> 's \<Rightarrow> 's \<times> unit go" where
  "applyEdit M targetColl whr newContent s =
     upd_err (mg_UpdateOne M targetColl whr (no_update\<lparr> mu_set := edit_doc newContent \<rparr>) False s)"

definition redact_doc :: doc where
  "redact_doc = [(''content'', MDoc []), (''attachments'', MArr []), (''redacted'', MBool True)]"

definition applyRedact :: "'s mongo \<Rightarrow> string \<Rightarrow> mfilter \<Rightarrow> 's \<Rightarrow> 's \<times> unit go" where
  "applyRedact M targetColl whr s =
     upd_err (mg_UpdateOne M targetColl whr (no_update\<lparr> mu_set := redact_doc \<rparr>) False s)"

definition moved_doc :: "doc \<Rightarrow> doc" where
  "moved_doc pri =
     [(''source_event_id'', any_field pri ''source_event_id''), (''from'', any_field pri ''from''),
      (''msg_type'', any_field pri ''msg_type''), (''content'', MDoc (downgrade (anyToMap (as_any GM (map_of pri ''content''))))),
      (''sensitivity'', any_field pri ''sensitivity''), (''edited'', any_field pri ''edited''),
      (''redacted'', any_field pri ''redacted''), (''created_at_ms'', any_field pri ''created_at_ms'')]"

definition movePrivateToPublic :: "'s mongo \<Rightarrow> ConversationEvent \<Rightarrow> 's \<Rightarrow> 's \<times> unit go" where
  "movePrivateToPublic M ev s =
     (let whr = seq_filter (ce_TenantID ev) (ce_ConversationID ev) (ce_TargetSeq ev)
      in case mg_FindOne M private_notes whr s of
           Error e \<Rightarrow> (s, Error e)
         | Panic e \<Rightarrow> (s, Panic e)
         | Ok None \<Rightarrow> (s, Error ''mongo: no documents in result'')
         | Ok (Some pri) \<Rightarrow> upd_err (mg_UpdateOne M public_timeline whr (no_update\<lparr> mu_setOnInsert := moved_doc pri \<rparr>) True s))"

text \<open>The projector drops the errors of its calls; \<open>after\<close> runs one call after another.\<close>

definition ignore_err :: "'s \<times> unit go \<Rightarrow> 's \<times> unit go" where
  "ignore_err x = (case x of (s, Error e) \<Rightarrow> (s, Ok ()) | y \<Rightarrow> y)"

definition after :: "'s \<times> unit go \<Rightarrow> ('s \<Rightarrow> 's \<times> unit go) \<Rightarrow> 's \<times> unit go" where
  "after x f = (case x of (s, Ok _) \<Rightarrow> f s | y \<Rightarrow> y)"

definition creates :: "string \<Rightarrow> bool" where
  "creates t \<longleftrightarrow> t \<in> {''CustomerMessageCreated'', ''AgentMessageCreated'', ''AttachmentAdded'', ''InternalNoteAdded''}"

definition project_event :: "'s mongo \<Rightarrow> ConversationEvent \<Rightarrow> 's \<Rightarrow> 's \<times> unit go" where
  "project_event M ev s =
     (let whr = seq_filter (ce_TenantID ev) (ce_ConversationID ev) (ce_TargetSeq ev) in
      if creates (ce_EventType ev) then
        (if isPublic ev then ignore_err (upsertPublic M ev s) else ignore_err (upsertPrivate M ev s))
      else if ce_EventType ev = ''MessageEdited'' then
        (let content = anyToMap (as_any GMap (map_of (ce_Payload ev) ''content''))
         in after (ignore_err (applyEdit M public_timeline whr content s)) (ignore_err \<circ> applyEdit M private_notes whr content))
      else if ce_EventType ev = ''MessageRedacted'' then
        after (ignore_err (applyRedact M public_timeline whr s)) (ignore_err \<circ> applyRedact M private_notes whr)
      else if ce_EventType ev = ''VisibilityChanged'' then
        (if ce_VisMode ev = ''public'' then ignore_err (movePrivateToPublic M ev s) else (s, Ok ()))
      else (s, Ok ()))"

text \<open>
  A change of the stream is the full document, if it has one: without one the event is the zero event. A
  change that cannot be decoded is skipped.
\<close>

definition change_event :: "doc option \<Rightarrow> ConversationEvent go" where
  "change_event ch = decode_ConversationEvent (case ch of None \<Rightarrow> [] | Some d \<Rightarrow> d)"

fun project_changes :: "'s mongo \<Rightarrow> doc option list \<Rightarrow> 's \<Rightarrow> 's \<times> unit go" where
  "project_changes M [] s = (s, Ok ())"
| "project_changes M (ch # chs) s =
     (case change_event ch of
        Error e \<Rightarrow> project_changes M chs s
      | Panic e \<Rightarrow> (s, Panic e)
      | Ok ev \<Rightarrow> after (project_event M ev s) (project_changes M chs))"

text \<open>\<open>watch\<close>: opening the stream, what it delivers until it ends and how it ends.\<close>

definition Projector_Run :: "'s mongo \<Rightarrow> (doc option list \<times> unit go) go \<Rightarrow> 's \<Rightarrow> 's \<times> unit go" where
  "Projector_Run M watch s =
     (case watch of
        Error e \<Rightarrow> (s, Error e)
      | Panic e \<Rightarrow> (s, Panic e)
      | Ok (chs, err) \<Rightarrow> after (project_changes M chs s) (\<lambda>s1. (s1, err)))"

subsection \<open>Appending an event\<close>

text \<open>
  The callback of the transaction changes the event and the number it was given, which stay as they are
  when the transaction fails or runs the callback again. \<open>now\<close> is the reading of the clock.
\<close>

type_synonym cap = "ConversationEvent \<times> int"

record 's chat_env =
  xb_M :: "'s mongo"
  xb_StartSession :: "'s \<Rightarrow> unit go"
  xb_WithTransaction :: "('s \<times> cap \<Rightarrow> ('s \<times> cap) \<times> unit go) \<Rightarrow> 's \<times> cap \<Rightarrow> ('s \<times> cap) \<times> unit go"
  xb_Find :: "string \<Rightarrow> mfilter \<Rightarrow> (string \<times> int) list \<Rightarrow> int \<Rightarrow> 's \<Rightarrow> doc list go"

definition conv_seq :: string where
  "conv_seq = ''conv_seq''"

definition conversation_events :: string where
  "conversation_events = ''conversation_events''"

definition append_callback :: "'s mongo \<Rightarrow> int \<Rightarrow> 's \<times> cap \<Rightarrow> ('s \<times> cap) \<times> unit go" where
  "append_callback M now x = (case x of (s, ev, outSeq) \<Rightarrow>
     (case mg_FindOneAndUpdate M conv_seq (conv_filter (ce_TenantID ev) (ce_ConversationID ev))
             (no_update\<lparr> mu_inc := [(''max_seq'', 1)] \<rparr>) True True s of
        (s1, Error e) \<Rightarrow> ((s1, ev, outSeq), Error e)
      | (s1, Panic e) \<Rightarrow> ((s1, ev, outSeq), Panic e)
      | (s1, Ok None) \<Rightarrow> ((s1, ev, outSeq), Error ''mongo: no documents in result'')
      | (s1, Ok (Some d)) \<Rightarrow>
          (case decode_int64 d ''max_seq'' of
             Error e \<Rightarrow> ((s1, ev, outSeq), Error e)
           | Panic e \<Rightarrow> ((s1, ev, outSeq), Panic e)
           | Ok n \<Rightarrow>
               (let ev1 = ev\<lparr> ce_Seq := n, ce_CreatedAtMS := (if ce_CreatedAtMS ev = 0 then now else ce_CreatedAtMS ev) \<rparr>
                in case upd_err (mg_UpdateOne M conversation_events [(''event_id'', CEq (MStr (ce_EventID ev1)))]
                          (no_update\<lparr> mu_setOnInsert := bson_ConversationEvent ev1 \<rparr>) True s1) of
                     (s2, r) \<Rightarrow> ((s2, ev1, n), r)))))"

definition AppendEvent :: "'s chat_env \<Rightarrow> int \<Rightarrow> ConversationEvent \<Rightarrow> 's \<Rightarrow> 's \<times> ConversationEvent \<times> int \<times> unit go" where
  "AppendEvent E now ev s =
     (case xb_StartSession E s of
        Error e \<Rightarrow> (s, ev, 0, Error e)
      | Panic e \<Rightarrow> (s, ev, 0, Panic e)
      | Ok _ \<Rightarrow> (case xb_WithTransaction E (append_callback (xb_M E) now) (s, ev, 0) of
                  ((s1, ev1, outSeq), r) \<Rightarrow> (s1, ev1, outSeq, r)))"

subsection \<open>Reading the public timeline\<close>

text \<open>\<open>cursor\<close> and \<open>limit\<close>: what \<^verbatim>\<open>fmt.Sscan\<close> reads of the two form values, if it can.\<close>

definition parseInt64 :: "int option \<Rightarrow> int \<Rightarrow> int" where
  "parseInt64 x def = (case x of None \<Rightarrow> def | Some n \<Rightarrow> n)"

definition GetPublicTimeline ::
  "'s chat_env \<Rightarrow> string \<Rightarrow> string \<Rightarrow> int option \<Rightarrow> int option \<Rightarrow> 's \<Rightarrow> doc list go" where
  "GetPublicTimeline E tenant conv cursor limit s =
     xb_Find E public_timeline
       [(''tenant_id'', CEq (MStr tenant)), (''conversation_id'', CEq (MStr conv)),
        (''seq'', CLt (MInt (parseInt64 cursor (2 ^ 62))))]
       [(''seq'', -1)] (parseInt64 limit 50) s"

end
