(* ===== verification/ChatBoxProps.thy ===== *)
theory ChatBoxProps
  imports ChatBox
begin

section \<open>What the timelines of a help desk conversation hold\<close>

text \<open>
  A timeline is a table of entries by tenant, conversation and number; the locale \<open>entry_tables\<close> says what the
  projector needs of the two tables, the laws of MongoDB give it. Each event changes the entry it names and
  no other, whatever calls fail; so what customers read was made public by an event, and no content of a
  note is among it. Appending an event gives it a number no other event of its conversation has.
\<close>

subsection \<open>Entries of a timeline\<close>

type_synonym entry_key = "string \<times> string \<times> int"

definition key_filter :: "entry_key \<Rightarrow> mfilter" where
  "key_filter k = (case k of (t, c, n) \<Rightarrow> seq_filter t c n)"

definition event_key :: "ConversationEvent \<Rightarrow> entry_key" where
  "event_key ev = (ce_TenantID ev, ce_ConversationID ev, ce_Seq ev)"

definition target_key :: "ConversationEvent \<Rightarrow> entry_key" where
  "target_key ev = (ce_TenantID ev, ce_ConversationID ev, ce_TargetSeq ev)"

definition look :: "(string \<Rightarrow> 's \<Rightarrow> doc list) \<Rightarrow> string \<Rightarrow> 's \<Rightarrow> entry_key \<Rightarrow> doc option" where
  "look view c s k = find (doc_matches (key_filter k)) (view c s)"

definition new_entry :: "entry_key \<Rightarrow> doc \<Rightarrow> doc" where
  "new_entry k e = fold set_field e (filter_doc (key_filter k))"

definition changed_entry :: "doc \<Rightarrow> doc \<Rightarrow> doc" where
  "changed_entry e d = fold set_field e d"

definition put_entry :: "'s mongo \<Rightarrow> string \<Rightarrow> entry_key \<Rightarrow> doc \<Rightarrow> 's \<Rightarrow> 's \<times> unit go" where
  "put_entry M c k e s = upd_err (mg_UpdateOne M c (key_filter k) (no_update\<lparr> mu_setOnInsert := e \<rparr>) True s)"

definition amend_entry :: "'s mongo \<Rightarrow> string \<Rightarrow> entry_key \<Rightarrow> doc \<Rightarrow> 's \<Rightarrow> 's \<times> unit go" where
  "amend_entry M c k e s = upd_err (mg_UpdateOne M c (key_filter k) (no_update\<lparr> mu_set := e \<rparr>) False s)"

lemma set_field_other: "k \<notin> fst ` set e \<Longrightarrow> map_of (fold set_field e d) k = map_of d k"
  by (induction e arbitrary: d) auto

lemma set_field_at: "distinct (map fst e) \<Longrightarrow> map_of (fold set_field e d) k = (case map_of e k of None \<Rightarrow> map_of d k | Some v \<Rightarrow> Some v)"
proof (induction e arbitrary: d)
  case (Cons kv e)
  then have "map_of e (fst kv) = None" by (simp add: map_of_eq_None_iff)
  with Cons show ?case by (auto split: option.splits)
qed simp

lemma key_filter_iff: "doc_matches (key_filter (t, c, n)) d \<longleftrightarrow>
    map_of d ''tenant_id'' = Some (MStr t) \<and> map_of d ''conversation_id'' = Some (MStr c) \<and> map_of d ''seq'' = Some (MInt n)"
  by (simp add: doc_matches_def key_filter_def seq_filter_def)

lemma key_filter_unique: "doc_matches (key_filter k) d \<Longrightarrow> doc_matches (key_filter k') d \<Longrightarrow> k' = k"
  by (cases k; cases k') (simp add: key_filter_iff)

definition keeps_key :: "doc \<Rightarrow> bool" where
  "keeps_key e \<longleftrightarrow> fst ` set e \<inter> {''tenant_id'', ''conversation_id'', ''seq''} = {}"

lemma changed_key: "keeps_key e \<Longrightarrow> doc_matches (key_filter k) (fold set_field e d) = doc_matches (key_filter k) d"
  by (cases k) (auto simp: key_filter_iff keeps_key_def set_field_other)

lemma filter_doc_key: "doc_matches (key_filter k) (filter_doc (key_filter k))"
  by (cases k) (simp only: key_filter_iff, simp add: filter_doc_def key_filter_def seq_filter_def)

lemma new_entry_key: "keeps_key e \<Longrightarrow> doc_matches (key_filter k) (new_entry k e)"
  by (simp add: new_entry_def changed_key filter_doc_key)

lemma apply_set_only: "apply_update (no_update\<lparr> mu_set := e \<rparr>) d = fold set_field e d"
  "apply_update (no_update\<lparr> mu_setOnInsert := e \<rparr>) d = d"
  by (simp_all add: apply_update_def no_update_def)

lemma upsert_new_entry: "upsert_doc (key_filter k) (no_update\<lparr> mu_setOnInsert := e \<rparr>) = new_entry k e"
  by (simp add: upsert_doc_def new_entry_def apply_set_only)

text \<open>The first entry of a key, after a change of the first entry of a key.\<close>

lemma change_first_family:
  assumes one: "\<And>j k x. doc_matches (F j) x \<Longrightarrow> doc_matches (F k) x \<Longrightarrow> j = k"
    and keep: "\<And>j x. doc_matches (F j) (apply_update u x) = doc_matches (F j) x"
  shows "change_first (F k) u ds = Some (ds', d, d') \<Longrightarrow> find (doc_matches (F k)) ds = Some d \<and> d' = apply_update u d
    \<and> find (doc_matches (F k')) ds' = (if k' = k then Some d' else find (doc_matches (F k')) ds)"
proof (induction ds arbitrary: ds')
  case (Cons x ds)
  show ?case
  proof (cases "doc_matches (F k) x")
    case True
    with Cons.prems have e: "d = x" "d' = apply_update u x" "ds' = d' # ds" by auto
    have "k' \<noteq> k \<Longrightarrow> \<not> doc_matches (F k') x" using True one by blast
    with True e show ?thesis by (simp add: keep)
  next
    case False
    with Cons.prems obtain a where a: "change_first (F k) u ds = Some (a, d, d')" "ds' = x # a"
      by (cases "change_first (F k) u ds") auto
    from Cons.IH[OF a(1)] a(2) False show ?thesis by (cases "k' = k") simp_all
  qed
qed simp

lemma change_first_look:
  assumes "change_first (key_filter k) u ds = Some (ds', d, d')" "\<And>j x. doc_matches (key_filter j) (apply_update u x) = doc_matches (key_filter j) x"
  shows "find (doc_matches (key_filter k)) ds = Some d \<and> d' = apply_update u d
    \<and> find (doc_matches (key_filter k')) ds' = (if k' = k then Some d' else find (doc_matches (key_filter k')) ds)"
  using assms by (intro change_first_family[where F = key_filter]) (rule key_filter_unique)

text \<open>What the documentation promises of the two calls, for the entries.\<close>

definition put_spec :: "entry_key \<Rightarrow> doc \<Rightarrow> (entry_key \<Rightarrow> doc option) \<Rightarrow> entry_key \<Rightarrow> doc option" where
  "put_spec k e m = m(k := Some (case m k of None \<Rightarrow> new_entry k e | Some d \<Rightarrow> d))"

definition amend_spec :: "entry_key \<Rightarrow> doc \<Rightarrow> (entry_key \<Rightarrow> doc option) \<Rightarrow> entry_key \<Rightarrow> doc option" where
  "amend_spec k e m = m(k := map_option (changed_entry e) (m k))"

lemma find_snoc: "find P (xs @ [x]) = (case find P xs of None \<Rightarrow> if P x then Some x else None | Some y \<Rightarrow> Some y)"
  by (induction xs) simp_all

lemma look_map: "look view t s = (\<lambda>j. find (doc_matches (key_filter j)) (view t s))"
  by (rule ext) (simp add: look_def)

lemma update_one_put:
  assumes "keeps_key e"
  shows "find (doc_matches (key_filter k')) (fst (update_one_spec (key_filter k) (no_update\<lparr> mu_setOnInsert := e \<rparr>) True ds))
    = put_spec k e (\<lambda>j. find (doc_matches (key_filter j)) ds) k'"
proof (cases "change_first (key_filter k) (no_update\<lparr> mu_setOnInsert := e \<rparr>) ds")
  case None
  then have n: "find (doc_matches (key_filter k)) ds = None" by (simp add: change_first_None)
  have "k' \<noteq> k \<Longrightarrow> \<not> doc_matches (key_filter k') (new_entry k e)" using new_entry_key[OF assms] key_filter_unique by blast
  with None n show ?thesis
    by (cases "k' = k") (simp_all add: update_one_spec_def put_spec_def upsert_new_entry find_snoc new_entry_key[OF assms] split: option.split)
next
  case (Some r)
  then obtain ds' d d' where r: "change_first (key_filter k) (no_update\<lparr> mu_setOnInsert := e \<rparr>) ds = Some (ds', d, d')" by (cases r) auto
  from change_first_look[OF r, of k'] r show ?thesis by (simp add: update_one_spec_def put_spec_def apply_set_only)
qed

lemma update_one_amend:
  assumes "keeps_key e"
  shows "find (doc_matches (key_filter k')) (fst (update_one_spec (key_filter k) (no_update\<lparr> mu_set := e \<rparr>) False ds))
    = amend_spec k e (\<lambda>j. find (doc_matches (key_filter j)) ds) k'"
proof (cases "change_first (key_filter k) (no_update\<lparr> mu_set := e \<rparr>) ds")
  case None
  then have n: "find (doc_matches (key_filter k)) ds = None" by (simp add: change_first_None)
  with None show ?thesis by (simp add: update_one_spec_def amend_spec_def)
next
  case (Some r)
  then obtain ds' d d' where r: "change_first (key_filter k) (no_update\<lparr> mu_set := e \<rparr>) ds = Some (ds', d, d')" by (cases r) auto
  from change_first_look[OF r, of k'] r show ?thesis
    by (simp add: update_one_spec_def amend_spec_def apply_set_only changed_key[OF assms] changed_entry_def)
qed

lemma upd_err_cases: "upd_err x = (s', r) \<Longrightarrow> \<exists>y. x = (s', y) \<and> (r = Ok () \<longleftrightarrow> (\<exists>v. y = Ok v))"
  by (auto simp: upd_err_def split: prod.splits go.splits)

subsection \<open>Two tables of entries\<close>

text \<open>
  What a writer of entries relies on: a call that returns no error did what it says to the entry it names,
  one that returns an error did it or did nothing, other entries and other tables are as before.
\<close>

locale entry_tables =
  fixes entry :: "'t \<Rightarrow> 's \<Rightarrow> 'k \<Rightarrow> 'd option"
    and put :: "'t \<Rightarrow> 'k \<Rightarrow> 'e \<Rightarrow> 's \<Rightarrow> 's \<times> unit go"
    and amend :: "'t \<Rightarrow> 'k \<Rightarrow> 'e \<Rightarrow> 's \<Rightarrow> 's \<times> unit go"
    and fresh :: "'k \<Rightarrow> 'e \<Rightarrow> 'd" and change :: "'e \<Rightarrow> 'd \<Rightarrow> 'd" and good :: "'e \<Rightarrow> bool"
  assumes put_other: "put t k e s = (s', r) \<Longrightarrow> good e \<Longrightarrow> t' \<noteq> t \<or> k' \<noteq> k \<Longrightarrow> entry t' s' k' = entry t' s k'"
    and put_entry: "put t k e s = (s', r) \<Longrightarrow> good e \<Longrightarrow>
      r \<noteq> Ok () \<and> entry t s' k = entry t s k \<or> entry t s' k = Some (case entry t s k of None \<Rightarrow> fresh k e | Some d \<Rightarrow> d)"
    and amend_other: "amend t k e s = (s', r) \<Longrightarrow> good e \<Longrightarrow> t' \<noteq> t \<or> k' \<noteq> k \<Longrightarrow> entry t' s' k' = entry t' s k'"
    and amend_entry: "amend t k e s = (s', r) \<Longrightarrow> good e \<Longrightarrow>
      r \<noteq> Ok () \<and> entry t s' k = entry t s k \<or> entry t s' k = map_option (change e) (entry t s k)"
begin

text \<open>An entry after a call: as before, or new, or changed; and exactly that when the call succeeds.\<close>

lemma put_at:
  assumes "put t k e s = (s', r)" "good e" "entry t' s' k' = Some d"
  shows "entry t' s k' = Some d \<or> t' = t \<and> k' = k \<and> entry t s k = None \<and> d = fresh k e"
proof (cases "t' = t \<and> k' = k")
  case True
  with put_entry[OF assms(1,2)] assms(3) show ?thesis by (auto split: option.splits)
next
  case False
  with put_other[OF assms(1,2), of t' k'] assms(3) show ?thesis by auto
qed

lemma amend_at:
  assumes "amend t k e s = (s', r)" "good e" "entry t' s' k' = Some d"
  shows "entry t' s k' = Some d \<or> t' = t \<and> k' = k \<and> (\<exists>d0. entry t s k = Some d0 \<and> d = change e d0)"
proof (cases "t' = t \<and> k' = k")
  case True
  with amend_entry[OF assms(1,2)] assms(3) show ?thesis by (cases "entry t s k") auto
next
  case False
  with amend_other[OF assms(1,2), of t' k'] assms(3) show ?thesis by auto
qed

lemma put_Ok:
  assumes "put t k e s = (s', Ok ())" "good e"
  shows "entry t' s' k' = (if t' = t \<and> k' = k then Some (case entry t s k of None \<Rightarrow> fresh k e | Some d \<Rightarrow> d) else entry t' s k')"
  using put_entry[OF assms] put_other[OF assms, of t' k'] by auto

lemma amend_Ok:
  assumes "amend t k e s = (s', Ok ())" "good e"
  shows "entry t' s' k' = (if t' = t \<and> k' = k then map_option (change e) (entry t s k) else entry t' s k')"
  using amend_entry[OF assms] amend_other[OF assms, of t' k'] by auto

text \<open>What holds of all entries, and of new and changed ones, holds on.\<close>

lemma put_keeps:
  assumes "put t k e s = (s', r)" "good e" "\<And>t j d. entry t s j = Some d \<Longrightarrow> P t j d" "P t k (fresh k e)"
  shows "entry t' s' j = Some d \<Longrightarrow> P t' j d"
  using put_at[OF assms(1,2)] assms(3,4) by blast

lemma amend_keeps:
  assumes "amend t k e s = (s', r)" "good e" "\<And>t j d. entry t s j = Some d \<Longrightarrow> P t j d" "\<And>d. P t k d \<Longrightarrow> P t k (change e d)"
  shows "entry t' s' j = Some d \<Longrightarrow> P t' j d"
  using amend_at[OF assms(1,2)] assms(3,4) by blast

end

text \<open>The collections of MongoDB are such tables.\<close>

lemma mongo_tables:
  assumes laws: "mongo_laws M view"
  shows "entry_tables (look view) (put_entry M) (amend_entry M) new_entry changed_entry keeps_key"
proof
  fix t k e s s' r t' k' assume c: "put_entry M t k e s = (s', r)" "keeps_key e"
  from upd_err_cases[OF c(1)[unfolded put_entry_def]] obtain y where y: "mg_UpdateOne M t (key_filter k) (no_update\<lparr> mu_setOnInsert := e \<rparr>) True s = (s', y)"
    "r = Ok () \<longleftrightarrow> (\<exists>v. y = Ok v)" by blast
  note U = update_one_put[OF c(2), of _ k "view t s"]
  have any: "look view t s' j = look view t s j \<or> look view t s' j = put_spec k e (look view t s) j" for j
    using mongo_UpdateOne[OF laws y(1)]
  proof
    assume "view t s' = view t s"
    then show ?thesis by (simp add: look_def)
  next
    assume v: "view t s' = fst (update_one_spec (key_filter k) (no_update\<lparr> mu_setOnInsert := e \<rparr>) True (view t s))"
    show ?thesis by (rule disjI2) (simp only: look_map v U)
  qed
  show "look view t' s' k' = look view t' s k'" if "t' \<noteq> t \<or> k' \<noteq> k"
    using that any[of k'] mongo_UpdateOne_other[OF laws y(1), of t'] by (cases "t' = t") (auto simp: put_spec_def look_def)
  have ok: "look view t s' k = put_spec k e (look view t s) k" if "y = Ok v" for v
  proof -
    from mongo_UpdateOne_Ok[OF laws, of t _ _ _ s s' v] y(1) that
    have v: "view t s' = fst (update_one_spec (key_filter k) (no_update\<lparr> mu_setOnInsert := e \<rparr>) True (view t s))" by (metis fst_conv)
    show ?thesis by (simp only: look_map v U)
  qed
  then show "r \<noteq> Ok () \<and> look view t s' k = look view t s k \<or>
      look view t s' k = Some (case look view t s k of None \<Rightarrow> new_entry k e | Some d \<Rightarrow> d)"
    using y(2) any[of k] ok by (cases "r = Ok ()") (auto simp: put_spec_def)
next
  fix t k e s s' r t' k' assume c: "amend_entry M t k e s = (s', r)" "keeps_key e"
  from upd_err_cases[OF c(1)[unfolded amend_entry_def]] obtain y where y: "mg_UpdateOne M t (key_filter k) (no_update\<lparr> mu_set := e \<rparr>) False s = (s', y)"
    "r = Ok () \<longleftrightarrow> (\<exists>v. y = Ok v)" by blast
  note U = update_one_amend[OF c(2), of _ k "view t s"]
  have any: "look view t s' j = look view t s j \<or> look view t s' j = amend_spec k e (look view t s) j" for j
    using mongo_UpdateOne[OF laws y(1)]
  proof
    assume "view t s' = view t s"
    then show ?thesis by (simp add: look_def)
  next
    assume v: "view t s' = fst (update_one_spec (key_filter k) (no_update\<lparr> mu_set := e \<rparr>) False (view t s))"
    show ?thesis by (rule disjI2) (simp only: look_map v U)
  qed
  show "look view t' s' k' = look view t' s k'" if "t' \<noteq> t \<or> k' \<noteq> k"
    using that any[of k'] mongo_UpdateOne_other[OF laws y(1), of t'] by (cases "t' = t") (auto simp: amend_spec_def look_def)
  have ok: "look view t s' k = amend_spec k e (look view t s) k" if "y = Ok v" for v
  proof -
    from mongo_UpdateOne_Ok[OF laws, of t _ _ _ s s' v] y(1) that
    have v: "view t s' = fst (update_one_spec (key_filter k) (no_update\<lparr> mu_set := e \<rparr>) False (view t s))" by (metis fst_conv)
    show ?thesis by (simp only: look_map v U)
  qed
  then show "r \<noteq> Ok () \<and> look view t s' k = look view t s k \<or> look view t s' k = map_option (changed_entry e) (look view t s k)"
    using y(2) any[of k] ok by (cases "r = Ok ()") (auto simp: amend_spec_def)
qed

interpretation mem_tables: entry_tables "look mem_view" "put_entry mem_mongo" "amend_entry mem_mongo" new_entry changed_entry keeps_key
  by (rule mongo_tables[OF mem_mongo_laws])

subsection \<open>What an event does to the entries\<close>

definition event_content :: "ConversationEvent \<Rightarrow> doc" where
  "event_content ev = anyToMap (as_any GMap (map_of (ce_Payload ev) ''content''))"

lemma upsertPublic_put: "upsertPublic M ev s = put_entry M public_timeline (event_key ev) (public_doc ev) s"
  by (simp add: upsertPublic_def put_entry_def event_key_def key_filter_def)

lemma upsertPrivate_put: "upsertPrivate M ev s = put_entry M private_notes (event_key ev) (private_doc ev) s"
  by (simp add: upsertPrivate_def put_entry_def event_key_def key_filter_def)

lemma applyEdit_amend: "applyEdit M t (key_filter k) c s = amend_entry M t k (edit_doc c) s"
  by (simp add: applyEdit_def amend_entry_def)

lemma applyRedact_amend: "applyRedact M t (key_filter k) s = amend_entry M t k redact_doc s"
  by (simp add: applyRedact_def amend_entry_def)

lemma docs_keep_key [simp]:
  "keeps_key (public_doc ev)" "keeps_key (private_doc ev)" "keeps_key (edit_doc c)" "keeps_key redact_doc" "keeps_key (moved_doc d)"
  by (simp_all add: keeps_key_def public_doc_def private_doc_def edit_doc_def redact_doc_def moved_doc_def)

lemma move_put:
  "movePrivateToPublic M ev s =
     (case mg_FindOne M private_notes (key_filter (target_key ev)) s of
        Error e \<Rightarrow> (s, Error e) | Panic e \<Rightarrow> (s, Panic e)
      | Ok None \<Rightarrow> (s, Error ''mongo: no documents in result'')
      | Ok (Some pri) \<Rightarrow> put_entry M public_timeline (target_key ev) (moved_doc pri) s)"
  by (simp add: movePrivateToPublic_def put_entry_def target_key_def key_filter_def Let_def split: go.split option.split)

lemma project_event_calls:
  "project_event M ev s =
     (if creates (ce_EventType ev) then
        ignore_err (if isPublic ev then put_entry M public_timeline (event_key ev) (public_doc ev) s
          else put_entry M private_notes (event_key ev) (private_doc ev) s)
      else if ce_EventType ev = ''MessageEdited'' then
        after (ignore_err (amend_entry M public_timeline (target_key ev) (edit_doc (event_content ev)) s))
          (ignore_err \<circ> amend_entry M private_notes (target_key ev) (edit_doc (event_content ev)))
      else if ce_EventType ev = ''MessageRedacted'' then
        after (ignore_err (amend_entry M public_timeline (target_key ev) redact_doc s))
          (ignore_err \<circ> amend_entry M private_notes (target_key ev) redact_doc)
      else if ce_EventType ev = ''VisibilityChanged'' \<and> ce_VisMode ev = ''public'' then ignore_err (movePrivateToPublic M ev s)
      else (s, Ok ()))"
proof -
  have k: "seq_filter (ce_TenantID ev) (ce_ConversationID ev) (ce_TargetSeq ev) = key_filter (target_key ev)"
    by (simp add: key_filter_def target_key_def)
  show ?thesis
    unfolding project_event_def Let_def k upsertPublic_put upsertPrivate_put
    by (simp add: applyEdit_amend applyRedact_amend event_content_def fun_eq_iff comp_def cong: if_cong)
qed

lemma ignore_err_fst [simp]: "fst (ignore_err x) = fst x"
  by (auto simp: ignore_err_def split: prod.splits go.splits)

lemma after_fst: "fst (after x f) = (case snd x of Ok _ \<Rightarrow> fst (f (fst x)) | _ \<Rightarrow> fst x)"
  by (auto simp: after_def split: prod.splits go.splits)

text \<open>
  An event makes an entry public when it is created so or is made so; it shows a content when it is created
  public with it or edits it in. Of an entry customers can read this is all there is.
\<close>

definition makes_public :: "ConversationEvent \<Rightarrow> entry_key \<Rightarrow> bool" where
  "makes_public ev k \<longleftrightarrow> creates (ce_EventType ev) \<and> isPublic ev \<and> event_key ev = k
     \<or> ce_EventType ev = ''VisibilityChanged'' \<and> ce_VisMode ev = ''public'' \<and> target_key ev = k"

definition shows_content :: "ConversationEvent \<Rightarrow> entry_key \<Rightarrow> doc \<Rightarrow> bool" where
  "shows_content ev k c \<longleftrightarrow> c = event_content ev \<and>
     (creates (ce_EventType ev) \<and> isPublic ev \<and> event_key ev = k \<or> ce_EventType ev = ''MessageEdited'' \<and> target_key ev = k)"

definition open_entry :: "ConversationEvent set \<Rightarrow> entry_key \<Rightarrow> doc \<Rightarrow> bool" where
  "open_entry evs k d \<longleftrightarrow> (\<exists>ev \<in> evs. makes_public ev k)
     \<and> (\<exists>c. map_of d ''content'' = Some (MDoc c) \<and> (c = [] \<or> (\<exists>ev \<in> evs. shows_content ev k c)))"

definition public_open :: "(string \<Rightarrow> 's \<Rightarrow> doc list) \<Rightarrow> ConversationEvent set \<Rightarrow> 's \<Rightarrow> bool" where
  "public_open view evs s \<longleftrightarrow> (\<forall>k d. look view public_timeline s k = Some d \<longrightarrow> open_entry evs k d)"

lemma content_of_entries:
  "map_of (new_entry k (public_doc ev)) ''content'' = Some (MDoc (event_content ev))"
  "map_of (new_entry k (moved_doc d)) ''content'' = Some (MDoc [])"
  "map_of (changed_entry (edit_doc c) d) ''content'' = Some (MDoc c)"
  "map_of (changed_entry redact_doc d) ''content'' = Some (MDoc [])"
proof -
  have "anyToMap (as_any GM x) = []" for x by (cases "(GM, x)" rule: as_any.cases) simp_all
  then show "map_of (new_entry k (moved_doc d)) ''content'' = Some (MDoc [])"
    by (simp add: new_entry_def moved_doc_def downgrade_def)
qed (simp_all add: new_entry_def public_doc_def changed_entry_def edit_doc_def redact_doc_def downgrade_def event_content_def)


lemmas put_keeps_mongo = entry_tables.put_keeps[OF mongo_tables]
lemmas amend_keeps_mongo = entry_tables.amend_keeps[OF mongo_tables]

lemma put_open:
  assumes laws: "mongo_laws M view" and o: "public_open view evs s" and r: "put_entry M t k e s = (s', r)" "keeps_key e"
    and new: "t = public_timeline \<Longrightarrow> open_entry evs k (new_entry k e)"
  shows "public_open view evs s'"
  using put_keeps_mongo[OF laws r, of "\<lambda>t k d. t = public_timeline \<longrightarrow> open_entry evs k d"] o new
  unfolding public_open_def by blast

lemma amend_open:
  assumes laws: "mongo_laws M view" and o: "public_open view evs s" and r: "amend_entry M t k e s = (s', r)" "keeps_key e"
    and new: "\<And>d. open_entry evs k d \<Longrightarrow> open_entry evs k (changed_entry e d)"
  shows "public_open view evs s'"
  using amend_keeps_mongo[OF laws r, of "\<lambda>t k d. t = public_timeline \<longrightarrow> open_entry evs k d"] o new
  unfolding public_open_def by blast

lemma project_event_open:
  assumes laws: "mongo_laws M view" and o: "public_open view evs s" and ev: "ev \<in> evs"
  shows "public_open view evs (fst (project_event M ev s))"
proof -
  have put: "public_open view evs (fst (put_entry M t k e s))"
    if "keeps_key e" "t = public_timeline \<Longrightarrow> open_entry evs k (new_entry k e)" for t k e
    using put_open[OF laws o, of t k e] that by (cases "put_entry M t k e s") simp
  have am: "public_open view evs (fst (amend_entry M t k e s0))"
    if "public_open view evs s0" "keeps_key e" "\<And>d. open_entry evs k d \<Longrightarrow> open_entry evs k (changed_entry e d)" for t k e s0
    using amend_open[OF laws that(1), of t k e] that by (cases "amend_entry M t k e s0") simp
  have two: "public_open view evs (fst (after (ignore_err (amend_entry M public_timeline (target_key ev) e s))
      (ignore_err \<circ> amend_entry M private_notes (target_key ev) e)))"
    if "keeps_key e" "\<And>d. open_entry evs (target_key ev) d \<Longrightarrow> open_entry evs (target_key ev) (changed_entry e d)" for e
    using am[OF o that] am[OF am[OF o that] that] by (simp add: after_fst split: go.split)
  have new: "open_entry evs (event_key ev) (new_entry (event_key ev) (public_doc ev))"
    if "creates (ce_EventType ev)" "isPublic ev"
    using that ev by (auto simp: open_entry_def makes_public_def shows_content_def content_of_entries)
  have edit: "open_entry evs (target_key ev) (changed_entry (edit_doc (event_content ev)) d)"
    if "open_entry evs (target_key ev) d" "ce_EventType ev = ''MessageEdited''" for d
    using that ev by (auto simp: open_entry_def shows_content_def content_of_entries)
  have redact: "open_entry evs k (changed_entry redact_doc d)" if "open_entry evs k d" for k d
    using that by (simp add: open_entry_def content_of_entries)
  have moved: "open_entry evs (target_key ev) (new_entry (target_key ev) (moved_doc d))"
    if "ce_EventType ev = ''VisibilityChanged''" "ce_VisMode ev = ''public''" for d
    using that ev by (auto simp: open_entry_def makes_public_def content_of_entries)
  have move: "public_open view evs (fst (movePrivateToPublic M ev s))"
    if "ce_EventType ev = ''VisibilityChanged''" "ce_VisMode ev = ''public''"
    using put[OF docs_keep_key(5) moved[OF that]] o by (simp add: move_put split: go.split option.split)
  have "public_timeline \<noteq> private_notes" by (simp add: public_timeline_def private_notes_def)
  then show ?thesis unfolding project_event_calls using put new two edit redact move o by simp
qed

lemma project_changes_open:
  assumes laws: "mongo_laws M view"
  shows "public_open view evs s \<Longrightarrow> (\<And>ch ev. ch \<in> set chs \<Longrightarrow> change_event ch = Ok ev \<Longrightarrow> ev \<in> evs) \<Longrightarrow>
    public_open view evs (fst (project_changes M chs s))"
proof (induction chs arbitrary: s)
  case (Cons ch chs)
  show ?case
  proof (cases "change_event ch")
    case (Ok ev)
    with Cons.prems have "public_open view evs (fst (project_event M ev s))" by (intro project_event_open[OF laws]) auto
    with Cons Ok show ?thesis by (auto simp: after_fst split: go.split)
  qed (use Cons in auto)
qed simp

text \<open>Reading a timeline gives entries of it, those before the cursor, newest first.\<close>

definition mlaw_Find :: "'s chat_env \<Rightarrow> (string \<Rightarrow> 's \<Rightarrow> doc list) \<Rightarrow> bool" where
  "mlaw_Find E view \<longleftrightarrow> (\<forall>c f k n s ds. xb_Find E c f [(k, -1)] n s = Ok ds \<longrightarrow>
     mset ds \<subseteq># mset (filter (doc_matches f) (view c s)) \<and> sorted_wrt (\<lambda>a b. doc_int b k \<le> doc_int a k) ds
     \<and> (n \<noteq> 0 \<longrightarrow> int (length ds) \<le> \<bar>n\<bar>))"

text \<open>There is one entry of a key: it is the one that is found.\<close>

definition one_each :: "doc list \<Rightarrow> bool" where
  "one_each ds \<longleftrightarrow> (\<forall>k. length (filter (doc_matches (key_filter k)) ds) \<le> 1)"

lemma change_first_count:
  "change_first f u ds = Some (ds', d, d') \<Longrightarrow> (\<And>x. P (apply_update u x) = P x) \<Longrightarrow> length (filter P ds') = length (filter P ds)"
  by (induction ds arbitrary: ds') (auto split: if_splits)

lemma one_each_find: "one_each ds \<Longrightarrow> d \<in> set ds \<Longrightarrow> doc_matches (key_filter k) d \<Longrightarrow> find (doc_matches (key_filter k)) ds = Some d"
proof (induction ds)
  case (Cons x ds)
  have n: "length (filter (doc_matches (key_filter j)) (x # ds)) \<le> 1" for j using Cons.prems(1) unfolding one_each_def by blast
  have "length (filter (doc_matches (key_filter j)) ds) \<le> 1" for j using n[of j] by (simp split: if_splits)
  then have "one_each ds" unfolding one_each_def by blast
  moreover have "doc_matches (key_filter k) x \<Longrightarrow> d = x" using n[of k] Cons.prems(2,3) by (auto simp: filter_empty_conv)
  ultimately show ?case using Cons by (cases "doc_matches (key_filter k) x") auto
qed simp

lemma put_one_each:
  assumes "keeps_key e" "one_each ds"
  shows "one_each (fst (update_one_spec (key_filter k) (no_update\<lparr> mu_setOnInsert := e \<rparr>) True ds))"
proof (cases "change_first (key_filter k) (no_update\<lparr> mu_setOnInsert := e \<rparr>) ds")
  case None
  then have "filter (doc_matches (key_filter k)) ds = []" by (simp add: change_first_None filter_empty_conv find_None_iff)
  moreover have "doc_matches (key_filter j) (new_entry k e) \<Longrightarrow> j = k" for j using new_entry_key[OF assms(1)] key_filter_unique by blast
  ultimately show ?thesis using assms(2) None by (auto simp: one_each_def update_one_spec_def upsert_new_entry)
next
  case (Some r)
  then show ?thesis using assms(2) change_first_count[of "key_filter k" "no_update\<lparr> mu_setOnInsert := e \<rparr>" ds]
    by (cases r) (simp add: one_each_def update_one_spec_def apply_set_only)
qed

lemma amend_one_each:
  assumes "keeps_key e" "one_each ds"
  shows "one_each (fst (update_one_spec (key_filter k) (no_update\<lparr> mu_set := e \<rparr>) False ds))"
proof (cases "change_first (key_filter k) (no_update\<lparr> mu_set := e \<rparr>) ds")
  case None
  then show ?thesis using assms(2) by (simp add: update_one_spec_def)
next
  case (Some r)
  then show ?thesis using assms change_first_count[of "key_filter k" "no_update\<lparr> mu_set := e \<rparr>" ds]
    by (cases r) (simp add: one_each_def update_one_spec_def apply_set_only changed_key)
qed

lemma call_one_each:
  assumes laws: "mongo_laws M view" and e: "keeps_key e" and one: "one_each (view c s)"
  shows "one_each (view c (fst (put_entry M t k e s)))" "one_each (view c (fst (amend_entry M t k e s)))"
proof -
  obtain s1 y where p: "mg_UpdateOne M t (key_filter k) (no_update\<lparr> mu_setOnInsert := e \<rparr>) True s = (s1, y)" by fastforce
  have "fst (put_entry M t k e s) = s1" by (simp add: put_entry_def p upd_err_def split: go.split)
  moreover have "one_each (view c s1)"
    using mongo_UpdateOne[OF laws p] mongo_UpdateOne_other[OF laws p, of c] put_one_each[OF e, of "view t s" k] one by (cases "c = t") auto
  ultimately show "one_each (view c (fst (put_entry M t k e s)))" by simp
  obtain s2 z where a: "mg_UpdateOne M t (key_filter k) (no_update\<lparr> mu_set := e \<rparr>) False s = (s2, z)" by fastforce
  have "fst (amend_entry M t k e s) = s2" by (simp add: amend_entry_def a upd_err_def split: go.split)
  moreover have "one_each (view c s2)"
    using mongo_UpdateOne[OF laws a] mongo_UpdateOne_other[OF laws a, of c] amend_one_each[OF e, of "view t s" k] one by (cases "c = t") auto
  ultimately show "one_each (view c (fst (amend_entry M t k e s)))" by simp
qed

lemma project_event_one_each:
  assumes laws: "mongo_laws M view" and one: "one_each (view c s)"
  shows "one_each (view c (fst (project_event M ev s)))"
proof -
  note k = call_one_each[OF laws]
  have "one_each (view c (fst (after (ignore_err (amend_entry M a j e s)) (ignore_err \<circ> amend_entry M b j e))))"
    if "keeps_key e" for a b j e
    using k(2)[OF that one] k(2)[OF that k(2)[OF that one]] by (simp add: after_fst split: go.split)
  moreover have "one_each (view c (fst (movePrivateToPublic M ev s)))"
    using one k(1)[OF docs_keep_key(5) one] by (simp add: move_put split: go.split option.split)
  ultimately show ?thesis unfolding project_event_calls using one k(1)[OF _ one] by simp
qed

lemma project_changes_one_each:
  assumes laws: "mongo_laws M view"
  shows "one_each (view c s) \<Longrightarrow> one_each (view c (fst (project_changes M chs s)))"
proof (induction chs arbitrary: s)
  case (Cons ch chs)
  then show ?case using project_event_one_each[OF laws Cons.prems]
    by (cases "change_event ch") (simp_all add: after_fst split: go.split)
qed simp

definition seen_events :: "doc option list \<Rightarrow> ConversationEvent list" where
  "seen_events chs = concat (map (\<lambda>ch. case change_event ch of Ok ev \<Rightarrow> [ev] | _ \<Rightarrow> []) chs)"

lemma seen_events_set: "ev \<in> set (seen_events chs) \<longleftrightarrow> (\<exists>ch \<in> set chs. change_event ch = Ok ev)"
  by (force simp: seen_events_def split: go.splits)

text \<open>C8: customers read what was made public and nothing else. Whatever changes the projector saw, whatever calls of
  it failed: each entry of the public timeline a customer is shown was made public by an event of its
  conversation, and its content is empty or that of an event that was created public or edits it. The content
  of a note is never among it.\<close>
theorem customers_read_published_only:
  assumes "mongo_laws (xb_M E) view" and "mlaw_Find E view" and "view public_timeline s = []"
    and "Projector_Run (xb_M E) (Ok (chs, err)) s = (s', r)"
    and "GetPublicTimeline E tenant conv cursor limit s' = Ok items" and "d \<in> set items"
  shows "\<exists>n. open_entry (set (seen_events chs)) (tenant, conv, n) d"
proof -
  let ?evs = "set (seen_events chs)"
  have s': "s' = fst (project_changes (xb_M E) chs s)"
    using assms(4) by (auto simp: Projector_Run_def after_def split: prod.splits go.splits)
  have o: "public_open view ?evs s'"
    unfolding s' by (rule project_changes_open[OF assms(1)]) (auto simp: public_open_def look_def assms(3) seen_events_set)
  have one: "one_each (view public_timeline s')"
    unfolding s' by (rule project_changes_one_each[OF assms(1)]) (simp add: assms(3) one_each_def)
  define m where "m = parseInt64 cursor (2 ^ 62)"
  have "d \<in># mset (filter (doc_matches [(''tenant_id'', CEq (MStr tenant)), (''conversation_id'', CEq (MStr conv)),
        (''seq'', CLt (MInt m))]) (view public_timeline s'))"
    using assms(2,5,6) unfolding m_def mlaw_Find_def GetPublicTimeline_def by (meson mset_subset_eqD set_mset_mset in_multiset_in_set)
  then have d: "d \<in> set (view public_timeline s')" "map_of d ''tenant_id'' = Some (MStr tenant)" "map_of d ''conversation_id'' = Some (MStr conv)"
    "case map_of d ''seq'' of None \<Rightarrow> False | Some x \<Rightarrow> mval_less x (MInt m)"
    by (simp_all add: doc_matches_def)
  from d(4) obtain x where x: "map_of d ''seq'' = Some x" "mval_less x (MInt m)" by (auto split: option.splits)
  from x(2) obtain n where "x = MInt n" by (cases x) simp_all
  with d x(1) have "doc_matches (key_filter (tenant, conv, n)) d" by (simp add: key_filter_iff)
  with one_each_find[OF one d(1)] o have "open_entry ?evs (tenant, conv, n) d" by (simp add: public_open_def look_def)
  then show ?thesis ..
qed

subsection \<open>Each entry on its own\<close>

text \<open>The public and the private entry of a key, as one event changes them.\<close>

definition names_entry :: "entry_key \<Rightarrow> ConversationEvent \<Rightarrow> bool" where
  "names_entry k ev \<longleftrightarrow> (if creates (ce_EventType ev) then event_key ev else target_key ev) = k"

definition kept_or :: "'d option \<Rightarrow> 'd \<Rightarrow> 'd option" where
  "kept_or x d = Some (case x of None \<Rightarrow> d | Some y \<Rightarrow> y)"

definition entry_step :: "entry_key \<Rightarrow> ConversationEvent \<Rightarrow> doc option \<times> doc option \<Rightarrow> doc option \<times> doc option" where
  "entry_step k ev x = (case x of (pub, pri) \<Rightarrow>
     if creates (ce_EventType ev) then
       (if isPublic ev then (kept_or pub (new_entry k (public_doc ev)), pri) else (pub, kept_or pri (new_entry k (private_doc ev))))
     else if ce_EventType ev = ''MessageEdited'' then
       (map_option (changed_entry (edit_doc (event_content ev))) pub, map_option (changed_entry (edit_doc (event_content ev))) pri)
     else if ce_EventType ev = ''MessageRedacted'' then
       (map_option (changed_entry redact_doc) pub, map_option (changed_entry redact_doc) pri)
     else if ce_EventType ev = ''VisibilityChanged'' \<and> ce_VisMode ev = ''public'' then
       (case pri of None \<Rightarrow> (pub, pri) | Some d \<Rightarrow> (kept_or pub (new_entry k (moved_doc d)), pri))
     else (pub, pri))"

definition both :: "(string \<Rightarrow> 's \<Rightarrow> doc list) \<Rightarrow> 's \<Rightarrow> entry_key \<Rightarrow> doc option \<times> doc option" where
  "both view s k = (look view public_timeline s k, look view private_notes s k)"

text \<open>A server that is up: it refuses nothing but integers of more than 64 bits.\<close>

definition mongo_up :: "'s mongo \<Rightarrow> (string \<Rightarrow> 's \<Rightarrow> doc list) \<Rightarrow> bool" where
  "mongo_up M view \<longleftrightarrow>
     (\<forall>c f u ups s. list_all doc_int64 (fst (update_one_spec f u ups (view c s))) \<longrightarrow> (\<exists>s' x. mg_UpdateOne M c f u ups s = (s', Ok x)))
   \<and> (\<forall>c f s. \<exists>d. mg_FindOne M c f s = Ok d)"

definition timelines_int64 :: "(string \<Rightarrow> 's \<Rightarrow> doc list) \<Rightarrow> 's \<Rightarrow> bool" where
  "timelines_int64 view s \<longleftrightarrow> list_all doc_int64 (view public_timeline s) \<and> list_all doc_int64 (view private_notes s)"

definition event_int64 :: "ConversationEvent \<Rightarrow> bool" where
  "event_int64 ev \<longleftrightarrow> int64 (ce_Seq ev) \<and> int64 (ce_TargetSeq ev) \<and> int64 (ce_CreatedAtMS ev) \<and> doc_int64 (ce_Payload ev)"

definition int64_field :: "mval \<Rightarrow> bool" where
  "int64_field v \<longleftrightarrow> (case v of MInt n \<Rightarrow> int64 n | _ \<Rightarrow> True)"

lemma doc_int64_alt: "doc_int64 d \<longleftrightarrow> (\<forall>(k, v) \<in> set d. int64_field v)"
  by (auto simp: doc_int64_def list_all_iff int64_field_def)

lemma doc_int64_Cons [simp]: "doc_int64 []" "doc_int64 (kv # d) \<longleftrightarrow> int64_field (snd kv) \<and> doc_int64 d"
  by (auto simp: doc_int64_alt)

lemma doc_int64_update: "doc_int64 d \<Longrightarrow> int64_field v \<Longrightarrow> doc_int64 (AList.update k v d)"
  by (induction d) auto

lemma doc_int64_sets: "doc_int64 d \<Longrightarrow> doc_int64 e \<Longrightarrow> doc_int64 (fold set_field e d)"
  by (induction e arbitrary: d) (auto simp: set_field_def doc_int64_update)

lemma any_field_int64: "doc_int64 d \<Longrightarrow> int64_field (any_field d k)"
  by (auto simp: any_field_def doc_int64_alt int64_field_def split: option.splits mval.splits dest!: map_of_SomeD)

lemma docs_int64:
  "event_int64 ev \<Longrightarrow> doc_int64 (public_doc ev)" "event_int64 ev \<Longrightarrow> doc_int64 (private_doc ev)"
  "doc_int64 (edit_doc c)" "doc_int64 redact_doc" "doc_int64 d \<Longrightarrow> doc_int64 (moved_doc d)"
proof -
  have [simp]: "int64_field (MStr a)" "int64_field (MDoc b)" "int64_field (MBool x)" "int64_field (MInt n) = int64 n" "int64_field (MArr l)"
    "int64_field MNull" for a b x n l by (simp_all add: int64_field_def)
  show "event_int64 ev \<Longrightarrow> doc_int64 (public_doc ev)" by (simp add: public_doc_def event_int64_def any_field_int64)
  show "event_int64 ev \<Longrightarrow> doc_int64 (private_doc ev)"
    by (simp add: private_doc_def event_int64_def acl_field_def slice_field_def split: option.split)
  show "doc_int64 (edit_doc c)" "doc_int64 redact_doc" by (simp_all add: edit_doc_def redact_doc_def)
  show "doc_int64 d \<Longrightarrow> doc_int64 (moved_doc d)" by (simp add: moved_doc_def any_field_int64)
qed

lemma change_first_int64:
  "change_first f u ds = Some (ds', d, d') \<Longrightarrow> list_all doc_int64 ds \<Longrightarrow> (\<And>x. doc_int64 x \<Longrightarrow> doc_int64 (apply_update u x)) \<Longrightarrow>
   list_all doc_int64 ds'"
  by (induction ds arbitrary: ds') (auto split: if_splits)

definition key_int64 :: "entry_key \<Rightarrow> bool" where
  "key_int64 k \<longleftrightarrow> int64 (snd (snd k))"

lemma put_spec_int64:
  assumes "doc_int64 e" "key_int64 k" "list_all doc_int64 ds"
  shows "list_all doc_int64 (fst (update_one_spec (key_filter k) (no_update\<lparr> mu_setOnInsert := e \<rparr>) True ds))"
proof -
  have "doc_int64 (filter_doc (key_filter k))"
    using assms(2) by (cases k) (simp add: key_filter_def seq_filter_def filter_doc_def int64_field_def key_int64_def)
  with assms(1) have "doc_int64 (new_entry k e)" by (simp add: new_entry_def doc_int64_sets)
  with assms(3) show ?thesis
    using change_first_int64[of "key_filter k" "no_update\<lparr> mu_setOnInsert := e \<rparr>" ds]
    by (auto simp: update_one_spec_def upsert_new_entry apply_set_only split: option.splits)
qed

lemma amend_spec_int64:
  assumes "doc_int64 e" "list_all doc_int64 ds"
  shows "list_all doc_int64 (fst (update_one_spec (key_filter k) (no_update\<lparr> mu_set := e \<rparr>) False ds))"
  using assms change_first_int64[of "key_filter k" "no_update\<lparr> mu_set := e \<rparr>" ds]
  by (auto simp: update_one_spec_def apply_set_only doc_int64_sets split: option.splits)

lemma put_up:
  assumes laws: "mongo_laws M view" and up: "mongo_up M view"
    and e: "doc_int64 e" "key_int64 k" "list_all doc_int64 (view t s)"
  shows "\<exists>s'. put_entry M t k e s = (s', Ok ()) \<and> list_all doc_int64 (view t s') \<and> (\<forall>c. c \<noteq> t \<longrightarrow> view c s' = view c s)"
proof -
  from up put_spec_int64[OF e] obtain s' x where r: "mg_UpdateOne M t (key_filter k) (no_update\<lparr> mu_setOnInsert := e \<rparr>) True s = (s', Ok x)"
    unfolding mongo_up_def by blast
  have "list_all doc_int64 (view t s')" using mongo_UpdateOne[OF laws r] put_spec_int64[OF e] e(3) by auto
  with r mongo_UpdateOne_other[OF laws r] show ?thesis by (auto simp: put_entry_def upd_err_def)
qed

lemma amend_up:
  assumes laws: "mongo_laws M view" and up: "mongo_up M view" and e: "doc_int64 e" "list_all doc_int64 (view t s)"
  shows "\<exists>s'. amend_entry M t k e s = (s', Ok ()) \<and> list_all doc_int64 (view t s') \<and> (\<forall>c. c \<noteq> t \<longrightarrow> view c s' = view c s)"
proof -
  from up amend_spec_int64[OF e] obtain s' x where r: "mg_UpdateOne M t (key_filter k) (no_update\<lparr> mu_set := e \<rparr>) False s = (s', Ok x)"
    unfolding mongo_up_def by blast
  have "list_all doc_int64 (view t s')" using mongo_UpdateOne[OF laws r] amend_spec_int64[OF e, of k] e(2) by auto
  with r mongo_UpdateOne_other[OF laws r] show ?thesis by (auto simp: amend_entry_def upd_err_def)
qed

lemma timelines_differ [simp]: "public_timeline \<noteq> private_notes" "private_notes \<noteq> public_timeline"
  by (simp_all add: public_timeline_def private_notes_def)

lemmas put_Ok_mongo = entry_tables.put_Ok[OF mongo_tables]
lemmas amend_Ok_mongo = entry_tables.amend_Ok[OF mongo_tables]

lemma put_both:
  assumes "mongo_laws M view" "mongo_up M view" "timelines_int64 view s" "keeps_key e" "doc_int64 e" "key_int64 k"
  shows "\<exists>s'. put_entry M public_timeline k e s = (s', Ok ()) \<and> timelines_int64 view s'
     \<and> (\<forall>j. both view s' j = (if j = k then (kept_or (fst (both view s k)) (new_entry k e), snd (both view s k)) else both view s j))"
    "\<exists>s'. put_entry M private_notes k e s = (s', Ok ()) \<and> timelines_int64 view s'
     \<and> (\<forall>j. both view s' j = (if j = k then (fst (both view s k), kept_or (snd (both view s k)) (new_entry k e)) else both view s j))"
proof -
  have i: "list_all doc_int64 (view public_timeline s)" "list_all doc_int64 (view private_notes s)"
    using assms(3) by (simp_all add: timelines_int64_def)
  from put_up[OF assms(1,2,5,6) i(1)] obtain s' where s': "put_entry M public_timeline k e s = (s', Ok ())"
    "list_all doc_int64 (view public_timeline s')" "\<forall>c. c \<noteq> public_timeline \<longrightarrow> view c s' = view c s" by blast
  with i show "\<exists>s'. put_entry M public_timeline k e s = (s', Ok ()) \<and> timelines_int64 view s'
     \<and> (\<forall>j. both view s' j = (if j = k then (kept_or (fst (both view s k)) (new_entry k e), snd (both view s k)) else both view s j))"
    by (intro exI[of _ s'] conjI) (simp_all add: timelines_int64_def both_def kept_or_def put_Ok_mongo[OF assms(1) s'(1) assms(4)])
  from put_up[OF assms(1,2,5,6) i(2)] obtain s2 where s2: "put_entry M private_notes k e s = (s2, Ok ())"
    "list_all doc_int64 (view private_notes s2)" "\<forall>c. c \<noteq> private_notes \<longrightarrow> view c s2 = view c s" by blast
  with i show "\<exists>s'. put_entry M private_notes k e s = (s', Ok ()) \<and> timelines_int64 view s'
     \<and> (\<forall>j. both view s' j = (if j = k then (fst (both view s k), kept_or (snd (both view s k)) (new_entry k e)) else both view s j))"
    by (intro exI[of _ s2] conjI) (simp_all add: timelines_int64_def both_def kept_or_def put_Ok_mongo[OF assms(1) s2(1) assms(4)])
qed

lemma amend_both:
  assumes "mongo_laws M view" "mongo_up M view" "timelines_int64 view s" "keeps_key e" "doc_int64 e"
  shows "\<exists>s'. after (ignore_err (amend_entry M public_timeline k e s)) (ignore_err \<circ> amend_entry M private_notes k e) = (s', Ok ())
    \<and> timelines_int64 view s' \<and> (\<forall>j. both view s' j = (if j = k
       then (map_option (changed_entry e) (fst (both view s k)), map_option (changed_entry e) (snd (both view s k))) else both view s j))"
proof -
  from amend_up[OF assms(1,2,5), of public_timeline s k] assms(3) obtain s1 where s1: "amend_entry M public_timeline k e s = (s1, Ok ())"
    "list_all doc_int64 (view public_timeline s1)" "\<forall>c. c \<noteq> public_timeline \<longrightarrow> view c s1 = view c s" by (auto simp: timelines_int64_def)
  have i1: "list_all doc_int64 (view private_notes s1)" using s1(3) assms(3) by (simp add: timelines_int64_def)
  from amend_up[OF assms(1,2,5) i1, of k] obtain s2 where s2: "amend_entry M private_notes k e s1 = (s2, Ok ())"
    "list_all doc_int64 (view private_notes s2)" "\<forall>c. c \<noteq> private_notes \<longrightarrow> view c s2 = view c s1" by blast
  have "timelines_int64 view s2" using s1(2) s2(2,3) by (simp add: timelines_int64_def)
  moreover note amend_Ok_mongo[OF assms(1) s1(1) assms(4)] amend_Ok_mongo[OF assms(1) s2(1) assms(4)]
  ultimately show ?thesis using s1(1) s2(1)
    by (intro exI[of _ s2]) (simp add: after_def ignore_err_def both_def)
qed

lemma project_event_both:
  assumes laws: "mongo_laws M view" and up: "mongo_up M view" and i: "timelines_int64 view s" "event_int64 ev"
  shows "\<exists>s'. project_event M ev s = (s', Ok ()) \<and> timelines_int64 view s'
    \<and> (\<forall>k. both view s' k = (if names_entry k ev then entry_step k ev (both view s k) else both view s k))"
proof -
  have ki: "key_int64 (event_key ev)" "key_int64 (target_key ev)"
    using i(2) by (simp_all add: event_int64_def key_int64_def event_key_def target_key_def)
  note pb = put_both[OF laws up i(1)] and di = docs_int64(1,2)[OF i(2)]
  note ab = amend_both[OF laws up i(1) _ docs_int64(3)] amend_both[OF laws up i(1) _ docs_int64(4)]
  note defs = project_event_calls ignore_err_def names_entry_def entry_step_def
  consider (cre) "creates (ce_EventType ev)" | (edit) "\<not> creates (ce_EventType ev)" "ce_EventType ev = ''MessageEdited''"
    | (redact) "\<not> creates (ce_EventType ev)" "ce_EventType ev = ''MessageRedacted''"
    | (vis) "\<not> creates (ce_EventType ev)" "ce_EventType ev = ''VisibilityChanged''" "ce_VisMode ev = ''public''"
    | (no) "\<not> creates (ce_EventType ev)" "ce_EventType ev \<noteq> ''MessageEdited''" "ce_EventType ev \<noteq> ''MessageRedacted''"
        "\<not> (ce_EventType ev = ''VisibilityChanged'' \<and> ce_VisMode ev = ''public'')" by blast
  then show ?thesis
  proof cases
    case cre
    show ?thesis
    proof (cases "isPublic ev")
      case True
      with pb(1)[OF docs_keep_key(1) di(1) ki(1)] cre show ?thesis by (elim exE) (rule exI, auto simp: defs split: prod.split)
    next
      case False
      with pb(2)[OF docs_keep_key(2) di(2) ki(1)] cre show ?thesis by (elim exE) (rule exI, auto simp: defs split: prod.split)
    qed
  next
    case edit
    with ab(1)[OF docs_keep_key(3), of "target_key ev" "event_content ev"] show ?thesis
      by (elim exE) (rule exI, auto simp: project_event_calls names_entry_def entry_step_def split: prod.split)
  next
    case redact
    with ab(2)[OF docs_keep_key(4), of "target_key ev"] show ?thesis
      by (elim exE) (rule exI, auto simp: project_event_calls names_entry_def entry_step_def split: prod.split)
  next
    case vis
    from up obtain o1 where f: "mg_FindOne M private_notes (key_filter (target_key ev)) s = Ok o1" unfolding mongo_up_def by blast
    have l: "snd (both view s (target_key ev)) = o1" using mongo_FindOne[OF laws f] by (simp add: both_def look_def)
    show ?thesis
    proof (cases o1)
      case None
      then show ?thesis using vis f l i(1) by (intro exI[of _ s]) (auto simp: defs move_put split: prod.split)
    next
      case (Some d)
      then have "d \<in> set (view private_notes s)" using l by (simp add: both_def look_def find_Some_iff) (metis nth_mem)
      then have "doc_int64 d" using i(1) by (simp add: timelines_int64_def list_all_iff)
      with pb(1)[OF docs_keep_key(5) docs_int64(5) ki(2), of d] vis f l Some show ?thesis
        by simp (elim exE, rule exI, auto simp: defs move_put split: prod.split)
    qed
  next
    case no
    then show ?thesis using i(1) by (intro exI[of _ s]) (auto simp: project_event_calls names_entry_def entry_step_def split: prod.split)
  qed
qed

lemma go_bind_no_panic: "x \<noteq> Panic e \<Longrightarrow> (\<And>a. f a \<noteq> Panic e) \<Longrightarrow> go_bind x f \<noteq> Panic e"
  by (cases x) (simp_all add: go_bind_def)

lemma decode_str_list_no_panic: "decode_str_list vs \<noteq> Panic e"
  by (induction vs) (simp, simp add: go_bind_no_panic split: mval.split)

lemma decode_no_panic:
  "decode_oid d k \<noteq> Panic e" "decode_str d k \<noteq> Panic e" "decode_int64 d k \<noteq> Panic e" "decode_int32 d k \<noteq> Panic e"
  "decode_map d k \<noteq> Panic e" "decode_strs d k \<noteq> Panic e" "decode_acl d k \<noteq> Panic e"
proof -
  show i: "decode_int64 d k \<noteq> Panic e" by (simp add: decode_int64_def split: option.split mval.split)
  show "decode_int32 d k \<noteq> Panic e" using i by (auto simp: decode_int32_def split: go.split)
  show s: "decode_strs d k \<noteq> Panic e" for d k by (simp add: decode_strs_def decode_str_list_no_panic split: option.split mval.split)
  have "go_bind (decode_ACLList a) (\<lambda>l. Ok (Some l)) \<noteq> Panic e" for a
    unfolding decode_ACLList_def by (intro go_bind_no_panic s) simp_all
  then show "decode_acl d k \<noteq> Panic e" by (simp add: decode_acl_def split: option.split mval.split)
qed (simp_all add: decode_oid_def decode_str_def decode_map_def split: option.split mval.split)

lemma change_event_no_panic: "change_event ch \<noteq> Panic e"
  unfolding change_event_def decode_ConversationEvent_def by (intro go_bind_no_panic decode_no_panic) simp

lemma project_changes_both:
  assumes laws: "mongo_laws M view" and up: "mongo_up M view"
  shows "timelines_int64 view s \<Longrightarrow> list_all event_int64 (seen_events chs) \<Longrightarrow>
    \<exists>s'. project_changes M chs s = (s', Ok ()) \<and> both view s' k = fold (entry_step k) (filter (names_entry k) (seen_events chs)) (both view s k)"
proof (induction chs arbitrary: s)
  case Nil
  then show ?case by (simp add: seen_events_def)
next
  case (Cons ch chs)
  show ?case
  proof (cases "change_event ch")
    case (Ok ev)
    then have ev: "event_int64 ev" "list_all event_int64 (seen_events chs)" "seen_events (ch # chs) = ev # seen_events chs"
      using Cons.prems(2) by (simp_all add: seen_events_def)
    obtain s1 where s1: "project_event M ev s = (s1, Ok ())" "timelines_int64 view s1"
      "both view s1 k = (if names_entry k ev then entry_step k ev (both view s k) else both view s k)"
      using project_event_both[OF laws up Cons.prems(1) ev(1)] by blast
    from Cons.IH[OF s1(2) ev(2)] s1 Ok ev(3) show ?thesis by (auto simp: after_def)
  next
    case (Error e)
    with Cons show ?thesis by (simp add: seen_events_def)
  qed (simp add: change_event_no_panic)
qed

text \<open>C11: the projector computes every entry from the events that name it. While the server is up, the public and
  the private entry of a number after any changes are those of the reference function \<open>entry_step\<close>, folded
  over the events that name this number, in their order; events of other numbers do not matter, and the
  projector ends as the stream ends.\<close>
theorem projector_follows_entries:
  assumes "mongo_laws M view" and "mongo_up M view" and "timelines_int64 view s"
    and "list_all event_int64 (seen_events chs)" and "Projector_Run M (Ok (chs, err)) s = (s', r)"
  shows "r = err \<and> (look view public_timeline s' k, look view private_notes s' k)
    = fold (entry_step k) (filter (names_entry k) (seen_events chs)) (look view public_timeline s k, look view private_notes s k)"
proof -
  obtain s1 where "project_changes M chs s = (s1, Ok ())"
    "both view s1 k = fold (entry_step k) (filter (names_entry k) (seen_events chs)) (both view s k)"
    using project_changes_both[OF assms(1-4)] by blast
  with assms(5) show ?thesis by (simp add: Projector_Run_def after_def both_def)
qed

text \<open>Making a note public shows an empty entry. Whatever the note holds, its content is lost: read back, an
  embedded document is a \<^verbatim>\<open>bson.M\<close>, which \<^verbatim>\<open>anyToMap\<close> does not take for a map.\<close>
theorem published_note_is_empty:
  assumes "mongo_laws M view" and "movePrivateToPublic M ev s = (s', Ok ())"
    and "look view public_timeline s (target_key ev) = None"
  shows "\<exists>d. look view public_timeline s' (target_key ev) = Some d \<and> map_of d ''content'' = Some (MDoc [])"
proof -
  from assms(2) obtain pri where "put_entry M public_timeline (target_key ev) (moved_doc pri) s = (s', Ok ())"
    by (auto simp: move_put split: go.splits option.splits)
  from put_Ok_mongo[OF assms(1) this docs_keep_key(5), of public_timeline "target_key ev"] assms(3)
  show ?thesis by (simp add: content_of_entries)
qed

subsection \<open>The numbers of events\<close>

text \<open>
  A transaction that reports success ran its callback, possibly again and again on snapshots that were
  thrown away, and once on the state it committed; one that reports an error left the state alone, or it
  committed and the reply was lost.
\<close>

inductive txn_tries :: "('s \<times> cap \<Rightarrow> ('s \<times> cap) \<times> unit go) \<Rightarrow> cap \<Rightarrow> cap \<Rightarrow> bool" for f where
  first_try: "txn_tries f c c"
| next_try: "txn_tries f c c1 \<Longrightarrow> f (snapshot, c1) = ((s2, c2), r) \<Longrightarrow> txn_tries f c c2"

definition mlaw_txn :: "'s chat_env \<Rightarrow> bool" where
  "mlaw_txn E \<longleftrightarrow> (\<forall>f s c s' c' r. xb_WithTransaction E f (s, c) = ((s', c'), r) \<longrightarrow>
     r \<noteq> Ok () \<and> s' = s \<and> txn_tries f c c' \<or> (\<exists>c1. txn_tries f c c1 \<and> f (s, c1) = ((s', c'), Ok ())))"

definition max_of :: "doc list \<Rightarrow> string \<Rightarrow> string \<Rightarrow> int" where
  "max_of ds t c = (case find (doc_matches (conv_filter t c)) ds of None \<Rightarrow> 0 | Some d \<Rightarrow> doc_int d ''max_seq'')"

lemma conv_filter_iff: "doc_matches (conv_filter t c) d \<longleftrightarrow>
    map_of d ''tenant_id'' = Some (MStr t) \<and> map_of d ''conversation_id'' = Some (MStr c)"
  by (simp add: doc_matches_def conv_filter_def)

lemma apply_inc: "apply_update (no_update\<lparr> mu_inc := [(k, n)] \<rparr>) d = inc_field (k, n) d"
  by (simp add: apply_update_def no_update_def)

lemma doc_int_inc_field: "doc_int (inc_field (k, n) d) k = doc_int d k + n"
  by (simp add: doc_int_def split: option.split mval.split)

text \<open>The counter after an increment, and what the increment answers.\<close>

lemma max_of_inc:
  assumes "find_update_spec (conv_filter t c) (no_update\<lparr> mu_inc := [(''max_seq'', 1)] \<rparr>) True True ds = (ds', o1)"
  shows "max_of ds' t' c' = max_of ds t' c' + (if t' = t \<and> c' = c then 1 else 0)
    \<and> (\<exists>d. o1 = Some d \<and> map_of d ''max_seq'' = Some (MInt (max_of ds t c + 1)))"
proof -
  let ?u = "no_update\<lparr> mu_inc := [(''max_seq'', 1)] \<rparr>"
  have keeps: "doc_matches (conv_filter a b) (apply_update ?u x) = doc_matches (conv_filter a b) x" for a b x
    by (simp add: conv_filter_iff apply_inc)
  have inc: "map_of (inc_field (''max_seq'', 1) x) ''max_seq'' = Some (MInt (doc_int x ''max_seq'' + 1))" for x
    by (simp add: doc_int_def split: option.split mval.split)
  have up: "upsert_doc (conv_filter t c) ?u = inc_field (''max_seq'', 1) (filter_doc (conv_filter t c))"
    by (simp add: upsert_doc_def apply_inc) (simp add: no_update_def)
  have fd: "filter_doc (conv_filter t c) = [(''tenant_id'', MStr t), (''conversation_id'', MStr c)]"
    by (simp add: filter_doc_def conv_filter_def)
  show ?thesis
  proof (cases "change_first (conv_filter t c) ?u ds")
    case None
    then have n: "find (doc_matches (conv_filter t c)) ds = None" by (simp add: change_first_None)
    have m: "doc_matches (conv_filter t' c') (upsert_doc (conv_filter t c) ?u) \<longleftrightarrow> t' = t \<and> c' = c"
      by (simp only: up conv_filter_iff) (auto simp: fd)
    have v: "doc_int (upsert_doc (conv_filter t c) ?u) ''max_seq'' = 1"
      by (simp only: up doc_int_inc_field) (simp add: fd doc_int_def)
    have v': "map_of (upsert_doc (conv_filter t c) ?u) ''max_seq'' = Some (MInt 1)"
      by (simp only: up inc) (simp add: fd doc_int_def)
    from assms None have "ds' = ds @ [upsert_doc (conv_filter t c) ?u]" "o1 = Some (upsert_doc (conv_filter t c) ?u)"
      by (simp_all add: find_update_spec_def)
    then show ?thesis using n m v v' by (auto simp: max_of_def find_snoc split: option.split)
  next
    case (Some r)
    then obtain a d d' where r: "change_first (conv_filter t c) ?u ds = Some (a, d, d')" by (cases r) auto
    with assms have e: "ds' = a" "o1 = Some d'" by (simp_all add: find_update_spec_def)
    have one: "p = q" if "doc_matches (conv_filter (fst p) (snd p)) x" "doc_matches (conv_filter (fst q) (snd q)) x" for p q :: "string \<times> string" and x
      using matches_conv_unique[OF that(1)] that(2) by (simp add: prod_eq_iff)
    have l: "find (doc_matches (conv_filter t c)) ds = Some d \<and> d' = apply_update ?u d
      \<and> find (doc_matches (conv_filter t' c')) a = (if t' = t \<and> c' = c then Some d' else find (doc_matches (conv_filter t' c')) ds)"
      using change_first_family[of "\<lambda>p. conv_filter (fst p) (snd p)" ?u "(t, c)" ds a d d' "(t', c')"] one keeps r by simp
    have md: "max_of ds t c = doc_int d ''max_seq''" using l by (simp add: max_of_def)
    have "d' = inc_field (''max_seq'', 1) d" using l by (simp add: apply_inc)
    then have d': "map_of d' ''max_seq'' = Some (MInt (max_of ds t c + 1))" using inc[of d] md by simp
    then have "doc_int d' ''max_seq'' = max_of ds t c + 1" by (simp add: doc_int_def)
    with l have "max_of a t' c' = max_of ds t' c' + (if t' = t \<and> c' = c then 1 else 0)" by (simp add: max_of_def)
    with e d' show ?thesis by simp
  qed
qed

lemma set_omit_if: "x \<in> set (omit_if z k v) \<longleftrightarrow> \<not> z \<and> x = (k, v)"
  by (simp add: omit_if_def)

lemma set_opt_field: "x \<in> set (opt_field k f o1) \<longleftrightarrow> (\<exists>y. o1 = Some y \<and> x = (k, f y))"
  by (auto simp: opt_field_def split: option.splits)

lemma set_field_val: "(\<And>v'. (k, v') \<in> set e \<Longrightarrow> v' = v) \<Longrightarrow> (k, v) \<in> set e \<or> map_of d k = Some v \<Longrightarrow> map_of (fold set_field e d) k = Some v"
  by (induction e arbitrary: d) auto

text \<open>The document an event is stored as: its conversation, its number and its id.\<close>

lemma stored_event:
  "map_of (fold set_field (bson_ConversationEvent ev) d) ''tenant_id'' = Some (MStr (ce_TenantID ev))"
  "map_of (fold set_field (bson_ConversationEvent ev) d) ''conversation_id'' = Some (MStr (ce_ConversationID ev))"
  "map_of (fold set_field (bson_ConversationEvent ev) d) ''seq'' = Some (MInt (ce_Seq ev))"
  "map_of (fold set_field (bson_ConversationEvent ev) d) ''event_id'' = Some (MStr (ce_EventID ev))"
  by (rule set_field_val; simp add: bson_ConversationEvent_def set_omit_if set_opt_field)+

definition has_event_id :: "string \<Rightarrow> doc \<Rightarrow> bool" where
  "has_event_id x d \<longleftrightarrow> map_of d ''event_id'' = Some (MStr x)"

definition event_log_ok :: "(string \<Rightarrow> 's \<Rightarrow> doc list) \<Rightarrow> 's \<Rightarrow> bool" where
  "event_log_ok view s \<longleftrightarrow> one_each (view conversation_events s)
    \<and> (\<forall>x. length (filter (has_event_id x) (view conversation_events s)) \<le> 1)
    \<and> (\<forall>d \<in> set (view conversation_events s). \<exists>t c n. doc_matches (key_filter (t, c, n)) d \<and> n \<le> max_of (view conv_seq s) t c)"

definition same_event :: "ConversationEvent \<Rightarrow> ConversationEvent \<Rightarrow> bool" where
  "same_event a b \<longleftrightarrow> ce_TenantID a = ce_TenantID b \<and> ce_ConversationID a = ce_ConversationID b \<and> ce_EventID a = ce_EventID b"

lemma append_callback_same: "append_callback M now (s, c1) = ((s2, c2), r) \<Longrightarrow> same_event (fst c2) (fst c1)"
  by (auto simp: append_callback_def same_event_def Let_def split: prod.splits go.splits option.splits)

lemma txn_tries_same: "txn_tries (append_callback M now) c c1 \<Longrightarrow> same_event (fst c1) (fst c)"
  by (induction rule: txn_tries.induct) (auto dest!: append_callback_same simp: same_event_def)

text \<open>One callback that succeeded: the counter of the conversation is one up, the event is stored under it.\<close>

definition appended :: "(string \<Rightarrow> 's \<Rightarrow> doc list) \<Rightarrow> 's \<Rightarrow> 's \<Rightarrow> ConversationEvent \<Rightarrow> int \<Rightarrow> bool" where
  "appended view s s' ev n \<longleftrightarrow> ce_Seq ev = n \<and> n = max_of (view conv_seq s) (ce_TenantID ev) (ce_ConversationID ev) + 1
    \<and> (\<forall>t c. max_of (view conv_seq s') t c = max_of (view conv_seq s) t c + (if t = ce_TenantID ev \<and> c = ce_ConversationID ev then 1 else 0))
    \<and> view conversation_events s' = (if \<exists>d \<in> set (view conversation_events s). has_event_id (ce_EventID ev) d then view conversation_events s
       else view conversation_events s @ [fold set_field (bson_ConversationEvent ev) [(''event_id'', MStr (ce_EventID ev))]])"

lemma event_id_filter: "doc_matches [(''event_id'', CEq (MStr x))] = has_event_id x"
  by (rule ext) (simp add: doc_matches_def has_event_id_def)

lemma insert_event:
  "fst (update_one_spec [(''event_id'', CEq (MStr x))] (no_update\<lparr> mu_setOnInsert := e \<rparr>) True ds) =
     (if \<exists>d \<in> set ds. has_event_id x d then ds else ds @ [fold set_field e [(''event_id'', MStr x)]])"
proof -
  have same: "change_first f (no_update\<lparr> mu_setOnInsert := e \<rparr>) ds = Some (a, d, d') \<Longrightarrow> a = ds" for f a d d'
    by (induction ds arbitrary: a) (auto simp: apply_set_only split: if_splits)
  have up: "upsert_doc [(''event_id'', CEq (MStr x))] (no_update\<lparr> mu_setOnInsert := e \<rparr>) = fold set_field e [(''event_id'', MStr x)]"
    by (simp add: upsert_doc_def apply_set_only filter_doc_def)
  show ?thesis
  proof (cases "change_first [(''event_id'', CEq (MStr x))] (no_update\<lparr> mu_setOnInsert := e \<rparr>) ds")
    case None
    then have "\<not> (\<exists>d \<in> set ds. has_event_id x d)" by (simp add: change_first_None find_None_iff event_id_filter)
    with None show ?thesis by (simp add: update_one_spec_def up)
  next
    case (Some r)
    then have "find (doc_matches [(''event_id'', CEq (MStr x))]) ds \<noteq> None" by (metis change_first_None option.distinct(1))
    then have "\<exists>d \<in> set ds. has_event_id x d" by (auto simp: find_None_iff event_id_filter)
    with Some same show ?thesis by (cases r) (simp add: update_one_spec_def)
  qed
qed

lemma append_callback_Ok:
  assumes laws: "mongo_laws M view" and r: "append_callback M now (s, ev, n0) = ((s', ev', n), Ok ())"
  shows "appended view s s' ev' n"
proof -
  let ?t = "ce_TenantID ev" and ?c = "ce_ConversationID ev" and ?u = "no_update\<lparr> mu_inc := [(''max_seq'', 1)] \<rparr>"
  obtain s1 y where y: "mg_FindOneAndUpdate M conv_seq (conv_filter ?t ?c) ?u True True s = (s1, y)" by fastforce
  from r y obtain d where d: "y = Ok (Some d)" by (auto simp: append_callback_def split: go.splits option.splits)
  from mongo_FindOneAndUpdate_Ok[OF laws y[unfolded d]] have
    f: "find_update_spec (conv_filter ?t ?c) ?u True True (view conv_seq s) = (view conv_seq s1, Some d)" by blast
  from max_of_inc[OF f] have m: "map_of d ''max_seq'' = Some (MInt (max_of (view conv_seq s) ?t ?c + 1))"
    "\<And>t' c'. max_of (view conv_seq s1) t' c' = max_of (view conv_seq s) t' c' + (if t' = ?t \<and> c' = ?c then 1 else 0)" by blast+
  let ?n = "max_of (view conv_seq s) ?t ?c + 1"
  let ?ev = "ev\<lparr> ce_Seq := ?n, ce_CreatedAtMS := (if ce_CreatedAtMS ev = 0 then now else ce_CreatedAtMS ev) \<rparr>"
  obtain s2 z where z: "mg_UpdateOne M conversation_events [(''event_id'', CEq (MStr (ce_EventID ev)))]
      (no_update\<lparr> mu_setOnInsert := bson_ConversationEvent ?ev \<rparr>) True s1 = (s2, z)" by fastforce
  from m(1) have dec: "decode_int64 d ''max_seq'' = Ok ?n" by (simp add: decode_int64_def)
  from r have q: "s' = s2" "ev' = ?ev" "n = ?n" and zz: "snd (upd_err (s2, z)) = Ok ()"
    by (auto simp: append_callback_def y d dec z upd_err_def split: go.splits)
  from zz obtain v where v: "z = Ok v" by (auto simp: upd_err_def split: go.splits)
  have ev: "view conversation_events s2 = fst (update_one_spec [(''event_id'', CEq (MStr (ce_EventID ev)))]
      (no_update\<lparr> mu_setOnInsert := bson_ConversationEvent ?ev \<rparr>) True (view conversation_events s1))"
    using mongo_UpdateOne_Ok[OF laws z[unfolded v]] by (metis fst_conv)
  have ne: "conversation_events \<noteq> conv_seq" by (simp add: conversation_events_def conv_seq_def)
  then have keep: "view conversation_events s1 = view conversation_events s" "view conv_seq s2 = view conv_seq s1"
    using mongo_FindOneAndUpdate_other[OF laws y] mongo_UpdateOne_other[OF laws z] by auto
  show ?thesis unfolding appended_def q ev[unfolded insert_event keep] keep m(2) by simp
qed

inductive append_reach :: "'s chat_env \<Rightarrow> (string \<Rightarrow> 's \<Rightarrow> doc list) \<Rightarrow> 's \<Rightarrow> bool" for E view where
  no_events: "view conversation_events s = [] \<Longrightarrow> append_reach E view s"
| one_append: "append_reach E view s \<Longrightarrow> AppendEvent E now ev s = (s', ev', n, r) \<Longrightarrow> append_reach E view s'"

lemma AppendEvent_cases:
  assumes "mongo_laws (xb_M E) view" "mlaw_txn E" "AppendEvent E now ev s = (s', ev', n, r)"
  shows "r \<noteq> Ok () \<and> s' = s \<or> appended view s s' ev' n \<and> same_event ev' ev"
proof (cases "xb_StartSession E s")
  case (Ok u)
  with assms(3) have t: "xb_WithTransaction E (append_callback (xb_M E) now) (s, ev, 0) = ((s', ev', n), r)"
    by (auto simp: AppendEvent_def split: prod.splits)
  with assms(2) consider (err) "r \<noteq> Ok ()" "s' = s"
    | (com) ev1 n1 where "txn_tries (append_callback (xb_M E) now) (ev, 0) (ev1, n1)"
        "append_callback (xb_M E) now (s, ev1, n1) = ((s', ev', n), Ok ())" unfolding mlaw_txn_def by (metis surj_pair)
  then show ?thesis
  proof cases
    case com
    from txn_tries_same[OF com(1)] append_callback_same[OF com(2)] have "same_event ev' ev" by (simp add: same_event_def)
    with append_callback_Ok[OF assms(1) com(2)] show ?thesis by blast
  qed simp
qed (use assms(3) in \<open>auto simp: AppendEvent_def\<close>)

lemma log_no_entry:
  assumes "event_log_ok view s" "max_of (view conv_seq s) t c < n" "d \<in> set (view conversation_events s)"
  shows "\<not> doc_matches (key_filter (t, c, n)) d"
proof
  assume k: "doc_matches (key_filter (t, c, n)) d"
  from assms(1,3) obtain t' c' n' where d: "doc_matches (key_filter (t', c', n')) d" "n' \<le> max_of (view conv_seq s) t' c'"
    unfolding event_log_ok_def by blast
  from key_filter_unique[OF k d(1)] d(2) assms(2) show False by simp
qed

lemma appended_ok:
  assumes ok: "event_log_ok view s" and a: "appended view s s' ev n"
  shows "event_log_ok view s'"
proof -
  let ?d = "fold set_field (bson_ConversationEvent ev) [(''event_id'', MStr (ce_EventID ev))]"
  let ?k = "(ce_TenantID ev, ce_ConversationID ev, n)"
  have k: "doc_matches (key_filter ?k) ?d" using a by (simp only: key_filter_iff stored_event) (simp add: appended_def)
  have id: "has_event_id x ?d \<longleftrightarrow> x = ce_EventID ev" for x by (auto simp: has_event_id_def stored_event)
  have mono: "max_of (view conv_seq s) t c \<le> max_of (view conv_seq s') t c" for t c using a by (simp add: appended_def)
  have top: "n \<le> max_of (view conv_seq s') (ce_TenantID ev) (ce_ConversationID ev)" using a by (simp add: appended_def)
  have none: "\<not> doc_matches (key_filter ?k) d" if "d \<in> set (view conversation_events s)" for d
    using log_no_entry[OF ok _ that] a by (simp add: appended_def)
  have old: "\<exists>t c m. doc_matches (key_filter (t, c, m)) d \<and> m \<le> max_of (view conv_seq s') t c" if "d \<in> set (view conversation_events s)" for d
    using ok that mono unfolding event_log_ok_def by (meson order_trans)
  show ?thesis
  proof (cases "\<exists>d \<in> set (view conversation_events s). has_event_id (ce_EventID ev) d")
    case True
    then have "view conversation_events s' = view conversation_events s" using a by (simp add: appended_def)
    with ok old show ?thesis by (simp add: event_log_ok_def)
  next
    case False
    then have e: "view conversation_events s' = view conversation_events s @ [?d]" using a by (simp add: appended_def)
    have "length (filter (doc_matches (key_filter j)) (view conversation_events s @ [?d])) \<le> 1" for j
    proof (cases "doc_matches (key_filter j) ?d")
      case True
      with key_filter_unique[OF k] have "j = ?k" by blast
      with none have "filter (doc_matches (key_filter j)) (view conversation_events s) = []" by (simp add: filter_empty_conv)
      then show ?thesis by simp
    next
      case False
      moreover have "length (filter (doc_matches (key_filter j)) (view conversation_events s)) \<le> 1"
        using ok unfolding event_log_ok_def one_each_def by blast
      ultimately show ?thesis by simp
    qed
    then have "one_each (view conversation_events s')" unfolding e one_each_def by blast
    moreover have "length (filter (has_event_id x) (view conversation_events s')) \<le> 1" for x
      using False ok by (cases "x = ce_EventID ev") (auto simp: e id event_log_ok_def filter_empty_conv)
    ultimately show ?thesis using old k top unfolding event_log_ok_def e by auto
  qed
qed

lemma append_reach_ok:
  assumes "mongo_laws (xb_M E) view" "mlaw_txn E"
  shows "append_reach E view s \<Longrightarrow> event_log_ok view s"
proof (induction rule: append_reach.induct)
  case (no_events s)
  then show ?case by (simp add: event_log_ok_def one_each_def)
next
  case (one_append s now ev s' ev' n r)
  from AppendEvent_cases[OF assms one_append.hyps(2)] show ?case
    using appended_ok[OF one_append.IH] one_append.IH by blast
qed

text \<open>C18: in every state that appends reach, whatever failed and whatever was tried again, no two events of a
  conversation have the same number and no two events the same id.\<close>
theorem event_numbers_unique:
  assumes "mongo_laws (xb_M E) view" and "mlaw_txn E" and "append_reach E view s"
  shows "length (filter (doc_matches (key_filter (tenant, conv, n))) (view conversation_events s)) \<le> 1
    \<and> length (filter (has_event_id x) (view conversation_events s)) \<le> 1"
  using append_reach_ok[OF assms] by (simp add: event_log_ok_def one_each_def)

text \<open>Appending an event again does not store it again, but it takes another number: the answer is a number
  under which nothing is stored, and the numbers of the conversation have a gap there.\<close>
theorem repeated_append_takes_number:
  assumes "mongo_laws (xb_M E) view" and "mlaw_txn E" and "append_reach E view s"
    and "AppendEvent E now ev s = (s', ev', n, Ok ())" and "d \<in> set (view conversation_events s)" and "has_event_id (ce_EventID ev) d"
  shows "view conversation_events s' = view conversation_events s
    \<and> filter (doc_matches (key_filter (ce_TenantID ev, ce_ConversationID ev, n))) (view conversation_events s') = []"
proof -
  from AppendEvent_cases[OF assms(1,2,4)] have a: "appended view s s' ev' n" "same_event ev' ev" by auto
  with assms(5,6) have e: "view conversation_events s' = view conversation_events s" by (auto simp: appended_def same_event_def)
  from a have "max_of (view conv_seq s) (ce_TenantID ev) (ce_ConversationID ev) < n" by (simp add: appended_def same_event_def)
  with log_no_entry[OF append_reach_ok[OF assms(1-3)]] e show ?thesis by (simp add: filter_empty_conv)
qed

subsection \<open>A conversation to try things on\<close>

definition toy_chat :: "mem_db chat_env" where
  "toy_chat = \<lparr> xb_M = mem_mongo, xb_StartSession = (\<lambda>s. Ok ()),
     xb_WithTransaction = (\<lambda>f x. case f x of (y, Ok _) \<Rightarrow> (y, Ok ()) | ((s1, c1), r) \<Rightarrow> ((fst x, c1), r)),
     xb_Find = (\<lambda>c f srt n s. case srt of
        [(k, _)] \<Rightarrow> Ok ((if n = 0 then id else take (nat \<bar>n\<bar>)) (sort_key (\<lambda>d. - doc_int d k) (filter (doc_matches f) (mem_view c s))))
      | _ \<Rightarrow> Error ''bad sort specification'') \<rparr>"

lemma toy_chat_sel [simp]: "xb_M toy_chat = mem_mongo"
  by (simp add: toy_chat_def)

lemma toy_chat_Find: "mlaw_Find toy_chat mem_view"
proof -
  have s: "sorted_wrt (\<lambda>a b. doc_int b k \<le> doc_int a k) (sort_key (\<lambda>d. - doc_int d k) xs)" for k xs
    using sorted_sort_key[of "\<lambda>d. - doc_int d k" xs] by (simp add: sorted_wrt_map)
  have t: "mset (take m xs) \<subseteq># mset xs" for m and xs :: "doc list"
    by (metis append_take_drop_id mset_append mset_subset_eq_add_left)
  have "mset ds \<subseteq># mset (filter (doc_matches f) (mem_view c x)) \<and> sorted_wrt (\<lambda>a b. doc_int b k \<le> doc_int a k) ds
     \<and> (n \<noteq> 0 \<longrightarrow> int (length ds) \<le> \<bar>n\<bar>)" if "xb_Find toy_chat c f [(k, -1)] n x = Ok ds" for c f k n x ds
  proof -
    let ?L = "sort_key (\<lambda>d. - doc_int d k) (filter (doc_matches f) (mem_view c x))"
    from that have d: "ds = (if n = 0 then ?L else take (nat \<bar>n\<bar>) ?L)" by (simp add: toy_chat_def split: if_splits)
    show ?thesis using t[of "nat \<bar>n\<bar>" ?L] by (cases "n = 0") (simp_all add: d s sorted_wrt_take)
  qed
  then show ?thesis unfolding mlaw_Find_def by blast
qed

lemma toy_chat_txn: "mlaw_txn toy_chat"
proof -
  have "r \<noteq> Ok () \<and> s' = s \<and> txn_tries f c c' \<or> (\<exists>c1. txn_tries f c c1 \<and> f (s, c1) = ((s', c'), Ok ()))"
    if "xb_WithTransaction toy_chat f (s, c) = ((s', c'), r)" for f :: "mem_db \<times> cap \<Rightarrow> (mem_db \<times> cap) \<times> unit go" and s c s' c' r
  proof -
    obtain s1 c1 r1 where f: "f (s, c) = ((s1, c1), r1)" by (metis surj_pair)
    have "txn_tries f c c" "txn_tries f c c1" using f by (auto intro: txn_tries.intros)
    moreover from that f have "if r1 = Ok () then s' = s1 \<and> c' = c1 \<and> r = Ok () else s' = s \<and> c' = c1 \<and> r \<noteq> Ok ()"
      by (cases r1) (auto simp: toy_chat_def)
    ultimately show ?thesis using f by (metis (full_types))
  qed
  then show ?thesis unfolding mlaw_txn_def by blast
qed

lemma mem_mongo_up: "mongo_up mem_mongo mem_view"
  by (auto simp: mongo_up_def mem_mongo_def mem_store_def Let_def split: prod.split)

text \<open>A public message, a note for agents, an edit of the message.\<close>

definition no_event :: ConversationEvent where
  "no_event = (case change_event None of Ok ev \<Rightarrow> ev)"

definition toy_event :: "string \<Rightarrow> string \<Rightarrow> string \<Rightarrow> int \<Rightarrow> string \<Rightarrow> ConversationEvent" where
  "toy_event ty vis eid n txt = no_event\<lparr> ce_TenantID := ''t'', ce_ConversationID := ''c'', ce_Seq := n, ce_EventID := eid,
     ce_EventType := ty, ce_VisMode := vis, ce_TargetSeq := 1,
     ce_Payload := [(''msg_type'', MStr ''text''), (''content'', MDoc [(''text'', MStr txt)])] \<rparr>"

definition toy_changes :: "doc option list" where
  "toy_changes = map (Some \<circ> bson_ConversationEvent)
     [toy_event ''CustomerMessageCreated'' ''public'' ''a'' 1 ''hello'', toy_event ''InternalNoteAdded'' ''team_only'' ''b'' 2 ''secret'',
      toy_event ''MessageEdited'' '''' ''c'' 3 ''hi'']"

lemma toy_shown: "GetPublicTimeline toy_chat ''t'' ''c'' None None (fst (Projector_Run mem_mongo (Ok (toy_changes, Ok ())) []))
  = Ok [fold set_field (edit_doc [(''text'', MStr ''hi'')]) (new_entry (''t'', ''c'', 1) (public_doc (toy_event ''CustomerMessageCreated'' ''public'' ''a'' 1 ''hello'')))]"
  by code_simp


text \<open>What the customer is shown was made public by the first event, its content comes from the edit.\<close>

theorem customers_read_published_only_witness:
  "\<exists>d n. GetPublicTimeline toy_chat ''t'' ''c'' None None (fst (Projector_Run mem_mongo (Ok (toy_changes, Ok ())) [])) = Ok [d]
    \<and> open_entry (set (seen_events toy_changes)) (''t'', ''c'', n) d"
proof -
  obtain s' r where run: "Projector_Run (xb_M toy_chat) (Ok (toy_changes, Ok ())) [] = (s', r)" by fastforce
  have v: "mem_view public_timeline [] = []" by (simp add: mem_view_def)
  have l: "mongo_laws (xb_M toy_chat) mem_view" by (simp add: mem_mongo_laws)
  from toy_shown run obtain d where d: "GetPublicTimeline toy_chat ''t'' ''c'' None None s' = Ok [d]" by simp
  from customers_read_published_only[OF l toy_chat_Find v run d] have "\<exists>n. open_entry (set (seen_events toy_changes)) (''t'', ''c'', n) d" by simp
  with d run show ?thesis by auto
qed

theorem projector_follows_entries_witness:
  "(look mem_view public_timeline (fst (Projector_Run mem_mongo (Ok (toy_changes, Ok ())) [])) (''t'', ''c'', 1),
    look mem_view private_notes (fst (Projector_Run mem_mongo (Ok (toy_changes, Ok ())) [])) (''t'', ''c'', 1))
   = fold (entry_step (''t'', ''c'', 1)) (filter (names_entry (''t'', ''c'', 1)) (seen_events toy_changes)) (None, None)"
proof -
  obtain s' r where run: "Projector_Run mem_mongo (Ok (toy_changes, Ok ())) [] = (s', r)" by fastforce
  have t: "timelines_int64 mem_view []" by (simp add: timelines_int64_def mem_view_def)
  have e: "list_all event_int64 (seen_events toy_changes)" by code_simp
  have "look mem_view c [] k = None" for c k by (simp add: look_def mem_view_def)
  with projector_follows_entries[OF mem_mongo_laws mem_mongo_up t e run, of "(''t'', ''c'', 1)"] run show ?thesis by simp
qed

text \<open>The note is made public.\<close>

definition toy_published :: "mem_db \<times> unit go" where
  "toy_published = movePrivateToPublic mem_mongo ((toy_event ''VisibilityChanged'' ''public'' ''d'' 4 '''')\<lparr> ce_TargetSeq := 2 \<rparr>)
     (fst (Projector_Run mem_mongo (Ok (toy_changes, Ok ())) []))"

lemma toy_published_ok: "snd toy_published = Ok ()"
  "look mem_view public_timeline (fst (Projector_Run mem_mongo (Ok (toy_changes, Ok ())) []))
     (target_key ((toy_event ''VisibilityChanged'' ''public'' ''d'' 4 '''')\<lparr> ce_TargetSeq := 2 \<rparr>)) = None"
  by code_simp+

theorem published_note_is_empty_witness:
  "\<exists>d. look mem_view public_timeline (fst toy_published) (target_key ((toy_event ''VisibilityChanged'' ''public'' ''d'' 4 '''')\<lparr> ce_TargetSeq := 2 \<rparr>)) = Some d
    \<and> map_of d ''content'' = Some (MDoc [])"
proof -
  have "toy_published = (fst toy_published, Ok ())" by (simp add: prod_eq_iff toy_published_ok)
  from published_note_is_empty[OF mem_mongo_laws this[unfolded toy_published_def] toy_published_ok(2)] show ?thesis
    by (simp add: toy_published_def)
qed

definition toy_append :: "string \<Rightarrow> mem_db \<Rightarrow> mem_db \<times> ConversationEvent \<times> int \<times> unit go" where
  "toy_append eid s = AppendEvent toy_chat 7 (toy_event ''CustomerMessageCreated'' ''public'' eid 0 ''hello'') s"

lemma toy_append_reach: "append_reach toy_chat mem_view []" "append_reach toy_chat mem_view s \<Longrightarrow> append_reach toy_chat mem_view (fst (toy_append eid s))"
proof -
  show "append_reach toy_chat mem_view []" by (rule no_events) (simp add: mem_view_def)
  assume s: "append_reach toy_chat mem_view s"
  obtain s' ev' n r where "toy_append eid s = (s', ev', n, r)" by (metis surj_pair)
  with one_append[OF s, of 7 "toy_event ''CustomerMessageCreated'' ''public'' eid 0 ''hello''"]
  show "append_reach toy_chat mem_view (fst (toy_append eid s))" by (simp add: toy_append_def)
qed

definition toy_log :: mem_db where
  "toy_log = fst (toy_append ''a'' [])"

lemma toy_log_events: "mem_view conversation_events toy_log \<noteq> []" "has_event_id ''a'' (hd (mem_view conversation_events toy_log))"
  "snd (snd (toy_append ''a'' toy_log)) = (2, Ok ())"
  by code_simp+

theorem event_numbers_unique_witness:
  "length (filter (doc_matches (key_filter (''t'', ''c'', 1))) (mem_view conversation_events toy_log)) \<le> 1
    \<and> length (filter (has_event_id ''a'') (mem_view conversation_events toy_log)) \<le> 1"
  using event_numbers_unique[OF _ toy_chat_txn, of mem_view toy_log "''t''" "''c''" 1 "''a''"] toy_append_reach
  by (simp add: mem_mongo_laws toy_log_def)

theorem repeated_append_takes_number_witness:
  "filter (doc_matches (key_filter (''t'', ''c'', 2))) (mem_view conversation_events (fst (toy_append ''a'' toy_log))) = []"
proof -
  let ?ev = "toy_event ''CustomerMessageCreated'' ''public'' ''a'' 0 ''hello''"
  obtain s' ev' where r: "AppendEvent toy_chat 7 ?ev toy_log = (s', ev', 2, Ok ())"
    using toy_log_events(3) unfolding toy_append_def by (metis prod.collapse snd_conv)
  have l: "mongo_laws (xb_M toy_chat) mem_view" by (simp add: mem_mongo_laws)
  have reach: "append_reach toy_chat mem_view toy_log" unfolding toy_log_def by (intro toy_append_reach)
  have i: "ce_EventID ?ev = ''a''" "ce_TenantID ?ev = ''t''" "ce_ConversationID ?ev = ''c''" by (simp_all add: toy_event_def)
  have "hd (mem_view conversation_events toy_log) \<in> set (mem_view conversation_events toy_log)" using toy_log_events(1) by simp
  from repeated_append_takes_number[OF l toy_chat_txn reach r this, unfolded i, OF toy_log_events(2)]
  show ?thesis unfolding toy_append_def r fst_conv by (rule conjunct2)
qed

end
