(* ===== verification/AgentTimeline.thy ===== *)
theory AgentTimeline
  imports ChatBox
begin

section \<open>The timeline of an agent\<close>

text \<open>
  \<^verbatim>\<open>GetAgentTimeline\<close> of \<^verbatim>\<open>module/chatBox/service/api.go\<close>: the public entries of a conversation and the notes the
  agent may see, merged by their numbers. Filters and sorts are the documents the code writes, for two of them
  are not what a server takes. \<open>qry\<close> is the query of a collection: whether it gives a cursor, and what reading
  the cursor to its end gives.
\<close>

type_synonym raw_find = "string \<Rightarrow> doc \<Rightarrow> doc \<Rightarrow> int \<Rightarrow> doc list go go"

record agent_request =
  ar_tenant :: string
  ar_conv :: string
  ar_cursor :: "int option"
  ar_limit :: "int option"
  ar_agent :: string
  ar_team :: string
  ar_role :: string
  ar_now :: int

definition m_or :: "doc list \<Rightarrow> mval" where
  "m_or ds = MArr (map MDoc ds)"

definition agent_pub_filter :: "agent_request \<Rightarrow> doc" where
  "agent_pub_filter r = [(''tenant_id'', MStr (ar_tenant r)), (''conversation_id'', MStr (ar_conv r)),
     (''seq'', MDoc [(''$lt'', MInt (parseInt64 (ar_cursor r) (2 ^ 62)))])]"

text \<open>The form values of teams and roles are single strings, and so is what \<^verbatim>\<open>$in\<close> is given.\<close>

definition in_team :: "agent_request \<Rightarrow> mval" where
  "in_team r = MDoc [(''$in'', MStr (ar_team r))]"

definition in_role :: "agent_request \<Rightarrow> mval" where
  "in_role r = MDoc [(''$in'', MStr (ar_role r))]"

definition agent_priv_filter :: "agent_request \<Rightarrow> doc" where
  "agent_priv_filter r = agent_pub_filter r @
    [(''$and'', MArr [
        MDoc [(''$or'', m_or [[(''created_at_ms'', MDoc [(''$exists'', MBool False)])], [(''created_at_ms'', MDoc [(''$lte'', MInt (ar_now r))])]])],
        MDoc [(''$or'', m_or [[(''expire_at_ms'', MDoc [(''$exists'', MBool False)])], [(''expire_at_ms'', MInt 0)],
                              [(''expire_at_ms'', MDoc [(''$gt'', MInt (ar_now r))])]])]]),
     (''$nor'', m_or [[(''vis_deny.agents'', MStr (ar_agent r))], [(''vis_deny.teams'', in_team r)], [(''vis_deny.roles'', in_role r)]]),
     (''$or'', m_or [
        [(''vis_mode'', MStr ''agent_only''), (''vis_allow.agents'', MStr (ar_agent r))],
        [(''vis_mode'', MStr ''team_only''), (''vis_allow.teams'', in_team r)],
        [(''vis_mode'', MStr ''role_only''), (''vis_allow.roles'', in_role r)],
        [(''vis_mode'', MStr ''custom''),
         (''$or'', m_or [[(''vis_allow.agents'', MStr (ar_agent r))], [(''vis_allow.teams'', in_team r)], [(''vis_allow.roles'', in_role r)]])]])]"

text \<open>The sort of both queries: a key without a direction.\<close>

definition agent_sort :: doc where
  "agent_sort = [(''seq'', MNull)]"

text \<open>
  The error of the query is dropped: without a cursor its method panics. The error of reading is dropped too,
  which leaves the list empty.
\<close>

definition read_all :: "doc list go go \<Rightarrow> doc list go" where
  "read_all q = (case q of
     Ok cur \<Rightarrow> (case cur of Ok ds \<Rightarrow> Ok ds | Error e \<Rightarrow> Ok [] | Panic e \<Rightarrow> Panic e)
   | Error e \<Rightarrow> Panic ''nil pointer dereference''
   | Panic e \<Rightarrow> Panic e)"

definition has_seq :: "doc \<Rightarrow> bool" where
  "has_seq d = (case map_of d ''seq'' of Some (MInt n) \<Rightarrow> True | _ \<Rightarrow> False)"

definition seq_number :: "doc \<Rightarrow> int" where
  "seq_number d = (case map_of d ''seq'' of Some (MInt n) \<Rightarrow> n | _ \<Rightarrow> 0)"

text \<open>
  \<^verbatim>\<open>sort.Slice\<close> is not stable: it leaves open the order of equal numbers, here \<open>o1\<close>. The comparison asserts the
  type of both numbers and is called on every element of a list of two or more.
\<close>

definition sort_by_seq :: "order \<Rightarrow> doc list \<Rightarrow> doc list go" where
  "sort_by_seq o1 ds = (if 2 \<le> length ds \<and> \<not> list_all has_seq ds then Panic ''interface conversion''
     else Ok (sort_key (\<lambda>d. - seq_number d) (reorder o1 ds)))"

definition cut_to :: "int \<Rightarrow> 'a list \<Rightarrow> 'a list go" where
  "cut_to limit xs = (if int (length xs) > limit
     then (if limit < 0 then Panic ''slice bounds out of range'' else Ok (take (nat limit) xs)) else Ok xs)"

definition GetAgentTimeline :: "raw_find \<Rightarrow> order \<Rightarrow> agent_request \<Rightarrow> doc list go" where
  "GetAgentTimeline qry o1 r = (let limit = parseInt64 (ar_limit r) 50 in
     case read_all (qry public_timeline (agent_pub_filter r) agent_sort limit) of Panic e \<Rightarrow> Panic e | Error e \<Rightarrow> Error e
   | Ok pub \<Rightarrow>
     (case read_all (qry private_notes (agent_priv_filter r) agent_sort limit) of Panic e \<Rightarrow> Panic e | Error e \<Rightarrow> Error e
    | Ok pri \<Rightarrow>
      (case sort_by_seq o1 (pub @ pri) of Panic e \<Rightarrow> Panic e | Error e \<Rightarrow> Error e | Ok ds \<Rightarrow> cut_to limit ds)))"

subsection \<open>No agent has a timeline\<close>

text \<open>What the server documents: the direction of a sort is 1, -1 or a document; anything else is refused.\<close>

definition sort_ok :: "doc \<Rightarrow> bool" where
  "sort_ok d = list_all (\<lambda>(k, v). v = MInt 1 \<or> v = MInt (-1) \<or> (case v of MDoc _ \<Rightarrow> True | _ \<Rightarrow> False)) d"

definition refuses_bad_sorts :: "raw_find \<Rightarrow> bool" where
  "refuses_bad_sorts qry \<longleftrightarrow> (\<forall>coll flt srt limit. \<not> sort_ok srt \<longrightarrow> (\<exists>e. qry coll flt srt limit = Error e))"

lemma agents_timeline_panics:
  assumes "refuses_bad_sorts qry"
  shows "\<exists>e. GetAgentTimeline qry o1 r = Panic e"
proof -
  have "\<not> sort_ok agent_sort" by (simp add: sort_ok_def agent_sort_def)
  then obtain e where "qry public_timeline (agent_pub_filter r) agent_sort (parseInt64 (ar_limit r) 50) = Error e"
    using assms unfolding refuses_bad_sorts_def by blast
  then show ?thesis by (simp add: GetAgentTimeline_def read_all_def)
qed

subsection \<open>The merge\<close>

lemma sort_by_seq_Ok:
  assumes "sort_by_seq o1 ds = Ok es"
  shows "mset es = mset ds" "sorted_wrt (\<lambda>a b. seq_number a \<ge> seq_number b) es"
proof -
  have es: "es = sort_key (\<lambda>d. - seq_number d) (reorder o1 ds)" using assms by (simp add: sort_by_seq_def split: if_splits)
  show "mset es = mset ds" by (simp add: es)
  have "sorted (map (\<lambda>d. - seq_number d) es)" by (simp add: es)
  then show "sorted_wrt (\<lambda>a b. seq_number a \<ge> seq_number b) es" by (simp add: sorted_wrt_map)
qed

lemma cut_to_Ok: "cut_to limit xs = Ok ys \<Longrightarrow> 0 \<le> limit \<and> ys = take (nat limit) xs"
  by (auto simp: cut_to_def split: if_splits)

text \<open>
  With two queries that answer: the items are the newest entries of the two lists together, in falling order, as
  many as the limit lets through; whatever is left out is no newer than what is shown.
\<close>

theorem agents_timeline_is_the_newest:
  assumes "qry public_timeline (agent_pub_filter r) agent_sort (parseInt64 (ar_limit r) 50) = Ok (Ok pub)"
    and "qry private_notes (agent_priv_filter r) agent_sort (parseInt64 (ar_limit r) 50) = Ok (Ok pri)"
    and "GetAgentTimeline qry o1 r = Ok items"
  shows "\<exists>rest. mset items + mset rest = mset pub + mset pri
    \<and> length items = min (nat (parseInt64 (ar_limit r) 50)) (length pub + length pri)
    \<and> sorted_wrt (\<lambda>a b. seq_number a \<ge> seq_number b) (items @ rest)"
proof -
  obtain ds where ds: "sort_by_seq o1 (pub @ pri) = Ok ds" and cut: "cut_to (parseInt64 (ar_limit r) 50) ds = Ok items"
    using assms by (auto simp: GetAgentTimeline_def read_all_def Let_def split: go.splits)
  let ?k = "nat (parseInt64 (ar_limit r) 50)"
  have items: "items = take ?k ds" using cut_to_Ok[OF cut] by simp
  have ms: "mset ds = mset pub + mset pri" using sort_by_seq_Ok(1)[OF ds] by simp
  have len: "length ds = length pub + length pri" by (metis ms length_append mset_append size_mset)
  have "mset items + mset (drop ?k ds) = mset pub + mset pri" by (metis append_take_drop_id items ms mset_append)
  moreover have "length items = min ?k (length pub + length pri)" using len by (simp add: items min.commute)
  moreover have "sorted_wrt (\<lambda>a b. seq_number a \<ge> seq_number b) (items @ drop ?k ds)" using sort_by_seq_Ok(2)[OF ds] by (simp add: items)
  ultimately show ?thesis by blast
qed

text \<open>
  Nothing is taken out twice: a note that was made public, whose entry both queries give, is shown twice.
\<close>

lemma agents_timeline_keeps_duplicates:
  assumes "qry public_timeline (agent_pub_filter r) agent_sort (parseInt64 (ar_limit r) 50) = Ok (Ok pub)"
    and "qry private_notes (agent_priv_filter r) agent_sort (parseInt64 (ar_limit r) 50) = Ok (Ok pri)"
    and "GetAgentTimeline qry o1 r = Ok items" and "int (length pub + length pri) \<le> parseInt64 (ar_limit r) 50"
  shows "mset items = mset pub + mset pri"
proof -
  obtain rest where rest: "mset items + mset rest = mset pub + mset pri"
    and len: "length items = min (nat (parseInt64 (ar_limit r) 50)) (length pub + length pri)"
    using agents_timeline_is_the_newest[OF assms(1-3)] by blast
  have "length items = length pub + length pri" using len assms(4) by simp
  moreover have "length items + length rest = length pub + length pri" by (metis rest size_mset size_union)
  ultimately show ?thesis using rest by simp
qed

lemma agents_timeline_negative_limit:
  assumes "qry public_timeline (agent_pub_filter r) agent_sort (parseInt64 (ar_limit r) 50) = Ok (Ok pub)"
    and "qry private_notes (agent_priv_filter r) agent_sort (parseInt64 (ar_limit r) 50) = Ok (Ok pri)"
    and "parseInt64 (ar_limit r) 50 < 0"
  shows "\<exists>e. GetAgentTimeline qry o1 r = Panic e"
  using assms by (auto simp: GetAgentTimeline_def read_all_def Let_def cut_to_def sort_by_seq_def split: go.splits)

end
