(* ===== verification/HelpDesk.thy ===== *)
theory HelpDesk
  imports ChatBox
begin

section \<open>Policies of the help desk\<close>

text \<open>
  \<^verbatim>\<open>module/chatBox/model/account.go\<close>: when a conversation nobody answers is resolved, and the search for the
  policy of a scope.
\<close>

record auto_resolve_policy =
  pl_ID :: string
  pl_TenantID :: string
  pl_AccountID :: string
  pl_ScopeType :: string
  pl_ScopeID :: string
  pl_Enabled :: bool
  pl_InactiveThresholdSeconds :: int
  pl_InactiveRawValue :: int
  pl_InactiveRawUnit :: string
  pl_ResolveMessage :: string
  pl_SkipWaitingConversations :: bool
  pl_PostResolveTagIDs :: "string list"
  pl_UpdatedBy :: string
  pl_CreatedAt :: time
  pl_UpdatedAt :: time

definition decode_policy :: "doc \<Rightarrow> auto_resolve_policy go" where
  "decode_policy d =
     go_bind (decode_oid d ''_id'') (\<lambda>i.
     go_bind (decode_str d ''tenant_id'') (\<lambda>tenant.
     go_bind (decode_str d ''account_id'') (\<lambda>account.
     go_bind (decode_str d ''scope_type'') (\<lambda>scopeType.
     go_bind (decode_str d ''scope_id'') (\<lambda>scopeID.
     go_bind (decode_bool d ''enabled'') (\<lambda>enabled.
     go_bind (decode_int64 d ''inactive_threshold_seconds'') (\<lambda>threshold.
     go_bind (decode_int64 d ''inactive_raw_value'') (\<lambda>rawValue.
     go_bind (decode_str d ''inactive_raw_unit'') (\<lambda>rawUnit.
     go_bind (decode_str d ''resolve_message'') (\<lambda>message.
     go_bind (decode_bool d ''skip_waiting_conversations'') (\<lambda>skip.
     go_bind (decode_strs d ''post_resolve_tag_ids'') (\<lambda>tags.
     go_bind (decode_str d ''updated_by'') (\<lambda>updatedBy.
     go_bind (decode_time d ''created_at'') (\<lambda>created.
     go_bind (decode_time d ''updated_at'') (\<lambda>updated.
       Ok \<lparr> pl_ID = i, pl_TenantID = tenant, pl_AccountID = account, pl_ScopeType = scopeType, pl_ScopeID = scopeID, pl_Enabled = enabled,
            pl_InactiveThresholdSeconds = threshold, pl_InactiveRawValue = rawValue, pl_InactiveRawUnit = rawUnit,
            pl_ResolveMessage = message, pl_SkipWaitingConversations = skip, pl_PostResolveTagIDs = tags, pl_UpdatedBy = updatedBy,
            pl_CreatedAt = created, pl_UpdatedAt = updated \<rparr>)))))))))))))))"

definition chat_agent_policy :: string where
  "chat_agent_policy = ''chat_agent_policy''"

definition policy_filter :: "string \<Rightarrow> string \<Rightarrow> string \<Rightarrow> string \<Rightarrow> mfilter" where
  "policy_filter tenantID accountID scopeType scopeID =
     [(''tenant_id'', CEq (MStr tenantID)), (''account_id'', CEq (MStr accountID)), (''scope_type'', CEq (MStr scopeType))]
     @ (if scopeID \<noteq> '''' then [(''scope_id'', CEq (MStr scopeID))] else [])"

text \<open>\<open>None\<close> is the nil policy: there is none, or the search failed.\<close>

definition find_policy :: "'s mongo \<Rightarrow> string \<Rightarrow> string \<Rightarrow> string \<Rightarrow> string \<Rightarrow> 's \<Rightarrow> auto_resolve_policy option go" where
  "find_policy M tenantID accountID scopeType scopeID s =
     (case mg_FindOne M chat_agent_policy (policy_filter tenantID accountID scopeType scopeID) s of
        Panic e \<Rightarrow> Panic e | Error e \<Rightarrow> Ok None | Ok None \<Rightarrow> Ok None
      | Ok (Some d) \<Rightarrow> (case decode_policy d of Panic e \<Rightarrow> Panic e | Error e \<Rightarrow> Ok None | Ok p \<Rightarrow> Ok (Some p)))"

lemma decode_policy_scope:
  assumes "decode_policy d = Ok p"
  shows "decode_str d ''tenant_id'' = Ok (pl_TenantID p)" "decode_str d ''account_id'' = Ok (pl_AccountID p)"
    "decode_str d ''scope_type'' = Ok (pl_ScopeType p)" "decode_str d ''scope_id'' = Ok (pl_ScopeID p)"
  using assms unfolding decode_policy_def by (auto dest!: go_bind_OkD)

text \<open>What is found is a policy of the scope that was asked for; without an id of the scope, of some scope of its type.\<close>

theorem find_policy_scope:
  assumes "mlaw_FindOne M view" and "find_policy M tenantID accountID scopeType scopeID s = Ok (Some p)"
  shows "pl_TenantID p = tenantID \<and> pl_AccountID p = accountID \<and> pl_ScopeType p = scopeType \<and> (scopeID \<noteq> '''' \<longrightarrow> pl_ScopeID p = scopeID)
    \<and> (\<exists>d\<in>set (view chat_agent_policy s). decode_policy d = Ok p)"
proof -
  obtain d where one: "mg_FindOne M chat_agent_policy (policy_filter tenantID accountID scopeType scopeID) s = Ok (Some d)" and p: "decode_policy d = Ok p"
    using assms(2) by (auto simp: find_policy_def split: go.splits option.splits)
  have "Some d = find (doc_matches (policy_filter tenantID accountID scopeType scopeID)) (view chat_agent_policy s)"
    using assms(1) one unfolding mlaw_FindOne_def by blast
  then have d: "d \<in> set (view chat_agent_policy s)" and m: "doc_matches (policy_filter tenantID accountID scopeType scopeID) d"
    by (metis find_Some_iff nth_mem)+
  from m have "map_of d ''tenant_id'' = Some (MStr tenantID)" "map_of d ''account_id'' = Some (MStr accountID)" "map_of d ''scope_type'' = Some (MStr scopeType)"
    "scopeID \<noteq> '''' \<longrightarrow> map_of d ''scope_id'' = Some (MStr scopeID)" by (auto simp: doc_matches_def policy_filter_def)
  with decode_policy_scope[OF p] d p show ?thesis by (auto simp: decode_str_def)
qed

text \<open>A server that fails and a policy that cannot be read look like no policy.\<close>

lemma find_policy_hides_errors:
  "mg_FindOne M chat_agent_policy (policy_filter tenantID accountID scopeType scopeID) s = Error e \<Longrightarrow>
   find_policy M tenantID accountID scopeType scopeID s = Ok None"
  by (simp add: find_policy_def)

end
