(* ===== verification/MongoUtil.thy ===== *)
theory MongoUtil
  imports MongoDoc Errors
begin

section \<open>The helpers around the MongoDB driver\<close>

text \<open>
  \<^verbatim>\<open>data/database/mgo/mongoutil/\<close>: the configuration and its defaults, the start of a client with its
  attempts, transactions where the server has them, and the generic operations with their errors wrapped.
  The driver is a parameter: the start of a client, a collection, a session. \<open>pl\<close> tells of the message of
  an error where the error is made and what the stack there is.
\<close>

subsection \<open>Results\<close>

text \<open>A value, an error that keeps its structure, or a panic.\<close>

datatype 'a eres = Val 'a | Err gerr | Crash string

type_synonym places = "string \<Rightarrow> addr \<times> addr \<times> frame list"

definition wrap_msg :: "places \<Rightarrow> gerr \<Rightarrow> string \<Rightarrow> string list \<Rightarrow> gerr" where
  "wrap_msg pl e msg kv = (case pl msg of (a, b, fs) \<Rightarrow> the (errs_WrapMsg a b fs (Some e) msg kv))"

definition new_err :: "places \<Rightarrow> string \<Rightarrow> gerr" where
  "new_err pl msg = (case pl msg of (a, b, fs) \<Rightarrow> the (errs_Wrap b fs (Some (errs_New a msg []))))"

text \<open>\<^verbatim>\<open>if err != nil \{ return errs.WrapMsg(err, msg) \}\<close>.\<close>

fun or_wrap :: "places \<Rightarrow> string \<Rightarrow> 'a eres \<Rightarrow> 'a eres" where
  "or_wrap pl msg (Err e) = Err (wrap_msg pl e msg [])"
| "or_wrap pl msg x = x"

fun on_val :: "('a \<Rightarrow> 'b) \<Rightarrow> 'a eres \<Rightarrow> 'b eres" where
  "on_val f (Val x) = Val (f x)"
| "on_val f (Err e) = Err e"
| "on_val f (Crash e) = Crash e"

lemma wrap_msg_found: "errors_Is e t \<Longrightarrow> errors_Is (wrap_msg pl e msg kv) t"
  by (auto simp: wrap_msg_def errs_WrapMsg_def stack_New_def NewErrorWrapper_def split: prod.splits
      intro: errors_Is_stack errors_Is_wrap)

subsection \<open>The configuration\<close>

record mongo_config =
  mc_Uri :: string
  mc_Address :: "string list"
  mc_Database :: string
  mc_Username :: string
  mc_Password :: string
  mc_AuthSource :: string
  mc_MaxPoolSize :: int
  mc_MaxRetry :: int

definition buildMongoURI :: "mongo_config \<Rightarrow> string \<Rightarrow> string" where
  "buildMongoURI c authSource =
     (let credentials = (if mc_Username c \<noteq> '''' \<and> mc_Password c \<noteq> '''' then mc_Username c @ '':'' @ mc_Password c else '''')
      in ''mongodb://'' @ credentials @ ''@'' @ join '','' (mc_Address c) @ ''/'' @ mc_Database c @ ''?authSource='' @ authSource
           @ ''&maxPoolSize='' @ itoa (mc_MaxPoolSize c))"

definition ValidateAndSetDefaults :: "places \<Rightarrow> mongo_config \<Rightarrow> mongo_config \<times> gerr option" where
  "ValidateAndSetDefaults pl c =
     (if mc_Uri c = '''' \<and> length (mc_Address c) = 0 then (c, Some (new_err pl ''either Uri or Address must be provided''))
      else if mc_Database c = '''' then (c, Some (new_err pl ''database is required''))
      else
        (let c1 = (if mc_MaxPoolSize c \<le> 0 then c\<lparr> mc_MaxPoolSize := 100 \<rparr> else c);
             c2 = (if mc_MaxRetry c1 \<le> 0 then c1\<lparr> mc_MaxRetry := 3 \<rparr> else c1);
             c3 = (if mc_Uri c2 = '''' then
                     (if mc_AuthSource c2 = '''' then c2\<lparr> mc_Uri := buildMongoURI c2 (mc_Database c2) \<rparr>
                      else c2\<lparr> mc_Uri := buildMongoURI c2 (mc_AuthSource c2) \<rparr>)
                   else c2)
         in (c3, None)))"

text \<open>What the client is started with: a URI or hosts, the size of the pool, a user.\<close>

record client_options =
  co_from :: "string + string list"
  co_pool :: int
  co_auth :: "(string \<times> string \<times> string) option"

definition applyConfigToOptions :: "places \<Rightarrow> mongo_config \<Rightarrow> client_options eres" where
  "applyConfigToOptions pl c =
     (let o1 = (if mc_Uri c \<noteq> '''' then Some (Inl (mc_Uri c)) else if 0 < length (mc_Address c) then Some (Inr (mc_Address c)) else None)
      in case o1 of
           None \<Rightarrow> (case pl ''mongo uri or address is required'' of (a, _) \<Rightarrow> Err (errs_New a ''mongo uri or address is required'' []))
         | Some f \<Rightarrow> Val \<lparr> co_from = f, co_pool = mc_MaxPoolSize c,
                        co_auth = (if mc_Username c \<noteq> '''' then Some (mc_Username c, mc_Password c, mc_AuthSource c) else None) \<rparr>)"

text \<open>
  After the defaults the client is always started from a URI, and the source of the user is the one that was
  configured, the empty one included.
\<close>

lemma uri_not_empty [simp]: "buildMongoURI c a \<noteq> ''''"
  by (simp add: buildMongoURI_def Let_def)

lemma validated:
  assumes "ValidateAndSetDefaults pl c = (c', None)"
  shows "mc_Uri c' = (if mc_Uri c = '''' then mc_Uri c' else mc_Uri c)" "mc_Uri c' \<noteq> ''''" "mc_Database c = mc_Database c'"
    "mc_Database c' \<noteq> ''''" "mc_Username c' = mc_Username c" "mc_Password c' = mc_Password c" "mc_AuthSource c' = mc_AuthSource c"
    "0 < mc_MaxPoolSize c'" "0 < mc_MaxRetry c'"
  using assms unfolding ValidateAndSetDefaults_def Let_def by (auto split: if_split_asm)

lemma defaults_are_set:
  assumes "ValidateAndSetDefaults pl c = (c', None)"
  shows "mc_AuthSource c' = mc_AuthSource c
    \<and> applyConfigToOptions pl c' = Val \<lparr> co_from = Inl (mc_Uri c'), co_pool = mc_MaxPoolSize c',
          co_auth = (if mc_Username c \<noteq> '''' then Some (mc_Username c, mc_Password c, mc_AuthSource c) else None) \<rparr>"
  using validated[OF assms] by (simp add: applyConfigToOptions_def)

lemma defaults_are_stable:
  "ValidateAndSetDefaults pl c = (c', None) \<Longrightarrow> ValidateAndSetDefaults pl c' = (c', None)"
  by (frule validated(2), frule validated(4), frule validated(8), frule validated(9)) (simp add: ValidateAndSetDefaults_def)

subsection \<open>The start of a client\<close>

text \<open>
  The driver's client start: connecting, a ping, the disconnect, the text \<^verbatim>\<open>isMaster\<close> answers, the code
  of a command error, and whether the context is over.
\<close>

record ('w, 'c) mongo_start =
  ms_Connect :: "client_options option \<Rightarrow> 'w \<Rightarrow> 'w \<times> 'c eres"
  ms_Ping :: "'c \<Rightarrow> 'w \<Rightarrow> 'w \<times> unit eres"
  ms_Disconnect :: "'c \<Rightarrow> 'w \<Rightarrow> 'w \<times> unit eres"
  ms_isMaster :: "'c \<Rightarrow> 'w \<Rightarrow> 'w \<times> doc eres"
  ms_code :: "gerr \<Rightarrow> int option"
  ms_done :: "'w \<Rightarrow> bool"
  ms_sleep :: "duration \<Rightarrow> 'w \<Rightarrow> 'w"

definition shouldRetry :: "('w, 'c) mongo_start \<Rightarrow> gerr \<Rightarrow> 'w \<Rightarrow> bool" where
  "shouldRetry D err w =
     (if ms_done D w then False
      else case ms_code D err of Some c \<Rightarrow> c \<noteq> 13 \<and> c \<noteq> 18 | None \<Rightarrow> True)"

definition connectMongo :: "('w, 'c) mongo_start \<Rightarrow> client_options option \<Rightarrow> 'w \<Rightarrow> 'w \<times> 'c eres" where
  "connectMongo D opts w =
     (case ms_Connect D opts w of
        (w1, Val c) \<Rightarrow> (case ms_Ping D c w1 of (w2, Val _) \<Rightarrow> (w2, Val c) | (w2, Err e) \<Rightarrow> (w2, Err e) | (w2, Crash e) \<Rightarrow> (w2, Crash e))
      | (w1, x) \<Rightarrow> (w1, x))"

text \<open>The attempts: \<open>n\<close> are left; the last error is the loop's.\<close>

fun connect_loop :: "('w, 'c) mongo_start \<Rightarrow> client_options option \<Rightarrow> nat \<Rightarrow> gerr option \<Rightarrow> 'w \<Rightarrow> 'w \<times> unit eres" where
  "connect_loop D opts 0 err w = (w, (case err of None \<Rightarrow> Val () | Some e \<Rightarrow> Err e))"
| "connect_loop D opts (Suc n) err w =
     (case connectMongo D opts w of
        (w1, Val c) \<Rightarrow> (w1, Val ())
      | (w1, Crash e) \<Rightarrow> (w1, Crash e)
      | (w1, Err e) \<Rightarrow>
          (if shouldRetry D e w1 then connect_loop D opts n (Some e) (ms_sleep D (second div 2) w1) else (w1, Err e)))"

text \<open>Transactions: \<open>mt_tx\<close> tells whether the server is part of a replica set.\<close>

record 'c mongo_tx =
  mt_client :: 'c
  mt_tx :: bool

definition NewMongoTx :: "('w, 'c) mongo_start \<Rightarrow> places \<Rightarrow> 'c \<Rightarrow> 'w \<Rightarrow> 'w \<times> 'c mongo_tx eres" where
  "NewMongoTx D pl c w =
     (case ms_isMaster D c w of
        (w1, Val res) \<Rightarrow> (w1, Val \<lparr> mt_client = c, mt_tx = (map_of res ''setName'' \<noteq> None) \<rparr>)
      | (w1, Err e) \<Rightarrow> (w1, Err (wrap_msg pl e ''check whether mongo is deployed in a cluster'' []))
      | (w1, Crash e) \<Rightarrow> (w1, Crash e))"

definition NewMongo :: "'c \<Rightarrow> 'c mongo_tx" where
  "NewMongo c = \<lparr> mt_client = c, mt_tx = False \<rparr>"

text \<open>
  The client that is answered is the one of another connection, made after the loop, whose error is
  overwritten; without a client \<^verbatim>\<open>Database\<close> reads a nil pointer.
\<close>

record 'c mongo_client =
  cl_tx :: "'c mongo_tx"
  cl_db :: "'c \<times> string"

definition NewMongoDB :: "('w, 'c) mongo_start \<Rightarrow> places \<Rightarrow> mongo_config \<Rightarrow> 'w \<Rightarrow> mongo_config \<times> 'w \<times> 'c mongo_client eres" where
  "NewMongoDB D pl c w =
     (case ValidateAndSetDefaults pl c of
        (c1, Some e) \<Rightarrow> (c1, w, Err e)
      | (c1, None) \<Rightarrow>
          (let opts = (case applyConfigToOptions pl c1 of Val o1 \<Rightarrow> Some o1 | _ \<Rightarrow> None)
           in case connect_loop D opts (nat (mc_MaxRetry c1)) None w of
                (w1, Err e) \<Rightarrow> (c1, w1, Err (wrap_msg pl e ''failed to connect to MongoDB'' [''URI'', mc_Uri c1]))
              | (w1, Crash e) \<Rightarrow> (c1, w1, Crash e)
              | (w1, Val _) \<Rightarrow>
                  (case connectMongo D opts w1 of
                     (w2, Val cli) \<Rightarrow>
                       (case NewMongoTx D pl cli w2 of
                          (w3, Val tx) \<Rightarrow> (c1, w3, Val \<lparr> cl_tx = tx, cl_db = (cli, mc_Database c1) \<rparr>)
                        | (w3, Err e) \<Rightarrow> (c1, w3, Err e)
                        | (w3, Crash e) \<Rightarrow> (c1, w3, Crash e))
                   | (w2, Err _) \<Rightarrow> (c1, w2, Crash ''nil pointer dereference'')
                   | (w2, Crash e) \<Rightarrow> (c1, w2, Crash e))))"

definition mongo_Check :: "('w, 'c) mongo_start \<Rightarrow> places \<Rightarrow> mongo_config \<Rightarrow> 'w \<Rightarrow> mongo_config \<times> 'w \<times> unit eres" where
  "mongo_Check D pl c w =
     (case ValidateAndSetDefaults pl c of
        (c1, Some e) \<Rightarrow> (c1, w, Err e)
      | (c1, None) \<Rightarrow>
          (let kv = [''URI'', mc_Uri c1, ''Database'', mc_Database c1, ''MaxPoolSize'', itoa (mc_MaxPoolSize c1)];
               off = (\<lambda>cli w. case ms_Disconnect D cli w of (w1, Err _) \<Rightarrow> fst (ms_Disconnect D cli w1) | (w1, _) \<Rightarrow> w1)
           in case ms_Connect D (Some \<lparr> co_from = Inl (mc_Uri c1), co_pool = 0, co_auth = None \<rparr>) w of
                (w1, Err e) \<Rightarrow> (c1, w1, Err (wrap_msg pl e ''MongoDB connect failed'' kv))
              | (w1, Crash e) \<Rightarrow> (c1, w1, Crash e)
              | (w1, Val cli) \<Rightarrow>
                  (case ms_Ping D cli w1 of
                     (w2, Err e) \<Rightarrow> (c1, off cli w2, Err (wrap_msg pl e ''MongoDB ping failed'' kv))
                   | (w2, Crash e) \<Rightarrow> (c1, off cli w2, Crash e)
                   | (w2, Val _) \<Rightarrow> (c1, off cli w2, Val ()))))"

text \<open>
  \<open>sess\<close> starts a session, \<open>txn\<close> is the driver's \<^verbatim>\<open>WithTransaction\<close>, which may call the function
  several times.
\<close>

definition mongoTx_Transaction ::
  "('w \<Rightarrow> 'w \<times> 's eres) \<Rightarrow> ('s \<Rightarrow> ('w \<Rightarrow> 'w \<times> unit eres) \<Rightarrow> 'w \<Rightarrow> 'w \<times> unit eres) \<Rightarrow> places
   \<Rightarrow> 'c mongo_tx \<Rightarrow> ('w \<Rightarrow> 'w \<times> unit eres) \<Rightarrow> 'w \<Rightarrow> 'w \<times> unit eres" where
  "mongoTx_Transaction sess txn pl m fn w =
     (if \<not> mt_tx m then fn w
      else case sess w of
             (w1, Err e) \<Rightarrow> (w1, Err (wrap_msg pl e ''mongodb start session failed'' []))
           | (w1, Crash e) \<Rightarrow> (w1, Crash e)
           | (w1, Val s) \<Rightarrow> (case txn s fn w1 of (w2, x) \<Rightarrow> (w2, or_wrap pl ''mongodb transaction failed'' x)))"

text \<open>
  A client is connected twice: the connection the loop made is dropped, and when the second one fails the start
  panics although the server was reached.
\<close>

lemma connect_loop_first:
  "connectMongo D opts w = (w1, Val k) \<Longrightarrow> 0 < n \<Longrightarrow> connect_loop D opts n err w = (w1, Val ())"
  by (cases n) simp_all

theorem second_connection_decides:
  assumes "ValidateAndSetDefaults pl c = (c1, None)" and "applyConfigToOptions pl c1 = Val opts"
    and "connectMongo D (Some opts) w = (w1, Val k)"
  shows "connectMongo D (Some opts) w1 = (w2, Err e) \<Longrightarrow> NewMongoDB D pl c w = (c1, w2, Crash ''nil pointer dereference'')"
    and "connectMongo D (Some opts) w1 = (w2, Val k2) \<Longrightarrow> NewMongoTx D pl k2 w2 = (w3, Val tx) \<Longrightarrow>
       NewMongoDB D pl c w = (c1, w3, Val \<lparr> cl_tx = tx, cl_db = (k2, mc_Database c1) \<rparr>)"
  using assms connect_loop_first[OF assms(3), of "nat (mc_MaxRetry c1)"] validated(9)[OF assms(1)]
  by (simp_all add: NewMongoDB_def)

text \<open>Without a replica set a transaction is the function itself, run once and with nothing taken back when it fails.\<close>

lemma transaction_alone: "mongoTx_Transaction sess txn pl (NewMongo c) fn w = fn w"
  by (simp add: mongoTx_Transaction_def NewMongo_def)

end
