(* ===== verification/MongoOps.thy ===== *)
theory MongoOps
  imports MongoUtil
begin

section \<open>Generic operations on a collection\<close>

text \<open>
  \<^verbatim>\<open>data/database/mgo/mongoutil/util.go\<close>: the driver's calls with their errors wrapped, the decoding of
  what a cursor gives, and pages. The collection and the type the documents are decoded to are parameters.
\<close>

subsection \<open>The driver\<close>

record find_options =
  fo_sort :: "(string \<times> int) list option"
  fo_skip :: "int option"
  fo_limit :: "int option"

definition no_options :: find_options where
  "no_options = \<lparr> fo_sort = None, fo_skip = None, fo_limit = None \<rparr>"

text \<open>The driver merges the options of a call: of each option the last one that is set.\<close>

definition later :: "'a option \<Rightarrow> 'a option \<Rightarrow> 'a option" where
  "later x y = (case y of None \<Rightarrow> x | Some v \<Rightarrow> Some v)"

definition merge_options :: "find_options list \<Rightarrow> find_options" where
  "merge_options opts = foldl (\<lambda>m p. \<lparr> fo_sort = later (fo_sort m) (fo_sort p), fo_skip = later (fo_skip m) (fo_skip p),
     fo_limit = later (fo_limit m) (fo_limit p) \<rparr>) no_options opts"

text \<open>A cursor holds the documents \<^verbatim>\<open>All\<close> reads, or the error it gives.\<close>

record 's coll =
  co_InsertOne :: "doc \<Rightarrow> 's \<Rightarrow> 's \<times> unit eres"
  co_InsertMany :: "doc list \<Rightarrow> 's \<Rightarrow> 's \<times> unit eres"
  co_UpdateOne :: "mfilter \<Rightarrow> mupdate \<Rightarrow> 's \<Rightarrow> 's \<times> update_result eres"
  co_UpdateMany :: "mfilter \<Rightarrow> mupdate \<Rightarrow> 's \<Rightarrow> 's \<times> update_result eres"
  co_Find :: "mfilter \<Rightarrow> find_options list \<Rightarrow> 's \<Rightarrow> (doc list eres) eres"
  co_FindOne :: "mfilter \<Rightarrow> 's \<Rightarrow> doc eres"
  co_FindOneAndUpdate :: "mfilter \<Rightarrow> mupdate \<Rightarrow> 's \<Rightarrow> 's \<times> doc eres"
  co_CountDocuments :: "mfilter \<Rightarrow> int option \<Rightarrow> 's \<Rightarrow> int eres"
  co_DeleteOne :: "mfilter \<Rightarrow> 's \<Rightarrow> 's \<times> nat eres"
  co_DeleteMany :: "mfilter \<Rightarrow> 's \<Rightarrow> 's \<times> nat eres"
  co_Aggregate :: "mval list \<Rightarrow> 's \<Rightarrow> (doc list eres) eres"
  co_ErrNoDocuments :: gerr

text \<open>
  A type: its name, its zero value, and how a document and the value of a field are read into it.
\<close>

record 'a gotype =
  gt_name :: string
  gt_zero :: 'a
  gt_doc :: "doc \<Rightarrow> 'a eres"
  gt_field :: "mval \<Rightarrow> 'a eres"

definition basic_names :: "string list" where
  "basic_names = [''int'', ''int8'', ''int16'', ''int32'', ''int64'', ''uint'', ''uint8'', ''uint16'', ''uint32'', ''uint64'',
     ''float32'', ''float64'', ''string'', ''[]byte'']"

definition basic :: "'a gotype \<Rightarrow> bool" where
  "basic T \<longleftrightarrow> gt_name T \<in> set basic_names \<or> gt_name T \<in> set (map ((@) ''*'') basic_names)"

subsection \<open>Writing and counting\<close>

definition coll_InsertOne :: "places \<Rightarrow> 's coll \<Rightarrow> doc \<Rightarrow> 's \<Rightarrow> 's \<times> unit eres" where
  "coll_InsertOne pl C v s = map_prod id (or_wrap pl ''mongo insert one'') (co_InsertOne C v s)"

definition coll_InsertMany :: "places \<Rightarrow> 's coll \<Rightarrow> doc list \<Rightarrow> 's \<Rightarrow> 's \<times> unit eres" where
  "coll_InsertMany pl C vs s = map_prod id (or_wrap pl ''mongo insert many'') (co_InsertMany C vs s)"

definition coll_UpdateOneResult :: "places \<Rightarrow> 's coll \<Rightarrow> mfilter \<Rightarrow> mupdate \<Rightarrow> 's \<Rightarrow> 's \<times> update_result eres" where
  "coll_UpdateOneResult pl C f u s = map_prod id (or_wrap pl ''mongo update one'') (co_UpdateOne C f u s)"

definition coll_UpdateOne :: "places \<Rightarrow> 's coll \<Rightarrow> mfilter \<Rightarrow> mupdate \<Rightarrow> bool \<Rightarrow> 's \<Rightarrow> 's \<times> unit eres" where
  "coll_UpdateOne pl C f u notMatchedErr s =
     (case co_UpdateOne C f u s of
        (s1, Err e) \<Rightarrow> (s1, Err (wrap_msg pl e ''mongo update one'' []))
      | (s1, Crash e) \<Rightarrow> (s1, Crash e)
      | (s1, Val res) \<Rightarrow>
          (if notMatchedErr \<and> ur_Matched res = 0 then (s1, Err (wrap_msg pl (co_ErrNoDocuments C) ''mongo update not matched'' []))
           else (s1, Val ())))"

definition coll_UpdateMany :: "places \<Rightarrow> 's coll \<Rightarrow> mfilter \<Rightarrow> mupdate \<Rightarrow> 's \<Rightarrow> 's \<times> update_result eres" where
  "coll_UpdateMany pl C f u s = map_prod id (or_wrap pl ''mongo update many'') (co_UpdateMany C f u s)"

definition coll_Count :: "places \<Rightarrow> 's coll \<Rightarrow> mfilter \<Rightarrow> int option \<Rightarrow> 's \<Rightarrow> int eres" where
  "coll_Count pl C f lim s = or_wrap pl ''mongo count'' (co_CountDocuments C f lim s)"

definition coll_Exist :: "places \<Rightarrow> 's coll \<Rightarrow> mfilter \<Rightarrow> 's \<Rightarrow> bool eres" where
  "coll_Exist pl C f s = on_val (\<lambda>n. 0 < n) (coll_Count pl C f (Some 1) s)"

definition coll_DeleteOneResult :: "places \<Rightarrow> 's coll \<Rightarrow> mfilter \<Rightarrow> 's \<Rightarrow> 's \<times> nat eres" where
  "coll_DeleteOneResult pl C f s = map_prod id (or_wrap pl ''mongo delete one'') (co_DeleteOne C f s)"

definition coll_DeleteOne :: "places \<Rightarrow> 's coll \<Rightarrow> mfilter \<Rightarrow> 's \<Rightarrow> 's \<times> unit eres" where
  "coll_DeleteOne pl C f s = map_prod id (on_val (\<lambda>_. ())) (coll_DeleteOneResult pl C f s)"

definition coll_DeleteManyResult :: "places \<Rightarrow> 's coll \<Rightarrow> mfilter \<Rightarrow> 's \<Rightarrow> 's \<times> nat eres" where
  "coll_DeleteManyResult pl C f s = map_prod id (or_wrap pl ''mongo delete many'') (co_DeleteMany C f s)"

definition coll_DeleteMany :: "places \<Rightarrow> 's coll \<Rightarrow> mfilter \<Rightarrow> 's \<Rightarrow> 's \<times> unit eres" where
  "coll_DeleteMany pl C f s = map_prod id (on_val (\<lambda>_. ())) (coll_DeleteManyResult pl C f s)"

subsection \<open>Decoding\<close>

fun decode_each :: "('d \<Rightarrow> 'a eres) \<Rightarrow> 'd list \<Rightarrow> 'a list eres" where
  "decode_each dec [] = Val []"
| "decode_each dec (d # ds) =
     (case dec d of Val x \<Rightarrow> on_val ((#) x) (decode_each dec ds) | Err e \<Rightarrow> Err e | Crash e \<Rightarrow> Crash e)"

text \<open>A document read into a \<^verbatim>\<open>map[string]T\<close>.\<close>

definition decode_fields :: "'a gotype \<Rightarrow> doc \<Rightarrow> (string, 'a) gomap eres" where
  "decode_fields T d = decode_each (\<lambda>(k, v). on_val (Pair k) (gt_field T v)) d"

text \<open>\<^verbatim>\<open>errs.ErrInternalServer.WrapMsg\<close>, the address of the catalogue's error given with \<open>pl\<close>.\<close>

definition not_one :: "places \<Rightarrow> gerr" where
  "not_one pl = (case pl ''mongo find result len(m) != 1'' of
     (a, b, fs) \<Rightarrow> CodeError_WrapMsg a b fs (fst (pl ''ServerInternalError''), ErrInternalServer) ''mongo find result len(m) != 1'' [])"

fun single_values :: "places \<Rightarrow> (string, 'a) gomap list \<Rightarrow> 'a list eres" where
  "single_values pl [] = Val []"
| "single_values pl (m # ms) =
     (if length m \<noteq> 1 then Err (not_one pl) else on_val ((@) (map snd m)) (single_values pl ms))"

definition Decodes :: "places \<Rightarrow> 'a gotype \<Rightarrow> doc list eres \<Rightarrow> 'a list eres" where
  "Decodes pl T cur =
     (case cur of
        Crash e \<Rightarrow> Crash e
      | Err e \<Rightarrow> Err (wrap_msg pl e (if basic T then ''mongo decodes'' else ''mongo all'') [])
      | Val ds \<Rightarrow>
          (if basic T then
             (case or_wrap pl ''mongo decodes'' (decode_each (decode_fields T) ds) of
                Val temp \<Rightarrow> single_values pl temp | Err e \<Rightarrow> Err e | Crash e \<Rightarrow> Crash e)
           else or_wrap pl ''mongo all'' (decode_each (gt_doc T) ds)))"

text \<open>The value that is returned with an error is the zero value; here only the error is kept.\<close>

definition DecodeOne :: "places \<Rightarrow> 'a gotype \<Rightarrow> doc \<Rightarrow> 'a eres" where
  "DecodeOne pl T d =
     (if basic T then
        (case or_wrap pl ''mongo decodes one'' (decode_fields T d) of
           Val temp \<Rightarrow> (if length temp \<noteq> 1 then Err (not_one pl) else Val (last (map snd temp)))
         | Err e \<Rightarrow> Err e | Crash e \<Rightarrow> Crash e)
      else or_wrap pl ''mongo decoder'' (gt_doc T d))"

definition cursor_all :: "places \<Rightarrow> 'a gotype \<Rightarrow> string \<Rightarrow> (doc list eres) eres \<Rightarrow> 'a list eres" where
  "cursor_all pl T msg r = (case or_wrap pl msg r of Val cur \<Rightarrow> Decodes pl T cur | Err e \<Rightarrow> Err e | Crash e \<Rightarrow> Crash e)"

definition coll_Find :: "places \<Rightarrow> 's coll \<Rightarrow> 'a gotype \<Rightarrow> mfilter \<Rightarrow> find_options list \<Rightarrow> 's \<Rightarrow> 'a list eres" where
  "coll_Find pl C T f opts s = cursor_all pl T ''mongo find'' (co_Find C f opts s)"

definition coll_Aggregate :: "places \<Rightarrow> 's coll \<Rightarrow> 'a gotype \<Rightarrow> mval list \<Rightarrow> 's \<Rightarrow> 'a list eres" where
  "coll_Aggregate pl C T pipeline s = cursor_all pl T ''mongo aggregate'' (co_Aggregate C pipeline s)"

definition coll_FindOne :: "places \<Rightarrow> 's coll \<Rightarrow> 'a gotype \<Rightarrow> mfilter \<Rightarrow> 's \<Rightarrow> 'a eres" where
  "coll_FindOne pl C T f s =
     (case or_wrap pl ''mongo find one'' (co_FindOne C f s) of Val d \<Rightarrow> DecodeOne pl T d | Err e \<Rightarrow> Err e | Crash e \<Rightarrow> Crash e)"

definition coll_FindOneAndUpdate :: "places \<Rightarrow> 's coll \<Rightarrow> 'a gotype \<Rightarrow> mfilter \<Rightarrow> mupdate \<Rightarrow> 's \<Rightarrow> 's \<times> 'a eres" where
  "coll_FindOneAndUpdate pl C T f u s =
     (case co_FindOneAndUpdate C f u s of
        (s1, r) \<Rightarrow> (s1, (case or_wrap pl ''mongo find one and update'' r of Val d \<Rightarrow> DecodeOne pl T d | Err e \<Rightarrow> Err e | Crash e \<Rightarrow> Crash e)))"

subsection \<open>Pages\<close>

text \<open>The page's number and its size are 32 bit integers, and so is the number less one.\<close>

definition wrap32 :: "int \<Rightarrow> int" where
  "wrap32 n = (n + 2147483648) mod 4294967296 - 2147483648"

record page =
  pg_Number :: int
  pg_Show :: int

definition page_skip :: "page \<Rightarrow> int" where
  "page_skip p = wrap64 (wrap32 (pg_Number p - 1) * pg_Show p)"

definition page_options :: "page \<Rightarrow> find_options" where
  "page_options p = no_options\<lparr> fo_skip := Some (page_skip p), fo_limit := Some (pg_Show p) \<rparr>"

definition FindPage :: "places \<Rightarrow> 's coll \<Rightarrow> 'a gotype \<Rightarrow> mfilter \<Rightarrow> page option \<Rightarrow> find_options list \<Rightarrow> 's \<Rightarrow> (int \<times> 'a list) eres" where
  "FindPage pl C T f pagination opts s =
     (case coll_Count pl C f None s of
        Err e \<Rightarrow> Err (wrap_msg pl e ''mongo failed to count documents in collection'' [])
      | Crash e \<Rightarrow> Crash e
      | Val n \<Rightarrow>
          (case pagination of
             None \<Rightarrow> Val (n, [])
           | Some p \<Rightarrow>
               (if n = 0 then Val (n, [])
                else if page_skip p < 0 \<or> page_skip p \<ge> n \<or> pg_Show p \<le> 0 then Val (n, [])
                else on_val (Pair n) (coll_Find pl C T f (opts @ [page_options p]) s))))"

definition FindPageOnly :: "places \<Rightarrow> 's coll \<Rightarrow> 'a gotype \<Rightarrow> mfilter \<Rightarrow> page \<Rightarrow> find_options list \<Rightarrow> 's \<Rightarrow> 'a list eres" where
  "FindPageOnly pl C T f p opts s =
     (if page_skip p < 0 \<or> pg_Show p \<le> 0 then Val [] else coll_Find pl C T f (opts @ [page_options p]) s)"

subsection \<open>Small helpers\<close>

definition Ignore :: "'a \<Rightarrow> gerr option \<Rightarrow> gerr option" where
  "Ignore x err = err"

definition IgnoreWarp :: "addr \<Rightarrow> frame list \<Rightarrow> 'a \<Rightarrow> gerr option \<Rightarrow> gerr option" where
  "IgnoreWarp b fs x err = (if err \<noteq> None then errs_Wrap b fs err else err)"

fun IncrVersion :: "('s \<Rightarrow> 's \<times> unit eres) list \<Rightarrow> 's \<Rightarrow> 's \<times> unit eres" where
  "IncrVersion [] s = (s, Val ())"
| "IncrVersion (fn # fns) s = (case fn s of (s1, Val _) \<Rightarrow> IncrVersion fns s1 | (s1, e) \<Rightarrow> (s1, e))"

subsection \<open>What a cursor's documents are read as\<close>

definition reads :: "'a gotype \<Rightarrow> doc \<Rightarrow> 'a \<Rightarrow> bool" where
  "reads T d x \<longleftrightarrow> (if basic T then \<exists>k. decode_fields T d = Val [(k, x)] else gt_doc T d = Val x)"

lemma reads_unique: "reads T d x \<Longrightarrow> reads T d y \<Longrightarrow> x = y"
  by (auto simp: reads_def split: if_splits)

lemma or_wrap_Val [simp]: "or_wrap pl msg r = Val x \<longleftrightarrow> r = Val x"
  by (cases r) simp_all

lemma on_val_Val [simp]: "on_val f r = Val y \<longleftrightarrow> (\<exists>x. r = Val x \<and> y = f x)"
  by (cases r) auto

lemma decode_each_Val: "decode_each dec ds = Val xs \<longleftrightarrow> list_all2 (\<lambda>d x. dec d = Val x) ds xs"
  by (induction ds arbitrary: xs) (auto simp: list_all2_Cons1 split: eres.split)

lemma single_values_Val: "single_values pl ms = Val xs \<longleftrightarrow> list_all2 (\<lambda>m x. \<exists>k. m = [(k, x)]) ms xs"
proof (induction ms arbitrary: xs)
  case (Cons m ms)
  show ?case
  proof (cases "length m = 1")
    case True
    then obtain k x where "m = [(k, x)]" by (metis One_nat_def Suc_length_conv length_0_conv surj_pair)
    with Cons show ?thesis by (auto simp: list_all2_Cons1)
  qed (auto simp: list_all2_Cons1)
qed auto

lemma Decodes_Val: "Decodes pl T (Val ds) = Val xs \<longleftrightarrow> list_all2 (reads T) ds xs"
proof (cases "basic T")
  case True
  have "Decodes pl T (Val ds) = Val xs \<longleftrightarrow> (\<exists>temp. decode_each (decode_fields T) ds = Val temp \<and> single_values pl temp = Val xs)"
    using True by (cases "decode_each (decode_fields T) ds") (auto simp: Decodes_def)
  also have "\<dots> \<longleftrightarrow>
      list_all2 ((\<lambda>d m. decode_fields T d = Val m) OO (\<lambda>m x. \<exists>k. m = [(k, x)])) ds xs"
    by (simp add: decode_each_Val single_values_Val list.rel_compp relcompp_apply)
  also have "((\<lambda>d m. decode_fields T d = Val m) OO (\<lambda>m x. \<exists>k. m = [(k, x)])) = reads T"
    using True by (intro ext) (auto simp: reads_def relcompp_apply)
  finally show ?thesis .
next
  case False
  then have "reads T = (\<lambda>d x. gt_doc T d = Val x)" by (intro ext) (simp add: reads_def)
  with False show ?thesis by (simp add: Decodes_def decode_each_Val)
qed

lemma cursor_all_Val: "cursor_all pl T msg r = Val xs \<longleftrightarrow> (\<exists>ds. r = Val (Val ds) \<and> list_all2 (reads T) ds xs)"
proof (cases r)
  case (Val cur)
  then show ?thesis
  proof (cases cur)
    case (Val ds)
    with \<open>r = Val cur\<close> show ?thesis by (simp add: cursor_all_def Decodes_Val)
  qed (simp_all add: cursor_all_def Decodes_def)
qed (simp_all add: cursor_all_def)

subsection \<open>Pages of a result\<close>

text \<open>
  What the documentation says of a find and a count: the documents that match, in an order the sort admits,
  then the skip and the limit. \<open>before\<close> compares documents by a sort.
\<close>

definition limited :: "int option \<Rightarrow> doc list \<Rightarrow> doc list" where
  "limited lim ds = (case lim of None \<Rightarrow> ds | Some n \<Rightarrow> if n = 0 then ds else take (nat \<bar>n\<bar>) ds)"

definition skipped :: "int option \<Rightarrow> doc list \<Rightarrow> doc list" where
  "skipped k ds = (case k of None \<Rightarrow> ds | Some n \<Rightarrow> drop (nat n) ds)"

definition coll_laws :: "'s coll \<Rightarrow> ('s \<Rightarrow> doc list) \<Rightarrow> ((string \<times> int) list option \<Rightarrow> doc \<Rightarrow> doc \<Rightarrow> bool) \<Rightarrow> bool" where
  "coll_laws C view before \<longleftrightarrow>
     (\<forall>f opts s ds. co_Find C f opts s = Val (Val ds) \<longrightarrow>
        (\<exists>ord. mset ord = mset (filter (doc_matches f) (view s)) \<and> sorted_wrt (before (fo_sort (merge_options opts))) ord
          \<and> ds = limited (fo_limit (merge_options opts)) (skipped (fo_skip (merge_options opts)) ord)))
   \<and> (\<forall>f s n. co_CountDocuments C f None s = Val n \<longrightarrow> n = int (length (filter (doc_matches f) (view s))))"

lemma sorted_wrt_unique:
  "mset xs = mset ys \<Longrightarrow> sorted_wrt R xs \<Longrightarrow> sorted_wrt R ys \<Longrightarrow> (\<And>x y. x \<in> set xs \<Longrightarrow> y \<in> set xs \<Longrightarrow> R x y \<Longrightarrow> R y x \<Longrightarrow> x = y) \<Longrightarrow> xs = ys"
proof (induction xs arbitrary: ys)
  case (Cons x xs)
  then obtain y ys' where ys: "ys = y # ys'" by (cases ys) auto
  have mem: "set (x # xs) = set (y # ys')" using Cons.prems(1) ys by (metis mset_eq_setD)
  have "x = y"
  proof (rule ccontr)
    assume ne: "x \<noteq> y"
    with mem have "x \<in> set ys'" "y \<in> set xs" by auto
    with Cons.prems(2,3) ys have "R y x" "R x y" by auto
    with Cons.prems(4)[of x y] \<open>y \<in> set xs\<close> ne show False by auto
  qed
  moreover have "xs = ys'"
    by (rule Cons.IH) (use Cons.prems ys \<open>x = y\<close> in auto)
  ultimately show ?case by (simp add: ys)
qed simp

lemma concat_pages: "concat (map (\<lambda>p. take n (drop (p * n) xs)) [0..<k]) = take (k * n) xs"
proof (induction k)
  case (Suc k)
  have "take (Suc k * n) xs = take (k * n) xs @ take n (drop (k * n) xs)"
    by (metis add.commute mult_Suc take_add)
  with Suc show ?case by simp
qed simp

lemma merge_snoc: "merge_options (opts @ [p]) = \<lparr> fo_sort = later (fo_sort (merge_options opts)) (fo_sort p),
    fo_skip = later (fo_skip (merge_options opts)) (fo_skip p), fo_limit = later (fo_limit (merge_options opts)) (fo_limit p) \<rparr>"
  by (simp add: merge_options_def)

lemma page_skip_exact:
  assumes "1 \<le> pg_Number p" "pg_Number p \<le> 2147483647" "0 < pg_Show p" "pg_Show p \<le> 2147483647"
  shows "page_skip p = (pg_Number p - 1) * pg_Show p" "0 \<le> page_skip p"
proof -
  have w: "wrap32 (pg_Number p - 1) = pg_Number p - 1" using assms(1,2) by (simp add: wrap32_def)
  have "(pg_Number p - 1) * pg_Show p \<le> 2147483647 * 2147483647" using assms by (intro mult_mono) auto
  moreover have nn: "0 \<le> (pg_Number p - 1) * pg_Show p" using assms by simp
  ultimately have "int64 ((pg_Number p - 1) * pg_Show p)" by (simp add: int64_def)
  then show e: "page_skip p = (pg_Number p - 1) * pg_Show p" unfolding page_skip_def w by (rule wrap64_id)
  show "0 \<le> page_skip p" using nn e by simp
qed

definition sort_decides :: "('k \<Rightarrow> doc \<Rightarrow> doc \<Rightarrow> bool) \<Rightarrow> 'k \<Rightarrow> doc list \<Rightarrow> bool" where
  "sort_decides before srt ds \<longleftrightarrow> (\<forall>x \<in> set ds. \<forall>y \<in> set ds. before srt x y \<and> before srt y x \<longrightarrow> x = y)"

lemma reads_all_unique: "list_all2 (reads T) ds xs \<Longrightarrow> list_all2 (reads T) ds ys \<Longrightarrow> xs = ys"
  by (induction ds arbitrary: xs ys) (auto simp: list_all2_Cons1 dest: reads_unique)

lemma found_order:
  assumes "coll_laws C view before" "sort_decides before (fo_sort (merge_options opts)) (filter (doc_matches f) (view s))"
    and "co_Find C f opts s = Val (Val ds)" "mset ord = mset (filter (doc_matches f) (view s))"
    and "sorted_wrt (before (fo_sort (merge_options opts))) ord"
  shows "ds = limited (fo_limit (merge_options opts)) (skipped (fo_skip (merge_options opts)) ord)"
proof -
  obtain o2 where o2: "mset o2 = mset (filter (doc_matches f) (view s))" "sorted_wrt (before (fo_sort (merge_options opts))) o2"
      "ds = limited (fo_limit (merge_options opts)) (skipped (fo_skip (merge_options opts)) o2)"
    using assms(1,3) unfolding coll_laws_def by blast
  have "set ord = set (filter (doc_matches f) (view s))" using assms(4) by (metis mset_eq_setD)
  then have "before (fo_sort (merge_options opts)) x y \<Longrightarrow> before (fo_sort (merge_options opts)) y x \<Longrightarrow> x = y"
    if "x \<in> set ord" "y \<in> set ord" for x y using assms(2) that unfolding sort_decides_def by metis
  then have "ord = o2" using sorted_wrt_unique[of ord o2, OF _ assms(5) o2(2)] assms(4) o2(1) by metis
  with o2(3) show ?thesis by simp
qed

text \<open>A page is a slice of the whole result.\<close>

lemma page_is_slice:
  assumes laws: "coll_laws C view before" and dec: "sort_decides before srt (filter (doc_matches f) (view s))"
    and opts: "merge_options opts = \<lparr> fo_sort = srt, fo_skip = None, fo_limit = None \<rparr>"
    and all: "coll_Find pl C T f opts s = Val xs"
    and page: "FindPage pl C T f (Some p) opts s = Val (n, rs)"
    and p: "1 \<le> pg_Number p" "pg_Number p \<le> 2147483647" "0 < pg_Show p" "pg_Show p \<le> 2147483647"
  shows "n = int (length xs) \<and> rs = take (nat (pg_Show p)) (drop (nat ((pg_Number p - 1) * pg_Show p)) xs)"
proof -
  obtain ds where ds: "co_Find C f opts s = Val (Val ds)" "list_all2 (reads T) ds xs"
    using all by (auto simp: coll_Find_def cursor_all_Val)
  obtain ord where ord: "mset ord = mset (filter (doc_matches f) (view s))" "sorted_wrt (before srt) ord" "ds = ord"
    using laws ds(1) opts unfolding coll_laws_def by (auto simp: limited_def skipped_def dest!: spec)
  have len: "length xs = length (filter (doc_matches f) (view s))"
    using ds(2) ord(1,3) by (metis list_all2_lengthD mset_eq_length)
  obtain m where m: "co_CountDocuments C f None s = Val m"
    using page by (cases "co_CountDocuments C f None s") (auto simp: FindPage_def coll_Count_def)
  have mlen: "m = int (length xs)" using laws m len unfolding coll_laws_def by auto
  have sk: "page_skip p = (pg_Number p - 1) * pg_Show p" "0 \<le> page_skip p" using page_skip_exact[OF p] by simp_all
  show ?thesis
  proof (cases "m = 0 \<or> page_skip p \<ge> m")
    case True
    then have "n = m \<and> rs = []" using page m p(3) by (auto simp: FindPage_def coll_Count_def split: if_split_asm)
    moreover have "length xs \<le> nat (page_skip p)" using True mlen sk(2) by auto
    ultimately show ?thesis using mlen sk(1) by simp
  next
    case False
    then have "n = m" and f: "coll_Find pl C T f (opts @ [page_options p]) s = Val rs"
      using page m sk(2) p(3) by (auto simp: FindPage_def coll_Count_def)
    then obtain ds2 where ds2: "co_Find C f (opts @ [page_options p]) s = Val (Val ds2)" "list_all2 (reads T) ds2 rs"
      by (auto simp: coll_Find_def cursor_all_Val)
    have mo: "merge_options (opts @ [page_options p]) = \<lparr> fo_sort = srt, fo_skip = Some (page_skip p), fo_limit = Some (pg_Show p) \<rparr>"
      by (simp add: merge_snoc opts later_def page_options_def no_options_def)
    have "ds2 = take (nat (pg_Show p)) (drop (nat (page_skip p)) ds)"
      using found_order[OF laws _ ds2(1), of ord] dec ord p(3) by (simp add: mo limited_def skipped_def)
    with ds(2) have "list_all2 (reads T) ds2 (take (nat (pg_Show p)) (drop (nat (page_skip p)) xs))"
      by (simp add: list_all2_takeI list_all2_dropI)
    with ds2(2) have "rs = take (nat (pg_Show p)) (drop (nat (page_skip p)) xs)" by (rule reads_all_unique)
    with \<open>n = m\<close> mlen sk(1) show ?thesis by simp
  qed
qed

text \<open>C32: the pages of a search are its result. While the collection does not change and the sort decides the
  order, the pages one after another are exactly what a search without pages finds, none is longer than was
  asked for, and each comes with the length of the whole.\<close>
theorem pages_are_the_result:
  assumes "coll_laws C view before" and "sort_decides before srt (filter (doc_matches f) (view s))"
    and "merge_options opts = \<lparr> fo_sort = srt, fo_skip = None, fo_limit = None \<rparr>"
    and "coll_Find pl C T f opts s = Val xs"
    and "\<forall>i < k. FindPage pl C T f (Some \<lparr> pg_Number = int (Suc i), pg_Show = int n \<rparr>) opts s = Val (cnt i, rs i)"
    and "0 < n" and "n \<le> 2147483647" and "k \<le> 2147483647" and "length xs \<le> k * n"
  shows "concat (map rs [0..<k]) = xs \<and> (\<forall>i < k. length (rs i) \<le> n \<and> cnt i = int (length xs))"
proof -
  have sl: "cnt i = int (length xs) \<and> rs i = take n (drop (i * n) xs)" if "i < k" for i
  proof -
    have "nat (int i * int n) = i * n" by (simp flip: of_nat_mult)
    then show ?thesis
      using page_is_slice[OF assms(1-4), of "\<lparr> pg_Number = int (Suc i), pg_Show = int n \<rparr>" "cnt i" "rs i"] assms(5-8) that by simp
  qed
  then have "map rs [0..<k] = map (\<lambda>i. take n (drop (i * n) xs)) [0..<k]" by simp
  then have "concat (map rs [0..<k]) = xs" using concat_pages[of n xs k] assms(9) by (simp only: take_all)
  with sl show ?thesis by simp
qed

text \<open>A collection in memory that sorts by one field.\<close>

definition key_n :: "doc \<Rightarrow> int" where
  "key_n d = (case map_of d ''n'' of Some (MInt i) \<Rightarrow> i | _ \<Rightarrow> 0)"

definition toy_coll :: "doc list coll" where
  "toy_coll = \<lparr> co_InsertOne = (\<lambda>d s. (s @ [d], Val ())), co_InsertMany = (\<lambda>ds s. (s @ ds, Val ())),
     co_UpdateOne = (\<lambda>f u s. map_prod id Val (update_one_spec f u False s)),
     co_UpdateMany = (\<lambda>f u s. (update_many_spec f u s, Val \<lparr> ur_Matched = length (filter (doc_matches f) s), ur_Modified = 0, ur_Upserted = 0 \<rparr>)),
     co_Find = (\<lambda>f opts s. Val (Val (limited (fo_limit (merge_options opts)) (skipped (fo_skip (merge_options opts))
       (sort_key key_n (filter (doc_matches f) s)))))),
     co_FindOne = (\<lambda>f s. case find (doc_matches f) s of Some d \<Rightarrow> Val d | None \<Rightarrow> Err (OtherErr 0 ''mongo: no documents in result'')),
     co_FindOneAndUpdate = (\<lambda>f u s. (s, Err (OtherErr 1 ''not served''))),
     co_CountDocuments = (\<lambda>f lim s. Val (int (length (filter (doc_matches f) s)))),
     co_DeleteOne = (\<lambda>f s. (s, Val 0)), co_DeleteMany = (\<lambda>f s. (filter (Not \<circ> doc_matches f) s, Val 0)),
     co_Aggregate = (\<lambda>p s. Val (Val [])), co_ErrNoDocuments = OtherErr 0 ''mongo: no documents in result'' \<rparr>"

definition by_key_n :: "(string \<times> int) list option \<Rightarrow> doc \<Rightarrow> doc \<Rightarrow> bool" where
  "by_key_n srt x y \<longleftrightarrow> key_n x \<le> key_n y"

lemma toy_coll_laws: "coll_laws toy_coll (\<lambda>s. s) by_key_n"
proof -
  have "sorted_wrt (by_key_n srt) (sort_key key_n ds)" for srt ds
    using sorted_sort_key[of key_n ds] by (simp add: sorted_map by_key_n_def[abs_def])
  then have "\<exists>ord. mset ord = mset (filter (doc_matches f) s) \<and> sorted_wrt (by_key_n srt) ord
      \<and> limited l (skipped k (sort_key key_n (filter (doc_matches f) s))) = limited l (skipped k ord)" for f s srt l k
    by (intro exI[of _ "sort_key key_n (filter (doc_matches f) s)"]) simp
  then show ?thesis unfolding coll_laws_def by (simp add: toy_coll_def)
qed

definition toy_rows :: "doc list" where
  "toy_rows = [[(''n'', MInt 3)], [(''n'', MInt 1)], [(''n'', MInt 2)]]"

definition row_type :: "int gotype" where
  "row_type = \<lparr> gt_name = ''Row'', gt_zero = 0, gt_doc = (\<lambda>d. Val (key_n d)), gt_field = (\<lambda>v. Val 0) \<rparr>"

definition here :: places where
  "here = (\<lambda>msg. (0, 1, []))"

theorem pages_are_the_result_witness:
  "concat (map (\<lambda>i. if i = 0 then [1, 2] else [3]) [0..<2]) = [1, 2, (3::int)] \<and>
   FindPage here toy_coll row_type [] (Some \<lparr> pg_Number = 2, pg_Show = 2 \<rparr>) [] toy_rows = Val (3, [3])"
proof -
  have dec: "sort_decides by_key_n None (filter (doc_matches []) toy_rows)"
    by (simp add: sort_decides_def by_key_n_def doc_matches_def toy_rows_def key_n_def)
  have all: "coll_Find here toy_coll row_type [] [] toy_rows = Val [1, 2, 3]" by code_simp
  have p1: "FindPage here toy_coll row_type [] (Some \<lparr> pg_Number = 1, pg_Show = 2 \<rparr>) [] toy_rows = Val (3, [1, 2])" by code_simp
  have p2: "FindPage here toy_coll row_type [] (Some \<lparr> pg_Number = 2, pg_Show = 2 \<rparr>) [] toy_rows = Val (3, [3])" by code_simp
  have "FindPage here toy_coll row_type [] (Some \<lparr> pg_Number = int (Suc i), pg_Show = int 2 \<rparr>) [] toy_rows
      = Val (3, if i = 0 then [1, 2] else [3])" if "i < 2" for i
    using that p1 p2 by (cases "i = 0") (auto simp: numeral_2_eq_2 less_Suc_eq)
  then show ?thesis
    using pages_are_the_result[OF toy_coll_laws dec _ all, of 2 2 "\<lambda>_. 3" "\<lambda>i. if i = 0 then [1, 2] else [3]"] p2
    by (simp add: merge_options_def no_options_def)
qed

end
