(* ===== verification/MongoManager.thy ===== *)
theory MongoManager
  imports MongoUtil
begin

section \<open>The manager of the MongoDB client\<close>

text \<open>
  \<^verbatim>\<open>service/mgo/mgo.go\<close>: one client for the program, made by a loop that dials until it succeeds, watches
  the server and dials again when it is gone. Loops are steps that interleave; clients are numbered in the
  order they are made; what dials and pings answer, and
  whether a dial panics (see \<open>NewMongoDB\<close>), is the choice of the step.
\<close>

subsection \<open>State\<close>

text \<open>
  \<open>Looking\<close> is before the look at the context with a number of attempts, \<open>Dialing\<close> after it; \<open>Sleeping\<close> has
  the time to sleep, \<open>Watching\<close> the failures in a row.
\<close>

datatype mgr_loop = Looking nat | Dialing nat | Sleeping nat duration | Watching nat | Ended

text \<open>\<open>gm_ready\<close> is nil, open or closed; \<open>gm_crashed\<close> tells that a goroutine panicked, which ends the program.\<close>

record mongo_mgr =
  gm_client :: "nat option"
  gm_ready :: "bool option"
  gm_lastErr :: "gerr option"
  gm_loops :: "mgr_loop list"
  gm_made :: nat
  gm_gone :: "nat set"
  gm_done :: bool
  gm_crashed :: bool

definition fresh_mgr :: mongo_mgr where
  "fresh_mgr = \<lparr> gm_client = None, gm_ready = None, gm_lastErr = None, gm_loops = [], gm_made = 0, gm_gone = {},
     gm_done = False, gm_crashed = False \<rparr>"

subsection \<open>What a loop does\<close>

definition StartAsync :: "mongo_mgr \<Rightarrow> mongo_mgr" where
  "StartAsync m = m\<lparr> gm_ready := (case gm_ready m of None \<Rightarrow> Some False | r \<Rightarrow> r), gm_loops := gm_loops m @ [Looking 0] \<rparr>"

text \<open>
  An \<^verbatim>\<open>atomic.Value\<close> takes values of the type of its first one only and panics otherwise. \<open>ty\<close> names the
  type of an error the program did not make.
\<close>

fun err_type :: "(gerr \<Rightarrow> string) \<Rightarrow> gerr \<Rightarrow> string" where
  "err_type ty (StrErr a s) = ''*errs.errorString''"
| "err_type ty (CodeErr a c) = ''*errs.CodeError''"
| "err_type ty (WrapErr a e s) = ''*errs.errorWrapper''"
| "err_type ty (StackErr a e fs) = ''*stack.stackError''"
| "err_type ty (OtherErr a s) = ty (OtherErr a s)"

definition store_err :: "(gerr \<Rightarrow> string) \<Rightarrow> gerr \<Rightarrow> mongo_mgr \<Rightarrow> mongo_mgr" where
  "store_err ty e m = (case gm_lastErr m of
       None \<Rightarrow> m\<lparr> gm_lastErr := Some e \<rparr>
     | Some e0 \<Rightarrow> if err_type ty e0 = err_type ty e then m\<lparr> gm_lastErr := Some e \<rparr> else m\<lparr> gm_crashed := True \<rparr>)"

definition backoff_of :: "nat \<Rightarrow> duration" where
  "backoff_of attempt = (let b = wrap64 (push_bit attempt (200 * millisecond)) in if b > 5 * second then 5 * second else b)"

definition sleep_of :: "nat \<Rightarrow> int \<Rightarrow> duration" where
  "sleep_of attempt jitter = backoff_of attempt - jitter div 2"

definition connected :: "mongo_mgr \<Rightarrow> mongo_mgr" where
  "connected m = m\<lparr> gm_client := Some (gm_made m), gm_made := Suc (gm_made m), gm_ready := Some True \<rparr>"

definition disconnected :: "mongo_mgr \<Rightarrow> mongo_mgr" where
  "disconnected m = (case gm_client m of None \<Rightarrow> m | Some k \<Rightarrow> m\<lparr> gm_client := None, gm_gone := insert k (gm_gone m) \<rparr>)"

definition set_loop :: "nat \<Rightarrow> mgr_loop \<Rightarrow> mongo_mgr \<Rightarrow> mongo_mgr" where
  "set_loop i l m = m\<lparr> gm_loops := (gm_loops m)[i := l] \<rparr>"

text \<open>One round of the health check with the answer of the ping.\<close>

definition health_round :: "(gerr \<Rightarrow> string) \<Rightarrow> nat \<Rightarrow> nat \<Rightarrow> gerr option \<Rightarrow> mongo_mgr \<Rightarrow> mongo_mgr" where
  "health_round ty i fails ans m =
     (case gm_client m of
        None \<Rightarrow> set_loop i (Looking 0) m
      | Some k \<Rightarrow>
          (case ans of
             None \<Rightarrow> set_loop i (Watching 0) m
           | Some e \<Rightarrow>
               (let m1 = store_err ty e m
                in if gm_crashed m1 then m1
                   else if Suc fails \<ge> 3 then set_loop i (Looking 0) (disconnected m1)
                   else set_loop i (Watching (Suc fails)) m1)))"

definition dial_round :: "(gerr \<Rightarrow> string) \<Rightarrow> nat \<Rightarrow> nat \<Rightarrow> int \<Rightarrow> gerr option \<Rightarrow> mongo_mgr \<Rightarrow> mongo_mgr" where
  "dial_round ty i attempt jitter ans m =
     (case ans of
        None \<Rightarrow> set_loop i (Watching 0) (connected m)
      | Some e \<Rightarrow>
          (let m1 = store_err ty e m
           in if gm_crashed m1 then m1 else set_loop i (Sleeping attempt (sleep_of attempt jitter)) m1))"

inductive mgr_step :: "(gerr \<Rightarrow> string) \<Rightarrow> mongo_mgr \<Rightarrow> mongo_mgr \<Rightarrow> bool" for ty where
  start: "\<not> gm_crashed m \<Longrightarrow> mgr_step ty m (StartAsync m)"
| context_over: "\<not> gm_crashed m \<Longrightarrow> mgr_step ty m (m\<lparr> gm_done := True \<rparr>)"
| loop_ends: "\<not> gm_crashed m \<Longrightarrow> gm_done m \<Longrightarrow> i < length (gm_loops m) \<Longrightarrow> gm_loops m ! i = Looking a \<or> gm_loops m ! i = Sleeping a d \<Longrightarrow>
    mgr_step ty m (set_loop i Ended m)"
| goes_on: "\<not> gm_crashed m \<Longrightarrow> \<not> gm_done m \<Longrightarrow> i < length (gm_loops m) \<Longrightarrow> gm_loops m ! i = Looking a \<Longrightarrow> mgr_step ty m (set_loop i (Dialing a) m)"
| dials: "\<not> gm_crashed m \<Longrightarrow> i < length (gm_loops m) \<Longrightarrow> gm_loops m ! i = Dialing a \<Longrightarrow> 0 \<le> j \<Longrightarrow> j < backoff_of a div 5 \<Longrightarrow>
    mgr_step ty m (dial_round ty i a j ans m)"
| dial_panics: "\<not> gm_crashed m \<Longrightarrow> i < length (gm_loops m) \<Longrightarrow> gm_loops m ! i = Dialing a \<Longrightarrow> mgr_step ty m (m\<lparr> gm_crashed := True \<rparr>)"
| wakes: "\<not> gm_crashed m \<Longrightarrow> i < length (gm_loops m) \<Longrightarrow> gm_loops m ! i = Sleeping a d \<Longrightarrow>
    mgr_step ty m (set_loop i (Looking (if a < 6 then Suc a else a)) m)"
| watch_ends: "\<not> gm_crashed m \<Longrightarrow> gm_done m \<Longrightarrow> i < length (gm_loops m) \<Longrightarrow> gm_loops m ! i = Watching n \<Longrightarrow>
    mgr_step ty m (set_loop i (Looking 0) (disconnected m))"
| watches: "\<not> gm_crashed m \<Longrightarrow> i < length (gm_loops m) \<Longrightarrow> gm_loops m ! i = Watching n \<Longrightarrow> mgr_step ty m (health_round ty i n ans m)"

inductive_cases mgr_stepE: "mgr_step ty m m'"

inductive mgr_reach :: "(gerr \<Rightarrow> string) \<Rightarrow> mongo_mgr \<Rightarrow> bool" for ty where
  fresh: "mgr_reach ty fresh_mgr"
| onward: "mgr_reach ty m \<Longrightarrow> mgr_step ty m m' \<Longrightarrow> mgr_reach ty m'"

subsection \<open>What the program asks\<close>

definition mgr_Err :: "mongo_mgr \<Rightarrow> gerr option" where
  "mgr_Err m = gm_lastErr m"

definition GetDB :: "mongo_mgr \<Rightarrow> nat go" where
  "GetDB m = (case gm_client m of None \<Rightarrow> Panic ''Mongo not ready: wait Ready() or use TryGetDB()'' | Some k \<Rightarrow> Ok k)"

definition GetTx :: "mongo_mgr \<Rightarrow> nat go" where
  "GetTx m = (case gm_client m of None \<Rightarrow> Panic ''Mongo not ready: wait Ready() or use TryGetTx()'' | Some k \<Rightarrow> Ok k)"

definition TryGetDB :: "mongo_mgr \<Rightarrow> nat option \<times> bool" where
  "TryGetDB m = (case gm_client m of None \<Rightarrow> (None, False) | Some k \<Rightarrow> (Some k, True))"

definition TryGetTx :: "mongo_mgr \<Rightarrow> nat option \<times> bool" where
  "TryGetTx m = (case gm_client m of None \<Rightarrow> (None, False) | Some k \<Rightarrow> (Some k, True))"

text \<open>
  \<open>over\<close> is the error of the caller's context if it is over; when both channels have something to read,
  \<open>first\<close> tells which is taken. \<open>None\<close>: the caller waits.
\<close>

definition WaitReady :: "string option \<Rightarrow> bool \<Rightarrow> mongo_mgr \<Rightarrow> unit go option" where
  "WaitReady over first m =
     (if gm_client m \<noteq> None then Some (Ok ())
      else case gm_ready m of
             None \<Rightarrow> Some (Error ''mongo manager not started'')
           | Some r \<Rightarrow> (case over of None \<Rightarrow> if r then Some (Ok ()) else None
                        | Some e \<Rightarrow> if r \<and> first then Some (Ok ()) else Some (Error e)))"

subsection \<open>What the steps keep\<close>

fun loop_ok :: "mgr_loop \<Rightarrow> bool" where
  "loop_ok (Looking a) \<longleftrightarrow> a \<le> 6"
| "loop_ok (Dialing a) \<longleftrightarrow> a \<le> 6"
| "loop_ok (Sleeping a d) \<longleftrightarrow> a \<le> 6 \<and> 9 * backoff_of a \<le> 10 * d \<and> d \<le> backoff_of a"
| "loop_ok (Watching n) \<longleftrightarrow> n \<le> 2"
| "loop_ok Ended \<longleftrightarrow> True"

text \<open>A single loop only dials while there is no client, so it never drops one.\<close>

definition alone_ok :: "mongo_mgr \<Rightarrow> bool" where
  "alone_ok m \<longleftrightarrow> {..< gm_made m} = gm_gone m \<union> set_option (gm_client m)
     \<and> (gm_client m \<noteq> None \<longrightarrow> (\<exists>n. gm_loops m = [Watching n]))"

definition mgr_inv :: "mongo_mgr \<Rightarrow> bool" where
  "mgr_inv m \<longleftrightarrow> list_all loop_ok (gm_loops m)
     \<and> (gm_client m \<noteq> None \<longrightarrow> gm_ready m = Some True) \<and> (gm_loops m \<noteq> [] \<longrightarrow> gm_ready m \<noteq> None)
     \<and> gm_gone m \<union> set_option (gm_client m) \<subseteq> {..< gm_made m} \<and> gm_gone m \<inter> set_option (gm_client m) = {}
     \<and> (length (gm_loops m) \<le> 1 \<longrightarrow> alone_ok m)"

lemma backoff_values:
  "backoff_of 0 = 200000000" "backoff_of 1 = 400000000" "backoff_of 2 = 800000000" "backoff_of 3 = 1600000000"
  "backoff_of 4 = 3200000000" "backoff_of 5 = 5000000000" "backoff_of 6 = 5000000000"
  by code_simp+

lemma backoff_bounds: "a \<le> 6 \<Longrightarrow> 200000000 \<le> backoff_of a \<and> backoff_of a \<le> 5000000000"
proof -
  assume "a \<le> 6"
  then consider "a = 0" | "a = 1" | "a = 2" | "a = 3" | "a = 4" | "a = 5" | "a = 6" by linarith
  then show ?thesis by cases (simp_all only: backoff_values, simp_all)
qed

lemma sleep_ok: "a \<le> 6 \<Longrightarrow> 0 \<le> j \<Longrightarrow> j < backoff_of a div 5 \<Longrightarrow> loop_ok (Sleeping a (sleep_of a j))"
  by (simp add: sleep_of_def)

lemma store_err_keeps [simp]:
  "gm_client (store_err ty e m) = gm_client m" "gm_ready (store_err ty e m) = gm_ready m" "gm_loops (store_err ty e m) = gm_loops m"
  "gm_made (store_err ty e m) = gm_made m" "gm_gone (store_err ty e m) = gm_gone m" "gm_done (store_err ty e m) = gm_done m"
  by (simp_all add: store_err_def split: option.split)

lemma mgr_inv_store [simp]: "mgr_inv (store_err ty e m) = mgr_inv m"
  by (simp add: mgr_inv_def alone_ok_def)

lemma one_loop:
  assumes "length ls \<le> 1" "i < length ls"
  obtains l where "ls = [l]" "i = 0"
  using assms that by (cases ls) auto

lemma list_all_update: "list_all P xs \<Longrightarrow> P x \<Longrightarrow> list_all P (xs[i := x])"
  unfolding list_all_iff using set_update_subset_insert by fastforce

lemma mgr_inv_set_loop:
  assumes "mgr_inv m" "i < length (gm_loops m)" "loop_ok l" "(\<exists>n. l = Watching n) \<or> gm_client m = None \<or> (\<forall>n. gm_loops m ! i \<noteq> Watching n)"
  shows "mgr_inv (set_loop i l m)"
proof -
  have "list_all loop_ok ((gm_loops m)[i := l])" using assms(1,3) by (simp add: mgr_inv_def list_all_update)
  moreover have "alone_ok (set_loop i l m)" if le: "length (gm_loops m) \<le> 1"
  proof -
    obtain l0 where "gm_loops m = [l0]" "i = 0" using one_loop[OF le assms(2)] .
    moreover have "alone_ok m" using assms(1) le by (simp add: mgr_inv_def)
    ultimately show ?thesis using assms(4) by (auto simp: alone_ok_def set_loop_def)
  qed
  ultimately show ?thesis using assms(1,2) by (auto simp: mgr_inv_def set_loop_def)
qed

lemma mgr_inv_disconnected: "mgr_inv m \<Longrightarrow> mgr_inv (disconnected m)"
  by (cases "gm_client m") (auto simp: mgr_inv_def disconnected_def alone_ok_def)

lemma disconnected_loops [simp]: "gm_loops (disconnected m) = gm_loops m" "gm_client (disconnected m) = None"
  by (simp_all add: disconnected_def split: option.split)

lemma mgr_inv_connected:
  assumes "mgr_inv m" "i < length (gm_loops m)" "gm_loops m ! i = Dialing a"
  shows "mgr_inv (set_loop i (Watching 0) (connected m))"
proof -
  have "list_all loop_ok ((gm_loops m)[i := Watching 0])" using assms(1) by (simp add: mgr_inv_def list_all_update)
  moreover have "alone_ok (set_loop i (Watching 0) (connected m))" if le: "length (gm_loops m) \<le> 1"
  proof -
    obtain l0 where "gm_loops m = [l0]" "i = 0" using one_loop[OF le assms(2)] .
    moreover have "alone_ok m" using assms(1) le by (simp add: mgr_inv_def)
    ultimately show ?thesis using assms(3) by (auto simp: alone_ok_def set_loop_def connected_def lessThan_Suc)
  qed
  ultimately show ?thesis using assms(1,2) by (auto simp: mgr_inv_def set_loop_def connected_def)
qed

lemma mgr_inv_loop: "mgr_inv m \<Longrightarrow> i < length (gm_loops m) \<Longrightarrow> loop_ok (gm_loops m ! i)"
  by (simp add: mgr_inv_def list_all_iff)

lemma mgr_inv_start: "mgr_inv m \<Longrightarrow> mgr_inv (StartAsync m)"
  by (auto simp: mgr_inv_def StartAsync_def alone_ok_def split: option.splits)

lemma mgr_step_inv: "mgr_step ty m m' \<Longrightarrow> mgr_inv m \<Longrightarrow> mgr_inv m'"
proof (induction rule: mgr_step.induct)
  case (start m)
  then show ?case using mgr_inv_start by blast
next
  case (context_over m)
  then show ?case by (simp add: mgr_inv_def alone_ok_def)
next
  case (loop_ends m i a d)
  then show ?case by (intro mgr_inv_set_loop) auto
next
  case (goes_on m i a)
  then show ?case using mgr_inv_loop[of m i] by (intro mgr_inv_set_loop) auto
next
  case (dials m i a j ans)
  show ?case
  proof (cases ans)
    case None
    with dials show ?thesis using mgr_inv_connected by (simp add: dial_round_def)
  next
    case (Some e)
    have "loop_ok (Sleeping a (sleep_of a j))" using sleep_ok dials mgr_inv_loop[of m i] by simp
    with Some dials show ?thesis using mgr_inv_set_loop[of "store_err ty e m" i] by (auto simp: dial_round_def Let_def)
  qed
next
  case (dial_panics m i a)
  then show ?case by (simp add: mgr_inv_def alone_ok_def)
next
  case (wakes m i a d)
  then show ?case using mgr_inv_loop[of m i] by (intro mgr_inv_set_loop) auto
next
  case (watch_ends m i n)
  then show ?case by (intro mgr_inv_set_loop mgr_inv_disconnected) auto
next
  case (watches m i n ans)
  have n: "n \<le> 2" using watches mgr_inv_loop[of m i] by simp
  show ?case
  proof (cases "gm_client m")
    case None
    with watches show ?thesis using mgr_inv_set_loop[of m i] by (simp add: health_round_def)
  next
    case (Some k)
    with watches n show ?thesis
      using mgr_inv_set_loop[of m i] mgr_inv_set_loop[of "store_err ty e m" i for e]
        mgr_inv_set_loop[of "disconnected (store_err ty e m)" i for e] mgr_inv_disconnected[of "store_err ty e m" for e]
      by (cases ans) (auto simp: health_round_def Let_def)
  qed
qed

lemma mgr_reach_inv: "mgr_reach ty m \<Longrightarrow> mgr_inv m"
proof (induction rule: mgr_reach.induct)
  case fresh
  then show ?case by (simp add: mgr_inv_def alone_ok_def fresh_mgr_def)
next
  case (onward m m')
  then show ?case using mgr_step_inv by blast
qed

text \<open>The loops of the manager keep to their bounds and lose no client. In every state they reach, a client that is
  set was announced and not given up, a sleep is between 180 milliseconds and 5 seconds, a client is given up
  before its third failure in a row is forgotten, and as long as the manager was started once every client it
  made is the current one or was given up.\<close>
theorem mongo_manager_bounds:
  assumes "mgr_reach ty m"
  shows "(gm_client m \<noteq> None \<longrightarrow> gm_ready m = Some True \<and> the (gm_client m) \<notin> gm_gone m)
    \<and> list_all (\<lambda>l. case l of Sleeping a d \<Rightarrow> 180 * millisecond \<le> d \<and> d \<le> 5 * second | Watching n \<Rightarrow> n < 3 | _ \<Rightarrow> True) (gm_loops m)
    \<and> (length (gm_loops m) \<le> 1 \<longrightarrow> {..< gm_made m} = gm_gone m \<union> set_option (gm_client m))"
proof -
  have inv: "mgr_inv m" using mgr_reach_inv[OF assms] .
  have "case l of Sleeping a d \<Rightarrow> 180 * millisecond \<le> d \<and> d \<le> 5 * second | Watching n \<Rightarrow> n < 3 | _ \<Rightarrow> True" if "loop_ok l" for l
    using that backoff_bounds by (cases l) (fastforce simp: millisecond_def second_def)+
  then have "list_all (\<lambda>l. case l of Sleeping a d \<Rightarrow> 180 * millisecond \<le> d \<and> d \<le> 5 * second | Watching n \<Rightarrow> n < 3 | _ \<Rightarrow> True) (gm_loops m)"
    using inv by (auto simp: mgr_inv_def list_all_iff)
  with inv show ?thesis by (auto simp: mgr_inv_def alone_ok_def)
qed

text \<open>Every error a failed start answers is an error with a stack.\<close>

lemma wrap_msg_stack: "\<exists>a e' fs. wrap_msg pl e msg kv = StackErr a e' fs"
  by (auto simp: wrap_msg_def errs_WrapMsg_def stack_New_def split: prod.splits)

lemma new_err_stack: "\<exists>a e' fs. new_err pl msg = StackErr a e' fs"
  by (auto simp: new_err_def errs_Wrap_def stack_New_def split: prod.splits)

lemma NewMongoDB_error: "NewMongoDB D pl c w = (c1, w1, Err e) \<Longrightarrow> \<exists>a e' fs. e = StackErr a e' fs"
  using wrap_msg_stack new_err_stack
  by (auto simp: NewMongoDB_def NewMongoTx_def ValidateAndSetDefaults_def Let_def split: prod.splits option.splits eres.splits if_split_asm)

text \<open>C35: a lost server ends the program. Once a start has failed, the last error is one with a stack; the first ping that
  fails has an error of the driver, which the \<^verbatim>\<open>atomic.Value\<close> of the last error refuses with a panic.\<close>
theorem lost_server_ends_program:
  assumes "NewMongoDB D pl c w = (c1, w1, Err e0)" and "gm_lastErr m = Some e0" and "gm_client m \<noteq> None"
    and "ty (OtherErr a s) \<noteq> ''*stack.stackError''"
  shows "gm_crashed (health_round ty i n (Some (OtherErr a s)) m)"
proof -
  obtain b e' fs where "e0 = StackErr b e' fs" using NewMongoDB_error[OF assms(1)] by blast
  with assms show ?thesis by (auto simp: health_round_def store_err_def Let_def)
qed

text \<open>
  After three failed pings the client is given up, but the channel stays closed: who waits for the manager goes on
  at once and finds no client.
\<close>

theorem ready_is_no_promise:
  "\<exists>m. mgr_reach ty m \<and> \<not> gm_crashed m \<and> WaitReady None first m = Some (Ok ()) \<and>
     GetDB m = Panic ''Mongo not ready: wait Ready() or use TryGetDB()''"
proof -
  let ?e = "Some (OtherErr 0 ''ping'')"
  let ?m1 = "StartAsync fresh_mgr"
  let ?m2 = "set_loop 0 (Dialing 0) ?m1"
  let ?m3 = "dial_round ty 0 0 0 None ?m2"
  let ?m4 = "health_round ty 0 0 ?e ?m3"
  let ?m5 = "health_round ty 0 1 ?e ?m4"
  let ?m6 = "health_round ty 0 2 ?e ?m5"
  note defs = StartAsync_def fresh_mgr_def set_loop_def dial_round_def connected_def health_round_def store_err_def disconnected_def
  have "mgr_reach ty ?m1" by (rule onward[OF fresh start]) (simp add: fresh_mgr_def)
  then have "mgr_reach ty ?m2" by (rule onward) (rule goes_on, simp_all add: defs)
  then have "mgr_reach ty ?m3" by (rule onward) (rule dials, simp_all add: defs backoff_values)
  then have "mgr_reach ty ?m4" by (rule onward) (rule watches, simp_all add: defs)
  then have "mgr_reach ty ?m5" by (rule onward) (rule watches, simp_all add: defs)
  then have "mgr_reach ty ?m6" by (rule onward) (rule watches, simp_all add: defs)
  moreover have "\<not> gm_crashed ?m6 \<and> WaitReady None first ?m6 = Some (Ok ()) \<and>
      GetDB ?m6 = Panic ''Mongo not ready: wait Ready() or use TryGetDB()''" by (simp add: defs WaitReady_def GetDB_def)
  ultimately show ?thesis by blast
qed

text \<open>A manager whose first dial failed and whose second one succeeded.\<close>

definition toy_start :: "(nat, nat) mongo_start" where
  "toy_start = \<lparr> ms_Connect = (\<lambda>opts w. (Suc w, Err (OtherErr 7 ''server selection timeout''))), ms_Ping = (\<lambda>c w. (w, Val ())),
     ms_Disconnect = (\<lambda>c w. (w, Val ())), ms_isMaster = (\<lambda>c w. (w, Val [])), ms_code = (\<lambda>e. None), ms_done = (\<lambda>w. False),
     ms_sleep = (\<lambda>d w. w) \<rparr>"

definition toy_config :: mongo_config where
  "toy_config = \<lparr> mc_Uri = ''mongodb://db'', mc_Address = [], mc_Database = ''chat'', mc_Username = '''', mc_Password = '''',
     mc_AuthSource = '''', mc_MaxPoolSize = 0, mc_MaxRetry = 1 \<rparr>"

definition toy_here :: places where
  "toy_here = (\<lambda>msg. (0, 1, []))"

definition toy_dial_error :: gerr where
  "toy_dial_error = wrap_msg toy_here (OtherErr 7 ''server selection timeout'') ''failed to connect to MongoDB'' [''URI'', ''mongodb://db'']"

definition toy_mgr :: mongo_mgr where
  "toy_mgr = \<lparr> gm_client = Some 0, gm_ready = Some True, gm_lastErr = Some toy_dial_error, gm_loops = [Watching 0], gm_made = 1,
     gm_gone = {}, gm_done = False, gm_crashed = False \<rparr>"

theorem lost_server_ends_program_witness:
  "gm_crashed (health_round (\<lambda>_. ''mongo.CommandError'') 0 0 (Some (OtherErr 9 ''ping'')) toy_mgr)"
proof -
  have "snd (snd (NewMongoDB toy_start toy_here toy_config 0)) = Err toy_dial_error"
    by (simp add: NewMongoDB_def ValidateAndSetDefaults_def toy_config_def applyConfigToOptions_def connectMongo_def toy_start_def
        numeral_eq_Suc shouldRetry_def toy_dial_error_def)
  then obtain c1 w1 where "NewMongoDB toy_start toy_here toy_config 0 = (c1, w1, Err toy_dial_error)" by (metis prod.collapse)
  from lost_server_ends_program[OF this] show ?thesis by (simp add: toy_mgr_def)
qed

lemma toy_mgr_reach: "mgr_reach ty toy_mgr"
proof -
  let ?m1 = "StartAsync fresh_mgr"
  let ?m2 = "set_loop 0 (Dialing 0) ?m1"
  let ?m3 = "dial_round ty 0 0 0 (Some toy_dial_error) ?m2"
  let ?m4 = "set_loop 0 (Looking 1) ?m3"
  let ?m5 = "set_loop 0 (Dialing 1) ?m4"
  let ?m6 = "dial_round ty 0 1 0 None ?m5"
  note defs = StartAsync_def fresh_mgr_def set_loop_def dial_round_def connected_def store_err_def
  have "mgr_reach ty ?m1" by (rule onward[OF fresh start]) (simp add: fresh_mgr_def)
  then have "mgr_reach ty ?m2" by (rule onward) (rule goes_on, simp_all add: defs)
  then have "mgr_reach ty ?m3" by (rule onward) (rule dials, simp_all add: defs backoff_values)
  moreover have "mgr_step ty ?m3 (set_loop 0 (Looking (if (0::nat) < 6 then Suc 0 else 0)) ?m3)" by (rule wakes) (simp_all add: defs)
  ultimately have "mgr_reach ty ?m4" by (simp add: onward)
  then have "mgr_reach ty ?m5" by (rule onward) (rule goes_on, simp_all add: defs)
  then have "mgr_reach ty ?m6" by (rule onward) (rule dials[of _ _ 1], simp_all add: defs backoff_values[unfolded One_nat_def])
  moreover have "?m6 = toy_mgr" by (simp add: defs toy_mgr_def)
  ultimately show ?thesis by simp
qed

theorem mongo_manager_bounds_witness: "gm_ready toy_mgr = Some True \<and> the (gm_client toy_mgr) \<notin> gm_gone toy_mgr"
proof -
  have "gm_client toy_mgr \<noteq> None" by (simp add: toy_mgr_def)
  then show ?thesis using mongo_manager_bounds[OF toy_mgr_reach] by blast
qed

end
