(* ===== verification/StructDecode.thy ===== *)
theory StructDecode
  imports MongoDoc GoStrings
begin

section \<open>Reading dynamic structs\<close>

text \<open>
  \<^verbatim>\<open>tools/decode/struct_decoder.go\<close>: the values a protobuf struct gives as a Go map, the readers of a field,
  and the hooks that convert values before the library decodes them. The conversion of floating point
  numbers, the JSON encoder and decoder, quoting, and the library itself are parameters.
\<close>

subsection \<open>Values\<close>

datatype pbval = PNull | PBool bool | PNum float64 | PStr string | PArr "pbval list" | PObj "(string \<times> pbval) list"

type_synonym pbstruct = "(string, pbval) gomap"

record decode_lib =
  dl_int64 :: "float64 \<Rightarrow> int"
  dl_int32 :: "float64 \<Rightarrow> int"
  dl_json :: "pbval \<Rightarrow> string"
  dl_object :: "string \<Rightarrow> (string \<times> pbval) list option"
  dl_quote :: "string \<Rightarrow> string"
  dl_numerr :: "string \<Rightarrow> string"

text \<open>The text \<^verbatim>\<open>\%T\<close> gives.\<close>

fun type_text :: "pbval \<Rightarrow> string" where
  "type_text PNull = ''<nil>''"
| "type_text (PBool b) = ''bool''"
| "type_text (PNum x) = ''float64''"
| "type_text (PStr s) = ''string''"
| "type_text (PArr xs) = ''[]interface {}''"
| "type_text (PObj xs) = ''map[string]interface {}''"

subsection \<open>Readers\<close>

definition field_of :: "decode_lib \<Rightarrow> pbstruct option \<Rightarrow> string \<Rightarrow> pbval go" where
  "field_of L st key = (case st of None \<Rightarrow> Error ''struct is nil''
     | Some m \<Rightarrow> (case map_of m key of
           None \<Rightarrow> Error (''missing field '' @ dl_quote L key)
         | Some PNull \<Rightarrow> Error (''missing field '' @ dl_quote L key)
         | Some v \<Rightarrow> Ok v))"

definition ReadString :: "decode_lib \<Rightarrow> pbstruct option \<Rightarrow> string \<Rightarrow> string go" where
  "ReadString L st key = (case field_of L st key of
       Error e \<Rightarrow> Error e | Panic e \<Rightarrow> Panic e
     | Ok (PStr s) \<Rightarrow> Ok s
     | Ok v \<Rightarrow> Error (''field '' @ dl_quote L key @ '' not string (got '' @ type_text v @ '')''))"

text \<open>Numbers of a struct are floating point; the other kinds of numbers of the source never come from one.\<close>

definition ReadInt64 :: "decode_lib \<Rightarrow> pbstruct option \<Rightarrow> string \<Rightarrow> int go" where
  "ReadInt64 L st key = (case field_of L st key of
       Error e \<Rightarrow> Error e | Panic e \<Rightarrow> Panic e
     | Ok (PNum x) \<Rightarrow> Ok (dl_int64 L x)
     | Ok (PStr s) \<Rightarrow> (case Atoi s of Some n \<Rightarrow> Ok n
          | None \<Rightarrow> Error (''field '' @ dl_quote L key @ '' string parse int64: '' @ dl_numerr L s))
     | Ok v \<Rightarrow> Error (''field '' @ dl_quote L key @ '' type '' @ type_text v @ '' not number''))"

fun item_text :: "decode_lib \<Rightarrow> pbval \<Rightarrow> string" where
  "item_text L (PStr s) = s"
| "item_text L v = dl_json L v"

definition ReadStringSlice :: "decode_lib \<Rightarrow> pbstruct option \<Rightarrow> string \<Rightarrow> string list go" where
  "ReadStringSlice L st key = (case field_of L st key of
       Error e \<Rightarrow> Error e | Panic e \<Rightarrow> Panic e
     | Ok (PArr xs) \<Rightarrow> Ok (map (item_text L) xs)
     | Ok v \<Rightarrow> Error (''field '' @ dl_quote L key @ '' type '' @ type_text v @ '' not array''))"

subsection \<open>Hooks\<close>

text \<open>Kinds of Go types, and what a hook may hand on: a value as it is, an integer, or strings.\<close>

datatype gkind = KFloat64 | KInt | KInt32 | KInt64 | KString | KMap | KSlice | KOther

datatype hval = HVal pbval | HInt gkind int | HStrs "string list"

fun kind_of :: "hval \<Rightarrow> gkind" where
  "kind_of (HVal (PNum x)) = KFloat64"
| "kind_of (HVal (PStr s)) = KString"
| "kind_of (HVal (PArr xs)) = KSlice"
| "kind_of (HVal (PObj xs)) = KMap"
| "kind_of (HVal v) = KOther"
| "kind_of (HInt k n) = k"
| "kind_of (HStrs ss) = KSlice"

type_synonym hook = "gkind \<Rightarrow> gkind \<Rightarrow> hval \<Rightarrow> hval"

definition floatToIntHook :: "decode_lib \<Rightarrow> hook" where
  "floatToIntHook L from to1 d =
     (if from \<noteq> KFloat64 then d
      else case d of HVal (PNum x) \<Rightarrow>
             (if to1 = KInt then HInt KInt (dl_int64 L x) else if to1 = KInt32 then HInt KInt32 (dl_int32 L x)
              else if to1 = KInt64 then HInt KInt64 (dl_int64 L x) else d)
           | _ \<Rightarrow> d)"

definition sliceAnyToSliceStringHook :: "decode_lib \<Rightarrow> hook" where
  "sliceAnyToSliceStringHook L from to1 d =
     (if from \<noteq> KSlice \<or> to1 \<noteq> KSlice then d
      else case d of HVal (PArr xs) \<Rightarrow> HStrs (map (item_text L) xs) | _ \<Rightarrow> d)"

definition jsonRawStringToMapHook :: "decode_lib \<Rightarrow> hook" where
  "jsonRawStringToMapHook L from to1 d =
     (if from \<noteq> KString \<or> to1 \<noteq> KMap then d
      else case d of HVal (PStr s) \<Rightarrow> (case dl_object L s of Some m \<Rightarrow> HVal (PObj m) | None \<Rightarrow> d) | _ \<Rightarrow> d)"

text \<open>The library runs the hooks one after another, each with the kind of what the one before it gave.\<close>

definition hooks :: "decode_lib \<Rightarrow> hook list" where
  "hooks L = [floatToIntHook L, sliceAnyToSliceStringHook L, jsonRawStringToMapHook L]"

definition run_hooks :: "decode_lib \<Rightarrow> gkind \<Rightarrow> hval \<Rightarrow> hval" where
  "run_hooks L to1 d = fold (\<lambda>h x. h (kind_of x) to1 x) (hooks L) d"

text \<open>\<open>lib\<close> is the library's decoder: with the weak typing asked for and the hooks.\<close>

definition DecodeStruct :: "decode_lib \<Rightarrow> (bool \<Rightarrow> (gkind \<Rightarrow> hval \<Rightarrow> hval) \<Rightarrow> pbstruct \<Rightarrow> 'a go) \<Rightarrow> pbstruct option \<Rightarrow> bool list \<Rightarrow> 'a go" where
  "DecodeStruct L lib st opts = (case st of None \<Rightarrow> Error ''struct is nil''
     | Some m \<Rightarrow> (case lib (case opts of [] \<Rightarrow> True | b # _ \<Rightarrow> b) (run_hooks L) m of
           Ok x \<Rightarrow> Ok x | Error e \<Rightarrow> Error (''decode struct: '' @ e) | Panic e \<Rightarrow> Panic e))"

subsection \<open>What hooks change\<close>

text \<open>Values whose target is of another kind are left as they are; an array whose target is any slice becomes strings.\<close>

theorem hooks_leave:
  "\<not> (kind_of d = KFloat64 \<and> to1 \<in> {KInt, KInt32, KInt64}) \<Longrightarrow> \<not> (kind_of d = KSlice \<and> to1 = KSlice) \<Longrightarrow>
   \<not> (kind_of d = KString \<and> to1 = KMap) \<Longrightarrow> run_hooks L to1 d = d"
  by (cases d rule: kind_of.cases)
    (auto simp: run_hooks_def hooks_def floatToIntHook_def sliceAnyToSliceStringHook_def jsonRawStringToMapHook_def)

theorem arrays_become_strings:
  "run_hooks L KSlice (HVal (PArr xs)) = HStrs (map (item_text L) xs)"
  by (simp add: run_hooks_def hooks_def floatToIntHook_def sliceAnyToSliceStringHook_def jsonRawStringToMapHook_def)

text \<open>So a list of objects, meant for a slice of structs, reaches the library as the JSON texts of its items.\<close>

lemma objects_become_texts: "run_hooks L KSlice (HVal (PArr [PObj m])) = HStrs [dl_json L (PObj m)]"
  by (simp add: arrays_become_strings)

text \<open>A number written as text is read as the number; a number that is one is converted.\<close>

theorem ReadInt64_text: "map_of m key = Some (PStr s) \<Longrightarrow> Atoi s = Some n \<Longrightarrow> ReadInt64 L (Some m) key = Ok n"
  by (simp add: ReadInt64_def field_of_def)

text \<open>A reader gives a value only for a field of its kind.\<close>

theorem ReadString_Ok: "ReadString L st key = Ok s \<longleftrightarrow> (\<exists>m. st = Some m \<and> map_of m key = Some (PStr s))"
  by (auto simp: ReadString_def field_of_def split: option.splits pbval.splits)

theorem ReadStringSlice_Ok:
  "ReadStringSlice L st key = Ok ss \<longleftrightarrow> (\<exists>m xs. st = Some m \<and> map_of m key = Some (PArr xs) \<and> ss = map (item_text L) xs)"
  by (auto simp: ReadStringSlice_def field_of_def split: option.splits pbval.splits)

end
