(* ===== verification/Spec2Isabelle.thy ===== *)
theory Spec2Isabelle
  imports Errors Globals ControlProps RpcClient ConnProps RegistryProps NacosRegistry MethodSvc Snowflake SeqProps OnlineProps MsgProps MsgIndex
    KafkaConsumer KafkaProducer Nodes NatsxProps GatewayProps UserProps Requests ChatBoxProps AgentTimeline HelpDesk MongoOps MongoManager StructDecode
begin

text \<open>
  \<^bold>\<open>PPChat, verified components.\<close>

  PPChat is a chat back end in Go. Gateways keep the WebSocket connections of users and pass their frames on; data
  nodes take frames from the message broker, number the messages, store them in MongoDB and send them to the
  recipients; Redis holds who is connected, the segments of numbers and the tokens; Consul or Nacos hold which
  instance offers what; a help desk projects the events of a conversation into two timelines.

  \<^bold>\<open>How the model reads.\<close> A struct is a record, a method a function from the state to the state and a result of type
  \<open>go\<close>: a value, an error, a panic. A map is an association list; a \<open>range\<close> over it takes an order as an argument,
  so a statement holds for every order. An \<open>int64\<close> is an integer with its wrap-around written out. Readings of
  clocks, random bytes, results of \<open>select\<close> and the times at which goroutines run are arguments or choices of a step
  relation. Methods that hold a mutex are atomic. MongoDB, Redis, Kafka, NATS, Consul, Nacos, the WebSocket, token
  and decoding libraries are records of the calls the program makes, over a state of their own; what a
  property needs of them is a named law (\<open>mongo_laws\<close>, \<open>redis_laws\<close>, \<open>nacos_laws\<close> and the like), and a server in
  memory that has the laws is the witness that they can hold. A call that fails may or may not have done its work.
  The client of Redis sends a command again when a reply is lost: \<open>redis_laws\<close> promises of an answer that the last sending
  ran the command, after any number of earlier ones (\<open>sent_before\<close>). A property that needs one sending says so (\<open>redis_once\<close>).

  \<^bold>\<open>Shared.\<close>
  \<^item> \<open>Prelude\<close>: ends of Go calls, Go maps and visiting orders, 64-bit integers, parts of \<^verbatim>\<open>strings\<close> and \<^verbatim>\<open>strconv\<close>.
  \<^item> \<open>GoStrings\<close>: strings as bytes and their runes, trimming, splitting, joining (\<^verbatim>\<open>tools/common.go\<close>).
  \<^item> \<open>Errors\<close>: kinds of errors, wrapping, comparing, the relation of codes (\<^verbatim>\<open>tools/errs/\<close>, \<^verbatim>\<open>tools/specialerror/\<close>).
  \<^item> \<open>Globals\<close>: values made once (\<^verbatim>\<open>storage/redis/redis.go\<close>, \<^verbatim>\<open>online_msr.go\<close>, \<open>InitDefault\<close>): the first call decides.
  \<^item> \<open>Snowflake\<close>: ids (\<^verbatim>\<open>tools/ids/snowid.go\<close>). Increasing, decodable, and a call returns once the clock has moved.
    The clock is the finite list of its readings; a call that needs more is \<open>None\<close>, and \<open>snowflake_progress\<close>
    says which readings are enough.
  \<^item> \<open>MongoDoc\<close>, \<open>BsonCode\<close>: documents, filters, updates, the driver and its laws; fields read into structs.
  \<^item> \<open>RedisLib\<close>, \<open>RedisWrites\<close>: the keyspace with expiry, commands, scripts as programs; commands that write one key.
  \<^item> \<open>StructDecode\<close>: the readers and hooks of \<^verbatim>\<open>tools/decode/struct_decoder.go\<close>.

  \<^bold>\<open>Connections and gateways.\<close>
  \<^item> \<open>ConnManager\<close>, \<open>ConnInvariant\<close>, \<open>ConnSteps\<close>, \<open>ConnLegacy\<close>, \<open>ConnProps\<close>: \<^verbatim>\<open>service/chat/conn_manager.go\<close> over a heap of connections.
    Its two indexes agree in every state that the methods reach, users keep to their limit, sweeps remove what is over.
  \<^item> \<open>Frames\<close>: the frames that travel (\<^verbatim>\<open>service/chat/frames.go\<close>, \<^verbatim>\<open>tools/msg.go\<close>).
  \<^item> \<open>Gateway\<close>, \<open>GatewaySteps\<close>, \<open>GatewayProps\<close>: the frame handlers (\<^verbatim>\<open>module/message/handler/\<close>), sockets, relay
    loop and channels (\<^verbatim>\<open>service/chat/router.go\<close>, \<^verbatim>\<open>ws_server.go\<close>) as a machine of interleaved events.
  \<^item> \<open>GatewayControl\<close>, \<open>ControlProps\<close>: the dispatcher, the registry of local clients, the fan-out, the service
    for other servers and the stream to the router (\<^verbatim>\<open>dispatcher.go\<close>, \<^verbatim>\<open>fanout.go\<close>, \<^verbatim>\<open>msg_gateway_service.go\<close>, \<^verbatim>\<open>client.go\<close>).
  \<^item> \<open>RpcClient\<close>: the connection to another server with its loops (\<^verbatim>\<open>service/rpc/client_manager.go\<close>) as a step
    relation, up to the panic of a loop that finds no connection.
  \<^item> \<open>Online\<close>, \<open>OnlineProps\<close>: presence (\<^verbatim>\<open>service/storage/\<close>): the scripts key by key, moves of sessions, agreeing queries.

  \<^bold>\<open>Messages.\<close>
  \<^item> \<open>SeqStore\<close>, \<open>SeqAlloc\<close>, \<open>SeqSystem\<close>, \<open>SeqProps\<close>: message numbers (\<^verbatim>\<open>module/chat/seq/\<close>, \<^verbatim>\<open>model/seq.go\<close>, \<^verbatim>\<open>conversation.go\<close>).
    \<open>Malloc\<close> is cut at its calls to the servers; when no script is sent twice, any interleaving of any processes
    gives no number twice, and \<open>resent_script_repeats_numbers\<close> is a run in which one is. The code bounds its retries.
  \<^item> \<open>MsgData\<close>, \<open>MsgBuild\<close>, \<open>MsgStore\<close>, \<open>MsgProps\<close>: messages on the wire and stored, the builder (\<^verbatim>\<open>module/chat/service/message.go\<close>),
    what a data node does with a frame (\<^verbatim>\<open>module/message/\<close>), storing and finding (\<^verbatim>\<open>module/chat/model/msg.go\<close>).
  \<^item> \<open>MsgIndex\<close>: the ids of messages a client sends again (\<^verbatim>\<open>module/message/msgindex.go\<close>).
  \<^item> \<open>KafkaTopics\<close>, \<open>KafkaProducer\<close>, \<open>KafkaConsumer\<close>: topics and handlers, configurations, producers and the start of
    consumers, the loop of a claim (\<^verbatim>\<open>service/dispatcher/kafka/\<close>). The loop of a group may run for ever: a partial function,
    and a theorem says when it returns.
  \<^item> \<open>Natsx\<close>, \<open>NatsxProps\<close>: publishing, subscribing, the store of seen messages (\<^verbatim>\<open>service/natsx/\<close>), whose contract is a locale.

  \<^bold>\<open>Instances and nodes.\<close>
  \<^item> \<open>ServiceRegistry\<close>, \<open>RegistryProps\<close>: the weighted balancer, Consul, the service manager (\<^verbatim>\<open>service/registry/\<close>); fairness.
  \<^item> \<open>MethodSvc\<close>: methods as services (\<^verbatim>\<open>service/registry/methodsvc/\<close>) over a heap of shared maps; what the agent holds.
  \<^item> \<open>NacosRegistry\<close>: the naming service and the configuration (\<^verbatim>\<open>service/nacos/\<close>), \<^verbatim>\<open>global/config/registry.go\<close>.
  \<^item> \<open>Nodes\<close>: what a node starts (\<^verbatim>\<open>global/config/config.go\<close>, the main programs): where the components above meet.

  \<^bold>\<open>Users and the help desk.\<close>
  \<^item> \<open>UserService\<close>, \<open>UserProps\<close>: tokens, login, check, revocation (\<^verbatim>\<open>tools/security/jwt.go\<close>, \<^verbatim>\<open>module/user/\<close>).
  \<^item> \<open>Requests\<close>: the handlers of users and the middlewares over the calls of the web framework (\<^verbatim>\<open>module/user/handler.go\<close>,
    \<^verbatim>\<open>middleware/\<close>).
  \<^item> \<open>ChatBox\<close>, \<open>ChatBoxProps\<close>, \<open>AgentTimeline\<close>, \<open>HelpDesk\<close>: events, projector, timelines, policies (\<^verbatim>\<open>module/chatBox/\<close>).
  \<^item> \<open>MongoUtil\<close>, \<open>MongoOps\<close>, \<open>MongoManager\<close>: the configuration, transactions, generic operations and the manager of
    the MongoDB client (\<^verbatim>\<open>data/database/mgo/mongoutil/\<close>, \<^verbatim>\<open>service/mgo/mgo.go\<close>).

  \<^bold>\<open>Interfaces.\<close> The locales are the contracts between components, each interpreted on the code's own definitions: \<open>dao_iface\<close> and
  \<open>seq_system\<close> (what the allocator needs of its store, given by \<open>mongo_driver\<close>), \<open>idem_store\<close> (a store of
  seen messages), \<open>balancer\<close> (what picking an instance needs), \<open>entry_tables\<close> (what the projector needs of a timeline).

  \<^bold>\<open>Not modelled.\<close> Generated code, except the fields of its messages the program uses. Structs of documents without any operation
  (groups, friends, most of the help desk's model) and logging. \<^verbatim>\<open>main.go\<close>, a try-out of reflection, and
  \<^verbatim>\<open>tools/safe\<close>, which nothing calls. Listening on ports, health checks, reading deadlines and the compilation of scripts, which
  are calls of libraries. Delays matter only where the code compares them: \<open>time.Sleep\<close> is a step.
\<close>

end
